(* ===== verification/Prelude.thy ===== *)
theory Prelude
  imports Main
begin

text \<open>
  What every component shares: the names of the data types the backend passes around, the
  errors its code throws, the state-and-exception operations the services are written in,
  and the table operations (\<open>select ... limit 1\<close>, \<open>update ... where\<close>, \<open>insert\<close>)
  with their laws.

  An asynchronous service function becomes an operation \<open>('s, 'a) op\<close>: it reads a state,
  and returns a value or the error that was thrown, together with the state it leaves behind.
  An error does not undo the writes made before it (the code only rolls back inside
  \<open>db.transaction\<close>), so the state is returned on both sides.
\<close>

named_theorems op_simps "unfolding of the operation combinators"
named_theorems preserves_intros "what an operation needs to keep an invariant"

section \<open>Names and errors\<close>

text \<open>A row id is the 128-bit value of its UUID, amounts are kobo bigints (JavaScript's, which have no bound; the error Postgres
  raises for a \<open>bigint\<close> column beyond 2^63 is not modelled), times are epoch milliseconds. A character is a code unit up
  to 255, so the naira sign in the texts of errors is written N.\<close>

type_synonym uuid = nat
type_synonym kobo = int
type_synonym time = int

text \<open>
  Every class of error thrown in the backend. \<open>PotError\<close>, \<open>LedgerError\<close> and \<open>AuthError\<close>
  carry the message and the HTTP status; \<open>NombaApiError\<close> carries Nomba's HTTP status, 0 for
  a request that got no response. \<open>UniqueViolation\<close> is the database's 23505,
  \<open>UnrecoverableError\<close> and \<open>DelayedError\<close> are the two classes BullMQ gives a meaning to.
\<close>

datatype error =
    PotError string nat
  | LedgerError string nat
  | UnbalancedTransactionError
  | DuplicateTransactionReferenceError string
  | InsufficientBalanceError uuid
  | AuthError string nat
  | RateLimitError string int
  | IdempotencyKeyReuseError
  | IdempotencyInProgressError
  | IdempotencyIndeterminateError
  | IndeterminateFailureError error
  | AccountVerificationError
  | NombaApiError string int
  | WebhookVerificationError string
  | UnrecoverableError string
  | DelayedError
  | UniqueViolation
  | PlainError string

definition PotNotFoundError :: error where
  "PotNotFoundError = PotError ''Pot not found'' 404"

section \<open>Operations\<close>

type_synonym ('s, 'a) op = "'s \<Rightarrow> (error + 'a) \<times> 's"

definition ret :: "'a \<Rightarrow> ('s, 'a) op" where
  "ret x s = (Inr x, s)"

definition throw :: "error \<Rightarrow> ('s, 'a) op" where
  "throw e s = (Inl e, s)"

definition bnd :: "('s, 'a) op \<Rightarrow> ('a \<Rightarrow> ('s, 'b) op) \<Rightarrow> ('s, 'b) op" where
  "bnd m f s = (case m s of (Inl e, s') \<Rightarrow> (Inl e, s') | (Inr x, s') \<Rightarrow> f x s')"

abbreviation seq :: "('s, 'a) op \<Rightarrow> ('s, 'b) op \<Rightarrow> ('s, 'b) op" where
  "seq m n \<equiv> bnd m (\<lambda>_. n)"

definition gets :: "('s \<Rightarrow> 'a) \<Rightarrow> ('s, 'a) op" where
  "gets f s = (Inr (f s), s)"

definition modify :: "('s \<Rightarrow> 's) \<Rightarrow> ('s, unit) op" where
  "modify f s = (Inr (), f s)"

text \<open>\<open>if (!b) throw e\<close>, an error value raised, and \<open>if (b) m\<close>.\<close>

definition require :: "bool \<Rightarrow> error \<Rightarrow> ('s, unit) op" where
  "require b e = (if b then ret () else throw e)"

definition from_sum :: "error + 'a \<Rightarrow> ('s, 'a) op" where
  "from_sum r s = (r, s)"

definition when_op :: "bool \<Rightarrow> ('s, unit) op \<Rightarrow> ('s, unit) op" where
  "when_op b m = (if b then m else ret ())"

text \<open>\<open>try m catch (e) h e\<close>: the handler starts from the state the failed body left.\<close>

definition catch_op :: "('s, 'a) op \<Rightarrow> (error \<Rightarrow> ('s, 'a) op) \<Rightarrow> ('s, 'a) op" where
  "catch_op m h s = (case m s of (Inl e, s') \<Rightarrow> h e s' | (Inr x, s') \<Rightarrow> (Inr x, s'))"

text \<open>\<open>db.transaction(...)\<close>: an error rolls the state back.\<close>

definition atomically :: "('s, 'a) op \<Rightarrow> ('s, 'a) op" where
  "atomically m s = (case m s of (Inl e, s') \<Rightarrow> (Inl e, s) | (Inr x, s') \<Rightarrow> (Inr x, s'))"

text \<open>An operation of one part of the state, run on the whole.\<close>

definition on_part :: "('s \<Rightarrow> 'p) \<Rightarrow> (('p \<Rightarrow> 'p) \<Rightarrow> 's \<Rightarrow> 's) \<Rightarrow> ('p, 'a) op \<Rightarrow> ('s, 'a) op" where
  "on_part part upd m s = (case m (part s) of (r, p) \<Rightarrow> (r, upd (\<lambda>_. p) s))"

text \<open>\<open>for (const x of xs) body\<close>, stopping at the first error.\<close>

fun for_each :: "'b list \<Rightarrow> ('b \<Rightarrow> ('s, unit) op) \<Rightarrow> ('s, unit) op" where
  "for_each [] f = ret ()"
| "for_each (x # xs) f = bnd (f x) (\<lambda>_. for_each xs f)"

text \<open>A loop that carries an accumulator, and \<open>Promise.all(xs.map(f))\<close> in list order.\<close>

fun fold_op :: "('b \<Rightarrow> 'a \<Rightarrow> ('s, 'a) op) \<Rightarrow> 'b list \<Rightarrow> 'a \<Rightarrow> ('s, 'a) op" where
  "fold_op f [] a = ret a"
| "fold_op f (x # xs) a = bnd (f x a) (\<lambda>a'. fold_op f xs a')"

fun map_op :: "('b \<Rightarrow> ('s, 'a) op) \<Rightarrow> 'b list \<Rightarrow> ('s, 'a list) op" where
  "map_op f [] = ret []"
| "map_op f (x # xs) = bnd (f x) (\<lambda>y. bnd (map_op f xs) (\<lambda>ys. ret (y # ys)))"

declare ret_def [op_simps] throw_def [op_simps] bnd_def [op_simps] gets_def [op_simps]
  modify_def [op_simps] require_def [op_simps] from_sum_def [op_simps] when_op_def [op_simps]
  catch_op_def [op_simps] atomically_def [op_simps] on_part_def [op_simps]

lemma bnd_ret [simp]: "bnd (ret x) f = f x"
  by (simp add: bnd_def ret_def fun_eq_iff)

lemma bnd_throw [simp]: "bnd (throw e) f = throw e"
  by (simp add: bnd_def throw_def fun_eq_iff)

lemma bnd_assoc: "bnd (bnd m f) g = bnd m (\<lambda>x. bnd (f x) g)"
  by (auto simp: bnd_def fun_eq_iff split: prod.splits sum.splits)

lemma require_True [simp]: "require True e = ret ()"
  by (simp add: require_def)

lemma require_False [simp]: "require False e = throw e"
  by (simp add: require_def)

lemma bnd_gets [simp]: "bnd (gets f) g s = g (f s) s"
  by (simp add: bnd_def gets_def)

lemma bnd_modify [simp]: "bnd (modify f) g s = g () (f s)"
  by (simp add: bnd_def modify_def)

lemma bnd_require: "bnd (require b e) f s = (if b then f () s else (Inl e, s))"
  by (simp add: bnd_def require_def ret_def throw_def)

lemma bnd_run: "m s = (Inr x, s') \<Longrightarrow> bnd m f s = f x s'"
  by (simp add: bnd_def)

lemma bnd_fail: "m s = (Inl e, s') \<Longrightarrow> bnd m f s = (Inl e, s')"
  by (simp add: bnd_def)

lemma bnd_Inr_iff:
  "bnd m f s = (Inr y, t) \<longleftrightarrow> (\<exists>x s'. m s = (Inr x, s') \<and> f x s' = (Inr y, t))"
  by (auto simp: bnd_def split: prod.splits sum.splits)

lemma bnd_Inl_iff:
  "bnd m f s = (Inl e, t) \<longleftrightarrow>
     m s = (Inl e, t) \<or> (\<exists>x s'. m s = (Inr x, s') \<and> f x s' = (Inl e, t))"
  by (auto simp: bnd_def split: prod.splits sum.splits)

lemma op_eq_iff [simp]:
  "ret x s = (r, t) \<longleftrightarrow> r = Inr x \<and> t = s"
  "throw e s = (r', t) \<longleftrightarrow> r' = Inl e \<and> t = s"
  "gets g s = (r'', t) \<longleftrightarrow> r'' = Inr (g s) \<and> t = s"
  "modify h s = (r''', t) \<longleftrightarrow> r''' = Inr () \<and> t = h s"
  by (auto simp: ret_def throw_def gets_def modify_def)

lemma require_Inr_iff [simp]: "require b e s = (Inr x, t) \<longleftrightarrow> b \<and> t = s"
  by (auto simp: require_def ret_def throw_def)

lemma require_Inl_iff [simp]: "require b e s = (Inl e', t) \<longleftrightarrow> \<not> b \<and> e' = e \<and> t = s"
  by (auto simp: require_def ret_def throw_def)

lemma atomically_error: "fst (atomically m s) = Inl e \<Longrightarrow> snd (atomically m s) = s"
  by (auto simp: atomically_def split: prod.splits sum.splits)

lemma atomically_Inr_iff: "atomically m s = (Inr x, t) \<longleftrightarrow> m s = (Inr x, t)"
  by (auto simp: atomically_def split: prod.splits sum.splits)

subsection \<open>Keeping an invariant\<close>

text \<open>An operation keeps \<open>I\<close> when it holds afterwards whether the operation returns or throws.\<close>

definition preserves :: "('s \<Rightarrow> bool) \<Rightarrow> ('s, 'a) op \<Rightarrow> bool" where
  "preserves I m \<longleftrightarrow> (\<forall>s. I s \<longrightarrow> I (snd (m s)))"

lemma preservesI: "(\<And>s. I s \<Longrightarrow> I (snd (m s))) \<Longrightarrow> preserves I m"
  by (simp add: preserves_def)

lemma preservesD: "preserves I m \<Longrightarrow> I s \<Longrightarrow> m s = (r, t) \<Longrightarrow> I t"
  by (metis preserves_def snd_conv)

lemma preserves_ret [preserves_intros]: "preserves I (ret x)"
  by (simp add: preserves_def ret_def)

lemma preserves_throw [preserves_intros]: "preserves I (throw e)"
  by (simp add: preserves_def throw_def)

lemma preserves_gets [preserves_intros]: "preserves I (gets f)"
  by (simp add: preserves_def gets_def)

lemma preserves_require [preserves_intros]: "preserves I (require b e)"
  by (simp add: preserves_def require_def ret_def throw_def)

lemma preserves_from_sum [preserves_intros]: "preserves I (from_sum r)"
  by (simp add: preserves_def from_sum_def)

lemma preserves_modify: "(\<And>s. I s \<Longrightarrow> I (f s)) \<Longrightarrow> preserves I (modify f)"
  by (simp add: preserves_def modify_def)

lemma preserves_bnd [preserves_intros]:
  "preserves I m \<Longrightarrow> (\<And>x. preserves I (f x)) \<Longrightarrow> preserves I (bnd m f)"
  by (force simp: preserves_def bnd_def split: prod.splits sum.splits)

lemma preserves_when [preserves_intros]: "preserves I m \<Longrightarrow> preserves I (when_op b m)"
  by (simp add: when_op_def preserves_ret)

lemma preserves_catch [preserves_intros]:
  "preserves I m \<Longrightarrow> (\<And>e. preserves I (h e)) \<Longrightarrow> preserves I (catch_op m h)"
  by (force simp: preserves_def catch_op_def split: prod.splits sum.splits)

lemma preserves_atomically [preserves_intros]: "preserves I m \<Longrightarrow> preserves I (atomically m)"
  by (force simp: preserves_def atomically_def split: prod.splits sum.splits)

lemma preserves_if [preserves_intros]:
  "preserves I m \<Longrightarrow> preserves I n \<Longrightarrow> preserves I (if b then m else n)"
  by simp

lemma preserves_case_option [preserves_intros]:
  "preserves I m \<Longrightarrow> (\<And>x. preserves I (f x)) \<Longrightarrow>
   preserves I (case v of None \<Rightarrow> m | Some x \<Rightarrow> f x)"
  by (cases v) auto

lemma preserves_case_sum [preserves_intros]:
  "(\<And>e. preserves I (g e)) \<Longrightarrow> (\<And>x. preserves I (f x)) \<Longrightarrow>
   preserves I (case v of Inl e \<Rightarrow> g e | Inr x \<Rightarrow> f x)"
  by (cases v) auto

lemma preserves_case_prod [preserves_intros]:
  "(\<And>x y. preserves I (f x y)) \<Longrightarrow> preserves I (case v of (x, y) \<Rightarrow> f x y)"
  by (cases v) auto

lemma preserves_for_each [preserves_intros]:
  "(\<And>x. preserves I (f x)) \<Longrightarrow> preserves I (for_each xs f)"
  by (induction xs) (auto intro: preserves_intros)

lemma preserves_fold_op [preserves_intros]:
  "(\<And>x a. preserves I (f x a)) \<Longrightarrow> preserves I (fold_op f xs a)"
  by (induction xs arbitrary: a) (auto intro: preserves_intros)

lemma preserves_map_op [preserves_intros]:
  "(\<And>x. preserves I (f x)) \<Longrightarrow> preserves I (map_op f xs)"
  by (induction xs) (auto intro!: preserves_intros)

lemma fold_op_append: "fold_op f (xs @ ys) a = bnd (fold_op f xs a) (fold_op f ys)"
proof (induction xs arbitrary: a)
  case (Cons x xs)
  then have "fold_op f (xs @ ys) = (\<lambda>a. bnd (fold_op f xs a) (fold_op f ys))" by blast
  then show ?case by (simp add: bnd_assoc)
qed simp

section \<open>Tables\<close>

text \<open>
  A table is the list of its rows in insertion order. \<open>select ... where P limit 1\<close> is
  \<open>find P\<close>; \<open>update ... set f where P\<close> is \<open>update_where P f\<close>; a new row's id is one no
  row of the table has.
\<close>

definition update_where :: "('r \<Rightarrow> bool) \<Rightarrow> ('r \<Rightarrow> 'r) \<Rightarrow> 'r list \<Rightarrow> 'r list" where
  "update_where P f rows = map (\<lambda>r. if P r then f r else r) rows"

definition fresh_id :: "uuid list \<Rightarrow> uuid" where
  "fresh_id ids = Suc (fold max ids 0)"

lemma fold_max_ge: "a \<le> fold max ids (a :: nat)" "x \<in> set ids \<Longrightarrow> x \<le> fold max ids a"
proof (induction ids arbitrary: a)
  case (Cons y ys)
  {
    case 1
    then show ?case using Cons(1)[of "max y a"] by (simp add: max.bounded_iff)
  next
    case 2
    then show ?case using Cons[of "max y a"] by (auto simp: max.bounded_iff)
  }
qed simp_all

lemma fresh_id_notin: "fresh_id ids \<notin> set ids"
  unfolding fresh_id_def using fold_max_ge(2) not_less_eq_eq by blast

lemma update_where_Nil [simp]: "update_where P f [] = []"
  by (simp add: update_where_def)

lemma update_where_Cons [simp]:
  "update_where P f (r # rs) = (if P r then f r else r) # update_where P f rs"
  by (simp add: update_where_def)

lemma update_where_append [simp]:
  "update_where P f (xs @ ys) = update_where P f xs @ update_where P f ys"
  by (simp add: update_where_def)

lemma length_update_where [simp]: "length (update_where P f rows) = length rows"
  by (simp add: update_where_def)

lemma set_update_where: "set (update_where P f rows) = (\<lambda>r. if P r then f r else r) ` set rows"
  by (simp add: update_where_def)

lemma update_where_id: "(\<And>r. r \<in> set rows \<Longrightarrow> P r \<Longrightarrow> f r = r) \<Longrightarrow> update_where P f rows = rows"
  by (induction rows) auto

lemma update_where_none: "(\<And>r. r \<in> set rows \<Longrightarrow> \<not> P r) \<Longrightarrow> update_where P f rows = rows"
  by (induction rows) auto

lemma map_update_where:
  "(\<And>r. P r \<Longrightarrow> g (f r) = g r) \<Longrightarrow> map g (update_where P f rows) = map g rows"
  by (induction rows) auto

lemma find_append:
  "find P (xs @ ys) = (case find P xs of None \<Rightarrow> find P ys | Some r \<Rightarrow> Some r)"
  by (induction xs) auto

lemma find_SomeD: "find P xs = Some r \<Longrightarrow> r \<in> set xs \<and> P r"
  by (metis find_Some_iff nth_mem)

lemma find_NoneD: "find P xs = None \<Longrightarrow> r \<in> set xs \<Longrightarrow> \<not> P r"
  by (simp add: find_None_iff)

lemma find_key_SomeI:
  "distinct (map key rows) \<Longrightarrow> r \<in> set rows \<Longrightarrow> find (\<lambda>x. key x = key r) rows = Some r"
  by (induction rows) (auto simp: rev_image_eqI)

lemma find_key_exists: "k \<in> key ` set rows \<Longrightarrow> \<exists>r. find (\<lambda>x. key x = k) rows = Some r"
  by (induction rows) auto

lemma find_key_image: "find (\<lambda>x. key x = k) rows = Some r \<Longrightarrow> k \<in> key ` set rows"
  by (induction rows) (auto split: if_splits)

lemma find_key_None_iff: "find (\<lambda>x. key x = k) rows = None \<longleftrightarrow> k \<notin> key ` set rows"
  by (induction rows) auto

lemma find_update_where:
  "(\<And>r. Q r \<Longrightarrow> P (f r) = P r) \<Longrightarrow>
   find P (update_where Q f rows) = map_option (\<lambda>r. if Q r then f r else r) (find P rows)"
  by (induction rows) auto

lemma preserves_eq_iff: "preserves (\<lambda>s. g s = c) m \<Longrightarrow> g s = c \<Longrightarrow> g (snd (m s)) = c"
  by (simp add: preserves_def)

text \<open>A part of the state an operation leaves alone.\<close>

definition untouched :: "('s \<Rightarrow> 'p) \<Rightarrow> ('s, 'a) op \<Rightarrow> bool" where
  "untouched part m \<longleftrightarrow> (\<forall>c. preserves (\<lambda>s. part s = c) m)"

lemma untouchedI: "(\<And>c. preserves (\<lambda>s. part s = c) m) \<Longrightarrow> untouched part m"
  by (simp add: untouched_def)

lemma untouchedD: "untouched part m \<Longrightarrow> m s = (r, t) \<Longrightarrow> part t = part s"
  by (auto simp: untouched_def preserves_def dest!: spec[of _ "part s"] spec[of _ s])

subsection \<open>The interface of a keyed table\<close>

text \<open>
  What the services rely on when they update rows selected by their key: the update leaves
  every key as it is. The laws are proved once here and used by every table of the schema.
\<close>

locale keyed_update =
  fixes key :: "'r \<Rightarrow> 'k" and upd :: "'r \<Rightarrow> 'r"
  assumes key_upd: "key (upd r) = key r"
begin

lemma keys_kept: "map key (update_where P upd rows) = map key rows"
  by (simp add: map_update_where key_upd)

lemma find_same:
  "find (\<lambda>r. key r = k) (update_where (\<lambda>r. key r = k) upd rows) =
   map_option upd (find (\<lambda>r. key r = k) rows)"
  by (induction rows) (auto simp: key_upd)

lemma find_other:
  "k' \<noteq> k \<Longrightarrow>
   find (\<lambda>r. key r = k') (update_where (\<lambda>r. key r = k) upd rows) = find (\<lambda>r. key r = k') rows"
  by (induction rows) (auto simp: key_upd)

lemma find_if:
  "find (\<lambda>r. key r = k') (update_where (\<lambda>r. key r = k) upd rows) =
   (if k' = k then map_option upd (find (\<lambda>r. key r = k) rows) else find (\<lambda>r. key r = k') rows)"
  by (simp add: find_same find_other)

end

end
