(* ===== verification/Schema.thy ===== *)
theory Schema
  imports Prelude
begin

text \<open>
  The tables of \<open>apps/backend/src/db/schema/\<close>, one record per table with the columns of
  the source, the transfer jobs of \<open>disbursement-job.types.ts\<close>, and the state the services
  run on: the ledger tables (which \<open>LedgerService\<close> writes inside one database transaction),
  the other tables, the \<open>transfers\<close> queue, a record of what left the process (calls to
  Nomba's transfer endpoint, mails), and how many random ids have been drawn. \<open>createdAt\<close>/\<open>updatedAt\<close> columns are kept where some
  query orders or filters by them.
\<close>

section \<open>Ledger tables\<close>

text \<open>\<open>accounts.ts\<close>\<close>

datatype owner_type =
    pot_owner | platform_revenue | platform_float | suspense | provider_settlement
  | nomba_fee_expense | nomba_clearing

datatype direction = debit | credit

datatype account_status = account_active | account_frozen | account_closed

record account =
  acc_id :: uuid
  acc_ownerType :: owner_type
  acc_ownerId :: "uuid option"
  acc_currency :: string
  acc_normalBalance :: direction
  acc_status :: account_status

text \<open>\<open>transactions.ts\<close>; \<open>disbursement-job.types.ts\<close>'s \<open>DisbursementOnSuccess\<close>.\<close>

datatype transaction_type =
    ty_funding | ty_contribution | ty_payout | ty_refund | ty_fee | ty_transfer | ty_reversal

datatype transaction_status =
    tx_pending | tx_processing | tx_completed | tx_failed | tx_reversed

datatype DisbursementOnSuccess =
    mark_target_based_fired uuid
  | advance_recurring_next_run_at uuid
  | mark_scheduled_leg_fired uuid

text \<open>The JSON \<open>metadata\<close> column: every key some writer stores, each optional.\<close>

record metadata =
  md_potId :: "uuid option"
  md_contributorUserId :: "uuid option"
  md_anonymous :: "bool option"
  md_senderName :: "string option"
  md_refundAccountNumber :: "string option"
  md_refundAccountName :: "string option"
  md_refundBank :: "string option"
  md_destinationAccountName :: "string option"
  md_contributionId :: "uuid option"
  md_contributionPaymentId :: "uuid option"
  md_reversalOf :: "uuid option"

definition no_metadata :: metadata where
  "no_metadata = \<lparr>md_potId = None, md_contributorUserId = None, md_anonymous = None,
     md_senderName = None, md_refundAccountNumber = None, md_refundAccountName = None, md_refundBank = None,
     md_destinationAccountName = None, md_contributionId = None,
     md_contributionPaymentId = None, md_reversalOf = None\<rparr>"

record transaction =
  tx_id :: uuid
  tx_type :: transaction_type
  tx_status :: transaction_status
  tx_reference :: string
  tx_externalReference :: "string option"
  tx_amount :: kobo
  tx_metadata :: "metadata option"
  tx_onSuccess :: "DisbursementOnSuccess option"
  tx_completedAt :: "time option"
  tx_createdAt :: time

text \<open>\<open>ledger-entries.ts\<close>, \<open>balances.ts\<close>\<close>

record ledger_entry =
  le_transactionId :: uuid
  le_accountId :: uuid
  le_direction :: direction
  le_amount :: kobo
  le_balanceAfter :: kobo

record balance =
  bal_accountId :: uuid
  bal_ledgerBalance :: kobo
  bal_availableBalance :: kobo
  bal_version :: int

record ledger =
  accounts :: "account list"
  transactions :: "transaction list"
  ledgerEntries :: "ledger_entry list"
  balances :: "balance list"

definition empty_ledger :: ledger where
  "empty_ledger = \<lparr>accounts = [], transactions = [], ledgerEntries = [], balances = []\<rparr>"

section \<open>People, pots and members\<close>

text \<open>\<open>users.ts\<close>\<close>

record user =
  u_id :: uuid
  u_email :: string
  u_username :: string
  u_passwordHash :: string
  u_fullName :: string
  u_phone :: "string option"
  u_emailVerifiedAt :: "time option"
  u_refreshTokenHash :: "string option"
  u_refreshTokenExpiresAt :: "time option"
  u_tokenVersion :: int
  u_defaultRefundAccount :: "string option"
  u_defaultRefundBank :: "string option"

text \<open>\<open>pots.ts\<close>\<close>

datatype pot_type = public_pot | private_pot
datatype pot_status = draft | pot_open | pot_closed
datatype payout_mode = target_based | manual | recurring | scheduled
datatype refund_type = refund_admin | refund_contributors
datatype pending_operation = op_payout | op_refund

record pot =
  pot_id :: uuid
  pot_creatorId :: uuid
  pot_title :: string
  pot_description :: "string option"
  pot_potType :: pot_type
  pot_status :: pot_status
  pot_payoutMode :: payout_mode
  pot_refundType :: refund_type
  pot_shareSlug :: string
  pot_minContribution :: kobo
  pot_maxContribution :: "kobo option"
  pot_goalAmount :: "kobo option"
  pot_pendingOperation :: "pending_operation option"
  pot_pendingOperationTransactionId :: "uuid option"
  pot_pendingOperationLegCount :: "int option"
  pot_activatedAt :: "time option"
  pot_closedAt :: "time option"
  pot_createdAt :: time
  pot_updatedAt :: time

text \<open>\<open>pot-members.ts\<close>, \<open>pot-pending-members.ts\<close>\<close>

datatype role = role_admin | role_member

record pot_member =
  mb_id :: uuid
  mb_potId :: uuid
  mb_userId :: uuid
  mb_role :: role
  mb_addedByUserId :: "uuid option"

datatype pending_status = pm_pending | pm_joined | pm_removed

record pending_member =
  pm_id :: uuid
  pm_potId :: uuid
  pm_email :: string
  pm_role :: role
  pm_status :: pending_status
  pm_addedByUserId :: uuid
  pm_joinedUserId :: "uuid option"
  pm_joinedAt :: "time option"

section \<open>Payout rules\<close>

text \<open>\<open>target-based-\<close>, \<open>manual-\<close>, \<open>recurring-\<close>, \<open>scheduled-payout-configs.ts\<close>\<close>

record target_based_config =
  tb_id :: uuid
  tb_potId :: uuid
  tb_destinationAccount :: string
  tb_destinationBank :: string
  tb_destinationAccountName :: string
  tb_targetDate :: "time option"
  tb_targetAmount :: "kobo option"
  tb_fired :: bool
  tb_firedAt :: "time option"

record manual_config =
  mc_id :: uuid
  mc_potId :: uuid
  mc_destinationAccount :: "string option"
  mc_destinationBank :: "string option"
  mc_destinationAccountName :: "string option"

record recurring_config =
  rc_id :: uuid
  rc_potId :: uuid
  rc_destinationAccount :: string
  rc_destinationBank :: string
  rc_destinationAccountName :: string
  rc_amount :: kobo
  rc_intervalDays :: int
  rc_nextRunAt :: time

record scheduled_config =
  sc_id :: uuid
  sc_potId :: uuid
  sc_ordered :: bool

record scheduled_leg =
  sl_id :: uuid
  sl_scheduledConfigId :: uuid
  sl_sequenceOrder :: int
  sl_destinationAccount :: string
  sl_destinationBank :: string
  sl_destinationAccountName :: string
  sl_amount :: kobo
  sl_scheduledDate :: time
  sl_fired :: bool
  sl_firedAt :: "time option"

section \<open>Contributions\<close>

text \<open>\<open>contributions.ts\<close>, \<open>contribution-payments.ts\<close>\<close>

datatype contribution_status = c_pending | c_funded | c_underpaid | c_failed | c_reversed

record contribution =
  c_id :: uuid
  c_potId :: uuid
  c_contributorUserId :: "uuid option"
  c_virtualAccountRef :: string
  c_virtualAccountNumber :: "string option"
  c_virtualAccountBankName :: "string option"
  c_expectedAmount :: kobo
  c_intendedAmount :: kobo
  c_status :: contribution_status
  c_anonymous :: bool
  c_refundAccountNumber :: "string option"
  c_refundAccountName :: "string option"
  c_refundBank :: "string option"
  c_transactionId :: "uuid option"
  c_expiresAt :: time
  c_fundedAt :: "time option"

record contribution_payment =
  cp_id :: uuid
  cp_contributionId :: uuid
  cp_nombaTransactionId :: string
  cp_amount :: kobo
  cp_senderAccountNumber :: string
  cp_senderBankCode :: string
  cp_senderName :: string
  cp_refunded :: bool

section \<open>Transfer jobs and the outside world\<close>

text \<open>
  \<open>DisbursementJobData\<close>: the three kinds of transfer job. \<open>amount\<close> travels as decimal text;
  the model keeps the bigint it stands for.
\<close>

record ledger_job =
  lj_potId :: uuid
  lj_amount :: kobo
  lj_destinationAccount :: string
  lj_destinationBank :: string
  lj_reference :: string
  lj_contributorUserId :: "uuid option"
  lj_isFanOutLeg :: bool
  lj_onSuccess :: "DisbursementOnSuccess option"

record contribution_refund_job =
  rj_contributionId :: uuid
  rj_contributionPaymentId :: uuid
  rj_amount :: kobo
  rj_destinationAccount :: string
  rj_destinationBank :: string
  rj_reference :: string

datatype DisbursementJobData =
    job_payout ledger_job
  | job_pot_refund ledger_job
  | job_contribution_refund contribution_refund_job

text \<open>The body of a call to Nomba's transfer endpoint, and the statuses it answers with:
  \<open>SUCCESS\<close>, \<open>PENDING_BILLING\<close>, or a failure code. The code sends the amount as \<open>Number(koboToNairaString(...))\<close>; the
  model keeps the text that \<open>Number\<close> reads, which \<open>Numbers.float_detour_exact\<close> shows to lose nothing below 2^52 kobo.\<close>

record transfer_params =
  tp_amountNaira :: string
  tp_accountNumber :: string
  tp_accountName :: string
  tp_bankCode :: string
  tp_merchantTxRef :: string
  tp_senderName :: string
  tp_narration :: string

datatype transfer_status = SUCCESS | PENDING_BILLING | FAILURE_CODE string

section \<open>Events, keys, codes and failed jobs\<close>

text \<open>\<open>provider-events.ts\<close>, with the payload the services read (\<open>WebhookTransactionData\<close>). The amount is
  the text \<open>transactionAmount.toFixed(2)\<close>, the only way the code reads that number.\<close>

datatype event_type =
    payment_success | payment_failed | payment_reversal | payout_success | payout_failed | payout_refund

record webhook_data =
  wd_transactionId :: string
  wd_amountFixed2 :: string
  wd_aliasAccountNumber :: "string option"
  wd_merchantTxRef :: "string option"
  wd_senderName :: "string option"
  wd_accountNumber :: "string option"
  wd_bankCode :: "string option"

record provider_event =
  pe_id :: uuid
  pe_eventId :: string
  pe_eventType :: string
  pe_signatureValid :: bool
  pe_processed :: bool
  pe_processedAt :: "time option"
  pe_claimedAt :: "time option"

text \<open>\<open>idempotency-keys.ts\<close>; a cached response is its status code and body text.\<close>

datatype idempotency_status = in_progress | completed | failed_indeterminate

record idempotency_key =
  ik_key :: string
  ik_requestHash :: string
  ik_response :: "(nat \<times> string) option"
  ik_status :: idempotency_status
  ik_expiresAt :: time

text \<open>\<open>action-otp-codes.ts\<close>, \<open>otp-codes.ts\<close>\<close>

datatype otp_action = trigger_payout | trigger_refund

record action_otp =
  ao_id :: uuid
  ao_userId :: uuid
  ao_action :: otp_action
  ao_potId :: uuid
  ao_contextHash :: string
  ao_codeHash :: string
  ao_attemptCount :: int
  ao_maxAttempts :: int
  ao_expiresAt :: time
  ao_consumedAt :: "time option"
  ao_consumedByIdempotencyKey :: "string option"
  ao_createdAt :: time

datatype otp_purpose = signup_verification | login_purpose | password_reset

record otp_code =
  oc_id :: uuid
  oc_userId :: uuid
  oc_purpose :: otp_purpose
  oc_codeHash :: string
  oc_attemptCount :: int
  oc_maxAttempts :: int
  oc_expiresAt :: time
  oc_consumedAt :: "time option"
  oc_createdAt :: time

text \<open>\<open>failed-jobs.ts\<close>; the data of a job of the transfers queue, or the hours back of a cron job that has any\<close>

datatype job_data = transfer_data DisbursementJobData | cron_data "int option"

datatype failed_job_status = fj_pending | fj_retried | fj_ignored

record failed_job =
  fj_id :: uuid
  fj_queueName :: string
  fj_jobName :: string
  fj_jobId :: string
  fj_data :: job_data
  fj_failedReason :: string
  fj_attemptsMade :: int
  fj_status :: failed_job_status
  fj_resolvedAt :: "time option"
  fj_createdAt :: time

text \<open>\<open>settlement-batches.ts\<close>, \<open>reconciliation-records.ts\<close>\<close>

datatype settlement_status = sb_open | sb_matched | sb_mismatched | sb_resolved

record settlement_batch =
  sb_id :: uuid
  sb_batchReference :: string
  sb_periodStart :: time
  sb_periodEnd :: time
  sb_expectedAmount :: kobo
  sb_reportedAmount :: "kobo option"
  sb_status :: settlement_status

datatype record_status = rr_matched | rr_unmatched_internal | rr_unmatched_external | rr_amount_mismatch | rr_resolved

record reconciliation_record =
  rr_id :: uuid
  rr_settlementBatchId :: "uuid option"
  rr_transactionId :: "uuid option"
  rr_externalReference :: string
  rr_internalAmount :: "kobo option"
  rr_externalAmount :: "kobo option"
  rr_status :: record_status

record db =
  led :: ledger
  users :: "user list"
  pots :: "pot list"
  potMembers :: "pot_member list"
  potPendingMembers :: "pending_member list"
  targetBasedPayoutConfigs :: "target_based_config list"
  manualPayoutConfigs :: "manual_config list"
  recurringPayoutConfigs :: "recurring_config list"
  scheduledPayoutConfigs :: "scheduled_config list"
  scheduledPayoutLegs :: "scheduled_leg list"
  contributions :: "contribution list"
  contributionPayments :: "contribution_payment list"
  providerEvents :: "provider_event list"
  idempotencyKeys :: "idempotency_key list"
  actionOtpCodes :: "action_otp list"
  otpCodes :: "otp_code list"
  failedJobs :: "failed_job list"
  settlementBatches :: "settlement_batch list"
  reconciliationRecords :: "reconciliation_record list"
  transfersQueue :: "DisbursementJobData list"
  payoutCronQueue :: "(string \<times> int option) list"
  nombaTransfers :: "transfer_params list"
  sentMails :: "(string \<times> string) list"
  randomDraws :: nat

definition empty_db :: db where
  "empty_db = \<lparr>led = empty_ledger, users = [], pots = [], potMembers = [], potPendingMembers = [],
     targetBasedPayoutConfigs = [], manualPayoutConfigs = [], recurringPayoutConfigs = [],
     scheduledPayoutConfigs = [], scheduledPayoutLegs = [], contributions = [],
     contributionPayments = [], providerEvents = [], idempotencyKeys = [], actionOtpCodes = [], otpCodes = [],
     failedJobs = [], settlementBatches = [], reconciliationRecords = [], transfersQueue = [], payoutCronQueue = [], nombaTransfers = [], sentMails = [], randomDraws = 0\<rparr>"

text \<open>A ledger operation run on the whole state.\<close>

definition in_ledger :: "(ledger, 'a) op \<Rightarrow> (db, 'a) op" where
  "in_ledger = on_part led led_update"

lemma in_ledger_run: "in_ledger m s = (fst (m (led s)), s\<lparr>led := snd (m (led s))\<rparr>)"
  by (simp add: in_ledger_def on_part_def split: prod.split)

lemma in_ledger_Inr_iff:
  "in_ledger m s = (Inr x, t) \<longleftrightarrow> (\<exists>l. m (led s) = (Inr x, l) \<and> t = s\<lparr>led := l\<rparr>)"
  by (cases "m (led s)") (auto simp: in_ledger_run)

lemma in_ledger_Inl_iff:
  "in_ledger m s = (Inl e, t) \<longleftrightarrow> (\<exists>l. m (led s) = (Inl e, l) \<and> t = s\<lparr>led := l\<rparr>)"
  by (cases "m (led s)") (auto simp: in_ledger_run)

text \<open>What no ledger operation touches.\<close>

lemma preserves_in_ledger:
  "preserves J m \<Longrightarrow> (\<And>s l. I s \<Longrightarrow> J (led s) \<and> (J l \<longrightarrow> I (s\<lparr>led := l\<rparr>))) \<Longrightarrow> preserves I (in_ledger m)"
  by (simp add: preserves_def in_ledger_run)

lemma preserves_in_ledger_frame:
  "(\<And>s l. I (s\<lparr>led := l\<rparr>) = I s) \<Longrightarrow> preserves I (in_ledger m)"
  by (simp add: preserves_def in_ledger_run)

text \<open>The status of a pot only ever moves forward: draft, open, closed.\<close>

fun status_rank :: "pot_status \<Rightarrow> nat" where
  "status_rank draft = 0"
| "status_rank pot_open = 1"
| "status_rank pot_closed = 2"

instantiation pot_status :: linorder
begin

definition less_eq_pot_status :: "pot_status \<Rightarrow> pot_status \<Rightarrow> bool" where
  "a \<le> b \<longleftrightarrow> status_rank a \<le> status_rank b"

definition less_pot_status :: "pot_status \<Rightarrow> pot_status \<Rightarrow> bool" where
  "(a :: pot_status) < b \<longleftrightarrow> status_rank a < status_rank b"

instance
proof
  fix a b c :: pot_status
  show "a < b \<longleftrightarrow> a \<le> b \<and> \<not> b \<le> a"
    by (auto simp: less_eq_pot_status_def less_pot_status_def)
  show "a \<le> a" "a \<le> b \<or> b \<le> a"
    by (auto simp: less_eq_pot_status_def)
  show "a \<le> b \<Longrightarrow> b \<le> c \<Longrightarrow> a \<le> c"
    by (auto simp: less_eq_pot_status_def)
  show "a \<le> b \<Longrightarrow> b \<le> a \<Longrightarrow> a = b"
    by (cases a; cases b) (auto simp: less_eq_pot_status_def)
qed

end

end
