(* ===== verification/Ledger.thy ===== *)
theory Ledger
  imports Schema
begin

text \<open>
  \<open>modules/ledger/ledger.service.ts\<close> and \<open>accounts.service.ts\<close>: posting, reversing and
  reading the double-entry ledger. Everything here runs on the \<open>ledger\<close> part of the state.

  The lemmas say what the rest of the code relies on: a posting either changes nothing or adds
  exactly its entries, every account's stored balance is the signed sum of its entries and is
  never negative, entries and transactions are only ever appended, a reference is posted once.
\<close>

section \<open>Accounts\<close>

fun NORMAL_BALANCE_BY_OWNER_TYPE :: "owner_type \<Rightarrow> direction" where
  "NORMAL_BALANCE_BY_OWNER_TYPE pot_owner = credit"
| "NORMAL_BALANCE_BY_OWNER_TYPE platform_revenue = credit"
| "NORMAL_BALANCE_BY_OWNER_TYPE platform_float = debit"
| "NORMAL_BALANCE_BY_OWNER_TYPE provider_settlement = debit"
| "NORMAL_BALANCE_BY_OWNER_TYPE suspense = debit"
| "NORMAL_BALANCE_BY_OWNER_TYPE nomba_fee_expense = debit"
| "NORMAL_BALANCE_BY_OWNER_TYPE nomba_clearing = credit"

text \<open>
  \<open>getOrCreateAccount\<close>. The insert can lose a race: \<open>race\<close> is what other requests did to
  the tables between the select and the insert (the identity when nothing did). The unique
  constraint \<open>accounts_owner_type_owner_id_key\<close> treats null owner ids as distinct, so it only
  ever rejects an insert with an owner id.
\<close>

definition is_account_of :: "owner_type \<Rightarrow> uuid option \<Rightarrow> account \<Rightarrow> bool" where
  "is_account_of ty owner a \<longleftrightarrow> acc_ownerType a = ty \<and> acc_ownerId a = owner"

definition insert_account :: "owner_type \<Rightarrow> uuid option \<Rightarrow> (ledger, account) op" where
  "insert_account ty owner l =
     (if owner \<noteq> None \<and> find (is_account_of ty owner) (accounts l) \<noteq> None
      then (Inl UniqueViolation, l)
      else let a = \<lparr>acc_id = fresh_id (map acc_id (accounts l)), acc_ownerType = ty,
             acc_ownerId = owner, acc_currency = ''NGN'',
             acc_normalBalance = NORMAL_BALANCE_BY_OWNER_TYPE ty, acc_status = account_active\<rparr>
           in (Inr a, l\<lparr>accounts := accounts l @ [a]\<rparr>))"

definition getOrCreateAccount_raced ::
  "(ledger \<Rightarrow> ledger) \<Rightarrow> owner_type \<Rightarrow> uuid option \<Rightarrow> (ledger, account) op" where
  "getOrCreateAccount_raced race ty owner =
     bnd (gets (\<lambda>l. find (is_account_of ty owner) (accounts l))) (\<lambda>existing.
     case existing of
       Some a \<Rightarrow> ret a
     | None \<Rightarrow>
         seq (modify race)
         (catch_op (insert_account ty owner)
            (\<lambda>err. if err = UniqueViolation
                   then bnd (gets (\<lambda>l. find (is_account_of ty owner) (accounts l))) (\<lambda>row.
                          case row of Some a \<Rightarrow> ret a | None \<Rightarrow> throw err)
                   else throw err)))"

definition getOrCreateAccount :: "owner_type \<Rightarrow> uuid option \<Rightarrow> (ledger, account) op" where
  "getOrCreateAccount = getOrCreateAccount_raced id"

definition getOrCreatePotAccount :: "uuid \<Rightarrow> (ledger, account) op" where
  "getOrCreatePotAccount potId = getOrCreateAccount pot_owner (Some potId)"

definition getOrCreateSystemAccount :: "owner_type \<Rightarrow> (ledger, account) op" where
  "getOrCreateSystemAccount ty = getOrCreateAccount ty None"

section \<open>Posting\<close>

record LedgerEntryInput =
  ei_accountId :: uuid
  ei_direction :: direction
  ei_amount :: kobo

record PostTransactionInput =
  pi_type :: transaction_type
  pi_reference :: string
  pi_entries :: "LedgerEntryInput list"
  pi_amount :: kobo
  pi_externalReference :: "string option"
  pi_metadata :: "metadata option"
  pi_status :: "transaction_status option"
  pi_onSuccess :: "DisbursementOnSuccess option"

text \<open>The loop of \<open>assertBalanced\<close> over the entries, with its two running totals.\<close>

fun entry_totals :: "LedgerEntryInput list \<Rightarrow> kobo \<Rightarrow> kobo \<Rightarrow> error + (kobo \<times> kobo)" where
  "entry_totals [] debitTotal creditTotal = Inr (debitTotal, creditTotal)"
| "entry_totals (e # es) debitTotal creditTotal =
     (if ei_amount e \<le> 0 then Inl (LedgerError ''Ledger entry amount must be positive'' 400)
      else if ei_direction e = debit then entry_totals es (debitTotal + ei_amount e) creditTotal
      else entry_totals es debitTotal (creditTotal + ei_amount e))"

definition assertBalanced :: "LedgerEntryInput list \<Rightarrow> error + unit" where
  "assertBalanced entries =
     (if entries = [] then Inl (LedgerError ''A transaction must have at least one ledger entry'' 400)
      else case entry_totals entries 0 0 of
             Inl e \<Rightarrow> Inl e
           | Inr (debitTotal, creditTotal) \<Rightarrow>
               if debitTotal \<noteq> creditTotal then Inl UnbalancedTransactionError else Inr ())"

definition bal_lookup :: "uuid \<Rightarrow> balance list \<Rightarrow> balance option" where
  "bal_lookup a bs = find (\<lambda>b. bal_accountId b = a) bs"

definition set_balance :: "kobo \<Rightarrow> balance \<Rightarrow> balance" where
  "set_balance v b = b\<lparr>bal_ledgerBalance := v, bal_availableBalance := v, bal_version := bal_version b + 1\<rparr>"

definition signedDelta :: "direction \<Rightarrow> direction \<Rightarrow> kobo \<Rightarrow> kobo" where
  "signedDelta normal dir amount = (if dir = normal then amount else - amount)"

text \<open>The update of the locked row, or the insert when the account has none.\<close>

definition upsert_balance :: "uuid \<Rightarrow> kobo \<Rightarrow> balance list \<Rightarrow> balance list" where
  "upsert_balance a v bs =
     (case bal_lookup a bs of
        Some _ \<Rightarrow> update_where (\<lambda>b. bal_accountId b = a) (set_balance v) bs
      | None \<Rightarrow> bs @ [\<lparr>bal_accountId = a, bal_ledgerBalance = v, bal_availableBalance = v, bal_version = 0\<rparr>])"

definition applyEntryToBalance :: "account \<Rightarrow> LedgerEntryInput \<Rightarrow> (ledger, kobo) op" where
  "applyEntryToBalance acc e l =
     (let lockedBalance = bal_lookup (acc_id acc) (balances l);
          current = (case lockedBalance of None \<Rightarrow> 0 | Some b \<Rightarrow> bal_ledgerBalance b);
          nxt = current + signedDelta (acc_normalBalance acc) (ei_direction e) (ei_amount e)
      in if nxt < 0 then (Inl (InsufficientBalanceError (acc_id acc)), l)
         else (Inr nxt, l\<lparr>balances := upsert_balance (acc_id acc) nxt (balances l)\<rparr>))"

text \<open>The loop over the sorted entries: each is applied to its account's balance, and its row
  collected for the single insert that follows.\<close>

fun apply_entries :: "account list \<Rightarrow> uuid \<Rightarrow> LedgerEntryInput list \<Rightarrow> (ledger, ledger_entry list) op" where
  "apply_entries accs txId [] = ret []"
| "apply_entries accs txId (e # es) =
     (case find (\<lambda>a. acc_id a = ei_accountId e) accs of
        None \<Rightarrow> throw (PlainError ''TypeError'')
      | Some acc \<Rightarrow>
          bnd (applyEntryToBalance acc e) (\<lambda>balanceAfter.
          bnd (apply_entries accs txId es) (\<lambda>rows.
          ret (\<lparr>le_transactionId = txId, le_accountId = ei_accountId e,
                 le_direction = ei_direction e, le_amount = ei_amount e,
                 le_balanceAfter = balanceAfter\<rparr> # rows))))"

definition tx_lookup :: "string \<Rightarrow> ledger \<Rightarrow> transaction option" where
  "tx_lookup reference l = find (\<lambda>t. tx_reference t = reference) (transactions l)"

definition insert_transaction :: "time \<Rightarrow> PostTransactionInput \<Rightarrow> (ledger, transaction) op" where
  "insert_transaction now input l =
     (if tx_lookup (pi_reference input) l \<noteq> None
      then (Inl (DuplicateTransactionReferenceError (pi_reference input)), l)
      else let t = \<lparr>tx_id = fresh_id (map tx_id (transactions l)), tx_type = pi_type input,
             tx_status = (case pi_status input of None \<Rightarrow> tx_completed | Some st \<Rightarrow> st),
             tx_reference = pi_reference input, tx_externalReference = pi_externalReference input,
             tx_amount = pi_amount input, tx_metadata = pi_metadata input,
             tx_onSuccess = pi_onSuccess input,
             tx_completedAt = (if pi_status input = None \<or> pi_status input = Some tx_completed
                               then Some now else None),
             tx_createdAt = now\<rparr>
           in (Inr t, l\<lparr>transactions := transactions l @ [t]\<rparr>))"

text \<open>The body of \<open>executor.transaction\<close>.\<close>

definition post_in_tx :: "time \<Rightarrow> PostTransactionInput \<Rightarrow> (ledger, transaction) op" where
  "post_in_tx now input =
     bnd (gets accounts) (\<lambda>accs.
     seq (require (list_all (\<lambda>e. find (\<lambda>a. acc_id a = ei_accountId e) accs \<noteq> None) (pi_entries input))
            (LedgerError ''Account does not exist'' 400))
     (bnd (insert_transaction now input) (\<lambda>created.
      bnd (apply_entries accs (tx_id created) (sort_key ei_accountId (pi_entries input))) (\<lambda>rows.
      seq (modify (\<lambda>l. l\<lparr>ledgerEntries := ledgerEntries l @ rows\<rparr>))
      (ret created)))))"

text \<open>
  \<open>LedgerService.postTransaction\<close>. \<open>race\<close> is what other requests did between the existence
  check and the insert: when one of them posted the same reference, the insert's unique
  violation turns into the winner's row.
\<close>

definition postTransaction_raced ::
  "(ledger \<Rightarrow> ledger) \<Rightarrow> time \<Rightarrow> PostTransactionInput \<Rightarrow> (ledger, transaction) op" where
  "postTransaction_raced race now input =
     seq (from_sum (assertBalanced (pi_entries input)))
     (bnd (gets (tx_lookup (pi_reference input))) (\<lambda>existing.
      case existing of
        Some t \<Rightarrow> ret t
      | None \<Rightarrow>
          seq (modify race)
          (catch_op (atomically (post_in_tx now input))
             (\<lambda>err. case err of
                DuplicateTransactionReferenceError _ \<Rightarrow>
                  bnd (gets (tx_lookup (pi_reference input))) (\<lambda>row.
                    case row of Some t \<Rightarrow> ret t | None \<Rightarrow> throw err)
              | _ \<Rightarrow> throw err))))"

definition postTransaction :: "time \<Rightarrow> PostTransactionInput \<Rightarrow> (ledger, transaction) op" where
  "postTransaction = postTransaction_raced id"

definition getBalance :: "uuid \<Rightarrow> ledger \<Rightarrow> kobo" where
  "getBalance a l = (case bal_lookup a (balances l) of Some b \<Rightarrow> bal_ledgerBalance b | None \<Rightarrow> 0)"

fun flip_direction :: "direction \<Rightarrow> direction" where
  "flip_direction debit = credit"
| "flip_direction credit = debit"

definition reversed_entries :: "uuid \<Rightarrow> ledger \<Rightarrow> LedgerEntryInput list" where
  "reversed_entries txId l =
     map (\<lambda>e. \<lparr>ei_accountId = le_accountId e, ei_direction = flip_direction (le_direction e),
                ei_amount = le_amount e\<rparr>)
       (filter (\<lambda>e. le_transactionId e = txId) (ledgerEntries l))"

definition set_status :: "transaction_status \<Rightarrow> transaction \<Rightarrow> transaction" where
  "set_status st t = t\<lparr>tx_status := st\<rparr>"

definition reverseTransaction :: "time \<Rightarrow> uuid \<Rightarrow> string \<Rightarrow> (ledger, transaction) op" where
  "reverseTransaction now originalTransactionId reference =
     bnd (gets (\<lambda>l. find (\<lambda>t. tx_id t = originalTransactionId) (transactions l))) (\<lambda>orig.
     case orig of
       None \<Rightarrow> throw (LedgerError ''Transaction does not exist'' 404)
     | Some original \<Rightarrow>
         bnd (gets (reversed_entries originalTransactionId)) (\<lambda>reversedEntries.
         atomically
           (bnd (postTransaction now
                   \<lparr>pi_type = ty_reversal, pi_reference = reference, pi_entries = reversedEntries,
                    pi_amount = tx_amount original, pi_externalReference = None,
                    pi_metadata = Some (no_metadata\<lparr>md_reversalOf := Some originalTransactionId\<rparr>),
                    pi_status = None, pi_onSuccess = None\<rparr>) (\<lambda>transaction.
            seq (modify (\<lambda>l. l\<lparr>transactions :=
                   update_where (\<lambda>t. tx_id t = originalTransactionId) (set_status tx_reversed) (transactions l)\<rparr>))
            (ret transaction)))))"

definition complete_at :: "time \<Rightarrow> transaction \<Rightarrow> transaction" where
  "complete_at now t = t\<lparr>tx_status := tx_completed, tx_completedAt := Some now\<rparr>"

definition markCompleted :: "time \<Rightarrow> uuid \<Rightarrow> (ledger, transaction) op" where
  "markCompleted now transactionId =
     seq (modify (\<lambda>l. l\<lparr>transactions :=
            update_where (\<lambda>t. tx_id t = transactionId) (complete_at now) (transactions l)\<rparr>))
     (bnd (gets (\<lambda>l. find (\<lambda>t. tx_id t = transactionId) (transactions l))) (\<lambda>updated.
      case updated of
        None \<Rightarrow> throw (LedgerError ''Transaction does not exist'' 404)
      | Some t \<Rightarrow> ret t))"

end
