(* ===== verification/Ledger_Laws.thy ===== *)
theory Ledger_Laws
  imports Ledger "HOL-Library.Multiset"
begin

text \<open>
  The laws of the ledger: what a posting does to the tables (\<open>posted\<close>), the well-formedness
  invariant \<open>wf_ledger\<close> that every operation of \<open>LedgerService\<close> and \<open>AccountsService\<close>
  keeps, and what follows from it (the trial balance, exact reversal, append-only history).
\<close>

section \<open>Balanced entry lists\<close>

definition entry_net :: "direction \<Rightarrow> kobo \<Rightarrow> kobo" where
  "entry_net dir amount = (if dir = debit then amount else - amount)"

definition balanced :: "LedgerEntryInput list \<Rightarrow> bool" where
  "balanced es \<longleftrightarrow> es \<noteq> [] \<and> (\<forall>e\<in>set es. 0 < ei_amount e) \<and>
     (\<Sum>e\<leftarrow>es. entry_net (ei_direction e) (ei_amount e)) = 0"

lemma entry_totals_Inr_iff:
  "entry_totals es d c = Inr (d', c') \<longleftrightarrow>
     (\<forall>e\<in>set es. 0 < ei_amount e) \<and>
     d' = d + (\<Sum>e\<leftarrow>es. if ei_direction e = debit then ei_amount e else 0) \<and>
     c' = c + (\<Sum>e\<leftarrow>es. if ei_direction e = debit then 0 else ei_amount e)"
  by (induction es arbitrary: d c) (auto simp: not_le)

lemma entry_totals_net:
  "(\<Sum>e\<leftarrow>es. entry_net (ei_direction e) (ei_amount e)) =
   (\<Sum>e\<leftarrow>es. if ei_direction e = debit then ei_amount e else 0) -
   (\<Sum>e\<leftarrow>es. if ei_direction e = debit then 0 else ei_amount e)"
  by (induction es) (auto simp: entry_net_def)

lemma entry_totals_Inl: "entry_totals es d c = Inl err \<Longrightarrow> \<exists>e\<in>set es. \<not> 0 < ei_amount e"
  by (induction es arbitrary: d c) (auto split: if_splits)

lemma assertBalanced_iff: "assertBalanced es = Inr u \<longleftrightarrow> balanced es"
proof (cases "entry_totals es 0 0")
  case (Inl err)
  then show ?thesis
    using entry_totals_Inl[OF Inl] by (auto simp: assertBalanced_def balanced_def)
next
  case (Inr totals)
  then obtain d c where tot: "entry_totals es 0 0 = Inr (d, c)"
    by (cases totals) auto
  then have "assertBalanced es = Inr u \<longleftrightarrow> es \<noteq> [] \<and> d = c"
    by (simp add: assertBalanced_def)
  then show ?thesis
    using tot[unfolded entry_totals_Inr_iff] by (auto simp: balanced_def entry_totals_net)
qed

section \<open>What one posting does\<close>

definition normal_of :: "account list \<Rightarrow> uuid \<Rightarrow> direction" where
  "normal_of accs x = (case find (\<lambda>a. acc_id a = x) accs of Some a \<Rightarrow> acc_normalBalance a | None \<Rightarrow> debit)"

definition input_delta :: "account list \<Rightarrow> LedgerEntryInput list \<Rightarrow> uuid \<Rightarrow> kobo" where
  "input_delta accs es x =
     (\<Sum>e\<leftarrow>es. if ei_accountId e = x
               then signedDelta (normal_of accs x) (ei_direction e) (ei_amount e) else 0)"

definition row_delta :: "account list \<Rightarrow> ledger_entry list \<Rightarrow> uuid \<Rightarrow> kobo" where
  "row_delta accs es x =
     (\<Sum>e\<leftarrow>es. if le_accountId e = x
               then signedDelta (normal_of accs x) (le_direction e) (le_amount e) else 0)"

definition row_input :: "ledger_entry \<Rightarrow> LedgerEntryInput" where
  "row_input e = \<lparr>ei_accountId = le_accountId e, ei_direction = le_direction e, ei_amount = le_amount e\<rparr>"

lemma row_input_simps [simp]:
  "ei_accountId (row_input e) = le_accountId e"
  "ei_direction (row_input e) = le_direction e"
  "ei_amount (row_input e) = le_amount e"
  by (simp_all add: row_input_def)

lemma row_delta_input: "row_delta accs rows x = input_delta accs (map row_input rows) x"
  unfolding row_delta_def input_delta_def by (induction rows) auto

lemma input_delta_simps [simp]:
  "input_delta accs [] x = 0"
  "input_delta accs (e # es) x =
     (if ei_accountId e = x then signedDelta (normal_of accs x) (ei_direction e) (ei_amount e) else 0)
     + input_delta accs es x"
  "input_delta accs (es @ fs) x = input_delta accs es x + input_delta accs fs x"
  by (simp_all add: input_delta_def)

lemma row_delta_simps [simp]:
  "row_delta accs [] x = 0"
  "row_delta accs (es @ fs) x = row_delta accs es x + row_delta accs fs x"
  by (simp_all add: row_delta_def)

lemma sum_list_map_sort_key: "(\<Sum>e\<leftarrow>sort_key k es. (f e :: int)) = (\<Sum>e\<leftarrow>es. f e)"
proof -
  have "mset (map f (sort_key k es)) = mset (map f es)"
    by simp
  then show ?thesis
    by (metis sum_mset_sum_list)
qed

lemma input_delta_sort [simp]: "input_delta accs (sort_key k es) x = input_delta accs es x"
  unfolding input_delta_def by (rule sum_list_map_sort_key)

text \<open>Frame of the balance table under one entry.\<close>

definition wf_balances :: "ledger \<Rightarrow> bool" where
  "wf_balances l \<longleftrightarrow> distinct (map bal_accountId (balances l))"

interpretation set_balance: keyed_update bal_accountId "set_balance v" for v
  by unfold_locales (simp add: set_balance_def)

lemma bal_lookup_set_balance:
  "bal_lookup x (update_where (\<lambda>b. bal_accountId b = a) (set_balance v) bs) =
   (if x = a then map_option (set_balance v) (bal_lookup a bs) else bal_lookup x bs)"
  by (simp add: bal_lookup_def set_balance.find_if)

lemma bal_lookup_append:
  "bal_lookup x (bs @ [b]) =
     (case bal_lookup x bs of Some r \<Rightarrow> Some r | None \<Rightarrow> if bal_accountId b = x then Some b else None)"
  by (simp add: bal_lookup_def find_append split: option.split)

lemma bal_lookup_upsert:
  "map_option bal_ledgerBalance (bal_lookup x (upsert_balance a v bs)) =
   (if x = a then Some v else map_option bal_ledgerBalance (bal_lookup x bs))"
  by (cases "x = a"; cases "bal_lookup a bs"; cases "bal_lookup x bs")
    (simp_all add: upsert_balance_def bal_lookup_set_balance bal_lookup_append set_balance_def)

lemma keys_upsert:
  "map bal_accountId (upsert_balance a v bs) =
   (if a \<in> bal_accountId ` set bs then map bal_accountId bs else map bal_accountId bs @ [a])"
proof (cases "bal_lookup a bs")
  case None
  then have "a \<notin> bal_accountId ` set bs"
    using find_key_exists[of a bal_accountId bs] by (auto simp: bal_lookup_def)
  then show ?thesis
    using None by (simp add: upsert_balance_def)
next
  case (Some r)
  then have "a \<in> bal_accountId ` set bs"
    unfolding bal_lookup_def by (rule find_key_image)
  then show ?thesis
    using Some by (simp add: upsert_balance_def set_balance.keys_kept)
qed

lemma getBalance_alt:
  "getBalance a l = (case map_option bal_ledgerBalance (bal_lookup a (balances l)) of Some v \<Rightarrow> v | None \<Rightarrow> 0)"
  by (simp add: getBalance_def option.case_eq_if option.map_sel)

lemma getBalance_upsert [simp]:
  "getBalance x (l\<lparr>balances := upsert_balance a v (balances l)\<rparr>) = (if x = a then v else getBalance x l)"
  by (simp add: getBalance_alt bal_lookup_upsert)

lemma getBalance_frame [simp]:
  "getBalance x (l\<lparr>transactions := ts\<rparr>) = getBalance x l"
  "getBalance x (l\<lparr>ledgerEntries := es\<rparr>) = getBalance x l"
  "getBalance x (l\<lparr>accounts := as\<rparr>) = getBalance x l"
  by (simp_all add: getBalance_def)

lemma wf_balances_upsert [simp]:
  "wf_balances (l\<lparr>balances := upsert_balance a v (balances l)\<rparr>) = wf_balances l"
  by (auto simp: wf_balances_def keys_upsert)

lemma wf_balances_frame [simp]:
  "wf_balances (l\<lparr>transactions := ts\<rparr>) = wf_balances l"
  "wf_balances (l\<lparr>ledgerEntries := es\<rparr>) = wf_balances l"
  "wf_balances (l\<lparr>accounts := as\<rparr>) = wf_balances l"
  by (simp_all add: wf_balances_def)

text \<open>One entry: the balance it reaches, and its two outcomes.\<close>

definition next_balance :: "account \<Rightarrow> LedgerEntryInput \<Rightarrow> ledger \<Rightarrow> kobo" where
  "next_balance acc e l =
     getBalance (acc_id acc) l + signedDelta (acc_normalBalance acc) (ei_direction e) (ei_amount e)"

lemma applyEntryToBalance_eq:
  "applyEntryToBalance acc e l =
     (if next_balance acc e l < 0 then (Inl (InsufficientBalanceError (acc_id acc)), l)
      else (Inr (next_balance acc e l),
            l\<lparr>balances := upsert_balance (acc_id acc) (next_balance acc e l) (balances l)\<rparr>))"
  by (simp add: applyEntryToBalance_def next_balance_def getBalance_def Let_def)

text \<open>All entries of a posting: what they leave behind when every one of them fits.\<close>

definition wf_accounts :: "account list \<Rightarrow> bool" where
  "wf_accounts accs \<longleftrightarrow> distinct (map acc_id accs)"

lemma normal_of_find: "find (\<lambda>a. acc_id a = x) accs = Some acc \<Longrightarrow> normal_of accs x = acc_normalBalance acc"
  by (simp add: normal_of_def)

lemma apply_entries_ConsE:
  assumes "apply_entries accs txId (e # es) l = (Inr rows, l')"
  obtains acc l1 rs where "find (\<lambda>a. acc_id a = ei_accountId e) accs = Some acc"
    and "acc_id acc = ei_accountId e" and "0 \<le> next_balance acc e l"
    and "l1 = l\<lparr>balances := upsert_balance (ei_accountId e) (next_balance acc e l) (balances l)\<rparr>"
    and "apply_entries accs txId es l1 = (Inr rs, l')"
    and "rows = \<lparr>le_transactionId = txId, le_accountId = ei_accountId e, le_direction = ei_direction e,
              le_amount = ei_amount e, le_balanceAfter = next_balance acc e l\<rparr> # rs"
proof -
  from assms obtain acc where f: "find (\<lambda>a. acc_id a = ei_accountId e) accs = Some acc"
    by (auto split: option.splits)
  moreover have "acc_id acc = ei_accountId e"
    using find_SomeD[OF f] by simp
  ultimately show ?thesis
    using assms by (auto simp: bnd_Inr_iff applyEntryToBalance_eq split: if_splits intro: that)
qed

lemma apply_entries_balance:
  "apply_entries accs txId es l = (Inr rows, l') \<Longrightarrow> getBalance x l' = getBalance x l + input_delta accs es x"
proof (induction es arbitrary: l rows)
  case (Cons e es)
  show ?case
    by (rule apply_entries_ConsE[OF Cons.prems])
      (use Cons.IH in \<open>auto simp: normal_of_find next_balance_def\<close>)
qed simp

lemma apply_entries_rows:
  "apply_entries accs txId es l = (Inr rows, l') \<Longrightarrow>
   map row_input rows = es \<and> (\<forall>r\<in>set rows. le_transactionId r = txId)"
proof (induction es arbitrary: l rows)
  case (Cons e es)
  show ?case
    by (rule apply_entries_ConsE[OF Cons.prems]) (use Cons.IH in \<open>fastforce simp: row_input_def\<close>)
qed simp

lemma apply_entries_nonneg:
  "apply_entries accs txId es l = (Inr rows, l') \<Longrightarrow> 0 \<le> getBalance x l \<Longrightarrow> 0 \<le> getBalance x l'"
proof (induction es arbitrary: l rows)
  case (Cons e es)
  show ?case
    by (rule apply_entries_ConsE[OF Cons.prems(1)]) (use Cons.IH Cons.prems(2) in auto)
qed simp

lemma apply_entries_frame:
  "apply_entries accs txId es l = (Inr rows, l') \<Longrightarrow> l' = l\<lparr>balances := balances l'\<rparr>"
proof (induction es arbitrary: l rows)
  case (Cons e es)
  show ?case
    by (rule apply_entries_ConsE[OF Cons.prems]) (use Cons.IH in fastforce)
qed simp

lemma apply_entries_wf_balances:
  "apply_entries accs txId es l = (Inr rows, l') \<Longrightarrow> wf_balances l \<Longrightarrow> wf_balances l'"
proof (induction es arbitrary: l rows)
  case (Cons e es)
  show ?case
    by (rule apply_entries_ConsE[OF Cons.prems(1)]) (use Cons.IH Cons.prems(2) in auto)
qed simp

lemma apply_entries_keys:
  "apply_entries accs txId es l = (Inr rows, l') \<Longrightarrow>
   bal_accountId ` set (balances l') = bal_accountId ` set (balances l) \<union> ei_accountId ` set es"
proof (induction es arbitrary: l rows)
  case (Cons e es)
  have up: "bal_accountId ` set (upsert_balance a v bs) = insert a (bal_accountId ` set bs)" for a v bs
    using arg_cong[OF keys_upsert[of a v bs], of set] by (auto split: if_splits)
  show ?case
    by (rule apply_entries_ConsE[OF Cons.prems]) (use Cons.IH in \<open>auto simp: up\<close>)
qed simp

lemma apply_entries_known:
  "apply_entries accs txId es l = (Inr rows, l') \<Longrightarrow> ei_accountId ` set es \<subseteq> acc_id ` set accs"
proof (induction es arbitrary: l rows)
  case (Cons e es)
  show ?case
    by (rule apply_entries_ConsE[OF Cons.prems]) (use Cons.IH in \<open>auto dest: find_key_image\<close>)
qed simp

lemmas apply_entries_Inr = apply_entries_balance apply_entries_rows apply_entries_nonneg
  apply_entries_frame apply_entries_wf_balances apply_entries_keys apply_entries_known


section \<open>The outcome of a posting\<close>

text \<open>The row a posting inserts, and the ledger it leaves.\<close>

definition new_transaction :: "time \<Rightarrow> PostTransactionInput \<Rightarrow> ledger \<Rightarrow> transaction" where
  "new_transaction now input l =
     \<lparr>tx_id = fresh_id (map tx_id (transactions l)), tx_type = pi_type input,
      tx_status = (case pi_status input of None \<Rightarrow> tx_completed | Some st \<Rightarrow> st),
      tx_reference = pi_reference input, tx_externalReference = pi_externalReference input,
      tx_amount = pi_amount input, tx_metadata = pi_metadata input, tx_onSuccess = pi_onSuccess input,
      tx_completedAt = (if pi_status input = None \<or> pi_status input = Some tx_completed then Some now else None),
      tx_createdAt = now\<rparr>"

definition posted :: "PostTransactionInput \<Rightarrow> transaction \<Rightarrow> ledger \<Rightarrow> ledger \<Rightarrow> bool" where
  "posted input created l l' \<longleftrightarrow>
     accounts l' = accounts l \<and> transactions l' = transactions l @ [created] \<and>
     (\<exists>rows. ledgerEntries l' = ledgerEntries l @ rows \<and>
        map row_input rows = sort_key ei_accountId (pi_entries input) \<and>
        (\<forall>r\<in>set rows. le_transactionId r = tx_id created)) \<and>
     (\<forall>x. getBalance x l' = getBalance x l + input_delta (accounts l) (pi_entries input) x) \<and>
     (\<forall>x. 0 \<le> getBalance x l \<longrightarrow> 0 \<le> getBalance x l') \<and>
     (wf_balances l \<longrightarrow> wf_balances l') \<and>
     bal_accountId ` set (balances l') = bal_accountId ` set (balances l) \<union> ei_accountId ` set (pi_entries input) \<and>
     ei_accountId ` set (pi_entries input) \<subseteq> acc_id ` set (accounts l) \<and>
     tx_lookup (pi_reference input) l = None"

lemma insert_transaction_eq:
  "insert_transaction now input l =
     (if tx_lookup (pi_reference input) l \<noteq> None
      then (Inl (DuplicateTransactionReferenceError (pi_reference input)), l)
      else (Inr (new_transaction now input l),
            l\<lparr>transactions := transactions l @ [new_transaction now input l]\<rparr>))"
  by (simp add: insert_transaction_def new_transaction_def Let_def)

lemma post_in_tx_Inr:
  assumes "post_in_tx now input l = (Inr t, l')"
  shows "t = new_transaction now input l" and "posted input t l l'"
proof -
  let ?l1 = "l\<lparr>transactions := transactions l @ [new_transaction now input l]\<rparr>"
  from assms obtain rows l2 where lookup: "tx_lookup (pi_reference input) l = None"
    and run: "apply_entries (accounts l) (tx_id t) (sort_key ei_accountId (pi_entries input)) ?l1 = (Inr rows, l2)"
    and l': "l' = l2\<lparr>ledgerEntries := ledgerEntries l2 @ rows\<rparr>" and t: "t = new_transaction now input l"
    by (auto simp: post_in_tx_def bnd_Inr_iff insert_transaction_eq split: if_splits)
  have l2: "l2 = ?l1\<lparr>balances := balances l2\<rparr>"
    by (rule apply_entries_frame[OF run])
  then have frame: "accounts l2 = accounts l" "transactions l2 = transactions l @ [t]" "ledgerEntries l2 = ledgerEntries l"
    using t by (metis ledger.select_convs ledger.surjective ledger.update_convs)+
  show "t = new_transaction now input l" by (rule t)
  show "posted input t l l'"
    unfolding posted_def l' using frame lookup apply_entries_rows[OF run]
      apply_entries_balance[OF run] apply_entries_nonneg[OF run] apply_entries_wf_balances[OF run]
      apply_entries_keys[OF run] apply_entries_known[OF run] by auto
qed

text \<open>
  Every call of \<open>postTransaction\<close> ends in one of three ways: an error that leaves the ledger as
  it is, the row that already has the reference, or one new posting.
\<close>

lemma postTransaction_cases:
  assumes "postTransaction now input l = (r, l')"
  obtains (fails) e where "r = Inl e" "l' = l" "tx_lookup (pi_reference input) l = None \<or> \<not> balanced (pi_entries input)"
  | (exists) t where "r = Inr t" "l' = l" "tx_lookup (pi_reference input) l = Some t" "balanced (pi_entries input)"
  | (posts) t where "r = Inr t" "t = new_transaction now input l" "posted input t l l'" "balanced (pi_entries input)"
proof (cases "assertBalanced (pi_entries input)")
  case (Inl err)
  then have "\<not> balanced (pi_entries input)"
    using assertBalanced_iff[of _ "()"] by (metis sum.distinct(1))
  with Inl show ?thesis
    using assms by (intro fails) (auto simp: postTransaction_def postTransaction_raced_def from_sum_def bnd_def)
next
  case (Inr u)
  then have bal: "balanced (pi_entries input)"
    using assertBalanced_iff by blast
  show ?thesis
  proof (cases "tx_lookup (pi_reference input) l")
    case (Some t)
    then show ?thesis
      using assms Inr bal
      by (intro exists[of t]) (auto simp: postTransaction_def postTransaction_raced_def from_sum_def bnd_def gets_def ret_def)
  next
    case None
    then have run: "(r, l') = catch_op (atomically (post_in_tx now input))
             (\<lambda>err. case err of
                DuplicateTransactionReferenceError _ \<Rightarrow>
                  bnd (gets (tx_lookup (pi_reference input))) (\<lambda>row.
                    case row of Some t \<Rightarrow> ret t | None \<Rightarrow> throw err)
              | _ \<Rightarrow> throw err) l"
      using assms Inr
      by (simp add: postTransaction_def postTransaction_raced_def from_sum_def bnd_def gets_def modify_def)
    show ?thesis
    proof (cases "fst (post_in_tx now input l)")
      case (Inl err)
      then have "l' = l \<and> (\<exists>e. r = Inl e)"
        using run None
        by (auto simp: catch_op_def atomically_def bnd_def gets_def throw_def split: prod.splits error.splits)
      then show ?thesis using fails None by blast
    next
      case (Inr t)
      then have "post_in_tx now input l = (Inr t, l')" "r = Inr t"
        using run by (auto simp: catch_op_def atomically_def split: prod.splits sum.splits)
      then show ?thesis
        using post_in_tx_Inr bal posts by blast
    qed
  qed
qed


section \<open>The well-formed ledger\<close>

definition row_net :: "ledger_entry \<Rightarrow> kobo" where
  "row_net e = entry_net (le_direction e) (le_amount e)"

definition entries_of :: "uuid \<Rightarrow> ledger \<Rightarrow> ledger_entry list" where
  "entries_of t l = filter (\<lambda>e. le_transactionId e = t) (ledgerEntries l)"

text \<open>
  Keys are unique, references too; entries have a positive amount and refer to an account and a
  transaction that exist; each account's stored balance is the signed sum of its entries and is
  not negative; the entries of every transaction balance.
\<close>

definition wf_ledger :: "ledger \<Rightarrow> bool" where
  "wf_ledger l \<longleftrightarrow>
     distinct (map acc_id (accounts l)) \<and>
     (\<forall>a\<in>set (accounts l). acc_normalBalance a = NORMAL_BALANCE_BY_OWNER_TYPE (acc_ownerType a)) \<and>
     distinct (map tx_id (transactions l)) \<and>
     distinct (map tx_reference (transactions l)) \<and>
     wf_balances l \<and> bal_accountId ` set (balances l) \<subseteq> acc_id ` set (accounts l) \<and>
     (\<forall>e\<in>set (ledgerEntries l). 0 < le_amount e \<and> le_accountId e \<in> acc_id ` set (accounts l) \<and>
        le_transactionId e \<in> tx_id ` set (transactions l)) \<and>
     (\<forall>x. getBalance x l = row_delta (accounts l) (ledgerEntries l) x) \<and>
     (\<forall>x. 0 \<le> getBalance x l) \<and>
     (\<forall>t. (\<Sum>e\<leftarrow>entries_of t l. row_net e) = 0) \<and>
     (\<Sum>e\<leftarrow>ledgerEntries l. row_net e) = 0"

lemma wf_empty_ledger: "wf_ledger empty_ledger"
  by (simp add: wf_ledger_def empty_ledger_def wf_balances_def getBalance_def bal_lookup_def entries_of_def)

lemma wf_ledgerD:
  assumes "wf_ledger l"
  shows "distinct (map acc_id (accounts l))" and "distinct (map tx_id (transactions l))"
    and "distinct (map tx_reference (transactions l))" and "wf_balances l"
    and "getBalance x l = row_delta (accounts l) (ledgerEntries l) x" and "0 \<le> getBalance x l"
    and "(\<Sum>e\<leftarrow>entries_of t l. row_net e) = 0"
    and "e \<in> set (ledgerEntries l) \<Longrightarrow> 0 < le_amount e"
    and "e \<in> set (ledgerEntries l) \<Longrightarrow> le_accountId e \<in> acc_id ` set (accounts l)"
    and "e \<in> set (ledgerEntries l) \<Longrightarrow> le_transactionId e \<in> tx_id ` set (transactions l)"
    and "bal_accountId ` set (balances l) \<subseteq> acc_id ` set (accounts l)"
    and "(\<Sum>e\<leftarrow>ledgerEntries l. row_net e) = 0"
  using assms by (auto simp: wf_ledger_def)

lemma row_net_input: "(\<Sum>e\<leftarrow>rows. row_net e) = (\<Sum>e\<leftarrow>map row_input rows. entry_net (ei_direction e) (ei_amount e))"
  by (induction rows) (auto simp: row_net_def)

lemma tx_lookup_None_iff: "tx_lookup r l = None \<longleftrightarrow> r \<notin> tx_reference ` set (transactions l)"
  unfolding tx_lookup_def by (rule find_key_None_iff)

lemma posted_wf:
  assumes "wf_ledger l" and "posted input t l l'" and "balanced (pi_entries input)"
    and "tx_id t = fresh_id (map tx_id (transactions l))" and "tx_reference t = pi_reference input"
  shows "wf_ledger l'"
proof -
  note p = assms(2)[unfolded posted_def]
  from p obtain rows where les: "ledgerEntries l' = ledgerEntries l @ rows"
    and rows: "map row_input rows = sort_key ei_accountId (pi_entries input)"
    and ids: "\<forall>r\<in>set rows. le_transactionId r = tx_id t"
    by (elim conjE exE) (rule that)
  have acc: "accounts l' = accounts l" and txs: "transactions l' = transactions l @ [t]"
    and keys: "bal_accountId ` set (balances l') = bal_accountId ` set (balances l) \<union> ei_accountId ` set (pi_entries input)"
    and known: "ei_accountId ` set (pi_entries input) \<subseteq> acc_id ` set (accounts l)"
    and ref: "tx_lookup (pi_reference input) l = None"
    using p by simp_all
  have bal: "getBalance x l' = getBalance x l + input_delta (accounts l) (pi_entries input) x" for x
    using p by simp
  have nonneg: "0 \<le> getBalance x l \<Longrightarrow> 0 \<le> getBalance x l'" for x
    using p by (elim conjE) (erule allE, erule mp)
  have wfb: "wf_balances l \<Longrightarrow> wf_balances l'"
    using p by (elim conjE) (erule mp)
  have fresh: "tx_id t \<notin> tx_id ` set (transactions l)"
    using fresh_id_notin[of "map tx_id (transactions l)"] assms(4) by simp
  have rows_set: "row_input ` set rows = set (pi_entries input)"
    using arg_cong[OF rows, of set] by simp
  have row_ok: "0 < le_amount r \<and> le_accountId r \<in> acc_id ` set (accounts l)" if "r \<in> set rows" for r
  proof -
    have "row_input r \<in> set (pi_entries input)"
      using rows_set that by auto
    then have "0 < ei_amount (row_input r)" "ei_accountId (row_input r) \<in> acc_id ` set (accounts l)"
      using assms(3) known by (auto simp: balanced_def)
    then show ?thesis by simp
  qed
  have net0: "(\<Sum>e\<leftarrow>rows. row_net e) = 0"
    using assms(3) by (simp add: row_net_input rows sum_list_map_sort_key balanced_def del: map_map)
  have per_tx: "(\<Sum>e\<leftarrow>entries_of x l'. row_net e) = 0" for x
  proof (cases "x = tx_id t")
    case True
    have "entries_of x l = []"
      using fresh True wf_ledgerD(10)[OF assms(1)] unfolding entries_of_def filter_empty_conv by metis
    then show ?thesis
      using net0 ids True by (simp add: entries_of_def les)
  next
    case False
    then have "filter (\<lambda>e. le_transactionId e = x) rows = []"
      using ids by (auto simp: filter_empty_conv)
    then show ?thesis
      using wf_ledgerD(7)[OF assms(1), of x] by (simp add: entries_of_def les)
  qed
  have delta: "getBalance x l' = row_delta (accounts l') (ledgerEntries l') x" for x
    using bal[of x] wf_ledgerD(5)[OF assms(1), of x] by (simp add: acc les row_delta_input[of _ rows] rows)
  note wf = wf_ledgerD[OF assms(1)]
  have "\<forall>a\<in>set (accounts l'). acc_normalBalance a = NORMAL_BALANCE_BY_OWNER_TYPE (acc_ownerType a)"
    using assms(1) by (simp add: acc wf_ledger_def)
  moreover have "bal_accountId ` set (balances l') \<subseteq> acc_id ` set (accounts l')"
    using wf(11) known by (simp add: acc keys)
  moreover have "\<forall>e\<in>set (ledgerEntries l'). 0 < le_amount e \<and> le_accountId e \<in> acc_id ` set (accounts l') \<and>
        le_transactionId e \<in> tx_id ` set (transactions l')"
    using wf(8-10) row_ok ids by (simp add: acc les txs ball_Un)
  moreover have "distinct (map tx_reference (transactions l'))"
    using wf(3) ref assms(5) by (simp add: txs tx_lookup_None_iff)
  moreover have "distinct (map tx_id (transactions l'))"
    using wf(2) fresh by (simp add: txs)
  moreover have "(\<Sum>e\<leftarrow>ledgerEntries l'. row_net e) = 0"
    using wf(12) net0 by (simp add: les)
  ultimately show ?thesis
    unfolding wf_ledger_def using wf(1) wfb[OF wf(4)] nonneg[OF wf(6)] delta per_tx by (simp only: acc) simp
qed

lemma new_transaction_simps [simp]:
  "tx_id (new_transaction now input l) = fresh_id (map tx_id (transactions l))"
  "tx_reference (new_transaction now input l) = pi_reference input"
  "tx_type (new_transaction now input l) = pi_type input"
  "tx_amount (new_transaction now input l) = pi_amount input"
  "tx_metadata (new_transaction now input l) = pi_metadata input"
  "tx_onSuccess (new_transaction now input l) = pi_onSuccess input"
  "tx_status (new_transaction now input l) = (case pi_status input of None \<Rightarrow> tx_completed | Some st \<Rightarrow> st)"
  by (simp_all add: new_transaction_def)

lemma wf_postTransaction: "preserves wf_ledger (postTransaction now input)"
proof (rule preservesI)
  fix l assume wf: "wf_ledger l"
  obtain r l' where run: "postTransaction now input l = (r, l')"
    by fastforce
  from run have "wf_ledger l'"
    by (cases rule: postTransaction_cases) (use wf posted_wf in auto)
  then show "wf_ledger (snd (postTransaction now input l))"
    by (simp add: run)
qed

subsection \<open>Accounts\<close>

lemma row_delta_new_account:
  assumes "acc_id a \<notin> acc_id ` set accs" and "\<forall>e\<in>set es. le_accountId e \<in> acc_id ` set accs"
  shows "row_delta (accs @ [a]) es x = row_delta accs es x"
proof (cases "x = acc_id a")
  case True
  have "(\<Sum>e\<leftarrow>es. if le_accountId e = x then f e else 0) = (0 :: int)" for f
    using assms True by (induction es) auto
  then show ?thesis by (simp add: row_delta_def)
next
  case False
  then have "normal_of (accs @ [a]) x = normal_of accs x"
    by (simp add: normal_of_def find_append split: option.split)
  then show ?thesis unfolding row_delta_def by (simp only:)
qed

lemma wf_new_account:
  assumes "wf_ledger l" and "acc_id a \<notin> acc_id ` set (accounts l)"
    and "acc_normalBalance a = NORMAL_BALANCE_BY_OWNER_TYPE (acc_ownerType a)"
  shows "wf_ledger (l\<lparr>accounts := accounts l @ [a]\<rparr>)"
proof -
  note wf = wf_ledgerD[OF assms(1)]
  have "\<forall>a\<in>set (accounts l). acc_normalBalance a = NORMAL_BALANCE_BY_OWNER_TYPE (acc_ownerType a)"
    using assms(1) by (simp add: wf_ledger_def)
  moreover have "row_delta (accounts l @ [a]) (ledgerEntries l) x = row_delta (accounts l) (ledgerEntries l) x" for x
    using wf(9) by (intro row_delta_new_account assms(2)) blast
  moreover have "entries_of t (l\<lparr>accounts := accounts l @ [a]\<rparr>) = entries_of t l" for t
    by (simp add: entries_of_def)
  ultimately show ?thesis
    unfolding wf_ledger_def using wf(1-8) wf(9-12) assms(2,3) by (simp add: image_iff subset_iff ball_Un)
qed

lemma wf_insert_account: "preserves wf_ledger (insert_account ty owner)"
proof (rule preservesI)
  fix l assume "wf_ledger l"
  then show "wf_ledger (snd (insert_account ty owner l))"
    using fresh_id_notin[of "map acc_id (accounts l)"]
    by (auto simp: insert_account_def Let_def intro!: wf_new_account)
qed

lemma wf_getOrCreateAccount_raced:
  assumes "\<And>l. wf_ledger l \<Longrightarrow> wf_ledger (race l)"
  shows "preserves wf_ledger (getOrCreateAccount_raced race ty owner)"
  unfolding getOrCreateAccount_raced_def
  by (intro preserves_intros preserves_modify wf_insert_account assms)

lemma wf_getOrCreateAccount: "preserves wf_ledger (getOrCreateAccount ty owner)"
  unfolding getOrCreateAccount_def by (rule wf_getOrCreateAccount_raced) simp

text \<open>The account a caller gets back exists afterwards and is the one asked for.\<close>

lemma getOrCreateAccount_Inr:
  assumes "getOrCreateAccount ty owner l = (Inr a, l')"
  shows "find (is_account_of ty owner) (accounts l') = Some a"
    and "acc_ownerType a = ty" and "acc_ownerId a = owner"
    and "transactions l' = transactions l" and "ledgerEntries l' = ledgerEntries l" and "balances l' = balances l"
    and "\<exists>as. accounts l' = accounts l @ as"
  using assms
  by (auto simp: getOrCreateAccount_def getOrCreateAccount_raced_def bnd_def gets_def modify_def
      catch_op_def insert_account_def Let_def ret_def find_append is_account_of_def
      split: option.splits if_splits dest: find_SomeD)

lemma getOrCreateAccount_total: "\<exists>a l'. getOrCreateAccount ty owner l = (Inr a, l')"
  by (cases "find (is_account_of ty owner) (accounts l)")
    (simp_all add: getOrCreateAccount_def getOrCreateAccount_raced_def bnd_def gets_def modify_def
      catch_op_def insert_account_def Let_def ret_def)

subsection \<open>Status changes\<close>

interpretation set_status: keyed_update tx_id "set_status st" for st
  by unfold_locales (simp add: set_status_def)

interpretation complete_at: keyed_update tx_id "complete_at now" for now
  by unfold_locales (simp add: complete_at_def)

lemma wf_update_transactions:
  assumes "\<And>t. tx_id (f t) = tx_id t" and "\<And>t. tx_reference (f t) = tx_reference t" and "wf_ledger l"
  shows "wf_ledger (l\<lparr>transactions := update_where P f (transactions l)\<rparr>)"
proof -
  have ids: "map tx_id (update_where P f ts) = map tx_id ts"
    and refs: "map tx_reference (update_where P f ts) = map tx_reference ts" for ts
    using assms(1,2) by (simp_all add: map_update_where)
  have ids': "tx_id ` set (update_where P f ts) = tx_id ` set ts" for ts
    using ids[of ts] by (metis list.set_map)
  have frame: "accounts (l\<lparr>transactions := ts\<rparr>) = accounts l" "balances (l\<lparr>transactions := ts\<rparr>) = balances l"
    "transactions (l\<lparr>transactions := ts\<rparr>) = ts" "ledgerEntries (l\<lparr>transactions := ts\<rparr>) = ledgerEntries l" for ts
    by simp_all
  have "wf_ledger (l\<lparr>transactions := update_where P f (transactions l)\<rparr>) = wf_ledger l"
    unfolding wf_ledger_def entries_of_def
    by (simp only: frame wf_balances_frame getBalance_frame ids refs ids')
  then show ?thesis using assms(3) by simp
qed

lemma wf_modify_status:
  "preserves wf_ledger (modify (\<lambda>l. l\<lparr>transactions := update_where P (set_status st) (transactions l)\<rparr>))"
  by (rule preserves_modify, rule wf_update_transactions) (simp_all add: set_status_def)

lemma wf_reverseTransaction: "preserves wf_ledger (reverseTransaction now t r)"
  unfolding reverseTransaction_def by (intro preserves_intros wf_postTransaction wf_modify_status)

lemma wf_markCompleted: "preserves wf_ledger (markCompleted now t)"
  unfolding markCompleted_def
  by (intro preserves_intros, rule preserves_modify, rule wf_update_transactions) (simp_all add: complete_at_def)

lemma wf_postTransaction_raced:
  assumes "\<And>l. wf_ledger l \<Longrightarrow> wf_ledger (race l)"
  shows "preserves wf_ledger (postTransaction_raced race now input)"
proof (rule preservesI)
  fix l assume wf: "wf_ledger l"
  consider "tx_lookup (pi_reference input) l \<noteq> None \<or> \<not> balanced (pi_entries input)"
    | "tx_lookup (pi_reference input) l = None" "balanced (pi_entries input)" by blast
  then show "wf_ledger (snd (postTransaction_raced race now input l))"
  proof cases
    case 1
    then have "snd (postTransaction_raced race now input l) = l"
    proof (cases "assertBalanced (pi_entries input)")
      case Inl
      then show ?thesis by (simp add: postTransaction_raced_def from_sum_def bnd_def)
    next
      case (Inr u)
      with 1 obtain t where "tx_lookup (pi_reference input) l = Some t"
        using assertBalanced_iff by blast
      with Inr show ?thesis
        by (simp add: postTransaction_raced_def from_sum_def bnd_def gets_def ret_def)
    qed
    then show ?thesis using wf by simp
  next
    case 2
    then have b: "assertBalanced (pi_entries input) = Inr ()"
      by (simp add: assertBalanced_iff)
    have "preserves wf_ledger (atomically (post_in_tx now input))"
    proof (rule preservesI)
      fix l assume "wf_ledger l"
      then show "wf_ledger (snd (atomically (post_in_tx now input) l))"
      proof (cases "post_in_tx now input l")
        case (Pair r l')
        show ?thesis
        proof (cases r)
          case (Inr t)
          with Pair have "post_in_tx now input l = (Inr t, l')" by simp
          from posted_wf[OF \<open>wf_ledger l\<close> post_in_tx_Inr(2)[OF this] 2(2)] post_in_tx_Inr(1)[OF this]
          show ?thesis by (simp add: atomically_def Pair Inr)
        qed (simp add: atomically_def Pair \<open>wf_ledger l\<close>)
      qed
    qed
    then have "preserves wf_ledger (catch_op (atomically (post_in_tx now input))
             (\<lambda>err. case err of
                DuplicateTransactionReferenceError _ \<Rightarrow>
                  bnd (gets (tx_lookup (pi_reference input))) (\<lambda>row.
                    case row of Some t \<Rightarrow> ret t | None \<Rightarrow> throw err)
              | _ \<Rightarrow> throw err))"
      by (rule preserves_catch) (auto split: error.splits intro!: preserves_intros)
    then show ?thesis
      using 2(1) b wf assms
      by (simp add: postTransaction_raced_def from_sum_def bnd_def gets_def modify_def preserves_def)
  qed
qed

section \<open>When a posting goes through\<close>

lemma input_delta_not_in: "x \<notin> ei_accountId ` set es \<Longrightarrow> input_delta accs es x = 0"
  by (induction es) auto

lemma input_delta_single:
  "distinct (map ei_accountId es) \<Longrightarrow> e \<in> set es \<Longrightarrow>
   input_delta accs es (ei_accountId e) =
   signedDelta (normal_of accs (ei_accountId e)) (ei_direction e) (ei_amount e)"
proof (induction es)
  case (Cons f fs)
  show ?case
  proof (cases "e = f")
    case True
    with Cons.prems show ?thesis by (simp add: input_delta_not_in)
  next
    case False
    with Cons have "ei_accountId f \<noteq> ei_accountId e" by auto
    with Cons False show ?thesis by simp
  qed
qed simp

lemma next_balance_normal:
  "find (\<lambda>a. acc_id a = ei_accountId e) accs = Some acc \<Longrightarrow>
   next_balance acc e l = getBalance (ei_accountId e) l +
     signedDelta (normal_of accs (ei_accountId e)) (ei_direction e) (ei_amount e)"
  using find_SomeD[of "\<lambda>a. acc_id a = ei_accountId e" accs acc]
  by (simp add: next_balance_def normal_of_find)

text \<open>With one entry per account, the posting fits exactly when no final balance is negative.\<close>

lemma apply_entries_outcome:
  assumes "distinct (map ei_accountId es)" and "ei_accountId ` set es \<subseteq> acc_id ` set accs"
  shows "if \<forall>e\<in>set es. 0 \<le> getBalance (ei_accountId e) l + input_delta accs es (ei_accountId e)
    then \<exists>rows l'. apply_entries accs txId es l = (Inr rows, l')
    else \<exists>x l'. apply_entries accs txId es l = (Inl (InsufficientBalanceError x), l') \<and>
        getBalance x l + input_delta accs es x < 0"
  using assms
proof (induction es arbitrary: l)
  case (Cons e es)
  from Cons.prems(2) obtain acc where f: "find (\<lambda>a. acc_id a = ei_accountId e) accs = Some acc"
    using find_key_exists[of "ei_accountId e" acc_id accs] by auto
  then have id: "acc_id acc = ei_accountId e"
    using find_SomeD[OF f] by simp
  let ?v = "next_balance acc e l"
  let ?l1 = "l\<lparr>balances := upsert_balance (ei_accountId e) ?v (balances l)\<rparr>"
  have v: "?v = getBalance (ei_accountId e) l + input_delta accs (e # es) (ei_accountId e)"
    using Cons.prems(1) next_balance_normal[OF f, of l] by (simp add: input_delta_not_in)
  have run: "apply_entries accs txId (e # es) l =
     (if ?v < 0 then (Inl (InsufficientBalanceError (ei_accountId e)), l)
      else bnd (apply_entries accs txId es) (\<lambda>rows.
          ret (\<lparr>le_transactionId = txId, le_accountId = ei_accountId e, le_direction = ei_direction e,
                le_amount = ei_amount e, le_balanceAfter = ?v\<rparr> # rows)) ?l1)"
    by (simp add: f id bnd_def applyEntryToBalance_eq)
  have others: "getBalance (ei_accountId x) ?l1 + input_delta accs es (ei_accountId x) =
      getBalance (ei_accountId x) l + input_delta accs (e # es) (ei_accountId x)" if "x \<in> set es" for x
  proof -
    have "ei_accountId x \<noteq> ei_accountId e"
      using that Cons.prems(1) by (metis distinct.simps(2) image_eqI list.set_map list.simps(9))
    then show ?thesis by simp
  qed
  let ?all = "\<forall>x\<in>set es. 0 \<le> getBalance (ei_accountId x) ?l1 + input_delta accs es (ei_accountId x)"
  have IH: "if ?all then \<exists>rows l'. apply_entries accs txId es ?l1 = (Inr rows, l')
    else \<exists>x l'. apply_entries accs txId es ?l1 = (Inl (InsufficientBalanceError x), l') \<and>
        getBalance x ?l1 + input_delta accs es x < 0"
    using Cons.IH[of ?l1] Cons.prems by simp
  have all: "(\<forall>x\<in>set (e # es). 0 \<le> getBalance (ei_accountId x) l + input_delta accs (e # es) (ei_accountId x)) \<longleftrightarrow>
     0 \<le> ?v \<and> ?all"
    using v others by auto
  show ?case
  proof (cases "?v < 0")
    case True
    then have "getBalance (ei_accountId e) l + input_delta accs (e # es) (ei_accountId e) < 0"
      using v by simp
    with True show ?thesis unfolding all run by auto
  next
    case False
    show ?thesis
    proof (cases ?all)
      case True
      then obtain rows l' where "apply_entries accs txId es ?l1 = (Inr rows, l')"
        using IH[unfolded if_P[OF True]] by blast
      with True False show ?thesis unfolding all run by (simp add: bnd_def ret_def)
    next
      case bad: False
      then obtain x l' where x: "apply_entries accs txId es ?l1 = (Inl (InsufficientBalanceError x), l')"
        "getBalance x ?l1 + input_delta accs es x < 0"
        using IH[unfolded if_not_P[OF bad]] by blast
      then have "x \<noteq> ei_accountId e"
        using False Cons.prems(1) by (auto simp: input_delta_not_in)
      with x False bad show ?thesis unfolding all run by (simp add: bnd_def)
    qed
  qed
qed simp

lemma sort_by_account_distinct:
  "distinct (map ei_accountId es) \<Longrightarrow> distinct (map ei_accountId (sort_key ei_accountId es))"
proof -
  have "mset (map ei_accountId (sort_key ei_accountId es)) = mset (map ei_accountId es)" by simp
  then show "distinct (map ei_accountId es) \<Longrightarrow> distinct (map ei_accountId (sort_key ei_accountId es))"
    by (metis mset_eq_imp_distinct_iff)
qed

definition fits :: "PostTransactionInput \<Rightarrow> ledger \<Rightarrow> bool" where
  "fits input l \<longleftrightarrow> (\<forall>e\<in>set (pi_entries input).
     0 \<le> getBalance (ei_accountId e) l + input_delta (accounts l) (pi_entries input) (ei_accountId e))"

lemma postTransaction_outcome:
  assumes "balanced (pi_entries input)" and "tx_lookup (pi_reference input) l = None"
    and "distinct (map ei_accountId (pi_entries input))"
    and known: "ei_accountId ` set (pi_entries input) \<subseteq> acc_id ` set (accounts l)"
  shows "fits input l \<Longrightarrow> \<exists>t l'. postTransaction now input l = (Inr t, l') \<and> posted input t l l'"
    and "\<not> fits input l \<Longrightarrow> \<exists>x. postTransaction now input l = (Inl (InsufficientBalanceError x), l) \<and>
       getBalance x l + input_delta (accounts l) (pi_entries input) x < 0"
proof -
  let ?es = "sort_key ei_accountId (pi_entries input)"
  let ?t = "new_transaction now input l"
  let ?l1 = "l\<lparr>transactions := transactions l @ [?t]\<rparr>"
  have ok: "list_all (\<lambda>e. find (\<lambda>a. acc_id a = ei_accountId e) (accounts l) \<noteq> None) (pi_entries input)"
    using known by (auto simp: list_all_iff find_key_None_iff)
  have body: "post_in_tx now input l =
     bnd (apply_entries (accounts l) (tx_id ?t) ?es)
       (\<lambda>rows. seq (modify (\<lambda>l. l\<lparr>ledgerEntries := ledgerEntries l @ rows\<rparr>)) (ret ?t)) ?l1"
    using ok assms(2) by (simp add: post_in_tx_def bnd_require) (simp add: bnd_def insert_transaction_eq)
  have start: "postTransaction now input l = catch_op (atomically (post_in_tx now input))
             (\<lambda>err. case err of
                DuplicateTransactionReferenceError _ \<Rightarrow>
                  bnd (gets (tx_lookup (pi_reference input))) (\<lambda>row.
                    case row of Some t \<Rightarrow> ret t | None \<Rightarrow> throw err)
              | _ \<Rightarrow> throw err) l"
    using assms(1,2) assertBalanced_iff[of "pi_entries input" "()"]
    by (simp add: postTransaction_def postTransaction_raced_def from_sum_def bnd_def gets_def modify_def)
  have sorted: "distinct (map ei_accountId ?es)" "ei_accountId ` set ?es \<subseteq> acc_id ` set (accounts l)"
    using sort_by_account_distinct[OF assms(3)] known by simp_all
  have fits: "(\<forall>e\<in>set ?es. 0 \<le> getBalance (ei_accountId e) ?l1 + input_delta (accounts l) ?es (ei_accountId e)) = fits input l"
    by (simp add: fits_def)
  note run = apply_entries_outcome[OF sorted, of ?l1 "tx_id ?t", unfolded fits]
  show "\<exists>t l'. postTransaction now input l = (Inr t, l') \<and> posted input t l l'" if fit: "fits input l"
  proof -
    obtain rows l2 where "apply_entries (accounts l) (tx_id ?t) ?es ?l1 = (Inr rows, l2)"
      using run[unfolded if_P[OF fit]] by blast
    then have run: "post_in_tx now input l = (Inr ?t, l2\<lparr>ledgerEntries := ledgerEntries l2 @ rows\<rparr>)"
      by (simp add: body bnd_def modify_def ret_def)
    from post_in_tx_Inr(2)[OF run] show ?thesis
      by (simp add: start catch_op_def atomically_def run)
  qed
  show "\<exists>x. postTransaction now input l = (Inl (InsufficientBalanceError x), l) \<and>
       getBalance x l + input_delta (accounts l) (pi_entries input) x < 0" if fit: "\<not> fits input l"
  proof -
    obtain x l2 where "apply_entries (accounts l) (tx_id ?t) ?es ?l1 = (Inl (InsufficientBalanceError x), l2)"
      "getBalance x l + input_delta (accounts l) (pi_entries input) x < 0"
      using run[unfolded if_not_P[OF fit]] by auto
    then show ?thesis
      by (simp add: start catch_op_def atomically_def body bnd_def throw_def)
  qed
qed

end
