(* ===== verification/Ledger_Properties.thy ===== *)
theory Ledger_Properties
  imports Ledger_Laws
begin

text \<open>
  The promises of \<open>LedgerService\<close> and \<open>AccountsService\<close> to the rest of the backend: the books
  always balance, a failed posting leaves no trace, a reference is posted once even when two
  requests race, a posting fails exactly when it would overdraw an account, and a reversal puts
  every balance back.
\<close>

section \<open>Every history of calls\<close>

text \<open>
  A call of the two services with its arguments. A posting or an account lookup carries the
  calls that other requests slip in between its check and its insert.
\<close>

datatype ledger_call =
    Post "ledger_call list" time PostTransactionInput
  | Reverse time uuid string
  | MarkCompleted time uuid
  | GetOrCreate "ledger_call list" owner_type "uuid option"

fun run_call :: "ledger_call \<Rightarrow> ledger \<Rightarrow> ledger" and run_calls :: "ledger_call list \<Rightarrow> ledger \<Rightarrow> ledger" where
  "run_call (Post others now input) = (\<lambda>l. snd (postTransaction_raced (run_calls others) now input l))"
| "run_call (Reverse now t r) = (\<lambda>l. snd (reverseTransaction now t r l))"
| "run_call (MarkCompleted now t) = (\<lambda>l. snd (markCompleted now t l))"
| "run_call (GetOrCreate others ty owner) = (\<lambda>l. snd (getOrCreateAccount_raced (run_calls others) ty owner l))"
| "run_calls [] = (\<lambda>l. l)"
| "run_calls (c # cs) = (\<lambda>l. run_calls cs (run_call c l))"

lemma wf_run_calls:
  "wf_ledger l \<Longrightarrow> wf_ledger (run_call c l)"
  "wf_ledger l \<Longrightarrow> wf_ledger (run_calls cs l)"
proof (induction c and cs arbitrary: l and l rule: run_call_run_calls.induct)
  case (1 others now input)
  then show ?case
    using wf_postTransaction_raced[of "run_calls others"] by (simp add: preserves_def)
next
  case (4 others ty owner)
  then show ?case
    using wf_getOrCreateAccount_raced[of "run_calls others"] by (simp add: preserves_def)
qed (simp_all add: wf_reverseTransaction[unfolded preserves_def] wf_markCompleted[unfolded preserves_def])

section \<open>The trial balance\<close>

definition side_total :: "direction \<Rightarrow> ledger \<Rightarrow> kobo" where
  "side_total side l = (\<Sum>a\<leftarrow>filter (\<lambda>a. acc_normalBalance a = side) (accounts l). getBalance (acc_id a) l)"

lemma normal_of_member:
  "distinct (map acc_id accs) \<Longrightarrow> a \<in> set accs \<Longrightarrow> normal_of accs (acc_id a) = acc_normalBalance a"
  by (simp add: normal_of_def find_key_SomeI)

lemma sum_over_accounts:
  "distinct (map acc_id accs) \<Longrightarrow> y \<in> acc_id ` set accs \<Longrightarrow>
   (\<Sum>a\<leftarrow>accs. if y = acc_id a then (f y :: int) else 0) = f y"
proof (induction accs)
  case (Cons a accs)
  have "(\<Sum>a\<leftarrow>accs. if y = acc_id a then f y else 0) = 0" if "y = acc_id a"
    using Cons.prems(1) that by (induction accs) auto
  with Cons show ?case by auto
qed simp

lemma net_of_balances:
  assumes "distinct (map acc_id accs)" and "\<forall>e\<in>set es. le_accountId e \<in> acc_id ` set accs"
  shows "(\<Sum>a\<leftarrow>accs. entry_net (normal_of accs (acc_id a)) (row_delta accs es (acc_id a))) = (\<Sum>e\<leftarrow>es. row_net e)"
  using assms(2)
proof (induction es)
  case Nil
  have "(\<Sum>a\<leftarrow>as. entry_net (normal_of accs (acc_id a)) 0) = 0" for as :: "account list"
    by (induction as) (auto simp: entry_net_def)
  then show ?case by simp
next
  case (Cons e es)
  have split: "row_delta accs (e # es) x = row_delta accs [e] x + row_delta accs es x" for x
    using row_delta_simps(2)[of accs "[e]" es x] by simp
  have one: "entry_net (normal_of accs x) (row_delta accs [e] x) = (if le_accountId e = x then row_net e else 0)" for x
    by (simp add: row_delta_def row_net_def entry_net_def signedDelta_def)
      (cases "normal_of accs x"; cases "le_direction e"; simp)
  have "(\<Sum>a\<leftarrow>accs. if le_accountId e = acc_id a then row_net e else 0) = row_net e"
    using sum_over_accounts[OF assms(1), of "le_accountId e" "\<lambda>_. row_net e"] Cons.prems by simp
  moreover have "entry_net d (u + v) = entry_net d u + entry_net d v" for d u v
    by (simp add: entry_net_def)
  ultimately show ?case
    using Cons by (simp only: split one sum_list_addf) simp
qed

lemma side_totals_net:
  "distinct (map acc_id accs) \<Longrightarrow> set as \<subseteq> set accs \<Longrightarrow>
   (\<Sum>a\<leftarrow>as. entry_net (normal_of accs (acc_id a)) (f a)) =
   (\<Sum>a\<leftarrow>filter (\<lambda>a. acc_normalBalance a = debit) as. f a) -
   (\<Sum>a\<leftarrow>filter (\<lambda>a. acc_normalBalance a = credit) as. f a)"
proof (induction as)
  case (Cons a as)
  then have "normal_of accs (acc_id a) = acc_normalBalance a"
    by (simp add: normal_of_member)
  then show ?case
    using Cons by (cases "acc_normalBalance a") (simp_all add: entry_net_def)
qed simp

lemma wf_trial_balance:
  assumes "wf_ledger l"
  shows "side_total debit l = side_total credit l"
proof -
  note wf = wf_ledgerD[OF assms]
  have "(\<Sum>a\<leftarrow>accounts l. entry_net (normal_of (accounts l) (acc_id a)) (getBalance (acc_id a) l)) = 0"
    using net_of_balances[OF wf(1), of "ledgerEntries l"] wf(5,9,12) by simp
  then show ?thesis
    using side_totals_net[OF wf(1), of "accounts l" "\<lambda>a. getBalance (acc_id a) l"] by (simp add: side_total_def)
qed

text \<open>C1. The books balance. After any history of ledger calls on the empty ledger, races included,
  the balances of the debit-normal accounts add up to those of the credit-normal accounts, no
  account is overdrawn, and every stored balance is the signed sum of the account's entries.\<close>

theorem trial_balance:
  "let l = run_calls calls empty_ledger in
   side_total debit l = side_total credit l \<and>
   (\<forall>a. 0 \<le> getBalance a l \<and> getBalance a l = row_delta (accounts l) (ledgerEntries l) a) \<and>
   (\<forall>t. (\<Sum>e\<leftarrow>entries_of t l. row_net e) = 0)"
  using wf_trial_balance wf_ledgerD(5-7) wf_run_calls(2)[OF wf_empty_ledger, of calls] by (simp add: Let_def)

section \<open>A reference is posted once\<close>

lemma raced_start:
  assumes "balanced (pi_entries input)" and "tx_lookup (pi_reference input) l = None"
  shows "postTransaction_raced race now input l = postTransaction_raced id now input (race l) \<or>
    tx_lookup (pi_reference input) (race l) \<noteq> None"
  using assms assertBalanced_iff[of "pi_entries input" "()"]
  by (cases "tx_lookup (pi_reference input) (race l)")
    (simp_all add: postTransaction_raced_def from_sum_def bnd_def gets_def modify_def)

lemma raced_loser:
  assumes "balanced (pi_entries input)" and "tx_lookup (pi_reference input) l = None"
    and "tx_lookup (pi_reference input) (race l) = Some w"
    and "ei_accountId ` set (pi_entries input) \<subseteq> acc_id ` set (accounts (race l))"
  shows "postTransaction_raced race now input l = (Inr w, race l)"
proof -
  have "list_all (\<lambda>e. find (\<lambda>a. acc_id a = ei_accountId e) (accounts (race l)) \<noteq> None) (pi_entries input)"
    using assms(4) by (auto simp: list_all_iff find_key_None_iff)
  then have "post_in_tx now input (race l) = (Inl (DuplicateTransactionReferenceError (pi_reference input)), race l)"
    using assms(3) by (simp add: post_in_tx_def bnd_require) (simp add: bnd_def insert_transaction_eq)
  then show ?thesis
    using assms assertBalanced_iff[of "pi_entries input" "()"]
    by (simp add: postTransaction_raced_def from_sum_def bnd_def gets_def modify_def catch_op_def atomically_def ret_def)
qed

lemma raced_unknown_account:
  assumes "balanced (pi_entries input)" and "tx_lookup (pi_reference input) l = None"
    and "\<not> ei_accountId ` set (pi_entries input) \<subseteq> acc_id ` set (accounts (race l))"
  shows "postTransaction_raced race now input l = (Inl (LedgerError ''Account does not exist'' 400), race l)"
proof -
  have "\<not> list_all (\<lambda>e. find (\<lambda>a. acc_id a = ei_accountId e) (accounts (race l)) \<noteq> None) (pi_entries input)"
    using assms(3) by (auto simp: list_all_iff find_key_None_iff)
  then have "post_in_tx now input (race l) = (Inl (LedgerError ''Account does not exist'' 400), race l)"
    by (simp add: post_in_tx_def bnd_require)
  then show ?thesis
    using assms assertBalanced_iff[of "pi_entries input" "()"]
    by (simp add: postTransaction_raced_def from_sum_def bnd_def gets_def modify_def catch_op_def atomically_def throw_def)
qed

lemma postTransaction_existing:
  "balanced (pi_entries input) \<Longrightarrow> tx_lookup (pi_reference input) l = Some t \<Longrightarrow>
   postTransaction_raced race now input l = (Inr t, l)"
  using assertBalanced_iff[of "pi_entries input" "()"]
  by (simp add: postTransaction_raced_def from_sum_def bnd_def gets_def ret_def)

lemma posted_lookup:
  "posted input t l l' \<Longrightarrow> tx_reference t = pi_reference input \<Longrightarrow> tx_lookup (pi_reference input) l' = Some t"
  by (simp add: posted_def tx_lookup_def find_append)

lemma postTransaction_unbalanced:
  "\<not> balanced (pi_entries input) \<Longrightarrow> \<exists>e. postTransaction_raced race now input l = (Inl e, l)"
  by (cases "assertBalanced (pi_entries input)")
    (auto simp: postTransaction_raced_def from_sum_def bnd_def assertBalanced_iff)

text \<open>After a posting that returned, the reference leads to the row it returned.\<close>

lemma raced_lookup:
  assumes "postTransaction_raced race now input l = (Inr t, l')"
  shows "tx_lookup (pi_reference input) l' = Some t" and "balanced (pi_entries input)"
proof -
  show bal: "balanced (pi_entries input)"
    using postTransaction_unbalanced[of input race now l] assms by auto
  show "tx_lookup (pi_reference input) l' = Some t"
  proof (cases "tx_lookup (pi_reference input) l")
    case (Some w)
    then show ?thesis using postTransaction_existing[OF bal Some, of race now] assms by simp
  next
    case None
    show ?thesis
    proof (cases "tx_lookup (pi_reference input) (race l)")
      case (Some w)
      then show ?thesis
        using raced_loser[where race = race, OF bal None Some, of now]
          raced_unknown_account[where race = race, OF bal None, of now] assms by auto
    next
      case new: None
      then have "postTransaction now input (race l) = (Inr t, l')"
        using raced_start[OF bal None, of race now] assms by (simp add: postTransaction_def)
      then show ?thesis
        by (cases rule: postTransaction_cases) (use new posted_lookup in auto)
    qed
  qed
qed

text \<open>A small ledger for the examples: the platform float and one pot, and a funding of 500 kobo.\<close>

definition example_ledger :: ledger where
  "example_ledger = run_calls [GetOrCreate [] platform_float None, GetOrCreate [] pot_owner (Some 7)] empty_ledger"

definition example_post :: PostTransactionInput where
  "example_post = \<lparr>pi_type = ty_funding, pi_reference = ''r'',
     pi_entries = [\<lparr>ei_accountId = 2, ei_direction = credit, ei_amount = 500\<rparr>,
                   \<lparr>ei_accountId = 1, ei_direction = debit, ei_amount = 500\<rparr>],
     pi_amount = 500, pi_externalReference = None, pi_metadata = None, pi_status = None, pi_onSuccess = None\<rparr>"

lemma example_facts:
  "balanced (pi_entries example_post)" "tx_lookup (pi_reference example_post) example_ledger = None"
  "distinct (map ei_accountId (pi_entries example_post))"
  "ei_accountId ` set (pi_entries example_post) \<subseteq> acc_id ` set (accounts example_ledger)"
  by code_simp+

lemma wf_example: "wf_ledger example_ledger"
  unfolding example_ledger_def by (intro wf_run_calls wf_empty_ledger)

lemma example_post_ok: "\<exists>t l'. postTransaction 5 example_post example_ledger = (Inr t, l')"
proof -
  have "fits example_post example_ledger" by code_simp
  from postTransaction_outcome(1)[OF example_facts(1,2,3,4) this] show ?thesis by blast
qed

text \<open>C4. A reference is posted once. Whatever other requests do between the check and the insert,
  once a posting has returned its row, posting again under that reference (a retry, a redelivered
  job) returns that same row and leaves the ledger as it is.\<close>

theorem post_idempotent:
  assumes "postTransaction_raced race now input l = (Inr t, l')"
    and "pi_reference again = pi_reference input" and "balanced (pi_entries again)"
  shows "postTransaction later again l' = (Inr t, l')"
  using raced_lookup(1)[OF assms(1)] assms(2,3) by (simp add: postTransaction_def postTransaction_existing)

theorem post_idempotent_witness:
  "\<exists>t l'. postTransaction_raced id 5 example_post example_ledger = (Inr t, l') \<and>
     postTransaction 9 (example_post\<lparr>pi_amount := 3\<rparr>) l' = (Inr t, l')"
proof -
  obtain t l' where run: "postTransaction_raced id 5 example_post example_ledger = (Inr t, l')"
    using example_post_ok by (auto simp: postTransaction_def)
  then have "postTransaction 9 (example_post\<lparr>pi_amount := 3\<rparr>) l' = (Inr t, l')"
    by (rule post_idempotent) (simp_all add: example_post_def balanced_def entry_net_def)
  with run show ?thesis by blast
qed

text \<open>The loser of a race posts nothing. When another request inserts the same reference between
  the existence check and the insert, the call returns the winner's row and the ledger is the one
  the other requests left.\<close>

lemma race_loser_gets_winner:
  assumes "balanced (pi_entries input)" and "tx_lookup (pi_reference input) l = None"
    and "ei_accountId ` set (pi_entries input) \<subseteq> acc_id ` set (accounts l)"
    and "accounts (race l) = accounts l"
    and "tx_lookup (pi_reference input) (race l) = Some winner"
  shows "postTransaction_raced race now input l = (Inr winner, race l)"
  using assms by (intro raced_loser) simp_all

lemma race_loser_gets_winner_witness:
  "\<exists>t l'. postTransaction_raced (run_calls [Post [] 4 example_post]) 5 (example_post\<lparr>pi_amount := 3\<rparr>) example_ledger = (Inr t, l')"
proof -
  have "tx_lookup (pi_reference example_post) (run_calls [Post [] 4 example_post] example_ledger) =
      Some (new_transaction 4 example_post example_ledger)"
    "accounts (run_calls [Post [] 4 example_post] example_ledger) = accounts example_ledger"
    by code_simp+
  then have "postTransaction_raced (run_calls [Post [] 4 example_post]) 5 (example_post\<lparr>pi_amount := 3\<rparr>) example_ledger =
    (Inr (new_transaction 4 example_post example_ledger), run_calls [Post [] 4 example_post] example_ledger)"
    using example_facts by (intro race_loser_gets_winner) simp_all
  then show ?thesis by blast
qed

text \<open>C2. A posting is all or nothing, and it fails exactly when it would overdraw an account. For
  balanced entries on distinct, existing accounts and an unused reference: if every account
  touched stays at or above zero, the posting returns a new row, moves each balance by the signed
  sum of its entries and appends the entries; otherwise it throws InsufficientBalanceError for an
  account that would go below zero, and the ledger is unchanged.\<close>

theorem post_outcome:
  assumes "balanced (pi_entries input)" and "tx_lookup (pi_reference input) l = None"
    and "distinct (map ei_accountId (pi_entries input))"
    and "ei_accountId ` set (pi_entries input) \<subseteq> acc_id ` set (accounts l)"
  shows "if fits input l
    then \<exists>t l' rows. postTransaction now input l = (Inr t, l') \<and>
      (\<forall>x. getBalance x l' = getBalance x l + input_delta (accounts l) (pi_entries input) x) \<and>
      transactions l' = transactions l @ [t] \<and> ledgerEntries l' = ledgerEntries l @ rows \<and>
      mset (map row_input rows) = mset (pi_entries input)
    else \<exists>x. postTransaction now input l = (Inl (InsufficientBalanceError x), l) \<and>
      getBalance x l + input_delta (accounts l) (pi_entries input) x < 0"
proof (cases "fits input l")
  case True
  from postTransaction_outcome(1)[OF assms True] obtain t l' where
    run: "postTransaction now input l = (Inr t, l')" and p: "posted input t l l'" by blast
  from p obtain rows where "ledgerEntries l' = ledgerEntries l @ rows"
    "map row_input rows = sort_key ei_accountId (pi_entries input)"
    unfolding posted_def by (elim conjE exE) (rule that)
  moreover from this(2) have "mset (map row_input rows) = mset (pi_entries input)" by (simp only: mset_sort)
  moreover from p have "transactions l' = transactions l @ [t]"
    "\<forall>x. getBalance x l' = getBalance x l + input_delta (accounts l) (pi_entries input) x"
    by (simp_all add: posted_def)
  ultimately show ?thesis using run True by (auto simp del: mset_map)
next
  case False
  with postTransaction_outcome(2)[OF assms False] show ?thesis by auto
qed

theorem post_outcome_witness:
  "fst (postTransaction 5 example_post example_ledger) = Inr (new_transaction 5 example_post example_ledger) \<and>
   (\<exists>x. postTransaction 5 (example_post\<lparr>pi_entries := map (\<lambda>e. e\<lparr>ei_direction := flip_direction (ei_direction e)\<rparr>)
       (pi_entries example_post)\<rparr>) example_ledger = (Inl (InsufficientBalanceError x), example_ledger))"
proof
  show "fst (postTransaction 5 example_post example_ledger) = Inr (new_transaction 5 example_post example_ledger)"
    by code_simp
  let ?in = "example_post\<lparr>pi_entries := map (\<lambda>e. e\<lparr>ei_direction := flip_direction (ei_direction e)\<rparr>) (pi_entries example_post)\<rparr>"
  have "\<not> fits ?in example_ledger" by code_simp
  moreover have "balanced (pi_entries ?in)" "tx_lookup (pi_reference ?in) example_ledger = None"
    "distinct (map ei_accountId (pi_entries ?in))"
    "ei_accountId ` set (pi_entries ?in) \<subseteq> acc_id ` set (accounts example_ledger)"
    by code_simp+
  ultimately show "\<exists>x. postTransaction 5 ?in example_ledger = (Inl (InsufficientBalanceError x), example_ledger)"
    using post_outcome[of ?in example_ledger 5] by auto
qed

section \<open>Reversals\<close>

lemma signedDelta_flip: "signedDelta n (flip_direction d) v = - signedDelta n d v"
  by (cases d; cases n) (simp_all add: signedDelta_def)

lemma entry_net_flip: "entry_net (flip_direction d) v = - entry_net d v"
  by (cases d) (simp_all add: entry_net_def)

lemma reversed_entries_eq:
  "reversed_entries t l = map (\<lambda>e. e\<lparr>ei_direction := flip_direction (ei_direction e)\<rparr>) (map row_input (entries_of t l))"
  by (simp add: reversed_entries_def entries_of_def row_input_def)

lemma input_delta_flip:
  "input_delta accs (map (\<lambda>e. e\<lparr>ei_direction := flip_direction (ei_direction e)\<rparr>) es) x = - input_delta accs es x"
  by (induction es) (auto simp: signedDelta_flip)

lemma sum_net_flip:
  "(\<Sum>e\<leftarrow>map (\<lambda>e. e\<lparr>ei_direction := flip_direction (ei_direction e)\<rparr>) es. entry_net (ei_direction e) (ei_amount e)) =
   - (\<Sum>e\<leftarrow>es. entry_net (ei_direction e) (ei_amount e))"
  by (induction es) (auto simp: entry_net_flip)

lemma balanced_reversed:
  assumes "wf_ledger l" and "entries_of t l \<noteq> []"
  shows "balanced (reversed_entries t l)"
proof -
  have "(\<Sum>e\<leftarrow>map row_input (entries_of t l). entry_net (ei_direction e) (ei_amount e)) = 0"
    using wf_ledgerD(7)[OF assms(1), of t] by (simp only: row_net_input)
  then have "(\<Sum>e\<leftarrow>reversed_entries t l. entry_net (ei_direction e) (ei_amount e)) = 0"
    by (simp only: reversed_entries_eq sum_net_flip)
  moreover have "\<forall>e\<in>set (reversed_entries t l). 0 < ei_amount e"
    using wf_ledgerD(8)[OF assms(1)] by (auto simp: reversed_entries_def)
  moreover have "reversed_entries t l \<noteq> []"
    using assms(2) by (simp add: reversed_entries_eq)
  ultimately show ?thesis by (simp add: balanced_def)
qed

definition reversal_input :: "transaction \<Rightarrow> string \<Rightarrow> ledger \<Rightarrow> PostTransactionInput" where
  "reversal_input original reference l =
     \<lparr>pi_type = ty_reversal, pi_reference = reference, pi_entries = reversed_entries (tx_id original) l,
      pi_amount = tx_amount original, pi_externalReference = None,
      pi_metadata = Some (no_metadata\<lparr>md_reversalOf := Some (tx_id original)\<rparr>),
      pi_status = None, pi_onSuccess = None\<rparr>"

lemma reversal_input_simps [simp]:
  "pi_reference (reversal_input o' r l) = r"
  "pi_entries (reversal_input o' r l) = reversed_entries (tx_id o') l"
  by (simp_all add: reversal_input_def)

lemma reverseTransaction_eq:
  assumes "find (\<lambda>t. tx_id t = i) (transactions l) = Some original"
  shows "reverseTransaction now i r l =
    (case postTransaction now (reversal_input original r l) l of
       (Inl e, _) \<Rightarrow> (Inl e, l)
     | (Inr t, l') \<Rightarrow> (Inr t, l'\<lparr>transactions :=
          update_where (\<lambda>t. tx_id t = i) (set_status tx_reversed) (transactions l')\<rparr>))"
proof -
  have "tx_id original = i"
    using find_SomeD[OF assms] by simp
  then show ?thesis
    using assms
    by (simp add: reverseTransaction_def reversal_input_def atomically_def bnd_def modify_def ret_def
        split: prod.split sum.split)
qed

text \<open>What a reversal that goes through does to every balance.\<close>

lemma reverseTransaction_balance:
  assumes "find (\<lambda>t. tx_id t = i) (transactions l) = Some original" and "tx_lookup r l = None"
    and "reverseTransaction now i r l = (Inr t, l')"
  shows "getBalance x l' = getBalance x l - row_delta (accounts l) (entries_of i l) x"
proof -
  have i: "tx_id original = i"
    using find_SomeD[OF assms(1)] by simp
  from assms(3) obtain l1 where run: "postTransaction now (reversal_input original r l) l = (Inr t, l1)"
    and l': "l' = l1\<lparr>transactions := update_where (\<lambda>t. tx_id t = i) (set_status tx_reversed) (transactions l1)\<rparr>"
    by (auto simp: reverseTransaction_eq[OF assms(1)] split: prod.splits sum.splits)
  from run have "posted (reversal_input original r l) t l l1"
    by (cases rule: postTransaction_cases) (use assms(2) in auto)
  then have "getBalance x l1 = getBalance x l + input_delta (accounts l) (reversed_entries i l) x"
    by (simp add: posted_def i)
  then show ?thesis
    by (simp add: l' reversed_entries_eq input_delta_flip row_delta_input del: map_map)
qed

lemma entries_of_new:
  assumes "wf_ledger l" and "posted input t l l'" and "tx_id t = fresh_id (map tx_id (transactions l))"
  shows "map row_input (entries_of (tx_id t) l') = sort_key ei_accountId (pi_entries input)"
proof -
  from assms(2)[unfolded posted_def] obtain rows where les: "ledgerEntries l' = ledgerEntries l @ rows"
    and rows: "map row_input rows = sort_key ei_accountId (pi_entries input)"
    and ids: "\<forall>r\<in>set rows. le_transactionId r = tx_id t"
    by (elim conjE exE) (rule that)
  have "tx_id t \<notin> tx_id ` set (transactions l)"
    using fresh_id_notin[of "map tx_id (transactions l)"] assms(3) by simp
  then have "filter (\<lambda>e. le_transactionId e = tx_id t) (ledgerEntries l) = []"
    using wf_ledgerD(10)[OF assms(1)] unfolding filter_empty_conv by metis
  moreover have "filter (\<lambda>e. le_transactionId e = tx_id t) rows = rows"
    using ids by (simp add: filter_id_conv)
  ultimately show ?thesis by (simp add: entries_of_def les rows)
qed

text \<open>C3. A reversal undoes a posting. Reversing a transaction just posted, under an unused reference
  and with one entry per account, always goes through: every account is back at its balance from
  before the posting, the original row is marked reversed, and no ledger entry is changed or
  removed.\<close>

theorem reverse_undoes_post:
  assumes "wf_ledger l" and "tx_lookup (pi_reference input) l = None"
    and "postTransaction now input l = (Inr t, l1)"
    and "distinct (map ei_accountId (pi_entries input))" and "tx_lookup reference l1 = None"
  shows "\<exists>t2 l2. reverseTransaction later (tx_id t) reference l1 = (Inr t2, l2) \<and>
    (\<forall>x. getBalance x l2 = getBalance x l) \<and>
    map_option tx_status (find (\<lambda>r. tx_id r = tx_id t) (transactions l2)) = Some tx_reversed \<and>
    (\<exists>rows. ledgerEntries l2 = ledgerEntries l1 @ rows)"
proof -
  from assms(3) have t: "t = new_transaction now input l" and p: "posted input t l l1"
    and bal: "balanced (pi_entries input)"
    by (cases rule: postTransaction_cases; use assms(2) in simp)+
  have wf1: "wf_ledger l1"
    using posted_wf[OF assms(1) p bal] t by simp
  have acc: "accounts l1 = accounts l" and txs: "transactions l1 = transactions l @ [t]"
    and known: "ei_accountId ` set (pi_entries input) \<subseteq> acc_id ` set (accounts l)"
    using p by (simp_all add: posted_def)
  have "tx_id t \<notin> tx_id ` set (transactions l)"
    using fresh_id_notin[of "map tx_id (transactions l)"] t by simp
  then have found: "find (\<lambda>r. tx_id r = tx_id t) (transactions l1) = Some t"
    by (simp add: txs find_append find_key_None_iff[of tx_id, THEN iffD2])
  have rows: "map row_input (entries_of (tx_id t) l1) = sort_key ei_accountId (pi_entries input)"
    using entries_of_new[OF assms(1) p] t by simp
  let ?in = "reversal_input t reference l1"
  have es: "pi_entries ?in = map (\<lambda>e. e\<lparr>ei_direction := flip_direction (ei_direction e)\<rparr>) (sort_key ei_accountId (pi_entries input))"
    by (simp add: reversed_entries_eq rows del: map_map)
  have bal': "balanced (pi_entries ?in)"
  proof -
    have "entries_of (tx_id t) l1 \<noteq> []"
      using bal arg_cong[OF rows, of length] by (auto simp: balanced_def simp del: length_map)
    from balanced_reversed[OF wf1 this] show ?thesis by simp
  qed
  have ids: "map ei_accountId (pi_entries ?in) = map ei_accountId (sort_key ei_accountId (pi_entries input))"
    by (simp add: es del: reversal_input_simps)
  have dist: "distinct (map ei_accountId (pi_entries ?in))"
    unfolding ids by (rule sort_by_account_distinct[OF assms(4)])
  have known': "ei_accountId ` set (pi_entries ?in) \<subseteq> acc_id ` set (accounts l1)"
    using known arg_cong[OF ids, of set] by (simp add: acc del: reversal_input_simps)
  have delta: "getBalance x l1 + input_delta (accounts l1) (pi_entries ?in) x = getBalance x l" for x
  proof -
    have "getBalance x l1 = getBalance x l + input_delta (accounts l) (pi_entries input) x"
      using p by (simp add: posted_def)
    then show ?thesis by (simp add: es input_delta_flip acc del: reversal_input_simps)
  qed
  have "fits ?in l1"
    using delta wf_ledgerD(6)[OF assms(1)] by (simp add: fits_def del: reversal_input_simps)
  then obtain t2 l2 where run: "postTransaction later ?in l1 = (Inr t2, l2)" and p2: "posted ?in t2 l1 l2"
    using postTransaction_outcome(1)[OF bal' _ dist known', of later] assms(5) by auto
  let ?l2 = "l2\<lparr>transactions := update_where (\<lambda>r. tx_id r = tx_id t) (set_status tx_reversed) (transactions l2)\<rparr>"
  have "reverseTransaction later (tx_id t) reference l1 = (Inr t2, ?l2)"
    by (simp add: reverseTransaction_eq[OF found] run)
  moreover have "getBalance x ?l2 = getBalance x l" for x
    using p2 delta[of x] by (simp add: posted_def del: reversal_input_simps)
  moreover have "map_option tx_status (find (\<lambda>r. tx_id r = tx_id t) (transactions ?l2)) = Some tx_reversed"
    using found p2 by (simp add: posted_def set_status.find_if find_append) (simp add: set_status_def)
  moreover have "\<exists>rows. ledgerEntries ?l2 = ledgerEntries l1 @ rows"
    using p2 by (auto simp: posted_def)
  ultimately show ?thesis by blast
qed

theorem reverse_undoes_post_witness:
  "\<exists>t l1 t2 l2. postTransaction 5 example_post example_ledger = (Inr t, l1) \<and>
     reverseTransaction 6 (tx_id t) ''undo'' l1 = (Inr t2, l2) \<and> getBalance 2 l1 = 500 \<and> getBalance 2 l2 = 0"
proof -
  obtain t l1 where run: "postTransaction 5 example_post example_ledger = (Inr t, l1)"
    using example_post_ok by blast
  have "tx_lookup ''undo'' (snd (postTransaction 5 example_post example_ledger)) = None"
    "getBalance 2 (snd (postTransaction 5 example_post example_ledger)) = 500" "getBalance 2 example_ledger = 0"
    by code_simp+
  moreover from this(1) obtain t2 l2 where "reverseTransaction 6 (tx_id t) ''undo'' l1 = (Inr t2, l2)"
    "\<forall>x. getBalance x l2 = getBalance x example_ledger"
    using reverse_undoes_post[OF wf_example example_facts(2) run example_facts(3), of "''undo''" 6] run by auto
  ultimately show ?thesis using run by auto
qed

end
