(* ===== verification/Fees.thy ===== *)
theory Fees
  imports Ledger_Properties "HOL-Library.Signed_Division"
begin

text \<open>
  \<open>lib/fees.ts\<close>: Nomba's and the platform's fees on money in and out, and the ledger legs every
  posting of the backend is built from. The interface \<open>fee_split\<close> says what a posting relies on:
  five entries on five different accounts, all positive, debits equal to credits. Each of the four
  leg functions is an instance, so every posting the services make is balanced.
\<close>

section \<open>The fee schedule\<close>

definition NOMBA_INBOUND_FEE_RATE_BPS :: kobo where "NOMBA_INBOUND_FEE_RATE_BPS = 100"
definition NOMBA_INBOUND_FEE_MIN :: kobo where "NOMBA_INBOUND_FEE_MIN = 1000"
definition NOMBA_INBOUND_FEE_MAX :: kobo where "NOMBA_INBOUND_FEE_MAX = 15000"
definition PLATFORM_INBOUND_FEE :: kobo where "PLATFORM_INBOUND_FEE = 1000"

text \<open>BigInt division truncates towards zero, as \<open>sdiv\<close> does.\<close>

definition nombaInboundFeeFor :: "kobo \<Rightarrow> kobo" where
  "nombaInboundFeeFor intendedAmount =
     (let raw = (intendedAmount * NOMBA_INBOUND_FEE_RATE_BPS) sdiv 10000 in
      if raw < NOMBA_INBOUND_FEE_MIN then NOMBA_INBOUND_FEE_MIN
      else if NOMBA_INBOUND_FEE_MAX < raw then NOMBA_INBOUND_FEE_MAX
      else raw)"

definition inboundFeeFor :: "kobo \<Rightarrow> kobo" where
  "inboundFeeFor intendedAmount = nombaInboundFeeFor intendedAmount + PLATFORM_INBOUND_FEE"

definition NOMBA_OUTBOUND_FEE :: kobo where "NOMBA_OUTBOUND_FEE = 2000"
definition PLATFORM_OUTBOUND_FEE :: kobo where "PLATFORM_OUTBOUND_FEE = 3000"
definition OUTBOUND_FEE :: kobo where "OUTBOUND_FEE = NOMBA_OUTBOUND_FEE + PLATFORM_OUTBOUND_FEE"

lemmas fee_constants = NOMBA_INBOUND_FEE_RATE_BPS_def NOMBA_INBOUND_FEE_MIN_def NOMBA_INBOUND_FEE_MAX_def
  PLATFORM_INBOUND_FEE_def NOMBA_OUTBOUND_FEE_def PLATFORM_OUTBOUND_FEE_def OUTBOUND_FEE_def

section \<open>The legs\<close>

abbreviation debit_of :: "uuid \<Rightarrow> kobo \<Rightarrow> LedgerEntryInput" where
  "debit_of a v \<equiv> \<lparr>ei_accountId = a, ei_direction = debit, ei_amount = v\<rparr>"

abbreviation credit_of :: "uuid \<Rightarrow> kobo \<Rightarrow> LedgerEntryInput" where
  "credit_of a v \<equiv> \<lparr>ei_accountId = a, ei_direction = credit, ei_amount = v\<rparr>"

text \<open>The accounts a leg function is given; \<open>fa_source\<close> is the pot's account or \<open>suspense\<close>.\<close>

record fee_accounts =
  fa_sourceId :: uuid
  fa_platformFloatId :: uuid
  fa_platformRevenueId :: uuid
  fa_nombaFeeExpenseId :: uuid
  fa_nombaClearingId :: uuid

definition inboundFeeLegs :: "fee_accounts \<Rightarrow> kobo \<Rightarrow> LedgerEntryInput list" where
  "inboundFeeLegs accs intendedAmount =
     (let nombaFee = nombaInboundFeeFor intendedAmount in
      [debit_of (fa_platformFloatId accs) (intendedAmount + PLATFORM_INBOUND_FEE),
       credit_of (fa_sourceId accs) intendedAmount,
       credit_of (fa_platformRevenueId accs) PLATFORM_INBOUND_FEE,
       debit_of (fa_nombaFeeExpenseId accs) nombaFee,
       credit_of (fa_nombaClearingId accs) nombaFee])"

definition outboundFeeLegs :: "fee_accounts \<Rightarrow> kobo \<Rightarrow> LedgerEntryInput list" where
  "outboundFeeLegs accs recipientAmount =
     [debit_of (fa_sourceId accs) (recipientAmount + OUTBOUND_FEE),
      credit_of (fa_platformFloatId accs) (recipientAmount + NOMBA_OUTBOUND_FEE),
      credit_of (fa_platformRevenueId accs) PLATFORM_OUTBOUND_FEE,
      debit_of (fa_nombaFeeExpenseId accs) NOMBA_OUTBOUND_FEE,
      credit_of (fa_nombaClearingId accs) NOMBA_OUTBOUND_FEE]"

definition overpaymentRefundLegs :: "fee_accounts \<Rightarrow> kobo \<Rightarrow> LedgerEntryInput list" where
  "overpaymentRefundLegs accs refundAmount =
     [debit_of (fa_sourceId accs) (refundAmount + OUTBOUND_FEE),
      credit_of (fa_platformFloatId accs) (refundAmount + NOMBA_OUTBOUND_FEE),
      credit_of (fa_platformRevenueId accs) PLATFORM_OUTBOUND_FEE,
      debit_of (fa_nombaFeeExpenseId accs) NOMBA_OUTBOUND_FEE,
      credit_of (fa_nombaClearingId accs) NOMBA_OUTBOUND_FEE]"

definition expiryRefundLegs :: "fee_accounts \<Rightarrow> kobo \<Rightarrow> LedgerEntryInput list" where
  "expiryRefundLegs accs refundAmount =
     [debit_of (fa_sourceId accs) (refundAmount + OUTBOUND_FEE),
      credit_of (fa_platformFloatId accs) (refundAmount + NOMBA_OUTBOUND_FEE),
      credit_of (fa_platformRevenueId accs) PLATFORM_OUTBOUND_FEE,
      debit_of (fa_nombaFeeExpenseId accs) NOMBA_OUTBOUND_FEE,
      credit_of (fa_nombaClearingId accs) NOMBA_OUTBOUND_FEE]"

section \<open>What a posting relies on\<close>

definition account_ids :: "fee_accounts \<Rightarrow> uuid list" where
  "account_ids accs = [fa_sourceId accs, fa_platformFloatId accs, fa_platformRevenueId accs,
     fa_nombaFeeExpenseId accs, fa_nombaClearingId accs]"

text \<open>The contract of a leg function: one entry on each of its five accounts, positive amounts for
  an amount of at least one kobo, debits equal to credits.\<close>

locale fee_split =
  fixes legs :: "fee_accounts \<Rightarrow> kobo \<Rightarrow> LedgerEntryInput list"
  assumes legs_accounts: "mset (map ei_accountId (legs accs v)) = mset (account_ids accs)"
    and legs_positive: "1 \<le> v \<Longrightarrow> e \<in> set (legs accs v) \<Longrightarrow> 0 < ei_amount e"
    and legs_net: "(\<Sum>e\<leftarrow>legs accs v. entry_net (ei_direction e) (ei_amount e)) = 0"
begin

lemma legs_balanced:
  assumes "1 \<le> v"
  shows "balanced (legs accs v)"
proof -
  have "length (legs accs v) = 5"
    using arg_cong[OF legs_accounts[of accs v], of size] by (simp add: account_ids_def)
  then show ?thesis
    using legs_positive[OF assms] legs_net by (auto simp: balanced_def)
qed

lemma legs_distinct: "distinct (account_ids accs) \<Longrightarrow> distinct (map ei_accountId (legs accs v))"
  using mset_eq_imp_distinct_iff[OF legs_accounts] by blast

lemma legs_set: "ei_accountId ` set (legs accs v) = set (account_ids accs)"
  using mset_eq_setD[OF legs_accounts[of accs v]] by simp

lemma legs_known:
  "set (account_ids accs) \<subseteq> acc_id ` set (accounts l) \<Longrightarrow>
   ei_accountId ` set (legs accs v) \<subseteq> acc_id ` set (accounts l)"
  by (simp only: legs_set)

text \<open>A posting made of these legs goes through unless it would overdraw one of the accounts.\<close>

lemma posting_outcome:
  assumes "1 \<le> v" and "distinct (account_ids accs)" and "set (account_ids accs) \<subseteq> acc_id ` set (accounts l)"
    and "tx_lookup (pi_reference input) l = None" and "pi_entries input = legs accs v"
  shows "fits input l \<Longrightarrow> \<exists>t l'. postTransaction now input l = (Inr t, l') \<and> posted input t l l'"
    and "\<not> fits input l \<Longrightarrow> \<exists>x. postTransaction now input l = (Inl (InsufficientBalanceError x), l)"
proof -
  have ok: "balanced (pi_entries input)" "distinct (map ei_accountId (pi_entries input))"
    "ei_accountId ` set (pi_entries input) \<subseteq> acc_id ` set (accounts l)"
    unfolding assms(5) by (rule legs_balanced[OF assms(1)] legs_distinct[OF assms(2)] legs_known[OF assms(3)])+
  show "fits input l \<Longrightarrow> \<exists>t l'. postTransaction now input l = (Inr t, l') \<and> posted input t l l'"
    by (rule postTransaction_outcome(1)[OF ok(1) assms(4) ok(2,3)])
  show "\<not> fits input l \<Longrightarrow> \<exists>x. postTransaction now input l = (Inl (InsufficientBalanceError x), l)"
    using postTransaction_outcome(2)[OF ok(1) assms(4) ok(2,3), of now] by metis
qed

end

lemma nombaInboundFeeFor_bounds:
  "NOMBA_INBOUND_FEE_MIN \<le> nombaInboundFeeFor v" "nombaInboundFeeFor v \<le> NOMBA_INBOUND_FEE_MAX"
  by (simp_all add: nombaInboundFeeFor_def fee_constants Let_def)

lemma nombaInboundFeeFor_pos: "0 < nombaInboundFeeFor v"
  using nombaInboundFeeFor_bounds(1)[of v] by (simp add: fee_constants)

interpretation inbound: fee_split inboundFeeLegs
  by unfold_locales
    (auto simp: inboundFeeLegs_def account_ids_def Let_def entry_net_def fee_constants nombaInboundFeeFor_pos)

interpretation outbound: fee_split outboundFeeLegs
  by unfold_locales (auto simp: outboundFeeLegs_def account_ids_def entry_net_def fee_constants)

interpretation overpayment: fee_split overpaymentRefundLegs
  by unfold_locales (auto simp: overpaymentRefundLegs_def account_ids_def entry_net_def fee_constants)

interpretation expiry: fee_split expiryRefundLegs
  by unfold_locales (auto simp: expiryRefundLegs_def account_ids_def entry_net_def fee_constants)

section \<open>The fee schedule's shape\<close>

lemma sdiv_nonneg: "0 \<le> (a :: int) \<Longrightarrow> 0 \<le> b \<Longrightarrow> a sdiv b = a div b"
  by (cases "a = 0"; cases "b = 0") (simp_all add: signed_divide_int_def)

lemma nombaInboundFeeFor_nonneg:
  "0 \<le> v \<Longrightarrow> nombaInboundFeeFor v = max 1000 (min 15000 (v div 100))"
  using div_mult_mult2[of 100 v 100]
  by (simp add: nombaInboundFeeFor_def fee_constants Let_def sdiv_nonneg max_def min_def)

text \<open>The inbound fee is Nomba's 1% truncated, never below N10 and never above N150, plus N10 for
  the platform; a larger contribution never pays a smaller fee, and the fee is at most 1% plus N20.\<close>

lemma inbound_fee_schedule:
  assumes "0 \<le> v" and "v \<le> w"
  shows "inboundFeeFor v = max 1000 (min 15000 (v div 100)) + 1000 \<and>
    inboundFeeFor v \<le> inboundFeeFor w \<and> 2000 \<le> inboundFeeFor v \<and> inboundFeeFor v \<le> 16000 \<and>
    100 * inboundFeeFor v \<le> v + 200000"
proof -
  have "v div 100 \<le> w div 100"
    using assms(2) by (simp add: zdiv_mono1)
  then show ?thesis
    using assms by (auto simp: inboundFeeFor_def nombaInboundFeeFor_nonneg fee_constants max_def min_def)
qed

lemma inbound_fee_schedule_witness:
  "inboundFeeFor 123456 = 2234 \<and> inboundFeeFor 123456 \<le> inboundFeeFor 9900000"
  using inbound_fee_schedule[of 123456 9900000] by simp

end
