(* ===== verification/Money.thy ===== *)
theory Money
  imports Prelude
begin

text \<open>
  The naira wire format: \<open>apps/backend/src/lib/money.ts\<close>, the request-side pattern
  \<open>nairaAmount\<close> of \<open>pots.schema.ts\<close>, and the frontend's own copies in
  \<open>apps/web/lib/money.ts\<close>. Strings are lists of characters; the regular expressions are
  written out as the scans they describe, \<open>String.split\<close>, \<open>padStart\<close> and \<open>BigInt\<close> as
  the standard library's functions on decimal text.
\<close>

section \<open>Decimal text\<close>

definition is_digit :: "char \<Rightarrow> bool" where
  "is_digit c \<longleftrightarrow> (48 :: nat) \<le> of_char c \<and> (of_char c :: nat) \<le> 57"

definition digit_char :: "nat \<Rightarrow> char" where
  "digit_char d = char_of (48 + d)"

definition digit_val :: "char \<Rightarrow> nat" where
  "digit_val c = of_char c - 48"

text \<open>\<open>n.toString()\<close> of a non-negative bigint, and \<open>BigInt(text)\<close> of decimal text.\<close>

fun show_nat :: "nat \<Rightarrow> string" where
  "show_nat n = (if n < 10 then [digit_char n] else show_nat (n div 10) @ [digit_char (n mod 10)])"

declare show_nat.simps [simp del]

definition parse_nat :: "string \<Rightarrow> nat" where
  "parse_nat s = foldl (\<lambda>a c. 10 * a + digit_val c) 0 s"

definition BigInt :: "string \<Rightarrow> int" where
  "BigInt s = int (parse_nat s)"

definition show_int :: "int \<Rightarrow> string" where
  "show_int n = (if n < 0 then ''-'' @ show_nat (nat (- n)) else show_nat (nat n))"

definition padStart :: "nat \<Rightarrow> char \<Rightarrow> string \<Rightarrow> string" where
  "padStart n c s = replicate (n - length s) c @ s"

text \<open>\<open>s.split(".")\<close>\<close>

fun split_dot :: "string \<Rightarrow> string list" where
  "split_dot [] = [[]]"
| "split_dot (c # cs) =
     (if c = CHR ''.'' then [] # split_dot cs
      else (case split_dot cs of p # ps \<Rightarrow> (c # p) # ps | [] \<Rightarrow> [[c]]))"

lemma of_char_digit_char: "d < 10 \<Longrightarrow> (of_char (digit_char d) :: nat) = 48 + d"
  by (simp add: digit_char_def of_char_mod_256)

lemma digit_char_0: "digit_char 0 = CHR ''0''"
  by (simp add: digit_char_def char_of_def bit_0)

lemma is_digit_digit_char [simp]: "d < 10 \<Longrightarrow> is_digit (digit_char d)"
  by (simp add: is_digit_def of_char_digit_char)

lemma digit_val_digit_char [simp]: "d < 10 \<Longrightarrow> digit_val (digit_char d) = d"
  by (simp add: digit_val_def of_char_digit_char)

lemma digit_val_less: "is_digit c \<Longrightarrow> digit_val c < 10"
  unfolding is_digit_def digit_val_def by linarith

lemma digit_char_digit_val: "is_digit c \<Longrightarrow> digit_char (digit_val c) = c"
  by (simp add: is_digit_def digit_val_def digit_char_def)

lemma is_digit_not_dot: "is_digit c \<Longrightarrow> c \<noteq> CHR ''.''"
  by (auto simp: is_digit_def)

lemma not_digit_dot [simp]: "\<not> is_digit (CHR ''.'')" "\<not> is_digit (CHR ''-'')"
  by (simp_all add: is_digit_def)

lemma show_nat_digits: "c \<in> set (show_nat n) \<Longrightarrow> is_digit c"
  by (induction n rule: show_nat.induct) (subst (asm) (2) show_nat.simps, auto split: if_splits)

lemma show_nat_nonempty [simp]: "show_nat n \<noteq> []"
  by (subst show_nat.simps) simp

lemma parse_nat_snoc: "parse_nat (s @ [c]) = 10 * parse_nat s + digit_val c"
  by (simp add: parse_nat_def)

lemma parse_nat_Nil [simp]: "parse_nat [] = 0"
  by (simp add: parse_nat_def)

lemma parse_show_nat [simp]: "parse_nat (show_nat n) = n"
proof (induction n rule: show_nat.induct)
  case (1 n)
  show ?case
  proof (cases "n < 10")
    case True
    then show ?thesis
      using parse_nat_snoc[of "[]"] by (subst show_nat.simps) simp
  next
    case False
    then show ?thesis
      using 1 by (subst show_nat.simps) (simp add: parse_nat_snoc)
  qed
qed

lemma show_nat_inject [simp]: "show_nat m = show_nat n \<longleftrightarrow> m = n"
  by (metis parse_show_nat)

lemma length_show_nat_small: "n < 100 \<Longrightarrow> length (show_nat n) = (if n < 10 then 1 else 2)"
  by (subst show_nat.simps, subst show_nat.simps) (simp add: less_mult_imp_div_less)

lemma parse_nat_zeros: "parse_nat (replicate k (CHR ''0'') @ s) = parse_nat s"
  by (induction k) (simp_all add: parse_nat_def digit_val_def)

lemma split_dot_no_dot: "CHR ''.'' \<notin> set s \<Longrightarrow> split_dot s = [s]"
  by (induction s) auto

lemma split_dot_one: "CHR ''.'' \<notin> set a \<Longrightarrow> split_dot (a @ CHR ''.'' # b) = a # split_dot b"
  by (induction a) auto

lemma digits_no_dot: "list_all is_digit s \<Longrightarrow> CHR ''.'' \<notin> set s"
  by (auto simp: list_all_iff)

section \<open>lib/money.ts\<close>

text \<open>\<open>/^\d+\.\d{2}$/\<close>: a run of digits, a dot, two digits, the end.\<close>

definition isValidNairaString :: "string \<Rightarrow> bool" where
  "isValidNairaString s \<longleftrightarrow>
     takeWhile is_digit s \<noteq> [] \<and>
     (case dropWhile is_digit s of
        [dot, k1, k2] \<Rightarrow> dot = CHR ''.'' \<and> is_digit k1 \<and> is_digit k2
      | _ \<Rightarrow> False)"

definition nairaStringToKobo :: "string \<Rightarrow> error + kobo" where
  "nairaStringToKobo naira =
     (if \<not> isValidNairaString naira
      then Inl (PlainError (''nairaStringToKobo: '' @ naira @ '' is not a valid NN.NN naira string''))
      else (case split_dot naira of
              nairaPart # koboPart # _ \<Rightarrow> Inr (BigInt nairaPart * 100 + BigInt koboPart)
            | _ \<Rightarrow> Inl (PlainError ''TypeError'')))"

definition koboToNairaString :: "kobo \<Rightarrow> string" where
  "koboToNairaString k =
     (let negative = k < 0;
          absKobo = (if negative then - k else k);
          nairaPart = absKobo div 100;
          koboPart = absKobo mod 100;
          sign = (if negative then ''-'' else [])
      in sign @ show_int nairaPart @ ''.'' @ padStart 2 (CHR ''0'') (show_int koboPart))"

text \<open>
  \<open>nairaAmount\<close> of \<open>pots.schema.ts\<close>: \<open>/^(?=.*[1-9])\d+\.\d{2}$/\<close>, the same shape with
  a non-zero digit somewhere.
\<close>

definition nairaAmount :: "string \<Rightarrow> bool" where
  "nairaAmount s \<longleftrightarrow> isValidNairaString s \<and> list_ex (\<lambda>c. is_digit c \<and> c \<noteq> CHR ''0'') s"

lemma isValidNairaString_iff:
  "isValidNairaString s \<longleftrightarrow>
     (\<exists>n k1 k2. s = n @ [CHR ''.'', k1, k2] \<and> n \<noteq> [] \<and> list_all is_digit n \<and>
        is_digit k1 \<and> is_digit k2)"
proof
  assume "isValidNairaString s"
  then obtain k1 k2 where "takeWhile is_digit s \<noteq> []" "dropWhile is_digit s = [CHR ''.'', k1, k2]"
    "is_digit k1" "is_digit k2"
    by (auto simp: isValidNairaString_def split: list.splits)
  moreover have "list_all is_digit (takeWhile is_digit s)"
    by (auto simp: list_all_iff dest: set_takeWhileD)
  ultimately show "\<exists>n k1 k2. s = n @ [CHR ''.'', k1, k2] \<and> n \<noteq> [] \<and> list_all is_digit n \<and>
        is_digit k1 \<and> is_digit k2"
    by (metis takeWhile_dropWhile_id)
next
  assume "\<exists>n k1 k2. s = n @ [CHR ''.'', k1, k2] \<and> n \<noteq> [] \<and> list_all is_digit n \<and>
        is_digit k1 \<and> is_digit k2"
  then obtain n k1 k2 where s: "s = n @ [CHR ''.'', k1, k2]" "n \<noteq> []" "\<forall>c\<in>set n. is_digit c"
    "is_digit k1" "is_digit k2"
    by (auto simp: list_all_iff)
  have "takeWhile is_digit s = n" "dropWhile is_digit s = [CHR ''.'', k1, k2]"
    using s by (simp_all add: takeWhile_append2 dropWhile_append2)
  then show "isValidNairaString s"
    using s by (simp add: isValidNairaString_def)
qed

lemma nairaStringToKobo_parts:
  assumes "list_all is_digit n" "n \<noteq> []" "is_digit k1" "is_digit k2"
  shows "nairaStringToKobo (n @ [CHR ''.'', k1, k2]) = Inr (BigInt n * 100 + BigInt [k1, k2])"
proof -
  have "isValidNairaString (n @ [CHR ''.'', k1, k2])"
    using assms by (auto simp: isValidNairaString_iff)
  moreover have "split_dot (n @ [CHR ''.'', k1, k2]) = [n, [k1, k2]]"
    using assms digits_no_dot[of n] digits_no_dot[of "[k1, k2]"]
    by (simp add: split_dot_one split_dot_no_dot del: split_dot.simps(2))
  ultimately show ?thesis
    by (simp add: nairaStringToKobo_def)
qed

lemma two_digits:
  assumes "0 \<le> k" "k < 100"
  shows "padStart 2 (CHR ''0'') (show_int k) = [digit_char (nat k div 10), digit_char (nat k mod 10)]"
proof (cases "k < 10")
  case True
  then show ?thesis
    using assms by (simp add: show_int_def padStart_def show_nat.simps nat_less_iff digit_char_0)
next
  case False
  then show ?thesis
    using assms
    by (simp add: show_int_def padStart_def length_show_nat_small)
      (subst show_nat.simps, subst show_nat.simps, auto)
qed

lemma BigInt_two_digits: "d < 10 \<Longrightarrow> e < 10 \<Longrightarrow> BigInt [digit_char d, digit_char e] = int (10 * d + e)"
  by (simp add: BigInt_def parse_nat_def)

lemma koboToNairaString_nonneg:
  assumes "0 \<le> k"
  shows "koboToNairaString k =
    show_nat (nat (k div 100)) @ [CHR ''.'', digit_char (nat (k mod 100) div 10), digit_char (nat (k mod 100) mod 10)]"
proof -
  have "padStart 2 (CHR ''0'') (show_int (k mod 100)) =
      [digit_char (nat (k mod 100) div 10), digit_char (nat (k mod 100) mod 10)]"
    by (rule two_digits) simp_all
  moreover have "show_int (k div 100) = show_nat (nat (k div 100))"
    using assms by (simp add: show_int_def)
  ultimately show ?thesis
    using assms by (simp add: koboToNairaString_def Let_def)
qed

lemma kobo_renders: "0 \<le> k \<Longrightarrow> nairaStringToKobo (koboToNairaString k) = Inr k"
proof -
  assume k: "0 \<le> k"
  let ?r = "nat (k mod 100)"
  have r: "?r div 10 < 10" "?r mod 10 < 10"
    by (simp_all add: less_mult_imp_div_less nat_less_iff)
  have digits: "list_all is_digit (show_nat (nat (k div 100)))"
    by (auto simp: list_all_iff show_nat_digits)
  have "nairaStringToKobo (koboToNairaString k) =
      Inr (BigInt (show_nat (nat (k div 100))) * 100 + BigInt [digit_char (?r div 10), digit_char (?r mod 10)])"
    using k r digits by (simp add: koboToNairaString_nonneg nairaStringToKobo_parts)
  also have "\<dots> = Inr (k div 100 * 100 + int ?r)"
    using k r by (simp add: BigInt_two_digits) (simp add: BigInt_def pos_imp_zdiv_nonneg_iff)
  also have "\<dots> = Inr k"
    by simp
  finally show ?thesis .
qed

text \<open>Rendering a non-negative kobo amount as a wire string and reading it back gives the
  amount: the wire format loses nothing.\<close>

lemma kobo_roundtrip: "0 \<le> k \<Longrightarrow> nairaStringToKobo (koboToNairaString k) = Inr k"
  by (rule kobo_renders)

lemma kobo_roundtrip_witness:
  "(0 :: kobo) \<le> 10050 \<and> nairaStringToKobo (koboToNairaString 10050) = Inr 10050"
  using kobo_roundtrip[of 10050] by simp

text \<open>The wire string of the same amount without leading zeros.\<close>

definition canonical_naira :: "string \<Rightarrow> string" where
  "canonical_naira s =
     (case dropWhile (\<lambda>c. c = CHR ''0'') (takeWhile is_digit s) of
        [] \<Rightarrow> ''0'' | n \<Rightarrow> n) @ dropWhile is_digit s"

lemma parse_nat_eq_0: "list_all is_digit n \<Longrightarrow> parse_nat n = 0 \<longleftrightarrow> (\<forall>c\<in>set n. c = CHR ''0'')"
proof (induction n rule: rev_induct)
  case (snoc c n)
  have "digit_val c = 0 \<longleftrightarrow> c = CHR ''0''"
    using snoc.prems digit_char_digit_val[of c] by (auto simp: digit_char_0 digit_val_def)
  then show ?case
    using snoc by (auto simp: parse_nat_snoc)
qed simp

lemma show_parse_nat:
  "list_all is_digit n \<Longrightarrow>
   show_nat (parse_nat n) = (case dropWhile (\<lambda>c. c = CHR ''0'') n of [] \<Rightarrow> ''0'' | m \<Rightarrow> m)"
proof (induction n rule: rev_induct)
  case Nil
  then show ?case
    by (subst show_nat.simps) (simp add: digit_char_0)
next
  case (snoc c n)
  have c: "is_digit c" "digit_val c < 10" "digit_char (digit_val c) = c"
    using snoc.prems by (simp_all add: digit_val_less digit_char_digit_val)
  have zeros: "dropWhile (\<lambda>c. c = CHR ''0'') n = [] \<longleftrightarrow> parse_nat n = 0"
    using snoc.prems parse_nat_eq_0[of n] by (auto simp: dropWhile_eq_Nil_conv)
  have step: "show_nat (parse_nat (n @ [c])) =
      (if parse_nat n = 0 then [c] else show_nat (parse_nat n) @ [c])"
    using c by (subst show_nat.simps) (simp add: parse_nat_snoc)
  show ?case
  proof (cases "parse_nat n = 0")
    case True
    then have "dropWhile (\<lambda>c. c = CHR ''0'') (n @ [c]) = dropWhile (\<lambda>c. c = CHR ''0'') [c]"
      using snoc.prems parse_nat_eq_0[of n] by (intro dropWhile_append2) auto
    then show ?thesis
      using True step by simp
  next
    case False
    then obtain x where "x \<in> set n" "x \<noteq> CHR ''0''"
      using snoc.prems parse_nat_eq_0[of n] by auto
    then have "dropWhile (\<lambda>c. c = CHR ''0'') (n @ [c]) = dropWhile (\<lambda>c. c = CHR ''0'') n @ [c]"
      by (intro dropWhile_append1)
    moreover obtain m ms where "dropWhile (\<lambda>c. c = CHR ''0'') n = m # ms"
      using False zeros by (cases "dropWhile (\<lambda>c. c = CHR ''0'') n") auto
    ultimately show ?thesis
      using False step snoc by simp
  qed
qed

text \<open>The conversions are inverse the other way round up to leading zeros: reading a valid
  wire string and rendering the amount again gives the string without its leading zeros, and
  the amount read is never negative.\<close>

lemma naira_string_roundtrip:
  assumes "nairaStringToKobo s = Inr k"
  shows "koboToNairaString k = canonical_naira s \<and> 0 \<le> k"
proof -
  have "isValidNairaString s"
    using assms by (auto simp: nairaStringToKobo_def split: if_splits)
  then obtain n k1 k2 where s: "s = n @ [CHR ''.'', k1, k2]" "n \<noteq> []" "list_all is_digit n"
    "is_digit k1" "is_digit k2"
    by (auto simp: isValidNairaString_iff)
  let ?d = "digit_val k1" and ?e = "digit_val k2"
  have d: "?d < 10" "?e < 10" "digit_char ?d = k1" "digit_char ?e = k2"
    using s by (simp_all add: digit_val_less digit_char_digit_val)
  have k: "k = BigInt n * 100 + int (10 * ?d + ?e)"
    using assms s d nairaStringToKobo_parts[of n k1 k2] BigInt_two_digits[of ?d ?e] by simp
  have parts: "k div 100 = BigInt n" "nat (k mod 100) = 10 * ?d + ?e" "0 \<le> k"
    using d unfolding k BigInt_def by auto
  have "takeWhile is_digit s = n" "dropWhile is_digit s = [CHR ''.'', k1, k2]"
    using s by (simp_all add: list_all_iff takeWhile_append2 dropWhile_append2)
  then show ?thesis
    using parts d show_parse_nat[OF s(3)]
    by (simp add: koboToNairaString_nonneg canonical_naira_def BigInt_def)
qed

lemma naira_string_roundtrip_witness:
  "nairaStringToKobo ''007.50'' = Inr 750 \<and> koboToNairaString 750 = canonical_naira ''007.50'' \<and> (0 :: kobo) \<le> 750"
proof -
  have h: "nairaStringToKobo ''007.50'' = Inr 750"
    by code_simp
  show ?thesis
    using h naira_string_roundtrip[OF h] by simp
qed

end
