(* ===== verification/World.thy ===== *)
theory World
  imports Fees Money
begin

text \<open>
  What the services ask of the world around them, as one record of functions: the clock, random
  ids, Nomba's answers, a queue that may refuse a job, the throttle's answer, a database that may
  fail at the write that records a confirmed transfer, and what other requests do to the tables in
  the gaps the code leaves between a read and the write that follows it. Nomba and Redis are not
  part of the repository, so every definition below takes them as a parameter.

  On top of it: the text of a UUID inside a reference, \<open>verifyAccountDetails\<close>, and
  \<open>transfer-queue.service.ts\<close>.
\<close>

text \<open>What \<open>createVirtualAccount\<close> sends, and the two fields of the answer the code reads.\<close>

record account_request =
  ar_accountRef :: string
  ar_accountName :: string
  ar_expiryDate :: string

record virtual_account =
  va_bankAccountNumber :: "string option"
  va_bankName :: "string option"

record env =
  e_now :: time
  e_uuid :: "nat \<Rightarrow> uuid"
  e_gap :: "db \<Rightarrow> db"
  e_lookupBankAccount :: "string \<Rightarrow> string \<Rightarrow> error + string"
  e_transferToBankAccount :: "transfer_params \<Rightarrow> error + transfer_status"
  e_enqueue :: "string \<Rightarrow> error option"
  e_reserve :: "string \<Rightarrow> string \<Rightarrow> error + bool"
  e_completionFault :: "error option"
  e_createVirtualAccount :: "account_request \<Rightarrow> error + virtual_account"
  e_expireVirtualAccount :: "string \<Rightarrow> error option"
  e_sendMail :: "string \<Rightarrow> error option"

definition in_gap :: "env \<Rightarrow> (db, unit) op" where
  "in_gap w = modify (e_gap w)"

section \<open>Random ids and their text\<close>

definition randomUUID :: "env \<Rightarrow> (db, uuid) op" where
  "randomUUID w =
     bnd (gets randomDraws) (\<lambda>n.
     seq (modify (\<lambda>s. s\<lparr>randomDraws := Suc n\<rparr>)) (ret (e_uuid w n)))"

definition hex_digit :: "nat \<Rightarrow> char" where
  "hex_digit d = ''0123456789abcdef'' ! d"

fun hex_digits :: "nat \<Rightarrow> int \<Rightarrow> string" where
  "hex_digits 0 n = []"
| "hex_digits (Suc k) n = hex_digits k (n div 16) @ [hex_digit (nat (n mod 16))]"

text \<open>The canonical 8-4-4-4-12 text of a UUID.\<close>

definition uuid_text :: "uuid \<Rightarrow> string" where
  "uuid_text u = (let n = int u in
     hex_digits 8 (n div 16 ^ 24) @ ''-'' @ hex_digits 4 (n div 16 ^ 20) @ ''-'' @
     hex_digits 4 (n div 16 ^ 16) @ ''-'' @ hex_digits 4 (n div 16 ^ 12) @ ''-'' @ hex_digits 12 n)"

lemma hex_digit_inj: "a < 16 \<Longrightarrow> b < 16 \<Longrightarrow> hex_digit a = hex_digit b \<Longrightarrow> a = b"
  using nth_eq_iff_index_eq[of "''0123456789abcdef''" a b] by (simp add: hex_digit_def)

lemma length_hex_digits [simp]: "length (hex_digits k n) = k"
  by (induction k arbitrary: n) auto

lemma hex_digits_eq: "hex_digits k m = hex_digits k n \<longleftrightarrow> m mod 16 ^ k = n mod 16 ^ k"
proof (induction k arbitrary: m n)
  case (Suc k)
  have split: "x mod 16 ^ Suc k = 16 * (x div 16 mod 16 ^ k) + x mod 16" for x :: int
    by (simp add: zmod_zmult2_eq)
  have digit: "hex_digit (nat (m mod 16)) = hex_digit (nat (n mod 16)) \<longleftrightarrow> m mod 16 = n mod 16"
    using hex_digit_inj[of "nat (m mod 16)" "nat (n mod 16)"] by (auto simp: nat_less_iff)
  have "hex_digits (Suc k) m = hex_digits (Suc k) n \<longleftrightarrow>
      m div 16 mod 16 ^ k = n div 16 mod 16 ^ k \<and> m mod 16 = n mod 16"
    using Suc.IH digit by simp
  also have "\<dots> \<longleftrightarrow> m mod 16 ^ Suc k = n mod 16 ^ Suc k"
  proof
    assume eq: "m mod 16 ^ Suc k = n mod 16 ^ Suc k"
    have "x div 16 mod 16 ^ k = x mod 16 ^ Suc k div 16" "x mod 16 = x mod 16 ^ Suc k mod 16" for x :: int
      unfolding split by simp_all
    then show "m div 16 mod 16 ^ k = n div 16 mod 16 ^ k \<and> m mod 16 = n mod 16"
      using eq by metis
  qed (simp only: split)
  finally show ?case .
qed simp

text \<open>Two ids with the same text are the same, as ids have 128 bits.\<close>

lemma uuid_text_inj:
  assumes "m < 2 ^ 128" and "n < 2 ^ 128" and "uuid_text m = uuid_text n"
  shows "m = n"
proof -
  have "hex_digits 8 (int m div 16 ^ 24) = hex_digits 8 (int n div 16 ^ 24)"
    "hex_digits 4 (int m div 16 ^ 20) = hex_digits 4 (int n div 16 ^ 20)"
    "hex_digits 4 (int m div 16 ^ 16) = hex_digits 4 (int n div 16 ^ 16)"
    "hex_digits 4 (int m div 16 ^ 12) = hex_digits 4 (int n div 16 ^ 12)"
    "hex_digits 12 (int m) = hex_digits 12 (int n)"
    using assms(3) by (simp_all add: uuid_text_def Let_def)
  then have eqs: "(int m div 16 ^ 24) mod 16 ^ 8 = (int n div 16 ^ 24) mod 16 ^ 8"
    "(int m div 16 ^ 20) mod 16 ^ 4 = (int n div 16 ^ 20) mod 16 ^ 4"
    "(int m div 16 ^ 16) mod 16 ^ 4 = (int n div 16 ^ 16) mod 16 ^ 4"
    "(int m div 16 ^ 12) mod 16 ^ 4 = (int n div 16 ^ 12) mod 16 ^ 4"
    "int m mod 16 ^ 12 = int n mod 16 ^ 12"
    by (simp_all only: hex_digits_eq)
  have top: "int x div 16 ^ 24 mod 16 ^ 8 = int x div 16 ^ 24" if "x < 2 ^ 128" for x
  proof -
    have "x div 16 ^ 24 < 16 ^ 8"
      by (rule less_mult_imp_div_less) (use that in simp)
    then have "int (x div 16 ^ 24) < int (16 ^ 8)" by (simp only: of_nat_less_iff)
    then have "int x div 16 ^ 24 < 16 ^ 8" by (simp add: of_nat_div)
    then show ?thesis by (intro mod_pos_pos_trivial) simp_all
  qed
  have build: "x = 16 ^ 12 * (16 ^ 4 * (16 ^ 4 * (16 ^ 4 * (x div 16 ^ 24) + x div 16 ^ 20 mod 16 ^ 4)
      + x div 16 ^ 16 mod 16 ^ 4) + x div 16 ^ 12 mod 16 ^ 4) + x mod 16 ^ 12" for x :: int
  proof -
    have step: "16 ^ 4 * (x div 16 ^ j) + x div 16 ^ k mod 16 ^ 4 = x div 16 ^ k" if "j = k + 4" for j k
    proof -
      have "(0 :: int) \<le> 16 ^ 4" by simp
      then have "x div (16 ^ k * 16 ^ 4) = x div 16 ^ k div 16 ^ 4" by (rule zdiv_zmult2_eq)
      then show ?thesis unfolding that power_add by (simp only: mult_div_mod_eq)
    qed
    have "24 = 20 + (4::nat)" "20 = 16 + (4::nat)" "16 = 12 + (4::nat)" by simp_all
    note steps = this[THEN step]
    show ?thesis unfolding steps by (rule mult_div_mod_eq[symmetric])
  qed
  have "int m div 16 ^ 24 = int n div 16 ^ 24"
    using eqs(1) unfolding top[OF assms(1)] top[OF assms(2)] .
  note parts = this eqs(2-5)
  have "int m = 16 ^ 12 * (16 ^ 4 * (16 ^ 4 * (16 ^ 4 * (int n div 16 ^ 24) + int n div 16 ^ 20 mod 16 ^ 4)
      + int n div 16 ^ 16 mod 16 ^ 4) + int n div 16 ^ 12 mod 16 ^ 4) + int n mod 16 ^ 12"
    using build[of "int m"] unfolding parts .
  also have "\<dots> = int n"
    by (rule build[symmetric])
  finally show ?thesis by simp
qed

section \<open>Account verification\<close>

text \<open>\<open>verifyAccountDetails\<close>: a Nomba error becomes a 400, anything else escapes as it is.\<close>

definition is_NombaApiError :: "error \<Rightarrow> bool" where
  "is_NombaApiError err = (case err of NombaApiError _ _ \<Rightarrow> True | _ \<Rightarrow> False)"

definition verifyAccountDetails :: "env \<Rightarrow> string \<Rightarrow> string \<Rightarrow> (db, string) op" where
  "verifyAccountDetails w accountNumber bankCode =
     catch_op (from_sum (e_lookupBankAccount w accountNumber bankCode))
       (\<lambda>err. if is_NombaApiError err then throw AccountVerificationError else throw err)"

section \<open>The transfers queue\<close>

text \<open>\<open>jobId\<close> is the job's reference: adding a job whose id the queue already has does nothing.\<close>

fun job_reference :: "DisbursementJobData \<Rightarrow> string" where
  "job_reference (job_payout j) = lj_reference j"
| "job_reference (job_pot_refund j) = lj_reference j"
| "job_reference (job_contribution_refund j) = rj_reference j"

definition add_job :: "env \<Rightarrow> DisbursementJobData \<Rightarrow> (db, unit) op" where
  "add_job w job =
     (case e_enqueue w (job_reference job) of
        Some err \<Rightarrow> throw err
      | None \<Rightarrow> modify (\<lambda>s. if job_reference job \<in> job_reference ` set (transfersQueue s) then s
                            else s\<lparr>transfersQueue := transfersQueue s @ [job]\<rparr>))"

definition enqueuePayout :: "env \<Rightarrow> ledger_job \<Rightarrow> (db, unit) op" where
  "enqueuePayout w payload = add_job w (job_payout payload)"

definition enqueuePotRefund :: "env \<Rightarrow> ledger_job \<Rightarrow> (db, unit) op" where
  "enqueuePotRefund w payload = add_job w (job_pot_refund payload)"

definition enqueueContributionRefund :: "env \<Rightarrow> contribution_refund_job \<Rightarrow> (db, unit) op" where
  "enqueueContributionRefund w payload = add_job w (job_contribution_refund payload)"

lemma add_job_distinct:
  "preserves (\<lambda>s. distinct (map job_reference (transfersQueue s))) (add_job w job)"
  unfolding add_job_def by (intro preserves_intros preserves_modify) auto

text \<open>Adding a job twice is adding it once.\<close>

lemma add_job_again:
  assumes "add_job w job s = (Inr u, s')"
  shows "add_job w job s' = (Inr u, s')"
proof (cases "e_enqueue w (job_reference job)")
  case None
  show ?thesis
  proof (cases "job_reference job \<in> job_reference ` set (transfersQueue s)")
    case True
    then show ?thesis using assms None by (simp add: add_job_def modify_def)
  next
    case False
    then have "s' = s\<lparr>transfersQueue := transfersQueue s @ [job]\<rparr>"
      using assms None by (simp add: add_job_def modify_def)
    then show ?thesis using None by (simp add: add_job_def modify_def)
  qed
next
  case (Some err)
  then show ?thesis using assms by (simp add: add_job_def)
qed

end
