(* ===== verification/Pot_Lock.thy ===== *)
theory Pot_Lock
  imports World
begin

text \<open>
  \<open>pot-authorization.ts\<close>, and the \<open>pendingOperation\<close> lock of a pot: claiming it for a number of
  transfer legs, releasing one leg, clearing it (\<open>clearPendingOperation\<close> and
  \<open>decrementPendingOperationLeg\<close> in \<open>pots.service.ts\<close>). The interface \<open>leg_lock\<close> is what the
  payout and refund code relies on: a claim on a held lock changes nothing, and a lock claimed for n
  legs is free again after exactly n releases.
\<close>

section \<open>Authorization\<close>

definition find_pot :: "uuid \<Rightarrow> db \<Rightarrow> pot option" where
  "find_pot potId s = find (\<lambda>p. pot_id p = potId) (pots s)"

definition getPotOrThrow :: "uuid \<Rightarrow> (db, pot) op" where
  "getPotOrThrow potId =
     bnd (gets (find_pot potId)) (\<lambda>row. case row of None \<Rightarrow> throw PotNotFoundError | Some p \<Rightarrow> ret p)"

definition find_member :: "uuid \<Rightarrow> uuid \<Rightarrow> db \<Rightarrow> pot_member option" where
  "find_member potId userId s = find (\<lambda>m. mb_potId m = potId \<and> mb_userId m = userId) (potMembers s)"

definition isMember :: "uuid \<Rightarrow> uuid \<Rightarrow> db \<Rightarrow> bool" where
  "isMember potId userId s \<longleftrightarrow> find_member potId userId s \<noteq> None"

definition getMemberRole :: "uuid \<Rightarrow> uuid \<Rightarrow> db \<Rightarrow> role option" where
  "getMemberRole potId userId s = map_option mb_role (find_member potId userId s)"

definition getViewablePotOrThrow :: "uuid \<Rightarrow> uuid option \<Rightarrow> (db, pot) op" where
  "getViewablePotOrThrow potId userId =
     bnd (gets (find_pot potId)) (\<lambda>row.
     case row of
       None \<Rightarrow> throw PotNotFoundError
     | Some p \<Rightarrow>
         if pot_potType p = private_pot
         then case userId of
                None \<Rightarrow> throw PotNotFoundError
              | Some u \<Rightarrow> bnd (gets (isMember potId u)) (\<lambda>member.
                  if member then ret p else throw PotNotFoundError)
         else ret p)"

definition assertIsAdmin :: "uuid \<Rightarrow> uuid option \<Rightarrow> (db, unit) op" where
  "assertIsAdmin potId userId =
     (case userId of
        None \<Rightarrow> throw (PotError ''Authentication required'' 401)
      | Some u \<Rightarrow> bnd (gets (getMemberRole potId u)) (\<lambda>role.
          require (role = Some role_admin) (PotError ''Only a pot admin can perform this action'' 403)))"

definition assertMembershipIsOpen :: "pot \<Rightarrow> (db, unit) op" where
  "assertMembershipIsOpen p =
     require (pot_status p = draft) (PotError ''Pot membership is locked once the pot goes live'' 409)"

definition countAdmins :: "uuid \<Rightarrow> db \<Rightarrow> nat" where
  "countAdmins potId s = length (filter (\<lambda>m. mb_potId m = potId \<and> mb_role m = role_admin) (potMembers s))"

lemma getPotOrThrow_run:
  "getPotOrThrow potId s = (case find_pot potId s of None \<Rightarrow> (Inl PotNotFoundError, s) | Some p \<Rightarrow> (Inr p, s))"
  by (simp add: getPotOrThrow_def throw_def ret_def split: option.split)

lemma assertIsAdmin_Inr: "assertIsAdmin potId u s = (Inr x, t) \<longleftrightarrow>
   t = s \<and> (\<exists>v. u = Some v \<and> getMemberRole potId v s = Some role_admin)"
  by (cases u) (auto simp: assertIsAdmin_def)

lemma preserves_reads [preserves_intros]:
  "preserves I (getPotOrThrow potId)" "preserves I (getViewablePotOrThrow potId u)"
  "preserves I (assertIsAdmin potId u)" "preserves I (assertMembershipIsOpen p)"
  unfolding getPotOrThrow_def getViewablePotOrThrow_def assertIsAdmin_def assertMembershipIsOpen_def
  by (intro preserves_intros)+

section \<open>The lock\<close>

definition claim_lock :: "pending_operation \<Rightarrow> int \<Rightarrow> pot \<Rightarrow> pot" where
  "claim_lock operation legs p = p\<lparr>pot_pendingOperation := Some operation, pot_pendingOperationLegCount := Some legs\<rparr>"

definition clear_lock :: "pot \<Rightarrow> pot" where
  "clear_lock p = p\<lparr>pot_pendingOperation := None, pot_pendingOperationTransactionId := None,
     pot_pendingOperationLegCount := None\<rparr>"

text \<open>\<open>GREATEST(leg_count - 1, 0)\<close>: Postgres skips a null argument, so a null count becomes 0.\<close>

definition dec_lock :: "pot \<Rightarrow> pot" where
  "dec_lock p = p\<lparr>pot_pendingOperationLegCount :=
     Some (case pot_pendingOperationLegCount p of None \<Rightarrow> 0 | Some n \<Rightarrow> max (n - 1) 0)\<rparr>"

text \<open>\<open>update pots set ... where id = potId and pending_operation is null returning id\<close>: whether a row came back.\<close>

definition claimPendingOperation :: "uuid \<Rightarrow> pending_operation \<Rightarrow> int \<Rightarrow> (db, bool) op" where
  "claimPendingOperation potId operation legs s =
     (let free = (\<lambda>p. pot_id p = potId \<and> pot_pendingOperation p = None)
      in (Inr (list_ex free (pots s)), s\<lparr>pots := update_where free (claim_lock operation legs) (pots s)\<rparr>))"

definition clearPendingOperation :: "uuid \<Rightarrow> (db, unit) op" where
  "clearPendingOperation potId =
     modify (\<lambda>s. s\<lparr>pots := update_where (\<lambda>p. pot_id p = potId) clear_lock (pots s)\<rparr>)"

definition decrementPendingOperationLeg :: "uuid \<Rightarrow> (db, unit) op" where
  "decrementPendingOperationLeg potId =
     seq (modify (\<lambda>s. s\<lparr>pots := update_where (\<lambda>p. pot_id p = potId) dec_lock (pots s)\<rparr>))
     (bnd (gets (find_pot potId)) (\<lambda>updated.
      when_op (case updated of None \<Rightarrow> False | Some p \<Rightarrow> pot_pendingOperationLegCount p = Some 0)
        (clearPendingOperation potId)))"

interpretation claim_lock: keyed_update pot_id "claim_lock operation legs" for operation legs
  by unfold_locales (simp add: claim_lock_def)

interpretation clear_lock: keyed_update pot_id clear_lock
  by unfold_locales (simp add: clear_lock_def)

interpretation dec_lock: keyed_update pot_id dec_lock
  by unfold_locales (simp add: dec_lock_def)

definition wf_pots :: "db \<Rightarrow> bool" where
  "wf_pots s \<longleftrightarrow> distinct (map pot_id (pots s))"

lemma find_pot_clear:
  "find_pot q (s\<lparr>pots := update_where (\<lambda>p. pot_id p = potId) clear_lock (pots s)\<rparr>) =
   (if q = potId then map_option clear_lock (find_pot potId s) else find_pot q s)"
  by (simp add: find_pot_def clear_lock.find_if)

lemma find_pot_dec:
  "find_pot q (s\<lparr>pots := update_where (\<lambda>p. pot_id p = potId) dec_lock (pots s)\<rparr>) =
   (if q = potId then map_option dec_lock (find_pot potId s) else find_pot q s)"
  by (simp add: find_pot_def dec_lock.find_if)

lemma find_claim:
  "distinct (map pot_id ps) \<Longrightarrow>
   find (\<lambda>p. pot_id p = q) (update_where (\<lambda>p. pot_id p = potId \<and> pot_pendingOperation p = None) (claim_lock operation legs) ps) =
   map_option (\<lambda>p. if q = potId \<and> pot_pendingOperation p = None then claim_lock operation legs p else p)
     (find (\<lambda>p. pot_id p = q) ps)"
  by (induction ps) (auto simp: claim_lock_def)

lemma claim_run:
  assumes "wf_pots s" and "find_pot potId s = Some p"
  shows "claimPendingOperation potId operation legs s =
    (if pot_pendingOperation p = None
     then (Inr True, s\<lparr>pots := update_where (\<lambda>p. pot_id p = potId) (claim_lock operation legs) (pots s)\<rparr>)
     else (Inr False, s))"
proof -
  let ?free = "\<lambda>p. pot_id p = potId \<and> pot_pendingOperation p = None"
  have p: "p \<in> set (pots s)" "pot_id p = potId"
    using find_SomeD[OF assms(2)[unfolded find_pot_def]] by auto
  have only: "r = p" if "r \<in> set (pots s)" "pot_id r = potId" for r
    using assms(1) p that unfolding wf_pots_def by (metis distinct_map inj_onD)
  show ?thesis
  proof (cases "pot_pendingOperation p = None")
    case True
    then have "update_where ?free (claim_lock operation legs) (pots s) =
        update_where (\<lambda>p. pot_id p = potId) (claim_lock operation legs) (pots s)"
      unfolding update_where_def using only by (intro map_cong) auto
    moreover have "list_ex ?free (pots s)"
      using p True by (auto simp: list_ex_iff)
    ultimately show ?thesis using True by (simp add: claimPendingOperation_def)
  next
    case False
    then have "\<not> list_ex ?free (pots s)" "update_where ?free (claim_lock operation legs) (pots s) = pots s"
      using only by (auto simp: list_ex_iff intro: update_where_none)
    then show ?thesis using False by (simp add: claimPendingOperation_def Let_def)
  qed
qed

lemma decrement_run:
  "decrementPendingOperationLeg potId s =
   (let s1 = s\<lparr>pots := update_where (\<lambda>p. pot_id p = potId) dec_lock (pots s)\<rparr> in
    case find_pot potId s1 of
      Some p \<Rightarrow> if pot_pendingOperationLegCount p = Some 0 then clearPendingOperation potId s1 else (Inr (), s1)
    | None \<Rightarrow> (Inr (), s1))"
  by (simp add: decrementPendingOperationLeg_def when_op_def Let_def ret_def split: option.split)

subsection \<open>The interface of the lock\<close>

locale leg_lock =
  fixes ok :: "'s \<Rightarrow> bool" and held :: "'s \<Rightarrow> nat"
    and claim :: "nat \<Rightarrow> 's \<Rightarrow> bool \<times> 's" and release :: "'s \<Rightarrow> 's"
  assumes ok_claim: "ok s \<Longrightarrow> ok (snd (claim n s))"
    and ok_release: "ok s \<Longrightarrow> ok (release s)"
    and claim_free: "ok s \<Longrightarrow> held s = 0 \<Longrightarrow> 0 < n \<Longrightarrow> fst (claim n s) \<and> held (snd (claim n s)) = n"
    and claim_busy: "ok s \<Longrightarrow> 0 < held s \<Longrightarrow> claim n s = (False, s)"
    and release_one: "ok s \<Longrightarrow> 0 < held s \<Longrightarrow> held (release s) = held s - 1"
begin

lemma ok_releases: "ok s \<Longrightarrow> ok ((release ^^ k) s)"
  by (induction k) (auto simp: ok_release)

lemma held_releases: "ok s \<Longrightarrow> k \<le> held s \<Longrightarrow> held ((release ^^ k) s) = held s - k"
  by (induction k) (auto simp: ok_releases release_one)

lemma held_after_claim:
  "ok s \<Longrightarrow> held s = 0 \<Longrightarrow> 0 < n \<Longrightarrow> k \<le> n \<Longrightarrow> held ((release ^^ k) (snd (claim n s))) = n - k"
  using claim_free[of s n] by (simp add: held_releases ok_claim)

lemma claim_waits:
  assumes "ok s" and "held s = 0" and "k < n"
  shows "claim m ((release ^^ k) (snd (claim n s))) = (False, (release ^^ k) (snd (claim n s)))"
  using assms held_after_claim[of s n k] by (intro claim_busy ok_releases ok_claim) auto

lemma free_after_all:
  "ok s \<Longrightarrow> held s = 0 \<Longrightarrow> 0 < n \<Longrightarrow> 0 < m \<Longrightarrow> fst (claim m ((release ^^ n) (snd (claim n s))))"
  using held_after_claim[of s n n] claim_free[of "(release ^^ n) (snd (claim n s))" m]
  by (simp add: ok_releases ok_claim)

end

text \<open>How many legs hold a pot's lock; the lock is taken exactly when \<open>pendingOperation\<close> is set.\<close>

definition legs_held :: "uuid \<Rightarrow> db \<Rightarrow> nat" where
  "legs_held potId s =
     (case find_pot potId s of
        None \<Rightarrow> 0
      | Some p \<Rightarrow> if pot_pendingOperation p = None then 0
                  else case pot_pendingOperationLegCount p of None \<Rightarrow> 1 | Some n \<Rightarrow> max 1 (nat n))"

definition pot_ok :: "uuid \<Rightarrow> db \<Rightarrow> bool" where
  "pot_ok potId s \<longleftrightarrow> wf_pots s \<and> find_pot potId s \<noteq> None"

definition run_claim :: "uuid \<Rightarrow> pending_operation \<Rightarrow> nat \<Rightarrow> db \<Rightarrow> bool \<times> db" where
  "run_claim potId operation n s = (case claimPendingOperation potId operation (int n) s of (r, t) \<Rightarrow> (r = Inr True, t))"

definition run_decrement :: "uuid \<Rightarrow> db \<Rightarrow> db" where
  "run_decrement potId s = snd (decrementPendingOperationLeg potId s)"

lemma wf_pots_update:
  "(\<And>p. pot_id (f p) = pot_id p) \<Longrightarrow> wf_pots (s\<lparr>pots := update_where P f (pots s)\<rparr>) = wf_pots s"
  by (simp add: wf_pots_def map_update_where)

lemma wf_pots_lock [simp]:
  "wf_pots (s\<lparr>pots := update_where P clear_lock (pots s)\<rparr>) = wf_pots s"
  "wf_pots (s\<lparr>pots := update_where P dec_lock (pots s)\<rparr>) = wf_pots s"
  "wf_pots (s\<lparr>pots := update_where P (claim_lock o' n) (pots s)\<rparr>) = wf_pots s"
  by (rule wf_pots_update, simp add: clear_lock_def dec_lock_def claim_lock_def)+

lemma run_decrement_eq:
  assumes "find_pot potId s = Some p"
  shows "run_decrement potId s =
    (if pot_pendingOperationLegCount (dec_lock p) = Some 0
     then s\<lparr>pots := update_where (\<lambda>p. pot_id p = potId) (clear_lock \<circ> dec_lock) (pots s)\<rparr>
     else s\<lparr>pots := update_where (\<lambda>p. pot_id p = potId) dec_lock (pots s)\<rparr>)"
proof -
  have "update_where (\<lambda>p. pot_id p = potId) clear_lock (update_where (\<lambda>p. pot_id p = potId) dec_lock ps) =
      update_where (\<lambda>p. pot_id p = potId) (clear_lock \<circ> dec_lock) ps" for ps
    by (simp add: update_where_def dec_lock_def)
  moreover have "find_pot potId (s\<lparr>pots := update_where (\<lambda>p. pot_id p = potId) dec_lock (pots s)\<rparr>) = Some (dec_lock p)"
    by (simp add: find_pot_dec assms)
  ultimately show ?thesis
    by (simp add: run_decrement_def decrement_run Let_def clearPendingOperation_def modify_def)
qed

interpretation clear_dec: keyed_update pot_id "clear_lock \<circ> dec_lock"
  by unfold_locales (simp add: clear_lock_def dec_lock_def)

lemma find_pot_run_decrement:
  assumes "find_pot potId s = Some p"
  shows "find_pot potId (run_decrement potId s) =
    Some (if pot_pendingOperationLegCount (dec_lock p) = Some 0 then clear_lock (dec_lock p) else dec_lock p)"
  using assms by (simp add: run_decrement_eq[OF assms]) (simp add: find_pot_def clear_dec.find_if dec_lock.find_if)

lemma run_claim_eq:
  assumes "wf_pots s" and "find_pot potId s = Some p"
  shows "run_claim potId operation n s =
    (if pot_pendingOperation p = None
     then (True, s\<lparr>pots := update_where (\<lambda>p. pot_id p = potId) (claim_lock operation (int n)) (pots s)\<rparr>)
     else (False, s))"
  by (simp add: run_claim_def claim_run[OF assms])

lemma find_pot_claimed:
  "find_pot potId (s\<lparr>pots := update_where (\<lambda>p. pot_id p = potId) (claim_lock operation n) (pots s)\<rparr>) =
   map_option (claim_lock operation n) (find_pot potId s)"
  by (simp add: find_pot_def claim_lock.find_if)

lemma legs_held_0: "find_pot potId s = Some p \<Longrightarrow> legs_held potId s = 0 \<longleftrightarrow> pot_pendingOperation p = None"
  by (cases "pot_pendingOperation p"; cases "pot_pendingOperationLegCount p") (auto simp: legs_held_def max_def)

lemma wf_run_decrement: "find_pot potId s = Some p \<Longrightarrow> wf_pots (run_decrement potId s) = wf_pots s"
  by (simp add: run_decrement_eq wf_pots_update clear_lock_def dec_lock_def)

lemma legs_held_decrement:
  assumes "find_pot potId s = Some p" and "0 < legs_held potId s"
  shows "legs_held potId (run_decrement potId s) = legs_held potId s - 1"
proof (cases "pot_pendingOperationLegCount p")
  case None
  then show ?thesis
    using assms by (simp add: legs_held_def find_pot_run_decrement dec_lock_def clear_lock_def)
next
  case (Some n)
  show ?thesis
  proof (cases "n \<le> 1")
    case True
    then have "nat n \<le> 1" by simp
    then have "max 1 (nat n) = 1" by simp
    then show ?thesis
      using assms Some True by (simp add: legs_held_def find_pot_run_decrement dec_lock_def clear_lock_def)
  next
    case False
    then have "max 1 (nat n) = nat n" "max 1 (nat (n - 1)) = nat n - 1" "max (n - 1) 0 = n - 1"
      by (simp_all add: nat_diff_distrib)
    then show ?thesis
      using assms Some False by (simp add: legs_held_def find_pot_run_decrement dec_lock_def clear_lock_def)
  qed
qed

interpretation pot_lock: leg_lock "pot_ok potId" "legs_held potId" "run_claim potId operation" "run_decrement potId"
  for potId operation
proof
  fix s n
  assume "pot_ok potId s"
  then obtain p where wf: "wf_pots s" and p: "find_pot potId s = Some p"
    by (auto simp: pot_ok_def)
  note claim = run_claim_eq[OF wf p, of operation n] and found = legs_held_0[OF p]
  show "pot_ok potId (snd (run_claim potId operation n s))"
    using wf p by (simp add: claim pot_ok_def find_pot_claimed)
  show "pot_ok potId (run_decrement potId s)"
    using wf p by (simp add: pot_ok_def wf_run_decrement find_pot_run_decrement)
  show "fst (run_claim potId operation n s) \<and> legs_held potId (snd (run_claim potId operation n s)) = n"
    if "legs_held potId s = 0" "0 < n"
    using that found p by (simp add: claim legs_held_def[of potId "s\<lparr>pots := update_where (\<lambda>p. pot_id p = potId) (claim_lock operation (int n)) (pots s)\<rparr>"]
        find_pot_claimed) (simp add: claim_lock_def)
  show "run_claim potId operation n s = (False, s)" if "0 < legs_held potId s"
    using that found by (simp add: claim)
  show "legs_held potId (run_decrement potId s) = legs_held potId s - 1" if "0 < legs_held potId s"
    by (rule legs_held_decrement[OF p that])
qed

text \<open>A pot's lock is held until its last leg resolves. Claimed for n transfer legs on a free lock,
  it turns away every other payout or refund while fewer than n legs have been released, and is
  free again once the n-th is: no second operation touches the pot's money while one is in flight.\<close>

lemma lock_counts_legs:
  assumes "wf_pots s" and "find_pot potId s = Some p" and "pot_pendingOperation p = None" and "0 < n"
  shows "(\<forall>k<n. run_claim potId other m ((run_decrement potId ^^ k) (snd (run_claim potId operation n s))) =
       (False, (run_decrement potId ^^ k) (snd (run_claim potId operation n s)))) \<and>
    legs_held potId ((run_decrement potId ^^ n) (snd (run_claim potId operation n s))) = 0"
proof -
  have ok: "pot_ok potId s" "legs_held potId s = 0"
    using assms by (auto simp: pot_ok_def legs_held_def)
  have "legs_held potId ((run_decrement potId ^^ n) (snd (run_claim potId operation n s))) = 0"
    using pot_lock.held_after_claim[OF ok assms(4), of n operation] by simp
  moreover have "run_claim potId other m ((run_decrement potId ^^ k) (snd (run_claim potId operation n s))) =
       (False, (run_decrement potId ^^ k) (snd (run_claim potId operation n s)))" if "k < n" for k
  proof (rule pot_lock.claim_busy)
    show "pot_ok potId ((run_decrement potId ^^ k) (snd (run_claim potId operation n s)))"
      by (intro pot_lock.ok_releases pot_lock.ok_claim ok)
    show "0 < legs_held potId ((run_decrement potId ^^ k) (snd (run_claim potId operation n s)))"
      using pot_lock.held_after_claim[OF ok assms(4), of k operation] that by simp
  qed
  ultimately show ?thesis by blast
qed

definition example_pot :: pot where
  "example_pot = \<lparr>pot_id = 7, pot_creatorId = 1, pot_title = ''Trip'', pot_description = None,
     pot_potType = private_pot, pot_status = pot_open, pot_payoutMode = manual, pot_refundType = refund_contributors,
     pot_shareSlug = ''x'', pot_minContribution = 10000, pot_maxContribution = None, pot_goalAmount = None,
     pot_pendingOperation = None, pot_pendingOperationTransactionId = None, pot_pendingOperationLegCount = None,
     pot_activatedAt = None, pot_closedAt = None, pot_createdAt = 0, pot_updatedAt = 0\<rparr>"

lemma lock_counts_legs_witness:
  "fst (run_claim 7 op_payout 1 ((run_decrement 7 ^^ 2) (snd (run_claim 7 op_refund 3 (empty_db\<lparr>pots := [example_pot]\<rparr>))))) = False \<and>
   legs_held 7 ((run_decrement 7 ^^ 3) (snd (run_claim 7 op_refund 3 (empty_db\<lparr>pots := [example_pot]\<rparr>)))) = 0"
  using lock_counts_legs[of "empty_db\<lparr>pots := [example_pot]\<rparr>" 7 example_pot 3 op_payout 1 op_refund]
  by (simp add: wf_pots_def find_pot_def example_pot_def empty_db_def)

end
