(* ===== verification/Split.thy ===== *)
theory Split
  imports Fees
begin

text \<open>
  The pro-rata split of a contributors refund (\<open>distributeExactly\<close>, \<open>narrowToFeeCoveredLegs\<close>
  in \<open>modules/pots/pots.service.ts\<close>). The code mutates the \<open>amount\<close> of shared leg objects; the
  model returns the updated list. Proved here: the loop ends, the legs that fire pay out the balance to
  the kobo once each one's fee is counted, and a leg that does not fire is at exactly zero.
\<close>

section \<open>Legs\<close>

text \<open>\<open>groupKey\<close> is a user id, or \<open>anon:<contributionId>\<close> for an anonymous contribution.\<close>

datatype group_key = user_key uuid | anon_key uuid

record refund_leg =
  rl_groupKey :: group_key
  rl_numerator :: int
  rl_denominator :: int
  rl_amount :: kobo
  rl_destinationAccount :: string
  rl_destinationBank :: string

section \<open>The exact distribution\<close>

definition share_of :: "kobo \<Rightarrow> refund_leg \<Rightarrow> kobo" where
  "share_of pool leg =
     (if 0 < rl_denominator leg then (rl_numerator leg * pool) sdiv rl_denominator leg else 0)"

definition set_amount :: "kobo \<Rightarrow> refund_leg \<Rightarrow> refund_leg" where
  "set_amount v leg = leg\<lparr>rl_amount := v\<rparr>"

text \<open>The index the loop leaves in \<open>largestIndex\<close>.\<close>

definition largest_index :: "kobo list \<Rightarrow> nat" where
  "largest_index amounts =
     fold (\<lambda>i largest. if amounts ! largest < amounts ! i then i else largest) [0..<length amounts] 0"

definition distributeExactly :: "refund_leg list \<Rightarrow> kobo \<Rightarrow> refund_leg list" where
  "distributeExactly legs pool =
     (let shares = map (share_of pool) legs;
          largestIndex = largest_index shares;
          remainder = pool - sum_list shares
      in map2 set_amount (shares[largestIndex := shares ! largestIndex + remainder]) legs)"

lemma set_amount_simps [simp]:
  "rl_amount (set_amount v leg) = v"
  "rl_numerator (set_amount v leg) = rl_numerator leg"
  "rl_denominator (set_amount v leg) = rl_denominator leg"
  "rl_groupKey (set_amount v leg) = rl_groupKey leg"
  "set_amount w (set_amount v leg) = set_amount w leg"
  "share_of pool (set_amount v leg) = share_of pool leg"
  by (simp_all add: set_amount_def share_of_def)

lemma set_amount_self: "set_amount (rl_amount leg) leg = leg"
  by (simp add: set_amount_def)

lemma largest_index_less: "amounts \<noteq> [] \<Longrightarrow> largest_index amounts < length amounts"
proof -
  have "fold (\<lambda>i largest. if amounts ! largest < amounts ! i then i else largest) js k < length amounts"
    if "k < length amounts" "\<forall>i\<in>set js. i < length amounts" for js k
    using that by (induction js arbitrary: k) auto
  then show "amounts \<noteq> [] \<Longrightarrow> largest_index amounts < length amounts"
    by (simp add: largest_index_def)
qed

lemma largest_index_max: "i < length amounts \<Longrightarrow> amounts ! i \<le> amounts ! largest_index amounts"
proof -
  let ?step = "\<lambda>i largest. if amounts ! largest < amounts ! i then i else largest"
  have "amounts ! k \<le> amounts ! fold ?step js k \<and> (\<forall>i\<in>set js. amounts ! i \<le> amounts ! fold ?step js k)" for js k
  proof (induction js arbitrary: k)
    case (Cons j js)
    show ?case using Cons[of "?step j k"] by (auto split: if_splits)
  qed simp
  from this[where k = 0 and js = "[0..<length amounts]"]
  show "i < length amounts \<Longrightarrow> amounts ! i \<le> amounts ! largest_index amounts"
    unfolding largest_index_def by simp
qed

lemma length_distributeExactly [simp]: "length (distributeExactly legs pool) = length legs"
  by (simp add: distributeExactly_def Let_def)

lemma amounts_distributeExactly:
  "map rl_amount (distributeExactly legs pool) =
   (let shares = map (share_of pool) legs in
    shares[largest_index shares := shares ! largest_index shares + (pool - sum_list shares)])"
  by (rule nth_equalityI) (simp_all add: distributeExactly_def Let_def)

lemma legs_distributeExactly:
  "map (set_amount 0) (distributeExactly legs pool) = map (set_amount 0) legs"
  by (rule nth_equalityI) (simp_all add: distributeExactly_def Let_def)

lemma sum_list_update: "i < length xs \<Longrightarrow> sum_list (xs[i := v]) = sum_list xs - xs ! i + (v :: int)"
  by (induction xs arbitrary: i) (auto split: nat.split)

lemma distributeExactly_sum:
  "legs \<noteq> [] \<Longrightarrow> (\<Sum>leg\<leftarrow>distributeExactly legs pool. rl_amount leg) = pool"
  using largest_index_less[of "map (share_of pool) legs"]
  by (simp add: amounts_distributeExactly Let_def sum_list_update)

section \<open>Narrowing to the legs that cover their fee\<close>

text \<open>
  A leg with the mark whether it is still in \<open>firing\<close>. \<open>put_back\<close> writes the updated firing
  legs to their places among all legs.
\<close>

definition firing :: "(refund_leg \<times> bool) list \<Rightarrow> refund_leg list" where
  "firing marked = map fst (filter snd marked)"

fun put_back :: "(refund_leg \<times> bool) list \<Rightarrow> (refund_leg \<times> bool) list \<Rightarrow> (refund_leg \<times> bool) list" where
  "put_back [] fs = []"
| "put_back (l # ls) [] = l # ls"
| "put_back (l # ls) (f # fs) = (if snd l then f # put_back ls fs else l # put_back ls (f # fs))"

definition take_fee :: "refund_leg \<Rightarrow> refund_leg" where
  "take_fee leg = set_amount (rl_amount leg - OUTBOUND_FEE) leg"

definition after_fee :: "refund_leg list \<Rightarrow> kobo \<Rightarrow> refund_leg list" where
  "after_fee legs balance = map take_fee (distributeExactly legs balance)"

definition drop_leg :: "refund_leg \<Rightarrow> refund_leg \<times> bool" where
  "drop_leg leg = (if rl_amount leg \<le> 0 then (set_amount 0 leg, False) else (leg, True))"

lemma firing_put_back:
  "length fs = length (firing marked) \<Longrightarrow> firing (put_back marked fs) = firing fs"
  by (induction marked fs rule: put_back.induct) (auto simp: firing_def)

lemma firing_drop: "firing (map drop_leg legs) = filter (\<lambda>leg. 0 < rl_amount leg) legs"
  by (induction legs) (auto simp: firing_def drop_leg_def)

lemma firing_keep: "firing (map (\<lambda>leg. (leg, True)) legs) = legs"
  by (induction legs) (auto simp: firing_def)

function narrow_loop :: "(refund_leg \<times> bool) list \<Rightarrow> kobo \<Rightarrow> (refund_leg \<times> bool) list" where
  "narrow_loop marked balance =
     (if firing marked = [] then marked
      else let fs = after_fee (firing marked) balance in
        if length (filter (\<lambda>leg. 0 < rl_amount leg) fs) = length fs
        then put_back marked (map (\<lambda>leg. (leg, True)) fs)
        else narrow_loop (put_back marked (map drop_leg fs)) balance)"
  by pat_completeness auto

termination
proof (relation "measure (\<lambda>(marked, _). length (firing marked))")
  fix marked :: "(refund_leg \<times> bool) list" and balance :: kobo and fs
  assume fs: "fs = after_fee (firing marked) balance"
    and fewer: "length (filter (\<lambda>leg. 0 < rl_amount leg) fs) \<noteq> length fs"
  have "length fs = length (firing marked)"
    by (simp add: fs after_fee_def)
  then show "((put_back marked (map drop_leg fs), balance), (marked, balance)) \<in>
      measure (\<lambda>(marked, _). length (firing marked))"
    using fewer length_filter_le[of "\<lambda>leg. 0 < rl_amount leg" fs]
    by (simp add: firing_put_back firing_drop)
qed simp

declare narrow_loop.simps [simp del]

text \<open>The legs with their new amounts, and the ones returned as firing.\<close>

definition narrowToFeeCoveredLegs :: "refund_leg list \<Rightarrow> kobo \<Rightarrow> refund_leg list \<times> refund_leg list" where
  "narrowToFeeCoveredLegs legs balance =
     (let marked = narrow_loop (map (\<lambda>leg. (leg, True)) legs) balance in (map fst marked, firing marked))"

subsection \<open>What the loop keeps\<close>

definition zeroed :: "(refund_leg \<times> bool) list \<Rightarrow> bool" where
  "zeroed marked \<longleftrightarrow> (\<forall>(leg, fires)\<in>set marked. \<not> fires \<longrightarrow> rl_amount leg = 0)"

lemma zeroed_put_back: "zeroed marked \<Longrightarrow> zeroed fs \<Longrightarrow> zeroed (put_back marked fs)"
  by (induction marked fs rule: put_back.induct) (auto simp: zeroed_def)

lemma zeroed_simps [simp]: "zeroed (map drop_leg legs)" "zeroed (map (\<lambda>leg. (leg, True)) legs)"
  by (auto simp: zeroed_def drop_leg_def)

lemma put_back_legs:
  "map (set_amount 0 \<circ> fst) fs = map (set_amount 0) (firing marked) \<Longrightarrow>
   map (set_amount 0 \<circ> fst) (put_back marked fs) = map (set_amount 0 \<circ> fst) marked"
  by (induction marked fs rule: put_back.induct) (auto simp: firing_def)

lemma put_back_length [simp]: "length (put_back marked fs) = length marked"
  by (induction marked fs rule: put_back.induct) auto

lemma round_legs:
  "map (set_amount 0 \<circ> fst) (map drop_leg (after_fee legs balance)) = map (set_amount 0) legs"
  "map (set_amount 0 \<circ> fst) (map (\<lambda>leg. (leg, True)) (after_fee legs balance)) = map (set_amount 0) legs"
proof -
  have "(set_amount 0 \<circ> fst) (drop_leg (take_fee leg)) = set_amount 0 leg" for leg
    by (simp add: drop_leg_def take_fee_def)
  then show "map (set_amount 0 \<circ> fst) (map drop_leg (after_fee legs balance)) = map (set_amount 0) legs"
    unfolding after_fee_def list.map_comp legs_distributeExactly[symmetric, of legs balance] by (intro map_cong) simp_all
  show "map (set_amount 0 \<circ> fst) (map (\<lambda>leg. (leg, True)) (after_fee legs balance)) = map (set_amount 0) legs"
    unfolding after_fee_def list.map_comp legs_distributeExactly[symmetric, of legs balance]
    by (intro map_cong) (simp_all add: take_fee_def)
qed

lemma length_after_fee [simp]: "length (after_fee legs balance) = length legs"
  by (simp add: after_fee_def)

lemma length_filter_all: "length (filter P xs) = length xs \<longleftrightarrow> (\<forall>x\<in>set xs. P x)"
  using sum_length_filter_compl[of P xs] by (auto simp: filter_empty_conv)

text \<open>The three ways an iteration ends.\<close>

lemma narrow_loop_cases:
  obtains (nobody) "firing marked = []" "narrow_loop marked balance = marked"
  | (all_fire) "firing marked \<noteq> []" "\<forall>leg\<in>set (after_fee (firing marked) balance). 0 < rl_amount leg"
      "narrow_loop marked balance = put_back marked (map (\<lambda>leg. (leg, True)) (after_fee (firing marked) balance))"
  | (drops) "firing marked \<noteq> []"
      "length (filter (\<lambda>leg. 0 < rl_amount leg) (after_fee (firing marked) balance)) \<noteq> length (after_fee (firing marked) balance)"
      "narrow_loop marked balance = narrow_loop (put_back marked (map drop_leg (after_fee (firing marked) balance))) balance"
proof (cases "firing marked = []")
  case True
  then show ?thesis using nobody by (simp add: narrow_loop.simps)
next
  case False
  show ?thesis
  proof (cases "length (filter (\<lambda>leg. 0 < rl_amount leg) (after_fee (firing marked) balance)) =
      length (after_fee (firing marked) balance)")
    case True
    then have "narrow_loop marked balance = put_back marked (map (\<lambda>leg. (leg, True)) (after_fee (firing marked) balance))"
      using False by (subst narrow_loop.simps) simp
    then show ?thesis using all_fire False True[unfolded length_filter_all] by blast
  next
    case no: False
    then have "narrow_loop marked balance = narrow_loop (put_back marked (map drop_leg (after_fee (firing marked) balance))) balance"
      using False by (subst narrow_loop.simps) simp
    then show ?thesis using drops False no by blast
  qed
qed

lemma narrow_loop_legs:
  "map (set_amount 0 \<circ> fst) (narrow_loop marked balance) = map (set_amount 0 \<circ> fst) marked"
proof (induction marked balance rule: narrow_loop.induct)
  case (1 marked balance)
  show ?case
  proof (cases rule: narrow_loop_cases[of marked balance])
    case drops
    then show ?thesis
      using "1.IH"[OF drops(1) refl drops(2)] put_back_legs[OF round_legs(1)] by (simp only:)
  qed (simp_all only: put_back_legs[OF round_legs(2)])
qed

lemma narrow_loop_zeroed: "zeroed marked \<Longrightarrow> zeroed (narrow_loop marked balance)"
proof (induction marked balance rule: narrow_loop.induct)
  case (1 marked balance)
  show ?case
  proof (cases rule: narrow_loop_cases[of marked balance])
    case drops
    then show ?thesis
      using "1.IH"[OF drops(1) refl drops(2)] zeroed_put_back[OF "1.prems"] by simp
  qed (use "1.prems" zeroed_put_back in simp_all)
qed

definition paid_out :: "refund_leg list \<Rightarrow> kobo" where
  "paid_out legs = (\<Sum>leg\<leftarrow>legs. rl_amount leg + OUTBOUND_FEE)"

lemma paid_out_after_fee: "legs \<noteq> [] \<Longrightarrow> paid_out (after_fee legs balance) = balance"
  using distributeExactly_sum[of legs balance] by (simp add: paid_out_def after_fee_def take_fee_def o_def)

lemma narrow_loop_exact:
  "firing (narrow_loop marked balance) \<noteq> [] \<Longrightarrow>
   paid_out (firing (narrow_loop marked balance)) = balance \<and>
   (\<forall>leg\<in>set (firing (narrow_loop marked balance)). 0 < rl_amount leg)"
proof (induction marked balance rule: narrow_loop.induct)
  case (1 marked balance)
  show ?case
  proof (cases rule: narrow_loop_cases[of marked balance])
    case nobody
    then show ?thesis using "1.prems" by simp
  next
    case all_fire
    have "firing (narrow_loop marked balance) = after_fee (firing marked) balance"
      unfolding all_fire(3) by (subst firing_put_back) (simp_all add: firing_keep)
    then show ?thesis using all_fire paid_out_after_fee by simp
  next
    case drops
    then show ?thesis
      using "1.IH"[OF drops(1) refl drops(2)] "1.prems" unfolding drops(3) by blast
  qed
qed


section \<open>What a contributors refund pays out\<close>

lemma filter_positive_marked:
  "zeroed marked \<Longrightarrow> \<forall>leg\<in>set (firing marked). 0 < rl_amount leg \<Longrightarrow>
   filter (\<lambda>leg. 0 < rl_amount leg) (map fst marked) = firing marked"
  by (induction marked) (auto simp: zeroed_def firing_def)

text \<open>The refund legs that fire pay out the balance to the kobo. Whatever the shares, once the
  narrowing loop is done either no leg fires and every amount is zero, or the amounts of the legs
  that fire plus one outbound fee each add up to exactly the balance; every leg that fires gets at
  least one kobo, every other leg is at exactly zero, and the loop changes nothing of a leg but its
  amount.\<close>

lemma narrowToFeeCoveredLegs_exact:
  "let updated = fst (narrowToFeeCoveredLegs legs balance);
       fires = snd (narrowToFeeCoveredLegs legs balance) in
    filter (\<lambda>leg. 0 < rl_amount leg) updated = fires \<and>
    (\<Sum>leg\<leftarrow>fires. rl_amount leg + OUTBOUND_FEE) = (if fires = [] then 0 else balance) \<and>
    list_all (\<lambda>leg. 0 < rl_amount leg \<or> rl_amount leg = 0) updated \<and>
    map (set_amount 0) updated = map (set_amount 0) legs"
proof -
  define marked where "marked = narrow_loop (map (\<lambda>leg. (leg, True)) legs) balance"
  define updated where "updated = fst (narrowToFeeCoveredLegs legs balance)"
  define fires where "fires = snd (narrowToFeeCoveredLegs legs balance)"
  have up: "updated = map fst marked" and fi: "fires = firing marked"
    by (simp_all add: updated_def fires_def narrowToFeeCoveredLegs_def Let_def marked_def)
  have z: "zeroed marked"
    unfolding marked_def by (rule narrow_loop_zeroed) simp
  have pos: "\<forall>leg\<in>set (firing marked). 0 < rl_amount leg"
  proof (cases "firing marked = []")
    case False
    then show ?thesis using narrow_loop_exact unfolding marked_def by blast
  qed simp
  have "filter (\<lambda>leg. 0 < rl_amount leg) updated = fires"
    using filter_positive_marked[OF z pos] by (simp add: up fi)
  moreover have "(\<Sum>leg\<leftarrow>fires. rl_amount leg + OUTBOUND_FEE) = (if fires = [] then 0 else balance)"
    using narrow_loop_exact[of "map (\<lambda>leg. (leg, True)) legs" balance]
    unfolding fi marked_def paid_out_def by auto
  moreover have "0 < rl_amount leg \<or> rl_amount leg = 0" if leg: "leg \<in> set updated" for leg
  proof -
    obtain m where "(leg, m) \<in> set marked" using leg unfolding up by auto
    then show ?thesis using z pos by (cases m) (force simp: zeroed_def firing_def)+
  qed
  moreover have "map (set_amount 0) updated = map (set_amount 0) legs"
    using narrow_loop_legs[of "map (\<lambda>leg. (leg, True)) legs" balance] by (simp add: up marked_def o_def)
  ultimately show ?thesis
    unfolding Let_def updated_def[symmetric] fires_def[symmetric] by (simp add: list_all_iff)
qed

text \<open>The share every leg but the largest gets is its own fraction of the pool, and with shares that
  add up to one the largest gets less than one kobo per leg on top.\<close>

lemma sum_div_bounds:
  fixes pool D :: int
  assumes "0 < D" and "\<forall>n\<in>set ns. 0 \<le> n" and "0 \<le> pool"
  shows "D * (\<Sum>n\<leftarrow>ns. n * pool div D) \<le> sum_list ns * pool"
    and "ns \<noteq> [] \<Longrightarrow> sum_list ns * pool < D * ((\<Sum>n\<leftarrow>ns. n * pool div D) + int (length ns))"
proof -
  have step: "D * (n * pool div D) \<le> n * pool" "n * pool < D * (n * pool div D) + D" for n
    using assms(1) by (simp_all add: mult.commute[of D] minus_mod_eq_div_mult[symmetric])
  show "D * (\<Sum>n\<leftarrow>ns. n * pool div D) \<le> sum_list ns * pool"
    by (induction ns) (use step in \<open>auto simp: algebra_simps intro: add_mono\<close>)
  show "ns \<noteq> [] \<Longrightarrow> sum_list ns * pool < D * ((\<Sum>n\<leftarrow>ns. n * pool div D) + int (length ns))"
  proof (induction ns)
    case (Cons n ns)
    show ?case
    proof (cases "ns = []")
      case True
      then show ?thesis using step(2)[of n] by (simp add: algebra_simps)
    next
      case False
      then show ?thesis using Cons step(2)[of n] by (simp add: algebra_simps)
    qed
  qed simp
qed

text \<open>The exact distribution is fair. For non-negative shares of one common whole that add up to
  it, every leg gets its pro-rata share of the pool truncated to the kobo, except the largest, which
  gets on top what truncation left over: less than one kobo per leg, never less than nothing, so
  the legs add up to the pool exactly.\<close>

lemma distributeExactly_fair:
  assumes "legs \<noteq> []" and "0 < D" and "0 \<le> pool"
    and "\<forall>leg\<in>set legs. rl_denominator leg = D \<and> 0 \<le> rl_numerator leg"
    and "sum_list (map rl_numerator legs) = D"
  shows "\<exists>i extra. i < length legs \<and> 0 \<le> extra \<and> extra < int (length legs) \<and>
    map rl_amount (distributeExactly legs pool) =
      (map (\<lambda>leg. rl_numerator leg * pool div D) legs)[i := rl_numerator (legs ! i) * pool div D + extra] \<and>
    sum_list (map rl_amount (distributeExactly legs pool)) = pool \<and>
    (\<forall>leg\<in>set legs. rl_numerator leg * pool div D \<le> rl_numerator (legs ! i) * pool div D)"
proof -
  let ?shares = "map (\<lambda>leg. rl_numerator leg * pool div D) legs"
  have shares: "map (share_of pool) legs = ?shares"
    using assms by (intro map_cong) (simp_all add: share_of_def sdiv_nonneg)
  let ?i = "largest_index ?shares" and ?extra = "pool - sum_list ?shares"
  have i: "?i < length legs"
    using largest_index_less[of ?shares] assms(1) by simp
  have nonneg: "\<forall>n\<in>set (map rl_numerator legs). 0 \<le> n"
    using assms(4) by simp
  have sums: "sum_list ?shares = (\<Sum>n\<leftarrow>map rl_numerator legs. n * pool div D)"
    by (simp add: o_def)
  have "D * sum_list ?shares \<le> D * pool" "D * pool < D * (sum_list ?shares + int (length legs))"
    using sum_div_bounds[OF assms(2) nonneg assms(3)] assms(1,5) unfolding sums by simp_all
  then have "0 \<le> ?extra" "?extra < int (length legs)"
    using assms(2) by (simp_all add: mult_less_cancel_left)
  moreover have "map rl_amount (distributeExactly legs pool) = ?shares[?i := rl_numerator (legs ! ?i) * pool div D + ?extra]"
    using i by (simp add: amounts_distributeExactly Let_def shares)
  moreover have "sum_list (map rl_amount (distributeExactly legs pool)) = pool"
    by (rule distributeExactly_sum[OF assms(1)])
  moreover have "rl_numerator leg * pool div D \<le> rl_numerator (legs ! ?i) * pool div D" if "leg \<in> set legs" for leg
  proof -
    obtain j where j: "j < length legs" "legs ! j = leg"
      using \<open>leg \<in> set legs\<close> by (auto simp: in_set_conv_nth)
    then show ?thesis using largest_index_max[of j ?shares] i by simp
  qed
  ultimately show ?thesis using i by blast
qed

text \<open>Three contributors of N100, N200 and N200, as the code's own comment has them.\<close>

definition example_legs :: "refund_leg list" where
  "example_legs = map (\<lambda>(u, n). \<lparr>rl_groupKey = user_key u, rl_numerator = n, rl_denominator = 50000,
     rl_amount = 0, rl_destinationAccount = ''0123456789'', rl_destinationBank = ''058''\<rparr>)
     [(1, 10000), (2, 20000), (3, 20000)]"

lemma distributeExactly_fair_witness:
  "map rl_amount (distributeExactly example_legs 50001) = [10000, 20001, 20000] \<and>
   (\<exists>i extra. i < length example_legs \<and> 0 \<le> extra \<and> extra < (3 :: int) \<and>
     map rl_amount (distributeExactly example_legs 50001) =
      (map (\<lambda>leg. rl_numerator leg * 50001 div 50000) example_legs)
        [i := rl_numerator (example_legs ! i) * 50001 div 50000 + extra])"
proof
  show "map rl_amount (distributeExactly example_legs 50001) = [10000, 20001, 20000]"
    by code_simp
  have "example_legs \<noteq> []" "\<forall>leg\<in>set example_legs. rl_denominator leg = 50000 \<and> 0 \<le> rl_numerator leg"
    "sum_list (map rl_numerator example_legs) = 50000" "int (length example_legs) = 3"
    by code_simp+
  then show "\<exists>i extra. i < length example_legs \<and> 0 \<le> extra \<and> extra < (3 :: int) \<and>
     map rl_amount (distributeExactly example_legs 50001) =
      (map (\<lambda>leg. rl_numerator leg * 50001 div 50000) example_legs)
        [i := rl_numerator (example_legs ! i) * 50001 div 50000 + extra]"
    using distributeExactly_fair[of example_legs 50000 50001] by auto
qed

text \<open>What the comments on the loop promise and it does not do: two legs that could each clear their
  fee alone are both dropped in one round, and a dropped leg's share goes to the largest leg whole.\<close>

definition two_legs :: "int \<Rightarrow> int \<Rightarrow> refund_leg list" where
  "two_legs a b = map (\<lambda>(u, n). \<lparr>rl_groupKey = user_key u, rl_numerator = n, rl_denominator = a + b,
     rl_amount = 0, rl_destinationAccount = ''0123456789'', rl_destinationBank = ''058''\<rparr>) [(1, a), (2, b)]"

lemma narrow_drops_everyone:
  "snd (narrowToFeeCoveredLegs (two_legs 50 50) 9000) = [] \<and>
   map rl_amount (snd (narrowToFeeCoveredLegs [two_legs 50 50 ! 0] 9000)) = [4000]"
  by code_simp

definition three_legs :: "refund_leg list" where
  "three_legs = map (\<lambda>(u, n). \<lparr>rl_groupKey = user_key u, rl_numerator = n, rl_denominator = 100,
     rl_amount = 0, rl_destinationAccount = ''0123456789'', rl_destinationBank = ''058''\<rparr>) [(1, 4), (2, 46), (3, 50)]"

lemma narrow_dropped_share_to_largest:
  "map rl_amount (fst (narrowToFeeCoveredLegs three_legs 100000)) = [0, 41000, 49000]"
  by code_simp

end
