(* ===== verification/Disburse.thy ===== *)
theory Disburse
  imports Pot_Lock Split
begin

text \<open>
  The disbursement half of \<open>modules/pots/pots.service.ts\<close>: a payout or refund claims the pot's
  lock and enqueues transfer jobs; the worker moves the money later. \<open>postFixedAmountDisbursement\<close>
  is the single-leg core, \<open>postContributorsRefund\<close> the fan-out over contributors. The gap between
  the balance read and the claim is where \<open>e_gap\<close> lets other requests in.
\<close>

section \<open>The single-leg disbursement\<close>

definition pot_balance :: "uuid \<Rightarrow> (db, kobo) op" where
  "pot_balance potId =
     bnd (in_ledger (getOrCreatePotAccount potId)) (\<lambda>potAccount.
     gets (\<lambda>s. getBalance (acc_id potAccount) (led s)))"

fun kind_text :: "pending_operation \<Rightarrow> string" where
  "kind_text op_payout = ''payout''"
| "kind_text op_refund = ''refund''"

record destination =
  de_account :: string
  de_bank :: string

definition in_flight_error :: error where
  "in_flight_error = PotError ''A payout or refund is already in flight for this pot. Wait for it to resolve before triggering another'' 409"

definition fee_error :: "kobo \<Rightarrow> kobo \<Rightarrow> error" where
  "fee_error amount balance =
     PotError (''amount ('' @ show_int amount @ '') plus the N50 outbound fee exceeds the pot's current balance (''
       @ show_int balance @ '')'') 409"

definition enqueue_for :: "env \<Rightarrow> pending_operation \<Rightarrow> ledger_job \<Rightarrow> (db, unit) op" where
  "enqueue_for w kind job = (if kind = op_payout then enqueuePayout w job else enqueuePotRefund w job)"

definition postFixedAmountDisbursement ::
  "env \<Rightarrow> pot \<Rightarrow> pending_operation \<Rightarrow> kobo \<Rightarrow> destination \<Rightarrow> DisbursementOnSuccess option \<Rightarrow> uuid option \<Rightarrow> (db, unit) op" where
  "postFixedAmountDisbursement w p kind amount dest onSuccess contributorUserId =
     bnd (pot_balance (pot_id p)) (\<lambda>balance.
     seq (require (\<not> balance < amount + OUTBOUND_FEE) (fee_error amount balance))
     (bnd (randomUUID w) (\<lambda>u.
      seq (in_gap w)
      (bnd (claimPendingOperation (pot_id p) kind 1) (\<lambda>claimed.
       seq (require claimed in_flight_error)
       (enqueue_for w kind
          \<lparr>lj_potId = pot_id p, lj_amount = amount, lj_destinationAccount = de_account dest,
           lj_destinationBank = de_bank dest,
           lj_reference = kind_text kind @ ''_'' @ uuid_text (pot_id p) @ ''_'' @ uuid_text u,
           lj_contributorUserId = contributorUserId, lj_isFanOutLeg = False, lj_onSuccess = onSuccess\<rparr>))))))"

definition postDisbursement ::
  "env \<Rightarrow> pot \<Rightarrow> pending_operation \<Rightarrow> destination \<Rightarrow> DisbursementOnSuccess option \<Rightarrow> (db, unit) op" where
  "postDisbursement w p kind dest onSuccess =
     bnd (pot_balance (pot_id p)) (\<lambda>balance.
     seq (require (\<not> balance - OUTBOUND_FEE \<le> 0)
            (PotError (''Pot's balance ('' @ show_int balance @ '') does not cover the N50 outbound fee. Nothing to ''
               @ kind_text kind) 409))
     (postFixedAmountDisbursement w p kind (balance - OUTBOUND_FEE) dest onSuccess None))"

section \<open>The contributors refund\<close>

text \<open>The funded contributions grouped by contributor, in the order the groups first appear; an
  anonymous contribution is a group of its own.\<close>

definition group_key_of :: "contribution \<Rightarrow> group_key" where
  "group_key_of row = (case c_contributorUserId row of Some u \<Rightarrow> user_key u | None \<Rightarrow> anon_key (c_id row))"

fun add_row :: "contribution \<Rightarrow> (group_key \<times> contribution list) list \<Rightarrow> (group_key \<times> contribution list) list" where
  "add_row row [] = [(group_key_of row, [row])]"
| "add_row row ((k, rows) # groups) =
     (if k = group_key_of row then (k, rows @ [row]) # groups else (k, rows) # add_row row groups)"

definition group_rows :: "contribution list \<Rightarrow> (group_key \<times> contribution list) list" where
  "group_rows funded = fold add_row funded []"

fun group_key_text :: "string \<Rightarrow> group_key \<Rightarrow> string" where
  "group_key_text sep (user_key u) = uuid_text u"
| "group_key_text sep (anon_key c) = ''anon'' @ sep @ uuid_text c"

text \<open>A JavaScript string is truthy when it is there and not empty.\<close>

definition truthy :: "string option \<Rightarrow> bool" where
  "truthy v \<longleftrightarrow> v \<noteq> None \<and> v \<noteq> Some []"

definition division_by_zero :: error where
  "division_by_zero = PlainError ''RangeError: Division by zero''"

definition payment_leg :: "group_key \<Rightarrow> kobo \<Rightarrow> kobo \<Rightarrow> kobo \<Rightarrow> kobo \<Rightarrow> contribution_payment \<Rightarrow> refund_leg" where
  "payment_leg k contributed totalContributed totalPayments share payment =
     \<lparr>rl_groupKey = k, rl_numerator = cp_amount payment * contributed,
      rl_denominator = totalPayments * totalContributed,
      rl_amount = (cp_amount payment * share) sdiv totalPayments,
      rl_destinationAccount = cp_senderAccountNumber payment,
      rl_destinationBank = cp_senderBankCode payment\<rparr>"

definition group_legs :: "kobo \<Rightarrow> kobo \<Rightarrow> group_key \<times> contribution list \<Rightarrow> (db, refund_leg list) op" where
  "group_legs balance totalContributed = (\<lambda>(k, rows).
     let contributed = (\<Sum>r\<leftarrow>rows. c_expectedAmount r);
         share = (contributed * balance) sdiv totalContributed;
         first = hd rows
     in seq (require (totalContributed \<noteq> 0) division_by_zero)
       (if share \<le> 0 then ret []
        else if truthy (c_refundAccountNumber first) \<and> truthy (c_refundAccountName first) \<and> truthy (c_refundBank first)
        then ret [\<lparr>rl_groupKey = k, rl_numerator = contributed, rl_denominator = totalContributed,
                   rl_amount = share, rl_destinationAccount = the (c_refundAccountNumber first),
                   rl_destinationBank = the (c_refundBank first)\<rparr>]
        else
          bnd (gets (\<lambda>s. filter (\<lambda>p. cp_contributionId p \<in> c_id ` set rows) (contributionPayments s))) (\<lambda>payments.
          seq (require (payments \<noteq> [])
                 (PotError (''Contributor '' @ group_key_text '':'' k @ '' has no refund destination and no recorded payments'') 409))
          (let totalPayments = (\<Sum>p\<leftarrow>payments. cp_amount p) in
           seq (require (totalPayments \<noteq> 0) division_by_zero)
           (ret (filter (\<lambda>leg. 0 < rl_amount leg)
              (map (payment_leg k contributed totalContributed totalPayments share) payments)))))))"

text \<open>The loop that enqueues one job per leg, or releases the share of the lock of a leg with nothing
  to send.\<close>

definition send_leg :: "env \<Rightarrow> uuid \<Rightarrow> refund_leg \<Rightarrow> (db, unit) op" where
  "send_leg w potId leg =
     (if rl_amount leg \<le> 0 then decrementPendingOperationLeg potId
      else bnd (randomUUID w) (\<lambda>u.
        enqueuePotRefund w
          \<lparr>lj_potId = potId, lj_amount = rl_amount leg, lj_destinationAccount = rl_destinationAccount leg,
           lj_destinationBank = rl_destinationBank leg,
           lj_reference = ''refund_'' @ uuid_text potId @ ''_'' @ group_key_text ''-'' (rl_groupKey leg) @ ''_'' @ uuid_text u,
           lj_contributorUserId = (case rl_groupKey leg of user_key v \<Rightarrow> Some v | anon_key _ \<Rightarrow> None),
           lj_isFanOutLeg = True, lj_onSuccess = None\<rparr>))"

definition funded_of :: "uuid \<Rightarrow> db \<Rightarrow> contribution list" where
  "funded_of potId s = filter (\<lambda>c. c_potId c = potId \<and> c_status c = c_funded) (contributions s)"

text \<open>From the claim on: the lock is taken for every leg, the shares are recomputed if the balance
  moved in the meantime, and every leg is sent or released.\<close>

definition claim_and_send :: "env \<Rightarrow> uuid \<Rightarrow> account \<Rightarrow> kobo \<Rightarrow> refund_leg list \<Rightarrow> (db, unit) op" where
  "claim_and_send w potId potAccount balance legs =
     seq (in_gap w)
     (bnd (claimPendingOperation potId op_refund (int (length legs))) (\<lambda>claimed.
      seq (require claimed in_flight_error)
      (bnd (gets (\<lambda>s. getBalance (acc_id potAccount) (led s))) (\<lambda>freshBalance.
       for_each
         (if freshBalance \<noteq> balance then fst (narrowToFeeCoveredLegs legs freshBalance) else legs)
         (send_leg w potId)))))"

definition postContributorsRefund :: "env \<Rightarrow> pot \<Rightarrow> (db, unit) op" where
  "postContributorsRefund w p =
     bnd (gets (funded_of (pot_id p))) (\<lambda>funded.
     seq (require (funded \<noteq> []) (PotError ''Pot has no funded contributions to refund'' 409))
     (let groups = group_rows funded; totalContributed = (\<Sum>r\<leftarrow>funded. c_expectedAmount r) in
      bnd (in_ledger (getOrCreatePotAccount (pot_id p))) (\<lambda>potAccount.
      bnd (gets (\<lambda>s. getBalance (acc_id potAccount) (led s))) (\<lambda>balance.
      seq (require (\<not> balance \<le> 0) (PotError ''Pot has no balance to refund'' 409))
      (bnd (map_op (group_legs balance totalContributed) groups) (\<lambda>legss.
       let legs = concat legss in
       seq (require (legs \<noteq> []) (PotError
              ''Remaining pot balance is too small to distribute. Every contributor's share rounds to zero'' 409))
       (let narrowed = narrowToFeeCoveredLegs legs balance in
        seq (require (snd narrowed \<noteq> [])
               (PotError (''Pot's balance ('' @ show_int balance @ '') does not cover the N50 outbound fee for even one of its ''
                  @ show_nat (length legs) @ '' contributor refund(s)'') 409))
        (claim_and_send w (pot_id p) potAccount balance (fst narrowed)))))))))"

section \<open>The two manual triggers\<close>

fun payout_mode_text :: "payout_mode \<Rightarrow> string" where
  "payout_mode_text target_based = ''target_based''"
| "payout_mode_text manual = ''manual''"
| "payout_mode_text recurring = ''recurring''"
| "payout_mode_text scheduled = ''scheduled''"

text \<open>The destination a manual payout goes to: the pot's own if it has one, else the caller's.\<close>

definition resolve_destination :: "manual_config option \<Rightarrow> destination option \<Rightarrow> destination option" where
  "resolve_destination config dest =
     (case config of
        Some c \<Rightarrow> if truthy (mc_destinationAccount c) \<and> truthy (mc_destinationBank c)
                  then Some \<lparr>de_account = the (mc_destinationAccount c), de_bank = the (mc_destinationBank c)\<rparr>
                  else dest
      | None \<Rightarrow> dest)"

definition manual_config_of :: "uuid \<Rightarrow> db \<Rightarrow> manual_config option" where
  "manual_config_of potId s = find (\<lambda>c. mc_potId c = potId) (manualPayoutConfigs s)"

definition triggerPayout ::
  "env \<Rightarrow> uuid \<Rightarrow> uuid \<Rightarrow> destination option \<Rightarrow> kobo option \<Rightarrow> (db, unit) op" where
  "triggerPayout w potId userId dest amount =
     seq (assertIsAdmin potId (Some userId))
     (bnd (getPotOrThrow potId) (\<lambda>p.
      seq (require (pot_status p = pot_open) (PotError ''Pot must be open to trigger a payout'' 409))
      (if pot_payoutMode p = manual then
         bnd (gets (manual_config_of potId)) (\<lambda>config.
         case resolve_destination config dest of
           None \<Rightarrow> throw (PotError ''destinationAccount and destinationBank are required to trigger a manual payout for a pot with no fixed destination'' 400)
         | Some d \<Rightarrow>
             seq (require (de_account d \<noteq> [] \<and> de_bank d \<noteq> []) (PotError ''destinationAccount and destinationBank are required to trigger a manual payout for a pot with no fixed destination'' 400))
             (seq (if truthy (Option.bind config mc_destinationAccount) then ret ()
                   else seq (verifyAccountDetails w (de_account d) (de_bank d)) (ret ()))
              (case amount of
                 Some a \<Rightarrow>
                   bnd (pot_balance (pot_id p)) (\<lambda>balance.
                   seq (require (\<not> a \<le> 0) (PotError ''amount must be greater than zero'' 400))
                   (seq (require (\<not> balance < a + OUTBOUND_FEE) (fee_error a balance))
                   (postFixedAmountDisbursement w p op_payout a d None None)))
               | None \<Rightarrow> postDisbursement w p op_payout d None)))
       else throw (PotError (''Manual payout trigger is not applicable to payoutMode '' @ [CHR 0x27]
              @ payout_mode_text (pot_payoutMode p) @ [CHR 0x27]) 400))))"

definition triggerRefund :: "env \<Rightarrow> uuid \<Rightarrow> uuid \<Rightarrow> (db, unit) op" where
  "triggerRefund w potId userId =
     seq (assertIsAdmin potId (Some userId))
     (bnd (getPotOrThrow potId) (\<lambda>p.
      seq (require (pot_status p = pot_open) (PotError ''Pot must be open to trigger a refund'' 409))
      (if pot_refundType p = refund_contributors then postContributorsRefund w p
       else bnd (gets (\<lambda>s. find (\<lambda>u. u_id u = userId) (users s))) (\<lambda>triggeringAdmin.
         case triggeringAdmin of
           None \<Rightarrow> throw (PotError ''Set a default refund bank account (PATCH /me/refund-profile) before triggering an admin refund'' 409)
         | Some a \<Rightarrow>
             seq (require (truthy (u_defaultRefundAccount a) \<and> truthy (u_defaultRefundBank a))
                    (PotError ''Set a default refund bank account (PATCH /me/refund-profile) before triggering an admin refund'' 409))
             (postDisbursement w p op_refund
                \<lparr>de_account = the (u_defaultRefundAccount a), de_bank = the (u_defaultRefundBank a)\<rparr> None)))))"

end
