(* ===== verification/Disburse_Laws.thy ===== *)
theory Disburse_Laws
  imports Disburse
begin

text \<open>
  What a disbursement does to the state: which job it enqueues, what the lock then holds, and
  when it refuses. The contributors refund is shown to reserve the balance to the kobo, with a lock that
  counts exactly the jobs in flight.
\<close>

section \<open>The pot's funds\<close>

definition pot_account :: "uuid \<Rightarrow> db \<Rightarrow> account option" where
  "pot_account potId s = find (is_account_of pot_owner (Some potId)) (accounts (led s))"

definition pot_funds :: "uuid \<Rightarrow> db \<Rightarrow> kobo" where
  "pot_funds potId s = (case pot_account potId s of Some a \<Rightarrow> getBalance (acc_id a) (led s) | None \<Rightarrow> 0)"

lemma getOrCreateAccount_existing:
  "find (is_account_of ty owner) (accounts l) = Some a \<Longrightarrow> getOrCreateAccount ty owner l = (Inr a, l)"
  by (simp add: getOrCreateAccount_def getOrCreateAccount_raced_def)

lemma getOrCreateAccount_new:
  assumes "find (is_account_of ty owner) (accounts l) = None"
  shows "\<exists>a. getOrCreateAccount ty owner l = (Inr a, l\<lparr>accounts := accounts l @ [a]\<rparr>) \<and>
    acc_id a = fresh_id (map acc_id (accounts l)) \<and> acc_ownerType a = ty \<and> acc_ownerId a = owner \<and>
    acc_normalBalance a = NORMAL_BALANCE_BY_OWNER_TYPE ty"
  using assms
  by (simp add: getOrCreateAccount_def getOrCreateAccount_raced_def catch_op_def insert_account_def Let_def)

lemma getBalance_unknown:
  assumes "wf_ledger l" and "a \<notin> acc_id ` set (accounts l)"
  shows "getBalance a l = 0"
proof -
  have "a \<notin> bal_accountId ` set (balances l)"
    using wf_ledgerD(11)[OF assms(1)] assms(2) by blast
  then show ?thesis
    by (simp add: getBalance_def bal_lookup_def find_key_None_iff[THEN iffD2])
qed

lemma pot_balance_existing:
  "pot_account potId s = Some a \<Longrightarrow> pot_balance potId s = (Inr (pot_funds potId s), s)"
  by (simp add: pot_balance_def getOrCreatePotAccount_def bnd_def in_ledger_run gets_def
      getOrCreateAccount_existing[unfolded pot_account_def] pot_account_def pot_funds_def)

text \<open>What creating the pot's account leaves as it was.\<close>

lemma pot_balance_run:
  assumes "wf_ledger (led s)"
  shows "\<exists>as. pot_balance potId s = (Inr (pot_funds potId s), s\<lparr>led := (led s)\<lparr>accounts := accounts (led s) @ as\<rparr>\<rparr>)"
proof (cases "pot_account potId s")
  case (Some a)
  then show ?thesis
    by (intro exI[of _ "[]"]) (simp add: pot_balance_existing)
next
  case None
  from getOrCreateAccount_new[OF None[unfolded pot_account_def]] obtain a where
    new: "getOrCreateAccount pot_owner (Some potId) (led s) = (Inr a, (led s)\<lparr>accounts := accounts (led s) @ [a]\<rparr>)"
    and id: "acc_id a = fresh_id (map acc_id (accounts (led s)))"
    by blast
  have "getBalance (acc_id a) (led s) = 0"
    using fresh_id_notin[of "map acc_id (accounts (led s))"] by (intro getBalance_unknown assms) (simp add: id)
  then show ?thesis
    by (intro exI[of _ "[a]"])
      (simp add: pot_balance_def getOrCreatePotAccount_def bnd_def in_ledger_run new gets_def pot_funds_def None)
qed

lemma pot_funds_frame [simp]:
  "pot_funds q (s\<lparr>pots := ps\<rparr>) = pot_funds q s"
  "pot_funds q (s\<lparr>randomDraws := n\<rparr>) = pot_funds q s"
  "pot_funds q (s\<lparr>transfersQueue := jobs\<rparr>) = pot_funds q s"
  "pot_account q (s\<lparr>pots := ps\<rparr>) = pot_account q s"
  "pot_account q (s\<lparr>randomDraws := n\<rparr>) = pot_account q s"
  "pot_account q (s\<lparr>transfersQueue := jobs\<rparr>) = pot_account q s"
  by (simp_all add: pot_funds_def pot_account_def split: option.split)

lemma find_pot_frame [simp]:
  "find_pot q (s\<lparr>led := l\<rparr>) = find_pot q s"
  "find_pot q (s\<lparr>randomDraws := n\<rparr>) = find_pot q s"
  "find_pot q (s\<lparr>transfersQueue := jobs\<rparr>) = find_pot q s"
  by (simp_all add: find_pot_def)

lemma wf_pots_frame [simp]:
  "wf_pots (s\<lparr>led := l\<rparr>) = wf_pots s"
  "wf_pots (s\<lparr>randomDraws := n\<rparr>) = wf_pots s"
  "wf_pots (s\<lparr>transfersQueue := jobs\<rparr>) = wf_pots s"
  by (simp_all add: wf_pots_def)

text \<open>A pot with money has an account.\<close>

lemma pot_funds_pos_account: "0 < pot_funds potId s \<Longrightarrow> \<exists>a. pot_account potId s = Some a"
  by (simp add: pot_funds_def split: option.splits)

section \<open>Fresh references\<close>

text \<open>
  What the code relies on from \<open>randomUUID\<close>: draws are distinct 128-bit values, and no reference
  in the queue ends in one that is yet to be drawn.
\<close>

definition fresh_draws :: "env \<Rightarrow> nat \<Rightarrow> db \<Rightarrow> bool" where
  "fresh_draws w k s \<longleftrightarrow>
     (\<forall>n\<in>{randomDraws s..<randomDraws s + k}. e_uuid w n < 2 ^ 128 \<and>
        (\<forall>pre. pre @ uuid_text (e_uuid w n) \<notin> job_reference ` set (transfersQueue s))) \<and>
     inj_on (e_uuid w) {randomDraws s..<randomDraws s + k}"

lemma randomUUID_run: "randomUUID w s = (Inr (e_uuid w (randomDraws s)), s\<lparr>randomDraws := Suc (randomDraws s)\<rparr>)"
  by (simp add: randomUUID_def)

lemma length_uuid_text: "length (uuid_text u) = 36"
  by (simp add: uuid_text_def Let_def)

lemma same_suffix:
  assumes "pre @ uuid_text u = pre' @ uuid_text v"
  shows "uuid_text u = uuid_text v"
proof -
  have "length pre = length pre'"
    using arg_cong[OF assms, of length] by (simp add: length_uuid_text)
  then show ?thesis using assms by simp
qed

lemma fresh_draws_add:
  assumes "fresh_draws w (Suc k) s" and "job_reference job = pre @ uuid_text (e_uuid w (randomDraws s))"
  shows "fresh_draws w k (s\<lparr>randomDraws := Suc (randomDraws s), transfersQueue := transfersQueue s @ [job]\<rparr>)"
proof -
  let ?d = "randomDraws s"
  have sub: "{Suc ?d..<Suc ?d + k} \<subseteq> {?d..<?d + Suc k}" and d: "?d \<in> {?d..<?d + Suc k}"
    by auto
  have "q @ uuid_text (e_uuid w n) \<noteq> job_reference job" if n: "n \<in> {Suc ?d..<Suc ?d + k}" for n q
  proof
    assume "q @ uuid_text (e_uuid w n) = job_reference job"
    then have "uuid_text (e_uuid w n) = uuid_text (e_uuid w ?d)"
      using same_suffix assms(2) by metis
    then have "e_uuid w n = e_uuid w ?d"
      using assms(1) sub n d unfolding fresh_draws_def by (intro uuid_text_inj) blast+
    then have "n = ?d"
      using assms(1) sub n d unfolding fresh_draws_def by (meson inj_onD subsetD)
    then show False using n by simp
  qed
  moreover have "inj_on (e_uuid w) {Suc ?d..<Suc ?d + k}"
    using assms(1) sub unfolding fresh_draws_def by (meson inj_on_subset)
  ultimately show ?thesis
    using assms(1) sub by (simp add: fresh_draws_def)
qed

lemma fresh_draws_notin:
  "fresh_draws w (Suc k) s \<Longrightarrow> pre @ uuid_text (e_uuid w (randomDraws s)) \<notin> job_reference ` set (transfersQueue s)"
  by (simp add: fresh_draws_def)

section \<open>The single-leg disbursement\<close>

definition fixed_job :: "env \<Rightarrow> uuid \<Rightarrow> pending_operation \<Rightarrow> kobo \<Rightarrow> destination \<Rightarrow>
    DisbursementOnSuccess option \<Rightarrow> uuid option \<Rightarrow> nat \<Rightarrow> DisbursementJobData" where
  "fixed_job w potId kind amount dest onSuccess contributor n =
     (if kind = op_payout then job_payout else job_pot_refund)
       \<lparr>lj_potId = potId, lj_amount = amount, lj_destinationAccount = de_account dest,
        lj_destinationBank = de_bank dest,
        lj_reference = kind_text kind @ ''_'' @ uuid_text potId @ ''_'' @ uuid_text (e_uuid w n),
        lj_contributorUserId = contributor, lj_isFanOutLeg = False, lj_onSuccess = onSuccess\<rparr>"

lemma fixed_job_reference:
  "job_reference (fixed_job w potId kind amount dest onSuccess contributor n) =
   (kind_text kind @ ''_'' @ uuid_text potId @ ''_'') @ uuid_text (e_uuid w n)"
  by (simp add: fixed_job_def)

text \<open>With nothing in the gap: the four outcomes, in the order the code checks.\<close>

lemma postFixedAmountDisbursement_run:
  assumes "wf_ledger (led s)" and "wf_pots s" and "find_pot (pot_id p) s = Some cur" and "e_gap w = id"
  shows "\<exists>as. let s1 = s\<lparr>led := (led s)\<lparr>accounts := accounts (led s) @ as\<rparr>\<rparr>;
      s2 = s1\<lparr>randomDraws := Suc (randomDraws s)\<rparr>;
      s3 = s2\<lparr>pots := update_where (\<lambda>q. pot_id q = pot_id p) (claim_lock kind 1) (pots s)\<rparr> in
    postFixedAmountDisbursement w p kind amount dest onSuccess contributor s =
      (if pot_funds (pot_id p) s < amount + OUTBOUND_FEE then (Inl (fee_error amount (pot_funds (pot_id p) s)), s1)
       else if pot_pendingOperation cur \<noteq> None then (Inl in_flight_error, s2)
       else add_job w (fixed_job w (pot_id p) kind amount dest onSuccess contributor (randomDraws s)) s3)"
proof -
  from pot_balance_run[OF assms(1)] obtain as where
    bal: "pot_balance (pot_id p) s = (Inr (pot_funds (pot_id p) s), s\<lparr>led := (led s)\<lparr>accounts := accounts (led s) @ as\<rparr>\<rparr>)"
    by blast
  let ?s1 = "s\<lparr>led := (led s)\<lparr>accounts := accounts (led s) @ as\<rparr>\<rparr>"
  let ?s2 = "?s1\<lparr>randomDraws := Suc (randomDraws s)\<rparr>"
  have claim: "claimPendingOperation (pot_id p) kind 1 ?s2 =
     (if pot_pendingOperation cur = None
      then (Inr True, ?s2\<lparr>pots := update_where (\<lambda>q. pot_id q = pot_id p) (claim_lock kind 1) (pots s)\<rparr>)
      else (Inr False, ?s2))"
    using claim_run[of ?s2 "pot_id p" cur kind 1] assms(2,3) by simp
  show ?thesis
    by (intro exI[of _ as])
      (simp add: postFixedAmountDisbursement_def Let_def bnd_def bal in_gap_def assms(4) claim enqueue_for_def
        enqueuePayout_def enqueuePotRefund_def fixed_job_def require_def ret_def throw_def randomUUID_run modify_def)
qed

text \<open>C5. A disbursement reserves money the pot has, once. With the queue up: it is refused, with no job
  queued and no lock taken, when the pot's funds do not cover the amount and the outbound fee, or
  when another operation holds the lock; otherwise exactly one job, for exactly this amount, is
  queued and the lock is held for one leg. The ledger's balances never change here.\<close>

theorem disbursement_reserves_funds:
  assumes "wf_ledger (led s)" and "wf_pots s" and "find_pot (pot_id p) s = Some cur"
    and "e_gap w = id" and "e_enqueue w = (\<lambda>_. None)" and "fresh_draws w 1 s"
  shows "case postFixedAmountDisbursement w p kind amount dest onSuccess contributor s of (r, t) \<Rightarrow>
    (if pot_funds (pot_id p) s < amount + OUTBOUND_FEE
     then r = Inl (fee_error amount (pot_funds (pot_id p) s)) \<and> transfersQueue t = transfersQueue s \<and> pots t = pots s
     else if pot_pendingOperation cur \<noteq> None
     then r = Inl in_flight_error \<and> transfersQueue t = transfersQueue s \<and> pots t = pots s
     else r = Inr () \<and> legs_held (pot_id p) t = 1 \<and>
       transfersQueue t = transfersQueue s @ [fixed_job w (pot_id p) kind amount dest onSuccess contributor (randomDraws s)]) \<and>
    balances (led t) = balances (led s)"
proof -
  from postFixedAmountDisbursement_run[OF assms(1-4), of kind amount dest onSuccess contributor] obtain as where
    run: "let s1 = s\<lparr>led := (led s)\<lparr>accounts := accounts (led s) @ as\<rparr>\<rparr>;
      s2 = s1\<lparr>randomDraws := Suc (randomDraws s)\<rparr>;
      s3 = s2\<lparr>pots := update_where (\<lambda>q. pot_id q = pot_id p) (claim_lock kind 1) (pots s)\<rparr> in
    postFixedAmountDisbursement w p kind amount dest onSuccess contributor s =
      (if pot_funds (pot_id p) s < amount + OUTBOUND_FEE then (Inl (fee_error amount (pot_funds (pot_id p) s)), s1)
       else if pot_pendingOperation cur \<noteq> None then (Inl in_flight_error, s2)
       else add_job w (fixed_job w (pot_id p) kind amount dest onSuccess contributor (randomDraws s)) s3)"
    by blast
  let ?job = "fixed_job w (pot_id p) kind amount dest onSuccess contributor (randomDraws s)"
  have fresh: "job_reference ?job \<notin> job_reference ` set (transfersQueue s)"
    unfolding fixed_job_reference by (rule fresh_draws_notin) (use assms(6) in simp)
  have held: "legs_held (pot_id p) (s'\<lparr>transfersQueue := jobs\<rparr>) = 1"
    if "pots s' = update_where (\<lambda>q. pot_id q = pot_id p) (claim_lock kind 1) (pots s)" for s' jobs
    using that assms(3) by (simp add: legs_held_def find_pot_def claim_lock.find_if) (simp add: claim_lock_def)
  show ?thesis
    using run held fresh by (simp add: Let_def add_job_def assms(5) modify_def)
qed

text \<open>The world and the state of the examples: two contributors, N60 and N140 in the pot.\<close>

definition example_env :: env where
  "example_env = \<lparr>e_now = 0, e_uuid = (\<lambda>n. n), e_gap = id, e_lookupBankAccount = (\<lambda>_ _. Inr ''Ada''),
     e_transferToBankAccount = (\<lambda>_. Inr SUCCESS), e_enqueue = (\<lambda>_. None),
     e_reserve = (\<lambda>_ _. Inr True), e_completionFault = None,
     e_createVirtualAccount = (\<lambda>_. Inr \<lparr>va_bankAccountNumber = Some ''9876543210'', va_bankName = Some ''Nombank''\<rparr>),
     e_expireVirtualAccount = (\<lambda>_. None), e_sendMail = (\<lambda>_. None)\<rparr>"

definition example_funding :: PostTransactionInput where
  "example_funding = \<lparr>pi_type = ty_funding, pi_reference = ''seed'',
     pi_entries = [debit_of 1 23000, credit_of 2 20000, credit_of 3 3000],
     pi_amount = 20000, pi_externalReference = None, pi_metadata = None, pi_status = None, pi_onSuccess = None\<rparr>"

definition example_contribution :: "uuid \<Rightarrow> kobo \<Rightarrow> contribution" where
  "example_contribution i v = \<lparr>c_id = i, c_potId = 7, c_contributorUserId = Some (i + 100),
     c_virtualAccountRef = ''va'', c_virtualAccountNumber = Some (show_nat i), c_virtualAccountBankName = None,
     c_expectedAmount = v, c_intendedAmount = v, c_status = c_funded, c_anonymous = False,
     c_refundAccountNumber = Some ''0123456789'', c_refundAccountName = Some ''Ada'', c_refundBank = Some ''058'',
     c_transactionId = None, c_expiresAt = 0, c_fundedAt = None\<rparr>"

definition example_db :: db where
  "example_db = empty_db\<lparr>pots := [example_pot],
     led := run_calls [GetOrCreate [] platform_float None, GetOrCreate [] pot_owner (Some 7),
              GetOrCreate [] platform_revenue None, Post [] 0 example_funding] empty_ledger,
     contributions := [example_contribution 1 6000, example_contribution 2 14000]\<rparr>"

lemma example_db_ok:
  "wf_ledger (led example_db)" "wf_pots example_db" "find_pot (pot_id example_pot) example_db = Some example_pot"
  "e_gap example_env = id" "e_enqueue example_env = (\<lambda>_. None)" "k < 1000 \<Longrightarrow> fresh_draws example_env k example_db"
  using wf_run_calls(2)[OF wf_empty_ledger]
  by (simp_all add: example_db_def del: run_call.simps run_calls.simps) (simp_all add: example_db_def wf_pots_def find_pot_def example_pot_def example_env_def fresh_draws_def empty_db_def)

theorem disbursement_reserves_funds_witness:
  "transfersQueue (snd (postFixedAmountDisbursement example_env example_pot op_payout 15000
     \<lparr>de_account = ''0123456789'', de_bank = ''058''\<rparr> None None example_db)) =
   [fixed_job example_env 7 op_payout 15000 \<lparr>de_account = ''0123456789'', de_bank = ''058''\<rparr> None None 0]"
proof -
  have "pot_funds 7 example_db = 20000" "transfersQueue example_db = []" "randomDraws example_db = 0"
    "pot_pendingOperation example_pot = None" "pot_id example_pot = 7"
    by code_simp+
  then show ?thesis
    using disbursement_reserves_funds[OF example_db_ok(1-5), of 15000 op_payout
        "\<lparr>de_account = ''0123456789'', de_bank = ''058''\<rparr>" None None] example_db_ok(6)[of 1]
    by (simp add: OUTBOUND_FEE_def NOMBA_OUTBOUND_FEE_def PLATFORM_OUTBOUND_FEE_def split: prod.splits)
qed

section \<open>The contributors refund\<close>

definition positive_legs :: "refund_leg list \<Rightarrow> refund_leg list" where
  "positive_legs legs = filter (\<lambda>leg. 0 < rl_amount leg) legs"

text \<open>The job of a leg, for the reference it was given.\<close>

definition leg_job :: "uuid \<Rightarrow> refund_leg \<Rightarrow> string \<Rightarrow> DisbursementJobData" where
  "leg_job potId leg reference = job_pot_refund
     \<lparr>lj_potId = potId, lj_amount = rl_amount leg, lj_destinationAccount = rl_destinationAccount leg,
      lj_destinationBank = rl_destinationBank leg, lj_reference = reference,
      lj_contributorUserId = (case rl_groupKey leg of user_key v \<Rightarrow> Some v | anon_key _ \<Rightarrow> None),
      lj_isFanOutLeg = True, lj_onSuccess = None\<rparr>"

lemma send_leg_pays:
  assumes "0 < rl_amount leg" and "e_enqueue w = (\<lambda>_. None)" and "fresh_draws w (Suc k) s"
  shows "\<exists>r s'. send_leg w potId leg s = (Inr (), s') \<and> fresh_draws w k s' \<and>
    transfersQueue s' = transfersQueue s @ [leg_job potId leg r] \<and> pots s' = pots s \<and> led s' = led s"
proof -
  define pre where "pre = ''refund_'' @ uuid_text potId @ ''_'' @ group_key_text ''-'' (rl_groupKey leg) @ ''_''"
  define r where "r = pre @ uuid_text (e_uuid w (randomDraws s))"
  let ?s' = "s\<lparr>randomDraws := Suc (randomDraws s), transfersQueue := transfersQueue s @ [leg_job potId leg r]\<rparr>"
  have ref: "job_reference (leg_job potId leg r) = pre @ uuid_text (e_uuid w (randomDraws s))"
    by (simp add: leg_job_def r_def)
  have "add_job w (leg_job potId leg r) (s\<lparr>randomDraws := Suc (randomDraws s)\<rparr>) = (Inr (), ?s')"
    using fresh_draws_notin[OF assms(3), of pre] by (simp add: add_job_def assms(2) modify_def ref)
  moreover have "send_leg w potId leg s = add_job w (leg_job potId leg r) (s\<lparr>randomDraws := Suc (randomDraws s)\<rparr>)"
    using assms(1) by (simp add: send_leg_def bnd_def randomUUID_run enqueuePotRefund_def leg_job_def r_def pre_def)
  moreover have "fresh_draws w k ?s'"
    using fresh_draws_add[OF assms(3) ref] .
  ultimately show ?thesis by (intro exI[of _ r] exI[of _ ?s']) simp
qed

lemma send_leg_drops:
  "rl_amount leg \<le> 0 \<Longrightarrow> send_leg w potId leg s = (Inr (), run_decrement potId s)"
  by (simp add: send_leg_def run_decrement_def decrementPendingOperationLeg_def bnd_def modify_def gets_def
      when_op_def ret_def clearPendingOperation_def)

lemma run_decrement_frame:
  "transfersQueue (run_decrement potId s) = transfersQueue s" "led (run_decrement potId s) = led s"
  "randomDraws (run_decrement potId s) = randomDraws s"
  by (simp_all add: run_decrement_def decrementPendingOperationLeg_def bnd_def modify_def gets_def
      when_op_def ret_def clearPendingOperation_def)

lemma legs_held_frame:
  "pots s' = pots s \<Longrightarrow> legs_held potId s' = legs_held potId s"
  "pots s' = pots s \<Longrightarrow> pot_ok potId s' = pot_ok potId s"
  by (simp_all add: legs_held_def find_pot_def pot_ok_def wf_pots_def)

lemma send_legs_run:
  assumes "e_enqueue w = (\<lambda>_. None)"
  shows "fresh_draws w (length legs) s \<Longrightarrow> pot_ok potId s \<Longrightarrow>
    length legs - length (positive_legs legs) \<le> legs_held potId s \<Longrightarrow>
    \<exists>rs t. for_each legs (send_leg w potId) s = (Inr (), t) \<and> length rs = length (positive_legs legs) \<and>
      transfersQueue t = transfersQueue s @ map2 (leg_job potId) (positive_legs legs) rs \<and>
      legs_held potId t = legs_held potId s - (length legs - length (positive_legs legs)) \<and> led t = led s"
proof (induction legs arbitrary: s)
  case Nil
  then show ?case by (simp add: positive_legs_def)
next
  case (Cons leg legs)
  have le: "length (positive_legs legs) \<le> length legs"
    by (simp add: positive_legs_def)
  show ?case
  proof (cases "0 < rl_amount leg")
    case True
    obtain r s' where s': "send_leg w potId leg s = (Inr (), s')" "fresh_draws w (length legs) s'"
      "transfersQueue s' = transfersQueue s @ [leg_job potId leg r]" "pots s' = pots s" "led s' = led s"
      using send_leg_pays[OF True assms, of "length legs" s potId] Cons.prems(1) by auto
    have held': "legs_held potId s' = legs_held potId s" "pot_ok potId s'"
      using legs_held_frame[OF s'(4)] Cons.prems(2) by auto
    have "length legs - length (positive_legs legs) \<le> legs_held potId s'"
      using Cons.prems(3) True held'(1) by (simp add: positive_legs_def)
    then obtain rs t where t: "for_each legs (send_leg w potId) s' = (Inr (), t)"
      "length rs = length (positive_legs legs)"
      "transfersQueue t = transfersQueue s' @ map2 (leg_job potId) (positive_legs legs) rs"
      "legs_held potId t = legs_held potId s' - (length legs - length (positive_legs legs))" "led t = led s'"
      using Cons.IH[OF s'(2) held'(2)] by blast
    have "positive_legs (leg # legs) = leg # positive_legs legs"
      using True by (simp add: positive_legs_def)
    then show ?thesis
      using s' t held'(1) by (intro exI[of _ "r # rs"] exI[of _ t]) (simp add: bnd_def)
  next
    case False
    then have "positive_legs (leg # legs) = positive_legs legs"
      by (simp add: positive_legs_def)
    moreover have "send_leg w potId leg s = (Inr (), run_decrement potId s)"
      using False by (intro send_leg_drops) simp
    moreover have held: "0 < legs_held potId s"
      using Cons.prems(3) calculation(1) le by simp
    moreover note ok = pot_lock.ok_release[OF Cons.prems(2)] pot_lock.release_one[OF Cons.prems(2) held]
    moreover have fresh: "fresh_draws w (length legs) (run_decrement potId s)"
      using Cons.prems(1) unfolding fresh_draws_def by (auto simp: run_decrement_frame intro: inj_on_subset)
    moreover have fits: "length legs - length (positive_legs legs) \<le> legs_held potId (run_decrement potId s)"
      using Cons.prems(3) calculation(1) le by (simp add: ok(2))
    moreover obtain rs t where "for_each legs (send_leg w potId) (run_decrement potId s) = (Inr (), t)"
      "length rs = length (positive_legs legs)"
      "transfersQueue t = transfersQueue (run_decrement potId s) @ map2 (leg_job potId) (positive_legs legs) rs"
      "legs_held potId t = legs_held potId (run_decrement potId s) - (length legs - length (positive_legs legs))"
      "led t = led (run_decrement potId s)"
      using Cons.IH[OF fresh ok(1) fits] by blast
    ultimately show ?thesis
      using le run_decrement_frame[of potId s]
      by (intro exI[of _ rs] exI[of _ t]) (simp add: bnd_def Suc_diff_le)
  qed
qed

lemma group_legs_reads: "group_legs balance tc g s = (r, t) \<Longrightarrow> t = s"
  by (cases g)
    (auto simp: group_legs_def Let_def bnd_def gets_def require_def ret_def throw_def
      split: if_splits sum.splits prod.splits)

lemma map_op_reads:
  assumes "\<And>x s r t. f x s = (r, t) \<Longrightarrow> t = s"
  shows "map_op f xs s = (r, t) \<Longrightarrow> t = s"
proof (induction xs arbitrary: r t)
  case (Cons x xs)
  then show ?case
    using assms by (auto simp: bnd_def ret_def split: prod.splits sum.splits) blast+
qed (simp add: ret_def)

lemma narrow_positive_count:
  "length (positive_legs (fst (narrowToFeeCoveredLegs legs balance))) = length (snd (narrowToFeeCoveredLegs legs balance))"
  "positive_legs (fst (narrowToFeeCoveredLegs legs balance)) = snd (narrowToFeeCoveredLegs legs balance)"
  "snd (narrowToFeeCoveredLegs legs balance) \<noteq> [] \<Longrightarrow>
   (\<Sum>leg\<leftarrow>snd (narrowToFeeCoveredLegs legs balance). rl_amount leg + OUTBOUND_FEE) = balance"
  "length (fst (narrowToFeeCoveredLegs legs balance)) = length legs"
proof -
  define marked where "marked = narrow_loop (map (\<lambda>leg. (leg, True)) legs) balance"
  have n: "fst (narrowToFeeCoveredLegs legs balance) = map fst marked" "snd (narrowToFeeCoveredLegs legs balance) = firing marked"
    by (simp_all add: narrowToFeeCoveredLegs_def Let_def marked_def)
  have pos: "\<forall>leg\<in>set (firing marked). 0 < rl_amount leg"
    using narrow_loop_exact[of "map (\<lambda>leg. (leg, True)) legs" balance]
    by (cases "firing marked = []") (auto simp: marked_def)
  show 2: "positive_legs (fst (narrowToFeeCoveredLegs legs balance)) = snd (narrowToFeeCoveredLegs legs balance)"
    unfolding positive_legs_def n by (rule filter_positive_marked[OF _ pos]) (simp add: marked_def narrow_loop_zeroed)
  then show "length (positive_legs (fst (narrowToFeeCoveredLegs legs balance))) = length (snd (narrowToFeeCoveredLegs legs balance))"
    by simp
  show "snd (narrowToFeeCoveredLegs legs balance) \<noteq> [] \<Longrightarrow>
   (\<Sum>leg\<leftarrow>snd (narrowToFeeCoveredLegs legs balance). rl_amount leg + OUTBOUND_FEE) = balance"
    using narrow_loop_exact[of "map (\<lambda>leg. (leg, True)) legs" balance]
    unfolding n by (simp add: marked_def paid_out_def)
  show "length (fst (narrowToFeeCoveredLegs legs balance)) = length legs"
    using arg_cong[OF narrow_loop_legs[of "map (\<lambda>leg. (leg, True)) legs" balance], of length]
    unfolding n by (simp add: marked_def)
qed

text \<open>How many references a refund can draw at most.\<close>

definition refund_draws :: "uuid \<Rightarrow> db \<Rightarrow> nat" where
  "refund_draws potId s = length (funded_of potId s) * Suc (length (contributionPayments s))"

lemma fresh_draws_mono: "fresh_draws w k s \<Longrightarrow> j \<le> k \<Longrightarrow> fresh_draws w j s"
  unfolding fresh_draws_def by (auto intro: inj_on_subset)

lemma length_add_row: "length (add_row row groups) \<le> Suc (length groups)"
  by (induction row groups rule: add_row.induct) auto

lemma length_group_rows: "length (group_rows funded) \<le> length funded"
proof -
  have "length (fold add_row xs gs) \<le> length xs + length gs" for xs gs
  proof (induction xs arbitrary: gs)
    case (Cons x xs)
    have "length (fold add_row xs (add_row x gs)) \<le> length xs + length (add_row x gs)"
      by (rule Cons.IH)
    then show ?case using length_add_row[of x gs] by simp
  qed simp
  from this[of funded "[]"] show ?thesis by (simp add: group_rows_def)
qed

lemma length_filter_Suc [simp]: "length (filter P xs) \<le> Suc (length xs)"
  by (simp add: le_SucI)

lemma length_group_legs: "group_legs balance tc g s = (Inr legs, t) \<Longrightarrow> length legs \<le> Suc (length (contributionPayments s))"
  by (cases g)
    (auto simp: group_legs_def Let_def bnd_Inr_iff ret_def gets_def split: if_splits)

lemma length_map_group_legs:
  "map_op (group_legs balance tc) gs s = (Inr legss, t) \<Longrightarrow>
   length (concat legss) \<le> length gs * Suc (length (contributionPayments s))"
proof (induction gs arbitrary: legss t)
  case (Cons g gs)
  from Cons.prems obtain legs s1 rest s2 where
    1: "group_legs balance tc g s = (Inr legs, s1)" "map_op (group_legs balance tc) gs s1 = (Inr rest, s2)" "legss = legs # rest"
    by (auto simp: bnd_Inr_iff)
  have "s1 = s" by (rule group_legs_reads[OF 1(1)])
  then show ?case using Cons.IH 1 length_group_legs[OF 1(1)] by fastforce
qed (simp add: ret_def)

lemma postContributorsRefund_Inr:
  assumes "postContributorsRefund w p s = (Inr u, t)" and "pot_account (pot_id p) s = Some a" and "e_gap w = id"
  obtains legs where "snd (narrowToFeeCoveredLegs legs (pot_funds (pot_id p) s)) \<noteq> []"
    and "length legs \<le> refund_draws (pot_id p) s"
    and "\<exists>s1. claimPendingOperation (pot_id p) op_refund (int (length legs)) s = (Inr True, s1) \<and>
      for_each (fst (narrowToFeeCoveredLegs legs (pot_funds (pot_id p) s))) (send_leg w (pot_id p)) s1 = (Inr u, t)"
proof -
  have acc: "in_ledger (getOrCreatePotAccount (pot_id p)) s = (Inr a, s)"
    using assms(2) by (simp add: in_ledger_run getOrCreatePotAccount_def getOrCreateAccount_existing pot_account_def)
  have funds: "pot_funds (pot_id p) s = getBalance (acc_id a) (led s)"
    by (simp add: pot_funds_def assms(2))
  let ?balance = "getBalance (acc_id a) (led s)"
  from assms(1) obtain legss s1 where
    legs: "map_op (group_legs ?balance (\<Sum>r\<leftarrow>funded_of (pot_id p) s. c_expectedAmount r)) (group_rows (funded_of (pot_id p) s)) s = (Inr legss, s1)"
    and fires: "snd (narrowToFeeCoveredLegs (concat legss) ?balance) \<noteq> []"
    and rest: "bnd (claimPendingOperation (pot_id p) op_refund (int (length (concat legss)))) (\<lambda>claimed.
          seq (require claimed in_flight_error)
          (bnd (gets (\<lambda>s. getBalance (acc_id a) (led s))) (\<lambda>freshBalance.
           for_each
             (if freshBalance \<noteq> ?balance then fst (narrowToFeeCoveredLegs (fst (narrowToFeeCoveredLegs (concat legss) ?balance)) freshBalance)
              else fst (narrowToFeeCoveredLegs (concat legss) ?balance))
             (send_leg w (pot_id p))))) s1 = (Inr u, t)"
    by (auto simp: postContributorsRefund_def claim_and_send_def narrow_positive_count(4) Let_def bnd_Inr_iff acc in_gap_def assms(3) gets_def modify_def)
  have "length (concat legss) \<le> refund_draws (pot_id p) s"
    using length_map_group_legs[OF legs] length_group_rows[of "funded_of (pot_id p) s"]
    unfolding refund_draws_def by (meson le_trans mult_le_mono1)
  note draws = this
  have "s1 = s"
    using map_op_reads[OF group_legs_reads legs] .
  moreover have "getBalance (acc_id a) (led (snd (claimPendingOperation q k n s))) = ?balance" for q k n
    by (simp add: claimPendingOperation_def Let_def)
  ultimately obtain s2 where "claimPendingOperation (pot_id p) op_refund (int (length (concat legss))) s = (Inr True, s2)"
    "for_each (fst (narrowToFeeCoveredLegs (concat legss) ?balance)) (send_leg w (pot_id p)) s2 = (Inr u, t)"
    using rest by (auto simp: bnd_Inr_iff gets_def) (metis snd_conv)+
  with fires draws show ?thesis using that[of "concat legss"] unfolding funds by blast
qed

text \<open>C6. A contributors refund reserves the pot's balance to the kobo. When it is accepted, the jobs it
  queued are fan-out refunds of this pot with positive amounts that, with one outbound fee each,
  add up to exactly the pot's balance, and the pot's lock is held for exactly as many legs as there
  are jobs: it frees when the last of them resolves, and then the pot can be closed.\<close>

theorem contributors_refund_exact:
  assumes "postContributorsRefund w p s = (Inr u, t)"
    and "wf_pots s" and "find_pot (pot_id p) s = Some cur" and "0 < pot_funds (pot_id p) s"
    and "e_gap w = id" and "e_enqueue w = (\<lambda>_. None)"
    and "fresh_draws w (refund_draws (pot_id p) s) s"
  shows "\<exists>legs refs. legs \<noteq> [] \<and> length refs = length legs \<and>
    transfersQueue t = transfersQueue s @ map2 (leg_job (pot_id p)) legs refs \<and>
    list_all (\<lambda>leg. 0 < rl_amount leg) legs \<and>
    (\<Sum>leg\<leftarrow>legs. rl_amount leg + OUTBOUND_FEE) = pot_funds (pot_id p) s \<and>
    legs_held (pot_id p) t = length legs \<and> led t = led s"
proof -
  obtain a where acc: "pot_account (pot_id p) s = Some a"
    using pot_funds_pos_account[OF assms(4)] by blast
  from postContributorsRefund_Inr[OF assms(1) acc assms(5)] obtain legs s1 where
    fires: "snd (narrowToFeeCoveredLegs legs (pot_funds (pot_id p) s)) \<noteq> []"
    and draws: "length legs \<le> refund_draws (pot_id p) s"
    and claim: "claimPendingOperation (pot_id p) op_refund (int (length legs)) s = (Inr True, s1)"
    and loop: "for_each (fst (narrowToFeeCoveredLegs legs (pot_funds (pot_id p) s))) (send_leg w (pot_id p)) s1 = (Inr u, t)"
    by blast
  let ?all = "fst (narrowToFeeCoveredLegs legs (pot_funds (pot_id p) s))"
  let ?legs = "snd (narrowToFeeCoveredLegs legs (pot_funds (pot_id p) s))"
  note n = narrow_positive_count[of legs "pot_funds (pot_id p) s"]
  have nonempty: "0 < length legs"
    using fires n(1,4) unfolding positive_legs_def by (metis length_0_conv length_filter_le length_greater_0_conv not_gr0 le_zero_eq)
  have free: "pot_pendingOperation cur = None"
    and s1: "s1 = s\<lparr>pots := update_where (\<lambda>q. pot_id q = pot_id p) (claim_lock op_refund (int (length legs))) (pots s)\<rparr>"
    using claim_run[OF assms(2,3), of op_refund "int (length legs)"] claim by (auto split: if_splits)
  have rc: "run_claim (pot_id p) op_refund (length legs) s = (True, s1)"
    by (simp add: run_claim_def claim)
  have ok: "pot_ok (pot_id p) s" "legs_held (pot_id p) s = 0"
    using assms(2,3) free by (auto simp: pot_ok_def legs_held_0)
  have held: "legs_held (pot_id p) s1 = length legs" "pot_ok (pot_id p) s1"
    using pot_lock.claim_free[OF ok nonempty, of op_refund] pot_lock.ok_claim[OF ok(1), of op_refund "length legs"]
    by (simp_all add: rc)
  have fresh: "fresh_draws w (length ?all) s1"
    using fresh_draws_mono[OF assms(7) draws] n(4) unfolding fresh_draws_def by (simp add: s1)
  have fits: "length ?all - length (positive_legs ?all) \<le> legs_held (pot_id p) s1"
    using held(1) n(4) by simp
  have le: "length ?legs \<le> length legs"
    using n(1,4) unfolding positive_legs_def by (metis length_filter_le)
  from send_legs_run[OF assms(6) fresh held(2) fits] obtain rs t' where
    t': "for_each ?all (send_leg w (pot_id p)) s1 = (Inr (), t')" "length rs = length (positive_legs ?all)"
      "transfersQueue t' = transfersQueue s1 @ map2 (leg_job (pot_id p)) (positive_legs ?all) rs"
      "legs_held (pot_id p) t' = legs_held (pot_id p) s1 - (length ?all - length (positive_legs ?all))" "led t' = led s1"
    by blast
  have "t' = t"
    using loop t'(1) by simp
  moreover have "list_all (\<lambda>leg. 0 < rl_amount leg) ?legs"
    unfolding n(2)[symmetric] positive_legs_def by (simp add: list_all_iff)
  moreover have "legs_held (pot_id p) t' = length ?legs"
    using t'(4) held(1) n(1,4) le by simp
  ultimately show ?thesis
    using fires n(3)[OF fires] t' n(1,2) by (intro exI[of _ ?legs] exI[of _ rs]) (simp add: s1)
qed

theorem contributors_refund_exact_witness:
  "map (\<lambda>job. case job of job_pot_refund j \<Rightarrow> lj_amount j | _ \<Rightarrow> 0)
     (transfersQueue (snd (postContributorsRefund example_env example_pot example_db))) = [1000, 9000] \<and>
   legs_held 7 (snd (postContributorsRefund example_env example_pot example_db)) = 2 \<and>
   (\<exists>legs :: refund_leg list. legs_held 7 (snd (postContributorsRefund example_env example_pot example_db)) = length legs \<and>
     (\<Sum>leg\<leftarrow>legs. rl_amount leg + OUTBOUND_FEE) = pot_funds 7 example_db)"
proof (intro conjI)
  show "map (\<lambda>job. case job of job_pot_refund j \<Rightarrow> lj_amount j | _ \<Rightarrow> 0)
     (transfersQueue (snd (postContributorsRefund example_env example_pot example_db))) = [1000, 9000]"
    "legs_held 7 (snd (postContributorsRefund example_env example_pot example_db)) = 2"
    by code_simp+
  have run: "fst (postContributorsRefund example_env example_pot example_db) = Inr ()" "0 < pot_funds (pot_id example_pot) example_db"
    "refund_draws (pot_id example_pot) example_db < 1000" "pot_id example_pot = 7"
    by code_simp+
  then have "postContributorsRefund example_env example_pot example_db =
      (Inr (), snd (postContributorsRefund example_env example_pot example_db))"
    by (metis prod.collapse)
  from contributors_refund_exact[OF this example_db_ok(2,3) run(2) example_db_ok(4,5) example_db_ok(6)[OF run(3)]]
  show "\<exists>legs :: refund_leg list. legs_held 7 (snd (postContributorsRefund example_env example_pot example_db)) = length legs \<and>
     (\<Sum>leg\<leftarrow>legs. rl_amount leg + OUTBOUND_FEE) = pot_funds 7 example_db"
    unfolding run(4) by blast
qed

text \<open>What happens when the queue is down: the lock has been claimed and nothing releases it.\<close>

theorem enqueue_failure_strands_lock:
  assumes "wf_ledger (led s)" and "wf_pots s" and "find_pot (pot_id p) s = Some cur"
    and "e_gap w = id" and "e_enqueue w = (\<lambda>_. Some err)"
    and "amount + OUTBOUND_FEE \<le> pot_funds (pot_id p) s" and "pot_pendingOperation cur = None"
  shows "\<exists>t. postFixedAmountDisbursement w p kind amount dest onSuccess contributor s = (Inl err, t) \<and>
    legs_held (pot_id p) t = 1 \<and> transfersQueue t = transfersQueue s"
proof -
  have held: "legs_held (pot_id p) s' = 1"
    if "pots s' = update_where (\<lambda>q. pot_id q = pot_id p) (claim_lock kind 1) (pots s)" for s'
    using that assms(3) by (simp add: legs_held_def find_pot_def claim_lock.find_if) (simp add: claim_lock_def)
  show ?thesis
    using postFixedAmountDisbursement_run[OF assms(1-4), of kind amount dest onSuccess contributor] assms(6,7) held
    by (auto simp: Let_def add_job_def assms(5) throw_def)
qed

theorem enqueue_failure_strands_lock_witness:
  "\<exists>t. postFixedAmountDisbursement (example_env\<lparr>e_enqueue := \<lambda>_. Some (PlainError ''ECONNREFUSED'')\<rparr>) example_pot op_payout 15000
     \<lparr>de_account = ''0123456789'', de_bank = ''058''\<rparr> None None example_db = (Inl (PlainError ''ECONNREFUSED''), t) \<and>
   legs_held 7 t = 1"
proof -
  have "15000 + OUTBOUND_FEE \<le> pot_funds (pot_id example_pot) example_db" "pot_pendingOperation example_pot = None"
    "pot_id example_pot = 7"
    by code_simp+
  then show ?thesis
    using enqueue_failure_strands_lock[OF example_db_ok(1-3),
        of "example_env\<lparr>e_enqueue := \<lambda>_. Some (PlainError ''ECONNREFUSED'')\<rparr>" "PlainError ''ECONNREFUSED''" 15000 op_payout]
    by (simp add: example_env_def) blast
qed

end
