(* ===== verification/Target.thy ===== *)
theory Target
  imports Disburse_Laws
begin

text \<open>
  \<open>target-based-payout.service.ts\<close>, \<open>apply-on-success.ts\<close> and
  \<open>PotsService.resolvePendingTransfer\<close>: when a target-based payout fires, what a confirmed
  transfer does to the pot's configuration, and how a webhook settles a transfer left processing.
\<close>

section \<open>Firing\<close>

datatype fire_outcome = out_fired | out_skipped | out_not_due

definition target_due :: "env \<Rightarrow> target_based_config \<Rightarrow> kobo \<Rightarrow> bool" where
  "target_due w config balance \<longleftrightarrow>
     (case tb_targetDate config of Some d \<Rightarrow> d \<le> e_now w | None \<Rightarrow> False) \<or>
     (case tb_targetAmount config of Some a \<Rightarrow> a \<le> balance | None \<Rightarrow> False)"

definition tryFire :: "env \<Rightarrow> pot \<Rightarrow> target_based_config \<Rightarrow> kobo \<Rightarrow> (db, fire_outcome) op" where
  "tryFire w p config balance =
     (if \<not> target_due w config balance then ret out_not_due
      else catch_op
        (seq (postDisbursement w p op_payout
                \<lparr>de_account = tb_destinationAccount config, de_bank = tb_destinationBank config\<rparr>
                (Some (mark_target_based_fired (tb_id config))))
         (ret out_fired))
        (\<lambda>err. ret out_skipped))"

definition stillEligible :: "target_based_config \<Rightarrow> bool" where
  "stillEligible config \<longleftrightarrow> \<not> tb_fired config \<or> (tb_fired config \<and> tb_targetDate config = None)"

text \<open>The rows of the join of configurations and their open pots.\<close>

definition open_targets :: "db \<Rightarrow> (target_based_config \<times> pot) list" where
  "open_targets s =
     concat (map (\<lambda>c. map (\<lambda>p. (c, p))
       (filter (\<lambda>p. pot_id p = tb_potId c \<and> pot_status p = pot_open \<and> stillEligible c) (pots s)))
       (targetBasedPayoutConfigs s))"

definition count_outcome :: "fire_outcome \<Rightarrow> nat \<times> nat \<Rightarrow> nat \<times> nat" where
  "count_outcome r = (\<lambda>(fired, skipped). case r of
     out_fired \<Rightarrow> (Suc fired, skipped) | out_skipped \<Rightarrow> (fired, Suc skipped) | out_not_due \<Rightarrow> (fired, skipped))"

definition fireDueTargetBasedPayouts :: "env \<Rightarrow> (db, nat \<times> nat) op" where
  "fireDueTargetBasedPayouts w =
     bnd (gets open_targets) (\<lambda>due.
     fold_op (\<lambda>(config, p) counts.
       bnd (pot_balance (pot_id p)) (\<lambda>balance.
       bnd (tryFire w p config balance) (\<lambda>outcome.
       ret (count_outcome outcome counts)))) due (0, 0))"

definition checkAndFireForPot :: "env \<Rightarrow> uuid \<Rightarrow> (db, unit) op" where
  "checkAndFireForPot w potId =
     bnd (gets (\<lambda>s. find (\<lambda>(c, p). tb_potId c = potId) (open_targets s))) (\<lambda>row.
     case row of
       None \<Rightarrow> ret ()
     | Some (config, p) \<Rightarrow>
         bnd (pot_balance potId) (\<lambda>balance.
         seq (tryFire w p config balance) (ret ())))"

section \<open>After a confirmed transfer\<close>

definition fire_config :: "time \<Rightarrow> target_based_config \<Rightarrow> target_based_config" where
  "fire_config now c = c\<lparr>tb_fired := True, tb_firedAt := Some now\<rparr>"

definition close_pot :: "time \<Rightarrow> pot \<Rightarrow> pot" where
  "close_pot now p = p\<lparr>pot_status := pot_closed, pot_closedAt := Some now, pot_updatedAt := now\<rparr>"

definition applyFired :: "env \<Rightarrow> uuid \<Rightarrow> (db, unit) op" where
  "applyFired w targetConfigId =
     seq (modify (\<lambda>s. s\<lparr>targetBasedPayoutConfigs :=
            update_where (\<lambda>c. tb_id c = targetConfigId) (fire_config (e_now w)) (targetBasedPayoutConfigs s)\<rparr>))
     (bnd (gets (\<lambda>s. find (\<lambda>c. tb_id c = targetConfigId) (targetBasedPayoutConfigs s))) (\<lambda>row.
      case row of
        None \<Rightarrow> ret ()
      | Some config \<Rightarrow>
          when_op (tb_targetDate config \<noteq> None)
            (modify (\<lambda>s. s\<lparr>pots := update_where
               (\<lambda>p. pot_id p = tb_potId config \<and> pot_status p = pot_open \<and> pot_pendingOperation p = None)
               (close_pot (e_now w)) (pots s)\<rparr>))))"

definition set_next_run :: "time \<Rightarrow> recurring_config \<Rightarrow> recurring_config" where
  "set_next_run t c = c\<lparr>rc_nextRunAt := t\<rparr>"

definition fire_leg :: "time \<Rightarrow> scheduled_leg \<Rightarrow> scheduled_leg" where
  "fire_leg now l = l\<lparr>sl_fired := True, sl_firedAt := Some now\<rparr>"

fun applyOnSuccess :: "env \<Rightarrow> DisbursementOnSuccess \<Rightarrow> (db, unit) op" where
  "applyOnSuccess w (mark_target_based_fired targetConfigId) = applyFired w targetConfigId"
| "applyOnSuccess w (advance_recurring_next_run_at recurringConfigId) =
     bnd (gets (\<lambda>s. find (\<lambda>c. rc_id c = recurringConfigId) (recurringPayoutConfigs s))) (\<lambda>row.
     case row of
       None \<Rightarrow> ret ()
     | Some config \<Rightarrow>
         modify (\<lambda>s. s\<lparr>recurringPayoutConfigs := update_where (\<lambda>c. rc_id c = rc_id config)
           (set_next_run (rc_nextRunAt config + rc_intervalDays config * 24 * 60 * 60 * 1000)) (recurringPayoutConfigs s)\<rparr>))"
| "applyOnSuccess w (mark_scheduled_leg_fired scheduledLegId) =
     modify (\<lambda>s. s\<lparr>scheduledPayoutLegs :=
       update_where (\<lambda>l. sl_id l = scheduledLegId) (fire_leg (e_now w)) (scheduledPayoutLegs s)\<rparr>)"

section \<open>Settling by webhook\<close>

datatype transfer_outcome = outcome_success | outcome_failed

definition mark_refunded :: "contribution_payment \<Rightarrow> contribution_payment" where
  "mark_refunded p = p\<lparr>cp_refunded := True\<rparr>"

definition mark_payment_refunded :: "uuid \<Rightarrow> (db, unit) op" where
  "mark_payment_refunded paymentId =
     modify (\<lambda>s. s\<lparr>contributionPayments :=
       update_where (\<lambda>p. cp_id p = paymentId) mark_refunded (contributionPayments s)\<rparr>)"

definition resolvePendingTransfer :: "env \<Rightarrow> string \<Rightarrow> transfer_outcome \<Rightarrow> (db, unit) op" where
  "resolvePendingTransfer w transactionReference outcome =
     bnd (gets (\<lambda>s. tx_lookup transactionReference (led s))) (\<lambda>row.
     case row of
       None \<Rightarrow> ret ()
     | Some t \<Rightarrow>
         if tx_status t \<noteq> tx_processing then ret ()
         else let potId = Option.bind (tx_metadata t) md_potId;
                  contributionPaymentId = Option.bind (tx_metadata t) md_contributionPaymentId in
           if potId = None \<and> contributionPaymentId = None then ret ()
           else
             seq (if outcome = outcome_success
                  then seq (in_ledger (markCompleted (e_now w) (tx_id t)))
                       (seq (case tx_onSuccess t of None \<Rightarrow> ret () | Some a \<Rightarrow> applyOnSuccess w a)
                       (case contributionPaymentId of None \<Rightarrow> ret () | Some c \<Rightarrow> mark_payment_refunded c))
                  else seq (in_ledger (reverseTransaction (e_now w) (tx_id t) (tx_reference t @ ''_reversal''))) (ret ()))
             (case potId of None \<Rightarrow> ret () | Some p \<Rightarrow> decrementPendingOperationLeg p))"

section \<open>What settling does\<close>

lemma resolve_wf: "preserves (\<lambda>s. wf_ledger (led s)) (resolvePendingTransfer w r outcome)"
proof -
  have side: "preserves (\<lambda>s. wf_ledger (led s)) (applyOnSuccess w a)" for a
    by (cases a; simp add: applyFired_def) (intro preserves_intros preserves_modify; simp)+
  have inl: "preserves wf_ledger m \<Longrightarrow> preserves (\<lambda>s. wf_ledger (led s)) (in_ledger m)" for m :: "(ledger, 'b) op"
    by (simp add: preserves_def in_ledger_run)
  show ?thesis
    unfolding resolvePendingTransfer_def Let_def mark_payment_refunded_def decrementPendingOperationLeg_def clearPendingOperation_def
    by (intro preserves_intros inl wf_markCompleted wf_reverseTransaction side preserves_modify) simp_all
qed

subsection \<open>The ledger is left alone by everything but the posting\<close>

lemma led_untouched:
  "untouched led (applyFired w c)" "untouched led (applyOnSuccess w a)"
  "untouched led (mark_payment_refunded i)" "untouched led (decrementPendingOperationLeg q)"
  "untouched led (clearPendingOperation q)"
proof -
  show fired: "untouched led (applyFired w c)" for c
    unfolding applyFired_def by (intro untouchedI preserves_intros preserves_modify) simp_all
  show "untouched led (applyOnSuccess w a)"
    by (cases a; simp add: fired) (intro untouchedI preserves_intros preserves_modify; simp)+
  show "untouched led (mark_payment_refunded i)"
    unfolding mark_payment_refunded_def by (intro untouchedI preserves_modify) simp
  show clear: "untouched led (clearPendingOperation q)" for q
    unfolding clearPendingOperation_def by (intro untouchedI preserves_modify) simp
  show "untouched led (decrementPendingOperationLeg q)"
    unfolding decrementPendingOperationLeg_def
    by (intro untouchedI preserves_intros preserves_modify clear[unfolded untouched_def, rule_format]) simp
qed

lemma tx_lookup_update:
  assumes "\<And>t. tx_reference (f t) = tx_reference t"
  shows "tx_lookup r (l\<lparr>transactions := update_where Q f (transactions l)\<rparr>) =
    map_option (\<lambda>t. if Q t then f t else t) (tx_lookup r l)"
  by (simp add: tx_lookup_def find_update_where assms)

lemma status_updates [simp]:
  "tx_reference (complete_at now t) = tx_reference t" "tx_reference (set_status st t) = tx_reference t"
  "tx_id (complete_at now t) = tx_id t" "tx_id (set_status st t) = tx_id t"
  "tx_status (complete_at now t) = tx_completed" "tx_status (set_status st t) = st"
  by (simp_all add: complete_at_def set_status_def)

lemma markCompleted_run:
  assumes "tx_lookup r l = Some t" and "wf_ledger l"
  shows "\<exists>t' l'. markCompleted now (tx_id t) l = (Inr t', l') \<and>
    l' = l\<lparr>transactions := update_where (\<lambda>x. tx_id x = tx_id t) (complete_at now) (transactions l)\<rparr> \<and>
    tx_lookup r l' = Some (complete_at now t)"
proof -
  have t: "t \<in> set (transactions l)"
    using assms(1) find_SomeD by (fastforce simp: tx_lookup_def)
  have "find (\<lambda>x. tx_id x = tx_id t) (transactions l) = Some t"
    by (rule find_key_SomeI[OF wf_ledgerD(2)[OF assms(2)] t])
  then show ?thesis
    by (simp add: markCompleted_def bnd_def modify_def gets_def complete_at.find_same ret_def
        tx_lookup_update assms(1))
qed

lemma reverseTransaction_lookup:
  assumes "tx_lookup r l = Some t" and "wf_ledger l"
    and "reverseTransaction now (tx_id t) ref l = (Inr t2, l2)"
  shows "\<exists>t'. tx_lookup r l2 = Some t' \<and> tx_status t' = tx_reversed"
proof -
  have t: "t \<in> set (transactions l)" "tx_reference t = r"
    using assms(1) find_SomeD by (fastforce simp: tx_lookup_def)+
  have f: "find (\<lambda>x. tx_id x = tx_id t) (transactions l) = Some t"
    by (rule find_key_SomeI[OF wf_ledgerD(2)[OF assms(2)] t(1)])
  from assms(3) obtain l1 where
    run: "postTransaction now (reversal_input t ref l) l = (Inr t2, l1)"
    and l2: "l2 = l1\<lparr>transactions := update_where (\<lambda>x. tx_id x = tx_id t) (set_status tx_reversed) (transactions l1)\<rparr>"
    by (auto simp: reverseTransaction_eq[OF f] split: prod.splits sum.splits)
  have "tx_lookup r l1 = Some t"
    using run
  proof (cases rule: postTransaction_cases)
    case (posts t')
    then show ?thesis
      using assms(1) by (simp add: posted_def tx_lookup_def find_append)
  qed (use assms(1) in simp_all)
  then show ?thesis
    unfolding l2 by (simp add: tx_lookup_update)
qed

subsection \<open>A webhook settles a transfer once\<close>

lemma resolve_settled:
  assumes "case tx_lookup r (led s) of None \<Rightarrow> True | Some t \<Rightarrow> tx_status t \<noteq> tx_processing"
  shows "resolvePendingTransfer w r outcome s = (Inr (), s)"
  using assms by (cases "tx_lookup r (led s)") (simp_all add: resolvePendingTransfer_def ret_def)

text \<open>The two outcomes of a transfer that is still processing.\<close>

definition pot_of :: "transaction \<Rightarrow> uuid option" where
  "pot_of t = Option.bind (tx_metadata t) md_potId"

definition payment_of :: "transaction \<Rightarrow> uuid option" where
  "payment_of t = Option.bind (tx_metadata t) md_contributionPaymentId"

definition release_leg :: "transaction \<Rightarrow> (db, unit) op" where
  "release_leg t = (case pot_of t of None \<Rightarrow> ret () | Some p \<Rightarrow> decrementPendingOperationLeg p)"

definition after_success :: "env \<Rightarrow> transaction \<Rightarrow> (db, unit) op" where
  "after_success w t =
     seq (case tx_onSuccess t of None \<Rightarrow> ret () | Some a \<Rightarrow> applyOnSuccess w a)
     (seq (case payment_of t of None \<Rightarrow> ret () | Some c \<Rightarrow> mark_payment_refunded c)
     (release_leg t))"

lemma untouched_seq: "untouched f m \<Longrightarrow> (\<And>x. untouched f (g x)) \<Longrightarrow> untouched f (bnd m g)"
  by (simp add: untouched_def preserves_bnd)

lemma untouched_ret: "untouched f (ret x)"
  by (intro untouchedI preserves_ret)

lemma led_untouched_settling: "untouched led (after_success w t)" "untouched led (release_leg t)"
  unfolding after_success_def release_leg_def
  by (cases "tx_onSuccess t"; cases "payment_of t"; cases "pot_of t";
      simp add: led_untouched untouched_ret untouched_seq)+

lemma resolve_unfold:
  assumes "tx_lookup r (led s) = Some t" and "tx_status t = tx_processing"
    and "\<not> (pot_of t = None \<and> payment_of t = None)"
  shows "resolvePendingTransfer w r outcome s =
    seq (if outcome = outcome_success
         then seq (in_ledger (markCompleted (e_now w) (tx_id t)))
              (seq (case tx_onSuccess t of None \<Rightarrow> ret () | Some a \<Rightarrow> applyOnSuccess w a)
              (case payment_of t of None \<Rightarrow> ret () | Some c \<Rightarrow> mark_payment_refunded c))
         else seq (in_ledger (reverseTransaction (e_now w) (tx_id t) (r @ ''_reversal''))) (ret ()))
    (release_leg t) s"
proof -
  have "tx_reference t = r"
    using assms(1) find_SomeD by (fastforce simp: tx_lookup_def)
  then show ?thesis
    unfolding resolvePendingTransfer_def release_leg_def bnd_gets assms(1) option.case Let_def
      pot_of_def[symmetric] payment_of_def[symmetric] if_not_P[OF assms(3)] assms(2) by simp
qed

lemma resolve_success:
  assumes "tx_lookup r (led s) = Some t" and "tx_status t = tx_processing"
    and "\<not> (pot_of t = None \<and> payment_of t = None)" and "wf_ledger (led s)"
  shows "resolvePendingTransfer w r outcome_success s =
    after_success w t (s\<lparr>led := (led s)\<lparr>transactions :=
      update_where (\<lambda>x. tx_id x = tx_id t) (complete_at (e_now w)) (transactions (led s))\<rparr>\<rparr>)"
proof -
  from markCompleted_run[OF assms(1,4), of "e_now w"] obtain t' where
    "in_ledger (markCompleted (e_now w) (tx_id t)) s =
      (Inr t', s\<lparr>led := (led s)\<lparr>transactions := update_where (\<lambda>x. tx_id x = tx_id t) (complete_at (e_now w)) (transactions (led s))\<rparr>\<rparr>)"
    by (auto simp: in_ledger_run)
  then show ?thesis
    unfolding resolve_unfold[OF assms(1-3)] after_success_def by (simp add: bnd_assoc) (simp add: bnd_def)
qed

lemma resolve_failed:
  assumes "tx_lookup r (led s) = Some t" and "tx_status t = tx_processing"
    and "\<not> (pot_of t = None \<and> payment_of t = None)"
  shows "resolvePendingTransfer w r outcome_failed s =
    (case reverseTransaction (e_now w) (tx_id t) (r @ ''_reversal'') (led s) of
       (Inl e, l) \<Rightarrow> (Inl e, s\<lparr>led := l\<rparr>)
     | (Inr t', l) \<Rightarrow> release_leg t (s\<lparr>led := l\<rparr>))"
  unfolding resolve_unfold[OF assms]
  by (simp add: bnd_def in_ledger_run ret_def split: prod.split sum.split)

text \<open>A payout of N100 from the example pot, still processing.\<close>

definition example_payout :: PostTransactionInput where
  "example_payout = \<lparr>pi_type = ty_payout, pi_reference = ''p'',
     pi_entries = outboundFeeLegs \<lparr>fa_sourceId = 2, fa_platformFloatId = 1, fa_platformRevenueId = 3,
        fa_nombaFeeExpenseId = 4, fa_nombaClearingId = 5\<rparr> 10000,
     pi_amount = 10000, pi_externalReference = None, pi_metadata = Some (no_metadata\<lparr>md_potId := Some 7\<rparr>),
     pi_status = Some tx_processing, pi_onSuccess = None\<rparr>"

definition settling_db :: db where
  "settling_db = empty_db\<lparr>pots := [claim_lock op_payout 1 example_pot],
     led := run_calls [GetOrCreate [] platform_float None, GetOrCreate [] pot_owner (Some 7),
              GetOrCreate [] platform_revenue None, GetOrCreate [] nomba_fee_expense None,
              GetOrCreate [] nomba_clearing None, Post [] 0 example_funding, Post [] 0 example_payout] empty_ledger\<rparr>"

lemma settling_db_wf: "wf_ledger (led settling_db)"
  unfolding settling_db_def using wf_run_calls(2)[OF wf_empty_ledger] by (simp del: run_calls.simps)

text \<open>C7. A transfer is settled once. After a webhook has settled a transfer, every further delivery for
  the same reference, whatever outcome it reports, changes nothing: the money is never put back
  twice, the lock never released twice, the side effect never applied twice.\<close>

theorem settle_once:
  assumes "wf_ledger (led s)" and "resolvePendingTransfer w reference outcome s = (Inr u, s')"
  shows "resolvePendingTransfer w' reference outcome' s' = (Inr (), s')"
proof (cases "tx_lookup reference (led s)")
  case None
  then show ?thesis using assms(2) resolve_settled[of reference s] by auto
next
  case (Some t)
  consider "tx_status t \<noteq> tx_processing" | "pot_of t = None" "payment_of t = None"
    | "tx_status t = tx_processing" "\<not> (pot_of t = None \<and> payment_of t = None)" by auto
  then show ?thesis
  proof cases
    case 1
    then show ?thesis using Some assms(2) resolve_settled[of reference s] by auto
  next
    case 2
    then have "resolvePendingTransfer v reference out s = (Inr (), s)" for v out
      using Some by (simp add: resolvePendingTransfer_def pot_of_def payment_of_def Let_def ret_def)
    then show ?thesis using assms(2) by simp
  next
    case 3
    have "case tx_lookup reference (led s') of None \<Rightarrow> True | Some t' \<Rightarrow> tx_status t' \<noteq> tx_processing"
    proof (cases outcome)
      case outcome_success
      from assms(2) have "led s' = (led s)\<lparr>transactions :=
          update_where (\<lambda>x. tx_id x = tx_id t) (complete_at (e_now w)) (transactions (led s))\<rparr>"
        unfolding outcome_success resolve_success[OF Some 3 assms(1)]
        using untouchedD[OF led_untouched_settling(1)] by fastforce
      then show ?thesis using Some by (simp add: tx_lookup_update)
    next
      case outcome_failed
      from assms(2) obtain t' l where rev: "reverseTransaction (e_now w) (tx_id t) (reference @ ''_reversal'') (led s) = (Inr t', l)"
        and "release_leg t (s\<lparr>led := l\<rparr>) = (Inr u, s')"
        unfolding outcome_failed resolve_failed[OF Some 3] by (auto split: prod.splits sum.splits)
      then have "led s' = l" using untouchedD[OF led_untouched_settling(2)] by fastforce
      then show ?thesis using reverseTransaction_lookup[OF Some assms(1) rev] by auto
    qed
    then show ?thesis by (rule resolve_settled)
  qed
qed

theorem settle_once_witness:
  "\<exists>s'. resolvePendingTransfer example_env ''p'' outcome_failed settling_db = (Inr (), s') \<and>
     getBalance 2 (led s') = 20000 \<and> resolvePendingTransfer example_env ''p'' outcome_failed s' = (Inr (), s')"
proof -
  have run: "fst (resolvePendingTransfer example_env ''p'' outcome_failed settling_db) = Inr ()"
    "getBalance 2 (led (snd (resolvePendingTransfer example_env ''p'' outcome_failed settling_db))) = 20000"
    by code_simp+
  then have eq: "resolvePendingTransfer example_env ''p'' outcome_failed settling_db =
      (Inr (), snd (resolvePendingTransfer example_env ''p'' outcome_failed settling_db))"
    by (metis prod.collapse)
  from settle_once[OF settling_db_wf eq] eq run(2) show ?thesis by blast
qed

subsection \<open>A failed transfer\<close>

lemma release_leg_run:
  "pot_of t = Some q \<Longrightarrow> release_leg t s = (Inr (), run_decrement q s)"
  by (simp add: release_leg_def run_decrement_def decrementPendingOperationLeg_def bnd_def modify_def gets_def
      when_op_def ret_def clearPendingOperation_def)

text \<open>A transfer Nomba reports as failed puts the money back. The reversal returns every account,
  the pot's first, exactly what the transfer's own entries took from it, the transaction ends up
  reversed, and the pot's lock is held for one leg less.\<close>

lemma failed_transfer_restores:
  assumes "wf_ledger (led s)" and "tx_lookup reference (led s) = Some t" and "tx_status t = tx_processing"
    and "pot_of t = Some q" and "tx_lookup (reference @ ''_reversal'') (led s) = None"
    and "pot_ok q s" and "0 < legs_held q s"
    and "resolvePendingTransfer w reference outcome_failed s = (Inr u, s')"
  shows "(\<forall>a. getBalance a (led s') = getBalance a (led s) - row_delta (accounts (led s)) (entries_of (tx_id t) (led s)) a) \<and>
    map_option tx_status (tx_lookup reference (led s')) = Some tx_reversed \<and>
    legs_held q s' = legs_held q s - 1"
proof -
  have ids: "\<not> (pot_of t = None \<and> payment_of t = None)"
    using assms(4) by simp
  have t: "t \<in> set (transactions (led s))"
    using assms(2) find_SomeD by (fastforce simp: tx_lookup_def)
  have found: "find (\<lambda>x. tx_id x = tx_id t) (transactions (led s)) = Some t"
    by (rule find_key_SomeI[OF wf_ledgerD(2)[OF assms(1)] t])
  from assms(8) obtain t2 l where rev: "reverseTransaction (e_now w) (tx_id t) (reference @ ''_reversal'') (led s) = (Inr t2, l)"
    and "release_leg t (s\<lparr>led := l\<rparr>) = (Inr u, s')"
    unfolding resolve_failed[OF assms(2,3) ids] by (auto split: prod.splits sum.splits)
  then have s': "s' = run_decrement q (s\<lparr>led := l\<rparr>)"
    by (simp add: release_leg_run[OF assms(4)])
  have held: "legs_held q (s\<lparr>led := l\<rparr>) = legs_held q s" "pot_ok q (s\<lparr>led := l\<rparr>) = pot_ok q s"
    by (rule legs_held_frame; simp)+
  have "led s' = l"
    by (simp add: s' run_decrement_frame)
  moreover have "legs_held q s' = legs_held q s - 1"
    using pot_lock.release_one[of q "s\<lparr>led := l\<rparr>"] assms(6,7) unfolding s' by (simp add: held)
  ultimately show ?thesis
    using reverseTransaction_balance[OF found assms(5) rev] reverseTransaction_lookup[OF assms(2,1) rev] by auto
qed

lemma failed_transfer_restores_witness:
  "getBalance 2 (led settling_db) = 5000 \<and>
   getBalance 2 (led (snd (resolvePendingTransfer example_env ''p'' outcome_failed settling_db))) =
     5000 - row_delta (accounts (led settling_db)) (entries_of 2 (led settling_db)) 2 \<and>
   legs_held 7 (snd (resolvePendingTransfer example_env ''p'' outcome_failed settling_db)) = 0"
proof -
  let ?s' = "snd (resolvePendingTransfer example_env ''p'' outcome_failed settling_db)"
  have "fst (resolvePendingTransfer example_env ''p'' outcome_failed settling_db) = Inr ()"
    by code_simp
  then have run: "resolvePendingTransfer example_env ''p'' outcome_failed settling_db = (Inr (), ?s')"
    by (metis prod.collapse)
  have "map_option (\<lambda>t. (tx_id t, tx_status t, pot_of t)) (tx_lookup ''p'' (led settling_db)) = Some (2, tx_processing, Some 7)"
    "tx_lookup (''p'' @ ''_reversal'') (led settling_db) = None" "legs_held 7 settling_db = 1"
    "getBalance 2 (led settling_db) = 5000"
    by code_simp+
  moreover have "pot_ok 7 settling_db"
    by (simp add: pot_ok_def wf_pots_def find_pot_def settling_db_def claim_lock_def example_pot_def)
  moreover from calculation(1) obtain t where "tx_lookup ''p'' (led settling_db) = Some t" "tx_id t = 2"
    "tx_status t = tx_processing" "pot_of t = Some 7"
    by auto
  ultimately show ?thesis
    using failed_transfer_restores[OF settling_db_wf, of "''p''" t 7 example_env "()" ?s'] run by auto
qed

subsection \<open>Two ways a target-dated pot goes wrong\<close>

interpretation close_pot: keyed_update pot_id "close_pot now" for now
  by unfold_locales (simp add: close_pot_def)

interpretation fire_config: keyed_update tb_id "fire_config now" for now
  by unfold_locales (simp add: fire_config_def)

lemma find_pot_update_where:
  assumes "\<And>p. pot_id (f p) = pot_id p"
  shows "find_pot q (s\<lparr>pots := update_where Q f (pots s)\<rparr>) = map_option (\<lambda>p. if Q p then f p else p) (find_pot q s)"
  by (simp add: find_pot_def find_update_where assms)

lemma applyFired_run:
  assumes "find (\<lambda>c. tb_id c = i) (targetBasedPayoutConfigs s) = Some config" and "tb_targetDate config = Some d"
  shows "applyFired w i s = (Inr (), s\<lparr>
      targetBasedPayoutConfigs := update_where (\<lambda>c. tb_id c = i) (fire_config (e_now w)) (targetBasedPayoutConfigs s),
      pots := update_where (\<lambda>p. pot_id p = tb_potId config \<and> pot_status p = pot_open \<and> pot_pendingOperation p = None)
               (close_pot (e_now w)) (pots s)\<rparr>)"
  using assms
  by (simp add: applyFired_def bnd_def modify_def gets_def fire_config.find_same when_op_def)
    (simp add: fire_config_def)

text \<open>
  A target-dated pot whose final payout settles by webhook never closes: the side effect runs while
  the lock is still held, so the closing update matches nothing; the configuration counts as fired and
  is not eligible again.
\<close>

theorem webhook_settlement_leaves_pot_open:
  assumes "wf_ledger (led s)" and "tx_lookup reference (led s) = Some t" and "tx_status t = tx_processing"
    and "pot_of t = Some q" and "payment_of t = None" and "tx_onSuccess t = Some (mark_target_based_fired i)"
    and "find (\<lambda>c. tb_id c = i) (targetBasedPayoutConfigs s) = Some config"
    and "tb_potId config = q" and "tb_targetDate config = Some d"
    and "find_pot q s = Some p" and "pot_status p = pot_open" and "pot_pendingOperation p = Some operation"
  shows "\<exists>s' p' config'. resolvePendingTransfer w reference outcome_success s = (Inr (), s') \<and>
    find_pot q s' = Some p' \<and> pot_status p' = pot_open \<and>
    find (\<lambda>c. tb_id c = i) (targetBasedPayoutConfigs s') = Some config' \<and> \<not> stillEligible config'"
proof -
  have ids: "\<not> (pot_of t = None \<and> payment_of t = None)"
    using assms(4) by simp
  define s1 where "s1 = s\<lparr>led := (led s)\<lparr>transactions :=
      update_where (\<lambda>x. tx_id x = tx_id t) (complete_at (e_now w)) (transactions (led s))\<rparr>\<rparr>"
  have c1: "find (\<lambda>c. tb_id c = i) (targetBasedPayoutConfigs s1) = Some config"
    using assms(7) by (simp add: s1_def)
  define s2 where "s2 = s1\<lparr>targetBasedPayoutConfigs :=
      update_where (\<lambda>c. tb_id c = i) (fire_config (e_now w)) (targetBasedPayoutConfigs s1),
      pots := update_where (\<lambda>p. pot_id p = tb_potId config \<and> pot_status p = pot_open \<and> pot_pendingOperation p = None)
               (close_pot (e_now w)) (pots s1)\<rparr>"
  have p2: "find_pot q s2 = Some p"
  proof -
    have "find_pot q s1 = Some p" using assms(10) by (simp add: s1_def)
    then show ?thesis
      using assms(12) by (simp add: s2_def find_pot_def find_update_where close_pot_def)
  qed
  have "resolvePendingTransfer w reference outcome_success s = (Inr (), run_decrement q s2)"
    unfolding resolve_success[OF assms(2,3) ids assms(1)] s1_def[symmetric] after_success_def assms(5,6)
    using applyFired_run[OF c1 assms(9), of w] by (simp add: bnd_def s2_def ret_def release_leg_run[OF assms(4)])
  moreover have "find_pot q (run_decrement q s2) =
      Some (if pot_pendingOperationLegCount (dec_lock p) = Some 0 then clear_lock (dec_lock p) else dec_lock p)"
    by (rule find_pot_run_decrement[OF p2])
  moreover have "targetBasedPayoutConfigs (run_decrement q s2) = targetBasedPayoutConfigs s2"
    by (simp add: run_decrement_eq[OF p2])
  moreover have "find (\<lambda>c. tb_id c = i) (targetBasedPayoutConfigs s2) = Some (fire_config (e_now w) config)"
    by (simp add: s2_def fire_config.find_same c1)
  moreover have "\<not> stillEligible (fire_config (e_now w) config)"
    by (simp add: stillEligible_def fire_config_def assms(9))
  ultimately show ?thesis
    using assms(11)
    by (intro exI[of _ "run_decrement q s2"] exI[of _ "fire_config (e_now w) config"]
        exI[of _ "if pot_pendingOperationLegCount (dec_lock p) = Some 0 then clear_lock (dec_lock p) else dec_lock p"])
      (simp add: clear_lock_def dec_lock_def)
qed

text \<open>
  And the closing update does not look at the balance: money that reached the pot after the final
  payout was enqueued stays in a closed pot, which accepts neither payout nor refund.
\<close>

theorem target_close_strands_money:
  assumes "find (\<lambda>c. tb_id c = i) (targetBasedPayoutConfigs s) = Some config" and "tb_targetDate config = Some d"
    and "find_pot (tb_potId config) s = Some p" and "pot_status p = pot_open" and "pot_pendingOperation p = None"
  shows "\<exists>s' p'. applyOnSuccess w (mark_target_based_fired i) s = (Inr (), s') \<and>
    find_pot (tb_potId config) s' = Some p' \<and> pot_status p' = pot_closed \<and>
    pot_funds (tb_potId config) s' = pot_funds (tb_potId config) s"
proof -
  let ?s' = "s\<lparr>targetBasedPayoutConfigs := update_where (\<lambda>c. tb_id c = i) (fire_config (e_now w)) (targetBasedPayoutConfigs s),
      pots := update_where (\<lambda>p. pot_id p = tb_potId config \<and> pot_status p = pot_open \<and> pot_pendingOperation p = None)
               (close_pot (e_now w)) (pots s)\<rparr>"
  have "pot_id p = tb_potId config"
    using find_SomeD[OF assms(3)[unfolded find_pot_def]] by simp
  then have "find_pot (tb_potId config) ?s' = Some (close_pot (e_now w) p)"
    using assms(3-5) by (simp add: find_pot_def find_update_where close_pot_def)
  moreover have "pot_funds (tb_potId config) ?s' = pot_funds (tb_potId config) s"
    by (simp add: pot_funds_def pot_account_def split: option.split)
  ultimately show ?thesis
    using applyFired_run[OF assms(1,2), of w] by (intro exI[of _ ?s'] exI[of _ "close_pot (e_now w) p"]) (simp add: close_pot_def)
qed

end
