(* ===== verification/Worker.thy ===== *)
theory Worker
  imports Target
begin

text \<open>
  The transfers worker (\<open>workers/worker.ts\<close>): processing one job posts the ledger transaction, calls
  Nomba, and resolves, reverses or leaves pending. Each \<open>try ... catch\<close> of the code is a
  \<open>catch_op\<close>; the variable \<open>transaction\<close>, unset until the posting returns, splits the body in
  the part before it and the part after it.
\<close>

section \<open>Messages\<close>

text \<open>The \<open>message\<close> of an error.\<close>

fun message :: "error \<Rightarrow> string" where
  "message (PotError m _) = m"
| "message (LedgerError m _) = m"
| "message UnbalancedTransactionError = ''Transaction entries are not balanced: debits must equal credits''"
| "message (DuplicateTransactionReferenceError _) = ''A transaction with this reference already exists''"
| "message (InsufficientBalanceError _) = ''This account does not have sufficient balance for this operation''"
| "message (AuthError m _) = m"
| "message (RateLimitError m _) = m"
| "message AccountVerificationError = ''Could not verify account details with the bank''"
| "message (NombaApiError m _) = m"
| "message (WebhookVerificationError m) = m"
| "message (UnrecoverableError m) = m"
| "message (PlainError m) = m"
| "message _ = ''''"

definition is_UnrecoverableError :: "error \<Rightarrow> bool" where
  "is_UnrecoverableError err = (case err of UnrecoverableError _ \<Rightarrow> True | _ \<Rightarrow> False)"

definition is_InsufficientBalanceError :: "error \<Rightarrow> bool" where
  "is_InsufficientBalanceError err = (case err of InsufficientBalanceError _ \<Rightarrow> True | _ \<Rightarrow> False)"

text \<open>\<open>!(err instanceof NombaApiError) || err.status !== 0\<close>\<close>

definition confirmedNotExecuted :: "error \<Rightarrow> bool" where
  "confirmedNotExecuted err = (case err of NombaApiError _ status \<Rightarrow> status \<noteq> 0 | _ \<Rightarrow> True)"

section \<open>Calling Nomba\<close>

text \<open>The call is recorded whether or not an answer comes back: the request has left. Its amount is recorded as the text
  that the code passes through \<open>Number\<close> (\<open>Schema.transfer_params\<close>).\<close>

definition callNomba :: "env \<Rightarrow> kobo \<Rightarrow> string \<Rightarrow> string \<Rightarrow> string \<Rightarrow> string \<Rightarrow> string \<Rightarrow> (db, transfer_status) op" where
  "callNomba w amount account bank reference narration accountName =
     (let params = \<lparr>tp_amountNaira = koboToNairaString amount, tp_accountNumber = account,
            tp_accountName = accountName, tp_bankCode = bank, tp_merchantTxRef = reference,
            tp_senderName = ''Glasspot'', tp_narration = narration\<rparr>
      in seq (modify (\<lambda>s. s\<lparr>nombaTransfers := nombaTransfers s @ [params]\<rparr>))
         (from_sum (e_transferToBankAccount w params)))"

definition releaseLock :: "ledger_job \<Rightarrow> (db, unit) op" where
  "releaseLock data =
     (if lj_isFanOutLeg data then decrementPendingOperationLeg (lj_potId data)
      else clearPendingOperation (lj_potId data))"

definition fee_accounts_of :: "account \<Rightarrow> (db, fee_accounts) op" where
  "fee_accounts_of source =
     bnd (in_ledger (getOrCreateSystemAccount platform_float)) (\<lambda>platformFloat.
     bnd (in_ledger (getOrCreateSystemAccount platform_revenue)) (\<lambda>platformRevenue.
     bnd (in_ledger (getOrCreateSystemAccount nomba_fee_expense)) (\<lambda>nombaFeeExpense.
     bnd (in_ledger (getOrCreateSystemAccount nomba_clearing)) (\<lambda>nombaClearing.
     ret \<lparr>fa_sourceId = acc_id source, fa_platformFloatId = acc_id platformFloat,
          fa_platformRevenueId = acc_id platformRevenue, fa_nombaFeeExpenseId = acc_id nombaFeeExpense,
          fa_nombaClearingId = acc_id nombaClearing\<rparr>))))"

text \<open>\<open>LedgerService.markCompleted\<close> as the worker calls it: the database may fail here, after Nomba
  has confirmed.\<close>

definition complete_or_fault :: "env \<Rightarrow> uuid \<Rightarrow> (db, unit) op" where
  "complete_or_fault w transactionId =
     (case e_completionFault w of
        Some err \<Rightarrow> throw err
      | None \<Rightarrow> seq (in_ledger (markCompleted (e_now w) transactionId)) (ret ()))"

section \<open>Payouts and pot refunds\<close>

fun status_text :: "transfer_status \<Rightarrow> string" where
  "status_text SUCCESS = ''SUCCESS''"
| "status_text PENDING_BILLING = ''PENDING_BILLING''"
| "status_text (FAILURE_CODE c) = c"

definition disbursement_input :: "pending_operation \<Rightarrow> ledger_job \<Rightarrow> fee_accounts \<Rightarrow> string \<Rightarrow> PostTransactionInput" where
  "disbursement_input kind data accs accountName =
     \<lparr>pi_type = (if kind = op_payout then ty_payout else ty_refund), pi_reference = lj_reference data,
      pi_entries = outboundFeeLegs accs (lj_amount data), pi_amount = lj_amount data,
      pi_externalReference = None,
      pi_metadata = Some (no_metadata\<lparr>md_potId := Some (lj_potId data),
         md_contributorUserId := lj_contributorUserId data, md_destinationAccountName := Some accountName\<rparr>),
      pi_status = Some tx_processing, pi_onSuccess = lj_onSuccess data\<rparr>"

definition reverse_and_release :: "env \<Rightarrow> ledger_job \<Rightarrow> uuid \<Rightarrow> (db, unit) op" where
  "reverse_and_release w data transactionId =
     seq (in_ledger (reverseTransaction (e_now w) transactionId (lj_reference data @ ''_reversal'')))
     (releaseLock data)"

text \<open>The body of the \<open>try\<close> from the call to Nomba on.\<close>

definition transfer_and_settle :: "env \<Rightarrow> pending_operation \<Rightarrow> ledger_job \<Rightarrow> string \<Rightarrow> transaction \<Rightarrow> (db, transaction) op" where
  "transfer_and_settle w kind data accountName t =
     seq (modify (\<lambda>s. s\<lparr>pots := update_where (\<lambda>p. pot_id p = lj_potId data)
            (\<lambda>p. p\<lparr>pot_pendingOperationTransactionId := Some (tx_id t)\<rparr>) (pots s)\<rparr>))
     (bnd (callNomba w (lj_amount data) (lj_destinationAccount data) (lj_destinationBank data) (lj_reference data)
             ((if kind = op_refund then ''Glasspot refund for pot '' else ''Glasspot payout for pot '')
                @ uuid_text (lj_potId data)) accountName) (\<lambda>status.
      seq (case status of
             SUCCESS \<Rightarrow>
               seq (complete_or_fault w (tx_id t))
               (seq (releaseLock data)
               (case lj_onSuccess data of None \<Rightarrow> ret () | Some a \<Rightarrow> applyOnSuccess w a))
           | PENDING_BILLING \<Rightarrow> ret ()
           | FAILURE_CODE c \<Rightarrow>
               seq (reverse_and_release w data (tx_id t))
               (throw (UnrecoverableError (''Transfer for '' @ lj_reference data
                  @ '' came back with a definitive failure status: '' @ c))))
      (ret t)))"

text \<open>The \<open>catch\<close>, before and after \<open>transaction\<close> is set.\<close>

definition failed_before_posting :: "ledger_job \<Rightarrow> error \<Rightarrow> (db, transaction) op" where
  "failed_before_posting data err =
     (if is_UnrecoverableError err then throw err
      else seq (releaseLock data)
        (if is_InsufficientBalanceError err then throw (UnrecoverableError (message err)) else throw err))"

definition failed_after_posting :: "env \<Rightarrow> ledger_job \<Rightarrow> transaction \<Rightarrow> error \<Rightarrow> (db, transaction) op" where
  "failed_after_posting w data t err =
     (if is_UnrecoverableError err then throw err
      else if confirmedNotExecuted err
      then seq (reverse_and_release w data (tx_id t))
           (throw (UnrecoverableError (''Transfer for '' @ lj_reference data
              @ '' was confirmed rejected by Nomba: '' @ message err)))
      else throw err)"

definition attempt_disbursement ::
  "env \<Rightarrow> pending_operation \<Rightarrow> ledger_job \<Rightarrow> fee_accounts \<Rightarrow> string \<Rightarrow> (db, transaction) op" where
  "attempt_disbursement w kind data accs accountName =
     bnd (catch_op (in_ledger (postTransaction (e_now w) (disbursement_input kind data accs accountName)))
            (failed_before_posting data)) (\<lambda>t.
     catch_op (transfer_and_settle w kind data accountName t) (failed_after_posting w data t))"

definition processLedgerDisbursement :: "env \<Rightarrow> pending_operation \<Rightarrow> ledger_job \<Rightarrow> (db, transaction) op" where
  "processLedgerDisbursement w kind data =
     bnd (in_ledger (getOrCreatePotAccount (lj_potId data))) (\<lambda>potAccount.
     bnd (fee_accounts_of potAccount) (\<lambda>accs.
     bnd (gets (\<lambda>s. getBalance (acc_id potAccount) (led s))) (\<lambda>balance.
     if balance < lj_amount data + OUTBOUND_FEE
     then seq (releaseLock data)
          (throw (UnrecoverableError (''Pot '' @ uuid_text (lj_potId data) @ '' balance insufficient for ''
             @ (if kind = op_payout then ''payout'' else ''pot_refund'') @ '' of '' @ show_int (lj_amount data)
             @ '' kobo plus the N50 outbound fee'')))
     else
       bnd (gets (\<lambda>s. tx_lookup (lj_reference data) (led s))) (\<lambda>existing.
       let go = bnd (from_sum (e_lookupBankAccount w (lj_destinationAccount data) (lj_destinationBank data))) (\<lambda>accountName.
                attempt_disbursement w kind data accs accountName) in
       case existing of
         Some t \<Rightarrow> if tx_status t = tx_processing then ret t else go
       | None \<Rightarrow> go))))"

section \<open>Refunds of expired contributions\<close>

definition expiry_input :: "contribution_refund_job \<Rightarrow> fee_accounts \<Rightarrow> PostTransactionInput" where
  "expiry_input data accs =
     \<lparr>pi_type = ty_refund, pi_reference = rj_reference data, pi_entries = expiryRefundLegs accs (rj_amount data),
      pi_amount = rj_amount data, pi_externalReference = None,
      pi_metadata = Some (no_metadata\<lparr>md_contributionId := Some (rj_contributionId data),
         md_contributionPaymentId := Some (rj_contributionPaymentId data)\<rparr>),
      pi_status = Some tx_processing, pi_onSuccess = None\<rparr>"

definition refund_and_settle :: "env \<Rightarrow> contribution_refund_job \<Rightarrow> string \<Rightarrow> transaction \<Rightarrow> (db, transaction) op" where
  "refund_and_settle w data accountName t =
     bnd (callNomba w (rj_amount data) (rj_destinationAccount data) (rj_destinationBank data) (rj_reference data)
            ''Glasspot contribution refund'' accountName) (\<lambda>status.
     seq (case status of
            SUCCESS \<Rightarrow> seq (complete_or_fault w (tx_id t)) (mark_payment_refunded (rj_contributionPaymentId data))
          | PENDING_BILLING \<Rightarrow> ret ()
          | FAILURE_CODE c \<Rightarrow>
              seq (in_ledger (reverseTransaction (e_now w) (tx_id t) (rj_reference data @ ''_reversal'')))
              (throw (UnrecoverableError (''Expiry refund for '' @ rj_reference data
                 @ '' came back with a definitive failure status: '' @ c))))
     (ret t))"

definition refund_failed :: "env \<Rightarrow> contribution_refund_job \<Rightarrow> transaction \<Rightarrow> error \<Rightarrow> (db, transaction) op" where
  "refund_failed w data t err =
     (if is_UnrecoverableError err then throw err
      else if confirmedNotExecuted err
      then seq (in_ledger (reverseTransaction (e_now w) (tx_id t) (rj_reference data @ ''_reversal'')))
           (throw (UnrecoverableError (''Expiry refund for '' @ rj_reference data
              @ '' was confirmed rejected by Nomba: '' @ message err)))
      else throw err)"

definition processContributionRefund :: "env \<Rightarrow> contribution_refund_job \<Rightarrow> (db, transaction) op" where
  "processContributionRefund w data =
     bnd (gets (\<lambda>s. tx_lookup (rj_reference data) (led s))) (\<lambda>existing.
     let go = bnd (in_ledger (getOrCreateSystemAccount suspense)) (\<lambda>suspenseAccount.
              bnd (from_sum (e_lookupBankAccount w (rj_destinationAccount data) (rj_destinationBank data))) (\<lambda>accountName.
              bnd (fee_accounts_of suspenseAccount) (\<lambda>accs.
              bnd (in_ledger (postTransaction (e_now w) (expiry_input data accs))) (\<lambda>t.
              catch_op (refund_and_settle w data accountName t) (refund_failed w data t))))) in
     case existing of
       Some t \<Rightarrow> if tx_status t = tx_processing then ret t else go
     | None \<Rightarrow> go)"

section \<open>The job processor\<close>

definition process_transfer_job :: "env \<Rightarrow> DisbursementJobData \<Rightarrow> (db, transaction) op" where
  "process_transfer_job w job =
     (let (account, bank) = (case job of
            job_payout j \<Rightarrow> (lj_destinationAccount j, lj_destinationBank j)
          | job_pot_refund j \<Rightarrow> (lj_destinationAccount j, lj_destinationBank j)
          | job_contribution_refund j \<Rightarrow> (rj_destinationAccount j, rj_destinationBank j)) in
      bnd (catch_op (from_sum (e_reserve w account bank))
             (\<lambda>err. seq (case job of job_payout j \<Rightarrow> releaseLock j | job_pot_refund j \<Rightarrow> releaseLock j
                           | job_contribution_refund _ \<Rightarrow> ret ())
                    (throw err))) (\<lambda>reserved.
      seq (require reserved DelayedError)
      (case job of
         job_payout j \<Rightarrow> processLedgerDisbursement w op_payout j
       | job_pot_refund j \<Rightarrow> processLedgerDisbursement w op_refund j
       | job_contribution_refund j \<Rightarrow> processContributionRefund w j)))"

end
