(* ===== verification/Worker_Laws.thy ===== *)
theory Worker_Laws
  imports Worker
begin

text \<open>
  What the transfers worker promises for each answer Nomba can give: a confirmed transfer has moved
  exactly the amount and the fees, a rejected one leaves every balance as it was, an unknown outcome
  keeps the money reserved and the lock held, a redelivered job does not call Nomba again. Then
  the orders of events where the code does not keep these promises.
\<close>

section \<open>The accounts a job works on\<close>

definition system_account :: "owner_type \<Rightarrow> ledger \<Rightarrow> uuid option" where
  "system_account ty l = map_option acc_id (find (is_account_of ty None) (accounts l))"

text \<open>\<open>accs\<close> are the ids of a source account and of the four system accounts of \<open>l\<close>.\<close>

definition fee_accounts_in :: "account \<Rightarrow> fee_accounts \<Rightarrow> ledger \<Rightarrow> bool" where
  "fee_accounts_in src accs l \<longleftrightarrow>
     find (is_account_of (acc_ownerType src) (acc_ownerId src)) (accounts l) = Some src \<and> fa_sourceId accs = acc_id src \<and>
     system_account platform_float l = Some (fa_platformFloatId accs) \<and>
     system_account platform_revenue l = Some (fa_platformRevenueId accs) \<and>
     system_account nomba_fee_expense l = Some (fa_nombaFeeExpenseId accs) \<and>
     system_account nomba_clearing l = Some (fa_nombaClearingId accs)"

text \<open>Only accounts were added.\<close>

definition accounts_added :: "ledger \<Rightarrow> ledger \<Rightarrow> bool" where
  "accounts_added l l' \<longleftrightarrow> (\<exists>as. l' = l\<lparr>accounts := accounts l @ as\<rparr>)"

lemma accounts_added_refl: "accounts_added l l"
  unfolding accounts_added_def by (intro exI[of _ "[]"]) simp

lemma accounts_added_trans: "accounts_added l l' \<Longrightarrow> accounts_added l' l'' \<Longrightarrow> accounts_added l l''"
  by (auto simp: accounts_added_def)

lemma accounts_added_frame:
  assumes "accounts_added l l'"
  shows "transactions l' = transactions l" and "ledgerEntries l' = ledgerEntries l" and "balances l' = balances l"
    and "getBalance x l' = getBalance x l" and "tx_lookup r l' = tx_lookup r l" and "entries_of t l' = entries_of t l"
  using assms by (auto simp: accounts_added_def tx_lookup_def entries_of_def)

lemma accounts_added_find:
  "accounts_added l l' \<Longrightarrow> find P (accounts l) = Some a \<Longrightarrow> find P (accounts l') = Some a"
  by (auto simp: accounts_added_def find_append)

lemma getOrCreateAccount_adds:
  assumes "getOrCreateAccount ty owner l = (Inr a, l')"
  shows "accounts_added l l'"
proof (cases "find (is_account_of ty owner) (accounts l)")
  case None
  from getOrCreateAccount_new[OF None] show ?thesis
    using assms by (auto simp: accounts_added_def)
next
  case (Some b)
  then show ?thesis
    using assms accounts_added_refl by (simp add: getOrCreateAccount_existing)
qed

lemma getOrCreateAccount_step:
  assumes "wf_ledger (led s)"
  obtains a l where "in_ledger (getOrCreateAccount ty owner) s = (Inr a, s\<lparr>led := l\<rparr>)"
    and "accounts_added (led s) l" and "wf_ledger l" and "find (is_account_of ty owner) (accounts l) = Some a"
proof -
  obtain a l where run: "getOrCreateAccount ty owner (led s) = (Inr a, l)"
    using getOrCreateAccount_total by blast
  have "wf_ledger l"
    using wf_getOrCreateAccount[of ty owner] assms run unfolding preserves_def by (metis snd_conv)
  then show ?thesis
    using that[of a l] run getOrCreateAccount_adds[OF run] getOrCreateAccount_Inr(1)[OF run] by (simp add: in_ledger_run)
qed

lemma fee_accounts_step:
  assumes "wf_ledger (led s)" and "find (is_account_of (acc_ownerType src) (acc_ownerId src)) (accounts (led s)) = Some src"
  obtains accs l where "fee_accounts_of src s = (Inr accs, s\<lparr>led := l\<rparr>)"
    and "accounts_added (led s) l" and "wf_ledger l" and "fee_accounts_in src accs l"
proof -
  obtain f l1 where 1: "in_ledger (getOrCreateAccount platform_float None) s = (Inr f, s\<lparr>led := l1\<rparr>)"
    "accounts_added (led s) l1" "wf_ledger l1" "find (is_account_of platform_float None) (accounts l1) = Some f"
    using getOrCreateAccount_step[OF assms(1)] by blast
  obtain r l2 where 2: "in_ledger (getOrCreateAccount platform_revenue None) (s\<lparr>led := l1\<rparr>) = (Inr r, s\<lparr>led := l2\<rparr>)"
    "accounts_added l1 l2" "wf_ledger l2" "find (is_account_of platform_revenue None) (accounts l2) = Some r"
    using getOrCreateAccount_step[of "s\<lparr>led := l1\<rparr>" platform_revenue None] 1(3) by auto
  obtain e l3 where 3: "in_ledger (getOrCreateAccount nomba_fee_expense None) (s\<lparr>led := l2\<rparr>) = (Inr e, s\<lparr>led := l3\<rparr>)"
    "accounts_added l2 l3" "wf_ledger l3" "find (is_account_of nomba_fee_expense None) (accounts l3) = Some e"
    using getOrCreateAccount_step[of "s\<lparr>led := l2\<rparr>" nomba_fee_expense None] 2(3) by auto
  obtain c l4 where 4: "in_ledger (getOrCreateAccount nomba_clearing None) (s\<lparr>led := l3\<rparr>) = (Inr c, s\<lparr>led := l4\<rparr>)"
    "accounts_added l3 l4" "wf_ledger l4" "find (is_account_of nomba_clearing None) (accounts l4) = Some c"
    using getOrCreateAccount_step[of "s\<lparr>led := l3\<rparr>" nomba_clearing None] 3(3) by auto
  let ?accs = "\<lparr>fa_sourceId = acc_id src, fa_platformFloatId = acc_id f, fa_platformRevenueId = acc_id r,
    fa_nombaFeeExpenseId = acc_id e, fa_nombaClearingId = acc_id c\<rparr>"
  have added: "accounts_added l1 l4" "accounts_added l2 l4" "accounts_added l3 l4" "accounts_added (led s) l4"
    using 1(2) 2(2) 3(2) 4(2) accounts_added_trans by blast+
  have "fee_accounts_in src ?accs l4"
    using accounts_added_find[OF added(4) assms(2)] accounts_added_find[OF added(1) 1(4)]
      accounts_added_find[OF added(2) 2(4)] accounts_added_find[OF added(3) 3(4)] 4(4)
    by (simp add: fee_accounts_in_def system_account_def)
  moreover have "fee_accounts_of src s = (Inr ?accs, s\<lparr>led := l4\<rparr>)"
    using 1(1) 2(1) 3(1) 4(1) by (simp add: fee_accounts_of_def getOrCreateSystemAccount_def bnd_def ret_def)
  ultimately show ?thesis using that added(4) 4(3) by blast
qed

lemma fee_accounts_members:
  assumes "fee_accounts_in src accs l" and "wf_ledger l"
    and "acc_ownerType src = pot_owner \<or> acc_ownerType src = suspense"
  shows "distinct (account_ids accs)" and "set (account_ids accs) \<subseteq> acc_id ` set (accounts l)"
    and "normal_of (accounts l) (fa_sourceId accs) = NORMAL_BALANCE_BY_OWNER_TYPE (acc_ownerType src)"
    and "normal_of (accounts l) (fa_platformFloatId accs) = debit" and "normal_of (accounts l) (fa_platformRevenueId accs) = credit"
    and "normal_of (accounts l) (fa_nombaFeeExpenseId accs) = debit" and "normal_of (accounts l) (fa_nombaClearingId accs) = credit"
proof -
  obtain f r e c where sys: "f \<in> set (accounts l)" "r \<in> set (accounts l)" "e \<in> set (accounts l)" "c \<in> set (accounts l)"
    and ty: "acc_ownerType f = platform_float" "acc_ownerType r = platform_revenue"
      "acc_ownerType e = nomba_fee_expense" "acc_ownerType c = nomba_clearing"
    and ids: "fa_platformFloatId accs = acc_id f" "fa_platformRevenueId accs = acc_id r"
      "fa_nombaFeeExpenseId accs = acc_id e" "fa_nombaClearingId accs = acc_id c"
    using assms(1) by (auto simp: fee_accounts_in_def system_account_def is_account_of_def dest!: find_SomeD)
  have src: "src \<in> set (accounts l)" "fa_sourceId accs = acc_id src"
    using assms(1) by (auto simp: fee_accounts_in_def dest: find_SomeD)
  have inj: "acc_id a \<noteq> acc_id b" if "a \<in> set (accounts l)" "b \<in> set (accounts l)" "acc_ownerType a \<noteq> acc_ownerType b" for a b
    using wf_ledgerD(1)[OF assms(2)] that by (metis distinct_map inj_onD)
  show "distinct (account_ids accs)"
    using inj src(1) sys ty assms(3) by (auto simp: account_ids_def ids src(2))
  show "set (account_ids accs) \<subseteq> acc_id ` set (accounts l)"
    using src(1) sys by (auto simp: account_ids_def ids src(2))
  have normal: "normal_of (accounts l) (acc_id a) = NORMAL_BALANCE_BY_OWNER_TYPE (acc_ownerType a)" if "a \<in> set (accounts l)" for a
    using that assms(2) normal_of_member[OF wf_ledgerD(1)[OF assms(2)] that] by (simp add: wf_ledger_def)
  show "normal_of (accounts l) (fa_sourceId accs) = NORMAL_BALANCE_BY_OWNER_TYPE (acc_ownerType src)"
    "normal_of (accounts l) (fa_platformFloatId accs) = debit" "normal_of (accounts l) (fa_platformRevenueId accs) = credit"
    "normal_of (accounts l) (fa_nombaFeeExpenseId accs) = debit" "normal_of (accounts l) (fa_nombaClearingId accs) = credit"
    using normal src sys ty by (simp_all add: ids)
qed

section \<open>What a disbursement moves\<close>

definition float_funds :: "db \<Rightarrow> kobo" where
  "float_funds s = (case system_account platform_float (led s) of Some a \<Rightarrow> getBalance a (led s) | None \<Rightarrow> 0)"

lemma account_ids_neq:
  assumes "distinct (account_ids accs)"
  shows "fa_sourceId accs \<noteq> fa_platformFloatId accs" and "fa_sourceId accs \<noteq> fa_platformRevenueId accs"
    and "fa_sourceId accs \<noteq> fa_nombaFeeExpenseId accs" and "fa_sourceId accs \<noteq> fa_nombaClearingId accs"
    and "fa_platformFloatId accs \<noteq> fa_platformRevenueId accs" and "fa_platformFloatId accs \<noteq> fa_nombaFeeExpenseId accs"
    and "fa_platformFloatId accs \<noteq> fa_nombaClearingId accs" and "fa_platformRevenueId accs \<noteq> fa_nombaFeeExpenseId accs"
    and "fa_platformRevenueId accs \<noteq> fa_nombaClearingId accs" and "fa_nombaFeeExpenseId accs \<noteq> fa_nombaClearingId accs"
  using assms by (auto simp: account_ids_def)

lemma outbound_delta:
  assumes "fee_accounts_in src accs l" and "wf_ledger l" and "acc_ownerType src = pot_owner"
  shows "input_delta (accounts l) (outboundFeeLegs accs v) x =
    (if x = fa_sourceId accs then - (v + OUTBOUND_FEE) else if x = fa_platformFloatId accs then - (v + NOMBA_OUTBOUND_FEE)
     else if x = fa_platformRevenueId accs then PLATFORM_OUTBOUND_FEE
     else if x = fa_nombaFeeExpenseId accs \<or> x = fa_nombaClearingId accs then NOMBA_OUTBOUND_FEE else 0)"
proof -
  note m = fee_accounts_members[OF assms(1,2) disjI1[OF assms(3)]]
  note neq = account_ids_neq[OF m(1)]
  show ?thesis
    using m(3-7) assms(3) by (auto simp: outboundFeeLegs_def signedDelta_def neq neq[symmetric])
qed

lemma outbound_fits:
  assumes "fee_accounts_in src accs l" and "wf_ledger l" and "acc_ownerType src = pot_owner"
    and "pi_entries input = outboundFeeLegs accs v"
    and "v + OUTBOUND_FEE \<le> getBalance (fa_sourceId accs) l" and "v + NOMBA_OUTBOUND_FEE \<le> getBalance (fa_platformFloatId accs) l"
  shows "fits input l"
proof -
  note m = fee_accounts_members[OF assms(1,2) disjI1[OF assms(3)]]
  have "0 \<le> getBalance x l + input_delta (accounts l) (outboundFeeLegs accs v) x" for x
    using wf_ledgerD(6)[OF assms(2), of x] assms(5,6)
    unfolding outbound_delta[OF assms(1-3)] by (auto simp: fee_constants)
  then show ?thesis by (simp add: fits_def assms(4))
qed

lemma fa_simps:
  assumes "fee_accounts_in src accs l" and "acc_ownerType src = pot_owner" and "acc_ownerId src = Some q"
  shows "pot_funds q (s\<lparr>led := l\<rparr>) = getBalance (fa_sourceId accs) l"
    and "float_funds (s\<lparr>led := l\<rparr>) = getBalance (fa_platformFloatId accs) l"
  using assms by (simp_all add: fee_accounts_in_def pot_funds_def pot_account_def float_funds_def)

lemma fee_accounts_in_posted:
  "fee_accounts_in src accs l \<Longrightarrow> accounts l' = accounts l \<Longrightarrow> fee_accounts_in src accs l'"
  by (simp add: fee_accounts_in_def system_account_def)

lemma funds_accounts_added:
  assumes "accounts_added (led s) l"
  shows "0 < pot_funds q s \<Longrightarrow> pot_funds q (s\<lparr>led := l\<rparr>) = pot_funds q s"
    and "0 < float_funds s \<Longrightarrow> float_funds (s\<lparr>led := l\<rparr>) = float_funds s"
  using accounts_added_find[OF assms] accounts_added_frame(4)[OF assms]
  by (auto simp: pot_funds_def pot_account_def float_funds_def system_account_def split: option.splits)

text \<open>The job's posting, when the money is there and the reference is new.\<close>

definition job_fits :: "ledger_job \<Rightarrow> db \<Rightarrow> bool" where
  "job_fits data s \<longleftrightarrow> 1 \<le> lj_amount data \<and> lj_amount data + OUTBOUND_FEE \<le> pot_funds (lj_potId data) s \<and>
     lj_amount data + NOMBA_OUTBOUND_FEE \<le> float_funds s"

definition job_new :: "ledger_job \<Rightarrow> db \<Rightarrow> bool" where
  "job_new data s \<longleftrightarrow> tx_lookup (lj_reference data) (led s) = None \<and>
     tx_lookup (lj_reference data @ ''_reversal'') (led s) = None"

definition moved :: "ledger_job \<Rightarrow> db \<Rightarrow> ledger \<Rightarrow> bool" where
  "moved data s l \<longleftrightarrow> pot_funds (lj_potId data) (s\<lparr>led := l\<rparr>) = pot_funds (lj_potId data) s - (lj_amount data + OUTBOUND_FEE) \<and>
     float_funds (s\<lparr>led := l\<rparr>) = float_funds s - (lj_amount data + NOMBA_OUTBOUND_FEE)"

text \<open>The step before the posting: the accounts are there and the funds were checked.\<close>

lemma process_accounts:
  assumes "wf_ledger (led s)" and "lj_amount data + OUTBOUND_FEE \<le> pot_funds (lj_potId data) s"
    and "1 \<le> lj_amount data"
  obtains src accs l where "accounts_added (led s) l" and "wf_ledger l" and "fee_accounts_in src accs l"
    and "acc_ownerType src = pot_owner" and "acc_ownerId src = Some (lj_potId data)"
    and "processLedgerDisbursement w kind data s =
      (let go = bnd (from_sum (e_lookupBankAccount w (lj_destinationAccount data) (lj_destinationBank data))) (\<lambda>accountName.
                attempt_disbursement w kind data accs accountName) in
       case tx_lookup (lj_reference data) l of
         Some t \<Rightarrow> if tx_status t = tx_processing then ret t else go
       | None \<Rightarrow> go) (s\<lparr>led := l\<rparr>)"
proof -
  have pos: "0 < pot_funds (lj_potId data) s"
    using assms(2,3) by (simp add: fee_constants)
  then obtain src where src: "pot_account (lj_potId data) s = Some src"
    using pot_funds_pos_account by blast
  then have found: "find (is_account_of pot_owner (Some (lj_potId data))) (accounts (led s)) = Some src"
    by (simp add: pot_account_def)
  then have ty: "acc_ownerType src = pot_owner" "acc_ownerId src = Some (lj_potId data)"
    by (auto simp: is_account_of_def dest: find_SomeD)
  obtain accs l where l: "fee_accounts_of src s = (Inr accs, s\<lparr>led := l\<rparr>)" "accounts_added (led s) l" "wf_ledger l"
    "fee_accounts_in src accs l"
    using fee_accounts_step[OF assms(1), of src] found ty by auto
  have acc: "in_ledger (getOrCreatePotAccount (lj_potId data)) s = (Inr src, s)"
    using found by (simp add: in_ledger_run getOrCreatePotAccount_def getOrCreateAccount_existing)
  have "getBalance (acc_id src) l = pot_funds (lj_potId data) s"
    using funds_accounts_added(1)[OF l(2) pos] fa_simps(1)[OF l(4) ty, of s] l(4) by (simp add: fee_accounts_in_def)
  then have "processLedgerDisbursement w kind data s =
      (let go = bnd (from_sum (e_lookupBankAccount w (lj_destinationAccount data) (lj_destinationBank data))) (\<lambda>accountName.
                attempt_disbursement w kind data accs accountName) in
       case tx_lookup (lj_reference data) l of
         Some t \<Rightarrow> if tx_status t = tx_processing then ret t else go
       | None \<Rightarrow> go) (s\<lparr>led := l\<rparr>)"
    using assms(2) by (simp add: processLedgerDisbursement_def bnd_def[of "in_ledger m" for m] bnd_def[of "fee_accounts_of a" for a] acc l(1))
  then show ?thesis using that l(2-4) ty by blast
qed

lemma in_ledger_Inr: "m (led s) = (Inr x, l) \<Longrightarrow> in_ledger m s = (Inr x, s\<lparr>led := l\<rparr>)"
  by (simp add: in_ledger_run)

lemma from_sum_run: "bnd (from_sum (Inr x)) f s = f x s"
  by (simp add: bnd_def from_sum_def)

lemma attempt_posted:
  assumes "postTransaction (e_now w) (disbursement_input kind data accs accountName) (led s) = (Inr t, l)"
  shows "attempt_disbursement w kind data accs accountName s =
    catch_op (transfer_and_settle w kind data accountName t) (failed_after_posting w data t) (s\<lparr>led := l\<rparr>)"
  by (simp add: attempt_disbursement_def bnd_def catch_op_def in_ledger_run assms)

lemma process_to_transfer:
  assumes "wf_ledger (led s)" and "job_new data s" and "job_fits data s"
    and "e_lookupBankAccount w (lj_destinationAccount data) (lj_destinationBank data) = Inr accountName"
  obtains t l where "processLedgerDisbursement w kind data s =
      catch_op (transfer_and_settle w kind data accountName t) (failed_after_posting w data t) (s\<lparr>led := l\<rparr>)"
    and "wf_ledger l" and "tx_lookup (lj_reference data) l = Some t" and "tx_status t = tx_processing"
    and "moved data s l"
    and "\<exists>t2 l2. reverseTransaction (e_now w) (tx_id t) (lj_reference data @ ''_reversal'') l = (Inr t2, l2) \<and>
      (\<forall>x. getBalance x l2 = getBalance x (led s)) \<and>
      map_option tx_status (tx_lookup (lj_reference data) l2) = Some tx_reversed"
proof -
  note fit = assms(3)[unfolded job_fits_def] and new = assms(2)[unfolded job_new_def]
  obtain src accs l where l: "accounts_added (led s) l" "wf_ledger l" "fee_accounts_in src accs l"
    "acc_ownerType src = pot_owner" "acc_ownerId src = Some (lj_potId data)"
    and run: "processLedgerDisbursement w kind data s =
      (let go = bnd (from_sum (e_lookupBankAccount w (lj_destinationAccount data) (lj_destinationBank data))) (\<lambda>accountName.
                attempt_disbursement w kind data accs accountName) in
       case tx_lookup (lj_reference data) l of
         Some t \<Rightarrow> if tx_status t = tx_processing then ret t else go
       | None \<Rightarrow> go) (s\<lparr>led := l\<rparr>)"
    by (rule process_accounts[OF assms(1), of data w kind]) (use fit in auto)
  let ?in = "disbursement_input kind data accs accountName"
  have pos: "0 < pot_funds (lj_potId data) s" "0 < float_funds s"
    using fit by (auto simp: fee_constants)
  note funds = funds_accounts_added(1)[OF l(1) pos(1)] funds_accounts_added(2)[OF l(1) pos(2)]
  note fa = fa_simps[OF l(3-5), of s]
  have es: "pi_entries ?in = outboundFeeLegs accs (lj_amount data)" and ref: "pi_reference ?in = lj_reference data"
    by (simp_all add: disbursement_input_def)
  have "fits ?in l"
    by (rule outbound_fits[OF l(3,2,4) es]) (use fit funds fa in simp_all)
  note m = fee_accounts_members[OF l(3,2) disjI1[OF l(4)]]
  have none: "tx_lookup (pi_reference ?in) l = None"
    using new by (simp add: ref accounts_added_frame(5)[OF l(1)])
  obtain t l1 where post: "postTransaction (e_now w) ?in l = (Inr t, l1)" and p: "posted ?in t l l1"
    using outbound.posting_outcome(1)[OF _ m(1,2) none es \<open>fits ?in l\<close>] fit by blast
  from post have t: "t = new_transaction (e_now w) ?in l" and bal: "balanced (pi_entries ?in)"
    by (cases rule: postTransaction_cases; use none in simp)+
  have wf1: "wf_ledger l1"
    using posted_wf[OF l(2) p bal] t by simp
  have acc1: "accounts l1 = accounts l" and txs1: "transactions l1 = transactions l @ [t]"
    and bal1: "getBalance x l1 = getBalance x l + input_delta (accounts l) (outboundFeeLegs accs (lj_amount data)) x" for x
    using p by (simp_all add: posted_def es)
  note fa1 = fa_simps[OF fee_accounts_in_posted[OF l(3) acc1] l(4,5), of s]
  have "moved data s l1"
    using funds account_ids_neq(1)[OF m(1)] unfolding moved_def fa1 bal1 fa outbound_delta[OF l(3,2,4)] by simp
  moreover have look: "tx_lookup (lj_reference data) l1 = Some t"
    using posted_lookup[OF p] t by (simp add: ref)
  moreover have "tx_status t = tx_processing"
    by (simp add: t disbursement_input_def)
  moreover have "processLedgerDisbursement w kind data s =
      catch_op (transfer_and_settle w kind data accountName t) (failed_after_posting w data t) (s\<lparr>led := l1\<rparr>)"
    using none post assms(4) unfolding run ref
    by (simp add: from_sum_run attempt_posted[where s = "s\<lparr>led := l\<rparr>"])
  moreover have "\<exists>t2 l2. reverseTransaction (e_now w) (tx_id t) (lj_reference data @ ''_reversal'') l1 = (Inr t2, l2) \<and>
      (\<forall>x. getBalance x l2 = getBalance x (led s)) \<and>
      map_option tx_status (tx_lookup (lj_reference data) l2) = Some tx_reversed"
  proof -
    have free: "tx_lookup (lj_reference data @ ''_reversal'') l1 = None"
      using new accounts_added_frame(1)[OF l(1)] t by (simp add: tx_lookup_None_iff txs1 ref)
    have dist: "distinct (map ei_accountId (pi_entries ?in))"
      unfolding es by (rule outbound.legs_distinct[OF m(1)])
    obtain t2 l2 where r: "reverseTransaction (e_now w) (tx_id t) (lj_reference data @ ''_reversal'') l1 = (Inr t2, l2)"
      "\<forall>x. getBalance x l2 = getBalance x l"
      using reverse_undoes_post[OF l(2) none post dist free, of "e_now w"] by blast
    then show ?thesis
      using reverseTransaction_lookup[OF look wf1 r(1)] accounts_added_frame(4)[OF l(1)] by auto
  qed
  ultimately show ?thesis using that wf1 by blast
qed

section \<open>Releasing the lock\<close>

definition released :: "ledger_job \<Rightarrow> db \<Rightarrow> db" where
  "released data s = snd (releaseLock data s)"

definition legs_after :: "ledger_job \<Rightarrow> nat \<Rightarrow> nat" where
  "legs_after data n = (if lj_isFanOutLeg data then n - 1 else 0)"

lemma releaseLock_run: "releaseLock data s = (Inr (), released data s)"
  by (simp add: released_def releaseLock_def decrementPendingOperationLeg_def clearPendingOperation_def bnd_def
      modify_def gets_def when_op_def ret_def)

lemma released_frame:
  "led (released data s) = led s" "nombaTransfers (released data s) = nombaTransfers s"
  "targetBasedPayoutConfigs (released data s) = targetBasedPayoutConfigs s"
  "recurringPayoutConfigs (released data s) = recurringPayoutConfigs s"
  "scheduledPayoutLegs (released data s) = scheduledPayoutLegs s"
  by (simp_all add: released_def releaseLock_def decrementPendingOperationLeg_def clearPendingOperation_def bnd_def
      modify_def gets_def when_op_def ret_def)

lemma legs_held_clear: "legs_held q (s\<lparr>pots := update_where (\<lambda>p. pot_id p = q) clear_lock (pots s)\<rparr>) = 0"
  by (cases "find_pot q s") (simp_all add: legs_held_def find_pot_clear clear_lock_def)

lemma legs_held_released:
  assumes "pot_ok (lj_potId data) s" and "0 < legs_held (lj_potId data) s"
  shows "legs_held (lj_potId data) (released data s) = legs_after data (legs_held (lj_potId data) s)"
proof (cases "lj_isFanOutLeg data")
  case True
  then have "released data s = run_decrement (lj_potId data) s"
    by (simp add: released_def releaseLock_def run_decrement_def)
  then show ?thesis
    using True pot_lock.release_one[OF assms] by (simp add: legs_after_def)
next
  case False
  then show ?thesis
    by (simp add: released_def releaseLock_def clearPendingOperation_def modify_def legs_held_clear legs_after_def)
qed

lemma funds_led:
  "led s = led s' \<Longrightarrow> pot_funds q s = pot_funds q s'" "led s = led s' \<Longrightarrow> float_funds s = float_funds s'"
  by (simp_all add: pot_funds_def pot_account_def float_funds_def split: option.split)

section \<open>Nomba's answer\<close>

definition transfer_request :: "pending_operation \<Rightarrow> ledger_job \<Rightarrow> string \<Rightarrow> transfer_params" where
  "transfer_request kind data accountName =
     \<lparr>tp_amountNaira = koboToNairaString (lj_amount data), tp_accountNumber = lj_destinationAccount data,
      tp_accountName = accountName, tp_bankCode = lj_destinationBank data, tp_merchantTxRef = lj_reference data,
      tp_senderName = ''Glasspot'', tp_narration = (if kind = op_refund then ''Glasspot refund for pot '' else ''Glasspot payout for pot '')
                @ uuid_text (lj_potId data)\<rparr>"

definition set_pending_tx :: "uuid \<Rightarrow> pot \<Rightarrow> pot" where
  "set_pending_tx t p = p\<lparr>pot_pendingOperationTransactionId := Some t\<rparr>"

interpretation set_pending_tx: keyed_update pot_id "set_pending_tx t" for t
  by unfold_locales (simp add: set_pending_tx_def)

text \<open>The state in which Nomba has been asked.\<close>

definition asked :: "pending_operation \<Rightarrow> ledger_job \<Rightarrow> string \<Rightarrow> transaction \<Rightarrow> db \<Rightarrow> db" where
  "asked kind data accountName t s =
     s\<lparr>pots := update_where (\<lambda>p. pot_id p = lj_potId data) (set_pending_tx (tx_id t)) (pots s),
       nombaTransfers := nombaTransfers s @ [transfer_request kind data accountName]\<rparr>"

definition settle_answer :: "env \<Rightarrow> ledger_job \<Rightarrow> transaction \<Rightarrow> transfer_status \<Rightarrow> (db, unit) op" where
  "settle_answer w data t status = (case status of
             SUCCESS \<Rightarrow>
               seq (complete_or_fault w (tx_id t))
               (seq (releaseLock data)
               (case lj_onSuccess data of None \<Rightarrow> ret () | Some a \<Rightarrow> applyOnSuccess w a))
           | PENDING_BILLING \<Rightarrow> ret ()
           | FAILURE_CODE c \<Rightarrow>
               seq (reverse_and_release w data (tx_id t))
               (throw (UnrecoverableError (''Transfer for '' @ lj_reference data
                  @ '' came back with a definitive failure status: '' @ c))))"

lemma transfer_and_settle_run:
  "transfer_and_settle w kind data accountName t s =
   (case e_transferToBankAccount w (transfer_request kind data accountName) of
      Inl e \<Rightarrow> (Inl e, asked kind data accountName t s)
    | Inr status \<Rightarrow> seq (settle_answer w data t status) (ret t) (asked kind data accountName t s))"
  by (simp add: transfer_and_settle_def callNomba_def Let_def bnd_def[of "modify f" for f] modify_def
      bnd_def[of "bnd (modify f) g" for f g] bnd_def[of "from_sum r" for r] from_sum_def asked_def set_pending_tx_def[abs_def]
      transfer_request_def settle_answer_def split: sum.split)

lemma asked_frame:
  "led (asked kind data n t s) = led s" "nombaTransfers (asked kind data n t s) = nombaTransfers s @ [transfer_request kind data n]"
  "targetBasedPayoutConfigs (asked kind data n t s) = targetBasedPayoutConfigs s"
  "recurringPayoutConfigs (asked kind data n t s) = recurringPayoutConfigs s"
  "scheduledPayoutLegs (asked kind data n t s) = scheduledPayoutLegs s"
  by (simp_all add: asked_def)

lemma lock_asked:
  "legs_held q (asked kind data n t s) = legs_held q s" "pot_ok q (asked kind data n t s) = pot_ok q s"
proof -
  have "find_pot q (asked kind data n t s) =
      map_option (\<lambda>p. if pot_id p = lj_potId data then set_pending_tx (tx_id t) p else p) (find_pot q s)"
    by (simp add: asked_def find_pot_def find_update_where set_pending_tx_def)
  then show "legs_held q (asked kind data n t s) = legs_held q s" "pot_ok q (asked kind data n t s) = pot_ok q s"
    by (auto simp: legs_held_def pot_ok_def wf_pots_def set_pending_tx_def asked_def map_update_where split: option.split)
qed

lemma lock_led [simp]: "legs_held q (s\<lparr>led := l\<rparr>) = legs_held q s" "pot_ok q (s\<lparr>led := l\<rparr>) = pot_ok q s"
  by (simp_all add: legs_held_def pot_ok_def)

text \<open>Side effects never throw, and leave the ledger, the calls and every lock as they are.\<close>

lemma applyOnSuccess_run:
  obtains s' where "applyOnSuccess w a s = (Inr (), s')" and "led s' = led s" and "nombaTransfers s' = nombaTransfers s"
    and "\<And>q. legs_held q s' = legs_held q s"
proof (cases a)
  case (mark_target_based_fired i)
  let ?s1 = "s\<lparr>targetBasedPayoutConfigs := update_where (\<lambda>c. tb_id c = i) (fire_config (e_now w)) (targetBasedPayoutConfigs s)\<rparr>"
  have closed: "legs_held q (r\<lparr>pots := update_where P (close_pot now) (pots r)\<rparr>) = legs_held q r" for q r P now
  proof -
    have "find_pot q (r\<lparr>pots := update_where P (close_pot now) (pots r)\<rparr>) =
        map_option (\<lambda>p. if P p then close_pot now p else p) (find_pot q r)"
      by (rule find_pot_update_where) (simp add: close_pot_def)
    then show ?thesis by (auto simp: legs_held_def close_pot_def split: option.split)
  qed
  have same: "legs_held q ?s1 = legs_held q s" for q
    by (simp add: legs_held_def find_pot_def)
  show ?thesis
  proof (cases "find (\<lambda>c. tb_id c = i) (targetBasedPayoutConfigs ?s1)")
    case None
    then show ?thesis
      using that[of ?s1] same mark_target_based_fired by (simp add: applyFired_def ret_def)
  next
    case (Some c)
    then show ?thesis
      using that[of ?s1] same mark_target_based_fired
        that[of "?s1\<lparr>pots := update_where (\<lambda>p. pot_id p = tb_potId c \<and> pot_status p = pot_open \<and> pot_pendingOperation p = None)
               (close_pot (e_now w)) (pots ?s1)\<rparr>"] closed[where r = ?s1]
      by (cases "tb_targetDate c = None") (simp_all add: applyFired_def when_op_def ret_def modify_def)
  qed
next
  case (advance_recurring_next_run_at i)
  then show ?thesis
    using that by (cases "find (\<lambda>c. rc_id c = i) (recurringPayoutConfigs s)")
      (simp_all add: ret_def modify_def legs_held_def find_pot_def)
next
  case (mark_scheduled_leg_fired i)
  then show ?thesis
    using that by (simp add: modify_def legs_held_def find_pot_def)
qed

section \<open>What the worker promises\<close>

lemma complete_run:
  assumes "tx_lookup r (led s) = Some t" and "wf_ledger (led s)" and "e_completionFault w = None"
  obtains l where "complete_or_fault w (tx_id t) s = (Inr (), s\<lparr>led := l\<rparr>)" and "tx_lookup r l = Some (complete_at (e_now w) t)"
    and "accounts l = accounts (led s)" and "balances l = balances (led s)"
proof -
  obtain t' l where "markCompleted (e_now w) (tx_id t) (led s) = (Inr t', l)"
    "l = (led s)\<lparr>transactions := update_where (\<lambda>x. tx_id x = tx_id t) (complete_at (e_now w)) (transactions (led s))\<rparr>"
    "tx_lookup r l = Some (complete_at (e_now w) t)"
    using markCompleted_run[OF assms(1,2)] by blast
  then show ?thesis
    using that[of l] by (simp add: complete_or_fault_def assms(3) bnd_def in_ledger_run ret_def)
qed

lemma funds_balances:
  assumes "accounts (led s') = accounts (led s)" and "balances (led s') = balances (led s)"
  shows "pot_funds q s' = pot_funds q s" and "float_funds s' = float_funds s"
  using assms
  by (simp_all add: pot_funds_def pot_account_def float_funds_def system_account_def getBalance_def split: option.split)

lemma settle_success:
  assumes "complete_or_fault w (tx_id t) s = (Inr (), s1)"
    and "(case lj_onSuccess data of None \<Rightarrow> ret () | Some a \<Rightarrow> applyOnSuccess w a) (released data s1) = (Inr (), s')"
  shows "seq (settle_answer w data t SUCCESS) (ret x) s = (Inr x, s')"
proof -
  have "bnd (releaseLock data) (\<lambda>_. case lj_onSuccess data of None \<Rightarrow> ret () | Some a \<Rightarrow> applyOnSuccess w a) s1 = (Inr (), s')"
    by (simp add: bnd_run[where m = "releaseLock data", OF releaseLock_run] assms(2))
  then have "settle_answer w data t SUCCESS s = (Inr (), s')"
    by (simp add: settle_answer_def bnd_run[where m = "complete_or_fault w (tx_id t)", OF assms(1)])
  then show ?thesis by (simp add: bnd_run[where m = "settle_answer w data t SUCCESS", OF \<open>settle_answer w data t SUCCESS s = (Inr (), s')\<close>])
qed

text \<open>A payout of N100 from the example pot, whose lock is held for it.\<close>

definition worker_db :: db where
  "worker_db = example_db\<lparr>pots := [claim_lock op_payout 1 example_pot]\<rparr>"

definition example_job :: ledger_job where
  "example_job = \<lparr>lj_potId = 7, lj_amount = 10000, lj_destinationAccount = ''0123456789'', lj_destinationBank = ''058'',
     lj_reference = ''p'', lj_contributorUserId = None, lj_isFanOutLeg = False, lj_onSuccess = None\<rparr>"

definition answering :: "error + transfer_status \<Rightarrow> env" where
  "answering r = example_env\<lparr>e_transferToBankAccount := \<lambda>_. r\<rparr>"

lemma answering_simps [simp]:
  "e_lookupBankAccount (answering r) a b = Inr ''Ada''" "e_transferToBankAccount (answering r) p = r"
  "e_completionFault (answering r) = None"
  by (simp_all add: answering_def example_env_def)

lemma worker_db_ok:
  "wf_ledger (led worker_db)" "job_new example_job worker_db" "job_fits example_job worker_db"
  "pot_ok (lj_potId example_job) worker_db" "legs_held (lj_potId example_job) worker_db = 1"
proof -
  show "wf_ledger (led worker_db)"
    using example_db_ok(1) by (simp add: worker_db_def)
  show "job_new example_job worker_db" "job_fits example_job worker_db" "legs_held (lj_potId example_job) worker_db = 1"
    by code_simp+
  show "pot_ok (lj_potId example_job) worker_db"
    by (simp add: pot_ok_def wf_pots_def find_pot_def worker_db_def example_job_def claim_lock_def example_pot_def)
qed

lemma payout_confirmed_run:
  assumes "wf_ledger (led s)" and "job_new data s" and "job_fits data s"
    and "pot_ok (lj_potId data) s" and "0 < legs_held (lj_potId data) s"
    and "e_lookupBankAccount w (lj_destinationAccount data) (lj_destinationBank data) = Inr accountName"
    and "e_transferToBankAccount w (transfer_request kind data accountName) = Inr SUCCESS"
    and "e_completionFault w = None"
  shows "\<exists>t r s'. processLedgerDisbursement w kind data s = (Inr t, s') \<and>
    pot_funds (lj_potId data) s' = pot_funds (lj_potId data) s - (lj_amount data + OUTBOUND_FEE) \<and>
    float_funds s' = float_funds s - (lj_amount data + NOMBA_OUTBOUND_FEE) \<and>
    map_option tx_status (tx_lookup (lj_reference data) (led s')) = Some tx_completed \<and>
    nombaTransfers s' = nombaTransfers s @ [transfer_request kind data accountName] \<and>
    legs_held (lj_potId data) r = legs_after data (legs_held (lj_potId data) s) \<and>
    (case lj_onSuccess data of None \<Rightarrow> ret () | Some a \<Rightarrow> applyOnSuccess w a) r = (Inr (), s') \<and>
    recurringPayoutConfigs r = recurringPayoutConfigs s"
proof -
  obtain t l where run: "processLedgerDisbursement w kind data s =
      catch_op (transfer_and_settle w kind data accountName t) (failed_after_posting w data t) (s\<lparr>led := l\<rparr>)"
    and l: "wf_ledger l" "tx_lookup (lj_reference data) l = Some t" and mv: "moved data s l"
    using process_to_transfer[OF assms(1-3,6)] by metis
  let ?a = "asked kind data accountName t (s\<lparr>led := l\<rparr>)"
  obtain l2 where cmp: "complete_or_fault w (tx_id t) ?a = (Inr (), ?a\<lparr>led := l2\<rparr>)"
    and l2: "tx_lookup (lj_reference data) l2 = Some (complete_at (e_now w) t)" "accounts l2 = accounts l" "balances l2 = balances l"
    using complete_run[of "lj_reference data" ?a t w] l assms(8) by (auto simp: asked_frame)
  let ?r = "released data (?a\<lparr>led := l2\<rparr>)"
  obtain s' where s': "(case lj_onSuccess data of None \<Rightarrow> ret () | Some a \<Rightarrow> applyOnSuccess w a) ?r = (Inr (), s')"
    "led s' = l2" "nombaTransfers s' = nombaTransfers ?r"
  proof (cases "lj_onSuccess data")
    case None
    then show ?thesis using that by (simp add: ret_def released_frame)
  next
    case (Some a)
    obtain s' where "applyOnSuccess w a ?r = (Inr (), s')" "led s' = led ?r" "nombaTransfers s' = nombaTransfers ?r"
      using applyOnSuccess_run[of w a ?r] by blast
    then show ?thesis using that[of s'] Some by (simp add: released_frame)
  qed
  have "processLedgerDisbursement w kind data s = (Inr t, s')"
    by (simp add: run catch_op_def transfer_and_settle_run assms(7) settle_success[OF cmp s'(1)])
  moreover have "legs_held (lj_potId data) ?r = legs_after data (legs_held (lj_potId data) s)"
    using assms(4,5) by (subst legs_held_released) (simp_all add: lock_asked)
  moreover have "pot_funds (lj_potId data) s' = pot_funds (lj_potId data) (s\<lparr>led := l\<rparr>)" "float_funds s' = float_funds (s\<lparr>led := l\<rparr>)"
    using l2(2,3) s'(2) by (simp_all add: funds_balances)
  ultimately show ?thesis
    using mv s' l2(1) by (intro exI[of _ t] exI[of _ ?r] exI[of _ s']) (simp add: moved_def released_frame asked_frame)
qed

text \<open>C8. A confirmed payout moves the money once. When Nomba answers SUCCESS, the pot has paid exactly
  the amount and the outbound fee, the float the amount and Nomba's share of it, Nomba was called
  exactly once with this job's amount, account and reference, the transaction under the reference
  is completed, the lock is held for one leg less (or free), and only then the side effect ran.\<close>

theorem payout_confirmed:
  assumes "wf_ledger (led s)" and "job_new data s" and "job_fits data s"
    and "pot_ok (lj_potId data) s" and "0 < legs_held (lj_potId data) s"
    and "e_lookupBankAccount w (lj_destinationAccount data) (lj_destinationBank data) = Inr accountName"
    and "e_transferToBankAccount w (transfer_request kind data accountName) = Inr SUCCESS"
    and "e_completionFault w = None"
  shows "\<exists>t r s'. processLedgerDisbursement w kind data s = (Inr t, s') \<and>
    pot_funds (lj_potId data) s' = pot_funds (lj_potId data) s - (lj_amount data + OUTBOUND_FEE) \<and>
    float_funds s' = float_funds s - (lj_amount data + NOMBA_OUTBOUND_FEE) \<and>
    map_option tx_status (tx_lookup (lj_reference data) (led s')) = Some tx_completed \<and>
    nombaTransfers s' = nombaTransfers s @ [transfer_request kind data accountName] \<and>
    legs_held (lj_potId data) r = legs_after data (legs_held (lj_potId data) s) \<and>
    (case lj_onSuccess data of None \<Rightarrow> ret () | Some a \<Rightarrow> applyOnSuccess w a) r = (Inr (), s')"
  using payout_confirmed_run[OF assms] by blast

theorem payout_confirmed_witness:
  "\<exists>t s'. processLedgerDisbursement (answering (Inr SUCCESS)) op_payout example_job worker_db = (Inr t, s') \<and>
     pot_funds 7 s' = 5000 \<and> float_funds s' = 11000 \<and> length (nombaTransfers s') = 1"
proof -
  have "pot_funds 7 worker_db = 20000" "float_funds worker_db = 23000" "nombaTransfers worker_db = []" "lj_potId example_job = 7"
    "lj_amount example_job + OUTBOUND_FEE = 15000" "lj_amount example_job + NOMBA_OUTBOUND_FEE = 12000"
    by code_simp+
  then show ?thesis
    using payout_confirmed[OF worker_db_ok(1-4), of "answering (Inr SUCCESS)" "''Ada''" op_payout] worker_db_ok(5) by auto
qed

lemma reverse_and_release_run:
  assumes "reverseTransaction (e_now w) i (lj_reference data @ ''_reversal'') (led s) = (Inr t2, l2)"
  shows "reverse_and_release w data i s = (Inr (), released data (s\<lparr>led := l2\<rparr>))"
  by (simp add: reverse_and_release_def bnd_def in_ledger_run assms releaseLock_run)

lemma failed_after_posting_run:
  assumes "\<not> is_UnrecoverableError err" and "confirmedNotExecuted err" and "reverse_and_release w data (tx_id t) s = (Inr (), s')"
  shows "\<exists>m. failed_after_posting w data t err s = (Inl (UnrecoverableError m), s')"
  by (simp add: failed_after_posting_def assms(1,2) bnd_run[where m = "reverse_and_release w data (tx_id t)", OF assms(3)])

text \<open>Nomba says no: a failure code in the answer, or an error status from its HTTP endpoint.\<close>

definition nomba_refuses :: "error + transfer_status \<Rightarrow> bool" where
  "nomba_refuses answer = (case answer of
     Inr (FAILURE_CODE _) \<Rightarrow> True | Inl (NombaApiError _ status) \<Rightarrow> status \<noteq> 0 | _ \<Rightarrow> False)"

definition nomba_silent :: "error + transfer_status \<Rightarrow> bool" where
  "nomba_silent answer = (case answer of
     Inr PENDING_BILLING \<Rightarrow> True | Inl (NombaApiError _ status) \<Rightarrow> status = 0 | _ \<Rightarrow> False)"

text \<open>C9. A refused payout leaves every balance as it was. When Nomba answers with a failure code or an
  HTTP error status, the job fails for good: the posting is reversed to the kobo on every account, the
  transaction is marked reversed, the lock is released by one leg, and no side effect runs.\<close>

theorem payout_refused_restores:
  assumes "wf_ledger (led s)" and "job_new data s" and "job_fits data s"
    and "pot_ok (lj_potId data) s" and "0 < legs_held (lj_potId data) s"
    and "e_lookupBankAccount w (lj_destinationAccount data) (lj_destinationBank data) = Inr accountName"
    and "nomba_refuses (e_transferToBankAccount w (transfer_request kind data accountName))"
  shows "\<exists>m s'. processLedgerDisbursement w kind data s = (Inl (UnrecoverableError m), s') \<and>
    (\<forall>a. getBalance a (led s') = getBalance a (led s)) \<and>
    map_option tx_status (tx_lookup (lj_reference data) (led s')) = Some tx_reversed \<and>
    legs_held (lj_potId data) s' = legs_after data (legs_held (lj_potId data) s) \<and>
    targetBasedPayoutConfigs s' = targetBasedPayoutConfigs s \<and> recurringPayoutConfigs s' = recurringPayoutConfigs s \<and>
    scheduledPayoutLegs s' = scheduledPayoutLegs s"
proof -
  obtain t l t2 l2 where run: "processLedgerDisbursement w kind data s =
      catch_op (transfer_and_settle w kind data accountName t) (failed_after_posting w data t) (s\<lparr>led := l\<rparr>)"
    and rev: "reverseTransaction (e_now w) (tx_id t) (lj_reference data @ ''_reversal'') l = (Inr t2, l2)"
    and l2: "\<forall>x. getBalance x l2 = getBalance x (led s)" "map_option tx_status (tx_lookup (lj_reference data) l2) = Some tx_reversed"
    using process_to_transfer[OF assms(1-3,6)] by metis
  let ?a = "asked kind data accountName t (s\<lparr>led := l\<rparr>)"
  let ?s' = "released data (?a\<lparr>led := l2\<rparr>)"
  have rr: "reverse_and_release w data (tx_id t) ?a = (Inr (), ?s')"
    by (rule reverse_and_release_run) (simp add: rev asked_frame)
  have "\<exists>m. processLedgerDisbursement w kind data s = (Inl (UnrecoverableError m), ?s')"
  proof (cases "e_transferToBankAccount w (transfer_request kind data accountName)")
    case (Inl e)
    then obtain m st where e: "e = NombaApiError m st" "st \<noteq> 0"
      using assms(7) by (auto simp: nomba_refuses_def split: error.splits)
    then show ?thesis
      by (simp add: run catch_op_def transfer_and_settle_run Inl failed_after_posting_def is_UnrecoverableError_def
          confirmedNotExecuted_def bnd_run[where m = "reverse_and_release w data (tx_id t)", OF rr] throw_def)
  next
    case (Inr status)
    then obtain c where "status = FAILURE_CODE c"
      using assms(7) by (auto simp: nomba_refuses_def split: transfer_status.splits)
    then show ?thesis
      by (simp add: run catch_op_def transfer_and_settle_run Inr settle_answer_def failed_after_posting_def
          is_UnrecoverableError_def bnd_assoc bnd_run[where m = "reverse_and_release w data (tx_id t)", OF rr] throw_def)
  qed
  moreover have "legs_held (lj_potId data) ?s' = legs_after data (legs_held (lj_potId data) s)"
    using assms(4,5) by (subst legs_held_released) (simp_all add: lock_asked)
  ultimately obtain m where "processLedgerDisbursement w kind data s = (Inl (UnrecoverableError m), ?s')"
    "legs_held (lj_potId data) ?s' = legs_after data (legs_held (lj_potId data) s)"
    by blast
  then show ?thesis
    using l2 by (intro exI[of _ m] exI[of _ ?s']) (simp add: released_frame asked_frame)
qed

theorem payout_refused_restores_witness:
  "\<exists>m s'. processLedgerDisbursement (answering (Inl (NombaApiError ''bad account'' 400))) op_payout example_job worker_db =
       (Inl (UnrecoverableError m), s') \<and> getBalance 2 (led s') = 20000 \<and> legs_held 7 s' = 0"
proof -
  have "getBalance 2 (led worker_db) = 20000" "lj_potId example_job = 7" "legs_after example_job 1 = 0"
    by code_simp+
  then show ?thesis
    using payout_refused_restores[OF worker_db_ok(1-4), of "answering (Inl (NombaApiError ''bad account'' 400))" "''Ada''" op_payout]
      worker_db_ok(5) by (auto simp: nomba_refuses_def)
qed

text \<open>C10. An unknown outcome keeps the money reserved. When Nomba answers PENDING_BILLING, or does not
  answer at all, the job ends with the amount and fees still taken from the pot, the transaction
  still processing and the lock still held, so nothing else can spend the money until a webhook
  settles it.\<close>

theorem unknown_outcome_reserves:
  assumes "wf_ledger (led s)" and "job_new data s" and "job_fits data s"
    and "e_lookupBankAccount w (lj_destinationAccount data) (lj_destinationBank data) = Inr accountName"
    and "nomba_silent (e_transferToBankAccount w (transfer_request kind data accountName))"
  shows "\<exists>r s'. processLedgerDisbursement w kind data s = (r, s') \<and>
    pot_funds (lj_potId data) s' = pot_funds (lj_potId data) s - (lj_amount data + OUTBOUND_FEE) \<and>
    map_option tx_status (tx_lookup (lj_reference data) (led s')) = Some tx_processing \<and>
    legs_held (lj_potId data) s' = legs_held (lj_potId data) s \<and>
    nombaTransfers s' = nombaTransfers s @ [transfer_request kind data accountName]"
proof -
  obtain t l where run: "processLedgerDisbursement w kind data s =
      catch_op (transfer_and_settle w kind data accountName t) (failed_after_posting w data t) (s\<lparr>led := l\<rparr>)"
    and l: "tx_lookup (lj_reference data) l = Some t" "tx_status t = tx_processing" "moved data s l"
    using process_to_transfer[OF assms(1-4)] by metis
  let ?a = "asked kind data accountName t (s\<lparr>led := l\<rparr>)"
  have "\<exists>r. processLedgerDisbursement w kind data s = (r, ?a)"
  proof (cases "e_transferToBankAccount w (transfer_request kind data accountName)")
    case (Inl e)
    then obtain m where "e = NombaApiError m 0"
      using assms(5) by (auto simp: nomba_silent_def split: error.splits)
    then show ?thesis
      by (simp add: run catch_op_def transfer_and_settle_run Inl failed_after_posting_def is_UnrecoverableError_def
          confirmedNotExecuted_def throw_def)
  next
    case (Inr status)
    then have "status = PENDING_BILLING"
      using assms(5) by (auto simp: nomba_silent_def split: transfer_status.splits)
    then show ?thesis
      by (simp add: run catch_op_def transfer_and_settle_run Inr settle_answer_def ret_def)
  qed
  then show ?thesis
    using l funds_led(1)[of ?a "s\<lparr>led := l\<rparr>"] by (auto simp: asked_frame lock_asked moved_def)
qed

theorem unknown_outcome_reserves_witness:
  "\<exists>r s'. processLedgerDisbursement (answering (Inl (NombaApiError ''timeout'' 0))) op_payout example_job worker_db = (r, s') \<and>
     pot_funds 7 s' = 5000 \<and> legs_held 7 s' = 1"
proof -
  have "pot_funds 7 worker_db = 20000" "lj_potId example_job = 7" "lj_amount example_job + OUTBOUND_FEE = 15000"
    by code_simp+
  then show ?thesis
    using unknown_outcome_reserves[OF worker_db_ok(1-3), of "answering (Inl (NombaApiError ''timeout'' 0))" "''Ada''" op_payout]
      worker_db_ok(5) by (auto simp: nomba_silent_def)
qed

text \<open>C11. A redelivered job does not pay twice. While the transaction under the job's reference is still
  processing and the pot's remaining funds would cover the job again, processing the job returns that
  transaction without calling Nomba, without moving any balance, and with the lock as it was.\<close>

theorem redelivery_calls_nomba_once:
  assumes "wf_ledger (led s)" and "1 \<le> lj_amount data"
    and "tx_lookup (lj_reference data) (led s) = Some t" and "tx_status t = tx_processing"
    and "lj_amount data + OUTBOUND_FEE \<le> pot_funds (lj_potId data) s"
  shows "\<exists>s'. processLedgerDisbursement w kind data s = (Inr t, s') \<and> nombaTransfers s' = nombaTransfers s \<and>
    pots s' = pots s \<and> balances (led s') = balances (led s) \<and> transactions (led s') = transactions (led s)"
proof -
  obtain src accs l where l: "accounts_added (led s) l"
    and run: "processLedgerDisbursement w kind data s =
      (let go = bnd (from_sum (e_lookupBankAccount w (lj_destinationAccount data) (lj_destinationBank data))) (\<lambda>accountName.
                attempt_disbursement w kind data accs accountName) in
       case tx_lookup (lj_reference data) l of
         Some t \<Rightarrow> if tx_status t = tx_processing then ret t else go
       | None \<Rightarrow> go) (s\<lparr>led := l\<rparr>)"
    by (rule process_accounts[OF assms(1,5,2), of w kind])
  then show ?thesis
    using assms(3,4) accounts_added_frame(1,3,5)[OF l] by (simp add: run ret_def)
qed

text \<open>The example payout, posted and still processing; N50 are left in the pot.\<close>

theorem redelivery_calls_nomba_once_witness:
  "\<exists>t s'. processLedgerDisbursement example_env op_payout (example_job\<lparr>lj_amount := 1\<rparr>)
       (settling_db\<lparr>led := run_calls [Post [] 0 (example_funding\<lparr>pi_reference := ''more''\<rparr>)] (led settling_db)\<rparr>) = (Inr t, s') \<and>
     nombaTransfers s' = []"
proof -
  let ?s = "settling_db\<lparr>led := run_calls [Post [] 0 (example_funding\<lparr>pi_reference := ''more''\<rparr>)] (led settling_db)\<rparr>"
  let ?job = "example_job\<lparr>lj_amount := 1\<rparr>"
  have wf: "wf_ledger (led ?s)"
    using wf_run_calls(2)[OF settling_db_wf] by (simp del: run_calls.simps)
  have facts: "map_option tx_status (tx_lookup (lj_reference ?job) (led ?s)) = Some tx_processing" "1 \<le> lj_amount ?job"
    "lj_amount ?job + OUTBOUND_FEE \<le> pot_funds (lj_potId ?job) ?s" "nombaTransfers ?s = []"
    by code_simp+
  then obtain t where "tx_lookup (lj_reference ?job) (led ?s) = Some t" "tx_status t = tx_processing"
    by auto
  from redelivery_calls_nomba_once[OF wf facts(2) this facts(3), of example_env op_payout] show ?thesis
    using facts(4) by metis
qed

section \<open>Three orders of events that break the promises\<close>

text \<open>
  The balance check comes before the redelivery guard and releases the lock. A payout of a pot's whole
  balance has left nothing in the pot, so a redelivery of its job while the outcome is unknown
  takes this branch: the lock is free while the transfer may still be under way.
\<close>

theorem redelivery_frees_lock_in_flight:
  assumes "pot_account (lj_potId data) s = Some a" and "wf_ledger (led s)"
    and "tx_lookup (lj_reference data) (led s) = Some t" and "tx_status t = tx_processing"
    and "pot_funds (lj_potId data) s < lj_amount data + OUTBOUND_FEE"
    and "pot_ok (lj_potId data) s" and "0 < legs_held (lj_potId data) s"
  shows "\<exists>m s'. processLedgerDisbursement w kind data s = (Inl (UnrecoverableError m), s') \<and>
    legs_held (lj_potId data) s' = legs_after data (legs_held (lj_potId data) s) \<and>
    tx_lookup (lj_reference data) (led s') = Some t"
proof -
  have found: "find (is_account_of pot_owner (Some (lj_potId data))) (accounts (led s)) = Some a"
    using assms(1) by (simp add: pot_account_def)
  then have ty: "acc_ownerType a = pot_owner" "acc_ownerId a = Some (lj_potId data)"
    by (auto simp: is_account_of_def dest: find_SomeD)
  obtain accs l where l: "fee_accounts_of a s = (Inr accs, s\<lparr>led := l\<rparr>)" "accounts_added (led s) l"
    by (rule fee_accounts_step[OF assms(2), of a]) (use found ty in simp_all)
  have acc: "in_ledger (getOrCreatePotAccount (lj_potId data)) s = (Inr a, s)"
    using found by (simp add: in_ledger_run getOrCreatePotAccount_def getOrCreateAccount_existing)
  have "getBalance (acc_id a) l = pot_funds (lj_potId data) s"
    using accounts_added_frame(4)[OF l(2)] assms(1) by (simp add: pot_funds_def)
  then have "\<exists>m. processLedgerDisbursement w kind data s = (Inl (UnrecoverableError m), released data (s\<lparr>led := l\<rparr>))"
    using assms(5)
    by (simp add: processLedgerDisbursement_def bnd_def[of "in_ledger m" for m] bnd_def[of "fee_accounts_of a" for a] acc l(1)
        bnd_run[where m = "releaseLock data", OF releaseLock_run] throw_def)
  moreover have "legs_held (lj_potId data) (released data (s\<lparr>led := l\<rparr>)) = legs_after data (legs_held (lj_potId data) s)"
    using assms(6,7) by (subst legs_held_released) simp_all
  ultimately show ?thesis
    using assms(3) accounts_added_frame(5)[OF l(2)] by (auto simp: released_frame)
qed

theorem redelivery_frees_lock_in_flight_witness:
  "\<exists>m s'. processLedgerDisbursement example_env op_payout example_job settling_db = (Inl (UnrecoverableError m), s') \<and>
     legs_held 7 s' = 0 \<and> map_option tx_status (tx_lookup ''p'' (led s')) = Some tx_processing"
proof -
  have "map_option tx_status (tx_lookup (lj_reference example_job) (led settling_db)) = Some tx_processing"
    "pot_funds (lj_potId example_job) settling_db < lj_amount example_job + OUTBOUND_FEE" "legs_held (lj_potId example_job) settling_db = 1"
    "lj_potId example_job = 7" "lj_reference example_job = ''p''" "legs_after example_job 1 = 0"
    "map_option acc_id (pot_account (lj_potId example_job) settling_db) = Some 2"
    by code_simp+
  moreover have "pot_ok (lj_potId example_job) settling_db"
    by (simp add: pot_ok_def wf_pots_def find_pot_def settling_db_def example_job_def claim_lock_def example_pot_def)
  moreover from calculation(1,7) obtain t a where "tx_lookup (lj_reference example_job) (led settling_db) = Some t"
    "tx_status t = tx_processing" "pot_account (lj_potId example_job) settling_db = Some a"
    by auto
  ultimately show ?thesis
    using redelivery_frees_lock_in_flight[OF _ settling_db_wf, of example_job a t example_env op_payout] by auto
qed

text \<open>
  The guard only covers \<open>processing\<close>. Retrying a job whose transaction was reversed posts nothing (the
  reference exists) and calls Nomba: the transfer goes out and no balance moves.
\<close>

theorem retry_after_reversal_pays_unbooked:
  assumes "wf_ledger (led s)" and "1 \<le> lj_amount data"
    and "tx_lookup (lj_reference data) (led s) = Some t" and "tx_status t = tx_reversed"
    and "lj_amount data + OUTBOUND_FEE \<le> pot_funds (lj_potId data) s"
    and "e_lookupBankAccount w (lj_destinationAccount data) (lj_destinationBank data) = Inr accountName"
    and "e_transferToBankAccount w (transfer_request kind data accountName) = Inr SUCCESS"
    and "e_completionFault w = None" and "lj_onSuccess data = None"
  shows "\<exists>s'. processLedgerDisbursement w kind data s = (Inr t, s') \<and>
    nombaTransfers s' = nombaTransfers s @ [transfer_request kind data accountName] \<and>
    balances (led s') = balances (led s) \<and> ledgerEntries (led s') = ledgerEntries (led s)"
proof -
  obtain src accs l where l: "accounts_added (led s) l" "wf_ledger l" "fee_accounts_in src accs l"
    and run: "processLedgerDisbursement w kind data s =
      (let go = bnd (from_sum (e_lookupBankAccount w (lj_destinationAccount data) (lj_destinationBank data))) (\<lambda>accountName.
                attempt_disbursement w kind data accs accountName) in
       case tx_lookup (lj_reference data) l of
         Some t \<Rightarrow> if tx_status t = tx_processing then ret t else go
       | None \<Rightarrow> go) (s\<lparr>led := l\<rparr>)"
    by (rule process_accounts[OF assms(1,5,2), of w kind])
  let ?in = "disbursement_input kind data accs accountName"
  note frame = accounts_added_frame[OF l(1)]
  have t: "tx_lookup (lj_reference data) l = Some t"
    using assms(3) by (simp add: frame)
  have "balanced (pi_entries ?in)" "pi_reference ?in = lj_reference data"
    using outbound.legs_balanced[OF assms(2), of accs] by (simp_all add: disbursement_input_def)
  then have post: "postTransaction (e_now w) ?in l = (Inr t, l)"
    using postTransaction_existing[where input = ?in, of l t id "e_now w"] t by (simp add: postTransaction_def)
  let ?a = "asked kind data accountName t (s\<lparr>led := l\<rparr>)"
  obtain l2 where l2: "markCompleted (e_now w) (tx_id t) l = (Inr (complete_at (e_now w) t), l2)" "balances l2 = balances l" "ledgerEntries l2 = ledgerEntries l"
  proof -
    have "t \<in> set (transactions l)"
      using t find_SomeD by (fastforce simp: tx_lookup_def)
    from find_key_SomeI[OF wf_ledgerD(2)[OF l(2)] this] show ?thesis
      using that[of "l\<lparr>transactions := update_where (\<lambda>x. tx_id x = tx_id t) (complete_at (e_now w)) (transactions l)\<rparr>"]
      by (simp add: markCompleted_def bnd_def modify_def gets_def complete_at.find_same ret_def)
  qed
  have cmp: "complete_or_fault w (tx_id t) ?a = (Inr (), ?a\<lparr>led := l2\<rparr>)"
    by (simp add: complete_or_fault_def assms(8) bnd_def in_ledger_run asked_frame l2(1) ret_def)
  have "seq (settle_answer w data t SUCCESS) (ret t) ?a = (Inr t, released data (?a\<lparr>led := l2\<rparr>))"
    by (rule settle_success[OF cmp]) (simp add: assms(9) ret_def)
  then have "processLedgerDisbursement w kind data s = (Inr t, released data (?a\<lparr>led := l2\<rparr>))"
    using t post assms(4,6)
    by (simp add: run from_sum_run attempt_posted[where s = "s\<lparr>led := l\<rparr>"] catch_op_def[of "transfer_and_settle w k d n t" for k d n]
        transfer_and_settle_run assms(7))
  then show ?thesis
    using l2 frame by (simp add: released_frame asked_frame)
qed

theorem retry_after_reversal_pays_unbooked_witness:
  "\<exists>t s'. processLedgerDisbursement (answering (Inr SUCCESS)) op_payout example_job
       (snd (resolvePendingTransfer example_env ''p'' outcome_failed settling_db)) = (Inr t, s') \<and>
     length (nombaTransfers s') = 1 \<and> getBalance 2 (led s') = 20000"
proof -
  let ?s = "snd (resolvePendingTransfer example_env ''p'' outcome_failed settling_db)"
  have "preserves (\<lambda>s. wf_ledger (led s)) (resolvePendingTransfer example_env ''p'' outcome_failed)"
    by (rule resolve_wf)
  then have wf: "wf_ledger (led ?s)"
    using settling_db_wf by (simp add: preserves_def)
  have facts: "map_option tx_status (tx_lookup (lj_reference example_job) (led ?s)) = Some tx_reversed" "1 \<le> lj_amount example_job"
    "lj_amount example_job + OUTBOUND_FEE \<le> pot_funds (lj_potId example_job) ?s" "nombaTransfers ?s = []"
    "lj_onSuccess example_job = None" "getBalance 2 (led ?s) = 20000"
    by code_simp+
  then obtain t where "tx_lookup (lj_reference example_job) (led ?s) = Some t" "tx_status t = tx_reversed"
    by auto
  from retry_after_reversal_pays_unbooked[OF wf facts(2) this facts(3), of "answering (Inr SUCCESS)" "''Ada''" op_payout]
  obtain s' where "processLedgerDisbursement (answering (Inr SUCCESS)) op_payout example_job ?s = (Inr t, s')"
    "nombaTransfers s' = nombaTransfers ?s @ [transfer_request op_payout example_job ''Ada'']" "balances (led s') = balances (led ?s)"
    using facts(5) by auto
  then show ?thesis
    using facts(4,6) by (intro exI[of _ t] exI[of _ s']) (simp add: getBalance_def)
qed

text \<open>
  Any error after Nomba's SUCCESS that is not Nomba's own counts as "confirmed not executed". When the
  database fails at the write that records the completion, the posting is reversed although the money left.
\<close>

theorem completion_fault_reverses_paid_transfer:
  assumes "wf_ledger (led s)" and "job_new data s" and "job_fits data s"
    and "e_lookupBankAccount w (lj_destinationAccount data) (lj_destinationBank data) = Inr accountName"
    and "e_transferToBankAccount w (transfer_request kind data accountName) = Inr SUCCESS"
    and "e_completionFault w = Some err" and "confirmedNotExecuted err" and "\<not> is_UnrecoverableError err"
  shows "\<exists>m s'. processLedgerDisbursement w kind data s = (Inl (UnrecoverableError m), s') \<and>
    nombaTransfers s' = nombaTransfers s @ [transfer_request kind data accountName] \<and>
    (\<forall>a. getBalance a (led s') = getBalance a (led s))"
proof -
  obtain t l t2 l2 where run: "processLedgerDisbursement w kind data s =
      catch_op (transfer_and_settle w kind data accountName t) (failed_after_posting w data t) (s\<lparr>led := l\<rparr>)"
    and rev: "reverseTransaction (e_now w) (tx_id t) (lj_reference data @ ''_reversal'') l = (Inr t2, l2)"
    and l2: "\<forall>x. getBalance x l2 = getBalance x (led s)"
    using process_to_transfer[OF assms(1-4)] by metis
  let ?a = "asked kind data accountName t (s\<lparr>led := l\<rparr>)"
  let ?s' = "released data (?a\<lparr>led := l2\<rparr>)"
  have rr: "reverse_and_release w data (tx_id t) ?a = (Inr (), ?s')"
    by (rule reverse_and_release_run) (simp add: rev asked_frame)
  obtain m where "failed_after_posting w data t err ?a = (Inl (UnrecoverableError m), ?s')"
    using failed_after_posting_run[OF assms(8,7) rr] by blast
  moreover have "transfer_and_settle w kind data accountName t (s\<lparr>led := l\<rparr>) = (Inl err, ?a)"
    by (simp add: transfer_and_settle_run assms(5,6) settle_answer_def complete_or_fault_def throw_def)
  ultimately have "\<exists>m. processLedgerDisbursement w kind data s = (Inl (UnrecoverableError m), ?s')"
    by (simp add: run catch_op_def)
  then show ?thesis
    using l2 by (auto simp: released_frame asked_frame)
qed

theorem completion_fault_reverses_paid_transfer_witness:
  "\<exists>m s'. processLedgerDisbursement ((answering (Inr SUCCESS))\<lparr>e_completionFault := Some (PlainError ''connection lost'')\<rparr>)
       op_payout example_job worker_db = (Inl (UnrecoverableError m), s') \<and>
     length (nombaTransfers s') = 1 \<and> getBalance 2 (led s') = 20000"
proof -
  have "getBalance 2 (led worker_db) = 20000" "nombaTransfers worker_db = []" by code_simp+
  then show ?thesis
    using completion_fault_reverses_paid_transfer[OF worker_db_ok(1-3), of
        "(answering (Inr SUCCESS))\<lparr>e_completionFault := Some (PlainError ''connection lost'')\<rparr>" "''Ada''" op_payout
        "PlainError ''connection lost''"]
    by (auto simp: confirmedNotExecuted_def is_UnrecoverableError_def answering_def example_env_def)
qed

end
