(* ===== verification/Contributions.thy ===== *)
theory Contributions
  imports Target
begin

text \<open>
  \<open>modules/pots/contributions.service.ts\<close> and the two Nomba client calls it makes
  (\<open>createVirtualAccount\<close> and \<open>refundOverpayment\<close> of \<open>nomba.client.ts\<close>): issuing a virtual account for a
  contribution, crediting the pot once the payments reach the expected amount, and taking a reversed
  payment back out. The gap between reading a contribution and recording a payment is where \<open>e_gap\<close> lets
  other requests in.
\<close>

section \<open>The virtual account's name\<close>

definition is_alnum :: "char \<Rightarrow> bool" where
  "is_alnum c \<longleftrightarrow> is_digit c \<or> (let n = of_char c :: nat in 65 \<le> n \<and> n \<le> 90 \<or> 97 \<le> n \<and> n \<le> 122)"

text \<open>Blanks squeezed to one, \<open>trim()\<close>: after the first \<open>replace\<close> the only white space left is the blank.\<close>

fun squeeze :: "string \<Rightarrow> string" where
  "squeeze (c # d # cs) = (if c = CHR '' '' \<and> d = CHR '' '' then squeeze (d # cs) else c # squeeze (d # cs))"
| "squeeze cs = cs"

definition trim :: "string \<Rightarrow> string" where
  "trim cs = rev (dropWhile (\<lambda>c. c = CHR '' '') (rev (dropWhile (\<lambda>c. c = CHR '' '') cs)))"

definition cleanTitle :: "string \<Rightarrow> string" where
  "cleanTitle title = take 20 (trim (squeeze (filter (\<lambda>c. is_alnum c \<or> c = CHR '' '') title)))"

definition placeholder_name :: "string \<Rightarrow> string" where
  "placeholder_name title = trim (''Glasspot '' @ cleanTitle title)"

section \<open>The expiry date Nomba is sent\<close>

text \<open>\<open>getUTCFullYear\<close>, \<open>getUTCMonth + 1\<close>, \<open>getUTCDate\<close> of a number of days since 1970-01-01.\<close>

definition utc_date :: "int \<Rightarrow> int \<times> int \<times> int" where
  "utc_date days =
     (let z = days + 719468; era = z div 146097; doe = z mod 146097;
          yoe = (doe - doe div 1460 + doe div 36524 - doe div 146096) div 365;
          doy = doe - (365 * yoe + yoe div 4 - yoe div 100); mp = (5 * doy + 2) div 153;
          d = doy - (153 * mp + 2) div 5 + 1; m = (if mp < 10 then mp + 3 else mp - 9);
          y = yoe + era * 400 + (if m \<le> 2 then 1 else 0)
      in (y, m, d))"

definition pad2 :: "int \<Rightarrow> string" where
  "pad2 n = padStart 2 CHR ''0'' (show_int n)"

definition formatNombaExpiryDate :: "time \<Rightarrow> string" where
  "formatNombaExpiryDate t =
     (let secs = t div 1000; (y, m, d) = utc_date (secs div 86400); r = secs mod 86400 in
      show_int y @ ''-'' @ pad2 m @ ''-'' @ pad2 d @ '' '' @
      pad2 (r div 3600) @ '':'' @ pad2 (r mod 3600 div 60) @ '':'' @ pad2 (r mod 60))"

section \<open>The two Nomba calls\<close>

definition createVirtualAccount :: "env \<Rightarrow> account_request \<Rightarrow> (db, virtual_account) op" where
  "createVirtualAccount w params =
     (if length (ar_accountRef params) < 16 \<or> 64 < length (ar_accountRef params)
      then throw (PlainError ''accountRef must be 16-64 characters'')
      else if length (ar_accountName params) < 8 \<or> 64 < length (ar_accountName params)
      then throw (PlainError ''accountName must be 8-64 characters'')
      else from_sum (e_createVirtualAccount w params))"

text \<open>The expected amount goes through \<open>Number\<close> and \<open>toFixed(2)\<close> in the code, the excess through \<open>Number\<close>; the texts stand
  for the numbers here, exactly below 2^52 kobo (\<open>Numbers.float_detour_exact\<close>). The client is built without a
  \<open>businessName\<close>, so the sender is "Refund".\<close>

definition refundOverpayment :: "env \<Rightarrow> webhook_data \<Rightarrow> string \<Rightarrow> (db, transfer_status) op" where
  "refundOverpayment w payment expectedAmountNaira =
     bnd (from_sum (nairaStringToKobo (wd_amountFixed2 payment))) (\<lambda>transactionAmountKobo.
     bnd (from_sum (nairaStringToKobo expectedAmountNaira)) (\<lambda>expectedAmountKobo.
     let excessKobo = transactionAmountKobo - expectedAmountKobo in
     seq (require (\<not> excessKobo \<le> 0)
            (PlainError ''refundOverpayment() called but transactionAmount does not exceed expectedAmountNaira''))
     (seq (require (truthy (wd_accountNumber payment) \<and> truthy (wd_senderName payment) \<and> truthy (wd_bankCode payment))
            (PlainError ''refundOverpayment() called with a payload missing the sender's bank details''))
     (let params = \<lparr>tp_amountNaira = koboToNairaString excessKobo, tp_accountNumber = the (wd_accountNumber payment),
            tp_accountName = the (wd_senderName payment), tp_bankCode = the (wd_bankCode payment),
            tp_merchantTxRef = ''refund_'' @ wd_transactionId payment, tp_senderName = ''Refund'',
            tp_narration = ''Refund of overpayment on '' @ (case wd_aliasAccountNumber payment of Some a \<Rightarrow> a | None \<Rightarrow> ''undefined'')\<rparr>
      in seq (modify (\<lambda>s. s\<lparr>nombaTransfers := nombaTransfers s @ [params]\<rparr>))
         (from_sum (e_transferToBankAccount w params))))))"

section \<open>Issuing a contribution\<close>

definition CONTRIBUTION_EXPIRY_HOURS :: int where "CONTRIBUTION_EXPIRY_HOURS = 24"

record ContributeInput =
  ci_amount :: string
  ci_anonymous :: "bool option"
  ci_refundAccountNumber :: "string option"
  ci_refundBankCode :: "string option"

text \<open>The three refund fields the contribution stores.\<close>

definition refund_fields :: "env \<Rightarrow> pot \<Rightarrow> ContributeInput \<Rightarrow> (db, string option \<times> string option \<times> string option) op" where
  "refund_fields w p input =
     (if pot_refundType p = refund_contributors
      then if truthy (ci_refundAccountNumber input) \<or> truthy (ci_refundBankCode input)
           then seq (require (truthy (ci_refundAccountNumber input) \<and> truthy (ci_refundBankCode input))
                       (PotError ''refundAccountNumber and refundBankCode must both be set or both omitted'' 400))
                (bnd (verifyAccountDetails w (the (ci_refundAccountNumber input)) (the (ci_refundBankCode input))) (\<lambda>name.
                 ret (ci_refundAccountNumber input, Some name, ci_refundBankCode input)))
           else ret (None, None, None)
      else seq (require (\<not> (truthy (ci_refundAccountNumber input) \<or> truthy (ci_refundBankCode input)))
                  (PotError ''This pot does not use per-contributor refunds. Omit refundAccountNumber/refundBankCode'' 400))
           (ret (None, None, None)))"

definition account_name :: "pot \<Rightarrow> uuid option \<Rightarrow> string option \<Rightarrow> (db, string) op" where
  "account_name p userId refundAccountName =
     (case userId of
        Some u \<Rightarrow> bnd (gets (\<lambda>s. find (\<lambda>x. u_id x = u) (users s))) (\<lambda>contributor.
          case contributor of
            None \<Rightarrow> throw (PotError ''Contributor not found'' 404)
          | Some x \<Rightarrow> ret (u_fullName x))
      | None \<Rightarrow> ret (case refundAccountName of Some n \<Rightarrow> n | None \<Rightarrow> placeholder_name (pot_title p)))"

definition insert_contribution :: "contribution \<Rightarrow> (db, contribution) op" where
  "insert_contribution c s =
     (let c' = c\<lparr>c_id := fresh_id (map c_id (contributions s))\<rparr> in (Inr c', s\<lparr>contributions := contributions s @ [c']\<rparr>))"

definition create :: "env \<Rightarrow> uuid \<Rightarrow> uuid option \<Rightarrow> ContributeInput \<Rightarrow> (db, contribution) op" where
  "create w potId userId input =
     bnd (getViewablePotOrThrow potId userId) (\<lambda>p.
     seq (require (pot_status p = pot_open) (PotError ''Pot must be open to accept contributions'' 409))
     (bnd (from_sum (nairaStringToKobo (ci_amount input))) (\<lambda>amount.
     seq (require (\<not> amount < pot_minContribution p)
            (PotError (''Contribution must be at least N'' @ koboToNairaString (pot_minContribution p)) 400))
     (seq (require (case pot_maxContribution p of None \<Rightarrow> True | Some m \<Rightarrow> \<not> m < amount)
            (PotError (''Contribution must not exceed N'' @ koboToNairaString (the (pot_maxContribution p))) 400))
     (bnd (refund_fields w p input) (\<lambda>(refundAccountNumber, refundAccountName, refundBank).
     bnd (account_name p userId refundAccountName) (\<lambda>accountName.
     bnd (randomUUID w) (\<lambda>u.
     let virtualAccountRef = ''contribution_'' @ uuid_text u;
         expiresAt = e_now w + CONTRIBUTION_EXPIRY_HOURS * 60 * 60 * 1000;
         grossExpectedAmount = amount + inboundFeeFor amount in
     bnd (createVirtualAccount w \<lparr>ar_accountRef = virtualAccountRef, ar_accountName = accountName,
            ar_expiryDate = formatNombaExpiryDate expiresAt\<rparr>) (\<lambda>virtualAccount.
     seq (require (truthy (va_bankAccountNumber virtualAccount) \<and> truthy (va_bankName virtualAccount))
            (NombaApiError ''Nomba returned a virtual account with no account number'' 200))
     (insert_contribution
        \<lparr>c_id = 0, c_potId = potId, c_contributorUserId = userId, c_virtualAccountRef = virtualAccountRef,
         c_virtualAccountNumber = va_bankAccountNumber virtualAccount, c_virtualAccountBankName = va_bankName virtualAccount,
         c_expectedAmount = grossExpectedAmount, c_intendedAmount = amount, c_status = c_pending,
         c_anonymous = (case ci_anonymous input of Some b \<Rightarrow> b | None \<Rightarrow> False),
         c_refundAccountNumber = refundAccountNumber, c_refundAccountName = refundAccountName, c_refundBank = refundBank,
         c_transactionId = None, c_expiresAt = expiresAt, c_fundedAt = None\<rparr>))))))))))"

section \<open>A payment arrives\<close>

definition contribution_by_account :: "string \<Rightarrow> db \<Rightarrow> contribution option" where
  "contribution_by_account n s = find (\<lambda>c. c_virtualAccountNumber c = Some n) (contributions s)"

text \<open>The row's insert: \<open>nomba_transaction_id\<close> is unique.\<close>

definition insert_payment :: "contribution \<Rightarrow> webhook_data \<Rightarrow> kobo \<Rightarrow> (db, unit) op" where
  "insert_payment c payment amount s =
     (if wd_transactionId payment \<in> cp_nombaTransactionId ` set (contributionPayments s) then (Inl UniqueViolation, s)
      else (Inr (), s\<lparr>contributionPayments := contributionPayments s @
        [\<lparr>cp_id = fresh_id (map cp_id (contributionPayments s)), cp_contributionId = c_id c,
          cp_nombaTransactionId = wd_transactionId payment, cp_amount = amount,
          cp_senderAccountNumber = the (wd_accountNumber payment), cp_senderBankCode = the (wd_bankCode payment),
          cp_senderName = the (wd_senderName payment), cp_refunded = False\<rparr>]\<rparr>))"

definition received_total :: "uuid \<Rightarrow> db \<Rightarrow> kobo" where
  "received_total cid s = (\<Sum>p\<leftarrow>filter (\<lambda>p. cp_contributionId p = cid) (contributionPayments s). cp_amount p)"

definition set_contribution_status :: "contribution_status \<Rightarrow> contribution \<Rightarrow> contribution" where
  "set_contribution_status st c = c\<lparr>c_status := st\<rparr>"

definition set_funded :: "uuid \<Rightarrow> time \<Rightarrow> contribution \<Rightarrow> contribution" where
  "set_funded t now c = c\<lparr>c_status := c_funded, c_transactionId := Some t, c_fundedAt := Some now\<rparr>"

definition update_contribution :: "uuid \<Rightarrow> (contribution \<Rightarrow> contribution) \<Rightarrow> (db, unit) op" where
  "update_contribution cid f =
     modify (\<lambda>s. s\<lparr>contributions := update_where (\<lambda>c. c_id c = cid) f (contributions s)\<rparr>)"

definition funding_accounts :: "uuid \<Rightarrow> (db, fee_accounts) op" where
  "funding_accounts potId =
     bnd (in_ledger (getOrCreateSystemAccount platform_float)) (\<lambda>platformFloat.
     bnd (in_ledger (getOrCreatePotAccount potId)) (\<lambda>potAccount.
     bnd (in_ledger (getOrCreateSystemAccount platform_revenue)) (\<lambda>platformRevenue.
     bnd (in_ledger (getOrCreateSystemAccount nomba_fee_expense)) (\<lambda>nombaFeeExpense.
     bnd (in_ledger (getOrCreateSystemAccount nomba_clearing)) (\<lambda>nombaClearing.
     ret \<lparr>fa_sourceId = acc_id potAccount, fa_platformFloatId = acc_id platformFloat,
          fa_platformRevenueId = acc_id platformRevenue, fa_nombaFeeExpenseId = acc_id nombaFeeExpense,
          fa_nombaClearingId = acc_id nombaClearing\<rparr>)))))"

definition funding_input :: "contribution \<Rightarrow> webhook_data \<Rightarrow> fee_accounts \<Rightarrow> PostTransactionInput" where
  "funding_input c payment accs =
     \<lparr>pi_type = ty_contribution, pi_reference = ''contribution_'' @ uuid_text (c_id c),
      pi_entries = inboundFeeLegs accs (c_intendedAmount c), pi_amount = c_intendedAmount c,
      pi_externalReference = Some (wd_transactionId payment),
      pi_metadata = Some (no_metadata\<lparr>md_potId := Some (c_potId c), md_contributorUserId := c_contributorUserId c,
         md_anonymous := Some (c_anonymous c), md_senderName := wd_senderName payment,
         md_refundAccountNumber := c_refundAccountNumber c, md_refundAccountName := c_refundAccountName c,
         md_refundBank := c_refundBank c\<rparr>),
      pi_status = None, pi_onSuccess = None\<rparr>"

text \<open>\<open>thisPaymentNeeded\<close>, and the part of this payment that goes back.\<close>

definition this_payment_needed :: "kobo \<Rightarrow> kobo \<Rightarrow> kobo" where
  "this_payment_needed amount excess = (if 0 < amount - excess then amount - excess else 0)"

definition overpayment_input :: "contribution \<Rightarrow> webhook_data \<Rightarrow> fee_accounts \<Rightarrow> uuid \<Rightarrow> kobo \<Rightarrow> PostTransactionInput" where
  "overpayment_input c payment accs suspenseId refundAmount =
     \<lparr>pi_type = ty_refund, pi_reference = ''overpayment_refund_'' @ wd_transactionId payment,
      pi_entries = overpaymentRefundLegs (accs\<lparr>fa_sourceId := suspenseId\<rparr>) refundAmount, pi_amount = refundAmount,
      pi_externalReference = None,
      pi_metadata = Some (no_metadata\<lparr>md_potId := Some (c_potId c), md_contributionId := Some (c_id c)\<rparr>),
      pi_status = None, pi_onSuccess = None\<rparr>"

definition refund_excess :: "env \<Rightarrow> contribution \<Rightarrow> webhook_data \<Rightarrow> fee_accounts \<Rightarrow> kobo \<Rightarrow> kobo \<Rightarrow> (db, unit) op" where
  "refund_excess w c payment accs amount receivedTotal =
     (let excess = receivedTotal - c_expectedAmount c;
          thisPaymentNeeded = this_payment_needed amount excess;
          thisPaymentExcess = amount - thisPaymentNeeded in
      if 0 < excess \<and> OUTBOUND_FEE < thisPaymentExcess
      then bnd (in_ledger (getOrCreateSystemAccount suspense)) (\<lambda>suspenseAccount.
           seq (in_ledger (postTransaction (e_now w)
                  (overpayment_input c payment accs (acc_id suspenseAccount) (thisPaymentExcess - OUTBOUND_FEE))))
           (seq (refundOverpayment w payment (koboToNairaString (thisPaymentNeeded + OUTBOUND_FEE)))
           (ret ())))
      else ret ())"

text \<open>From the moment the payments cover the expected amount.\<close>

definition fund_contribution :: "env \<Rightarrow> contribution \<Rightarrow> webhook_data \<Rightarrow> kobo \<Rightarrow> kobo \<Rightarrow> (db, unit) op" where
  "fund_contribution w c payment amount receivedTotal =
     bnd (funding_accounts (c_potId c)) (\<lambda>accs.
     bnd (in_ledger (postTransaction (e_now w) (funding_input c payment accs))) (\<lambda>transaction.
     seq (update_contribution (c_id c) (set_funded (tx_id transaction) (e_now w)))
     (seq (catch_op (checkAndFireForPot w (c_potId c)) (\<lambda>err. ret ()))
     (refund_excess w c payment accs amount receivedTotal))))"

definition record_payment :: "env \<Rightarrow> contribution \<Rightarrow> webhook_data \<Rightarrow> kobo \<Rightarrow> (db, unit) op" where
  "record_payment w c payment amount =
     bnd (catch_op (seq (insert_payment c payment amount) (ret True))
            (\<lambda>err. if err = UniqueViolation then ret False else throw err)) (\<lambda>recorded.
     if \<not> recorded then ret ()
     else bnd (gets (received_total (c_id c))) (\<lambda>receivedTotal.
       if receivedTotal < c_expectedAmount c then update_contribution (c_id c) (set_contribution_status c_underpaid)
       else fund_contribution w c payment amount receivedTotal))"

definition confirmFunding :: "env \<Rightarrow> webhook_data \<Rightarrow> (db, unit) op" where
  "confirmFunding w payment =
     (case wd_aliasAccountNumber payment of
        None \<Rightarrow> ret ()
      | Some alias \<Rightarrow> if alias = [] then ret ()
          else bnd (gets (contribution_by_account alias)) (\<lambda>row.
          case row of
            None \<Rightarrow> ret ()
          | Some c \<Rightarrow>
              if c_status c \<noteq> c_pending \<and> c_status c \<noteq> c_underpaid then ret ()
              else seq (require (truthy (wd_accountNumber payment) \<and> truthy (wd_bankCode payment) \<and> truthy (wd_senderName payment))
                     (PlainError ''payment_success payload missing customer bank details''))
                (case nairaStringToKobo (wd_amountFixed2 payment) of
                   Inl err \<Rightarrow> ret ()
                 | Inr amount \<Rightarrow> seq (in_gap w) (record_payment w c payment amount))))"

section \<open>A payment is taken back\<close>

definition reverseFunding :: "env \<Rightarrow> webhook_data \<Rightarrow> (db, unit) op" where
  "reverseFunding w payment =
     (case wd_aliasAccountNumber payment of
        None \<Rightarrow> ret ()
      | Some alias \<Rightarrow> if alias = [] then ret ()
          else bnd (gets (contribution_by_account alias)) (\<lambda>row.
          case row of
            None \<Rightarrow> ret ()
          | Some c \<Rightarrow>
              if c_status c \<noteq> c_funded then ret ()
              else case c_transactionId c of
                None \<Rightarrow> ret ()
              | Some t \<Rightarrow>
                  bnd (gets (find_pot (c_potId c))) (\<lambda>p.
                  seq (require (Option.bind p pot_pendingOperation = None)
                         (PotError (''Cannot reverse contribution '' @ uuid_text (c_id c) @ '' while pot ''
                            @ uuid_text (c_potId c) @ '' has a payout/refund in flight'') 409))
                  (seq (in_ledger (reverseTransaction (e_now w) t (''contribution_'' @ uuid_text (c_id c) @ ''_reversal'')))
                  (update_contribution (c_id c) (set_contribution_status c_reversed))))))"

end
