(* ===== verification/Frames.thy ===== *)
theory Frames
  imports Contributions Worker_Laws
begin

text \<open>
  What a disbursement leaves alone. Enqueueing a payout or a refund only ever adds an account, takes or
  releases a lock, draws a random id and appends a job; the interface \<open>disbursement_frame\<close> says this of an
  invariant, and its lemmas carry the invariant through every operation built from these steps. It is
  instantiated with the ledger's balances and rows, its well-formedness, and the tables of contributions.
\<close>

text \<open>Claiming and releasing a lock changes nothing of a pot but the lock.\<close>

lemma lock_fields:
  "map clear_lock (update_where P (claim_lock kind n) ps) = map clear_lock ps"
  "map clear_lock (update_where P clear_lock ps) = map clear_lock ps"
  "map clear_lock (update_where P dec_lock ps) = map clear_lock ps"
  by (intro map_update_where; simp add: clear_lock_def claim_lock_def dec_lock_def)+

locale disbursement_frame =
  fixes I :: "db \<Rightarrow> bool"
  assumes keeps_account: "preserves I (in_ledger (getOrCreateAccount ty owner))"
    and keeps_pots: "I s \<Longrightarrow> map clear_lock ps = map clear_lock (pots s) \<Longrightarrow> I (s\<lparr>pots := ps\<rparr>)"
    and keeps_draws: "I s \<Longrightarrow> I (s\<lparr>randomDraws := n\<rparr>)"
    and keeps_queue: "I s \<Longrightarrow> I (s\<lparr>transfersQueue := jobs\<rparr>)"
begin

lemma pot_balance: "preserves I (pot_balance q)"
  unfolding pot_balance_def getOrCreatePotAccount_def by (intro preserves_intros keeps_account)

lemma system_account: "preserves I (in_ledger (getOrCreateSystemAccount ty))"
  unfolding getOrCreateSystemAccount_def by (rule keeps_account)

lemma pot_account: "preserves I (in_ledger (getOrCreatePotAccount q))"
  unfolding getOrCreatePotAccount_def by (rule keeps_account)

lemma randomUUID: "preserves I (randomUUID w)"
  unfolding randomUUID_def by (intro preserves_intros preserves_modify keeps_draws)

lemma add_job: "preserves I (add_job w job)"
  unfolding add_job_def by (intro preserves_intros preserves_modify) (simp add: keeps_queue)

lemma claim: "preserves I (claimPendingOperation q kind n)"
  by (simp add: preserves_def claimPendingOperation_def Let_def keeps_pots lock_fields)

lemma clear: "preserves I (clearPendingOperation q)"
  unfolding clearPendingOperation_def by (intro preserves_modify keeps_pots) (simp_all add: lock_fields)

lemma decrement: "preserves I (decrementPendingOperationLeg q)"
  unfolding decrementPendingOperationLeg_def
  by (intro preserves_intros preserves_modify keeps_pots clear) (simp_all add: lock_fields)

lemma gap: "e_gap w = id \<Longrightarrow> preserves I (in_gap w)"
  by (simp add: in_gap_def preserves_def modify_def)

lemma postFixedAmountDisbursement:
  "e_gap w = id \<Longrightarrow> preserves I (postFixedAmountDisbursement w p kind amount dest onSuccess contributor)"
  unfolding postFixedAmountDisbursement_def enqueue_for_def enqueuePayout_def enqueuePotRefund_def
  by (intro preserves_intros pot_balance randomUUID gap claim add_job)

lemma postDisbursement: "e_gap w = id \<Longrightarrow> preserves I (postDisbursement w p kind dest onSuccess)"
  unfolding postDisbursement_def by (intro preserves_intros pot_balance postFixedAmountDisbursement)

lemma send_leg: "preserves I (send_leg w q leg)"
  unfolding send_leg_def enqueuePotRefund_def by (intro preserves_intros decrement randomUUID add_job)

lemma tryFire: "e_gap w = id \<Longrightarrow> preserves I (tryFire w p config balance)"
  unfolding tryFire_def by (intro preserves_intros postDisbursement)

lemma checkAndFireForPot: "e_gap w = id \<Longrightarrow> preserves I (checkAndFireForPot w q)"
  unfolding checkAndFireForPot_def by (intro preserves_intros pot_balance tryFire)

lemma fireDueTargetBasedPayouts:
  assumes "e_gap w = id"
  shows "preserves I (fireDueTargetBasedPayouts w)"
proof -
  have "preserves I ((case x of (config, p) \<Rightarrow> \<lambda>counts. bnd (pot_balance (pot_id p)) (\<lambda>balance.
      bnd (tryFire w p config balance) (\<lambda>outcome. ret (count_outcome outcome counts)))) a)" for x a
    by (cases x) (auto intro!: preserves_intros pot_balance tryFire[OF assms])
  then show ?thesis
    unfolding fireDueTargetBasedPayouts_def by (intro preserves_bnd preserves_gets preserves_fold_op)
qed

end

lemma getOrCreateAccount_frame:
  assumes "\<And>s as. I s \<Longrightarrow> I (s\<lparr>led := (led s)\<lparr>accounts := accounts (led s) @ as\<rparr>\<rparr>)"
  shows "preserves I (in_ledger (getOrCreateAccount ty owner))"
proof (rule preservesI)
  fix s assume I: "I s"
  obtain a l where run: "getOrCreateAccount ty owner (led s) = (Inr a, l)"
    using getOrCreateAccount_total by blast
  from getOrCreateAccount_Inr(4-7)[OF run] obtain as where "l = (led s)\<lparr>accounts := accounts (led s) @ as\<rparr>"
    by (metis ledger.surjective ledger.update_convs(1) old.unit.exhaust)
  then show "I (snd (in_ledger (getOrCreateAccount ty owner) s))"
    using assms[OF I] by (simp add: in_ledger_run run)
qed

text \<open>The three instances: rows and balances of the ledger, its well-formedness, the contribution tables.\<close>

definition ledger_rows :: "db \<Rightarrow> transaction list \<times> ledger_entry list \<times> balance list" where
  "ledger_rows s = (transactions (led s), ledgerEntries (led s), balances (led s))"

definition contribution_tables :: "db \<Rightarrow> contribution list \<times> contribution_payment list" where
  "contribution_tables s = (contributions s, contributionPayments s)"

interpretation rows_frame: disbursement_frame "\<lambda>s. ledger_rows s = c" for c
  by unfold_locales (rule getOrCreateAccount_frame, simp_all add: ledger_rows_def)

interpretation tables_frame: disbursement_frame "\<lambda>s. contribution_tables s = c" for c
  by unfold_locales (rule getOrCreateAccount_frame, simp_all add: contribution_tables_def)

interpretation wf_frame: disbursement_frame "\<lambda>s. wf_ledger (led s)"
proof unfold_locales
  show "preserves (\<lambda>s. wf_ledger (led s)) (in_ledger (getOrCreateAccount ty owner))" for ty owner
    using wf_getOrCreateAccount[of ty owner] by (simp add: preserves_def in_ledger_run)
qed simp_all

lemma ledger_rows_balance: "ledger_rows s' = ledger_rows s \<Longrightarrow> getBalance x (led s') = getBalance x (led s)"
  by (simp add: ledger_rows_def getBalance_def)

text \<open>Accounts are never removed.\<close>

interpretation accounts_frame: disbursement_frame "\<lambda>s. \<exists>as. accounts (led s) = acs @ as" for acs
  by unfold_locales (rule getOrCreateAccount_frame, auto)

lemma funds_kept:
  assumes "ledger_rows s' = ledger_rows s" and "accounts (led s') = accounts (led s) @ as"
  shows "pot_account q s = Some a \<Longrightarrow> pot_funds q s' = pot_funds q s"
    and "system_account platform_float (led s) = Some f \<Longrightarrow> float_funds s' = float_funds s"
  using assms
  by (auto simp: pot_funds_def pot_account_def float_funds_def system_account_def find_append ledger_rows_balance[OF assms(1)])

end
