(* ===== verification/Contributions_Laws.thy ===== *)
theory Contributions_Laws
  imports Frames
begin

text \<open>
  What \<open>ContributionsService\<close> promises: a contribution is issued within the pot's limits, a payment event
  counts once, the pot is credited exactly the intended amount when the payments cover the expected
  one, partial payments wait, a payment reversal takes back exactly what was credited.
\<close>

section \<open>A payment counts once\<close>

interpretation payments_frame: disbursement_frame "\<lambda>s. contributionPayments s = c" for c
  by unfold_locales (rule getOrCreateAccount_frame, simp_all)

definition recorded :: "webhook_data \<Rightarrow> db \<Rightarrow> bool" where
  "recorded payment s \<longleftrightarrow> wd_transactionId payment \<in> cp_nombaTransactionId ` set (contributionPayments s)"

lemma insert_payment_run:
  "recorded payment s \<Longrightarrow> insert_payment c payment amount s = (Inl UniqueViolation, s)"
  "\<not> recorded payment s \<Longrightarrow> \<exists>row. insert_payment c payment amount s = (Inr (), s\<lparr>contributionPayments := contributionPayments s @ [row]\<rparr>) \<and>
     cp_contributionId row = c_id c \<and> cp_amount row = amount \<and> cp_nombaTransactionId row = wd_transactionId payment"
proof -
  show "recorded payment s \<Longrightarrow> insert_payment c payment amount s = (Inl UniqueViolation, s)"
    by (simp add: insert_payment_def recorded_def)
  assume "\<not> recorded payment s"
  then show "\<exists>row. insert_payment c payment amount s = (Inr (), s\<lparr>contributionPayments := contributionPayments s @ [row]\<rparr>) \<and>
     cp_contributionId row = c_id c \<and> cp_amount row = amount \<and> cp_nombaTransactionId row = wd_transactionId payment"
    unfolding insert_payment_def recorded_def by (simp only: if_False) (rule exI, intro conjI, rule refl, simp_all)
qed

lemma record_payment_run:
  "recorded payment s \<Longrightarrow> record_payment w c payment amount s = (Inr (), s)"
  "\<not> recorded payment s \<Longrightarrow> \<exists>row. cp_contributionId row = c_id c \<and> cp_amount row = amount \<and>
     cp_nombaTransactionId row = wd_transactionId payment \<and>
     record_payment w c payment amount s =
       (let s1 = s\<lparr>contributionPayments := contributionPayments s @ [row]\<rparr>; paid = received_total (c_id c) s + amount in
        if paid < c_expectedAmount c then update_contribution (c_id c) (set_contribution_status c_underpaid) s1
        else fund_contribution w c payment amount paid s1)"
  using insert_payment_run[of payment s c amount]
  by (auto simp: record_payment_def bnd_def catch_op_def ret_def gets_def received_total_def Let_def)

lemma fund_keeps_payments: "e_gap w = id \<Longrightarrow> untouched contributionPayments (fund_contribution w c payment amount paid)"
  unfolding fund_contribution_def funding_accounts_def refund_excess_def update_contribution_def refundOverpayment_def Let_def
  by (intro untouchedI preserves_intros payments_frame.system_account payments_frame.pot_account
      payments_frame.checkAndFireForPot preserves_modify preserves_in_ledger_frame) simp_all

lemma record_payment_records:
  assumes "e_gap w = id" and "record_payment w c payment amount s = (r, s')"
  shows "recorded payment s'"
proof (cases "recorded payment s")
  case True
  then show ?thesis using record_payment_run(1)[OF True, of w c amount] assms(2) by simp
next
  case False
  from record_payment_run(2)[OF False, of c amount w] obtain row where row: "cp_nombaTransactionId row = wd_transactionId payment"
    and run: "record_payment w c payment amount s =
       (let s1 = s\<lparr>contributionPayments := contributionPayments s @ [row]\<rparr>; paid = received_total (c_id c) s + amount in
        if paid < c_expectedAmount c then update_contribution (c_id c) (set_contribution_status c_underpaid) s1
        else fund_contribution w c payment amount paid s1)"
    by blast
  have "contributionPayments s' = contributionPayments s @ [row]"
  proof (cases "received_total (c_id c) s + amount < c_expectedAmount c")
    case True
    then show ?thesis using run assms(2) by (auto simp: update_contribution_def modify_def)
  next
    case False
    then have "fund_contribution w c payment amount (received_total (c_id c) s + amount)
        (s\<lparr>contributionPayments := contributionPayments s @ [row]\<rparr>) = (r, s')"
      using run assms(2) by (simp add: Let_def)
    from untouchedD[OF fund_keeps_payments[OF assms(1)] this] show ?thesis by simp
  qed
  then show ?thesis using row by (simp add: recorded_def)
qed

text \<open>Whether an event reaches the recording of a payment does not depend on the world.\<close>

lemma confirm_cases:
  obtains (ignored) r where "\<And>w. e_gap w = id \<Longrightarrow> confirmFunding w payment s = (r, s)"
  | (records) c amount ac where "wd_aliasAccountNumber payment = Some ac" and "ac \<noteq> []"
    and "contribution_by_account ac s = Some c" and "c_status c = c_pending \<or> c_status c = c_underpaid"
    and "truthy (wd_accountNumber payment) \<and> truthy (wd_bankCode payment) \<and> truthy (wd_senderName payment)"
    and "nairaStringToKobo (wd_amountFixed2 payment) = Inr amount"
    and "\<And>w. e_gap w = id \<Longrightarrow> confirmFunding w payment s = record_payment w c payment amount s"
proof (cases "wd_aliasAccountNumber payment")
  case None
  then show ?thesis by (intro ignored) (simp add: confirmFunding_def ret_def)
next
  case (Some ac)
  show ?thesis
  proof (cases "ac = [] \<or> contribution_by_account ac s = None")
    case True
    then show ?thesis using Some by (intro ignored) (auto simp: confirmFunding_def ret_def)
  next
    case False
    then obtain c where c: "contribution_by_account ac s = Some c" "ac \<noteq> []" by auto
    let ?known = "truthy (wd_accountNumber payment) \<and> truthy (wd_bankCode payment) \<and> truthy (wd_senderName payment)"
    show ?thesis
    proof (cases "c_status c = c_pending \<or> c_status c = c_underpaid")
      case waiting: True
      show ?thesis
      proof (cases ?known)
        case True
        show ?thesis
        proof (cases "nairaStringToKobo (wd_amountFixed2 payment)")
          case (Inl e)
          then show ?thesis
            using Some c waiting True by (intro ignored) (auto simp: confirmFunding_def ret_def)
        next
          case (Inr amount)
          then show ?thesis
            using Some c waiting True by (intro records[of ac c amount]) (auto simp: confirmFunding_def in_gap_def)
        qed
      next
        case False
        then show ?thesis
          using Some c waiting by (intro ignored) (auto simp: confirmFunding_def bnd_require)
      qed
    next
      case False
      then show ?thesis using Some c by (intro ignored) (auto simp: confirmFunding_def ret_def)
    qed
  qed
qed

text \<open>C12. A payment event acts once. Whatever the first delivery did, also when it failed half way, a
  second delivery of the same event changes nothing: no payment row, ledger entry, status or
  transfer is added.\<close>

theorem payment_counted_once:
  assumes "e_gap w = id" and "e_gap w' = id" and "confirmFunding w payment s = (r, s')"
  shows "snd (confirmFunding w' payment s') = s'"
proof (cases rule: confirm_cases[of payment s])
  case (ignored r')
  then show ?thesis using assms by auto
next
  case (records c amount)
  have "recorded payment s'"
    using records(7)[OF assms(1)] assms(3) by (intro record_payment_records[OF assms(1), of c payment amount s r]) simp
  then show ?thesis
  proof (cases rule: confirm_cases[of payment s'])
    case (ignored r')
    then show ?thesis using assms(2) by simp
  next
    case (records c' amount')
    then show ?thesis
      using record_payment_run(1)[OF \<open>recorded payment s'\<close>, of w' c' amount'] records(7)[OF assms(2)] by simp
  qed
qed

section \<open>Funding credits the intended amount\<close>

lemma funds_added:
  assumes "wf_ledger (led s)" and "accounts_added (led s) l" and "wf_ledger l"
  shows "pot_funds q (s\<lparr>led := l\<rparr>) = pot_funds q s" and "float_funds (s\<lparr>led := l\<rparr>) = float_funds s"
proof -
  obtain as where l: "l = (led s)\<lparr>accounts := accounts (led s) @ as\<rparr>"
    using assms(2) by (auto simp: accounts_added_def)
  have new: "getBalance (acc_id a) (led s) = 0" if a: "a \<in> set as" for a
  proof -
    have "distinct (map acc_id (accounts (led s)) @ map acc_id as)"
      using wf_ledgerD(1)[OF assms(3)] by (simp add: l)
    then have "acc_id a \<notin> acc_id ` set (accounts (led s))"
      using a by auto
    then show ?thesis by (rule getBalance_unknown[OF assms(1)])
  qed
  have old: "(case find P (accounts l) of None \<Rightarrow> 0 | Some a \<Rightarrow> getBalance (acc_id a) l) =
      (case find P (accounts (led s)) of None \<Rightarrow> 0 | Some a \<Rightarrow> getBalance (acc_id a) (led s))" for P
    using new by (auto simp: l find_append split: option.splits dest: find_SomeD)
  have "pot_funds q r = (case find (is_account_of pot_owner (Some q)) (accounts (led r)) of None \<Rightarrow> 0 | Some a \<Rightarrow> getBalance (acc_id a) (led r))"
    "float_funds r = (case find (is_account_of platform_float None) (accounts (led r)) of None \<Rightarrow> 0 | Some a \<Rightarrow> getBalance (acc_id a) (led r))" for r
    by (simp_all add: pot_funds_def pot_account_def float_funds_def system_account_def split: option.split)
  note alt = this
  have "led (s\<lparr>led := l\<rparr>) = l" by simp
  then show "pot_funds q (s\<lparr>led := l\<rparr>) = pot_funds q s" "float_funds (s\<lparr>led := l\<rparr>) = float_funds s"
    by (simp_all only: alt old)
qed

lemma funding_accounts_step:
  assumes "wf_ledger (led s)"
  obtains src accs l where "funding_accounts q s = (Inr accs, s\<lparr>led := l\<rparr>)"
    and "accounts_added (led s) l" and "wf_ledger l" and "fee_accounts_in src accs l"
    and "acc_ownerType src = pot_owner" and "acc_ownerId src = Some q"
proof -
  obtain f l1 where 1: "in_ledger (getOrCreateAccount platform_float None) s = (Inr f, s\<lparr>led := l1\<rparr>)"
    "accounts_added (led s) l1" "wf_ledger l1" "find (is_account_of platform_float None) (accounts l1) = Some f"
    using getOrCreateAccount_step[OF assms(1)] by blast
  obtain p l2 where 2: "in_ledger (getOrCreateAccount pot_owner (Some q)) (s\<lparr>led := l1\<rparr>) = (Inr p, s\<lparr>led := l2\<rparr>)"
    "accounts_added l1 l2" "wf_ledger l2" "find (is_account_of pot_owner (Some q)) (accounts l2) = Some p"
    using getOrCreateAccount_step[of "s\<lparr>led := l1\<rparr>" pot_owner "Some q"] 1(3) by auto
  obtain r l3 where 3: "in_ledger (getOrCreateAccount platform_revenue None) (s\<lparr>led := l2\<rparr>) = (Inr r, s\<lparr>led := l3\<rparr>)"
    "accounts_added l2 l3" "wf_ledger l3" "find (is_account_of platform_revenue None) (accounts l3) = Some r"
    using getOrCreateAccount_step[of "s\<lparr>led := l2\<rparr>" platform_revenue None] 2(3) by auto
  obtain e l4 where 4: "in_ledger (getOrCreateAccount nomba_fee_expense None) (s\<lparr>led := l3\<rparr>) = (Inr e, s\<lparr>led := l4\<rparr>)"
    "accounts_added l3 l4" "wf_ledger l4" "find (is_account_of nomba_fee_expense None) (accounts l4) = Some e"
    using getOrCreateAccount_step[of "s\<lparr>led := l3\<rparr>" nomba_fee_expense None] 3(3) by auto
  obtain c l5 where 5: "in_ledger (getOrCreateAccount nomba_clearing None) (s\<lparr>led := l4\<rparr>) = (Inr c, s\<lparr>led := l5\<rparr>)"
    "accounts_added l4 l5" "wf_ledger l5" "find (is_account_of nomba_clearing None) (accounts l5) = Some c"
    using getOrCreateAccount_step[of "s\<lparr>led := l4\<rparr>" nomba_clearing None] 4(3) by auto
  let ?accs = "\<lparr>fa_sourceId = acc_id p, fa_platformFloatId = acc_id f, fa_platformRevenueId = acc_id r,
    fa_nombaFeeExpenseId = acc_id e, fa_nombaClearingId = acc_id c\<rparr>"
  have added: "accounts_added l1 l5" "accounts_added l2 l5" "accounts_added l3 l5" "accounts_added l4 l5" "accounts_added (led s) l5"
    using 1(2) 2(2) 3(2) 4(2) 5(2) accounts_added_trans by blast+
  have ty: "acc_ownerType p = pot_owner" "acc_ownerId p = Some q"
    using 2(4) by (auto simp: is_account_of_def dest: find_SomeD)
  have "fee_accounts_in p ?accs l5"
    using accounts_added_find[OF added(1) 1(4)] accounts_added_find[OF added(2) 2(4)]
      accounts_added_find[OF added(3) 3(4)] accounts_added_find[OF added(4) 4(4)] 5(4)
    by (simp add: fee_accounts_in_def system_account_def ty)
  moreover have "funding_accounts q s = (Inr ?accs, s\<lparr>led := l5\<rparr>)"
    using 1(1) 2(1) 3(1) 4(1) 5(1)
    by (simp add: funding_accounts_def getOrCreateSystemAccount_def getOrCreatePotAccount_def bnd_def ret_def)
  ultimately show ?thesis using that added(5) 5(3) ty by blast
qed

lemma inbound_delta:
  assumes "fee_accounts_in src accs l" and "wf_ledger l" and "acc_ownerType src = pot_owner"
  shows "input_delta (accounts l) (inboundFeeLegs accs v) x =
    (if x = fa_sourceId accs then v else if x = fa_platformFloatId accs then v + PLATFORM_INBOUND_FEE
     else if x = fa_platformRevenueId accs then PLATFORM_INBOUND_FEE
     else if x = fa_nombaFeeExpenseId accs \<or> x = fa_nombaClearingId accs then nombaInboundFeeFor v else 0)"
proof -
  note m = fee_accounts_members[OF assms(1,2) disjI1[OF assms(3)]]
  note neq = account_ids_neq[OF m(1)]
  show ?thesis
    using m(3-7) assms(3) by (auto simp: inboundFeeLegs_def Let_def signedDelta_def neq neq[symmetric])
qed

lemma confirm_wf: "e_gap w = id \<Longrightarrow> preserves (\<lambda>s. wf_ledger (led s)) (confirmFunding w payment)"
proof -
  assume gap: "e_gap w = id"
  have inl: "preserves wf_ledger m \<Longrightarrow> preserves (\<lambda>s. wf_ledger (led s)) (in_ledger m)" for m :: "(ledger, 'b) op"
    by (simp add: preserves_def in_ledger_run)
  have fund: "preserves (\<lambda>s. wf_ledger (led s)) (fund_contribution w c payment amount paid)" for c amount paid
    unfolding fund_contribution_def funding_accounts_def refund_excess_def update_contribution_def refundOverpayment_def Let_def
    by (intro preserves_intros wf_frame.system_account wf_frame.pot_account wf_frame.checkAndFireForPot gap
        preserves_modify inl wf_postTransaction) simp_all
  have insert: "preserves (\<lambda>s. wf_ledger (led s)) (insert_payment c payment amount)" for c amount
    by (simp add: preserves_def insert_payment_def)
  show ?thesis
    unfolding confirmFunding_def record_payment_def update_contribution_def
    by (intro preserves_intros insert fund wf_frame.gap gap preserves_modify) simp_all
qed

text \<open>The posting of a funding always goes through: no account loses anything.\<close>

lemma funding_posts:
  assumes "wf_ledger (led s)" and "1 \<le> c_intendedAmount c"
    and "tx_lookup (''contribution_'' @ uuid_text (c_id c)) (led s) = None"
  obtains src accs l t l1 where "funding_accounts (c_potId c) s = (Inr accs, s\<lparr>led := l\<rparr>)"
    and "postTransaction now (funding_input c payment accs) l = (Inr t, l1)" and "wf_ledger l1"
    and "tx_lookup (''contribution_'' @ uuid_text (c_id c)) l1 = Some t"
    and "pot_funds (c_potId c) (s\<lparr>led := l1\<rparr>) = pot_funds (c_potId c) s + c_intendedAmount c"
    and "float_funds (s\<lparr>led := l1\<rparr>) = float_funds s + c_intendedAmount c + PLATFORM_INBOUND_FEE"
    and "fee_accounts_in src accs l1" and "acc_ownerType src = pot_owner" and "acc_ownerId src = Some (c_potId c)"
proof -
  obtain src accs l where l: "funding_accounts (c_potId c) s = (Inr accs, s\<lparr>led := l\<rparr>)" "accounts_added (led s) l"
    "wf_ledger l" "fee_accounts_in src accs l" "acc_ownerType src = pot_owner" "acc_ownerId src = Some (c_potId c)"
    using funding_accounts_step[OF assms(1)] by blast
  let ?in = "funding_input c payment accs"
  note m = fee_accounts_members[OF l(4,3) disjI1[OF l(5)]]
  have es: "pi_entries ?in = inboundFeeLegs accs (c_intendedAmount c)" and ref: "pi_reference ?in = ''contribution_'' @ uuid_text (c_id c)"
    by (simp_all add: funding_input_def)
  have none: "tx_lookup (pi_reference ?in) l = None"
    using assms(3) by (simp add: ref accounts_added_frame(5)[OF l(2)])
  have "0 \<le> getBalance x l + input_delta (accounts l) (inboundFeeLegs accs (c_intendedAmount c)) x" for x
    using wf_ledgerD(6)[OF l(3), of x] assms(2) nombaInboundFeeFor_pos[of "c_intendedAmount c"]
    unfolding inbound_delta[OF l(4,3,5)] by (auto simp: fee_constants)
  then have "fits ?in l" by (simp add: fits_def es)
  then obtain t l1 where post: "postTransaction now ?in l = (Inr t, l1)" and p: "posted ?in t l l1"
    using inbound.posting_outcome(1)[OF assms(2) m(1,2) none es] by blast
  from post have t: "t = new_transaction now ?in l" and bal: "balanced (pi_entries ?in)"
    by (cases rule: postTransaction_cases; use none in simp)+
  have wf1: "wf_ledger l1"
    using posted_wf[OF l(3) p bal] t by simp
  have acc1: "accounts l1 = accounts l"
    and bal1: "getBalance x l1 = getBalance x l + input_delta (accounts l) (inboundFeeLegs accs (c_intendedAmount c)) x" for x
    using p by (simp_all add: posted_def es)
  note fa = fa_simps[OF l(4-6), of s] and in1 = fee_accounts_in_posted[OF l(4) acc1]
  note fa1 = fa_simps[OF in1 l(5,6), of s]
  have "pot_funds (c_potId c) (s\<lparr>led := l1\<rparr>) = pot_funds (c_potId c) s + c_intendedAmount c"
    "float_funds (s\<lparr>led := l1\<rparr>) = float_funds s + c_intendedAmount c + PLATFORM_INBOUND_FEE"
    using funds_added[OF assms(1) l(2,3)] fa account_ids_neq(1)[OF m(1)]
    unfolding fa1 bal1 inbound_delta[OF l(4,3,5)] by simp_all
  moreover have "tx_lookup (''contribution_'' @ uuid_text (c_id c)) l1 = Some t"
    using posted_lookup[OF p] t by (simp add: ref)
  ultimately show ?thesis using that l(1) post wf1 in1 l(5,6) by blast
qed

lemma excess_refund_none:
  assumes "paid \<le> c_expectedAmount c + OUTBOUND_FEE" and "0 \<le> amount"
  shows "refund_excess w c payment accs amount paid = ret ()"
  using assms by (auto simp: refund_excess_def Let_def this_payment_needed_def fee_constants)

lemma catch_unit: "catch_op m (\<lambda>e. ret ()) s = (Inr (), snd (m s))"
  by (simp add: catch_op_def ret_def split: prod.split sum.split)

interpretation set_funded: keyed_update c_id "set_funded t now" for t now
  by unfold_locales (simp add: set_funded_def)

interpretation set_contribution_status: keyed_update c_id "set_contribution_status st" for st
  by unfold_locales (simp add: set_contribution_status_def)

text \<open>The payment a contribution was waiting for: how the code recognises it.\<close>

definition awaited :: "webhook_data \<Rightarrow> contribution \<Rightarrow> kobo \<Rightarrow> db \<Rightarrow> bool" where
  "awaited payment c amount s \<longleftrightarrow>
     wd_aliasAccountNumber payment \<noteq> None \<and> wd_aliasAccountNumber payment \<noteq> Some [] \<and>
     Option.bind (wd_aliasAccountNumber payment) (\<lambda>a. contribution_by_account a s) = Some c \<and>
     (c_status c = c_pending \<or> c_status c = c_underpaid) \<and>
     truthy (wd_accountNumber payment) \<and> truthy (wd_bankCode payment) \<and> truthy (wd_senderName payment) \<and>
     nairaStringToKobo (wd_amountFixed2 payment) = Inr amount \<and> \<not> recorded payment s"

lemma awaited_run:
  assumes "awaited payment c amount s" and "e_gap w = id"
  shows "confirmFunding w payment s = record_payment w c payment amount s"
  using assms by (auto simp: awaited_def confirmFunding_def in_gap_def)

lemma awaited_found:
  assumes "awaited payment c amount s" and "distinct (map c_id (contributions s))"
  shows "find (\<lambda>x. c_id x = c_id c) (contributions s) = Some c"
proof -
  have "c \<in> set (contributions s)"
    using assms(1) find_SomeD by (fastforce simp: awaited_def contribution_by_account_def)
  then show ?thesis by (rule find_key_SomeI[OF assms(2)])
qed

text \<open>\<open>nairaStringToKobo\<close> never gives a negative amount.\<close>

lemma nairaStringToKobo_nonneg: "nairaStringToKobo v = Inr k \<Longrightarrow> 0 \<le> k"
  by (auto simp: nairaStringToKobo_def BigInt_def split: if_splits list.splits)

text \<open>C13. Reaching the expected amount credits the pot with the intended one. When a payment brings the
  total to the expected amount (and not beyond it by more than a fee), the pot's funds grow by exactly
  the intended amount, the float by that and the platform's fee, one transaction is posted under the
  contribution's own reference, and the contribution is funded by it.\<close>

theorem funding_credits_intended:
  assumes "e_gap w = id" and "wf_ledger (led s)" and "distinct (map c_id (contributions s))"
    and "awaited payment c amount s" and "1 \<le> c_intendedAmount c"
    and "tx_lookup (''contribution_'' @ uuid_text (c_id c)) (led s) = None"
    and "c_expectedAmount c \<le> received_total (c_id c) s + amount"
    and "received_total (c_id c) s + amount \<le> c_expectedAmount c + OUTBOUND_FEE"
  shows "\<exists>t s'. confirmFunding w payment s = (Inr (), s') \<and>
    pot_funds (c_potId c) s' = pot_funds (c_potId c) s + c_intendedAmount c \<and>
    float_funds s' = float_funds s + c_intendedAmount c + PLATFORM_INBOUND_FEE \<and>
    tx_lookup (''contribution_'' @ uuid_text (c_id c)) (led s') = Some t \<and>
    find (\<lambda>x. c_id x = c_id c) (contributions s') = Some (set_funded (tx_id t) (e_now w) c) \<and>
    recorded payment s'"
proof -
  have new: "\<not> recorded payment s" and amount: "nairaStringToKobo (wd_amountFixed2 payment) = Inr amount"
    using assms(4) by (auto simp: awaited_def)
  obtain row where row: "cp_nombaTransactionId row = wd_transactionId payment"
    and rec: "record_payment w c payment amount s =
       (let s1 = s\<lparr>contributionPayments := contributionPayments s @ [row]\<rparr>; paid = received_total (c_id c) s + amount in
        if paid < c_expectedAmount c then update_contribution (c_id c) (set_contribution_status c_underpaid) s1
        else fund_contribution w c payment amount paid s1)"
    using record_payment_run(2)[OF new, of c amount w] by blast
  let ?s1 = "s\<lparr>contributionPayments := contributionPayments s @ [row]\<rparr>"
  obtain src accs l t l1 where acc: "funding_accounts (c_potId c) ?s1 = (Inr accs, ?s1\<lparr>led := l\<rparr>)"
    and post: "postTransaction (e_now w) (funding_input c payment accs) l = (Inr t, l1)" and wf1: "wf_ledger l1"
    and t: "tx_lookup (''contribution_'' @ uuid_text (c_id c)) l1 = Some t"
    and funds: "pot_funds (c_potId c) (?s1\<lparr>led := l1\<rparr>) = pot_funds (c_potId c) ?s1 + c_intendedAmount c"
      "float_funds (?s1\<lparr>led := l1\<rparr>) = float_funds ?s1 + c_intendedAmount c + PLATFORM_INBOUND_FEE"
    and src: "fee_accounts_in src accs l1" "acc_ownerType src = pot_owner" "acc_ownerId src = Some (c_potId c)"
    by (rule funding_posts[of ?s1 c "e_now w" payment]) (use assms(2,5,6) in auto)
  let ?s2 = "?s1\<lparr>led := l1, contributions := update_where (\<lambda>x. c_id x = c_id c) (set_funded (tx_id t) (e_now w)) (contributions s)\<rparr>"
  let ?s3 = "snd (checkAndFireForPot w (c_potId c) ?s2)"
  note frame = preserves_eq_iff[OF rows_frame.checkAndFireForPot[OF assms(1)] refl, of _ ?s2]
    preserves_eq_iff[OF tables_frame.checkAndFireForPot[OF assms(1)] refl, of _ ?s2]
  have rows: "ledger_rows ?s3 = ledger_rows ?s2" and tables: "contribution_tables ?s3 = contribution_tables ?s2"
    by (rule frame)+
  obtain as where as: "accounts (led ?s3) = accounts (led ?s2) @ as"
    using accounts_frame.checkAndFireForPot[OF assms(1), of "accounts (led ?s2)" "c_potId c"]
    unfolding preserves_def by (metis append_Nil2)
  have found: "pot_account (c_potId c) ?s2 = Some src" "system_account platform_float (led ?s2) = Some (fa_platformFloatId accs)"
    using src by (simp_all add: pot_account_def fee_accounts_in_def)
  have "fund_contribution w c payment amount (received_total (c_id c) s + amount) ?s1 = (Inr (), ?s3)"
    using excess_refund_none[OF assms(8) nairaStringToKobo_nonneg[OF amount]]
    by (simp add: fund_contribution_def bnd_def acc in_ledger_run post update_contribution_def modify_def catch_unit ret_def)
  then have "confirmFunding w payment s = (Inr (), ?s3)"
    using assms(7) by (simp add: awaited_run[OF assms(4,1)] rec Let_def)
  moreover have "pot_funds (c_potId c) ?s3 = pot_funds (c_potId c) ?s2" "float_funds ?s3 = float_funds ?s2"
    by (rule funds_kept(1)[OF rows as found(1)], rule funds_kept(2)[OF rows as found(2)])
  moreover have "pot_funds (c_potId c) ?s2 = pot_funds (c_potId c) (?s1\<lparr>led := l1\<rparr>)" "float_funds ?s2 = float_funds (?s1\<lparr>led := l1\<rparr>)"
    "pot_funds (c_potId c) ?s1 = pot_funds (c_potId c) s" "float_funds ?s1 = float_funds s"
    by (intro funds_led; simp)+
  moreover have "find (\<lambda>x. c_id x = c_id c) (contributions ?s3) = Some (set_funded (tx_id t) (e_now w) c)"
    using tables awaited_found[OF assms(4,3)] by (simp add: contribution_tables_def set_funded.find_same)
  moreover have "recorded payment ?s3"
    using tables row by (simp add: contribution_tables_def recorded_def)
  moreover have "tx_lookup (''contribution_'' @ uuid_text (c_id c)) (led ?s3) = Some t"
    using rows t by (simp add: ledger_rows_def tx_lookup_def)
  ultimately show ?thesis
    using funds by (intro exI[of _ t] exI[of _ ?s3]) simp
qed

text \<open>A contribution of N100 (N120 with the fees) waiting for its payment.\<close>

definition pending_contribution :: contribution where
  "pending_contribution = (example_contribution 1 12000)\<lparr>c_virtualAccountNumber := Some ''9876543210'',
     c_intendedAmount := 10000, c_status := c_pending\<rparr>"

definition funding_db :: db where
  "funding_db = example_db\<lparr>contributions := [pending_contribution]\<rparr>"

definition example_payment :: "string \<Rightarrow> webhook_data" where
  "example_payment amount = \<lparr>wd_transactionId = ''nomba-1'', wd_amountFixed2 = amount,
     wd_aliasAccountNumber = Some ''9876543210'', wd_merchantTxRef = None, wd_senderName = Some ''Bola'',
     wd_accountNumber = Some ''0123456789'', wd_bankCode = Some ''058''\<rparr>"

lemma funding_db_wf: "wf_ledger (led funding_db)"
  using example_db_ok(1) by (simp add: funding_db_def)

lemma example_env_gap: "e_gap example_env = id" "e_gap (answering r) = id"
  by (simp_all add: example_env_def answering_def)

theorem payment_counted_once_witness:
  "snd (confirmFunding (answering (Inl (NombaApiError ''timeout'' 0))) (example_payment ''120.00'')
      (snd (confirmFunding example_env (example_payment ''120.00'') funding_db))) =
   snd (confirmFunding example_env (example_payment ''120.00'') funding_db) \<and>
   length (contributionPayments (snd (confirmFunding example_env (example_payment ''120.00'') funding_db))) = 1"
proof
  show "snd (confirmFunding (answering (Inl (NombaApiError ''timeout'' 0))) (example_payment ''120.00'')
      (snd (confirmFunding example_env (example_payment ''120.00'') funding_db))) =
   snd (confirmFunding example_env (example_payment ''120.00'') funding_db)"
    by (rule payment_counted_once[OF example_env_gap(1,2) prod.collapse[symmetric]])
  show "length (contributionPayments (snd (confirmFunding example_env (example_payment ''120.00'') funding_db))) = 1"
    by code_simp
qed

theorem funding_credits_intended_witness:
  "\<exists>s'. confirmFunding example_env (example_payment ''120.00'') funding_db = (Inr (), s') \<and>
     pot_funds 7 s' = 30000 \<and> float_funds s' = 34000"
proof -
  have facts: "distinct (map c_id (contributions funding_db))" "awaited (example_payment ''120.00'') pending_contribution 12000 funding_db"
    "1 \<le> c_intendedAmount pending_contribution"
    "tx_lookup (''contribution_'' @ uuid_text (c_id pending_contribution)) (led funding_db) = None"
    "c_expectedAmount pending_contribution \<le> received_total (c_id pending_contribution) funding_db + 12000"
    "received_total (c_id pending_contribution) funding_db + 12000 \<le> c_expectedAmount pending_contribution + OUTBOUND_FEE"
    "c_potId pending_contribution = 7" "pot_funds 7 funding_db = 20000" "float_funds funding_db = 23000"
    "c_intendedAmount pending_contribution = 10000" "PLATFORM_INBOUND_FEE = 1000"
    by code_simp+
  from funding_credits_intended[OF example_env_gap(1) funding_db_wf facts(1-6)] facts(7-11) show ?thesis by auto
qed

text \<open>A partial payment waits. While the total is below the expected amount, the payment is recorded and
  the contribution marked underpaid; no ledger row, lock, job or transfer changes.\<close>

lemma partial_payment_waits:
  assumes "e_gap w = id" and "awaited payment c amount s"
    and "received_total (c_id c) s + amount < c_expectedAmount c"
  shows "\<exists>row. cp_contributionId row = c_id c \<and> cp_amount row = amount \<and>
    confirmFunding w payment s = (Inr (), s\<lparr>contributionPayments := contributionPayments s @ [row],
      contributions := update_where (\<lambda>x. c_id x = c_id c) (set_contribution_status c_underpaid) (contributions s)\<rparr>)"
  using record_payment_run(2)[of payment s c amount w] assms(2,3)
  by (auto simp: awaited_run[OF assms(2,1)] Let_def update_contribution_def modify_def awaited_def)

lemma partial_payment_waits_witness:
  "\<exists>s'. confirmFunding example_env (example_payment ''50.00'') funding_db = (Inr (), s') \<and>
     led s' = led funding_db \<and> map c_status (contributions s') = [c_underpaid]"
proof -
  have facts: "awaited (example_payment ''50.00'') pending_contribution 5000 funding_db"
    "received_total (c_id pending_contribution) funding_db + 5000 < c_expectedAmount pending_contribution"
    by code_simp+
  have "contributions funding_db = [pending_contribution]" by (simp add: funding_db_def)
  then show ?thesis
    using partial_payment_waits[OF example_env_gap(1) facts] by (auto simp: set_contribution_status_def)
qed

section \<open>A payment reversal\<close>

definition credited :: "webhook_data \<Rightarrow> contribution \<Rightarrow> uuid \<Rightarrow> db \<Rightarrow> bool" where
  "credited payment c t s \<longleftrightarrow>
     wd_aliasAccountNumber payment \<noteq> None \<and> wd_aliasAccountNumber payment \<noteq> Some [] \<and>
     Option.bind (wd_aliasAccountNumber payment) (\<lambda>a. contribution_by_account a s) = Some c \<and>
     c_status c = c_funded \<and> c_transactionId c = Some t"

lemma reverseFunding_run:
  assumes "credited payment c t s"
  shows "reverseFunding w payment s =
    (if Option.bind (find_pot (c_potId c) s) pot_pendingOperation \<noteq> None
     then (Inl (PotError (''Cannot reverse contribution '' @ uuid_text (c_id c) @ '' while pot ''
                            @ uuid_text (c_potId c) @ '' has a payout/refund in flight'') 409), s)
     else case reverseTransaction (e_now w) t (''contribution_'' @ uuid_text (c_id c) @ ''_reversal'') (led s) of
        (Inl e, l) \<Rightarrow> (Inl e, s\<lparr>led := l\<rparr>)
      | (Inr r, l) \<Rightarrow> (Inr (), s\<lparr>led := l, contributions :=
          update_where (\<lambda>x. c_id x = c_id c) (set_contribution_status c_reversed) (contributions s)\<rparr>))"
  using assms
  by (auto simp: credited_def reverseFunding_def bnd_require)
    (auto simp: bnd_def in_ledger_run update_contribution_def modify_def split: prod.splits sum.splits)

text \<open>A payment reversal takes back exactly what was credited. While the pot's lock is held it is
  refused and nothing changes; otherwise either every account gives back what the contribution's own
  posting gave it and the contribution is marked reversed, or (the pot has spent the money) nothing
  changes at all.\<close>

lemma reversal_takes_back:
  assumes "wf_ledger (led s)" and "distinct (map c_id (contributions s))" and "credited payment c t s"
    and "find (\<lambda>x. tx_id x = t) (transactions (led s)) = Some original"
    and "tx_lookup (''contribution_'' @ uuid_text (c_id c) @ ''_reversal'') (led s) = None"
  shows "case reverseFunding w payment s of (r, s') \<Rightarrow>
    (Option.bind (find_pot (c_potId c) s) pot_pendingOperation \<noteq> None \<longrightarrow> (\<exists>m. r = Inl (PotError m 409)) \<and> s' = s) \<and>
    (case r of Inl e \<Rightarrow> s' = s
     | Inr _ \<Rightarrow> (\<forall>a. getBalance a (led s') = getBalance a (led s) - row_delta (accounts (led s)) (entries_of t (led s)) a) \<and>
         map_option c_status (find (\<lambda>x. c_id x = c_id c) (contributions s')) = Some c_reversed)"
proof (cases "Option.bind (find_pot (c_potId c) s) pot_pendingOperation \<noteq> None")
  case True
  then show ?thesis by (simp add: reverseFunding_run[OF assms(3)])
next
  case free: False
  have "c \<in> set (contributions s)"
    using assms(3) find_SomeD by (fastforce simp: credited_def contribution_by_account_def)
  then have found: "find (\<lambda>x. c_id x = c_id c) (contributions s) = Some c"
    by (rule find_key_SomeI[OF assms(2)])
  define ref where "ref = ''contribution_'' @ uuid_text (c_id c) @ ''_reversal''"
  note rev = reverseFunding_run[OF assms(3), of w, folded ref_def]
  obtain r l where run: "reverseTransaction (e_now w) t ref (led s) = (r, l)"
    by fastforce
  show ?thesis
  proof (cases r)
    case (Inl e)
    then have "l = led s"
      using run by (auto simp: reverseTransaction_eq[OF assms(4)] split: prod.splits sum.splits)
    then show ?thesis using free by (simp add: rev run Inl)
  next
    case (Inr t2)
    from reverseTransaction_balance[OF assms(4) assms(5)[folded ref_def] run[unfolded Inr]]
    show ?thesis
      using free by (simp add: rev run Inr set_contribution_status.find_same found)
        (simp add: set_contribution_status_def)
  qed
qed

lemma reversal_takes_back_witness:
  "\<exists>s'. reverseFunding example_env (example_payment ''120.00'')
       (snd (confirmFunding example_env (example_payment ''120.00'') funding_db)) = (Inr (), s') \<and>
     getBalance 2 (led s') = 20000"
proof -
  let ?s = "snd (confirmFunding example_env (example_payment ''120.00'') funding_db)"
  let ?c = "set_funded 2 0 pending_contribution"
  have facts: "distinct (map c_id (contributions ?s))" "credited (example_payment ''120.00'') ?c 2 ?s"
    "tx_lookup (''contribution_'' @ uuid_text (c_id ?c) @ ''_reversal'') (led ?s) = None"
    "map_option tx_id (find (\<lambda>x. tx_id x = 2) (transactions (led ?s))) = Some 2"
    "getBalance 2 (led ?s) - row_delta (accounts (led ?s)) (entries_of 2 (led ?s)) 2 = 20000"
    "fst (reverseFunding example_env (example_payment ''120.00'') ?s) = Inr ()"
    by code_simp+
  from facts(4) obtain original where original: "find (\<lambda>x. tx_id x = 2) (transactions (led ?s)) = Some original" by auto
  have "wf_ledger (led ?s)"
    using confirm_wf[OF example_env_gap(1), of "example_payment ''120.00''"] funding_db_wf by (simp add: preserves_def)
  from reversal_takes_back[OF this facts(1,2) original facts(3), of example_env] facts(5,6)
  show ?thesis by (cases "reverseFunding example_env (example_payment ''120.00'') ?s") auto
qed

section \<open>Issuing a contribution\<close>

lemma reads_only:
  "getViewablePotOrThrow potId userId s = (r, t) \<Longrightarrow> t = s"
  "refund_fields w p input s = (r2, t) \<Longrightarrow> t = s"
  "account_name p userId n s = (r3, t) \<Longrightarrow> t = s"
  "createVirtualAccount w params s = (r4, t) \<Longrightarrow> t = s"
  by (auto simp: getViewablePotOrThrow_def refund_fields_def account_name_def createVirtualAccount_def verifyAccountDetails_def
      bnd_def gets_def ret_def throw_def require_def from_sum_def catch_op_def split: option.splits if_splits sum.splits prod.splits)

lemma viewable_found: "getViewablePotOrThrow potId userId s = (Inr p, t) \<Longrightarrow> find_pot potId s = Some p \<and>
    (pot_potType p = private_pot \<longrightarrow> (\<exists>u. userId = Some u \<and> isMember potId u s))"
  by (auto simp: getViewablePotOrThrow_def ret_def throw_def bnd_def gets_def split: option.splits if_splits)

lemma randomUUID_Inr: "randomUUID w s = (Inr u, t) \<Longrightarrow> t = s\<lparr>randomDraws := Suc (randomDraws s)\<rparr>"
  by (simp add: randomUUID_run)

lemma create_steps:
  assumes "create w potId userId input s = (Inr c, s')"
  shows "\<exists>p amount n d. insert_contribution d (s\<lparr>randomDraws := n\<rparr>) = (Inr c, s') \<and>
    getViewablePotOrThrow potId userId s = (Inr p, s) \<and> pot_status p = pot_open \<and>
    nairaStringToKobo (ci_amount input) = Inr amount \<and> pot_minContribution p \<le> amount \<and>
    (case pot_maxContribution p of None \<Rightarrow> True | Some m \<Rightarrow> \<not> m < amount) \<and>
    truthy (c_virtualAccountNumber d) \<and> c_potId d = potId \<and> c_intendedAmount d = amount \<and>
    c_expectedAmount d = amount + inboundFeeFor amount \<and> c_status d = c_pending"
  using assms unfolding create_def bnd_Inr_iff require_Inr_iff from_sum_def Let_def prod.inject
  apply (elim exE conjE)
  apply (simp add: bnd_Inr_iff split_beta)
  apply (elim exE conjE)
  apply (frule reads_only(1), drule reads_only(2), drule reads_only(3), drule reads_only(4), drule randomUUID_Inr)
  apply (intro exI conjI, simp)
  apply (simp_all add: not_less)
  done

lemma create_fails:
  assumes "create w potId userId input s = (Inl e, s')"
  shows "contributions s' = contributions s \<and> led s' = led s"
  using assms unfolding create_def bnd_Inl_iff require_Inr_iff require_Inl_iff from_sum_def Let_def prod.inject
  apply (elim exE conjE disjE)
  by (auto simp add: bnd_Inl_iff split_beta randomUUID_run insert_contribution_def Let_def dest!: reads_only)

text \<open>A contribution is issued within the pot's limits. When \<open>create\<close> succeeds, the pot is open and the
  caller may see it, the intended amount is the requested one and lies between the pot's minimum and
  maximum, the expected amount is the intended one plus the inbound fee, the row is new, pending and has
  an account number to pay into, and the ledger is untouched; when it fails, no row is added.\<close>

lemma contribution_within_limits:
  "case create w potId userId input s of
     (Inl e, s') \<Rightarrow> contributions s' = contributions s \<and> led s' = led s
   | (Inr c, s') \<Rightarrow> \<exists>p. find_pot potId s = Some p \<and> pot_status p = pot_open \<and>
       (pot_potType p \<noteq> private_pot \<or> (\<exists>u. userId = Some u \<and> isMember potId u s)) \<and>
       nairaStringToKobo (ci_amount input) = Inr (c_intendedAmount c) \<and>
       pot_minContribution p \<le> c_intendedAmount c \<and>
       (case pot_maxContribution p of None \<Rightarrow> True | Some m \<Rightarrow> c_intendedAmount c \<le> m) \<and>
       c_expectedAmount c = c_intendedAmount c + inboundFeeFor (c_intendedAmount c) \<and>
       c_status c = c_pending \<and> truthy (c_virtualAccountNumber c) \<and> c_potId c = potId \<and>
       c_id c \<notin> c_id ` set (contributions s) \<and> contributions s' = contributions s @ [c] \<and> led s' = led s"
proof (cases "create w potId userId input s")
  case (Pair r s')
  show ?thesis
  proof (cases r)
    case (Inr c)
    from create_steps[OF Pair[unfolded Inr]] obtain p amount n d where
      found: "getViewablePotOrThrow potId userId s = (Inr p, s)" and opened: "pot_status p = pot_open"
      and amount: "nairaStringToKobo (ci_amount input) = Inr amount"
      and low: "pot_minContribution p \<le> amount"
      and high: "case pot_maxContribution p of None \<Rightarrow> True | Some m \<Rightarrow> \<not> m < amount"
      and account: "truthy (c_virtualAccountNumber d)"
      and stored: "insert_contribution d (s\<lparr>randomDraws := n\<rparr>) = (Inr c, s')"
      and row: "c_potId d = potId" "c_intendedAmount d = amount" "c_expectedAmount d = amount + inboundFeeFor amount"
        "c_status d = c_pending"
      by blast
    have notin: "fresh_id (map c_id (contributions s)) \<notin> c_id ` set (contributions s)"
      using fresh_id_notin[of "map c_id (contributions s)"] by simp
    have new: "c = d\<lparr>c_id := fresh_id (map c_id (contributions s))\<rparr>"
      "s' = s\<lparr>randomDraws := n, contributions := contributions s @ [c]\<rparr>"
      using stored by (auto simp: insert_contribution_def Let_def)
    have kept: "c_intendedAmount c = amount" "c_expectedAmount c = amount + inboundFeeFor amount" "c_status c = c_pending"
      "c_virtualAccountNumber c = c_virtualAccountNumber d" "c_potId c = potId" "c_id c \<notin> c_id ` set (contributions s)"
      "contributions s' = contributions s @ [c]" "led s' = led s"
      using new row notin by simp_all
    have lim: "case pot_maxContribution p of None \<Rightarrow> True | Some m \<Rightarrow> amount \<le> m"
      using high by (auto split: option.splits)
    show ?thesis
      unfolding Pair Inr prod.case sum.case
      unfolding kept using viewable_found[OF found] opened amount low lim account kept(6) by blast
  next
    case (Inl e)
    from create_fails[OF Pair[unfolded Inl]] show ?thesis by (simp add: Pair Inl)
  qed
qed

text \<open>An anonymous visitor asks to put N100.00 into an open public pot: N120.00 is expected.\<close>

definition public_db :: db where
  "public_db = empty_db\<lparr>pots := [example_pot\<lparr>pot_potType := public_pot\<rparr>]\<rparr>"

definition naira_100 :: ContributeInput where
  "naira_100 = \<lparr>ci_amount = ''100.00'', ci_anonymous = None, ci_refundAccountNumber = None, ci_refundBankCode = None\<rparr>"

lemma contribution_within_limits_witness:
  "\<exists>c s'. create example_env 7 None naira_100 public_db = (Inr c, s') \<and> c_intendedAmount c = 10000 \<and>
     c_expectedAmount c = 12000 \<and> c_status c = c_pending \<and> contributions s' = [c]"
proof -
  have "\<not> isl (fst (create example_env 7 None naira_100 public_db))" by code_simp
  then obtain c s' where run: "create example_env 7 None naira_100 public_db = (Inr c, s')"
    by (metis prod.collapse sum.collapse(2))
  have amounts: "nairaStringToKobo (ci_amount naira_100) = Inr 10000" "inboundFeeFor 10000 = 2000" "contributions public_db = []"
    by code_simp+
  show ?thesis
    using contribution_within_limits[where w = example_env and potId = 7 and userId = None and input = naira_100 and s = public_db] amounts
    unfolding run by auto
qed

text \<open>The placeholder for an anonymous contributor is always a name Nomba accepts.\<close>

lemma trim_shape: "length (trim cs) \<le> length cs" "set (trim cs) \<subseteq> set cs"
proof -
  show "length (trim cs) \<le> length cs"
    unfolding trim_def using length_dropWhile_le le_trans by (metis length_rev)
  show "set (trim cs) \<subseteq> set cs"
    unfolding trim_def by (auto dest!: set_dropWhileD)
qed

lemma set_squeeze: "set (squeeze cs) \<subseteq> set cs"
  by (induction cs rule: squeeze.induct) auto

lemma placeholder_accepted:
  "8 \<le> length (placeholder_name title) \<and> length (placeholder_name title) \<le> 29 \<and>
   (\<forall>c\<in>set (placeholder_name title). is_alnum c \<or> c = CHR '' '')"
proof -
  have clean: "set (cleanTitle title) \<subseteq> {c. is_alnum c \<or> c = CHR '' ''}" "length (cleanTitle title) \<le> 20"
    using trim_shape(2) set_squeeze set_take_subset unfolding cleanTitle_def by fastforce+
  have "placeholder_name title = ''Glasspot'' @ rev (dropWhile (\<lambda>c. c = CHR '' '') (rev ('' '' @ cleanTitle title)))"
  proof -
    have "dropWhile (\<lambda>c. c = CHR '' '') (xs @ ''topssalG'') = dropWhile (\<lambda>c. c = CHR '' '') xs @ ''topssalG''" for xs
      by (induction xs) auto
    from this[of "rev (cleanTitle title) @ '' ''"] show ?thesis by (simp add: placeholder_name_def trim_def)
  qed
  moreover have "length (dropWhile (\<lambda>c. c = CHR '' '') (rev ('' '' @ cleanTitle title))) \<le> 21"
    using length_dropWhile_le[of "\<lambda>c. c = CHR '' ''" "rev ('' '' @ cleanTitle title)"] clean(2) by simp
  moreover have "set (placeholder_name title) \<subseteq> {c. is_alnum c \<or> c = CHR '' ''}"
  proof -
    have "\<forall>c\<in>set ''Glasspot ''. is_alnum c \<or> c = CHR '' ''" by code_simp
    then have "set ''Glasspot '' \<subseteq> {c. is_alnum c \<or> c = CHR '' ''}" by auto
    then show ?thesis
      using clean(1) trim_shape(2)[of "''Glasspot '' @ cleanTitle title"] unfolding placeholder_name_def by fastforce
  qed
  ultimately show ?thesis by auto
qed

text \<open>A member with a short name cannot contribute. The virtual account is named after the contributor, and
  the client refuses names of fewer than 8 characters: every attempt fails, for every amount.
\<close>

lemma short_name_cannot_contribute:
  assumes "find (\<lambda>x. u_id x = u) (users s) = Some x" and "length (u_fullName x) < 8"
  shows "\<exists>e s'. create w potId (Some u) input s = (Inl e, s')"
proof (cases "create w potId (Some u) input s")
  case (Pair r s')
  show ?thesis
  proof (cases r)
    case (Inr c)
    from Pair[unfolded Inr] assms show ?thesis
      by (auto simp: create_def bnd_Inr_iff Let_def account_name_def gets_def randomUUID_run createVirtualAccount_def from_sum_def
          split: option.splits if_splits dest!: reads_only)
  qed (use Pair in simp)
qed

lemma short_name_cannot_contribute_witness:
  "\<exists>e s'. create example_env 7 (Some 3) \<lparr>ci_amount = ''100.00'', ci_anonymous = None, ci_refundAccountNumber = None,
       ci_refundBankCode = None\<rparr> (example_db\<lparr>users := [\<lparr>u_id = 3, u_email = ''a'', u_username = ''ada'', u_passwordHash = [],
         u_fullName = ''Ada Obi'', u_phone = None, u_emailVerifiedAt = None, u_refreshTokenHash = None,
         u_refreshTokenExpiresAt = None, u_tokenVersion = 0, u_defaultRefundAccount = None, u_defaultRefundBank = None\<rparr>]\<rparr>) = (Inl e, s')"
  by (rule short_name_cannot_contribute) (simp, simp)

end
