(* ===== verification/Web_Money.thy ===== *)
theory Web_Money
  imports Money Fees
begin

text \<open>
  The web client's own copy of the money rules, \<open>apps/web/lib/money.ts\<close>: the frontend has no
  dependency on the backend and repeats the naira format and the fee schedule on naira strings, for the
  amount it shows before a contribution is made. Names that clash with the backend's carry the prefix
  \<open>web_\<close>. \<open>toNairaAmount\<close>, which goes through
  \<open>Number\<close>, is in \<open>Web_Wizard\<close>; \<open>formatNaira\<close> is \<open>Intl\<close>'s.
\<close>

section \<open>Strings and kobo\<close>

text \<open>\<open>BigInt(text)\<close> on decimal text with an optional sign (empty text is \<open>0n\<close>); anything else is a
  \<open>SyntaxError\<close>.\<close>

definition js_BigInt :: "string \<Rightarrow> error + int" where
  "js_BigInt s =
     (case s of
        c # cs \<Rightarrow>
          if c = CHR ''-'' \<and> cs \<noteq> [] \<and> list_all is_digit cs then Inr (- BigInt cs)
          else if list_all is_digit s then Inr (BigInt s)
          else Inl (PlainError ''SyntaxError'')
      | [] \<Rightarrow> Inr 0)"

definition padEnd :: "nat \<Rightarrow> char \<Rightarrow> string \<Rightarrow> string" where
  "padEnd n c s = s @ replicate (n - length s) c"

definition web_isValidNairaString :: "string \<Rightarrow> bool" where
  "web_isValidNairaString s \<longleftrightarrow>
     takeWhile is_digit s \<noteq> [] \<and>
     (case dropWhile is_digit s of
        [dot, k1, k2] \<Rightarrow> dot = CHR ''.'' \<and> is_digit k1 \<and> is_digit k2
      | _ \<Rightarrow> False)"

definition web_nairaStringToKobo :: "string \<Rightarrow> error + kobo" where
  "web_nairaStringToKobo naira =
     (let parts = split_dot naira;
          nairaPart = (case parts of p # _ \<Rightarrow> p | [] \<Rightarrow> []);
          koboPart = (case parts of _ # q # _ \<Rightarrow> q | _ \<Rightarrow> ''00'')
      in case js_BigInt nairaPart of
           Inl e \<Rightarrow> Inl e
         | Inr n \<Rightarrow> (case js_BigInt (take 2 (padEnd 2 (CHR ''0'') koboPart)) of
             Inl e \<Rightarrow> Inl e
           | Inr k \<Rightarrow> Inr (n * 100 + k)))"

definition web_koboToNairaString :: "kobo \<Rightarrow> string" where
  "web_koboToNairaString k =
     (let negative = k < 0;
          absKobo = (if negative then - k else k);
          nairaPart = absKobo div 100;
          koboPart = absKobo mod 100
      in (if negative then ''-'' else []) @ show_int nairaPart @ ''.'' @ padStart 2 (CHR ''0'') (show_int koboPart))"

definition with_kobo :: "(kobo \<Rightarrow> kobo \<Rightarrow> kobo) \<Rightarrow> string \<Rightarrow> string \<Rightarrow> error + string" where
  "with_kobo f a b =
     (case web_nairaStringToKobo a of
        Inl e \<Rightarrow> Inl e
      | Inr x \<Rightarrow> (case web_nairaStringToKobo b of Inl e \<Rightarrow> Inl e | Inr y \<Rightarrow> Inr (web_koboToNairaString (f x y))))"

definition addNaira :: "string \<Rightarrow> string \<Rightarrow> error + string" where
  "addNaira a b = with_kobo (+) a b"

definition subtractNaira :: "string \<Rightarrow> string \<Rightarrow> error + string" where
  "subtractNaira a b = with_kobo (-) a b"

section \<open>The fee preview\<close>

definition web_NOMBA_INBOUND_FEE_MIN :: string where "web_NOMBA_INBOUND_FEE_MIN = ''10.00''"
definition web_NOMBA_INBOUND_FEE_MAX :: string where "web_NOMBA_INBOUND_FEE_MAX = ''150.00''"
definition web_PLATFORM_INBOUND_FEE :: string where "web_PLATFORM_INBOUND_FEE = ''10.00''"
definition web_OUTBOUND_FEE :: string where "web_OUTBOUND_FEE = ''50.00''"

definition web_nombaInboundFeeFor :: "string \<Rightarrow> error + string" where
  "web_nombaInboundFeeFor intendedNaira =
     (case web_nairaStringToKobo intendedNaira of
        Inl e \<Rightarrow> Inl e
      | Inr intended \<Rightarrow> (case web_nairaStringToKobo web_NOMBA_INBOUND_FEE_MIN of
          Inl e \<Rightarrow> Inl e
        | Inr mn \<Rightarrow> (case web_nairaStringToKobo web_NOMBA_INBOUND_FEE_MAX of
            Inl e \<Rightarrow> Inl e
          | Inr mx \<Rightarrow>
              let raw = (intended * 100) sdiv 10000;
                  clamped = (if raw < mn then mn else if mx < raw then mx else raw)
              in Inr (web_koboToNairaString clamped))))"

definition web_inboundFeeFor :: "string \<Rightarrow> error + string" where
  "web_inboundFeeFor intendedNaira =
     (case web_nombaInboundFeeFor intendedNaira of
        Inl e \<Rightarrow> Inl e
      | Inr fee \<Rightarrow> addNaira fee web_PLATFORM_INBOUND_FEE)"

section \<open>Keystrokes\<close>

text \<open>\<open>replace(/[^\d.]/g, "")\<close>, then everything after the first dot joined without its dots.\<close>

definition sanitizeAmountInput :: "string \<Rightarrow> string" where
  "sanitizeAmountInput raw =
     (case split_dot (filter (\<lambda>c. is_digit c \<or> c = CHR ''.'') raw) of
        wholePart # rest \<Rightarrow> if rest \<noteq> [] then wholePart @ ''.'' @ concat rest else wholePart
      | [] \<Rightarrow> [])"

section \<open>The client agrees with the server\<close>

lemma web_format: "web_koboToNairaString = koboToNairaString"
  by (simp add: fun_eq_iff web_koboToNairaString_def koboToNairaString_def Let_def)

lemma js_BigInt_digits: "list_all is_digit s \<Longrightarrow> js_BigInt s = Inr (BigInt s)"
  by (cases s) (auto simp: js_BigInt_def BigInt_def)

lemma web_reads_valid:
  assumes "nairaStringToKobo s = Inr k"
  shows "web_nairaStringToKobo s = Inr k"
proof -
  have "isValidNairaString s"
    using assms by (simp add: nairaStringToKobo_def split: if_splits)
  then obtain n k1 k2 where s: "s = n @ [CHR ''.'', k1, k2]" "n \<noteq> []" "list_all is_digit n" "is_digit k1" "is_digit k2"
    by (auto simp: isValidNairaString_iff)
  have parts: "split_dot s = [n, [k1, k2]]"
    using s digits_no_dot[of n] digits_no_dot[of "[k1, k2]"]
    by (simp add: split_dot_one split_dot_no_dot del: split_dot.simps(2))
  have "k = BigInt n * 100 + BigInt [k1, k2]"
    using assms nairaStringToKobo_parts[OF s(3,2,4,5)] s(1) by simp
  then show ?thesis
    using s(3-5) unfolding web_nairaStringToKobo_def parts Let_def
    by (simp add: padEnd_def js_BigInt_digits numeral_2_eq_2)
qed

lemma web_reads_back: "0 \<le> k \<Longrightarrow> web_nairaStringToKobo (koboToNairaString k) = Inr k"
  by (rule web_reads_valid[OF kobo_renders])

lemma web_fee_constants:
  "web_nairaStringToKobo web_NOMBA_INBOUND_FEE_MIN = Inr NOMBA_INBOUND_FEE_MIN"
  "web_nairaStringToKobo web_NOMBA_INBOUND_FEE_MAX = Inr NOMBA_INBOUND_FEE_MAX"
  "web_nairaStringToKobo web_PLATFORM_INBOUND_FEE = Inr PLATFORM_INBOUND_FEE"
  "web_nairaStringToKobo web_OUTBOUND_FEE = Inr OUTBOUND_FEE"
  by code_simp+

text \<open>The fee the web client previews is the fee the backend charges: on every wire amount the
  backend accepts, the client's string computation gives the rendering of the backend's kobo fee, and adding it to the
  amount gives the rendering of the expected amount the backend stores.\<close>

lemma preview_fee_is_charged_fee:
  assumes "nairaStringToKobo s = Inr k"
  shows "web_inboundFeeFor s = Inr (koboToNairaString (inboundFeeFor k)) \<and>
    addNaira s (koboToNairaString (inboundFeeFor k)) = Inr (koboToNairaString (k + inboundFeeFor k))"
proof -
  have fee: "web_nombaInboundFeeFor s = Inr (koboToNairaString (nombaInboundFeeFor k))"
    by (simp add: web_nombaInboundFeeFor_def web_reads_valid[OF assms] web_fee_constants web_format nombaInboundFeeFor_def
        NOMBA_INBOUND_FEE_RATE_BPS_def Let_def)
  have pos: "0 \<le> nombaInboundFeeFor k" "0 \<le> inboundFeeFor k"
    using nombaInboundFeeFor_pos[of k] by (simp_all add: inboundFeeFor_def fee_constants)
  show ?thesis
    by (simp add: web_inboundFeeFor_def fee addNaira_def with_kobo_def web_reads_back[OF pos(1)]
        web_reads_back[OF pos(2), unfolded inboundFeeFor_def] web_reads_valid[OF assms] web_fee_constants web_format inboundFeeFor_def)
qed

lemma preview_fee_is_charged_fee_witness:
  "web_inboundFeeFor ''1234.56'' = Inr ''22.34'' \<and> addNaira ''1234.56'' ''22.34'' = Inr ''1256.90''"
proof -
  have facts: "nairaStringToKobo ''1234.56'' = Inr 123456" "koboToNairaString (inboundFeeFor 123456) = ''22.34''"
    "koboToNairaString (123456 + inboundFeeFor 123456) = ''1256.90''"
    by code_simp+
  from preview_fee_is_charged_fee[OF facts(1)] show ?thesis unfolding facts(2,3) .
qed

text \<open>Adding and subtracting rendered amounts is adding and subtracting kobo; but a negative result cannot be
  read back: the sign is applied to the naira part only.\<close>

lemma add_subtract_exact:
  assumes "0 \<le> a" and "0 \<le> b"
  shows "addNaira (koboToNairaString a) (koboToNairaString b) = Inr (koboToNairaString (a + b))"
    and "subtractNaira (koboToNairaString a) (koboToNairaString b) = Inr (koboToNairaString (a - b))"
  using assms by (simp_all add: addNaira_def subtractNaira_def with_kobo_def web_reads_back web_format)

lemma negative_not_read_back: "web_nairaStringToKobo (web_koboToNairaString (- 150)) = Inr (- 50)"
  by code_simp

section \<open>What the amount field lets through\<close>

lemma split_dot_nonempty: "split_dot s \<noteq> []"
  by (cases s) (auto split: list.splits)

lemma split_dot_parts: "p \<in> set (split_dot s) \<Longrightarrow> c \<in> set p \<Longrightarrow> c \<in> set s \<and> c \<noteq> CHR ''.''"
proof (induction s arbitrary: p)
  case (Cons a s)
  show ?case
  proof (cases "a = CHR ''.''")
    case True
    then show ?thesis using Cons by auto
  next
    case False
    obtain q qs where "split_dot s = q # qs" using split_dot_nonempty neq_Nil_conv by metis
    with False Cons.prems consider "p \<in> set (split_dot s)" | "p = a # q" "q \<in> set (split_dot s)" by auto
    then show ?thesis using Cons False by cases auto
  qed
qed simp

lemma concat_split_dot: "concat (split_dot s) = filter (\<lambda>c. c \<noteq> CHR ''.'') s"
  by (induction s) (auto split: list.splits simp: split_dot_nonempty)

lemma split_dot_single: "split_dot s = [w] \<Longrightarrow> w = s \<and> CHR ''.'' \<notin> set s"
  by (induction s arbitrary: w) (auto split: if_splits list.splits simp: split_dot_nonempty)

lemma digit_or_dot: "filter (\<lambda>c. c \<noteq> CHR ''.'') (filter (\<lambda>c. is_digit c \<or> c = CHR ''.'') s) = filter is_digit s"
  by (induction s) (auto simp: is_digit_not_dot)

text \<open>Text that already is digits, or digits around one dot, passes through unchanged.\<close>

lemma sanitize_digits:
  assumes "list_all is_digit w"
  shows "sanitizeAmountInput w = w \<and> set w \<subseteq> {c. is_digit c \<or> c = CHR ''.''} \<and>
    filter (\<lambda>c. c = CHR ''.'') w = [] \<and> filter is_digit w = w"
proof -
  have "filter (\<lambda>c. is_digit c \<or> c = CHR ''.'') w = w" "filter is_digit w = w" "filter (\<lambda>c. c = CHR ''.'') w = []"
    using assms by (induction w) (auto simp: is_digit_not_dot)
  then show ?thesis
    using assms digits_no_dot[of w] by (auto simp: sanitizeAmountInput_def split_dot_no_dot list_all_iff)
qed

lemma sanitize_one_dot:
  assumes "list_all is_digit w" and "list_all is_digit v"
  shows "sanitizeAmountInput (w @ ''.'' @ v) = w @ ''.'' @ v \<and>
    set (w @ ''.'' @ v) \<subseteq> {c. is_digit c \<or> c = CHR ''.''} \<and>
    length (filter (\<lambda>c. c = CHR ''.'') (w @ ''.'' @ v)) = 1 \<and> filter is_digit (w @ ''.'' @ v) = w @ v"
proof -
  have keep: "filter (\<lambda>c. is_digit c \<or> c = CHR ''.'') u = u" "filter is_digit u = u" "filter (\<lambda>c. c = CHR ''.'') u = []"
    if "list_all is_digit u" for u
    using that by (induction u) (auto simp: is_digit_not_dot)
  have "split_dot (w @ ''.'' @ v) = [w, v]"
    using assms digits_no_dot[of w] digits_no_dot[of v] by (simp add: split_dot_one split_dot_no_dot)
  then show ?thesis
    using assms by (auto simp: sanitizeAmountInput_def keep list_all_iff)
qed

text \<open>Whatever is typed or pasted into an amount field, the sanitised text holds digits and at most one
  dot, keeps every typed digit in order, and sanitising it again changes nothing.\<close>

lemma sanitized_amount:
  "set (sanitizeAmountInput raw) \<subseteq> {c. is_digit c \<or> c = CHR ''.''} \<and>
   length (filter (\<lambda>c. c = CHR ''.'') (sanitizeAmountInput raw)) \<le> 1 \<and>
   filter is_digit (sanitizeAmountInput raw) = filter is_digit raw \<and>
   sanitizeAmountInput (sanitizeAmountInput raw) = sanitizeAmountInput raw"
proof -
  let ?kept = "filter (\<lambda>c. is_digit c \<or> c = CHR ''.'') raw"
  obtain w rest where split: "split_dot ?kept = w # rest"
    using split_dot_nonempty by (metis neq_Nil_conv)
  have digits: "list_all is_digit w" "list_all is_digit (concat rest)"
    using split_dot_parts[of _ ?kept] by (fastforce simp: split list_all_iff)+
  have all: "w @ concat rest = filter is_digit raw"
    using concat_split_dot[of ?kept] unfolding split digit_or_dot by simp
  have out: "sanitizeAmountInput raw = (if rest \<noteq> [] then w @ ''.'' @ concat rest else w)"
    by (simp add: sanitizeAmountInput_def split)
  show ?thesis
  proof (cases "rest = []")
    case True
    then show ?thesis using sanitize_digits[OF digits(1)] all digits(1) by (simp add: out)
  next
    case False
    then show ?thesis
      using sanitize_one_dot[OF digits] all digits by (simp add: out)
  qed
qed

end
