(* ===== verification/Throttle.thy ===== *)
theory Throttle
  imports Money "HOL-Library.Multiset" "HOL-Library.Finite_Map"
begin

text \<open>
  \<open>integrations/nomba/transfer-throttle.ts\<close>: Nomba takes at most five transfers a minute to one
  recipient. Two implementations of the same interface: an array of timestamps per recipient in memory,
  and a sorted set per recipient in Redis behind a Lua script. Redis is not part of the repository: its
  sorted-set commands are a record of functions, and \<open>redis_ok\<close> states the documented behaviour the
  script relies on. Times are milliseconds; a script runs at the time its caller read.

  The abstract contract is \<open>window_reserve\<close>: keep every admitted time, admit while fewer than \<open>limit\<close> of
  them lie in the last window. The locale \<open>sliding_window\<close> is the interface; both implementations are
  instances, so both answer every sequence of requests as the contract does.
\<close>

definition DEFAULT_LIMIT :: nat where "DEFAULT_LIMIT = 5"
definition DEFAULT_WINDOW_SECONDS :: int where "DEFAULT_WINDOW_SECONDS = 60"

section \<open>In memory\<close>

definition throttle_key :: "string \<Rightarrow> string \<Rightarrow> string" where
  "throttle_key destinationAccount destinationBank = destinationBank @ '':'' @ destinationAccount"

text \<open>\<open>recent\<close>, the map of timestamp arrays; the two clock reads are \<open>start\<close> and \<open>pushed\<close>.\<close>

definition mem_reserve :: "nat \<Rightarrow> int \<Rightarrow> time \<Rightarrow> time \<Rightarrow> string \<Rightarrow> (string \<rightharpoonup> time list) \<Rightarrow> bool \<times> (string \<rightharpoonup> time list)" where
  "mem_reserve limit windowSeconds start pushed key recent =
     (let windowStart = start - windowSeconds * 1000;
          timestamps = filter (\<lambda>t. windowStart < t) (case recent key of Some ts \<Rightarrow> ts | None \<Rightarrow> [])
      in if limit \<le> length timestamps then (False, recent(key \<mapsto> timestamps))
         else (True, recent(key \<mapsto> timestamps @ [pushed])))"

section \<open>In Redis\<close>

text \<open>The four commands of the script: each takes the key, its arguments, the server's time, and the
  server's state. \<open>zmembers key t\<close> is what the key holds at time \<open>t\<close>: members with their scores.\<close>

record 'r redis =
  ZREMRANGEBYSCORE :: "string \<Rightarrow> time \<Rightarrow> time \<Rightarrow> time \<Rightarrow> 'r \<Rightarrow> 'r"
  ZCARD :: "string \<Rightarrow> time \<Rightarrow> 'r \<Rightarrow> nat"
  ZADD :: "string \<Rightarrow> time \<Rightarrow> string \<Rightarrow> time \<Rightarrow> 'r \<Rightarrow> 'r"
  EXPIRE :: "string \<Rightarrow> int \<Rightarrow> time \<Rightarrow> 'r \<Rightarrow> 'r"
  zmembers :: "string \<Rightarrow> time \<Rightarrow> 'r \<Rightarrow> (string \<rightharpoonup> time)"

definition RESERVE_SCRIPT :: "'r redis \<Rightarrow> string \<Rightarrow> time \<Rightarrow> nat \<Rightarrow> time \<Rightarrow> string \<Rightarrow> int \<Rightarrow> 'r \<Rightarrow> bool \<times> 'r" where
  "RESERVE_SCRIPT R key windowStart limit now member windowSeconds s =
     (let s1 = ZREMRANGEBYSCORE R key 0 windowStart now s;
          n = ZCARD R key now s1
      in if n < limit
         then (True, EXPIRE R key windowSeconds now (ZADD R key now member now s1))
         else (False, s1))"

definition redis_key :: "string \<Rightarrow> string" where
  "redis_key key = ''nomba:transfer-throttle:'' @ key"

text \<open>The member's text is the time and a random number; the state counts the draws.\<close>

definition redis_reserve ::
  "'r redis \<Rightarrow> (nat \<Rightarrow> string) \<Rightarrow> nat \<Rightarrow> int \<Rightarrow> time \<Rightarrow> string \<Rightarrow> 'r \<times> nat \<Rightarrow> bool \<times> ('r \<times> nat)" where
  "redis_reserve R random limit windowSeconds now key st =
     (case st of (s, n) \<Rightarrow>
        let windowStart = now - windowSeconds * 1000;
            (claimed, s') = RESERVE_SCRIPT R (redis_key key) windowStart limit now (show_int now @ '':'' @ random n) windowSeconds s
        in (claimed, (s', Suc n)))"

text \<open>What the script relies on: \<open>ZREMRANGEBYSCORE\<close> drops the members whose score is in the range,
  \<open>ZCARD\<close> counts members, and after \<open>ZADD\<close> and \<open>EXPIRE\<close> the key holds the old members and the new one
  until the time to live has passed, and nothing from then on. No command touches another key.\<close>

definition redis_ok :: "'r redis \<Rightarrow> bool" where
  "redis_ok R \<longleftrightarrow>
     (\<forall>k lo hi t s k' t'. t \<le> t' \<longrightarrow> zmembers R k' t' (ZREMRANGEBYSCORE R k lo hi t s) =
        (if k' = k then (\<lambda>m. case zmembers R k t' s m of Some x \<Rightarrow> if lo \<le> x \<and> x \<le> hi then None else Some x | None \<Rightarrow> None)
         else zmembers R k' t' s)) \<and>
     (\<forall>k t s. finite (dom (zmembers R k t s)) \<and> ZCARD R k t s = card (dom (zmembers R k t s))) \<and>
     (\<forall>k x m secs t s k' t'. t \<le> t' \<longrightarrow> zmembers R k' t' (EXPIRE R k secs t (ZADD R k x m t s)) =
        (if k' \<noteq> k then zmembers R k' t' s
         else if t' < t + secs * 1000 then (zmembers R k t s)(m \<mapsto> x) else Map.empty))"

section \<open>The contract\<close>

text \<open>Every admitted time of every recipient.\<close>

definition window_reserve :: "nat \<Rightarrow> time \<Rightarrow> time \<Rightarrow> string \<Rightarrow> (string \<Rightarrow> time multiset) \<Rightarrow> bool \<times> (string \<Rightarrow> time multiset)" where
  "window_reserve limit window now key admitted =
     (if size (filter_mset (\<lambda>t. now - window < t) (admitted key)) < limit
      then (True, admitted(key := add_mset now (admitted key))) else (False, admitted))"

text \<open>A run of requests, each a time and a recipient's key.\<close>

fun reserve_all :: "(time \<Rightarrow> string \<Rightarrow> 's \<Rightarrow> bool \<times> 's) \<Rightarrow> (time \<times> string) list \<Rightarrow> 's \<Rightarrow> bool list \<times> 's" where
  "reserve_all reserve [] s = ([], s)"
| "reserve_all reserve ((now, key) # reqs) s =
     (let (r, s') = reserve now key s; (rs, s'') = reserve_all reserve reqs s' in (r # rs, s''))"

text \<open>The times at which a recipient was admitted.\<close>

definition admitted_times :: "(time \<times> string) list \<Rightarrow> bool list \<Rightarrow> string \<Rightarrow> time list" where
  "admitted_times reqs answers key = [fst (fst x). x \<leftarrow> zip reqs answers, snd x \<and> snd (fst x) = key]"

lemma admitted_times_simps [simp]:
  "admitted_times [] answers key = []"
  "admitted_times ((t, k) # reqs) (r # answers) key =
     (if r \<and> k = key then t # admitted_times reqs answers key else admitted_times reqs answers key)"
  by (simp_all add: admitted_times_def)

locale sliding_window =
  fixes reserve :: "time \<Rightarrow> string \<Rightarrow> 's \<Rightarrow> bool \<times> 's"
    and recent :: "string \<Rightarrow> time \<Rightarrow> 's \<Rightarrow> time multiset"
    and ok :: "time \<Rightarrow> 's \<Rightarrow> bool"
    and limit :: nat and window :: time
  assumes admits: "ok t s \<Longrightarrow> t \<le> now \<Longrightarrow> fst (reserve now k s) \<longleftrightarrow> size (recent k now s) < limit"
    and ok_kept: "ok t s \<Longrightarrow> t \<le> now \<Longrightarrow> ok now (snd (reserve now k s))"
    and records: "ok t s \<Longrightarrow> t \<le> now \<Longrightarrow> now \<le> t' \<Longrightarrow>
      recent k' t' (snd (reserve now k s)) =
      filter_mset (\<lambda>x. t' - window < x) (recent k' now s + (if k' = k \<and> fst (reserve now k s) then {#now#} else {#}))"
begin

text \<open>The simulation: what is still recent is what the contract's history has in the window.\<close>

definition simulates :: "time \<Rightarrow> 's \<Rightarrow> (string \<Rightarrow> time multiset) \<Rightarrow> bool" where
  "simulates t s admitted \<longleftrightarrow> ok t s \<and>
     (\<forall>k t'. t \<le> t' \<longrightarrow> recent k t' s = filter_mset (\<lambda>x. t' - window < x) (admitted k))"

lemma step_simulates:
  assumes "simulates t s admitted" and "t \<le> now"
  shows "fst (reserve now k s) = fst (window_reserve limit window now k admitted) \<and>
    simulates now (snd (reserve now k s)) (snd (window_reserve limit window now k admitted))"
proof -
  have ok: "ok t s" and rec: "\<And>k t'. t \<le> t' \<Longrightarrow> recent k t' s = filter_mset (\<lambda>x. t' - window < x) (admitted k)"
    using assms(1) by (auto simp: simulates_def)
  have same: "fst (reserve now k s) = fst (window_reserve limit window now k admitted)"
    using admits[OF ok assms(2)] rec[OF assms(2)] by (simp add: window_reserve_def)
  have "recent k' t' (snd (reserve now k s)) =
      filter_mset (\<lambda>x. t' - window < x) (snd (window_reserve limit window now k admitted) k')" if "now \<le> t'" for k' t'
  proof -
    have inner: "filter_mset (\<lambda>x. t' - window < x) (filter_mset (\<lambda>x. now - window < x) M) = filter_mset (\<lambda>x. t' - window < x) M"
      for M :: "time multiset"
      using \<open>now \<le> t'\<close> by (simp add: filter_filter_mset) (rule filter_mset_cong, auto)
    show ?thesis
      using records[OF ok assms(2) that, of k' k] rec[OF assms(2), of k'] same inner[of "admitted k'"]
      by (auto simp: window_reserve_def)
  qed
  with ok_kept[OF ok assms(2)] same show ?thesis by (simp add: simulates_def)
qed

text \<open>Every run of requests with non-decreasing times is answered as the contract answers it.\<close>

lemma run_refines:
  assumes "simulates t s admitted" and "sorted (t # map fst reqs)"
  shows "fst (reserve_all reserve reqs s) = fst (reserve_all (window_reserve limit window) reqs admitted)"
  using assms
proof (induction reqs arbitrary: t s admitted)
  case (Cons req reqs)
  obtain now k where req: "req = (now, k)" by (cases req)
  have step: "fst (reserve now k s) = fst (window_reserve limit window now k admitted)"
    "simulates now (snd (reserve now k s)) (snd (window_reserve limit window now k admitted))"
    using step_simulates[OF Cons.prems(1), of now k] Cons.prems(2) by (simp_all add: req)
  from Cons.IH[OF step(2)] Cons.prems(2)
  have "fst (reserve_all reserve reqs (snd (reserve now k s))) =
      fst (reserve_all (window_reserve limit window) reqs (snd (window_reserve limit window now k admitted)))"
    by (simp add: req)
  with step(1) show ?case by (simp add: req split_beta)
qed simp

end

lemma filter_mset_mono_pred:
  "(\<And>x. x \<in># M \<Longrightarrow> P x \<Longrightarrow> Q x) \<Longrightarrow> filter_mset P M \<subseteq># filter_mset Q M"
  by (rule mset_subset_eqI) (metis count_eq_zero_iff count_filter_mset le_refl zero_le)

text \<open>The contract keeps the cap: no window, wherever it starts, holds more than \<open>limit\<close> admitted times.\<close>

lemma contract_caps:
  assumes "sorted (t # map fst reqs)" and "\<forall>x\<in>#admitted key. x \<le> t" and "0 < window"
    and "\<forall>T. size (filter_mset (\<lambda>x. T - window < x \<and> x \<le> T) (admitted key)) \<le> limit"
  shows "size (filter_mset (\<lambda>x. T - window < x \<and> x \<le> T)
    (admitted key + mset (admitted_times reqs (fst (reserve_all (window_reserve limit window) reqs admitted)) key))) \<le> limit"
  using assms
proof (induction reqs arbitrary: t admitted)
  case (Cons req reqs)
  obtain now k where req: "req = (now, k)" by (cases req)
  have now: "t \<le> now" using Cons.prems(1) by (simp add: req)
  obtain r admitted' where step: "window_reserve limit window now k admitted = (r, admitted')" by (cases "window_reserve limit window now k admitted")
  have cap: "size (filter_mset (\<lambda>x. T' - window < x \<and> x \<le> T') (admitted' key)) \<le> limit" for T'
  proof (cases "r \<and> k = key \<and> T' - window < now \<and> now \<le> T'")
    case True
    then have room: "size (filter_mset (\<lambda>x. now - window < x) (admitted key)) < limit"
      and new: "admitted' key = add_mset now (admitted key)"
      using step by (auto simp: window_reserve_def split: if_splits)
    have "filter_mset (\<lambda>x. T' - window < x \<and> x \<le> T') (admitted key) \<subseteq># filter_mset (\<lambda>x. now - window < x) (admitted key)"
      using True by (intro filter_mset_mono_pred) auto
    then have "size (filter_mset (\<lambda>x. T' - window < x \<and> x \<le> T') (admitted key)) < limit"
      using room size_mset_mono le_less_trans by blast
    then show ?thesis using True by (simp add: new)
  next
    case False
    then have "filter_mset (\<lambda>x. T' - window < x \<and> x \<le> T') (admitted' key) =
        filter_mset (\<lambda>x. T' - window < x \<and> x \<le> T') (admitted key)"
      using step by (auto simp: window_reserve_def split: if_splits)
    then show ?thesis using Cons.prems(4) by simp
  qed
  have past: "\<forall>x\<in>#admitted' key. x \<le> now"
    using step Cons.prems(2) now by (auto simp: window_reserve_def intro: order_trans split: if_splits)
  have rest: "sorted (now # map fst reqs)" using Cons.prems(1) by (simp add: req)
  have split: "admitted key + mset (admitted_times (req # reqs) (fst (reserve_all (window_reserve limit window) (req # reqs) admitted)) key) =
      admitted' key + mset (admitted_times reqs (fst (reserve_all (window_reserve limit window) reqs admitted')) key)"
    using step by (auto simp: req split_beta window_reserve_def split: if_splits)
  show ?case unfolding split using Cons.IH[of now admitted'] rest past Cons.prems(3) cap by blast
qed simp

section \<open>The array of timestamps is an instance\<close>

definition mem_recent :: "int \<Rightarrow> string \<Rightarrow> time \<Rightarrow> (string \<rightharpoonup> time list) \<Rightarrow> time multiset" where
  "mem_recent windowSeconds key t recent =
     filter_mset (\<lambda>x. t - windowSeconds * 1000 < x) (mset (case recent key of Some ts \<Rightarrow> ts | None \<Rightarrow> []))"

interpretation mem: sliding_window "\<lambda>now. mem_reserve limit windowSeconds now now" "mem_recent windowSeconds"
  "\<lambda>t s. True" limit "windowSeconds * 1000" for limit windowSeconds
proof
  fix t now :: time and s :: "string \<rightharpoonup> time list" and k
  show "fst (mem_reserve limit windowSeconds now now k s) \<longleftrightarrow> size (mem_recent windowSeconds k now s) < limit"
    by (simp add: mem_reserve_def mem_recent_def Let_def not_le flip: mset_filter)
next
  fix t now t' :: time and s :: "string \<rightharpoonup> time list" and k' k
  assume "now \<le> t'"
  then have inner: "filter_mset (\<lambda>x. t' - windowSeconds * 1000 < x) (filter_mset (\<lambda>x. now - windowSeconds * 1000 < x) M) =
      filter_mset (\<lambda>x. t' - windowSeconds * 1000 < x) M" for M
    by (simp add: filter_filter_mset) (rule filter_mset_cong, auto)
  show "mem_recent windowSeconds k' t' (snd (mem_reserve limit windowSeconds now now k s)) =
      filter_mset (\<lambda>x. t' - windowSeconds * 1000 < x) (mem_recent windowSeconds k' now s +
        (if k' = k \<and> fst (mem_reserve limit windowSeconds now now k s) then {#now#} else {#}))"
    by (simp add: mem_reserve_def mem_recent_def Let_def inner del: filter_filter_mset)
qed simp_all

section \<open>The Redis script is an instance\<close>

definition redis_recent :: "'r redis \<Rightarrow> int \<Rightarrow> string \<Rightarrow> time \<Rightarrow> 'r \<times> nat \<Rightarrow> time multiset" where
  "redis_recent R windowSeconds key t st =
     filter_mset (\<lambda>x. t - windowSeconds * 1000 < x)
       (image_mset (\<lambda>m. the (zmembers R (redis_key key) t (fst st) m)) (mset_set (dom (zmembers R (redis_key key) t (fst st)))))"

text \<open>Scores are past times, members come from earlier draws, and a key that expires takes only
  members with it that have left the window.\<close>

definition redis_fine :: "'r redis \<Rightarrow> (nat \<Rightarrow> string) \<Rightarrow> int \<Rightarrow> time \<Rightarrow> 'r \<times> nat \<Rightarrow> bool" where
  "redis_fine R random windowSeconds t st \<longleftrightarrow> 0 \<le> t \<and>
     (\<forall>k t1. t \<le> t1 \<longrightarrow>
        (\<forall>m x. zmembers R k t1 (fst st) m = Some x \<longrightarrow> 0 \<le> x \<and> x \<le> t \<and> (\<exists>y i. i < snd st \<and> m = show_int y @ '':'' @ random i)) \<and>
        (\<forall>t2. t1 \<le> t2 \<longrightarrow> zmembers R k t2 (fst st) = zmembers R k t1 (fst st) \<or>
           (zmembers R k t2 (fst st) = Map.empty \<and> (\<forall>m x. zmembers R k t1 (fst st) m = Some x \<longrightarrow> x \<le> t2 - windowSeconds * 1000))))"

lemma show_int_no_colon: "CHR '':'' \<notin> set (show_int x)"
  using show_nat_digits[of "CHR '':''"] by (auto simp: show_int_def is_digit_def)

lemma member_text_inj:
  assumes "show_int x @ '':'' @ a = show_int y @ '':'' @ b"
  shows "a = b"
proof -
  have "dropWhile (\<lambda>c. c \<noteq> CHR '':'') (show_int z @ '':'' @ u) = '':'' @ u" for z u
    using show_int_no_colon[of z] by (subst dropWhile_append2) auto
  from this[of x a] this[of y b] assms show ?thesis by simp
qed

lemma redis_okD:
  assumes "redis_ok R"
  shows "t \<le> t' \<Longrightarrow> zmembers R k' t' (ZREMRANGEBYSCORE R k lo hi t s) =
      (if k' = k then (\<lambda>m. case zmembers R k t' s m of Some x \<Rightarrow> if lo \<le> x \<and> x \<le> hi then None else Some x | None \<Rightarrow> None)
       else zmembers R k' t' s)"
    and "finite (dom (zmembers R k t s))" and "ZCARD R k t s = card (dom (zmembers R k t s))"
    and "t \<le> t' \<Longrightarrow> zmembers R k' t' (EXPIRE R k secs t (ZADD R k x m t s)) =
      (if k' \<noteq> k then zmembers R k' t' s
       else if t' < t + secs * 1000 then (zmembers R k t s)(m \<mapsto> x) else Map.empty)"
  using assms unfolding redis_ok_def by blast+

text \<open>What the script leaves of a key: the members whose score is in the window.\<close>

definition in_window :: "'r redis \<Rightarrow> int \<Rightarrow> time \<Rightarrow> string \<Rightarrow> time \<Rightarrow> 'r \<Rightarrow> (string \<rightharpoonup> time)" where
  "in_window R windowSeconds now k t s =
     (\<lambda>m. case zmembers R k t s m of Some x \<Rightarrow> if now - windowSeconds * 1000 < x then Some x else None | None \<Rightarrow> None)"

definition scores :: "(string \<rightharpoonup> time) \<Rightarrow> time multiset" where
  "scores f = image_mset (\<lambda>m. the (f m)) (mset_set (dom f))"

lemma size_scores: "size (scores f) = card (dom f)"
  by (simp add: scores_def)

lemma scores_empty [simp]: "scores Map.empty = {#}"
  by (simp add: scores_def)

lemma scores_upd: "finite (dom f) \<Longrightarrow> f m = None \<Longrightarrow> scores (f(m \<mapsto> x)) = add_mset x (scores f)"
  by (auto simp: scores_def domIff intro!: image_mset_cong)

lemma scores_filter:
  assumes "finite (dom f)"
  shows "scores (\<lambda>m. case f m of Some x \<Rightarrow> if P x then Some x else None | None \<Rightarrow> None) = filter_mset P (scores f)"
proof -
  have dom: "dom (\<lambda>m. case f m of Some x \<Rightarrow> if P x then Some x else None | None \<Rightarrow> None) = {m \<in> dom f. P (the (f m))}"
    by (auto split: option.splits if_splits)
  have "image_mset (\<lambda>m. the (case f m of Some x \<Rightarrow> if P x then Some x else None | None \<Rightarrow> None)) (mset_set {m \<in> dom f. P (the (f m))}) =
      image_mset (\<lambda>m. the (f m)) (mset_set {m \<in> dom f. P (the (f m))})"
    by (rule image_mset_cong) (use assms in \<open>auto split: option.splits\<close>)
  then show ?thesis
    unfolding scores_def dom using assms by (simp add: filter_mset_image_mset filter_mset_mset_set)
qed

lemma redis_recent_alt: "redis_recent R w key t st = filter_mset (\<lambda>x. t - w * 1000 < x) (scores (zmembers R (redis_key key) t (fst st)))"
  by (simp add: redis_recent_def scores_def)

lemma redis_key_inj: "redis_key a = redis_key b \<longleftrightarrow> a = b"
  by (simp add: redis_key_def)

lemma fineD:
  assumes "redis_fine R random w t (s, n)" and "t \<le> t1"
  shows "zmembers R k t1 s m = Some x \<Longrightarrow> 0 \<le> x \<and> x \<le> t \<and> (\<exists>y i. i < n \<and> m = show_int y @ '':'' @ random i)"
    and "t1 \<le> t2 \<Longrightarrow> zmembers R k t2 s = zmembers R k t1 s \<or>
      (zmembers R k t2 s = Map.empty \<and> (\<forall>m x. zmembers R k t1 s m = Some x \<longrightarrow> x \<le> t2 - w * 1000))"
  using assms unfolding redis_fine_def fst_conv snd_conv by blast+

lemma in_scores: "x \<in># scores f \<Longrightarrow> \<exists>m. f m = Some x"
  by (cases "finite (dom f)") (auto simp: scores_def)

lemma filter_mset_none: "(\<And>x. x \<in># M \<Longrightarrow> \<not> P x) \<Longrightarrow> filter_mset P M = {#}"
  by (induction M) auto

text \<open>An expiring key takes nothing with it that the window still shows.\<close>

lemma expiry_invisible:
  assumes "redis_fine R random w t (s, n)" and "t \<le> t1" and "t1 \<le> t2"
  shows "filter_mset (\<lambda>x. t2 - w * 1000 < x) (scores (zmembers R k t2 s)) =
    filter_mset (\<lambda>x. t2 - w * 1000 < x) (scores (zmembers R k t1 s))"
proof (cases "zmembers R k t2 s = zmembers R k t1 s")
  case False
  then have gone: "zmembers R k t2 s = Map.empty" and old: "\<And>m x. zmembers R k t1 s m = Some x \<Longrightarrow> x \<le> t2 - w * 1000"
    using fineD(2)[OF assms, of k] by blast+
  have "filter_mset (\<lambda>x. t2 - w * 1000 < x) (scores (zmembers R k t1 s)) = {#}"
    by (rule filter_mset_none) (meson in_scores not_le old)
  then show ?thesis by (simp add: gone)
qed simp

lemma scores_in_window:
  "redis_ok R \<Longrightarrow> scores (in_window R w now k t s) = filter_mset (\<lambda>x. now - w * 1000 < x) (scores (zmembers R k t s))"
  unfolding in_window_def by (rule scores_filter) (rule redis_okD(2))

lemma redis_step:
  assumes ok: "redis_ok R" and fine: "redis_fine R random w t (s, n)" and now: "t \<le> now"
    and run: "redis_reserve R random limit w now key (s, n) = (r, (s', n'))"
  shows "n' = Suc n" and "r \<longleftrightarrow> size (redis_recent R w key now (s, n)) < limit"
    and "now \<le> t' \<Longrightarrow> zmembers R k' t' s' =
      (if k' \<noteq> redis_key key then zmembers R k' t' s
       else if r then (if t' < now + w * 1000 then (in_window R w now (redis_key key) now s)(show_int now @ '':'' @ random n \<mapsto> now) else Map.empty)
       else in_window R w now (redis_key key) t' s)"
proof -
  let ?K = "redis_key key" and ?m = "show_int now @ '':'' @ random n"
  let ?s1 = "ZREMRANGEBYSCORE R ?K 0 (now - w * 1000) now s"
  have removed: "zmembers R k'' t'' ?s1 = (if k'' = ?K then in_window R w now ?K t'' s else zmembers R k'' t'' s)"
    if "now \<le> t''" for k'' t''
    using fineD(1)[OF fine, of t'' ?K] now that
    by (auto simp: redis_okD(1)[OF ok that] in_window_def fun_eq_iff not_less split: option.splits)
  have count: "ZCARD R ?K now ?s1 = size (redis_recent R w key now (s, n))"
    using scores_in_window[OF ok, of w now ?K now s]
    by (simp add: redis_okD(3)[OF ok] removed redis_recent_alt flip: size_scores)
  have out: "(r, s') = (if ZCARD R ?K now ?s1 < limit then (True, EXPIRE R ?K w now (ZADD R ?K now ?m now ?s1)) else (False, ?s1))"
    and "n' = Suc n"
    using run by (auto simp: redis_reserve_def RESERVE_SCRIPT_def Let_def split: if_splits)
  then show "n' = Suc n" "r \<longleftrightarrow> size (redis_recent R w key now (s, n)) < limit"
    by (auto simp: count split: if_splits)
  show "zmembers R k' t' s' =
      (if k' \<noteq> ?K then zmembers R k' t' s
       else if r then (if t' < now + w * 1000 then (in_window R w now ?K now s)(?m \<mapsto> now) else Map.empty)
       else in_window R w now ?K t' s)" if "now \<le> t'"
    using out by (auto simp: redis_okD(4)[OF ok that] removed that split: if_splits)
qed

lemma redis_sliding_window:
  assumes ok: "redis_ok R" and inj: "inj random" and w: "0 < w"
  shows "sliding_window (redis_reserve R random limit w) (redis_recent R w) (redis_fine R random w) limit (w * 1000)"
proof
  fix t now :: time and st :: "'a \<times> nat" and k
  assume fine: "redis_fine R random w t st" and now: "t \<le> now"
  obtain s n r s' n' where st: "st = (s, n)" and run: "redis_reserve R random limit w now k (s, n) = (r, (s', n'))"
    by (metis prod.exhaust)
  note step = redis_step[OF ok fine[unfolded st] now run]
  show "fst (redis_reserve R random limit w now k st) \<longleftrightarrow> size (redis_recent R w k now st) < limit"
    using step(2) by (simp add: st run)
  let ?K = "redis_key k" and ?m = "show_int now @ '':'' @ random n"
  note visible = step(3)[unfolded in_window_def]
  have bounds: "0 \<le> x \<and> x \<le> now \<and> (\<exists>y i. i < n' \<and> m = show_int y @ '':'' @ random i)"
    if h: "now \<le> t1" "zmembers R k1 t1 s' m = Some x" for k1 t1 m x
  proof -
    have old: "0 \<le> x \<and> x \<le> now \<and> (\<exists>y i. i < n' \<and> m = show_int y @ '':'' @ random i)"
      if "t \<le> t2" "zmembers R k1 t2 s m = Some x" for t2
      using fineD(1)[OF fine[unfolded st] that] now step(1) less_SucI by fastforce
    have new: "0 \<le> now" "n < n'" using fine[unfolded redis_fine_def] now step(1) by auto
    show ?thesis
      using h(2) old[of t1] old[of now] new now h(1)
      by (auto simp: visible[OF h(1)] split: if_splits option.splits)
  qed
  have expiring: "zmembers R k1 t2 s' = zmembers R k1 t1 s' \<or>
      (zmembers R k1 t2 s' = Map.empty \<and> (\<forall>m x. zmembers R k1 t1 s' m = Some x \<longrightarrow> x \<le> t2 - w * 1000))"
    if h: "now \<le> t1" "t1 \<le> t2" for k1 t1 t2
  proof -
    have h2: "now \<le> t2" "t \<le> t1" using h now by simp_all
    show ?thesis
    proof (cases "k1 = ?K \<and> r")
      case True
      show ?thesis
      proof (cases "t2 < now + w * 1000")
        case False
        then have "zmembers R k1 t2 s' = Map.empty" using True by (simp add: step(3)[OF h2(1)])
        moreover have "x \<le> t2 - w * 1000" if "zmembers R k1 t1 s' m = Some x" for m x
          using bounds[OF h(1) that] False by linarith
        ultimately show ?thesis by blast
      qed (use True h in \<open>simp add: step(3)[OF h(1)] step(3)[OF h2(1)]\<close>)
    next
      case False
      then show ?thesis
        using fineD(2)[OF fine[unfolded st] h2(2) h(2), of k1]
        by (auto simp: visible[OF h(1)] visible[OF h2(1)] fun_eq_iff split: option.splits)
    qed
  qed
  show "redis_fine R random w now (snd (redis_reserve R random limit w now k st))"
    using bounds expiring fine now unfolding redis_fine_def st run snd_conv fst_conv by (meson order_trans)
  fix t' k'
  assume later: "now \<le> t'"
  have twice: "filter_mset (\<lambda>x. t' - w * 1000 < x) (filter_mset (\<lambda>x. now - w * 1000 < x) M) = filter_mset (\<lambda>x. t' - w * 1000 < x) M"
    for M :: "time multiset"
    using later by (simp add: filter_filter_mset) (rule filter_mset_cong, auto)
  note unseen = expiry_invisible[OF fine[unfolded st] now later]
  have "filter_mset (\<lambda>x. t' - w * 1000 < x) (scores (zmembers R (redis_key k') t' s')) =
      filter_mset (\<lambda>x. t' - w * 1000 < x) (filter_mset (\<lambda>x. now - w * 1000 < x) (scores (zmembers R (redis_key k') now s)) +
        (if k' = k \<and> r then {#now#} else {#}))"
  proof (cases "k' = k \<and> r")
    case False
    then show ?thesis
      using unseen[of "redis_key k'"] scores_in_window[OF ok, of w now ?K t' s]
      by (auto simp: step(3)[OF later] redis_key_inj twice simp del: filter_filter_mset)
  next
    case True
    have fresh: "in_window R w now ?K now s ?m = None"
    proof (rule ccontr)
      assume "in_window R w now ?K now s ?m \<noteq> None"
      then obtain x where "zmembers R ?K now s ?m = Some x" by (auto simp: in_window_def split: option.splits if_splits)
      from fineD(1)[OF fine[unfolded st] now this] obtain y i where "i < n" "?m = show_int y @ '':'' @ random i" by blast
      then show False using member_text_inj inj by (metis injD nat_neq_iff)
    qed
    have "finite (dom (in_window R w now ?K now s))"
      by (rule finite_subset[OF _ redis_okD(2)[OF ok, of ?K now s]]) (auto simp: in_window_def split: option.splits if_splits)
    from scores_upd[OF this fresh] have added: "scores ((in_window R w now ?K now s)(?m \<mapsto> now)) =
        add_mset now (filter_mset (\<lambda>x. now - w * 1000 < x) (scores (zmembers R ?K now s)))"
      by (simp add: scores_in_window[OF ok])
    have past: "x \<le> now" if "x \<in># scores (zmembers R ?K now s)" for x
      using in_scores[OF that] fineD(1)[OF fine[unfolded st] now] now by fastforce
    show ?thesis
    proof (cases "t' < now + w * 1000")
      case True
      then show ?thesis using \<open>k' = k \<and> r\<close> added by (simp add: step(3)[OF later])
    next
      case False
      have "filter_mset (\<lambda>x. t' - w * 1000 < x) (scores (zmembers R ?K now s)) = {#}"
        by (rule filter_mset_none) (use past False in fastforce)
      then show ?thesis
        using False \<open>k' = k \<and> r\<close> by (simp add: step(3)[OF later] twice del: filter_filter_mset)
    qed
  qed
  then show "redis_recent R w k' t' (snd (redis_reserve R random limit w now k st)) =
      filter_mset (\<lambda>x. t' - w * 1000 < x) (redis_recent R w k' now st +
        (if k' = k \<and> fst (redis_reserve R random limit w now k st) then {#now#} else {#}))"
    by (simp only: redis_recent_alt st run fst_conv snd_conv)
qed

section \<open>The cap, and both implementations agree\<close>

lemma mem_answers:
  assumes "sorted (map fst reqs)"
  shows "fst (reserve_all (\<lambda>now. mem_reserve limit w now now) reqs Map.empty) =
    fst (reserve_all (window_reserve limit (w * 1000)) reqs (\<lambda>_. {#}))"
proof (cases reqs)
  case (Cons req rest)
  have "mem.simulates w (fst req) Map.empty (\<lambda>_. {#})"
    by (simp add: mem.simulates_def mem_recent_def)
  from mem.run_refines[OF this] show ?thesis using assms by (simp add: Cons)
qed simp

lemma redis_answers:
  assumes "redis_ok R" and "inj random" and "0 < w" and "sorted (map fst reqs)" and "\<forall>q\<in>set reqs. 0 \<le> fst q"
    and "\<And>k t. zmembers R k t s = Map.empty"
  shows "fst (reserve_all (redis_reserve R random limit w) reqs (s, 0)) =
    fst (reserve_all (window_reserve limit (w * 1000)) reqs (\<lambda>_. {#}))"
proof (cases reqs)
  case (Cons req rest)
  note window = redis_sliding_window[OF assms(1,2,3)]
  have "sliding_window.simulates (redis_recent R w) (redis_fine R random w) (w * 1000) (fst req) (s, 0) (\<lambda>_. {#})"
    unfolding sliding_window.simulates_def[OF window[of limit]]
    using assms(5) by (simp add: redis_fine_def redis_recent_alt assms(6) Cons)
  from sliding_window.run_refines[OF window this] show ?thesis using assms(4) by (simp add: Cons)
qed simp

text \<open>C16. The two throttles are interchangeable. On every sequence of requests in order of time, the
  array of timestamps and the Redis script (over any server that keeps Redis's documented behaviour) give
  the same answers, and these are the answers of the sliding-window contract.\<close>

theorem throttles_refine_window:
  assumes "redis_ok R" and "inj random" and "0 < w" and "sorted (map fst reqs)" and "\<forall>q\<in>set reqs. 0 \<le> fst q"
    and "\<And>k t. zmembers R k t s = Map.empty"
  shows "fst (reserve_all (redis_reserve R random limit w) reqs (s, 0)) =
      fst (reserve_all (window_reserve limit (w * 1000)) reqs (\<lambda>_. {#})) \<and>
    fst (reserve_all (\<lambda>now. mem_reserve limit w now now) reqs Map.empty) =
      fst (reserve_all (window_reserve limit (w * 1000)) reqs (\<lambda>_. {#}))"
  using redis_answers[OF assms] mem_answers[OF assms(4)] by simp

text \<open>A server with this behaviour: each key has a finite map of scores and a deadline.\<close>

definition alive :: "time \<Rightarrow> (string, time) fmap \<times> time option \<Rightarrow> (string, time) fmap" where
  "alive t v = (case snd v of Some d \<Rightarrow> if t < d then fst v else fmempty | None \<Rightarrow> fst v)"

definition example_redis :: "(string \<Rightarrow> (string, time) fmap \<times> time option) redis" where
  "example_redis = \<lparr>
     ZREMRANGEBYSCORE = (\<lambda>k lo hi t s. s(k := (fmfilter (\<lambda>m. \<not> (lo \<le> the (fmlookup (fst (s k)) m) \<and> the (fmlookup (fst (s k)) m) \<le> hi)) (fst (s k)), snd (s k)))),
     ZCARD = (\<lambda>k t s. fcard (fmdom (alive t (s k)))),
     ZADD = (\<lambda>k x m t s. s(k := (fmupd m x (alive t (s k)), None))),
     EXPIRE = (\<lambda>k secs t s. s(k := (fst (s k), Some (t + secs * 1000)))),
     zmembers = (\<lambda>k t s. fmlookup (alive t (s k)))\<rparr>"

lemma example_redis_ok: "redis_ok example_redis"
  by (auto simp: redis_ok_def example_redis_def alive_def fun_eq_iff fcard.rep_eq fmdom.rep_eq split: option.splits)

theorem throttles_refine_window_witness:
  "fst (reserve_all (redis_reserve example_redis (\<lambda>n. replicate n CHR ''x'') 2 60)
     [(1000, ''a''), (2000, ''a''), (3000, ''a''), (3000, ''b''), (61000, ''a'')] (\<lambda>_. (fmempty, None), 0)) =
   [True, True, False, True, True]"
proof -
  have answers: "fst (reserve_all (window_reserve 2 (60 * 1000))
      [(1000, ''a''), (2000, ''a''), (3000, ''a''), (3000, ''b''), (61000, ''a'')] (\<lambda>_. {#})) = [True, True, False, True, True]"
    by code_simp
  have "inj (\<lambda>n. replicate n CHR ''x'')" by (rule injI) (metis length_replicate)
  moreover have "zmembers example_redis k t (\<lambda>_. (fmempty, None)) = Map.empty" for k t
    by (simp add: example_redis_def alive_def fun_eq_iff)
  ultimately show ?thesis
    unfolding answers[symmetric] by (intro throttles_refine_window[THEN conjunct1] example_redis_ok) simp_all
qed

text \<open>Nomba's cap holds: over requests in order of time, no window of sixty seconds, wherever it ends,
  holds more than five admitted transfers to one recipient.\<close>

lemma throttle_keeps_cap:
  assumes "sorted (map fst reqs)"
  shows "length (filter (\<lambda>t. T - DEFAULT_WINDOW_SECONDS * 1000 < t \<and> t \<le> T)
    (admitted_times reqs (fst (reserve_all (\<lambda>now. mem_reserve DEFAULT_LIMIT DEFAULT_WINDOW_SECONDS now now) reqs Map.empty)) key)) \<le> 5"
proof (cases reqs)
  case (Cons req rest)
  have "size (filter_mset (\<lambda>x. T - DEFAULT_WINDOW_SECONDS * 1000 < x \<and> x \<le> T)
      ({#} + mset (admitted_times reqs (fst (reserve_all (window_reserve DEFAULT_LIMIT (DEFAULT_WINDOW_SECONDS * 1000)) reqs (\<lambda>_. {#}))) key))) \<le> DEFAULT_LIMIT"
    using contract_caps[of "fst req" reqs "\<lambda>_. {#}" key "DEFAULT_WINDOW_SECONDS * 1000" DEFAULT_LIMIT] assms
    by (simp add: Cons DEFAULT_WINDOW_SECONDS_def)
  then show ?thesis
    unfolding mem_answers[OF assms] by (simp add: DEFAULT_LIMIT_def flip: size_mset)
qed (simp add: DEFAULT_LIMIT_def)

lemma throttle_keeps_cap_witness:
  "length (filter (\<lambda>t. 60999 - DEFAULT_WINDOW_SECONDS * 1000 < t \<and> t \<le> 60999)
    (admitted_times (map (\<lambda>i. (1000 * i, ''k'')) [1..80])
      (fst (reserve_all (\<lambda>now. mem_reserve DEFAULT_LIMIT DEFAULT_WINDOW_SECONDS now now) (map (\<lambda>i. (1000 * i, ''k'')) [1..80]) Map.empty)) ''k'')) \<le> 5"
  by (rule throttle_keeps_cap) code_simp

end
