(* ===== verification/Idempotency.thy ===== *)
theory Idempotency
  imports Frames
begin

text \<open>
  \<open>lib/idempotency.service.ts\<close>: a mutating request carries a client-chosen key; its first run stores the
  response under the key and every repeat is answered from the table. The wrapped request \<open>fn\<close> is an
  arbitrary operation that leaves the key table alone (the services never write it), and the hash of
  the request is a text computed by the caller (\<open>hashRequest\<close>, SHA-256 of its JSON).
\<close>

definition KEY_TTL_HOURS :: int where "KEY_TTL_HOURS = 24"

type_synonym response = "nat \<times> string"

definition key_row :: "string \<Rightarrow> db \<Rightarrow> idempotency_key option" where
  "key_row key s = find (\<lambda>r. ik_key r = key) (idempotencyKeys s)"

text \<open>The insert: \<open>key\<close> is the primary key.\<close>

definition insert_key :: "env \<Rightarrow> string \<Rightarrow> string \<Rightarrow> (db, unit) op" where
  "insert_key w key requestHash s =
     (if key \<in> ik_key ` set (idempotencyKeys s) then (Inl UniqueViolation, s)
      else (Inr (), s\<lparr>idempotencyKeys := idempotencyKeys s @
        [\<lparr>ik_key = key, ik_requestHash = requestHash, ik_response = None, ik_status = in_progress,
          ik_expiresAt = e_now w + KEY_TTL_HOURS * 60 * 60 * 1000\<rparr>]\<rparr>))"

definition update_key :: "string \<Rightarrow> (idempotency_key \<Rightarrow> idempotency_key) \<Rightarrow> (db, unit) op" where
  "update_key key f = modify (\<lambda>s. s\<lparr>idempotencyKeys := update_where (\<lambda>r. ik_key r = key) f (idempotencyKeys s)\<rparr>)"

definition delete_key :: "string \<Rightarrow> (db, unit) op" where
  "delete_key key = modify (\<lambda>s. s\<lparr>idempotencyKeys := filter (\<lambda>r. ik_key r \<noteq> key) (idempotencyKeys s)\<rparr>)"

definition complete_with :: "response \<Rightarrow> idempotency_key \<Rightarrow> idempotency_key" where
  "complete_with result r = r\<lparr>ik_status := completed, ik_response := Some result\<rparr>"

definition mark_indeterminate :: "idempotency_key \<Rightarrow> idempotency_key" where
  "mark_indeterminate r = r\<lparr>ik_status := failed_indeterminate\<rparr>"

text \<open>The answer to a repeated key. A completed row always has its response; reading a missing one
  is a \<open>TypeError\<close> at the caller.\<close>

definition answer_repeat :: "string \<Rightarrow> idempotency_key option \<Rightarrow> error + response" where
  "answer_repeat requestHash existing =
     (case existing of
        None \<Rightarrow> Inl IdempotencyKeyReuseError
      | Some r \<Rightarrow>
          if ik_requestHash r \<noteq> requestHash then Inl IdempotencyKeyReuseError
          else if ik_status r = in_progress then Inl IdempotencyInProgressError
          else if ik_status r = failed_indeterminate then Inl IdempotencyIndeterminateError
          else (case ik_response r of Some x \<Rightarrow> Inr x | None \<Rightarrow> Inl (PlainError ''TypeError'')))"

definition settle_failure :: "string \<Rightarrow> error \<Rightarrow> (db, response) op" where
  "settle_failure key err =
     (case err of
        IndeterminateFailureError cause \<Rightarrow> seq (update_key key mark_indeterminate) (throw cause)
      | _ \<Rightarrow> seq (delete_key key) (throw err))"

definition withIdempotencyKey :: "env \<Rightarrow> string \<Rightarrow> string \<Rightarrow> (db, response) op \<Rightarrow> (db, response) op" where
  "withIdempotencyKey w key requestHash fn =
     bnd (catch_op (seq (insert_key w key requestHash) (ret True))
            (\<lambda>err. if err = UniqueViolation then ret False else throw err)) (\<lambda>inserted.
     if \<not> inserted
     then bnd (gets (key_row key)) (\<lambda>existing. from_sum (answer_repeat requestHash existing))
     else catch_op (bnd fn (\<lambda>result. seq (update_key key (complete_with result)) (ret result)))
            (settle_failure key))"

section \<open>What a call does\<close>

definition new_key :: "env \<Rightarrow> string \<Rightarrow> string \<Rightarrow> idempotency_key" where
  "new_key w key requestHash = \<lparr>ik_key = key, ik_requestHash = requestHash, ik_response = None, ik_status = in_progress,
     ik_expiresAt = e_now w + KEY_TTL_HOURS * 60 * 60 * 1000\<rparr>"

lemma key_row_None_iff: "key_row key s = None \<longleftrightarrow> key \<notin> ik_key ` set (idempotencyKeys s)"
  by (simp add: key_row_def find_key_None_iff)

lemma repeat_run:
  assumes "key_row key s = Some r"
  shows "withIdempotencyKey w key requestHash fn s = (answer_repeat requestHash (Some r), s)"
proof -
  have "key \<in> ik_key ` set (idempotencyKeys s)"
    using assms find_key_image[of ik_key key "idempotencyKeys s"] by (simp add: key_row_def)
  then show ?thesis
    using assms by (simp add: withIdempotencyKey_def insert_key_def bnd_def catch_op_def gets_def ret_def from_sum_def)
qed

lemma first_run:
  assumes "key_row key s = None"
  shows "withIdempotencyKey w key requestHash fn s =
    catch_op (bnd fn (\<lambda>result. seq (update_key key (complete_with result)) (ret result))) (settle_failure key)
      (s\<lparr>idempotencyKeys := idempotencyKeys s @ [new_key w key requestHash]\<rparr>)"
  using assms
  by (simp add: withIdempotencyKey_def insert_key_def key_row_None_iff bnd_def catch_op_def ret_def new_key_def)

lemma appended_key:
  assumes "key \<notin> ik_key ` set rows"
  shows "update_where (\<lambda>r. ik_key r = key) f (rows @ [new_key w key h]) = rows @ [f (new_key w key h)]"
    "filter (\<lambda>r. ik_key r \<noteq> key) (rows @ [new_key w key h]) = rows"
    "ik_key k = key \<Longrightarrow> find (\<lambda>r. ik_key r = key) (rows @ [k]) = Some k"
proof -
  have "update_where (\<lambda>r. ik_key r = key) f rows = rows" by (rule update_where_none) (use assms in auto)
  then show "update_where (\<lambda>r. ik_key r = key) f (rows @ [new_key w key h]) = rows @ [f (new_key w key h)]"
    by (simp add: new_key_def)
  show "filter (\<lambda>r. ik_key r \<noteq> key) (rows @ [new_key w key h]) = rows"
    using assms by (auto simp: new_key_def filter_id_conv)
  have "find (\<lambda>r. ik_key r = key) rows = None" using assms by (simp add: find_key_None_iff)
  then show "ik_key k = key \<Longrightarrow> find (\<lambda>r. ik_key r = key) (rows @ [k]) = Some k" by (simp add: find_append)
qed

definition indeterminate_cause :: "error \<Rightarrow> error option" where
  "indeterminate_cause e = (case e of IndeterminateFailureError c \<Rightarrow> Some c | _ \<Rightarrow> None)"

text \<open>Every ending of a first call, in terms of what \<open>fn\<close> did.\<close>

lemma first_call:
  assumes new: "key_row key s = None"
    and fn: "fn (s\<lparr>idempotencyKeys := idempotencyKeys s @ [new_key w key h]\<rparr>) = (out, t)"
    and frame: "idempotencyKeys t = idempotencyKeys s @ [new_key w key h]"
  shows "withIdempotencyKey w key h fn s =
    (case out of
       Inr x \<Rightarrow> (Inr x, t\<lparr>idempotencyKeys := idempotencyKeys s @ [complete_with x (new_key w key h)]\<rparr>)
     | Inl e \<Rightarrow> (case indeterminate_cause e of
         Some c \<Rightarrow> (Inl c, t\<lparr>idempotencyKeys := idempotencyKeys s @ [mark_indeterminate (new_key w key h)]\<rparr>)
       | None \<Rightarrow> (Inl e, t\<lparr>idempotencyKeys := idempotencyKeys s\<rparr>)))"
proof -
  have fresh: "key \<notin> ik_key ` set (idempotencyKeys s)" using new by (simp add: key_row_None_iff)
  note rows = appended_key(1)[OF fresh, of _ w h] appended_key(2)[OF fresh, of w h]
  show ?thesis
  proof (cases out)
    case (Inr x)
    then show ?thesis
      using fn unfolding first_run[OF new]
      by (simp add: catch_op_def bnd_def update_key_def modify_def ret_def frame rows del: update_where_append)
  next
    case (Inl e)
    then show ?thesis
      using fn unfolding first_run[OF new]
      by (cases e) (simp_all add: catch_op_def bnd_def settle_failure_def update_key_def delete_key_def indeterminate_cause_def
          modify_def throw_def frame rows del: update_where_append filter_append)
  qed
qed

section \<open>One execution per key\<close>

text \<open>A run of requests under one key, each with its own hash and body.\<close>

fun answers_under :: "env \<Rightarrow> string \<Rightarrow> (string \<times> (db, response) op) list \<Rightarrow> db \<Rightarrow> (error + response) list \<times> db" where
  "answers_under w key [] s = ([], s)"
| "answers_under w key ((h, fn) # reqs) s =
     (let (r, s') = withIdempotencyKey w key h fn s; (rs, s'') = answers_under w key reqs s' in (r # rs, s''))"

lemma repeats_change_nothing:
  assumes "key_row key s = Some r"
  shows "answers_under w key reqs s = (map (\<lambda>q. answer_repeat (fst q) (Some r)) reqs, s)"
  using assms
proof (induction reqs)
  case (Cons q reqs)
  then show ?case by (cases q) (simp add: repeat_run)
qed simp

text \<open>C15. A request under an idempotency key takes effect once. After a first call that returned, every
  later call with the key, however many and whatever they would do, leaves the whole state as it is: the
  same request is answered with the first response, a different one is refused as key reuse.\<close>

theorem first_success_is_final:
  assumes "key_row key s = None" and "untouched idempotencyKeys fn"
    and "withIdempotencyKey w key h fn s = (Inr x, s')"
  shows "answers_under w key reqs s' =
    (map (\<lambda>(h', _). if h' = h then Inr x else Inl IdempotencyKeyReuseError) reqs, s')"
proof -
  let ?s = "s\<lparr>idempotencyKeys := idempotencyKeys s @ [new_key w key h]\<rparr>"
  obtain out t where run: "fn ?s = (out, t)" by (cases "fn ?s")
  have frame: "idempotencyKeys t = idempotencyKeys s @ [new_key w key h]"
    using untouchedD[OF assms(2) run] by simp
  have fresh: "key \<notin> ik_key ` set (idempotencyKeys s)" using assms(1) by (simp add: key_row_None_iff)
  have out: "out = Inr x" "s' = t\<lparr>idempotencyKeys := idempotencyKeys s @ [complete_with x (new_key w key h)]\<rparr>"
    using assms(3) first_call[where fn = fn, OF assms(1) run frame] by (auto split: sum.splits option.splits)
  then have "key_row key s' = Some (complete_with x (new_key w key h))"
    by (simp add: key_row_def appended_key(3)[OF fresh] complete_with_def new_key_def)
  from repeats_change_nothing[OF this] show ?thesis
    by (simp add: split_beta answer_repeat_def complete_with_def new_key_def)
qed

text \<open>An unsafe failure is never retried. When the first call ends in an indeterminate failure (an
  external call may have gone out), every later call with the key is refused and changes nothing; a plain
  failure removes the key, so that the next call runs as a first one.\<close>

lemma failures_settle_the_key:
  assumes "key_row key s = None" and "untouched idempotencyKeys fn"
    and "withIdempotencyKey w key h fn s = (Inl e, s')"
  shows "(\<exists>t. fn (s\<lparr>idempotencyKeys := idempotencyKeys s @ [new_key w key h]\<rparr>) = (Inl (IndeterminateFailureError e), t)) \<and>
      answers_under w key reqs s' =
        (map (\<lambda>(h', _). if h' = h then Inl IdempotencyIndeterminateError else Inl IdempotencyKeyReuseError) reqs, s') \<or>
    fst (fn (s\<lparr>idempotencyKeys := idempotencyKeys s @ [new_key w key h]\<rparr>)) = Inl e \<and>
      key_row key s' = None \<and> idempotencyKeys s' = idempotencyKeys s"
proof -
  let ?s = "s\<lparr>idempotencyKeys := idempotencyKeys s @ [new_key w key h]\<rparr>"
  obtain out t where run: "fn ?s = (out, t)" by (cases "fn ?s")
  have frame: "idempotencyKeys t = idempotencyKeys s @ [new_key w key h]"
    using untouchedD[OF assms(2) run] by simp
  have fresh: "key \<notin> ik_key ` set (idempotencyKeys s)" using assms(1) by (simp add: key_row_None_iff)
  from assms(3) first_call[where fn = fn, OF assms(1) run frame] consider
    "out = Inl (IndeterminateFailureError e)" "s' = t\<lparr>idempotencyKeys := idempotencyKeys s @ [mark_indeterminate (new_key w key h)]\<rparr>"
    | "out = Inl e" "s' = t\<lparr>idempotencyKeys := idempotencyKeys s\<rparr>"
    by (auto simp: indeterminate_cause_def split: sum.splits error.splits)
  then show ?thesis
  proof cases
    case 1
    then have "key_row key s' = Some (mark_indeterminate (new_key w key h))"
      by (simp add: key_row_def appended_key(3)[OF fresh] mark_indeterminate_def new_key_def)
    from repeats_change_nothing[OF this] 1 run show ?thesis
      by (simp add: split_beta answer_repeat_def mark_indeterminate_def new_key_def)
  next
    case 2
    then show ?thesis using run assms(1) by (simp add: key_row_def)
  qed
qed

text \<open>A request that answers 202, one that fails after its external call, and an empty table.\<close>

definition accepted :: "(db, response) op" where
  "accepted = seq (modify (\<lambda>s. s\<lparr>randomDraws := Suc (randomDraws s)\<rparr>)) (ret (202, []))"

definition half_done :: "(db, response) op" where
  "half_done = throw (IndeterminateFailureError (PlainError ''timeout''))"

lemma accepted_untouched: "untouched idempotencyKeys accepted" "untouched idempotencyKeys half_done"
  by (auto simp: untouched_def preserves_def accepted_def half_done_def bnd_def modify_def ret_def throw_def)

theorem first_success_is_final_witness:
  "answers_under example_env ''k'' [(''h'', accepted), (''other'', accepted), (''h'', half_done)]
     (snd (withIdempotencyKey example_env ''k'' ''h'' accepted empty_db)) =
   ([Inr (202, []), Inl IdempotencyKeyReuseError, Inr (202, [])],
    snd (withIdempotencyKey example_env ''k'' ''h'' accepted empty_db))"
proof -
  have new: "key_row ''k'' empty_db = None" by (simp add: key_row_def empty_db_def)
  have "fst (withIdempotencyKey example_env ''k'' ''h'' accepted empty_db) = Inr (202, [])" by code_simp
  then have "withIdempotencyKey example_env ''k'' ''h'' accepted empty_db =
      (Inr (202, []), snd (withIdempotencyKey example_env ''k'' ''h'' accepted empty_db))"
    by (metis prod.collapse)
  from first_success_is_final[OF new accepted_untouched(1) this] show ?thesis by (simp del: answers_under.simps)
qed

lemma failures_settle_the_key_witness:
  "answers_under example_env ''k'' [(''h'', accepted)] (snd (withIdempotencyKey example_env ''k'' ''h'' half_done empty_db)) =
   ([Inl IdempotencyIndeterminateError], snd (withIdempotencyKey example_env ''k'' ''h'' half_done empty_db))"
proof -
  have new: "key_row ''k'' empty_db = None" by (simp add: key_row_def empty_db_def)
  have "fst (withIdempotencyKey example_env ''k'' ''h'' half_done empty_db) = Inl (PlainError ''timeout'')" by code_simp
  then have "withIdempotencyKey example_env ''k'' ''h'' half_done empty_db =
      (Inl (PlainError ''timeout''), snd (withIdempotencyKey example_env ''k'' ''h'' half_done empty_db))"
    by (metis prod.collapse)
  from failures_settle_the_key[OF new accepted_untouched(2) this, of "[(''h'', accepted)]"]
  show ?thesis by (auto simp: half_done_def throw_def simp del: answers_under.simps)
qed

end
