(* ===== verification/Action_Otp.thy ===== *)
theory Action_Otp
  imports Idempotency "HOL-Library.List_Lexorder" "HOL-Library.Char_ord"
begin

text \<open>
  \<open>modules/pots/action-otp.service.ts\<close> with \<open>lib/otp.ts\<close> and the text of \<open>lib/otp-email.ts\<close>: the emailed code
  an admin must give before money leaves a pot. A code is bound to a hash of the exact request it was
  issued for. SHA-256 (\<open>node:crypto\<close>) is the parameter \<open>sha\<close>; where a property needs it not to collide, that
  is a hypothesis. \<open>localeCompare\<close> orders object keys by their collation keys, the parameter \<open>collate\<close>.
\<close>

section \<open>lib/otp.ts and the mailer\<close>

definition OTP_LENGTH :: nat where "OTP_LENGTH = 6"

text \<open>\<open>crypto.randomInt(0, max)\<close>: the next random draw, below \<open>max\<close>.\<close>

definition generateOtpCode :: "env \<Rightarrow> (db, string) op" where
  "generateOtpCode w = bnd (randomUUID w) (\<lambda>n. ret (padStart OTP_LENGTH (CHR ''0'') (show_nat (n mod 10 ^ OTP_LENGTH))))"

definition hashOtpCode :: "(string \<Rightarrow> string) \<Rightarrow> string \<Rightarrow> string" where
  "hashOtpCode sha code = sha code"

definition verifyOtpCode :: "(string \<Rightarrow> string) \<Rightarrow> string \<Rightarrow> string \<Rightarrow> bool" where
  "verifyOtpCode sha code hash =
     (let candidateHash = hashOtpCode sha code in
      if length candidateHash \<noteq> length hash then False else candidateHash = hash)"

definition blank_line :: string where "blank_line = [CHR 0x0A, CHR 0x0A]"

definition otpEmail_text :: "string \<Rightarrow> string \<Rightarrow> nat \<Rightarrow> string" where
  "otpEmail_text code intro ttlMinutes =
     intro @ blank_line @ ''Your code: '' @ code @ blank_line @ ''This code expires in '' @ show_nat ttlMinutes @
     '' minutes and can only be used once.'' @ blank_line @
     ''If you didn't request this, you can safely ignore this email. Your account is still secure.'' @ blank_line @ ''Glasspot''"

definition sendMail :: "env \<Rightarrow> string \<Rightarrow> string \<Rightarrow> (db, unit) op" where
  "sendMail w address content =
     (case e_sendMail w address of
        Some err \<Rightarrow> throw err
      | None \<Rightarrow> modify (\<lambda>s. s\<lparr>sentMails := sentMails s @ [(address, content)]\<rparr>))"

section \<open>The request's context, hashed\<close>

datatype json = JNull | JBool bool | JNum int | JStr string | JArr "json list" | JObj "(string \<times> json) list"

text \<open>\<open>JSON.stringify\<close> of a string.\<close>

definition json_escape :: "char \<Rightarrow> string" where
  "json_escape c =
     (let n = of_char c :: nat in
      if c = CHR 0x22 then [CHR 0x5C, CHR 0x22]
      else if c = CHR 0x5C then [CHR 0x5C, CHR 0x5C]
      else if n = 8 then [CHR 0x5C, CHR ''b'']
      else if n = 9 then [CHR 0x5C, CHR ''t'']
      else if n = 10 then [CHR 0x5C, CHR ''n'']
      else if n = 12 then [CHR 0x5C, CHR ''f'']
      else if n = 13 then [CHR 0x5C, CHR ''r'']
      else if n < 32 then [CHR 0x5C, CHR ''u'', CHR ''0'', CHR ''0'', hex_digit (n div 16), hex_digit (n mod 16)]
      else [c])"

definition json_quote :: "string \<Rightarrow> string" where
  "json_quote s = CHR 0x22 # concat (map json_escape s) @ [CHR 0x22]"

fun join_comma :: "string list \<Rightarrow> string" where
  "join_comma [] = []"
| "join_comma [x] = x"
| "join_comma (x # y # xs) = x @ '','' @ join_comma (y # xs)"

fun stableStringify :: "(string \<Rightarrow> string) \<Rightarrow> json \<Rightarrow> string" where
  "stableStringify collate (JArr xs) = ''['' @ join_comma (map (stableStringify collate) xs) @ '']''"
| "stableStringify collate (JObj kvs) =
     CHR 0x7B # join_comma (map snd (sort_key (\<lambda>e. collate (fst e)) (map (\<lambda>(k, v). (k, json_quote k @ '':'' @ stableStringify collate v)) kvs)))
       @ [CHR 0x7D]"
| "stableStringify collate JNull = ''null''"
| "stableStringify collate (JBool b) = (if b then ''true'' else ''false'')"
| "stableStringify collate (JNum n) = show_int n"
| "stableStringify collate (JStr s) = json_quote s"

definition hashActionContext :: "(string \<Rightarrow> string) \<Rightarrow> (string \<Rightarrow> string) \<Rightarrow> json \<Rightarrow> string" where
  "hashActionContext sha collate context = sha (stableStringify collate context)"

section \<open>Issuing a code\<close>

definition OTP_TTL_MINUTES :: int where "OTP_TTL_MINUTES = 10"
definition OTP_RESEND_COOLDOWN_SECONDS :: int where "OTP_RESEND_COOLDOWN_SECONDS = 60"

definition otpExpiry :: "env \<Rightarrow> time" where
  "otpExpiry w = e_now w + OTP_TTL_MINUTES * 60 * 1000"

definition actionLabel :: "otp_action \<Rightarrow> string" where
  "actionLabel action = (case action of trigger_payout \<Rightarrow> ''trigger this payout'' | trigger_refund \<Rightarrow> ''trigger this refund'')"

text \<open>\<open>orderBy(desc(createdAt)).limit(1)\<close>; among equal times the row inserted last.\<close>

definition newest_by :: "('r \<Rightarrow> time) \<Rightarrow> 'r list \<Rightarrow> 'r option" where
  "newest_by at rows = foldl (\<lambda>best r. case best of None \<Rightarrow> Some r | Some b \<Rightarrow> if at b \<le> at r then Some r else Some b) None rows"

definition codes_for :: "uuid \<Rightarrow> otp_action \<Rightarrow> uuid \<Rightarrow> db \<Rightarrow> action_otp list" where
  "codes_for userId action potId s =
     filter (\<lambda>r. ao_userId r = userId \<and> ao_action r = action \<and> ao_potId r = potId) (actionOtpCodes s)"

definition request :: "env \<Rightarrow> (string \<Rightarrow> string) \<Rightarrow> (string \<Rightarrow> string) \<Rightarrow> uuid \<Rightarrow> otp_action \<Rightarrow> uuid \<Rightarrow> json \<Rightarrow> (db, unit) op" where
  "request w sha collate userId action potId context =
     bnd (gets (\<lambda>s. find (\<lambda>u. u_id u = userId) (users s))) (\<lambda>admin.
     case admin of
       None \<Rightarrow> throw (PotError ''User not found'' 404)
     | Some a \<Rightarrow>
         bnd (gets (\<lambda>s. newest_by ao_createdAt (codes_for userId action potId s))) (\<lambda>latest.
         seq (require (case latest of None \<Rightarrow> True | Some l \<Rightarrow> \<not> e_now w - ao_createdAt l < OTP_RESEND_COOLDOWN_SECONDS * 1000)
                (PotError ''Please wait before requesting another code'' 429))
         (bnd (generateOtpCode w) (\<lambda>code.
          seq (modify (\<lambda>s. s\<lparr>actionOtpCodes := actionOtpCodes s @
                 [\<lparr>ao_id = fresh_id (map ao_id (actionOtpCodes s)), ao_userId = userId, ao_action = action, ao_potId = potId,
                   ao_contextHash = hashActionContext sha collate context, ao_codeHash = hashOtpCode sha code,
                   ao_attemptCount = 0, ao_maxAttempts = 5, ao_expiresAt = otpExpiry w, ao_consumedAt = None,
                   ao_consumedByIdempotencyKey = None, ao_createdAt = e_now w\<rparr>]\<rparr>))
              (sendMail w (u_email a)
                 (otpEmail_text code (''Use this code to '' @ actionLabel action @ ''.'') (nat OTP_TTL_MINUTES)))))))"

section \<open>Checking a code\<close>

definition active_code :: "uuid \<Rightarrow> otp_action \<Rightarrow> uuid \<Rightarrow> db \<Rightarrow> action_otp option" where
  "active_code userId action potId s =
     newest_by ao_createdAt (filter (\<lambda>r. ao_consumedAt r = None) (codes_for userId action potId s))"

definition update_code :: "uuid \<Rightarrow> (action_otp \<Rightarrow> action_otp) \<Rightarrow> (db, unit) op" where
  "update_code i f = modify (\<lambda>s. s\<lparr>actionOtpCodes := update_where (\<lambda>r. ao_id r = i) f (actionOtpCodes s)\<rparr>)"

definition set_attempts :: "int \<Rightarrow> action_otp \<Rightarrow> action_otp" where
  "set_attempts n r = r\<lparr>ao_attemptCount := n\<rparr>"

definition consume_code :: "time \<Rightarrow> string option \<Rightarrow> action_otp \<Rightarrow> action_otp" where
  "consume_code now key r = r\<lparr>ao_consumedAt := Some now, ao_consumedByIdempotencyKey := key\<rparr>"

text \<open>The row was already consumed: a retry of the request that consumed it passes.\<close>

definition already_consumed :: "uuid \<Rightarrow> otp_action \<Rightarrow> uuid \<Rightarrow> string option \<Rightarrow> (db, unit) op" where
  "already_consumed userId action potId idempotencyKey =
     bnd (gets (\<lambda>s. newest_by ao_createdAt (codes_for userId action potId s))) (\<lambda>lastConsumed.
     if truthy idempotencyKey \<and> Option.bind lastConsumed ao_consumedByIdempotencyKey = idempotencyKey
     then ret ()
     else throw (PotError ''No active confirmation code found. Request a new one.'' 400))"

definition verify :: "env \<Rightarrow> (string \<Rightarrow> string) \<Rightarrow> (string \<Rightarrow> string) \<Rightarrow> uuid \<Rightarrow> otp_action \<Rightarrow> uuid \<Rightarrow> json \<Rightarrow> string \<Rightarrow>
    string option \<Rightarrow> (db, unit) op" where
  "verify w sha collate userId action potId context code idempotencyKey =
     bnd (gets (active_code userId action potId)) (\<lambda>otp.
     case otp of
       None \<Rightarrow> already_consumed userId action potId idempotencyKey
     | Some r \<Rightarrow>
         seq (require (\<not> ao_expiresAt r < e_now w) (PotError ''Confirmation code has expired. Request a new one.'' 400))
         (seq (require (\<not> ao_maxAttempts r \<le> ao_attemptCount r) (PotError ''Too many incorrect attempts. Request a new code.'' 429))
         (let contextHash = hashActionContext sha collate context;
              isValid = (contextHash = ao_contextHash r \<and> verifyOtpCode sha code (ao_codeHash r)) in
          if \<not> isValid
          then seq (update_code (ao_id r) (set_attempts (ao_attemptCount r + 1))) (throw (PotError ''Incorrect confirmation code'' 400))
          else update_code (ao_id r) (consume_code (e_now w) idempotencyKey))))"

end
