(* ===== verification/Action_Otp_Laws.thy ===== *)
theory Action_Otp_Laws
  imports Action_Otp
begin

text \<open>
  What the confirmation codes promise: the text that is hashed determines the request it stands for, a
  code only confirms the request it was issued for, and five wrong codes lock it.
\<close>

section \<open>The hashed text determines the request\<close>

lemma hex_pair_eq:
  assumes "m < 32" and "n < 32" and "hex_digit (m div 16) = hex_digit (n div 16)" and "hex_digit (m mod 16) = hex_digit (n mod 16)"
  shows "m = (n :: nat)"
proof -
  have "m div 16 = n div 16" "m mod 16 = n mod 16"
    using assms by (auto intro!: hex_digit_inj)
  then show ?thesis by (metis div_mult_mod_eq)
qed

lemma json_escape_head: "json_escape c = d # ds \<Longrightarrow> d \<noteq> CHR 0x22"
  by (auto simp: json_escape_def Let_def split: if_splits)

lemma json_escape_nonempty: "json_escape c \<noteq> []"
  by (auto simp: json_escape_def Let_def)

lemma json_escape_prefix:
  assumes "json_escape c @ x = json_escape d @ y"
  shows "c = d \<and> x = y"
proof -
  have small: "c = d" if "(of_char c :: nat) < 32" "(of_char d :: nat) < 32"
    "hex_digit (of_char c div 16) = hex_digit (of_char d div 16)" "hex_digit (of_char c mod 16) = hex_digit (of_char d mod 16)"
    using hex_pair_eq[OF that] by simp
  have code: "c = char_of n" if "(of_char c :: nat) = n" for c and n :: nat using that by auto
  show ?thesis
    using assms small code by (auto simp: json_escape_def Let_def split: if_splits)
qed

lemma quote_prefix:
  assumes "concat (map json_escape s) @ CHR 0x22 # x = concat (map json_escape t) @ CHR 0x22 # y"
  shows "s = t \<and> x = y"
  using assms
proof (induction s arbitrary: t)
  case Nil
  show ?case
  proof (cases t)
    case (Cons d t')
    obtain e es where "json_escape d = e # es" using json_escape_nonempty[of d] by (cases "json_escape d") auto
    with Nil Cons json_escape_head[of d e es] show ?thesis by simp
  qed (use Nil in simp)
next
  case (Cons c s)
  show ?case
  proof (cases t)
    case Nil
    obtain e es where "json_escape c = e # es" using json_escape_nonempty[of c] by (cases "json_escape c") auto
    with Nil Cons.prems json_escape_head[of c e es] show ?thesis by simp
  next
    case (Cons d t')
    from Cons.prems[unfolded Cons] have "json_escape c @ (concat (map json_escape s) @ CHR 0x22 # x) =
        json_escape d @ (concat (map json_escape t') @ CHR 0x22 # y)" by simp
    from json_escape_prefix[OF this] Cons.IH[of t'] Cons show ?thesis by simp
  qed
qed

lemma json_quote_prefix: "json_quote s @ x = json_quote t @ y \<Longrightarrow> s = t \<and> x = y"
  by (rule quote_prefix) (simp add: json_quote_def)

text \<open>The body of a payout request is a flat object of strings.\<close>

definition flat :: "(string \<times> string) list \<Rightarrow> json" where
  "flat kvs = JObj (map (\<lambda>(k, v). (k, JStr v)) kvs)"

definition field_text :: "string \<times> string \<Rightarrow> string" where
  "field_text e = json_quote (fst e) @ '':'' @ json_quote (snd e)"

lemma field_text_prefix:
  assumes "field_text e @ x = field_text f @ y"
  shows "e = f \<and> x = y"
proof -
  have "json_quote (fst e) @ ('':'' @ json_quote (snd e) @ x) = json_quote (fst f) @ ('':'' @ json_quote (snd f) @ y)"
    using assms by (simp add: field_text_def)
  from json_quote_prefix[OF this] have keys: "fst e = fst f" "json_quote (snd e) @ x = json_quote (snd f) @ y" by simp_all
  from json_quote_prefix[OF keys(2)] keys(1) show ?thesis by (simp add: prod_eq_iff)
qed

lemma join_comma_Cons: "join_comma (x # xs) = x @ concat (map (\<lambda>y. '','' @ y) xs)"
  by (induction xs arbitrary: x) simp_all

lemma tail_fields_eq:
  "concat (map (\<lambda>y. '','' @ y) (map field_text es)) @ CHR 0x7D # x =
   concat (map (\<lambda>y. '','' @ y) (map field_text fs)) @ CHR 0x7D # y \<Longrightarrow> es = fs"
proof (induction es arbitrary: fs)
  case Nil
  then show ?case by (cases fs) simp_all
next
  case (Cons e es)
  then obtain f fs' where fs: "fs = f # fs'" by (cases fs) simp_all
  with Cons.prems have "field_text e @ (concat (map (\<lambda>y. '','' @ y) (map field_text es)) @ CHR 0x7D # x) =
      field_text f @ (concat (map (\<lambda>y. '','' @ y) (map field_text fs')) @ CHR 0x7D # y)" by simp
  from field_text_prefix[OF this] Cons.IH[of fs'] show ?case by (simp add: fs)
qed

lemma join_fields_eq:
  assumes "join_comma (map field_text es) @ CHR 0x7D # x = join_comma (map field_text fs) @ CHR 0x7D # y"
  shows "es = fs"
proof (cases es)
  case Nil
  then show ?thesis
    using assms by (cases fs) (simp_all add: join_comma_Cons field_text_def json_quote_def)
next
  case (Cons e es')
  then obtain f fs' where fs: "fs = f # fs'"
    using assms by (cases fs) (simp_all add: join_comma_Cons field_text_def json_quote_def)
  have "field_text e @ (concat (map (\<lambda>y. '','' @ y) (map field_text es')) @ CHR 0x7D # x) =
      field_text f @ (concat (map (\<lambda>y. '','' @ y) (map field_text fs')) @ CHR 0x7D # y)"
    using assms by (simp add: Cons fs join_comma_Cons)
  from field_text_prefix[OF this] tail_fields_eq[of es' x fs' y] show ?thesis by (simp add: Cons fs)
qed

lemma insort_key_map: "insort_key f (g x) (map g xs) = map g (insort_key (\<lambda>x. f (g x)) x xs)"
  by (induction xs) auto

lemma sort_key_map: "sort_key f (map g xs) = map g (sort_key (\<lambda>x. f (g x)) xs)"
  by (induction xs) (auto simp: insort_key_map)

lemma stableStringify_flat:
  "stableStringify collate (flat kvs) =
     CHR 0x7B # join_comma (map field_text (sort_key (\<lambda>e. collate (fst e)) kvs)) @ [CHR 0x7D]"
proof -
  have "map snd (sort_key (\<lambda>e. collate (fst e)) (map (\<lambda>(k, v). (k, json_quote k @ '':'' @ stableStringify collate v)) (map (\<lambda>(k, v). (k, JStr v)) kvs))) =
      map field_text (sort_key (\<lambda>e. collate (fst e)) kvs)"
    by (simp add: comp_def case_prod_beta sort_key_map field_text_def)
  then show ?thesis by (simp only: flat_def stableStringify.simps)
qed

lemma context_exact:
  assumes "inj_on (\<lambda>e. collate (fst e)) (set kvs)"
  shows "stableStringify collate (flat kvs) = stableStringify collate (flat kvs') \<longleftrightarrow> mset kvs = mset kvs'"
proof
  assume "stableStringify collate (flat kvs) = stableStringify collate (flat kvs')"
  then have "sort_key (\<lambda>e. collate (fst e)) kvs = sort_key (\<lambda>e. collate (fst e)) kvs'"
    by (auto simp: stableStringify_flat intro: join_fields_eq[where x = "[]" and y = "[]"])
  then show "mset kvs = mset kvs'" by (metis mset_sort)
next
  assume same: "mset kvs = mset kvs'"
  have "sort_key (\<lambda>e. collate (fst e)) kvs = sort_key (\<lambda>e. collate (fst e)) kvs'"
    by (rule sort_key_inj_key_eq) (use same assms in simp_all)
  then show "stableStringify collate (flat kvs) = stableStringify collate (flat kvs')" by (simp add: stableStringify_flat)
qed

text \<open>The text that is hashed determines the request: for requests whose field names are told apart by the
  collation, two texts are equal exactly when the requests have the same fields with the same values, in
  whatever order the client sent them.\<close>

lemma context_text_exact:
  assumes "inj_on (\<lambda>e. collate (fst e)) (set kvs)"
  shows "stableStringify collate (flat kvs) = stableStringify collate (flat kvs') \<longleftrightarrow> mset kvs = mset kvs'"
  by (rule context_exact[OF assms])

lemma context_text_exact_witness:
  "stableStringify id (flat [(''amount'', ''100.00''), (''bank'', ''058'')]) = stableStringify id (flat [(''bank'', ''058''), (''amount'', ''100.00'')]) \<and>
   stableStringify id (flat [(''amount'', ''100.00''), (''bank'', ''058'')]) \<noteq> stableStringify id (flat [(''amount'', ''900.00''), (''bank'', ''058'')])"
proof -
  have inj: "inj_on (\<lambda>e. id (fst e)) (set [(''amount'', ''100.00''), (''bank'', ''058'')])" by (simp add: inj_on_def)
  have perm: "mset [(''amount'', ''100.00''), (''bank'', ''058'')] = mset [(''bank'', ''058''), (''amount'', ''100.00'')]" by simp
  have other: "mset [(''amount'', ''100.00''), (''bank'', ''058'')] \<noteq> mset [(''amount'', ''900.00''), (''bank'', ''058'')]"
    by (rule notI) (drule mset_eq_setD, auto dest: equalityD1)
  show ?thesis
    using context_text_exact[OF inj, of "[(''bank'', ''058''), (''amount'', ''100.00'')]"]
      context_text_exact[OF inj, of "[(''amount'', ''900.00''), (''bank'', ''058'')]"] perm other by blast
qed

section \<open>The newest code\<close>

lemma newest_by_snoc:
  "newest_by at (rows @ [r]) =
   (case newest_by at rows of None \<Rightarrow> Some r | Some b \<Rightarrow> if at b \<le> at r then Some r else Some b)"
  by (simp add: newest_by_def)

lemma newest_by_Nil [simp]: "newest_by at [] = None"
  by (simp add: newest_by_def)

lemma newest_by_None_iff: "newest_by at rows = None \<longleftrightarrow> rows = []"
  by (induction rows rule: rev_induct) (auto simp: newest_by_snoc split: option.splits)

lemma newest_by_max: "newest_by at rows = Some b \<Longrightarrow> b \<in> set rows \<and> (\<forall>r\<in>set rows. at r \<le> at b)"
proof (induction rows arbitrary: b rule: rev_induct)
  case (snoc r rows)
  then show ?case
    by (cases "newest_by at rows") (fastforce simp: newest_by_snoc newest_by_None_iff split: if_splits)+
qed simp

lemma newest_by_latest:
  assumes "\<And>x. x \<in> set rows \<Longrightarrow> at x \<le> at r"
  shows "newest_by at (rows @ [r]) = Some r"
  using newest_by_max[of at rows] assms by (auto simp: newest_by_snoc split: option.splits)

text \<open>Changing the newest row without its time keeps it the newest.\<close>

lemma newest_by_map: "(\<And>r. r \<in> set rows \<Longrightarrow> at (f r) = at r) \<Longrightarrow> newest_by at (map f rows) = map_option f (newest_by at rows)"
proof (induction rows rule: rev_induct)
  case (snoc r rows)
  have "\<And>b. newest_by at rows = Some b \<Longrightarrow> at (f b) = at b" using newest_by_max snoc.prems by fastforce
  then show ?case using snoc by (auto simp: newest_by_snoc split: option.splits)
qed simp

section \<open>A code confirms one request\<close>

definition issued_code :: "env \<Rightarrow> db \<Rightarrow> string" where
  "issued_code w s = padStart OTP_LENGTH (CHR ''0'') (show_nat (e_uuid w (randomDraws s) mod 10 ^ OTP_LENGTH))"

definition issued_row :: "env \<Rightarrow> (string \<Rightarrow> string) \<Rightarrow> (string \<Rightarrow> string) \<Rightarrow> uuid \<Rightarrow> otp_action \<Rightarrow> uuid \<Rightarrow> json \<Rightarrow> db \<Rightarrow> action_otp" where
  "issued_row w sha collate userId action potId context s =
     \<lparr>ao_id = fresh_id (map ao_id (actionOtpCodes s)), ao_userId = userId, ao_action = action, ao_potId = potId,
      ao_contextHash = hashActionContext sha collate context, ao_codeHash = hashOtpCode sha (issued_code w s),
      ao_attemptCount = 0, ao_maxAttempts = 5, ao_expiresAt = otpExpiry w, ao_consumedAt = None,
      ao_consumedByIdempotencyKey = None, ao_createdAt = e_now w\<rparr>"

lemma request_run:
  assumes "request w sha collate userId action potId context s = (Inr (), s1)"
  shows "actionOtpCodes s1 = actionOtpCodes s @ [issued_row w sha collate userId action potId context s] \<and>
    (\<forall>r\<in>set (codes_for userId action potId s). ao_createdAt r \<le> e_now w)"
proof -
  let ?latest = "newest_by ao_createdAt (codes_for userId action potId s)"
  let ?s = "s\<lparr>randomDraws := Suc (randomDraws s), actionOtpCodes := actionOtpCodes s @ [issued_row w sha collate userId action potId context s]\<rparr>"
  have "\<exists>a t. (case ?latest of None \<Rightarrow> True | Some l \<Rightarrow> \<not> e_now w - ao_createdAt l < OTP_RESEND_COOLDOWN_SECONDS * 1000) \<and>
      sendMail w a t ?s = (Inr (), s1)"
    using assms unfolding request_def bnd_gets
    by (cases "find (\<lambda>u. u_id u = userId) (users s)")
      (auto simp: bnd_require generateOtpCode_def bnd_run[OF randomUUID_run] bnd_assoc issued_code_def issued_row_def split: if_splits)
  then obtain a t where cooled: "case ?latest of None \<Rightarrow> True | Some l \<Rightarrow> \<not> e_now w - ao_createdAt l < OTP_RESEND_COOLDOWN_SECONDS * 1000"
    and sent: "sendMail w a t ?s = (Inr (), s1)" by blast
  have "actionOtpCodes s1 = actionOtpCodes s @ [issued_row w sha collate userId action potId context s]"
    using sent by (auto simp: sendMail_def throw_def modify_def split: option.splits)
  moreover have "ao_createdAt r \<le> e_now w" if "r \<in> set (codes_for userId action potId s)" for r
  proof (cases ?latest)
    case None
    then show ?thesis using that by (simp add: newest_by_None_iff)
  next
    case (Some l)
    then have "ao_createdAt r \<le> ao_createdAt l" using newest_by_max[OF Some] that by blast
    then show ?thesis using cooled Some by (simp add: OTP_RESEND_COOLDOWN_SECONDS_def)
  qed
  ultimately show ?thesis by blast
qed

lemma issued_is_active:
  assumes "request w sha collate userId action potId context s = (Inr (), s1)"
  shows "active_code userId action potId s1 = Some (issued_row w sha collate userId action potId context s)"
proof -
  let ?r = "issued_row w sha collate userId action potId context s"
  have "filter (\<lambda>r. ao_consumedAt r = None) (codes_for userId action potId s1) =
      filter (\<lambda>r. ao_consumedAt r = None) (codes_for userId action potId s) @ [?r]"
    using request_run[OF assms] by (simp add: codes_for_def issued_row_def)
  then show ?thesis
    using request_run[OF assms] newest_by_latest[of "filter (\<lambda>r. ao_consumedAt r = None) (codes_for userId action potId s)" ao_createdAt ?r]
    by (simp add: active_code_def issued_row_def)
qed

definition confirms :: "env \<Rightarrow> (string \<Rightarrow> string) \<Rightarrow> (string \<Rightarrow> string) \<Rightarrow> action_otp \<Rightarrow> json \<Rightarrow> string \<Rightarrow> bool" where
  "confirms w sha collate r context code \<longleftrightarrow>
     hashActionContext sha collate context = ao_contextHash r \<and> verifyOtpCode sha code (ao_codeHash r)"

lemma verify_active:
  assumes "active_code userId action potId s = Some r"
  shows "verify w sha collate userId action potId context code key s =
    (if ao_expiresAt r < e_now w then (Inl (PotError ''Confirmation code has expired. Request a new one.'' 400), s)
     else if ao_maxAttempts r \<le> ao_attemptCount r then (Inl (PotError ''Too many incorrect attempts. Request a new code.'' 429), s)
     else if confirms w sha collate r context code
     then (Inr (), s\<lparr>actionOtpCodes := update_where (\<lambda>x. ao_id x = ao_id r) (consume_code (e_now w) key) (actionOtpCodes s)\<rparr>)
     else (Inl (PotError ''Incorrect confirmation code'' 400),
           s\<lparr>actionOtpCodes := update_where (\<lambda>x. ao_id x = ao_id r) (set_attempts (ao_attemptCount r + 1)) (actionOtpCodes s)\<rparr>))"
  using assms by (simp add: verify_def bnd_require bnd_def[of "update_code i f" for i f] update_code_def modify_def throw_def confirms_def Let_def)

lemma verifyOtpCode_iff: "verifyOtpCode sha code hash \<longleftrightarrow> sha code = hash"
  by (auto simp: verifyOtpCode_def hashOtpCode_def Let_def)

text \<open>What happens around one user's confirmations of one action on one pot: requests for a code, attempts to use one,
  each at its own time, and whatever the rest of the system does to the database in between.\<close>

datatype otp_event =
    Asked env "(string \<times> string) list"
  | Checked env "(string \<times> string) list" string "string option"
  | Elsewhere "db \<Rightarrow> db"

fun otp_run :: "(string \<Rightarrow> string) \<Rightarrow> (string \<Rightarrow> string) \<Rightarrow> uuid \<Rightarrow> otp_action \<Rightarrow> uuid \<Rightarrow> otp_event list \<Rightarrow> db \<Rightarrow> db" where
  "otp_run sha collate userId action potId [] s = s"
| "otp_run sha collate userId action potId (Asked w kvs # es) s =
     otp_run sha collate userId action potId es (snd (request w sha collate userId action potId (flat kvs) s))"
| "otp_run sha collate userId action potId (Checked w kvs code key # es) s =
     otp_run sha collate userId action potId es (snd (verify w sha collate userId action potId (flat kvs) code key s))"
| "otp_run sha collate userId action potId (Elsewhere f # es) s = otp_run sha collate userId action potId es (f s)"

text \<open>The rest of the system leaves these codes alone.\<close>

fun kept_apart :: "(string \<Rightarrow> string) \<Rightarrow> (string \<Rightarrow> string) \<Rightarrow> uuid \<Rightarrow> otp_action \<Rightarrow> uuid \<Rightarrow> otp_event list \<Rightarrow> db \<Rightarrow> bool" where
  "kept_apart sha collate userId action potId [] s \<longleftrightarrow> True"
| "kept_apart sha collate userId action potId (e # es) s \<longleftrightarrow>
     (case e of Elsewhere f \<Rightarrow> codes_for userId action potId (f s) = codes_for userId action potId s | _ \<Rightarrow> True) \<and>
     kept_apart sha collate userId action potId es (otp_run sha collate userId action potId [e] s)"

lemma otp_run_append:
  "otp_run sha collate u a q (es @ fs) s = otp_run sha collate u a q fs (otp_run sha collate u a q es s)"
proof (induction es arbitrary: s)
  case (Cons e es)
  then show ?case by (cases e) simp_all
qed simp

lemma otp_run_Cons: "otp_run sha collate u a q (e # es) s = otp_run sha collate u a q es (otp_run sha collate u a q [e] s)"
  by (cases e) simp_all

lemma kept_apart_append:
  "kept_apart sha collate u a q (es @ fs) s \<longleftrightarrow>
   kept_apart sha collate u a q es s \<and> kept_apart sha collate u a q fs (otp_run sha collate u a q es s)"
proof (induction es arbitrary: s)
  case (Cons e es)
  then show ?case by (simp add: otp_run_Cons[of sha collate u a q e es s] del: otp_run.simps(2-4))
qed simp

text \<open>The code of the request that follows the events \<open>before\<close> was stored.\<close>

definition code_stored :: "(string \<Rightarrow> string) \<Rightarrow> (string \<Rightarrow> string) \<Rightarrow> uuid \<Rightarrow> otp_action \<Rightarrow> uuid \<Rightarrow> env \<Rightarrow> (string \<times> string) list \<Rightarrow> db \<Rightarrow> bool" where
  "code_stored sha collate userId action potId w kvs s \<longleftrightarrow>
     actionOtpCodes (snd (request w sha collate userId action potId (flat kvs) s)) =
       actionOtpCodes s @ [issued_row w sha collate userId action potId (flat kvs) s]"

lemma request_state:
  "code_stored sha collate u a q w kvs s \<or> actionOtpCodes (snd (request w sha collate u a q (flat kvs) s)) = actionOtpCodes s"
  by (simp add: code_stored_def request_def op_simps generateOtpCode_def randomUUID_def issued_row_def issued_code_def
      sendMail_def split: option.split)

text \<open>What is known of a stored code: the request it was mailed for, and the attempt whose key consumed it.\<close>

definition mailed :: "(string \<Rightarrow> string) \<Rightarrow> (string \<Rightarrow> string) \<Rightarrow> uuid \<Rightarrow> otp_action \<Rightarrow> uuid \<Rightarrow> otp_event list \<Rightarrow> db \<Rightarrow> action_otp \<Rightarrow> bool" where
  "mailed sha collate u a q es s r \<longleftrightarrow>
     (\<exists>before w kvs after. es = before @ Asked w kvs # after \<and> code_stored sha collate u a q w kvs (otp_run sha collate u a q before s) \<and>
        ao_contextHash r = hashActionContext sha collate (flat kvs) \<and>
        ao_codeHash r = hashOtpCode sha (issued_code w (otp_run sha collate u a q before s)) \<and> ao_expiresAt r = otpExpiry w)"

definition key_used :: "(string \<Rightarrow> string) \<Rightarrow> (string \<Rightarrow> string) \<Rightarrow> uuid \<Rightarrow> otp_action \<Rightarrow> uuid \<Rightarrow> otp_event list \<Rightarrow> db \<Rightarrow> string option \<Rightarrow> bool" where
  "key_used sha collate u a q es s key \<longleftrightarrow>
     (\<exists>before w kvs code after. es = before @ Checked w kvs code key # after \<and>
        fst (verify w sha collate u a q (flat kvs) code key (otp_run sha collate u a q before s)) = Inr () \<and>
        active_code u a q (otp_run sha collate u a q before s) \<noteq> None)"

definition explained :: "(string \<Rightarrow> string) \<Rightarrow> (string \<Rightarrow> string) \<Rightarrow> uuid \<Rightarrow> otp_action \<Rightarrow> uuid \<Rightarrow> otp_event list \<Rightarrow> db \<Rightarrow> action_otp \<Rightarrow> bool" where
  "explained sha collate u a q es s r \<longleftrightarrow> mailed sha collate u a q es s r \<and>
     (ao_consumedByIdempotencyKey r \<noteq> None \<longrightarrow> key_used sha collate u a q es s (ao_consumedByIdempotencyKey r))"

lemma mailed_snoc: "mailed sha collate u a q es s r \<Longrightarrow> mailed sha collate u a q (es @ [e]) s r"
  unfolding mailed_def by (metis append.assoc append_Cons)

lemma key_used_snoc: "key_used sha collate u a q es s key \<Longrightarrow> key_used sha collate u a q (es @ [e]) s key"
  unfolding key_used_def by (metis append.assoc append_Cons)

lemma explained_snoc: "explained sha collate u a q es s r \<Longrightarrow> explained sha collate u a q (es @ [e]) s r"
  by (auto simp: explained_def mailed_snoc key_used_snoc)

lemma explained_attempts: "explained sha collate u a q es s r \<Longrightarrow> explained sha collate u a q es s (set_attempts n r)"
  by (simp add: explained_def mailed_def set_attempts_def)

lemma explained_consumed:
  assumes "explained sha collate u a q es s r"
    and "verify w sha collate u a q (flat kvs) code key (otp_run sha collate u a q es s) = (Inr (), t)"
    and "active_code u a q (otp_run sha collate u a q es s) \<noteq> None"
  shows "explained sha collate u a q (es @ [Checked w kvs code key]) s (consume_code now key r)"
proof -
  have "key_used sha collate u a q (es @ [Checked w kvs code key]) s key"
    unfolding key_used_def using assms(2,3) by (intro exI[of _ es] exI[of _ w] exI[of _ kvs] exI[of _ code] exI[of _ "[]"]) simp
  moreover have "mailed sha collate u a q es s (consume_code now key r)"
    using assms(1) by (simp add: explained_def mailed_def consume_code_def)
  ultimately show ?thesis by (simp add: explained_def mailed_snoc) (simp add: consume_code_def)
qed

lemma explained_issued:
  assumes "code_stored sha collate u a q w kvs (otp_run sha collate u a q es s)"
  shows "explained sha collate u a q (es @ [Asked w kvs]) s (issued_row w sha collate u a q (flat kvs) (otp_run sha collate u a q es s))"
proof -
  have "mailed sha collate u a q (es @ [Asked w kvs]) s (issued_row w sha collate u a q (flat kvs) (otp_run sha collate u a q es s))"
    unfolding mailed_def using assms
    by (intro exI[of _ es] exI[of _ w] exI[of _ kvs] exI[of _ "[]"]) (simp add: issued_row_def)
  then show ?thesis by (simp add: explained_def) (simp add: issued_row_def)
qed

lemma codes_for_update:
  assumes "\<And>r. ao_userId (f r) = ao_userId r \<and> ao_action (f r) = ao_action r \<and> ao_potId (f r) = ao_potId r"
  shows "codes_for u a q (s\<lparr>actionOtpCodes := update_where P f (actionOtpCodes s)\<rparr>) = update_where P f (codes_for u a q s)"
proof -
  have "filter (\<lambda>r. ao_userId r = u \<and> ao_action r = a \<and> ao_potId r = q) (update_where P f rs) =
      update_where P f (filter (\<lambda>r. ao_userId r = u \<and> ao_action r = a \<and> ao_potId r = q) rs)" for rs
    using assms by (induction rs) auto
  then show ?thesis by (simp add: codes_for_def)
qed

lemma verify_state:
  "snd (verify w sha collate u a q ctx code key s) = s \<or>
   (\<exists>r. active_code u a q s = Some r \<and>
      (snd (verify w sha collate u a q ctx code key s) =
         s\<lparr>actionOtpCodes := update_where (\<lambda>x. ao_id x = ao_id r) (set_attempts (ao_attemptCount r + 1)) (actionOtpCodes s)\<rparr> \<or>
       verify w sha collate u a q ctx code key s =
         (Inr (), s\<lparr>actionOtpCodes := update_where (\<lambda>x. ao_id x = ao_id r) (consume_code (e_now w) key) (actionOtpCodes s)\<rparr>)))"
proof (cases "active_code u a q s")
  case None
  then show ?thesis by (simp add: verify_def already_consumed_def op_simps)
next
  case (Some r)
  then show ?thesis by (simp add: verify_active)
qed

lemma codes_explained:
  assumes "codes_for u a q s = []"
  shows "kept_apart sha collate u a q es s \<Longrightarrow> r \<in> set (codes_for u a q (otp_run sha collate u a q es s)) \<Longrightarrow> explained sha collate u a q es s r"
proof (induction es arbitrary: r rule: rev_induct)
  case Nil
  then show ?case using assms by simp
next
  case (snoc e es)
  let ?t = "otp_run sha collate u a q es s"
  have old: "explained sha collate u a q es s x" if "x \<in> set (codes_for u a q ?t)" for x
    using snoc.IH[OF _ that] snoc.prems(1) by (simp add: kept_apart_append)
  show ?case
  proof (cases e)
    case (Elsewhere f)
    then have "r \<in> set (codes_for u a q ?t)" using snoc.prems by (simp add: kept_apart_append otp_run_append)
    then show ?thesis by (intro explained_snoc old)
  next
    case (Asked w kvs)
    then have "r \<in> set (codes_for u a q (snd (request w sha collate u a q (flat kvs) ?t)))"
      using snoc.prems(2) by (simp add: otp_run_append)
    then consider "r \<in> set (codes_for u a q ?t)"
      | "code_stored sha collate u a q w kvs ?t" "r = issued_row w sha collate u a q (flat kvs) ?t"
      using request_state[of sha collate u a q w kvs ?t] by (auto simp: codes_for_def code_stored_def)
    then show ?thesis
    proof cases
      case 1
      then show ?thesis by (intro explained_snoc old)
    next
      case 2
      then show ?thesis using explained_issued Asked by simp
    qed
  next
    case (Checked w kvs code key)
    then have r: "r \<in> set (codes_for u a q (snd (verify w sha collate u a q (flat kvs) code key ?t)))"
      using snoc.prems(2) by (simp add: otp_run_append)
    consider "snd (verify w sha collate u a q (flat kvs) code key ?t) = ?t"
      | i n where "snd (verify w sha collate u a q (flat kvs) code key ?t) =
          ?t\<lparr>actionOtpCodes := update_where (\<lambda>x. ao_id x = i) (set_attempts n) (actionOtpCodes ?t)\<rparr>"
      | i where "active_code u a q ?t \<noteq> None" "verify w sha collate u a q (flat kvs) code key ?t =
          (Inr (), ?t\<lparr>actionOtpCodes := update_where (\<lambda>x. ao_id x = i) (consume_code (e_now w) key) (actionOtpCodes ?t)\<rparr>)"
      using verify_state[of w sha collate u a q "flat kvs" code key ?t] by blast
    then show ?thesis
    proof cases
      case 1
      then show ?thesis using r by (intro explained_snoc old) simp
    next
      case 2
      then obtain x where "x \<in> set (codes_for u a q ?t)" "r = x \<or> r = set_attempts n x"
        using r by (auto simp: codes_for_update set_attempts_def set_update_where split: if_splits)
      then show ?thesis using old explained_attempts explained_snoc by metis
    next
      case 3
      then obtain x where "x \<in> set (codes_for u a q ?t)" "r = x \<or> r = consume_code (e_now w) key x"
        using r by (auto simp: codes_for_update consume_code_def set_update_where split: if_splits)
      then show ?thesis using old explained_snoc explained_consumed[OF _ 3(2,1)] Checked by metis
    qed
  qed
qed

lemma active_in_codes: "active_code u a q s = Some r \<Longrightarrow> r \<in> set (codes_for u a q s)"
  unfolding active_code_def using newest_by_max by fastforce

text \<open>C14. A confirmation code confirms the request it was mailed for, and nothing else. Take a user, an action and
  a pot without codes so far, and any sequence of requests for a code, attempts to use one and things done
  elsewhere. If a verification then succeeds while a code is active, one of the requests stored the very code given,
  for the very same fields and values (SHA-256 not colliding on the four texts, the collation telling the field
  names apart), at most ten minutes before. If it succeeds with no code active, it is a retry: an earlier verification
  under the same idempotency key succeeded while a code was active; the code and the body of the retry are then
  not looked at.\<close>

theorem code_bound_to_request:
  assumes "codes_for userId action potId s = []" and "kept_apart sha collate userId action potId es s"
    and "verify w sha collate userId action potId (flat kvs) code key (otp_run sha collate userId action potId es s) = (Inr (), t)"
  shows "if active_code userId action potId (otp_run sha collate userId action potId es s) \<noteq> None
    then \<exists>before w' kvs' after. es = before @ Asked w' kvs' # after \<and>
      code_stored sha collate userId action potId w' kvs' (otp_run sha collate userId action potId before s) \<and>
      e_now w \<le> e_now w' + 600000 \<and>
      (inj_on (\<lambda>e. collate (fst e)) (set kvs') \<and>
       inj_on sha {stableStringify collate (flat kvs'), stableStringify collate (flat kvs),
         issued_code w' (otp_run sha collate userId action potId before s), code} \<longrightarrow>
       mset kvs = mset kvs' \<and> code = issued_code w' (otp_run sha collate userId action potId before s))
    else \<exists>before w' kvs' code' after. es = before @ Checked w' kvs' code' key # after \<and> truthy key \<and>
      fst (verify w' sha collate userId action potId (flat kvs') code' key (otp_run sha collate userId action potId before s)) = Inr () \<and>
      active_code userId action potId (otp_run sha collate userId action potId before s) \<noteq> None"
proof (cases "active_code userId action potId (otp_run sha collate userId action potId es s)")
  case (Some r)
  let ?run = "otp_run sha collate userId action potId"
  have "explained sha collate userId action potId es s r"
    by (rule codes_explained[OF assms(1,2) active_in_codes[OF Some]])
  then obtain before w' kvs' after where asked: "es = before @ Asked w' kvs' # after"
    "code_stored sha collate userId action potId w' kvs' (?run before s)"
    and row: "ao_contextHash r = hashActionContext sha collate (flat kvs')" "ao_codeHash r = hashOtpCode sha (issued_code w' (?run before s))"
      "ao_expiresAt r = otpExpiry w'"
    unfolding explained_def mailed_def by blast
  have ok: "confirms w sha collate r (flat kvs) code" "\<not> ao_expiresAt r < e_now w"
    using assms(3) unfolding verify_active[OF Some] by (simp_all split: if_splits)
  then have same: "sha (stableStringify collate (flat kvs')) = sha (stableStringify collate (flat kvs))" "sha (issued_code w' (?run before s)) = sha code"
    by (simp_all add: confirms_def row hashActionContext_def verifyOtpCode_iff hashOtpCode_def)
  have "mset kvs = mset kvs' \<and> code = issued_code w' (?run before s)"
    if "inj_on (\<lambda>e. collate (fst e)) (set kvs')" and inj: "inj_on sha {stableStringify collate (flat kvs'),
      stableStringify collate (flat kvs), issued_code w' (?run before s), code}"
    using inj_onD[OF inj same(1)] inj_onD[OF inj same(2)] context_exact[OF that(1), of "kvs"] by auto
  moreover have "e_now w \<le> e_now w' + 600000"
    using ok(2) by (simp add: row otpExpiry_def OTP_TTL_MINUTES_def)
  ultimately show ?thesis using Some asked by (simp only: option.distinct not_False_eq_True if_True) blast
next
  case None
  let ?run = "otp_run sha collate userId action potId"
  have pass: "truthy key" "Option.bind (newest_by ao_createdAt (codes_for userId action potId (?run es s))) ao_consumedByIdempotencyKey = key"
    using assms(3) None by (auto simp: verify_def already_consumed_def op_simps split: if_splits)
  then obtain k r where key: "key = Some k" and r: "newest_by ao_createdAt (codes_for userId action potId (?run es s)) = Some r"
    "ao_consumedByIdempotencyKey r = Some k"
    by (cases key) (auto simp: truthy_def bind_eq_Some_conv)
  from newest_by_max[OF r(1)] have "r \<in> set (codes_for userId action potId (?run es s))" ..
  then have "explained sha collate userId action potId es s r" by (rule codes_explained[OF assms(1,2)])
  then have "key_used sha collate userId action potId es s key"
    using r(2) by (simp add: explained_def key)
  then obtain before w' kvs' code' after where "es = before @ Checked w' kvs' code' key # after"
    "fst (verify w' sha collate userId action potId (flat kvs') code' key (?run before s)) = Inr ()"
    "active_code userId action potId (?run before s) \<noteq> None"
    unfolding key_used_def by blast
  then show ?thesis using None pass(1) by (simp only: simp_thms if_False) blast
qed

lemma flat_example:
  "inj_on (\<lambda>e. id (fst e)) (set [(''amount'', ''100.00'')])"
  by simp

definition admin_db :: db where
  "admin_db = empty_db\<lparr>users := [\<lparr>u_id = 1, u_email = ''ada@x.ng'', u_username = ''ada'', u_passwordHash = [],
     u_fullName = ''Ada Obi Nwosu'', u_phone = None, u_emailVerifiedAt = Some 0, u_refreshTokenHash = None,
     u_refreshTokenExpiresAt = None, u_tokenVersion = 0, u_defaultRefundAccount = None, u_defaultRefundBank = None\<rparr>]\<rparr>"

definition requested_db :: db where
  "requested_db = snd (request example_env id id 1 trigger_payout 7 (flat [(''amount'', ''100.00'')]) admin_db)"

lemma example_code: "issued_code example_env admin_db = ''000000''"
proof -
  have "padStart 6 (CHR ''0'') (show_nat 0) = ''000000''" by code_simp
  then show ?thesis by (simp add: issued_code_def example_env_def admin_db_def empty_db_def OTP_LENGTH_def)
qed

lemma first_request_succeeds:
  assumes "find (\<lambda>u. u_id u = userId) (users s) = Some a" and "codes_for userId action potId s = []"
    and "e_sendMail w = (\<lambda>_. None)"
  shows "fst (request w sha collate userId action potId ctx s) = Inr ()"
  using assms
  by (simp add: request_def bnd_require generateOtpCode_def bnd_run[OF randomUUID_run] bnd_assoc sendMail_def)
    (simp add: modify_def)

lemma requested_run:
  "request example_env id id 1 trigger_payout 7 (flat [(''amount'', ''100.00'')]) admin_db = (Inr (), requested_db)"
proof -
  have "fst (request example_env id id 1 trigger_payout 7 (flat [(''amount'', ''100.00'')]) admin_db) = Inr ()"
    by (rule first_request_succeeds) (simp_all add: admin_db_def empty_db_def codes_for_def example_env_def)
  then show ?thesis unfolding requested_db_def by (metis prod.collapse)
qed

text \<open>The mailed code confirms the amount it was asked for, and not another one.\<close>

theorem code_bound_to_request_witness:
  "fst (verify example_env id id 1 trigger_payout 7 (flat [(''amount'', ''100.00'')]) ''000000'' None requested_db) = Inr () \<and>
   fst (verify example_env id id 1 trigger_payout 7 (flat [(''amount'', ''900.00'')]) ''000000'' None requested_db) \<noteq> Inr ()"
proof
  let ?es = "[Asked example_env [(''amount'', ''100.00'')]]"
  note active = issued_is_active[OF requested_run]
  have run: "otp_run id id 1 trigger_payout 7 ?es admin_db = requested_db" by (simp add: requested_db_def)
  have "codes_for 1 trigger_payout 7 admin_db = []" "kept_apart id id 1 trigger_payout 7 ?es admin_db"
    by (simp_all add: codes_for_def admin_db_def empty_db_def)
  note bound = code_bound_to_request[OF this, unfolded run]
  show "fst (verify example_env id id 1 trigger_payout 7 (flat [(''amount'', ''100.00'')]) ''000000'' None requested_db) = Inr ()"
    using example_code unfolding verify_active[OF active]
    by (simp add: confirms_def issued_row_def verifyOtpCode_iff hashOtpCode_def otpExpiry_def OTP_TTL_MINUTES_def)
  show "fst (verify example_env id id 1 trigger_payout 7 (flat [(''amount'', ''900.00'')]) ''000000'' None requested_db) \<noteq> Inr ()"
  proof
    assume "fst (verify example_env id id 1 trigger_payout 7 (flat [(''amount'', ''900.00'')]) ''000000'' None requested_db) = Inr ()"
    then obtain t where "verify example_env id id 1 trigger_payout 7 (flat [(''amount'', ''900.00'')]) ''000000'' None requested_db = (Inr (), t)"
      by (metis prod.collapse)
    from bound[OF this] active obtain before w' kvs' after where split: "?es = before @ Asked w' kvs' # after"
      and same: "inj_on (\<lambda>e. id (fst e)) (set kvs') \<longrightarrow> mset [(''amount'', ''900.00'')] = mset kvs'"
      by (simp only: option.distinct not_False_eq_True if_True inj_on_id simp_thms) blast
    have "kvs' = [(''amount'', ''100.00'')]" using split by (auto simp: Cons_eq_append_conv)
    then show False using same flat_example by simp
  qed
qed

section \<open>Wrong codes\<close>

lemma filter_map_frame: "(\<And>x. P (g x) = P x) \<Longrightarrow> filter P (map g xs) = map g (filter P xs)"
  by (induction xs) auto

lemma active_after_attempt:
  assumes "active_code userId action potId s = Some r"
  shows "active_code userId action potId
    (s\<lparr>actionOtpCodes := update_where (\<lambda>x. ao_id x = ao_id r) (set_attempts n) (actionOtpCodes s)\<rparr>) = Some (set_attempts n r)"
proof -
  let ?g = "\<lambda>x. if ao_id x = ao_id r then set_attempts n x else x"
  have "filter (\<lambda>x. ao_consumedAt x = None) (codes_for userId action potId
      (s\<lparr>actionOtpCodes := update_where (\<lambda>x. ao_id x = ao_id r) (set_attempts n) (actionOtpCodes s)\<rparr>)) =
      map ?g (filter (\<lambda>x. ao_consumedAt x = None) (codes_for userId action potId s))"
    by (simp add: codes_for_def update_where_def filter_map_frame set_attempts_def)
  moreover have "ao_createdAt (?g x) = ao_createdAt x" for x by (simp add: set_attempts_def)
  ultimately show ?thesis using assms by (simp add: active_code_def newest_by_map)
qed

text \<open>A run of attempts, each at its own time, with its own request, code and key.\<close>

fun attempts :: "(string \<Rightarrow> string) \<Rightarrow> (string \<Rightarrow> string) \<Rightarrow> uuid \<Rightarrow> otp_action \<Rightarrow> uuid \<Rightarrow> (env \<times> json \<times> string \<times> string option) list \<Rightarrow> db \<Rightarrow> db" where
  "attempts sha collate userId action potId [] s = s"
| "attempts sha collate userId action potId ((w, context, code, key) # gs) s =
     attempts sha collate userId action potId gs (snd (verify w sha collate userId action potId context code key s))"

lemma wrong_attempts_lock:
  assumes "active_code userId action potId s = Some r" and "ao_maxAttempts r \<le> ao_attemptCount r + int (length gs)"
    and "\<forall>(w, context, code, key)\<in>set gs. \<not> confirms w sha collate r context code \<and> e_now w \<le> ao_expiresAt r"
  shows "\<exists>r'. active_code userId action potId (attempts sha collate userId action potId gs s) = Some r' \<and>
    ao_maxAttempts r' \<le> ao_attemptCount r'"
  using assms
proof (induction gs arbitrary: s r)
  case (Cons g gs)
  obtain w ctx code key where g: "g = (w, ctx, code, key)" by (metis prod_cases4)
  have wrong: "\<not> confirms w sha collate r ctx code" "\<not> ao_expiresAt r < e_now w" using Cons.prems(3) by (auto simp: g)
  show ?case
  proof (cases "ao_maxAttempts r \<le> ao_attemptCount r")
    case True
    then have "snd (verify w sha collate userId action potId ctx code key s) = s"
      using wrong by (simp add: verify_active[OF Cons.prems(1)])
    then show ?thesis
      using Cons.IH[OF Cons.prems(1)] Cons.prems(3) True by (simp add: g)
  next
    case False
    let ?s = "s\<lparr>actionOtpCodes := update_where (\<lambda>x. ao_id x = ao_id r) (set_attempts (ao_attemptCount r + 1)) (actionOtpCodes s)\<rparr>"
    have "snd (verify w sha collate userId action potId ctx code key s) = ?s"
      using wrong False by (simp add: verify_active[OF Cons.prems(1)])
    moreover have "\<forall>(w, ctx, code, key)\<in>set gs.
        \<not> confirms w sha collate (set_attempts (ao_attemptCount r + 1) r) ctx code \<and> e_now w \<le> ao_expiresAt (set_attempts (ao_attemptCount r + 1) r)"
      using Cons.prems(3) by (auto simp: confirms_def set_attempts_def)
    ultimately show ?thesis
      using Cons.IH[OF active_after_attempt[OF Cons.prems(1)], of "ao_attemptCount r + 1"] Cons.prems(2)
      by (simp add: g set_attempts_def)
  qed
qed auto

text \<open>Five wrong codes lock a confirmation. After a code was sent, five or more attempts within its ten
  minutes that give a wrong code or another request leave it locked: every later attempt is refused, the
  right code included, and changes nothing.\<close>

lemma five_wrong_codes_lock:
  assumes "request w sha collate userId action potId context s = (Inr (), s1)"
    and "5 \<le> length gs"
    and "\<forall>(w', context', code, key)\<in>set gs.
      \<not> confirms w' sha collate (issued_row w sha collate userId action potId context s) context' code \<and> e_now w' \<le> e_now w + 600000"
  shows "\<exists>e. verify w2 sha collate userId action potId context2 code2 key2 (attempts sha collate userId action potId gs s1) =
    (Inl e, attempts sha collate userId action potId gs s1)"
proof -
  let ?r = "issued_row w sha collate userId action potId context s"
  have "ao_maxAttempts ?r \<le> ao_attemptCount ?r + int (length gs)" "ao_expiresAt ?r = e_now w + 600000"
    using assms(2) by (simp_all add: issued_row_def otpExpiry_def OTP_TTL_MINUTES_def)
  with wrong_attempts_lock[OF issued_is_active[OF assms(1)], of gs sha collate] assms(3)
  obtain r' where "active_code userId action potId (attempts sha collate userId action potId gs s1) = Some r'"
    "ao_maxAttempts r' \<le> ao_attemptCount r'" by auto
  then show ?thesis by (simp add: verify_active)
qed

lemma five_wrong_codes_lock_witness:
  "\<exists>e. fst (verify example_env id id 1 trigger_payout 7 (flat [(''amount'', ''100.00'')]) ''000000'' None
     (attempts id id 1 trigger_payout 7 (replicate 5 (example_env, flat [(''amount'', ''100.00'')], ''123456'', None)) requested_db)) = Inl e"
proof -
  have wrong: "\<not> confirms example_env id id (issued_row example_env id id 1 trigger_payout 7 (flat [(''amount'', ''100.00'')]) admin_db)
      (flat [(''amount'', ''100.00'')]) ''123456''"
    by (simp add: confirms_def verifyOtpCode_iff issued_row_def hashOtpCode_def example_code)
  have "e_now example_env = 0" by (simp add: example_env_def)
  with wrong five_wrong_codes_lock[OF requested_run, of "replicate 5 (example_env, flat [(''amount'', ''100.00'')], ''123456'', None)"
      example_env "flat [(''amount'', ''100.00'')]" "''000000''" None]
  show ?thesis by (auto simp del: attempts.simps)
qed

section \<open>A retry skips every check\<close>

text \<open>Once a request that carried an idempotency key has consumed the only active code, a verification under
  the same key succeeds for any request and any code: the retry is recognised by its key alone.\<close>

lemma retry_skips_context:
  assumes "active_code userId action potId s = None"
    and "newest_by ao_createdAt (codes_for userId action potId s) = Some r"
    and "ao_consumedByIdempotencyKey r = Some key" and "key \<noteq> []"
  shows "verify w sha collate userId action potId context code (Some key) s = (Inr (), s)"
  using assms by (simp add: verify_def already_consumed_def truthy_def ret_def)

end
