(* ===== verification/Members.thy ===== *)
theory Members
  imports Action_Otp
begin

text \<open>
  Who belongs to a pot: \<open>modules/pots/pot-members.service.ts\<close> and \<open>pending-members.service.ts\<close>, with the texts of
  the two mails they send. Between checking that a pot keeps another admin and writing, the code leaves a gap
  where \<open>e_gap\<close> lets other requests in; the database's two unique indexes are part of the inserts.
\<close>

section \<open>Text\<close>

text \<open>\<open>trim()\<close> and \<open>toLowerCase()\<close> on the code units up to 255.\<close>

definition is_js_space :: "char \<Rightarrow> bool" where
  "is_js_space c \<longleftrightarrow> (let n = of_char c :: nat in 9 \<le> n \<and> n \<le> 13 \<or> n = 32 \<or> n = 160)"

definition js_trim :: "string \<Rightarrow> string" where
  "js_trim cs = rev (dropWhile is_js_space (rev (dropWhile is_js_space cs)))"

definition js_lower :: "char \<Rightarrow> char" where
  "js_lower c = (let n = of_char c :: nat in
     if 65 \<le> n \<and> n \<le> 90 \<or> 192 \<le> n \<and> n \<le> 222 \<and> n \<noteq> 215 then char_of (n + 32) else c)"

definition toLowerCase :: "string \<Rightarrow> string" where
  "toLowerCase cs = map js_lower cs"

definition normalizeEmail :: "string \<Rightarrow> string" where
  "normalizeEmail email = toLowerCase (js_trim email)"

definition addedToPotEmail_text :: "string \<Rightarrow> string \<Rightarrow> uuid \<Rightarrow> string" where
  "addedToPotEmail_text web_origin title potId =
     ''You've been added to the pot '' @ [CHR 0x22] @ title @ [CHR 0x22] @ '' on Glasspot.'' @ blank_line @
     ''If you don't have a Glasspot account yet, sign up with this email address and you'll be added automatically once you verify it.'' @
     blank_line @ ''View the pot: '' @ web_origin @ ''/pots/'' @ uuid_text potId @ blank_line @ ''Glasspot''"

definition removedFromPotEmail_text :: "string \<Rightarrow> string" where
  "removedFromPotEmail_text title =
     ''You've been removed from the pot '' @ [CHR 0x22] @ title @ [CHR 0x22] @ '' on Glasspot.'' @ blank_line @
     ''You no longer have access to this pot and won't be able to contribute or see updates unless added again.'' @
     blank_line @ ''Glasspot''"

section \<open>Member rows\<close>

definition same_member :: "uuid \<Rightarrow> uuid \<Rightarrow> pot_member \<Rightarrow> bool" where
  "same_member potId userId m \<longleftrightarrow> mb_potId m = potId \<and> mb_userId m = userId"

text \<open>The foreign keys of the rows written here: a user, a pot, and the user who added someone, each of which must
  have a row.\<close>

definition foreign_key_violation :: error where
  "foreign_key_violation = PlainError ''violates foreign key constraint''"

definition user_exists :: "uuid \<Rightarrow> db \<Rightarrow> bool" where
  "user_exists i s \<longleftrightarrow> list_ex (\<lambda>u. u_id u = i) (users s)"

definition pot_exists :: "uuid \<Rightarrow> db \<Rightarrow> bool" where
  "pot_exists i s \<longleftrightarrow> list_ex (\<lambda>p. pot_id p = i) (pots s)"

definition member_keys :: "uuid \<Rightarrow> uuid \<Rightarrow> uuid option \<Rightarrow> db \<Rightarrow> bool" where
  "member_keys potId userId addedBy s \<longleftrightarrow>
     pot_exists potId s \<and> user_exists userId s \<and> (case addedBy of None \<Rightarrow> True | Some i \<Rightarrow> user_exists i s)"

text \<open>An insert, under the unique constraint on (pot, user) and the foreign keys.\<close>

definition insert_member :: "uuid \<Rightarrow> uuid \<Rightarrow> role \<Rightarrow> uuid option \<Rightarrow> (db, pot_member) op" where
  "insert_member potId userId role addedBy s =
     (if list_ex (same_member potId userId) (potMembers s) then (Inl UniqueViolation, s)
      else if \<not> member_keys potId userId addedBy s then (Inl foreign_key_violation, s)
      else let m = \<lparr>mb_id = fresh_id (map mb_id (potMembers s)), mb_potId = potId, mb_userId = userId,
                    mb_role = role, mb_addedByUserId = addedBy\<rparr>
           in (Inr m, s\<lparr>potMembers := potMembers s @ [m]\<rparr>))"

definition set_role :: "role \<Rightarrow> pot_member \<Rightarrow> pot_member" where
  "set_role role m = m\<lparr>mb_role := role\<rparr>"

text \<open>The inner join of members with users.\<close>

definition member_join :: "(pot_member \<Rightarrow> bool) \<Rightarrow> db \<Rightarrow> (pot_member \<times> user) list" where
  "member_join P s = concat (map (\<lambda>m. map (Pair m) (filter (\<lambda>u. u_id u = mb_userId m) (users s))) (filter P (potMembers s)))"

definition PotMembers_list :: "uuid \<Rightarrow> (db, (pot_member \<times> user) list) op" where
  "PotMembers_list potId = gets (member_join (\<lambda>m. mb_potId m = potId))"

definition not_a_member :: error where
  "not_a_member = PotError ''User is not a member of this pot'' 404"

definition updateRole :: "env \<Rightarrow> uuid \<Rightarrow> uuid \<Rightarrow> role \<Rightarrow> (db, (pot_member \<times> user) option) op" where
  "updateRole w potId targetUserId role =
     bnd (getPotOrThrow potId) (\<lambda>p.
     seq (assertMembershipIsOpen p)
     (bnd (gets (getMemberRole potId targetUserId)) (\<lambda>currentRole.
      case currentRole of
        None \<Rightarrow> throw not_a_member
      | Some current \<Rightarrow>
          seq (if current = role_admin \<and> role = role_member
               then bnd (gets (countAdmins potId)) (\<lambda>adminCount.
                    require (\<not> adminCount \<le> 1) (PotError ''Cannot demote the last admin. Assign another admin first'' 409))
               else ret ())
          (seq (in_gap w)
          (seq (modify (\<lambda>s. s\<lparr>potMembers := update_where (same_member potId targetUserId) (set_role role) (potMembers s)\<rparr>))
          (gets (\<lambda>s. case member_join (same_member potId targetUserId) s of [] \<Rightarrow> None | r # _ \<Rightarrow> Some r)))))))"

definition PotMembers_remove :: "env \<Rightarrow> uuid \<Rightarrow> uuid \<Rightarrow> bool option \<Rightarrow> (db, unit) op" where
  "PotMembers_remove w potId targetUserId notify =
     bnd (getPotOrThrow potId) (\<lambda>p.
     seq (assertMembershipIsOpen p)
     (bnd (gets (getMemberRole potId targetUserId)) (\<lambda>currentRole.
      case currentRole of
        None \<Rightarrow> throw not_a_member
      | Some current \<Rightarrow>
          seq (if current = role_admin
               then bnd (gets (countAdmins potId)) (\<lambda>adminCount.
                    require (\<not> adminCount \<le> 1) (PotError ''Cannot remove the last admin. Assign another admin first'' 409))
               else ret ())
          (bnd (gets (\<lambda>s. find (\<lambda>u. u_id u = targetUserId) (users s))) (\<lambda>removedUser.
          seq (in_gap w)
          (seq (modify (\<lambda>s. s\<lparr>potMembers := filter (\<lambda>m. \<not> same_member potId targetUserId m) (potMembers s)\<rparr>))
          (case removedUser of
             None \<Rightarrow> ret ()
           | Some u \<Rightarrow> when_op (notify \<noteq> Some False) (sendMail w (u_email u) (removedFromPotEmail_text (pot_title p))))))))))"

definition leave :: "env \<Rightarrow> uuid \<Rightarrow> uuid \<Rightarrow> (db, unit) op" where
  "leave w potId userId = PotMembers_remove w potId userId (Some False)"

section \<open>People added by email\<close>

record AddMemberInput =
  am_email :: string
  am_role :: "role option"

datatype added = added_member pot_member user | added_pending pending_member

text \<open>The pot's row, with the 404 of its own these two operations throw.\<close>

definition pot_or_404 :: "uuid \<Rightarrow> (db, pot) op" where
  "pot_or_404 potId =
     bnd (gets (find_pot potId)) (\<lambda>row. case row of None \<Rightarrow> throw (PotError ''Pot not found'' 404) | Some p \<Rightarrow> ret p)"

text \<open>An insert, under the partial unique index on (pot, email) of the rows still pending and the foreign keys. The
  third foreign key, on the user who joined, is written by \<open>activateForEmail\<close> for the user whose row the same
  transaction has just changed.\<close>

definition insert_pending :: "uuid \<Rightarrow> string \<Rightarrow> role \<Rightarrow> uuid \<Rightarrow> (db, pending_member) op" where
  "insert_pending potId email role addedBy s =
     (if list_ex (\<lambda>r. pm_potId r = potId \<and> pm_email r = email \<and> pm_status r = pm_pending) (potPendingMembers s)
      then (Inl UniqueViolation, s)
      else if \<not> (pot_exists potId s \<and> user_exists addedBy s) then (Inl foreign_key_violation, s)
      else let r = \<lparr>pm_id = fresh_id (map pm_id (potPendingMembers s)), pm_potId = potId, pm_email = email, pm_role = role,
                    pm_status = pm_pending, pm_addedByUserId = addedBy, pm_joinedUserId = None, pm_joinedAt = None\<rparr>
           in (Inr r, s\<lparr>potPendingMembers := potPendingMembers s @ [r]\<rparr>))"

definition update_pending :: "uuid \<Rightarrow> (pending_member \<Rightarrow> pending_member) \<Rightarrow> (db, unit) op" where
  "update_pending i f = modify (\<lambda>s. s\<lparr>potPendingMembers := update_where (\<lambda>r. pm_id r = i) f (potPendingMembers s)\<rparr>)"

definition set_removed :: "pending_member \<Rightarrow> pending_member" where
  "set_removed r = r\<lparr>pm_status := pm_removed\<rparr>"

definition set_joined :: "time \<Rightarrow> uuid \<Rightarrow> pending_member \<Rightarrow> pending_member" where
  "set_joined now userId r = r\<lparr>pm_status := pm_joined, pm_joinedUserId := Some userId, pm_joinedAt := Some now\<rparr>"

definition add_pending :: "env \<Rightarrow> string \<Rightarrow> pot \<Rightarrow> string \<Rightarrow> role \<Rightarrow> uuid \<Rightarrow> (db, added) op" where
  "add_pending w web_origin p email role addedBy =
     bnd (catch_op (insert_pending (pot_id p) email role addedBy)
            (\<lambda>err. if err = UniqueViolation then throw (PotError ''This email is already pending for this pot'' 409) else throw err)) (\<lambda>pending.
     seq (sendMail w email (addedToPotEmail_text web_origin (pot_title p) (pot_id p)))
     (ret (added_pending pending)))"

definition PendingMembers_create :: "env \<Rightarrow> string \<Rightarrow> uuid \<Rightarrow> uuid \<Rightarrow> AddMemberInput \<Rightarrow> (db, added) op" where
  "PendingMembers_create w web_origin potId addedByUserId input =
     (let email = normalizeEmail (am_email input);
          role = (case am_role input of Some r \<Rightarrow> r | None \<Rightarrow> role_member) in
     bnd (pot_or_404 potId) (\<lambda>p.
     seq (assertMembershipIsOpen p)
     (bnd (gets (\<lambda>s. find (\<lambda>u. u_email u = email) (users s))) (\<lambda>existingUser.
      case existingUser of
        Some u \<Rightarrow>
          if u_emailVerifiedAt u \<noteq> None
          then bnd (gets (getMemberRole potId (u_id u))) (\<lambda>alreadyMember.
               seq (require (alreadyMember = None) (PotError ''User is already a member of this pot'' 409))
               (bnd (insert_member potId (u_id u) role (Some addedByUserId)) (\<lambda>member.
                seq (sendMail w email (addedToPotEmail_text web_origin (pot_title p) potId))
                (ret (added_member member u)))))
          else add_pending w web_origin p email role addedByUserId
      | None \<Rightarrow> add_pending w web_origin p email role addedByUserId))))"

definition PendingMembers_list :: "uuid \<Rightarrow> (db, pending_member list) op" where
  "PendingMembers_list potId = gets (\<lambda>s. filter (\<lambda>r. pm_potId r = potId) (potPendingMembers s))"

definition PendingMembers_remove :: "uuid \<Rightarrow> uuid \<Rightarrow> (db, unit) op" where
  "PendingMembers_remove potId pendingId =
     bnd (pot_or_404 potId) (\<lambda>p.
     seq (assertMembershipIsOpen p)
     (bnd (gets (\<lambda>s. find (\<lambda>r. pm_id r = pendingId \<and> pm_potId r = potId) (potPendingMembers s))) (\<lambda>pending.
      case pending of
        None \<Rightarrow> throw (PotError ''Pending member not found'' 404)
      | Some r \<Rightarrow>
          seq (require (pm_status r = pm_pending) (PotError ''Only a pending row can be removed'' 409))
          (update_pending pendingId set_removed))))"

text \<open>One row of the loop of \<open>activateForEmail\<close>.\<close>

definition join_row :: "env \<Rightarrow> uuid \<Rightarrow> pending_member \<Rightarrow> (db, unit) op" where
  "join_row w userId r =
     bnd (gets (getMemberRole (pm_potId r) userId)) (\<lambda>alreadyMember.
     seq (if alreadyMember = None
          then bnd (insert_member (pm_potId r) userId (pm_role r) (Some (pm_addedByUserId r))) (\<lambda>_. ret ())
          else ret ())
     (update_pending (pm_id r) (set_joined (e_now w) userId)))"

definition activateForEmail :: "env \<Rightarrow> uuid \<Rightarrow> string \<Rightarrow> (db, unit) op" where
  "activateForEmail w userId email =
     (let normalized = normalizeEmail email in
     bnd (gets (\<lambda>s. filter (\<lambda>r. pm_email r = normalized \<and> pm_status r = pm_pending) (potPendingMembers s))) (\<lambda>pending.
     for_each pending (join_row w userId)))"

end
