(* ===== verification/Pot_Config.thy ===== *)
theory Pot_Config
  imports Disburse
begin

text \<open>
  A pot's payout rule: the request schemas of \<open>pots.schema.ts\<close> as \<open>safeParse\<close> checks them, and the parts of
  \<open>pots.service.ts\<close> that validate, insert, delete and read back the one config row of the pot's mode. Zod itself
  is not in the repository: the text of its own messages is the parameter \<open>zod_text\<close>, the messages the schemas
  give are written out. Zod runs a schema's refinements unless a field was missing or malformed.
\<close>

section \<open>The wire shape\<close>

record leg_input =
  li_destinationAccount :: "string option"
  li_destinationBank :: "string option"
  li_sequenceOrder :: "int option"
  li_amount :: "string option"
  li_scheduledDate :: "time option"

record payout_config_input =
  pi_destinationAccount :: "string option"
  pi_destinationBank :: "string option"
  pi_targetDate :: "time option"
  pi_targetAmount :: "string option"
  pi_amount :: "string option"
  pi_intervalDays :: "int option"
  pi_nextRunAt :: "time option"
  pi_ordered :: "bool option"
  pi_legs :: "leg_input list option"

text \<open>What a successful parse returns, one constructor per mode (\<open>PayoutModeConfigPair\<close>).\<close>

record scheduled_leg_data =
  sd_destinationAccount :: string
  sd_destinationBank :: string
  sd_sequenceOrder :: int
  sd_amount :: string
  sd_scheduledDate :: time

datatype PayoutModeConfigPair =
    pair_target_based string string "time option" "string option"
  | pair_manual "string option" "string option"
  | pair_recurring string string string int time
  | pair_scheduled "bool option" "scheduled_leg_data list"

fun pair_mode :: "PayoutModeConfigPair \<Rightarrow> payout_mode" where
  "pair_mode (pair_target_based _ _ _ _) = target_based"
| "pair_mode (pair_manual _ _) = manual"
| "pair_mode (pair_recurring _ _ _ _ _) = recurring"
| "pair_mode (pair_scheduled _ _) = scheduled"

section \<open>The schemas\<close>

datatype zod_issue = zod_required string | zod_too_small string | zod_custom string

text \<open>Whether an issue aborts the parse, and the issue.\<close>

type_synonym issues = "(bool \<times> zod_issue) list"

definition aborted :: "issues \<Rightarrow> bool" where
  "aborted is \<longleftrightarrow> list_ex fst is"

definition field_required :: "string \<Rightarrow> 'a option \<Rightarrow> issues" where
  "field_required f v = (if v = None then [(True, zod_required f)] else [])"

definition field_min1 :: "string \<Rightarrow> string option \<Rightarrow> issues" where
  "field_min1 f v = (if v = Some '''' then [(False, zod_too_small f)] else [])"

definition at_least :: "string \<Rightarrow> int \<Rightarrow> int option \<Rightarrow> issues" where
  "at_least f n v = (case v of None \<Rightarrow> [] | Some k \<Rightarrow> if k < n then [(False, zod_too_small f)] else [])"

definition naira_text :: string where
  "naira_text = ''Amount must be a positive naira string with exactly two decimal places, e.g. '' @ [CHR 0x22] @ ''100.50'' @ [CHR 0x22]"

definition field_naira :: "string option \<Rightarrow> issues" where
  "field_naira v = (case v of None \<Rightarrow> [] | Some t \<Rightarrow> if nairaAmount t then [] else [(False, zod_custom naira_text)])"

definition destinationSchema :: "string option \<Rightarrow> string option \<Rightarrow> issues" where
  "destinationSchema account bank =
     field_required ''destinationAccount'' account @ field_min1 ''destinationAccount'' account @
     field_required ''destinationBank'' bank @ field_min1 ''destinationBank'' bank"

definition refine :: "bool \<Rightarrow> string \<Rightarrow> issues" where
  "refine b message = (if b then [] else [(False, zod_custom message)])"

definition target_minimum_text :: string where
  "target_minimum_text = ''targetAmount must exceed N'' @ koboToNairaString OUTBOUND_FEE @
     ''. The pot's balance nets the flat outbound fee out at payout time, so a target at or below it would never actually pay out anything''"

text \<open>The refinement on \<open>targetAmount\<close> parses it, and an error inside a refinement escapes from \<open>safeParse\<close>.\<close>

definition targetBasedPayoutConfigSchema :: "payout_config_input \<Rightarrow> error + issues \<times> PayoutModeConfigPair" where
  "targetBasedPayoutConfigSchema c =
     (let shape = destinationSchema (pi_destinationAccount c) (pi_destinationBank c) @ field_naira (pi_targetAmount c);
          data = pair_target_based (the (pi_destinationAccount c)) (the (pi_destinationBank c)) (pi_targetDate c) (pi_targetAmount c);
          one = refine (pi_targetDate c \<noteq> None \<or> pi_targetAmount c \<noteq> None) ''At least one of targetDate or targetAmount is required''
      in if aborted shape then Inr (shape, data)
         else case pi_targetAmount c of
                None \<Rightarrow> Inr (shape @ one, data)
              | Some t \<Rightarrow> (case nairaStringToKobo t of
                    Inl err \<Rightarrow> Inl err
                  | Inr kobo \<Rightarrow> Inr (shape @ one @ refine (kobo > OUTBOUND_FEE) target_minimum_text, data)))"

definition manualPayoutConfigSchema :: "payout_config_input \<Rightarrow> error + issues \<times> PayoutModeConfigPair" where
  "manualPayoutConfigSchema c =
     Inr (field_min1 ''destinationAccount'' (pi_destinationAccount c) @ field_min1 ''destinationBank'' (pi_destinationBank c) @
          refine ((pi_destinationAccount c = None) = (pi_destinationBank c = None))
            ''destinationAccount and destinationBank must both be set or both be omitted'',
          pair_manual (pi_destinationAccount c) (pi_destinationBank c))"

definition recurringPayoutConfigSchema :: "payout_config_input \<Rightarrow> error + issues \<times> PayoutModeConfigPair" where
  "recurringPayoutConfigSchema c =
     Inr (destinationSchema (pi_destinationAccount c) (pi_destinationBank c) @
          field_required ''amount'' (pi_amount c) @ field_naira (pi_amount c) @
          field_required ''intervalDays'' (pi_intervalDays c) @ at_least ''intervalDays'' 1 (pi_intervalDays c) @
          field_required ''nextRunAt'' (pi_nextRunAt c),
          pair_recurring (the (pi_destinationAccount c)) (the (pi_destinationBank c)) (the (pi_amount c))
            (the (pi_intervalDays c)) (the (pi_nextRunAt c)))"

definition scheduledLegSchema :: "leg_input \<Rightarrow> issues" where
  "scheduledLegSchema l =
     destinationSchema (li_destinationAccount l) (li_destinationBank l) @
     field_required ''sequenceOrder'' (li_sequenceOrder l) @ at_least ''sequenceOrder'' 0 (li_sequenceOrder l) @
     field_required ''amount'' (li_amount l) @ field_naira (li_amount l) @
     field_required ''scheduledDate'' (li_scheduledDate l)"

definition scheduled_leg_data :: "leg_input \<Rightarrow> scheduled_leg_data" where
  "scheduled_leg_data l =
     \<lparr>sd_destinationAccount = the (li_destinationAccount l), sd_destinationBank = the (li_destinationBank l),
      sd_sequenceOrder = the (li_sequenceOrder l), sd_amount = the (li_amount l), sd_scheduledDate = the (li_scheduledDate l)\<rparr>"

definition scheduledPayoutConfigSchema :: "payout_config_input \<Rightarrow> error + issues \<times> PayoutModeConfigPair" where
  "scheduledPayoutConfigSchema c =
     (let legs = (case pi_legs c of None \<Rightarrow> [] | Some ls \<Rightarrow> ls) in
      Inr (field_required ''legs'' (pi_legs c) @ (if pi_legs c = Some [] then [(False, zod_too_small ''legs'')] else []) @
           concat (map scheduledLegSchema legs),
           pair_scheduled (pi_ordered c) (map scheduled_leg_data legs)))"

fun schema_for :: "payout_mode \<Rightarrow> payout_config_input \<Rightarrow> error + issues \<times> PayoutModeConfigPair" where
  "schema_for target_based = targetBasedPayoutConfigSchema"
| "schema_for manual = manualPayoutConfigSchema"
| "schema_for recurring = recurringPayoutConfigSchema"
| "schema_for scheduled = scheduledPayoutConfigSchema"

section \<open>Validating a config\<close>

fun issue_message :: "(zod_issue \<Rightarrow> string) \<Rightarrow> zod_issue \<Rightarrow> string" where
  "issue_message zod_text (zod_custom t) = t"
| "issue_message zod_text i = zod_text i"

fun join_semicolon :: "string list \<Rightarrow> string" where
  "join_semicolon [] = []"
| "join_semicolon [t] = t"
| "join_semicolon (t # ts) = t @ ''; '' @ join_semicolon ts"

definition zodIssuesToMessage :: "(zod_issue \<Rightarrow> string) \<Rightarrow> payout_mode \<Rightarrow> issues \<Rightarrow> string" where
  "zodIssuesToMessage zod_text mode is =
     ''payoutConfig does not match payoutMode '' @ [CHR 0x27] @ payout_mode_text mode @ [CHR 0x27] @ '': '' @
     join_semicolon (map (issue_message zod_text \<circ> snd) is)"

definition validatePayoutModeConfig ::
  "(zod_issue \<Rightarrow> string) \<Rightarrow> payout_mode \<Rightarrow> payout_config_input \<Rightarrow> error + PayoutModeConfigPair" where
  "validatePayoutModeConfig zod_text mode config =
     (case schema_for mode config of
        Inl err \<Rightarrow> Inl err
      | Inr (is, data) \<Rightarrow> if is = [] then Inr data else Inl (PotError (zodIssuesToMessage zod_text mode is) 400))"

section \<open>The config rows\<close>

text \<open>Inserts, each under the unique constraint on the pot; a leg under the one on (config, order).\<close>

definition insert_target_based :: "target_based_config \<Rightarrow> (db, unit) op" where
  "insert_target_based c s =
     (if list_ex (\<lambda>r. tb_potId r = tb_potId c) (targetBasedPayoutConfigs s) then (Inl UniqueViolation, s)
      else (Inr (), s\<lparr>targetBasedPayoutConfigs := targetBasedPayoutConfigs s @
             [c\<lparr>tb_id := fresh_id (map tb_id (targetBasedPayoutConfigs s))\<rparr>]\<rparr>))"

definition insert_manual :: "manual_config \<Rightarrow> (db, unit) op" where
  "insert_manual c s =
     (if list_ex (\<lambda>r. mc_potId r = mc_potId c) (manualPayoutConfigs s) then (Inl UniqueViolation, s)
      else (Inr (), s\<lparr>manualPayoutConfigs := manualPayoutConfigs s @
             [c\<lparr>mc_id := fresh_id (map mc_id (manualPayoutConfigs s))\<rparr>]\<rparr>))"

definition insert_recurring :: "recurring_config \<Rightarrow> (db, unit) op" where
  "insert_recurring c s =
     (if list_ex (\<lambda>r. rc_potId r = rc_potId c) (recurringPayoutConfigs s) then (Inl UniqueViolation, s)
      else (Inr (), s\<lparr>recurringPayoutConfigs := recurringPayoutConfigs s @
             [c\<lparr>rc_id := fresh_id (map rc_id (recurringPayoutConfigs s))\<rparr>]\<rparr>))"

definition insert_scheduled :: "uuid \<Rightarrow> bool \<Rightarrow> (db, scheduled_config) op" where
  "insert_scheduled potId ordered s =
     (if list_ex (\<lambda>r. sc_potId r = potId) (scheduledPayoutConfigs s) then (Inl UniqueViolation, s)
      else let c = \<lparr>sc_id = fresh_id (map sc_id (scheduledPayoutConfigs s)), sc_potId = potId, sc_ordered = ordered\<rparr>
           in (Inr c, s\<lparr>scheduledPayoutConfigs := scheduledPayoutConfigs s @ [c]\<rparr>))"

text \<open>All legs go in with one statement: a clash undoes them all.\<close>

fun number_legs :: "uuid \<Rightarrow> scheduled_leg list \<Rightarrow> scheduled_leg list" where
  "number_legs i [] = []"
| "number_legs i (l # ls) = l\<lparr>sl_id := i\<rparr> # number_legs (Suc i) ls"

definition insert_legs :: "scheduled_leg list \<Rightarrow> (db, unit) op" where
  "insert_legs ls s =
     (if distinct (map (\<lambda>l. (sl_scheduledConfigId l, sl_sequenceOrder l)) (scheduledPayoutLegs s @ ls))
      then (Inr (), s\<lparr>scheduledPayoutLegs := scheduledPayoutLegs s @
              number_legs (fresh_id (map sl_id (scheduledPayoutLegs s))) ls\<rparr>)
      else (Inl UniqueViolation, s))"

text \<open>\<open>value !== undefined ? nairaStringToKobo(value) : undefined\<close>\<close>

definition optional_kobo :: "string option \<Rightarrow> (db, kobo option) op" where
  "optional_kobo v = (case v of None \<Rightarrow> ret None | Some t \<Rightarrow> bnd (from_sum (nairaStringToKobo t)) (\<lambda>k. ret (Some k)))"

definition leg_row :: "uuid \<Rightarrow> scheduled_leg_data \<times> string \<Rightarrow> (db, scheduled_leg) op" where
  "leg_row configId lw =
     (case lw of (l, accountName) \<Rightarrow>
        bnd (from_sum (nairaStringToKobo (sd_amount l))) (\<lambda>amount.
        ret \<lparr>sl_id = 0, sl_scheduledConfigId = configId, sl_sequenceOrder = sd_sequenceOrder l,
             sl_destinationAccount = sd_destinationAccount l, sl_destinationBank = sd_destinationBank l,
             sl_destinationAccountName = accountName, sl_amount = amount, sl_scheduledDate = sd_scheduledDate l,
             sl_fired = False, sl_firedAt = None\<rparr>))"

fun insertPayoutConfig :: "env \<Rightarrow> uuid \<Rightarrow> PayoutModeConfigPair \<Rightarrow> (db, unit) op" where
  "insertPayoutConfig w potId (pair_target_based account bank targetDate targetAmount) =
     bnd (verifyAccountDetails w account bank) (\<lambda>accountName.
     bnd (optional_kobo targetAmount) (\<lambda>amount.
     insert_target_based \<lparr>tb_id = 0, tb_potId = potId, tb_destinationAccount = account, tb_destinationBank = bank,
       tb_destinationAccountName = accountName, tb_targetDate = targetDate, tb_targetAmount = amount,
       tb_fired = False, tb_firedAt = None\<rparr>))"
| "insertPayoutConfig w potId (pair_manual account bank) =
     (case (account, bank) of
        (Some a, Some b) \<Rightarrow>
          bnd (verifyAccountDetails w a b) (\<lambda>accountName.
          insert_manual \<lparr>mc_id = 0, mc_potId = potId, mc_destinationAccount = Some a, mc_destinationBank = Some b,
            mc_destinationAccountName = Some accountName\<rparr>)
      | _ \<Rightarrow> ret ())"
| "insertPayoutConfig w potId (pair_recurring account bank amount intervalDays nextRunAt) =
     bnd (verifyAccountDetails w account bank) (\<lambda>accountName.
     bnd (from_sum (nairaStringToKobo amount)) (\<lambda>kobo.
     insert_recurring \<lparr>rc_id = 0, rc_potId = potId, rc_destinationAccount = account, rc_destinationBank = bank,
       rc_destinationAccountName = accountName, rc_amount = kobo, rc_intervalDays = intervalDays, rc_nextRunAt = nextRunAt\<rparr>))"
| "insertPayoutConfig w potId (pair_scheduled ordered legs) =
     bnd (map_op (\<lambda>l. bnd (verifyAccountDetails w (sd_destinationAccount l) (sd_destinationBank l)) (\<lambda>n. ret (l, n))) legs) (\<lambda>legsWithNames.
     bnd (insert_scheduled potId (case ordered of None \<Rightarrow> True | Some b \<Rightarrow> b)) (\<lambda>scheduledConfig.
     bnd (map_op (leg_row (sc_id scheduledConfig)) legsWithNames) (\<lambda>rows.
     insert_legs rows)))"

text \<open>Deleting a scheduled config deletes its legs (the foreign key cascades).\<close>

definition drop_scheduled :: "uuid \<Rightarrow> db \<Rightarrow> db" where
  "drop_scheduled potId s =
     (let gone = map sc_id (filter (\<lambda>c. sc_potId c = potId) (scheduledPayoutConfigs s)) in
      s\<lparr>scheduledPayoutConfigs := filter (\<lambda>c. sc_potId c \<noteq> potId) (scheduledPayoutConfigs s),
        scheduledPayoutLegs := filter (\<lambda>l. sl_scheduledConfigId l \<notin> set gone) (scheduledPayoutLegs s)\<rparr>)"

fun drop_config :: "uuid \<Rightarrow> payout_mode \<Rightarrow> db \<Rightarrow> db" where
  "drop_config potId target_based s =
     s\<lparr>targetBasedPayoutConfigs := filter (\<lambda>c. tb_potId c \<noteq> potId) (targetBasedPayoutConfigs s)\<rparr>"
| "drop_config potId manual s =
     s\<lparr>manualPayoutConfigs := filter (\<lambda>c. mc_potId c \<noteq> potId) (manualPayoutConfigs s)\<rparr>"
| "drop_config potId recurring s =
     s\<lparr>recurringPayoutConfigs := filter (\<lambda>c. rc_potId c \<noteq> potId) (recurringPayoutConfigs s)\<rparr>"
| "drop_config potId scheduled s = drop_scheduled potId s"

definition deleteExistingPayoutConfig :: "uuid \<Rightarrow> payout_mode \<Rightarrow> (db, unit) op" where
  "deleteExistingPayoutConfig potId mode = modify (drop_config potId mode)"

datatype PayoutConfigRow =
    row_target_based target_based_config
  | row_manual manual_config
  | row_recurring recurring_config
  | row_scheduled scheduled_config "scheduled_leg list"

fun getPayoutConfig :: "uuid \<Rightarrow> payout_mode \<Rightarrow> db \<Rightarrow> PayoutConfigRow option" where
  "getPayoutConfig potId target_based s = map_option row_target_based (find (\<lambda>c. tb_potId c = potId) (targetBasedPayoutConfigs s))"
| "getPayoutConfig potId manual s = map_option row_manual (find (\<lambda>c. mc_potId c = potId) (manualPayoutConfigs s))"
| "getPayoutConfig potId recurring s = map_option row_recurring (find (\<lambda>c. rc_potId c = potId) (recurringPayoutConfigs s))"
| "getPayoutConfig potId scheduled s =
     map_option (\<lambda>c. row_scheduled c (sort_key sl_sequenceOrder (filter (\<lambda>l. sl_scheduledConfigId l = sc_id c) (scheduledPayoutLegs s))))
       (find (\<lambda>c. sc_potId c = potId) (scheduledPayoutConfigs s))"

end
