(* ===== verification/Pots.thy ===== *)
theory Pots
  imports Members Pot_Config Disburse
begin

text \<open>
  The life of a pot: the operations of \<open>PotsService\<close> in \<open>modules/pots/pots.service.ts\<close> that create, list, edit,
  delete, activate and close it, and the two transaction feeds. Every operation that checks the pot's status and
  then writes leaves a gap between the two, where \<open>e_gap\<close> lets other requests in.
\<close>

section \<open>Creating\<close>

record CreatePotInput =
  np_title :: string
  np_description :: "string option"
  np_potType :: pot_type
  np_payoutMode :: payout_mode
  np_payoutConfig :: payout_config_input
  np_refundType :: refund_type
  np_minContribution :: "string option"
  np_maxContribution :: "string option"
  np_goalAmount :: "string option"

text \<open>\<open>randomBytes(8).toString("base64url")\<close>: eleven characters, the last one padded with two zero bits.\<close>

definition base64url_char :: "nat \<Rightarrow> char" where
  "base64url_char d = ''ABCDEFGHIJKLMNOPQRSTUVWXYZabcdefghijklmnopqrstuvwxyz0123456789-_'' ! d"

fun base64url :: "nat \<Rightarrow> int \<Rightarrow> string" where
  "base64url 0 n = []"
| "base64url (Suc k) n = base64url k (n div 64) @ [base64url_char (nat (n mod 64))]"

definition generateShareSlug :: "env \<Rightarrow> (db, string) op" where
  "generateShareSlug w = bnd (randomUUID w) (\<lambda>n. ret (base64url 11 (int n mod 2 ^ 64 * 4)))"

text \<open>The check constraint \<open>chk_max_ge_min\<close> of the table; an insert under it, the primary key, the unique
  constraint on the share slug and the foreign key of the creator.\<close>

definition max_ge_min :: "pot \<Rightarrow> bool" where
  "max_ge_min p \<longleftrightarrow> (case pot_maxContribution p of None \<Rightarrow> True | Some m \<Rightarrow> pot_minContribution p \<le> m)"

definition check_violation :: error where
  "check_violation = PlainError ''violates check constraint''"

definition insert_pot :: "pot \<Rightarrow> (db, pot) op" where
  "insert_pot p s =
     (if \<not> max_ge_min p then (Inl check_violation, s)
      else if list_ex (\<lambda>q. pot_id q = pot_id p \<or> pot_shareSlug q = pot_shareSlug p) (pots s) then (Inl UniqueViolation, s)
      else if \<not> user_exists (pot_creatorId p) s then (Inl foreign_key_violation, s)
      else (Inr p, s\<lparr>pots := pots s @ [p]\<rparr>))"

definition default_minContribution :: kobo where "default_minContribution = 10000"

definition new_pot :: "env \<Rightarrow> uuid \<Rightarrow> CreatePotInput \<Rightarrow> (db, pot) op" where
  "new_pot w creatorId input =
     bnd (generateShareSlug w) (\<lambda>slug.
     bnd (optional_kobo (np_minContribution input)) (\<lambda>minContribution.
     bnd (optional_kobo (np_maxContribution input)) (\<lambda>maxContribution.
     bnd (optional_kobo (np_goalAmount input)) (\<lambda>goalAmount.
     bnd (randomUUID w) (\<lambda>i.
     insert_pot
       \<lparr>pot_id = i, pot_creatorId = creatorId, pot_title = np_title input, pot_description = np_description input,
        pot_potType = np_potType input, pot_status = draft, pot_payoutMode = np_payoutMode input,
        pot_refundType = np_refundType input, pot_shareSlug = slug,
        pot_minContribution = (case minContribution of None \<Rightarrow> default_minContribution | Some k \<Rightarrow> k),
        pot_maxContribution = maxContribution, pot_goalAmount = goalAmount, pot_pendingOperation = None,
        pot_pendingOperationTransactionId = None, pot_pendingOperationLegCount = None, pot_activatedAt = None,
        pot_closedAt = None, pot_createdAt = e_now w, pot_updatedAt = e_now w\<rparr>)))))"

definition Pots_create :: "env \<Rightarrow> (zod_issue \<Rightarrow> string) \<Rightarrow> uuid \<Rightarrow> CreatePotInput \<Rightarrow> (db, pot) op" where
  "Pots_create w zod_text creatorId input =
     bnd (new_pot w creatorId input) (\<lambda>p.
     bnd (from_sum (validatePayoutModeConfig zod_text (np_payoutMode input) (np_payoutConfig input))) (\<lambda>pair.
     seq (insertPayoutConfig w (pot_id p) pair)
     (bnd (insert_member (pot_id p) creatorId role_admin None) (\<lambda>_. ret p))))"

section \<open>Listing\<close>

datatype scope = scope_public | scope_mine

fun includes_text :: "string \<Rightarrow> string \<Rightarrow> bool" where
  "includes_text [] needle = (needle = [])"
| "includes_text (c # cs) needle = (take (length needle) (c # cs) = needle \<or> includes_text cs needle)"

definition filterByTitle :: "pot list \<Rightarrow> string option \<Rightarrow> pot list" where
  "filterByTitle rows q =
     (let query = (case q of None \<Rightarrow> [] | Some t \<Rightarrow> toLowerCase (js_trim t)) in
      if query = [] then rows else filter (\<lambda>p. includes_text (toLowerCase (pot_title p)) query) rows)"

text \<open>\<open>orderBy(desc(createdAt))\<close>, rows of equal time in table order.\<close>

definition newest_first :: "pot list \<Rightarrow> pot list" where
  "newest_first = sort_key (\<lambda>p. - pot_createdAt p)"

definition my_pot_ids :: "uuid \<Rightarrow> db \<Rightarrow> uuid list" where
  "my_pot_ids userId s = map mb_potId (filter (\<lambda>m. mb_userId m = userId) (potMembers s))"

definition Pots_list :: "uuid option \<Rightarrow> scope option \<Rightarrow> string option \<Rightarrow> (db, pot list) op" where
  "Pots_list userId scope q =
     (if scope = Some scope_mine
      then case userId of
             None \<Rightarrow> throw (PotError ''Authentication required'' 401)
           | Some u \<Rightarrow> bnd (gets (my_pot_ids u)) (\<lambda>myPotIds.
               bnd (gets (\<lambda>s. newest_first (filter (\<lambda>p. pot_id p \<in> set myPotIds) (pots s)))) (\<lambda>myPots.
               ret (filterByTitle myPots q)))
      else bnd (gets (\<lambda>s. newest_first (filter (\<lambda>p. pot_potType p = public_pot) (pots s)))) (\<lambda>allPublic.
           case userId of
             None \<Rightarrow> ret (filterByTitle allPublic q)
           | Some u \<Rightarrow>
               if scope = Some scope_public then ret (filterByTitle allPublic q)
               else bnd (gets (my_pot_ids u)) (\<lambda>myPotIds.
                    bnd (gets (\<lambda>s. filter (\<lambda>p. pot_id p \<in> set myPotIds)
                           (newest_first (filter (\<lambda>p. pot_potType p = private_pot) (pots s))))) (\<lambda>privatePotsIAmIn.
                    ret (filterByTitle (newest_first (allPublic @ privatePotsIAmIn)) q)))))"

section \<open>Transaction feeds\<close>

fun dedup_by :: "('r \<Rightarrow> uuid) \<Rightarrow> uuid list \<Rightarrow> 'r list \<Rightarrow> 'r list" where
  "dedup_by key seen [] = []"
| "dedup_by key seen (r # rs) =
     (if key r \<in> set seen then dedup_by key seen rs else r # dedup_by key (key r # seen) rs)"

text \<open>The join of the entries of an account with their transactions.\<close>

definition account_transactions :: "uuid \<Rightarrow> ledger \<Rightarrow> transaction list" where
  "account_transactions accountId l =
     concat (map (\<lambda>e. filter (\<lambda>t. tx_id t = le_transactionId e) (transactions l))
       (filter (\<lambda>e. le_accountId e = accountId) (ledgerEntries l)))"

definition listTransactions :: "uuid \<Rightarrow> (db, transaction list) op" where
  "listTransactions potId =
     bnd (in_ledger (getOrCreatePotAccount potId)) (\<lambda>potAccount.
     bnd (gets (\<lambda>s. sort_key (\<lambda>t. - tx_createdAt t) (account_transactions (acc_id potAccount) (led s)))) (\<lambda>rows.
     ret (dedup_by tx_id [] rows)))"

definition user_feed_rows :: "uuid \<Rightarrow> db \<Rightarrow> (transaction \<times> pot) list" where
  "user_feed_rows userId s =
     concat (map (\<lambda>m. concat (map (\<lambda>p. concat (map (\<lambda>a. map (\<lambda>t. (t, p)) (account_transactions (acc_id a) (led s)))
         (filter (\<lambda>a. acc_ownerType a = pot_owner \<and> acc_ownerId a = Some (pot_id p)) (accounts (led s)))))
       (filter (\<lambda>p. pot_id p = mb_potId m) (pots s))))
     (filter (\<lambda>m. mb_userId m = userId) (potMembers s)))"

definition listTransactionsForUser :: "uuid \<Rightarrow> (db, (transaction \<times> uuid \<times> string) list) op" where
  "listTransactionsForUser userId =
     bnd (gets (\<lambda>s. sort_key (\<lambda>(t, p). - tx_createdAt t) (user_feed_rows userId s))) (\<lambda>rows.
     ret (map (\<lambda>(t, p). (t, pot_id p, pot_title p)) (dedup_by (tx_id \<circ> fst) [] rows)))"

section \<open>Editing and deleting a draft\<close>

record UpdatePotInput =
  up_title :: "string option"
  up_description :: "string option"
  up_potType :: "pot_type option"
  up_refundType :: "refund_type option"
  up_minContribution :: "string option"
  up_maxContribution :: "string option"
  up_goalAmount :: "string option"
  up_payoutMode :: "payout_mode option"
  up_payoutConfig :: "payout_config_input option"

text \<open>\<open>update pots set ... where id = potId returning\<close>, under the check constraint: the row as it is afterwards, if
  there is one.\<close>

definition update_pot :: "uuid \<Rightarrow> (pot \<Rightarrow> pot) \<Rightarrow> (db, pot option) op" where
  "update_pot potId f s =
     (if list_ex (\<lambda>p. pot_id p = potId \<and> \<not> max_ge_min (f p)) (pots s) then (Inl check_violation, s)
      else let t = s\<lparr>pots := update_where (\<lambda>p. pot_id p = potId) f (pots s)\<rparr> in (Inr (find_pot potId t), t))"

definition set_payoutMode :: "payout_mode \<Rightarrow> pot \<Rightarrow> pot" where
  "set_payoutMode mode p = p\<lparr>pot_payoutMode := mode\<rparr>"

definition set_fields :: "time \<Rightarrow> UpdatePotInput \<Rightarrow> kobo option \<Rightarrow> kobo option \<Rightarrow> kobo option \<Rightarrow> pot \<Rightarrow> pot" where
  "set_fields now input minContribution maxContribution goalAmount p =
     p\<lparr>pot_title := (case up_title input of None \<Rightarrow> pot_title p | Some t \<Rightarrow> t),
       pot_description := (case up_description input of None \<Rightarrow> pot_description p | Some t \<Rightarrow> Some t),
       pot_potType := (case up_potType input of None \<Rightarrow> pot_potType p | Some t \<Rightarrow> t),
       pot_refundType := (case up_refundType input of None \<Rightarrow> pot_refundType p | Some t \<Rightarrow> t),
       pot_minContribution := (case minContribution of None \<Rightarrow> pot_minContribution p | Some k \<Rightarrow> k),
       pot_maxContribution := (case maxContribution of None \<Rightarrow> pot_maxContribution p | Some k \<Rightarrow> Some k),
       pot_goalAmount := (case goalAmount of None \<Rightarrow> pot_goalAmount p | Some k \<Rightarrow> Some k),
       pot_updatedAt := now\<rparr>"

definition replace_config :: "env \<Rightarrow> (zod_issue \<Rightarrow> string) \<Rightarrow> pot \<Rightarrow> UpdatePotInput \<Rightarrow> (db, unit) op" where
  "replace_config w zod_text p input =
     (case up_payoutConfig input of
        Some config \<Rightarrow>
          bnd (from_sum (validatePayoutModeConfig zod_text
                 (case up_payoutMode input of Some m \<Rightarrow> m | None \<Rightarrow> pot_payoutMode p) config)) (\<lambda>pair.
          seq (deleteExistingPayoutConfig (pot_id p) (pot_payoutMode p))
          (seq (insertPayoutConfig w (pot_id p) pair)
          (when_op (pair_mode pair \<noteq> pot_payoutMode p)
             (bnd (update_pot (pot_id p) (set_payoutMode (pair_mode pair))) (\<lambda>_. ret ())))))
      | None \<Rightarrow>
          require (case up_payoutMode input of None \<Rightarrow> True | Some m \<Rightarrow> m = pot_payoutMode p)
            (PotError ''payoutConfig is required when changing payoutMode'' 400))"

definition Pots_update :: "env \<Rightarrow> (zod_issue \<Rightarrow> string) \<Rightarrow> uuid \<Rightarrow> uuid \<Rightarrow> UpdatePotInput \<Rightarrow> (db, pot option) op" where
  "Pots_update w zod_text potId userId input =
     seq (assertIsAdmin potId (Some userId))
     (bnd (getPotOrThrow potId) (\<lambda>p.
      seq (require (pot_status p = draft) (PotError ''Only a draft pot can be edited'' 409))
      (seq (in_gap w)
      (seq (replace_config w zod_text p input)
      (bnd (optional_kobo (up_minContribution input)) (\<lambda>minContribution.
       bnd (optional_kobo (up_maxContribution input)) (\<lambda>maxContribution.
       bnd (optional_kobo (up_goalAmount input)) (\<lambda>goalAmount.
       update_pot potId (set_fields (e_now w) input minContribution maxContribution goalAmount)))))))))"

text \<open>Deleting a pot deletes its members, pending members and payout config (cascades); a contribution's
  reference to it has no cascade, so the database refuses while there is one.\<close>

definition delete_pot :: "uuid \<Rightarrow> (db, unit) op" where
  "delete_pot potId s =
     (if list_ex (\<lambda>c. c_potId c = potId) (contributions s)
      then (Inl foreign_key_violation, s)
      else (Inr (), foldr (drop_config potId) [target_based, manual, recurring, scheduled]
              (s\<lparr>pots := filter (\<lambda>p. pot_id p \<noteq> potId) (pots s),
                 potMembers := filter (\<lambda>m. mb_potId m \<noteq> potId) (potMembers s),
                 potPendingMembers := filter (\<lambda>r. pm_potId r \<noteq> potId) (potPendingMembers s)\<rparr>)))"

definition deleteDraft :: "env \<Rightarrow> uuid \<Rightarrow> uuid \<Rightarrow> (db, unit) op" where
  "deleteDraft w potId userId =
     seq (assertIsAdmin potId (Some userId))
     (bnd (getPotOrThrow potId) (\<lambda>p.
      seq (require (pot_status p = draft) (PotError ''Only a draft pot can be deleted'' 409))
      (seq (in_gap w) (delete_pot potId))))"

section \<open>Opening and closing\<close>

definition set_open :: "time \<Rightarrow> pot \<Rightarrow> pot" where
  "set_open now p = p\<lparr>pot_status := pot_open, pot_activatedAt := Some now, pot_updatedAt := now\<rparr>"

definition set_closed :: "time \<Rightarrow> pot \<Rightarrow> pot" where
  "set_closed now p = p\<lparr>pot_status := pot_closed, pot_closedAt := Some now, pot_updatedAt := now\<rparr>"

definition activate :: "env \<Rightarrow> uuid \<Rightarrow> uuid \<Rightarrow> (db, pot option) op" where
  "activate w potId userId =
     seq (assertIsAdmin potId (Some userId))
     (bnd (getPotOrThrow potId) (\<lambda>p.
      seq (require (pot_status p = draft) (PotError ''Pot is not in draft status'' 409))
      (seq (in_gap w) (update_pot potId (set_open (e_now w))))))"

definition still_in_flight :: error where
  "still_in_flight = PotError ''A payout or refund is still in flight for this pot. Wait for it to resolve before closing'' 409"

text \<open>\<open>update ... where id = potId and pending_operation is null returning\<close>: the updated row, if the condition held.\<close>

definition close_unlocked :: "time \<Rightarrow> uuid \<Rightarrow> (db, pot option) op" where
  "close_unlocked now potId s =
     (let P = (\<lambda>p. pot_id p = potId \<and> pot_pendingOperation p = None) in
      (Inr (map_option (set_closed now) (find P (pots s))), s\<lparr>pots := update_where P (set_closed now) (pots s)\<rparr>))"

definition close :: "env \<Rightarrow> uuid \<Rightarrow> uuid \<Rightarrow> (db, pot) op" where
  "close w potId userId =
     seq (assertIsAdmin potId (Some userId))
     (bnd (getPotOrThrow potId) (\<lambda>p.
      seq (require (pot_status p = pot_open) (PotError ''Only an open pot can be closed'' 409))
      (seq (require (pot_pendingOperation p = None) still_in_flight)
      (bnd (pot_balance potId) (\<lambda>balance.
       seq (require (balance = 0) (PotError ''Pot balance must be zero before it can be closed'' 409))
       (seq (in_gap w)
       (bnd (close_unlocked (e_now w) potId) (\<lambda>updated.
        case updated of None \<Rightarrow> throw still_in_flight | Some q \<Rightarrow> ret q))))))))"

end
