(* ===== verification/Http_Errors.thy ===== *)
theory Http_Errors
  imports Money
begin

text \<open>
  How a thrown error becomes an HTTP response: \<open>lib/http-errors.ts\<close>, with the status codes and messages of the
  error classes (\<open>pots.errors.ts\<close>, \<open>auth.errors.ts\<close>, \<open>ledger.errors.ts\<close>, the three idempotency errors,
  \<open>AccountVerificationError\<close>). The sets and maps of the source are kept in insertion order.
\<close>

section \<open>Responses\<close>

text \<open>A response with its body, or an error response with its message and its \<open>Retry-After\<close> header.\<close>

datatype 'b http = answered nat 'b | refused nat string "int option"

text \<open>\<open>isSafeError\<close>: the domain errors, with the status code and message each class carries.\<close>

fun safe_error :: "error \<Rightarrow> (nat \<times> string) option" where
  "safe_error (PotError m c) = Some (c, m)"
| "safe_error (LedgerError m c) = Some (c, m)"
| "safe_error UnbalancedTransactionError = Some (400, ''Transaction entries are not balanced: debits must equal credits'')"
| "safe_error (DuplicateTransactionReferenceError r) = Some (409, ''A transaction with this reference already exists'')"
| "safe_error (InsufficientBalanceError a) = Some (409, ''This account does not have sufficient balance for this operation'')"
| "safe_error (AuthError m c) = Some (c, m)"
| "safe_error (RateLimitError m r) = Some (429, m)"
| "safe_error IdempotencyKeyReuseError = Some (409, ''Idempotency-Key was already used for a different request'')"
| "safe_error IdempotencyInProgressError = Some (409, ''A request with this Idempotency-Key is already in progress, retry shortly'')"
| "safe_error IdempotencyIndeterminateError =
     Some (409, ''A previous request with this Idempotency-Key failed in an indeterminate state and cannot be safely retried automatically. Contact support'')"
| "safe_error AccountVerificationError = Some (400, ''Could not verify account details with the bank'')"
| "safe_error _ = None"

fun retry_after :: "error \<Rightarrow> int option" where
  "retry_after (RateLimitError m r) = Some r"
| "retry_after _ = None"

definition sendErrorResponse :: "error \<Rightarrow> 'b http" where
  "sendErrorResponse e =
     (case safe_error e of
        Some (code, message) \<Rightarrow> refused code message (retry_after e)
      | None \<Rightarrow>
          (case e of
             NombaApiError _ _ \<Rightarrow> refused 502 ''We couldn't reach our payments provider. Please try again shortly.'' None
           | _ \<Rightarrow> refused 500 ''Something went wrong. Please try again.'' None))"

text \<open>A controller's \<open>try ... catch (e) { return sendErrorResponse(e) }\<close>.\<close>

definition respond :: "('s, 'b http) op \<Rightarrow> ('s, 'b http) op" where
  "respond m = catch_op m (\<lambda>e. ret (sendErrorResponse e))"

lemma respond_run: "respond m s = (case m s of (Inl e, t) \<Rightarrow> (Inr (sendErrorResponse e), t) | (Inr r, t) \<Rightarrow> (Inr r, t))"
  by (simp add: respond_def catch_op_def ret_def split: prod.split sum.split)

lemma snd_respond [simp]: "snd (respond m s) = snd (m s)"
  by (simp add: respond_run split: prod.split sum.split)

lemma preserves_respond [preserves_intros]: "preserves I m \<Longrightarrow> preserves I (respond m)"
  by (simp add: preserves_def)

text \<open>The text of an error from Nomba, the database or a bug is never sent.\<close>

lemma unsafe_text_withheld:
  "safe_error e = None \<Longrightarrow>
   (sendErrorResponse e :: 'b http) \<in> {refused 502 ''We couldn't reach our payments provider. Please try again shortly.'' None,
     refused 500 ''Something went wrong. Please try again.'' None}"
  by (cases e) (simp_all add: sendErrorResponse_def)

section \<open>Schema errors\<close>

record ajv_error =
  ae_keyword :: string
  ae_instancePath :: string
  ae_missingProperty :: "string option"
  ae_message :: "string option"

definition FIELD_LABEL_OVERRIDES :: "(string \<times> string) list" where
  "FIELD_LABEL_OVERRIDES =
     [(''minContribution'', ''minimum contribution''), (''maxContribution'', ''maximum contribution''),
      (''goalAmount'', ''goal amount''), (''targetAmount'', ''target amount''),
      (''destinationAccount'', ''destination account number''), (''destinationBank'', ''destination bank'')]"

definition is_upper :: "char \<Rightarrow> bool" where
  "is_upper c \<longleftrightarrow> (let n = of_char c :: nat in 65 \<le> n \<and> n \<le> 90)"

definition is_lower_or_digit :: "char \<Rightarrow> bool" where
  "is_lower_or_digit c \<longleftrightarrow> is_digit c \<or> (let n = of_char c :: nat in 97 \<le> n \<and> n \<le> 122)"

text \<open>\<open>/([a-z0-9])([A-Z])/g\<close> to \<open>"$1 $2"\<close>; two matches never share a character.\<close>

fun split_words :: "string \<Rightarrow> string" where
  "split_words (c # d # cs) =
     (if is_lower_or_digit c \<and> is_upper d then c # CHR '' '' # d # split_words cs else c # split_words (d # cs))"
| "split_words cs = cs"

definition lower_ascii :: "char \<Rightarrow> char" where
  "lower_ascii c = (if is_upper c then char_of ((of_char c :: nat) + 32) else c)"

definition humanizeFieldName :: "string \<Rightarrow> string" where
  "humanizeFieldName field = map lower_ascii (split_words field)"

fun split_slash :: "string \<Rightarrow> string list" where
  "split_slash [] = [[]]"
| "split_slash (c # cs) =
     (if c = CHR ''/'' then [] # split_slash cs
      else (case split_slash cs of p # ps \<Rightarrow> (c # p) # ps | [] \<Rightarrow> [[c]]))"

fun join_with :: "string \<Rightarrow> string list \<Rightarrow> string" where
  "join_with sep [] = []"
| "join_with sep [t] = t"
| "join_with sep (t # ts) = t @ sep @ join_with sep ts"

definition fieldNameFromInstancePath :: "string \<Rightarrow> string" where
  "fieldNameFromInstancePath path =
     join_with ''.'' (tl (split_slash (case path of c # cs \<Rightarrow> if c = CHR ''/'' then cs else path | [] \<Rightarrow> [])))"

definition NOISE_KEYWORDS :: "string list" where
  "NOISE_KEYWORDS = [''anyOf'', ''oneOf'', ''const'']"

definition field_label :: "string \<Rightarrow> ajv_error \<Rightarrow> string" where
  "field_label dataVar err =
     (let rawField = (if ae_keyword err = ''required''
                      then (case ae_missingProperty err of Some p \<Rightarrow> p | None \<Rightarrow> [])
                      else fieldNameFromInstancePath (ae_instancePath err))
      in case map_of FIELD_LABEL_OVERRIDES rawField of
           Some l \<Rightarrow> l
         | None \<Rightarrow> if rawField = [] then dataVar else humanizeFieldName rawField)"

definition schema_sentence :: "string \<Rightarrow> ajv_error \<Rightarrow> string" where
  "schema_sentence dataVar err =
     (let field = field_label dataVar err; k = ae_keyword err in
      if k = ''required'' then field @ '' is required''
      else if k = ''type'' then field @ '' has the wrong type''
      else if k \<in> {''pattern'', ''format''} then field @ '' is not in a valid format''
      else if k \<in> {''minimum'', ''exclusiveMinimum'', ''maximum'', ''exclusiveMaximum''} then field @ '' is out of the allowed range''
      else if k = ''enum'' then field @ '' is not one of the allowed values''
      else field @ '': '' @ (case ae_message err of Some m \<Rightarrow> m | None \<Rightarrow> ''is invalid''))"

text \<open>A \<open>Set\<close> iterates in the order its elements were first added.\<close>

definition add_sentence :: "string list \<Rightarrow> string \<Rightarrow> string list" where
  "add_sentence sentences t = (if t \<in> set sentences then sentences else sentences @ [t])"

definition schema_sentences :: "ajv_error list \<Rightarrow> string \<Rightarrow> string list" where
  "schema_sentences errors dataVar =
     foldl (\<lambda>sentences err. if ae_keyword err \<in> set NOISE_KEYWORDS then sentences else add_sentence sentences (schema_sentence dataVar err)) [] errors"

definition formatSchemaErrors :: "ajv_error list \<Rightarrow> string \<Rightarrow> string" where
  "formatSchemaErrors errors dataVar =
     (let sentences = schema_sentences errors dataVar in
      if sentences = [] then dataVar @ '' does not match the expected shape'' else join_with ''; '' sentences)"

text \<open>Each sentence is there once, and for every error that is not noise.\<close>

lemma schema_sentences_snoc:
  "schema_sentences (errors @ [err]) dataVar =
   (if ae_keyword err \<in> set NOISE_KEYWORDS then schema_sentences errors dataVar
    else add_sentence (schema_sentences errors dataVar) (schema_sentence dataVar err))"
  by (simp add: schema_sentences_def)

lemma schema_sentences_distinct: "distinct (schema_sentences errors dataVar)"
proof (induction errors rule: rev_induct)
  case (snoc err errors)
  then show ?case by (simp add: schema_sentences_snoc add_sentence_def)
qed (simp add: schema_sentences_def)

lemma schema_sentences_set:
  "set (schema_sentences errors dataVar) = schema_sentence dataVar ` {err \<in> set errors. ae_keyword err \<notin> set NOISE_KEYWORDS}"
proof (induction errors rule: rev_induct)
  case (snoc err errors)
  have "{x \<in> set (errors @ [err]). ae_keyword x \<notin> set NOISE_KEYWORDS} =
      (if ae_keyword err \<in> set NOISE_KEYWORDS then {} else {err}) \<union> {x \<in> set errors. ae_keyword x \<notin> set NOISE_KEYWORDS}"
    by auto
  then show ?case using snoc by (auto simp: schema_sentences_snoc add_sentence_def)
qed (simp add: schema_sentences_def)

lemma humanized_example: "humanizeFieldName ''minContribution2A'' = ''min contribution2 a''"
  by code_simp

end
