(* ===== verification/Pots_Controller.thy ===== *)
theory Pots_Controller
  imports Pots Http_Errors Contributions Action_Otp_Laws
begin

text \<open>
  \<open>modules/pots/pots.controller.ts\<close>: every handler of the pots API, from the authenticated user to the response.
  A handler takes the caller's user id (none for an anonymous caller), what it reads of the request, and answers
  through \<open>respond\<close>. What the response's body keeps is its typed content; the text Fastify makes of it is not
  modelled, except for a contribution, whose stored text is the parameter \<open>json_text\<close>.
\<close>

section \<open>Serialisation\<close>

definition displayNameFor :: "metadata option \<Rightarrow> string option" where
  "displayNameFor md =
     (case md of
        None \<Rightarrow> None
      | Some m \<Rightarrow>
          if md_anonymous m = Some True then None
          else case md_senderName m of
                 Some n \<Rightarrow> Some n
               | None \<Rightarrow> md_destinationAccountName m)"

definition pad_digits :: "nat \<Rightarrow> int \<Rightarrow> string" where
  "pad_digits k n = padStart k CHR ''0'' (show_int n)"

text \<open>\<open>toISOString\<close> of a time in the years 0 to 9999.\<close>

definition toISOString :: "time \<Rightarrow> string" where
  "toISOString t =
     (let secs = t div 1000; (y, m, d) = utc_date (secs div 86400); r = secs mod 86400 in
      pad_digits 4 y @ ''-'' @ pad2 m @ ''-'' @ pad2 d @ ''T'' @
      pad2 (r div 3600) @ '':'' @ pad2 (r mod 3600 div 60) @ '':'' @ pad2 (r mod 60) @ ''.'' @ pad_digits 3 (t mod 1000) @ ''Z'')"

record leg_view =
  lv_destinationAccount :: string
  lv_destinationBank :: string
  lv_destinationAccountName :: string
  lv_sequenceOrder :: int
  lv_amount :: string
  lv_scheduledDate :: string
  lv_fired :: bool

datatype config_view =
    view_target_based string string string "string option" "string option" bool
  | view_manual "string option" "string option" "string option"
  | view_recurring string string string string int string
  | view_scheduled bool "leg_view list"

fun serializePayoutConfig :: "PayoutConfigRow \<Rightarrow> config_view" where
  "serializePayoutConfig (row_target_based c) =
     view_target_based (tb_destinationAccount c) (tb_destinationBank c) (tb_destinationAccountName c)
       (map_option toISOString (tb_targetDate c)) (map_option koboToNairaString (tb_targetAmount c)) (tb_fired c)"
| "serializePayoutConfig (row_manual c) =
     view_manual (mc_destinationAccount c) (mc_destinationBank c) (mc_destinationAccountName c)"
| "serializePayoutConfig (row_recurring c) =
     view_recurring (rc_destinationAccount c) (rc_destinationBank c) (rc_destinationAccountName c)
       (koboToNairaString (rc_amount c)) (rc_intervalDays c) (toISOString (rc_nextRunAt c))"
| "serializePayoutConfig (row_scheduled c legs) =
     view_scheduled (sc_ordered c)
       (map (\<lambda>l. \<lparr>lv_destinationAccount = sl_destinationAccount l, lv_destinationBank = sl_destinationBank l,
          lv_destinationAccountName = sl_destinationAccountName l, lv_sequenceOrder = sl_sequenceOrder l,
          lv_amount = koboToNairaString (sl_amount l), lv_scheduledDate = toISOString (sl_scheduledDate l),
          lv_fired = sl_fired l\<rparr>) legs)"

text \<open>The pot's own fields, and those the handler converts or adds.\<close>

record pot_view =
  pv_pot :: pot
  pv_minContribution :: string
  pv_maxContribution :: "string option"
  pv_goalAmount :: "string option"
  pv_balance :: string
  pv_payoutConfig :: "config_view option"

definition serializePot :: "pot \<Rightarrow> (db, pot_view) op" where
  "serializePot p =
     bnd (pot_balance (pot_id p)) (\<lambda>balance.
     bnd (gets (getPayoutConfig (pot_id p) (pot_payoutMode p))) (\<lambda>payoutConfig.
     ret \<lparr>pv_pot = p, pv_minContribution = koboToNairaString (pot_minContribution p),
          pv_maxContribution = map_option koboToNairaString (pot_maxContribution p),
          pv_goalAmount = map_option koboToNairaString (pot_goalAmount p),
          pv_balance = koboToNairaString balance, pv_payoutConfig = map_option serializePayoutConfig payoutConfig\<rparr>))"

section \<open>Reading the request\<close>

definition requireUserId :: "uuid option \<Rightarrow> (db, uuid) op" where
  "requireUserId user = (case user of None \<Rightarrow> throw (PotError ''Authentication required'' 401) | Some u \<Rightarrow> ret u)"

definition requireIdempotencyKey :: "string option \<Rightarrow> (db, string) op" where
  "requireIdempotencyKey header =
     (if truthy header then ret (the header) else throw (PotError ''Idempotency-Key header is required'' 400))"

text \<open>An update of a pot that is no longer there returns no row, and the handler fails on it.\<close>

definition answer_pot :: "nat \<Rightarrow> pot option \<Rightarrow> (db, pot_view http) op" where
  "answer_pot code updated =
     (case updated of
        None \<Rightarrow> throw (PlainError ''TypeError'')
      | Some p \<Rightarrow> bnd (serializePot p) (\<lambda>v. ret (answered code v)))"

section \<open>Pots\<close>

definition createPotHandler :: "env \<Rightarrow> (zod_issue \<Rightarrow> string) \<Rightarrow> uuid option \<Rightarrow> CreatePotInput \<Rightarrow> (db, pot_view http) op" where
  "createPotHandler w zod_text user body =
     respond (bnd (requireUserId user) (\<lambda>userId.
              bnd (Pots_create w zod_text userId body) (\<lambda>p.
              answer_pot 201 (Some p))))"

definition listPotsHandler :: "uuid option \<Rightarrow> scope option \<Rightarrow> string option \<Rightarrow> (db, pot_view list http) op" where
  "listPotsHandler user scope q =
     respond (bnd (Pots_list user scope q) (\<lambda>ps.
              bnd (map_op serializePot ps) (\<lambda>vs.
              ret (answered 200 vs))))"

definition getPotHandler :: "uuid option \<Rightarrow> uuid \<Rightarrow> (db, pot_view http) op" where
  "getPotHandler user potId =
     respond (bnd (getViewablePotOrThrow potId user) (\<lambda>p. answer_pot 200 (Some p)))"

definition updatePotHandler :: "env \<Rightarrow> (zod_issue \<Rightarrow> string) \<Rightarrow> uuid option \<Rightarrow> uuid \<Rightarrow> UpdatePotInput \<Rightarrow> (db, pot_view http) op" where
  "updatePotHandler w zod_text user potId body =
     respond (bnd (requireUserId user) (\<lambda>userId.
              bnd (Pots_update w zod_text potId userId body) (\<lambda>p.
              answer_pot 200 p)))"

definition deleteDraftPotHandler :: "env \<Rightarrow> uuid option \<Rightarrow> uuid \<Rightarrow> (db, string http) op" where
  "deleteDraftPotHandler w user potId =
     respond (bnd (requireUserId user) (\<lambda>userId.
              seq (deleteDraft w potId userId) (ret (answered 200 ''Pot deleted''))))"

definition activatePotHandler :: "env \<Rightarrow> uuid option \<Rightarrow> uuid \<Rightarrow> (db, pot_view http) op" where
  "activatePotHandler w user potId =
     respond (bnd (requireUserId user) (\<lambda>userId.
              bnd (activate w potId userId) (\<lambda>p. answer_pot 200 p)))"

definition closePotHandler :: "env \<Rightarrow> uuid option \<Rightarrow> uuid \<Rightarrow> (db, pot_view http) op" where
  "closePotHandler w user potId =
     respond (bnd (requireUserId user) (\<lambda>userId.
              bnd (close w potId userId) (\<lambda>p. answer_pot 200 (Some p))))"

section \<open>Payouts and refunds\<close>

text \<open>The body of a payout request, in the order the client sent its fields; every field is a string. Its hash
  takes the text \<open>JSON.stringify\<close> gives.\<close>

type_synonym body = "(string \<times> string) list"

definition body_field :: "string \<Rightarrow> body \<Rightarrow> string option" where
  "body_field k body = map_of body k"

definition object_text :: "(string \<times> string) list \<Rightarrow> string" where
  "object_text kts = CHR 0x7B # join_comma (map (\<lambda>(k, t). json_quote k @ '':'' @ t) kts) @ [CHR 0x7D]"

definition body_text :: "body \<Rightarrow> string" where
  "body_text body = object_text (map (\<lambda>(k, v). (k, json_quote v)) body)"

definition hashRequest :: "(string \<Rightarrow> string) \<Rightarrow> string \<Rightarrow> uuid option \<Rightarrow> string option \<Rightarrow> string" where
  "hashRequest sha path user bodyText =
     sha (object_text ([(''method'', json_quote ''POST''), (''path'', json_quote path)] @
       (case user of None \<Rightarrow> [] | Some u \<Rightarrow> [(''userId'', json_quote (uuid_text u))]) @
       (case bodyText of None \<Rightarrow> [] | Some t \<Rightarrow> [(''body'', t)])))"

definition requestPayoutOtpHandler ::
  "env \<Rightarrow> (string \<Rightarrow> string) \<Rightarrow> (string \<Rightarrow> string) \<Rightarrow> uuid option \<Rightarrow> uuid \<Rightarrow> body \<Rightarrow> (db, string http) op" where
  "requestPayoutOtpHandler w sha collate user potId body =
     respond (bnd (requireUserId user) (\<lambda>userId.
              seq (assertIsAdmin potId (Some userId))
              (seq (request w sha collate userId trigger_payout potId (flat body))
              (ret (answered 200 ''Confirmation code sent'')))))"

text \<open>What runs under the idempotency key.\<close>

definition body_destination :: "body \<Rightarrow> destination option" where
  "body_destination body =
     (if truthy (body_field ''destinationAccount'' body) \<and> truthy (body_field ''destinationBank'' body)
      then Some \<lparr>de_account = the (body_field ''destinationAccount'' body), de_bank = the (body_field ''destinationBank'' body)\<rparr>
      else None)"

definition otp_context :: "body \<Rightarrow> body" where
  "otp_context body = filter (\<lambda>(k, v). k \<noteq> ''otpCode'') body"

definition confirmed_payout ::
  "env \<Rightarrow> (string \<Rightarrow> string) \<Rightarrow> (string \<Rightarrow> string) \<Rightarrow> uuid \<Rightarrow> uuid \<Rightarrow> string \<Rightarrow> body \<Rightarrow> (db, response) op" where
  "confirmed_payout w sha collate userId potId key body =
     seq (verify w sha collate userId trigger_payout potId (flat (otp_context body)) (the (body_field ''otpCode'' body)) (Some key))
     (bnd (optional_kobo (body_field ''amount'' body)) (\<lambda>amount.
      seq (triggerPayout w potId userId (body_destination body) amount)
      (ret (202, []))))"

definition triggerPayoutHandler ::
  "env \<Rightarrow> (string \<Rightarrow> string) \<Rightarrow> (string \<Rightarrow> string) \<Rightarrow> string \<Rightarrow> uuid option \<Rightarrow> string option \<Rightarrow> uuid \<Rightarrow> body \<Rightarrow> (db, string http) op" where
  "triggerPayoutHandler w sha collate url user header potId body =
     respond (bnd (requireUserId user) (\<lambda>userId.
              seq (assertIsAdmin potId (Some userId))
              (bnd (requireIdempotencyKey header) (\<lambda>key.
               bnd (withIdempotencyKey w key (hashRequest sha url (Some userId) (Some (body_text body)))
                      (confirmed_payout w sha collate userId potId key body)) (\<lambda>(statusCode, _).
               ret (answered statusCode []))))))"

definition requestRefundOtpHandler ::
  "env \<Rightarrow> (string \<Rightarrow> string) \<Rightarrow> (string \<Rightarrow> string) \<Rightarrow> uuid option \<Rightarrow> uuid \<Rightarrow> (db, string http) op" where
  "requestRefundOtpHandler w sha collate user potId =
     respond (bnd (requireUserId user) (\<lambda>userId.
              seq (assertIsAdmin potId (Some userId))
              (seq (request w sha collate userId trigger_refund potId JNull)
              (ret (answered 200 ''Confirmation code sent'')))))"

definition triggerRefundHandler ::
  "env \<Rightarrow> (string \<Rightarrow> string) \<Rightarrow> (string \<Rightarrow> string) \<Rightarrow> string \<Rightarrow> uuid option \<Rightarrow> string option \<Rightarrow> uuid \<Rightarrow> string \<Rightarrow> (db, string http) op" where
  "triggerRefundHandler w sha collate url user header potId otpCode =
     respond (bnd (requireUserId user) (\<lambda>userId.
              seq (assertIsAdmin potId (Some userId))
              (bnd (requireIdempotencyKey header) (\<lambda>key.
               bnd (withIdempotencyKey w key (hashRequest sha url (Some userId) None)
                      (seq (verify w sha collate userId trigger_refund potId JNull otpCode (Some key))
                      (seq (triggerRefund w potId userId) (ret (202, []))))) (\<lambda>(statusCode, _).
               ret (answered statusCode []))))))"

definition contributeHandler ::
  "env \<Rightarrow> (string \<Rightarrow> string) \<Rightarrow> (contribution \<times> string \<times> string \<Rightarrow> string) \<Rightarrow> string \<Rightarrow> uuid option \<Rightarrow> string option \<Rightarrow> uuid \<Rightarrow>
   ContributeInput \<Rightarrow> string \<Rightarrow> (db, string http) op" where
  "contributeHandler w sha json_text url user header potId input bodyText =
     respond (bnd (requireIdempotencyKey header) (\<lambda>key.
              bnd (withIdempotencyKey w key (hashRequest sha url user (Some bodyText))
                     (bnd (create w potId user input) (\<lambda>c.
                      ret (201, json_text (c, koboToNairaString (c_expectedAmount c), koboToNairaString (c_intendedAmount c)))))) (\<lambda>(statusCode, content).
              ret (answered statusCode content))))"

definition listTransactionsHandler :: "uuid option \<Rightarrow> uuid \<Rightarrow> (db, (transaction \<times> string \<times> string option) list http) op" where
  "listTransactionsHandler user potId =
     respond (seq (bnd (getViewablePotOrThrow potId user) (\<lambda>_. ret ()))
             (bnd (listTransactions potId) (\<lambda>ts.
              ret (answered 200 (map (\<lambda>t. (t, koboToNairaString (tx_amount t), displayNameFor (tx_metadata t))) ts)))))"

text \<open>\<open>modules/me/me.controller.ts\<close>\<close>

definition listMyTransactionsHandler :: "uuid \<Rightarrow> (db, (transaction \<times> uuid \<times> string \<times> string \<times> string option) list http) op" where
  "listMyTransactionsHandler userId =
     respond (bnd (listTransactionsForUser userId) (\<lambda>ts.
              ret (answered 200 (map (\<lambda>(t, i, title). (t, i, title, koboToNairaString (tx_amount t), displayNameFor (tx_metadata t))) ts))))"

section \<open>Members\<close>

definition listMembersHandler :: "uuid option \<Rightarrow> uuid \<Rightarrow> (db, (pot_member \<times> user) list http) op" where
  "listMembersHandler user potId =
     respond (bnd (getViewablePotOrThrow potId user) (\<lambda>_.
              bnd (PotMembers_list potId) (\<lambda>members. ret (answered 200 members))))"

definition addMemberHandler :: "env \<Rightarrow> string \<Rightarrow> uuid option \<Rightarrow> uuid \<Rightarrow> AddMemberInput \<Rightarrow> (db, added http) op" where
  "addMemberHandler w web_origin user potId body =
     respond (bnd (requireUserId user) (\<lambda>userId.
              seq (assertIsAdmin potId (Some userId))
              (bnd (PendingMembers_create w web_origin potId userId body) (\<lambda>result. ret (answered 201 result)))))"

definition listPendingMembersHandler :: "uuid option \<Rightarrow> uuid \<Rightarrow> (db, pending_member list http) op" where
  "listPendingMembersHandler user potId =
     respond (bnd (requireUserId user) (\<lambda>userId.
              seq (assertIsAdmin potId (Some userId))
              (bnd (PendingMembers_list potId) (\<lambda>pending. ret (answered 200 pending)))))"

definition removePendingMemberHandler :: "uuid option \<Rightarrow> uuid \<Rightarrow> uuid \<Rightarrow> (db, string http) op" where
  "removePendingMemberHandler user potId pendingId =
     respond (bnd (requireUserId user) (\<lambda>userId.
              seq (assertIsAdmin potId (Some userId))
              (seq (PendingMembers_remove potId pendingId) (ret (answered 200 ''Pending member removed'')))))"

definition updateMemberRoleHandler ::
  "env \<Rightarrow> uuid option \<Rightarrow> uuid \<Rightarrow> uuid \<Rightarrow> role \<Rightarrow> (db, (pot_member \<times> user) option http) op" where
  "updateMemberRoleHandler w user potId targetUserId role =
     respond (bnd (requireUserId user) (\<lambda>userId.
              seq (assertIsAdmin potId (Some userId))
              (bnd (updateRole w potId targetUserId role) (\<lambda>member. ret (answered 200 member)))))"

definition removeMemberHandler :: "env \<Rightarrow> uuid option \<Rightarrow> uuid \<Rightarrow> uuid \<Rightarrow> (db, string http) op" where
  "removeMemberHandler w user potId targetUserId =
     respond (bnd (requireUserId user) (\<lambda>userId.
              seq (assertIsAdmin potId (Some userId))
              (seq (PotMembers_remove w potId targetUserId None) (ret (answered 200 ''Member removed'')))))"

definition leavePotHandler :: "env \<Rightarrow> uuid option \<Rightarrow> uuid \<Rightarrow> (db, string http) op" where
  "leavePotHandler w user potId =
     respond (bnd (requireUserId user) (\<lambda>userId.
              seq (leave w potId userId) (ret (answered 200 ''Left pot''))))"

end
