(* ===== verification/Members_Laws.thy ===== *)
theory Members_Laws
  imports Members
begin

text \<open>
  What holds of a pot's members. Every operation of \<open>Members\<close> keeps: no user twice in a pot, and an admin in every
  pot that has a member or a pending member. The check that another admin stays is not one statement with the
  write: an example shows two leaving admins emptying a pot.
\<close>

section \<open>The invariant\<close>

definition unique_members :: "db \<Rightarrow> bool" where
  "unique_members s \<longleftrightarrow> distinct (map (\<lambda>m. (mb_potId m, mb_userId m)) (potMembers s))"

definition has_admin :: "db \<Rightarrow> uuid \<Rightarrow> bool" where
  "has_admin s q \<longleftrightarrow> 0 < countAdmins q s"

text \<open>The third part follows a set of pots that are to keep an admin whether they have other members or not.\<close>

definition administered :: "uuid set \<Rightarrow> db \<Rightarrow> bool" where
  "administered A s \<longleftrightarrow> unique_members s \<and> (\<forall>m\<in>set (potMembers s). has_admin s (mb_potId m)) \<and>
     (\<forall>r\<in>set (potPendingMembers s). pm_status r = pm_pending \<longrightarrow> has_admin s (pm_potId r)) \<and>
     (\<forall>i\<in>A. has_admin s i)"

lemma has_admin_iff: "has_admin s q \<longleftrightarrow> (\<exists>m\<in>set (potMembers s). mb_potId m = q \<and> mb_role m = role_admin)"
  by (auto simp: has_admin_def countAdmins_def filter_empty_conv)

lemma has_admin_members: "potMembers t = potMembers s \<Longrightarrow> has_admin t q = has_admin s q"
  by (simp add: has_admin_iff)

lemma administered_cong:
  "potMembers t = potMembers s \<Longrightarrow> potPendingMembers t = potPendingMembers s \<Longrightarrow> administered A t = administered A s"
  by (simp add: administered_def unique_members_def has_admin_iff)

lemma role_has_admin: "getMemberRole q u s = Some role_admin \<Longrightarrow> has_admin s q"
  unfolding getMemberRole_def find_member_def has_admin_iff by (auto dest!: find_SomeD)

lemma role_member_row: "getMemberRole q u s = Some r \<Longrightarrow> \<exists>m\<in>set (potMembers s). same_member q u m \<and> mb_role m = r"
  unfolding getMemberRole_def find_member_def same_member_def by (auto dest!: find_SomeD)

lemma role_None: "getMemberRole q u s = None \<Longrightarrow> \<not> list_ex (same_member q u) (potMembers s)"
  unfolding getMemberRole_def find_member_def same_member_def by (auto simp: find_None_iff list_ex_iff)

text \<open>At most one row is the one of a user in a pot, so changing it takes away at most one admin.\<close>

lemma filter_same_member:
  assumes "distinct (map (\<lambda>m. (mb_potId m, mb_userId m)) ms)"
  shows "length (filter (same_member q u) ms) \<le> 1"
  using assms
proof (induction ms)
  case (Cons m ms)
  show ?case
  proof (cases "same_member q u m")
    case True
    have "\<not> same_member q u m'" if "m' \<in> set ms" for m'
    proof
      assume "same_member q u m'"
      then have "(mb_potId m, mb_userId m) = (mb_potId m', mb_userId m')"
        using True by (simp add: same_member_def)
      then show False using Cons.prems that by auto
    qed
    then have "filter (same_member q u) ms = []"
      by (simp add: filter_empty_conv)
    then show ?thesis by simp
  next
    case False
    then show ?thesis using Cons by simp
  qed
qed simp

lemma filter_commute_len: "length (filter P (filter Q xs)) \<le> length (filter P xs)"
  by (induction xs) auto

lemma admins_left:
  assumes "unique_members s"
  shows "countAdmins q s \<le> Suc (length (filter (\<lambda>m. mb_potId m = q \<and> mb_role m = role_admin \<and> \<not> same_member q' u m) (potMembers s)))"
proof -
  let ?A = "\<lambda>m. mb_potId m = q \<and> mb_role m = role_admin"
  have "length (filter ?A (potMembers s)) =
      length (filter (same_member q' u) (filter ?A (potMembers s))) + length (filter (\<lambda>m. \<not> same_member q' u m) (filter ?A (potMembers s)))"
    by (rule sum_length_filter_compl[symmetric])
  moreover have "length (filter (same_member q' u) (filter ?A (potMembers s))) \<le> length (filter (same_member q' u) (potMembers s))"
    by (rule filter_commute_len)
  ultimately show ?thesis
    using filter_same_member[of "potMembers s" q' u] assms
    by (simp add: countAdmins_def unique_members_def filter_filter conj_assoc)
qed

lemma other_admin:
  assumes "unique_members s" and "1 < countAdmins q s"
  shows "\<exists>m\<in>set (potMembers s). mb_potId m = q \<and> mb_role m = role_admin \<and> \<not> same_member q' u m"
proof -
  have "filter (\<lambda>m. mb_potId m = q \<and> mb_role m = role_admin \<and> \<not> same_member q' u m) (potMembers s) \<noteq> []"
    using admins_left[OF assms(1), of q q' u] assms(2) by auto
  then show ?thesis by (auto simp: filter_empty_conv)
qed

section \<open>What each write keeps\<close>

lemma set_role_simps [simp]:
  "mb_potId (set_role r m) = mb_potId m" "mb_userId (set_role r m) = mb_userId m" "mb_role (set_role r m) = r"
  by (simp_all add: set_role_def)

lemma administered_set_role:
  assumes "administered A s" and "getMemberRole q u s = Some cur"
    and "cur = role_admin \<and> role = role_member \<Longrightarrow> 1 < countAdmins q s"
  shows "administered A (s\<lparr>potMembers := update_where (same_member q u) (set_role role) (potMembers s)\<rparr>)"
    (is "administered A ?t")
proof -
  have keys: "map (\<lambda>m. (mb_potId m, mb_userId m)) (potMembers ?t) = map (\<lambda>m. (mb_potId m, mb_userId m)) (potMembers s)"
    by (simp add: map_update_where)
  have "map mb_potId (potMembers ?t) = map mb_potId (potMembers s)"
    by (simp add: map_update_where)
  then have pots: "mb_potId ` set (potMembers ?t) = mb_potId ` set (potMembers s)"
    by (metis set_map)
  obtain row where row: "row \<in> set (potMembers s)" "same_member q u row" "mb_role row = cur"
    using role_member_row[OF assms(2)] by blast
  have admin: "has_admin ?t i" if i: "has_admin s i" for i
  proof -
    obtain m where m: "m \<in> set (potMembers s)" "mb_potId m = i" "mb_role m = role_admin"
      using i by (auto simp: has_admin_iff)
    have "\<exists>n\<in>set (potMembers s). mb_potId n = i \<and> (if same_member q u n then role else mb_role n) = role_admin"
    proof (cases "role = role_admin \<or> \<not> same_member q u m")
      case True
      then show ?thesis using m by (intro bexI[of _ m]) auto
    next
      case False
      then have "role = role_member" "i = q" "mb_role row = role_admin"
        using m row assms(1) by (cases role; auto simp: same_member_def administered_def unique_members_def distinct_map inj_on_def)+
      then have "1 < countAdmins q s" using assms(3) row by simp
      then obtain n where "n \<in> set (potMembers s)" "mb_potId n = q" "mb_role n = role_admin" "\<not> same_member q u n"
        using other_admin assms(1) unfolding administered_def by blast
      then show ?thesis using \<open>i = q\<close> by (intro bexI[of _ n]) auto
    qed
    then obtain n where n: "n \<in> set (potMembers s)" "mb_potId n = i" "(if same_member q u n then role else mb_role n) = role_admin"
      by blast
    have "(if same_member q u n then set_role role n else n) \<in> set (potMembers ?t)"
      using n(1) by (simp add: set_update_where)
    then show ?thesis using n(2,3) unfolding has_admin_iff
      by (intro bexI[of _ "if same_member q u n then set_role role n else n"]) auto
  qed
  show ?thesis
    using assms(1) admin keys pots unfolding administered_def unique_members_def
    by (auto simp: set_update_where)
qed

lemma administered_remove:
  assumes "administered A s" and "1 < countAdmins q s \<or> getMemberRole q u s \<noteq> Some role_admin"
  shows "administered A (s\<lparr>potMembers := filter (\<lambda>m. \<not> same_member q u m) (potMembers s)\<rparr>)" (is "administered A ?t")
proof -
  have row: "getMemberRole q u s = Some (mb_role m)" if "m \<in> set (potMembers s)" "same_member q u m" for m
  proof -
    have "find (\<lambda>n. (mb_potId n, mb_userId n) = (mb_potId m, mb_userId m)) (potMembers s) = Some m"
      using that assms(1) by (intro find_key_SomeI) (auto simp: administered_def unique_members_def)
    then show ?thesis using that by (simp add: getMemberRole_def find_member_def same_member_def)
  qed
  have admin: "has_admin ?t i" if i: "has_admin s i" for i
  proof -
    obtain m where m: "m \<in> set (potMembers s)" "mb_potId m = i" "mb_role m = role_admin"
      using i by (auto simp: has_admin_iff)
    have "\<exists>n\<in>set (potMembers s). mb_potId n = i \<and> mb_role n = role_admin \<and> \<not> same_member q u n"
    proof (cases "same_member q u m")
      case True
      then have "1 < countAdmins q s" "i = q" using row[OF m(1)] m assms(2) by (auto simp: same_member_def)
      then show ?thesis using other_admin[of s q q u] assms(1) by (auto simp: administered_def)
    qed (use m in blast)
    then show ?thesis by (auto simp: has_admin_iff)
  qed
  show ?thesis
    using assms(1) admin unfolding administered_def unique_members_def by (auto simp: distinct_map_filter)
qed

lemma insert_member_Inr:
  "insert_member q u r by' s = (Inr m, t) \<Longrightarrow>
   t = s\<lparr>potMembers := potMembers s @ [m]\<rparr> \<and> mb_potId m = q \<and> mb_userId m = u \<and> mb_role m = r \<and>
   \<not> list_ex (same_member q u) (potMembers s) \<and> member_keys q u by' s"
  by (auto simp: insert_member_def Let_def split: if_splits)

lemma administered_insert:
  assumes "administered A s" and "has_admin s q \<or> r = role_admin"
  shows "administered A (snd (insert_member q u r by' s))"
proof (cases "list_ex (same_member q u) (potMembers s) \<or> \<not> member_keys q u by' s")
  case False
  obtain m where run: "snd (insert_member q u r by' s) = s\<lparr>potMembers := potMembers s @ [m]\<rparr>"
    and m: "mb_potId m = q" "mb_userId m = u" "mb_role m = r"
    using False by (simp add: insert_member_def Let_def)
  have "has_admin (s\<lparr>potMembers := potMembers s @ [m]\<rparr>) i" if "has_admin s i \<or> i = q" for i
    using that assms(2) m by (auto simp: has_admin_iff)
  then show ?thesis
    using assms(1) False m unfolding run administered_def unique_members_def
    by (auto simp: list_ex_iff same_member_def)
qed (auto simp: insert_member_def assms(1))

lemma administered_pending:
  assumes "administered A s" and "\<And>r. r \<in> set rs \<Longrightarrow> pm_status r = pm_pending \<Longrightarrow> has_admin s (pm_potId r)"
  shows "administered A (s\<lparr>potPendingMembers := rs\<rparr>)"
  using assms unfolding administered_def unique_members_def by (simp add: has_admin_iff)

section \<open>Joining on verification\<close>

lemma getMemberRole_insert:
  assumes "insert_member q u r by' s = (Inr m, t)"
  shows "getMemberRole q' v t = (if q' = q \<and> v = u then Some r else getMemberRole q' v s)"
proof -
  note ins = insert_member_Inr[OF assms]
  then have "getMemberRole q u s = None"
    by (auto simp: getMemberRole_def find_member_def find_None_iff list_ex_iff same_member_def)
  then show ?thesis
    using ins by (auto simp: getMemberRole_def find_member_def find_append split: option.splits)
qed

lemma insert_member_absent:
  "getMemberRole q u s = None \<Longrightarrow> member_keys q u by' s \<Longrightarrow> \<exists>m. insert_member q u r by' s = (Inr m, s\<lparr>potMembers := potMembers s @ [m]\<rparr>)"
  using role_None[of q u s] by (auto simp: insert_member_def Let_def)

lemma getMemberRole_members: "potMembers t = potMembers s \<Longrightarrow> getMemberRole q u t = getMemberRole q u s"
  by (simp add: getMemberRole_def find_member_def)

lemma getMemberRole_pending [simp]: "getMemberRole q u (s\<lparr>potPendingMembers := rs\<rparr>) = getMemberRole q u s"
  by (simp add: getMemberRole_def find_member_def)

definition joined :: "env \<Rightarrow> uuid \<Rightarrow> uuid \<Rightarrow> db \<Rightarrow> db" where
  "joined w u i s = s\<lparr>potPendingMembers := update_where (\<lambda>r. pm_id r = i) (set_joined (e_now w) u) (potPendingMembers s)\<rparr>"

lemma getMemberRole_joined [simp]: "getMemberRole q v (joined w u i s) = getMemberRole q v s"
  by (simp add: joined_def)

lemma join_row_run:
  "join_row w u r s =
     (if getMemberRole (pm_potId r) u s = None
      then (case insert_member (pm_potId r) u (pm_role r) (Some (pm_addedByUserId r)) s of
              (Inr m, t) \<Rightarrow> (Inr (), joined w u (pm_id r) t) | (Inl e, t) \<Rightarrow> (Inl e, t))
      else (Inr (), joined w u (pm_id r) s))"
  by (simp add: join_row_def update_pending_def joined_def op_simps split: prod.split sum.split)

lemma member_keys_kept [simp]:
  "member_keys q v by' (joined w u i s) = member_keys q v by' s"
  "member_keys q v by' (s\<lparr>potMembers := ms\<rparr>) = member_keys q v by' s"
  "member_keys q v by' (s\<lparr>potPendingMembers := rs\<rparr>) = member_keys q v by' s"
  by (simp_all add: member_keys_def pot_exists_def user_exists_def joined_def split: option.split)

lemma join_row_Inr:
  assumes "member_keys (pm_potId r) u (Some (pm_addedByUserId r)) s"
  obtains t where "join_row w u r s = (Inr (), t)" and "\<And>q v by'. member_keys q v by' t = member_keys q v by' s"
    and "potPendingMembers t = update_where (\<lambda>x. pm_id x = pm_id r) (set_joined (e_now w) u) (potPendingMembers s)"
    and "\<And>q v. getMemberRole q v t = (if q = pm_potId r \<and> v = u \<and> getMemberRole q v s = None then Some (pm_role r) else getMemberRole q v s)"
proof (cases "getMemberRole (pm_potId r) u s")
  case None
  obtain m where ins: "insert_member (pm_potId r) u (pm_role r) (Some (pm_addedByUserId r)) s = (Inr m, s\<lparr>potMembers := potMembers s @ [m]\<rparr>)"
    using insert_member_absent[OF None assms] by blast
  show thesis
    by (rule that[of "joined w u (pm_id r) (s\<lparr>potMembers := potMembers s @ [m]\<rparr>)"])
      (use None in \<open>auto simp: join_row_run ins joined_def[of w u "pm_id r" "s\<lparr>potMembers := potMembers s @ [m]\<rparr>"] getMemberRole_insert[OF ins]\<close>)
next
  case (Some old)
  show thesis
    by (rule that[of "joined w u (pm_id r) s"]) (use Some in \<open>auto simp: join_row_run joined_def\<close>)
qed

lemma join_rows:
  "\<forall>r\<in>set rows. member_keys (pm_potId r) u (Some (pm_addedByUserId r)) s \<Longrightarrow>
   \<exists>t. for_each rows (join_row w u) s = (Inr (), t) \<and>
     potPendingMembers t = update_where (\<lambda>x. pm_id x \<in> pm_id ` set rows) (set_joined (e_now w) u) (potPendingMembers s) \<and>
     (\<forall>q v. getMemberRole q v t =
        (if v = u \<and> getMemberRole q v s = None then map_option pm_role (find (\<lambda>r. pm_potId r = q) rows) else getMemberRole q v s))"
proof (induction rows arbitrary: s)
  case Nil
  show ?case by (simp add: update_where_none)
next
  case (Cons r rows)
  obtain t where t: "join_row w u r s = (Inr (), t)" and keys: "\<And>q v by'. member_keys q v by' t = member_keys q v by' s"
    and pend: "potPendingMembers t = update_where (\<lambda>x. pm_id x = pm_id r) (set_joined (e_now w) u) (potPendingMembers s)"
    and role: "\<And>q v. getMemberRole q v t = (if q = pm_potId r \<and> v = u \<and> getMemberRole q v s = None then Some (pm_role r) else getMemberRole q v s)"
    using join_row_Inr[of r u s w] Cons.prems by (metis list.set_intros(1))
  obtain t' where t': "for_each rows (join_row w u) t = (Inr (), t')"
    and pend': "potPendingMembers t' = update_where (\<lambda>x. pm_id x \<in> pm_id ` set rows) (set_joined (e_now w) u) (potPendingMembers t)"
    and role': "\<And>q v. getMemberRole q v t' =
        (if v = u \<and> getMemberRole q v t = None then map_option pm_role (find (\<lambda>r. pm_potId r = q) rows) else getMemberRole q v t)"
    using Cons.IH[of t] Cons.prems keys by auto
  have "potPendingMembers t' = update_where (\<lambda>x. pm_id x \<in> pm_id ` set (r # rows)) (set_joined (e_now w) u) (potPendingMembers s)"
    unfolding pend' pend update_where_def by (simp add: set_joined_def)
  moreover have "getMemberRole q v t' = (if v = u \<and> getMemberRole q v s = None
      then map_option pm_role (find (\<lambda>r. pm_potId r = q) (r # rows)) else getMemberRole q v s)" for q v
    unfolding role' role by auto
  ultimately show ?case
    using t t' by (simp add: bnd_run)
qed

lemma activation:
  fixes email :: string
  defines "addressed \<equiv> \<lambda>r. pm_email r = normalizeEmail email \<and> pm_status r = pm_pending"
  assumes "distinct (map pm_id (potPendingMembers s))"
    and "\<forall>r\<in>set (potPendingMembers s). addressed r \<longrightarrow> member_keys (pm_potId r) u (Some (pm_addedByUserId r)) s"
  shows "\<exists>t. activateForEmail w u email s = (Inr (), t) \<and>
     potPendingMembers t = update_where addressed (set_joined (e_now w) u) (potPendingMembers s) \<and>
     (\<forall>q v. getMemberRole q v t =
        (if v = u \<and> getMemberRole q v s = None
         then map_option pm_role (find (\<lambda>r. pm_potId r = q \<and> addressed r) (potPendingMembers s)) else getMemberRole q v s))"
proof -
  have ids: "pm_id x \<in> pm_id ` set (filter addressed (potPendingMembers s)) \<longleftrightarrow> addressed x"
    if "x \<in> set (potPendingMembers s)" for x
    using that assms(2) by (auto simp: distinct_map inj_on_def)
  have finds: "find (\<lambda>r. pm_potId r = q) (filter addressed rs) = find (\<lambda>r. pm_potId r = q \<and> addressed r) rs" for q rs
    by (induction rs) auto
  have "update_where (\<lambda>x. pm_id x \<in> pm_id ` set (filter addressed (potPendingMembers s))) (set_joined (e_now w) u) (potPendingMembers s) =
      update_where addressed (set_joined (e_now w) u) (potPendingMembers s)"
    unfolding update_where_def using ids by (intro map_cong) auto
  moreover have "activateForEmail w u email s = for_each (filter addressed (potPendingMembers s)) (join_row w u) s"
    by (simp add: activateForEmail_def addressed_def Let_def)
  moreover have "\<forall>r\<in>set (filter addressed (potPendingMembers s)). member_keys (pm_potId r) u (Some (pm_addedByUserId r)) s"
    using assms(3) by auto
  ultimately show ?thesis
    using join_rows[of "filter addressed (potPendingMembers s)" u s w] by (simp only: finds)
qed

section \<open>The operations keep the invariant\<close>

lemma administered_ledger [simp]: "administered A (s\<lparr>led := l\<rparr>) = administered A s"
  "administered A (s\<lparr>randomDraws := n\<rparr>) = administered A s" "administered A (s\<lparr>sentMails := ms\<rparr>) = administered A s"
  "administered A (s\<lparr>pots := ps\<rparr>) = administered A s"
  by (rule administered_cong; simp)+

lemma preserves_sendMail [preserves_intros]: "preserves (administered A) (sendMail w address content)"
  unfolding sendMail_def by (cases "e_sendMail w address") (auto intro!: preserves_intros preserves_modify)

lemma gap_id: "e_gap w = id \<Longrightarrow> in_gap w s = (Inr (), s)"
  by (simp add: in_gap_def modify_def)

lemma bnd_gap_id: "e_gap w = id \<Longrightarrow> bnd (in_gap w) f s = f () s"
  by (simp add: bnd_run gap_id)

lemma updateRole_run:
  assumes "e_gap w = id"
  shows "updateRole w q u r s =
    (case find_pot q s of
       None \<Rightarrow> (Inl PotNotFoundError, s)
     | Some p \<Rightarrow>
         if pot_status p \<noteq> draft then (Inl (PotError ''Pot membership is locked once the pot goes live'' 409), s)
         else case getMemberRole q u s of
           None \<Rightarrow> (Inl not_a_member, s)
         | Some cur \<Rightarrow>
             if cur = role_admin \<and> r = role_member \<and> countAdmins q s \<le> 1
             then (Inl (PotError ''Cannot demote the last admin. Assign another admin first'' 409), s)
             else let t = s\<lparr>potMembers := update_where (same_member q u) (set_role r) (potMembers s)\<rparr> in
               (Inr (case member_join (same_member q u) t of [] \<Rightarrow> None | x # _ \<Rightarrow> Some x), t))"
proof (cases "find_pot q s")
  case (Some p)
  show ?thesis
  proof (cases "getMemberRole q u s")
    case (Some cur)
    show ?thesis
      unfolding updateRole_def Let_def
      by (simp add: \<open>find_pot q s = Some p\<close> Some bnd_def[of "getPotOrThrow q"] getPotOrThrow_run assertMembershipIsOpen_def
          bnd_require bnd_gap_id[OF assms] bnd_assoc if_distrib[where f = "\<lambda>m. bnd m _"] cong: if_cong)
  qed (simp add: updateRole_def Some getPotOrThrow_run bnd_def[of "getPotOrThrow q"] assertMembershipIsOpen_def bnd_require throw_def)
qed (simp add: updateRole_def getPotOrThrow_run bnd_def[of "getPotOrThrow q"])

lemma administered_updateRole:
  assumes "e_gap w = id" and "administered A s"
  shows "administered A (snd (updateRole w q u r s))"
  unfolding updateRole_run[OF assms(1)] Let_def
  by (auto simp: assms(2) intro!: administered_set_role[OF assms(2)] split: option.split)

text \<open>The mail that goes out once the row is gone.\<close>

definition removal_mail :: "env \<Rightarrow> uuid \<Rightarrow> bool option \<Rightarrow> pot \<Rightarrow> db \<Rightarrow> (db, unit) op" where
  "removal_mail w u notify p s =
     (case find (\<lambda>x. u_id x = u) (users s) of
        None \<Rightarrow> ret ()
      | Some x \<Rightarrow> when_op (notify \<noteq> Some False) (sendMail w (u_email x) (removedFromPotEmail_text (pot_title p))))"

lemma PotMembers_remove_run:
  assumes "e_gap w = id"
  shows "PotMembers_remove w q u notify s =
    (case find_pot q s of
       None \<Rightarrow> (Inl PotNotFoundError, s)
     | Some p \<Rightarrow>
         if pot_status p \<noteq> draft then (Inl (PotError ''Pot membership is locked once the pot goes live'' 409), s)
         else case getMemberRole q u s of
           None \<Rightarrow> (Inl not_a_member, s)
         | Some cur \<Rightarrow>
             if cur = role_admin \<and> countAdmins q s \<le> 1
             then (Inl (PotError ''Cannot remove the last admin. Assign another admin first'' 409), s)
             else removal_mail w u notify p s (s\<lparr>potMembers := filter (\<lambda>m. \<not> same_member q u m) (potMembers s)\<rparr>))"
proof (cases "find_pot q s")
  case (Some p)
  show ?thesis
  proof (cases "getMemberRole q u s")
    case (Some cur)
    show ?thesis
      unfolding PotMembers_remove_def removal_mail_def
      by (simp add: \<open>find_pot q s = Some p\<close> Some bnd_def[of "getPotOrThrow q"] getPotOrThrow_run assertMembershipIsOpen_def
          bnd_require bnd_gap_id[OF assms] bnd_assoc if_distrib[where f = "\<lambda>m. bnd m _"] cong: if_cong)
  qed (simp add: PotMembers_remove_def Some getPotOrThrow_run bnd_def[of "getPotOrThrow q"] assertMembershipIsOpen_def bnd_require throw_def)
qed (simp add: PotMembers_remove_def getPotOrThrow_run bnd_def[of "getPotOrThrow q"])

lemma removal_mail_keeps: "administered A t \<Longrightarrow> administered A (snd (removal_mail w u notify p s t))"
  unfolding removal_mail_def using preserves_sendMail
  by (auto simp: when_op_def ret_def preserves_def split: option.split)

lemma administered_PotMembers_remove:
  assumes "e_gap w = id" and "administered A s"
  shows "administered A (snd (PotMembers_remove w q u notify s))"
  unfolding PotMembers_remove_run[OF assms(1)]
  by (auto simp: assms(2) intro!: removal_mail_keeps administered_remove[OF assms(2)] split: option.split)

lemma PendingMembers_remove_state:
  "snd (PendingMembers_remove q i s) = s \<or>
   snd (PendingMembers_remove q i s) = s\<lparr>potPendingMembers := update_where (\<lambda>r. pm_id r = i) set_removed (potPendingMembers s)\<rparr>"
  by (simp add: PendingMembers_remove_def pot_or_404_def assertMembershipIsOpen_def update_pending_def op_simps
      split: option.split sum.split prod.split)

lemma administered_PendingMembers_remove:
  assumes "administered A s"
  shows "administered A (snd (PendingMembers_remove q i s))"
proof -
  have "administered A (s\<lparr>potPendingMembers := update_where (\<lambda>r. pm_id r = i) set_removed (potPendingMembers s)\<rparr>)"
    using assms by (intro administered_pending) (auto simp: set_update_where set_removed_def administered_def)
  then show ?thesis using PendingMembers_remove_state[of q i s] assms by metis
qed

lemma administered_add_pending:
  assumes "administered A s" and "has_admin s (pot_id p)"
  shows "administered A (snd (add_pending w origin p email r by' s))"
proof (cases "insert_pending (pot_id p) email r by' s")
  case (Pair x t)
  have "administered A (s\<lparr>potPendingMembers := potPendingMembers s @ [row]\<rparr>)" if "pm_potId row = pot_id p" for row
    by (rule administered_pending[OF assms(1)]) (use that assms in \<open>auto simp: administered_def\<close>)
  then have t: "administered A t"
    using Pair assms(1) by (auto simp: insert_pending_def Let_def split: if_splits)
  show ?thesis
  proof (cases x)
    case (Inl err)
    then show ?thesis using Pair t by (simp add: add_pending_def op_simps)
  next
    case (Inr row)
    then show ?thesis using Pair preservesD[OF preserves_sendMail t]
      by (cases "sendMail w email (addedToPotEmail_text origin (pot_title p) (pot_id p)) t")
        (simp add: add_pending_def op_simps split: sum.split)
  qed
qed

lemma administered_PendingMembers_create:
  assumes "administered A s" and "has_admin s q"
  shows "administered A (snd (PendingMembers_create w origin q by' input s))"
proof (cases "find_pot q s")
  case (Some p)
  then have "pot_id p = q" using find_SomeD[OF Some[unfolded find_pot_def]] by simp
  note pend = administered_add_pending[OF assms(1), of p, unfolded this, OF assms(2)]
  define email where "email = normalizeEmail (am_email input)"
  define r where "r = (case am_role input of Some r \<Rightarrow> r | None \<Rightarrow> role_member)"
  have member: "administered A (snd (bnd (insert_member q v r (Some by')) (\<lambda>member.
      seq (sendMail w email (addedToPotEmail_text origin (pot_title p) q)) (ret (added_member member u))) s))" for u v
  proof (cases "insert_member q v r (Some by') s")
    case (Pair x t)
    have t: "administered A t" using administered_insert[OF assms(1), of q r v "Some by'"] assms(2) Pair by simp
    have "preserves (administered A) (seq (sendMail w email (addedToPotEmail_text origin (pot_title p) q)) (ret (added_member m u)))" for m
      by (intro preserves_intros)
    then show ?thesis using Pair t by (cases x) (simp_all add: bnd_def preserves_def)
  qed
  have "administered A (snd ((case user of
        Some u \<Rightarrow>
          if u_emailVerifiedAt u \<noteq> None
          then bnd (gets (getMemberRole q (u_id u))) (\<lambda>alreadyMember.
               seq (require (alreadyMember = None) (PotError ''User is already a member of this pot'' 409))
               (bnd (insert_member q (u_id u) r (Some by')) (\<lambda>member.
                seq (sendMail w email (addedToPotEmail_text origin (pot_title p) q))
                (ret (added_member member u)))))
          else add_pending w origin p email r by'
      | None \<Rightarrow> add_pending w origin p email r by') s))" for user
    using pend member assms(1) by (simp add: bnd_require split: option.split)
  then show ?thesis
    using Some assms(1) unfolding PendingMembers_create_def Let_def email_def[symmetric] r_def[symmetric]
    by (simp add: pot_or_404_def bnd_assoc assertMembershipIsOpen_def bnd_require del: not_None_eq)
qed (simp add: PendingMembers_create_def Let_def pot_or_404_def op_simps assms(1))

lemma has_admin_join_row: "has_admin s q \<Longrightarrow> has_admin (snd (join_row w u r s)) q"
  by (auto simp: join_row_run joined_def has_admin_iff insert_member_def Let_def split: sum.split)

lemma administered_joined: "administered A s \<Longrightarrow> administered A (joined w u i s)"
  unfolding joined_def by (rule administered_pending) (auto simp: set_update_where set_joined_def administered_def)

lemma administered_join_row:
  assumes "administered A s" and "has_admin s (pm_potId r)"
  shows "administered A (snd (join_row w u r s))"
proof -
  have "administered A (snd (insert_member (pm_potId r) u (pm_role r) (Some (pm_addedByUserId r)) s))"
    using assms by (intro administered_insert) auto
  then show ?thesis
    using assms(1) administered_joined unfolding join_row_run
    by (cases "insert_member (pm_potId r) u (pm_role r) (Some (pm_addedByUserId r)) s") (auto split: sum.split)
qed

lemma administered_for_each_join:
  "administered A s \<Longrightarrow> \<forall>r\<in>set rows. has_admin s (pm_potId r) \<Longrightarrow> administered A (snd (for_each rows (join_row w u) s))"
proof (induction rows arbitrary: s)
  case (Cons r rows)
  obtain x t where run: "join_row w u r s = (x, t)" by (cases "join_row w u r s")
  have "administered A t" "\<forall>r\<in>set rows. has_admin t (pm_potId r)"
    using administered_join_row[of A s r w u] has_admin_join_row[of s _ w u r] Cons.prems run by auto
  then show ?case using Cons.IH[of t] run by (cases x) (simp_all add: bnd_def)
qed (simp add: ret_def)

lemma administered_activateForEmail:
  "administered A s \<Longrightarrow> administered A (snd (activateForEmail w u email s))"
  using administered_for_each_join[of A s "filter (\<lambda>r. pm_email r = normalizeEmail email \<and> pm_status r = pm_pending) (potPendingMembers s)" w u]
  by (simp add: activateForEmail_def Let_def administered_def)

section \<open>The check that another admin stays\<close>

text \<open>A pot with the two admins 1 and 2, the second of whom leaves between the first one's check and write.\<close>

definition two_admins_db :: db where
  "two_admins_db = empty_db\<lparr>pots := [example_pot\<lparr>pot_status := draft\<rparr>],
     potMembers := [\<lparr>mb_id = 1, mb_potId = 7, mb_userId = 1, mb_role = role_admin, mb_addedByUserId = None\<rparr>,
                    \<lparr>mb_id = 2, mb_potId = 7, mb_userId = 2, mb_role = role_admin, mb_addedByUserId = Some 1\<rparr>]\<rparr>"

lemma both_admins_can_leave:
  "countAdmins 7 two_admins_db = 2"
  "fst (leave (example_env\<lparr>e_gap := \<lambda>s. snd (leave example_env 7 2 s)\<rparr>) 7 1 two_admins_db) = Inr ()"
  "countAdmins 7 (snd (leave (example_env\<lparr>e_gap := \<lambda>s. snd (leave example_env 7 2 s)\<rparr>) 7 1 two_admins_db)) = 0"
  by code_simp+

text \<open>Adding someone by email makes them a member once they verify that address. With the rows its foreign keys name in
  place, the sweep over the
  pending rows succeeds, marks exactly the rows addressed to the verified email as joined, and gives the user in
  each of those pots the role of its row, leaving every membership that was there as it is.\<close>

lemma verified_email_joins:
  fixes email :: string
  defines "addressed \<equiv> \<lambda>r. pm_email r = normalizeEmail email \<and> pm_status r = pm_pending"
  assumes "distinct (map pm_id (potPendingMembers s))"
    and "\<forall>r\<in>set (potPendingMembers s). addressed r \<longrightarrow> member_keys (pm_potId r) u (Some (pm_addedByUserId r)) s"
  shows "\<exists>t. activateForEmail w u email s = (Inr (), t) \<and>
     potPendingMembers t = update_where addressed (set_joined (e_now w) u) (potPendingMembers s) \<and>
     (\<forall>q v. getMemberRole q v t =
        (if v = u \<and> getMemberRole q v s = None
         then map_option pm_role (find (\<lambda>r. pm_potId r = q \<and> addressed r) (potPendingMembers s)) else getMemberRole q v s))"
  unfolding addressed_def by (rule activation[OF assms(2,3)[unfolded addressed_def]])

definition invited_db :: db where
  "invited_db = two_admins_db\<lparr>users := map (\<lambda>(i, name). \<lparr>u_id = i, u_email = name @ ''@x.ng'', u_username = name, u_passwordHash = [],
       u_fullName = ''Ada Obi Nwosu'', u_phone = None, u_emailVerifiedAt = Some 0, u_refreshTokenHash = None,
       u_refreshTokenExpiresAt = None, u_tokenVersion = 0, u_defaultRefundAccount = None, u_defaultRefundBank = None\<rparr>) [(1, ''obi''), (9, ''ada'')],
     potPendingMembers :=
     [\<lparr>pm_id = 1, pm_potId = 7, pm_email = ''ada@x.ng'', pm_role = role_member, pm_status = pm_pending, pm_addedByUserId = 1,
       pm_joinedUserId = None, pm_joinedAt = None\<rparr>]\<rparr>"

lemma verified_email_joins_witness:
  "getMemberRole 7 9 (snd (activateForEmail example_env 9 '' Ada@X.ng '' invited_db)) = Some role_member"
proof -
  have "distinct (map pm_id (potPendingMembers invited_db))" "normalizeEmail '' Ada@X.ng '' = ''ada@x.ng''"
    "getMemberRole 7 9 invited_db = None" "member_keys 7 9 (Some 1) invited_db"
    by code_simp+
  then show ?thesis
    using verified_email_joins[of invited_db "'' Ada@X.ng ''" 9 example_env]
    by (auto simp: invited_db_def)
qed

end
