(* ===== verification/Pot_Frames.thy ===== *)
theory Pot_Frames
  imports Pots_Controller Members_Laws
begin

text \<open>
  What the money handlers of the pots API leave alone. \<open>api_frame\<close> extends the interface of \<open>Frames\<close> with the
  tables these handlers write besides (keys, codes, mails, contributions) and carries an invariant through each of
  them; it is interpreted with the pots up to their locks, the members, and the payout rules.
\<close>

locale api_frame = disbursement_frame +
  assumes keeps_keys: "I s \<Longrightarrow> I (s\<lparr>idempotencyKeys := ks\<rparr>)"
    and keeps_codes: "I s \<Longrightarrow> I (s\<lparr>actionOtpCodes := cs\<rparr>)"
    and keeps_mails: "I s \<Longrightarrow> I (s\<lparr>sentMails := ms\<rparr>)"
    and keeps_contributions: "I s \<Longrightarrow> I (s\<lparr>contributions := cs'\<rparr>)"
begin

lemma sendMail: "preserves I (sendMail w address content)"
  unfolding sendMail_def by (intro preserves_intros preserves_modify keeps_mails)

lemma request: "preserves I (request w sha collate u action q context)"
  unfolding request_def generateOtpCode_def
  by (intro preserves_intros randomUUID preserves_modify keeps_codes keeps_draws sendMail)

lemma update_code: "preserves I (update_code i f)"
  unfolding update_code_def by (intro preserves_modify keeps_codes)

lemma verify: "preserves I (verify w sha collate u action q context code key)"
  unfolding verify_def already_consumed_def Let_def by (intro preserves_intros update_code)

lemma update_key: "preserves I (update_key key f)"
  unfolding update_key_def by (intro preserves_modify keeps_keys)

lemma settle_failure: "preserves I (settle_failure key err)"
  unfolding settle_failure_def delete_key_def
  by (cases err) (auto intro!: preserves_intros update_key preserves_modify keeps_keys)

lemma insert_key: "preserves I (insert_key w key h)"
  by (simp add: preserves_def insert_key_def keeps_keys)

lemma withIdempotencyKey: "preserves I m \<Longrightarrow> preserves I (withIdempotencyKey w key h m)"
  unfolding withIdempotencyKey_def by (intro preserves_intros insert_key update_key settle_failure)

lemma verifyAccountDetails: "preserves I (verifyAccountDetails w a b)"
  unfolding verifyAccountDetails_def by (intro preserves_intros)

lemma group_legs: "preserves I (group_legs balance totalContributed g)"
  unfolding group_legs_def Let_def by (intro preserves_intros)

lemma postContributorsRefund: "e_gap w = id \<Longrightarrow> preserves I (postContributorsRefund w p)"
  unfolding postContributorsRefund_def claim_and_send_def Let_def
  by (intro preserves_intros pot_account gap claim send_leg group_legs)

lemma triggerPayout: "e_gap w = id \<Longrightarrow> preserves I (triggerPayout w q u dest amount)"
  unfolding triggerPayout_def
  by (intro preserves_intros pot_balance postFixedAmountDisbursement postDisbursement verifyAccountDetails)

lemma triggerRefund: "e_gap w = id \<Longrightarrow> preserves I (triggerRefund w q u)"
  unfolding triggerRefund_def by (intro preserves_intros postContributorsRefund postDisbursement)

lemma insert_contribution: "preserves I (insert_contribution c)"
  by (simp add: preserves_def insert_contribution_def Let_def keeps_contributions)

lemma create: "preserves I (create w q u input)"
  unfolding create_def refund_fields_def account_name_def createVirtualAccount_def Let_def
  by (intro preserves_intros verifyAccountDetails randomUUID insert_contribution)

lemma requireUserId: "preserves I (requireUserId user)"
  unfolding requireUserId_def by (intro preserves_intros)

lemma requireIdempotencyKey: "preserves I (requireIdempotencyKey header)"
  unfolding requireIdempotencyKey_def by (intro preserves_intros)

lemma optional_kobo: "preserves I (optional_kobo v)"
  unfolding optional_kobo_def by (intro preserves_intros)

lemma serializePot: "preserves I (serializePot p)"
  unfolding serializePot_def by (intro preserves_intros pot_balance)

lemma answer_pot: "preserves I (answer_pot code p)"
  unfolding answer_pot_def by (intro preserves_intros serializePot)

lemma payout_otp: "preserves I (requestPayoutOtpHandler w sha collate user q body)"
  unfolding requestPayoutOtpHandler_def by (intro preserves_intros requireUserId request)

lemma refund_otp: "preserves I (requestRefundOtpHandler w sha collate user q)"
  unfolding requestRefundOtpHandler_def by (intro preserves_intros requireUserId request)

lemma payout: "e_gap w = id \<Longrightarrow> preserves I (triggerPayoutHandler w sha collate url user header q body)"
  unfolding triggerPayoutHandler_def confirmed_payout_def
  by (intro preserves_intros requireUserId requireIdempotencyKey withIdempotencyKey verify optional_kobo triggerPayout)

lemma refund: "e_gap w = id \<Longrightarrow> preserves I (triggerRefundHandler w sha collate url user header q code)"
  unfolding triggerRefundHandler_def
  by (intro preserves_intros requireUserId requireIdempotencyKey withIdempotencyKey verify triggerRefund)

lemma contribute: "preserves I (contributeHandler w sha json_text url user header q input bodyText)"
  unfolding contributeHandler_def
  by (intro preserves_intros requireIdempotencyKey withIdempotencyKey create)

lemma getPot: "preserves I (getPotHandler user q)"
  unfolding getPotHandler_def by (intro preserves_intros answer_pot)

lemma listPots: "preserves I (listPotsHandler user scope q)"
  unfolding listPotsHandler_def Pots_list_def by (intro preserves_intros serializePot)

lemma listTransactions: "preserves I (listTransactionsHandler user q)"
  unfolding listTransactionsHandler_def listTransactions_def by (intro preserves_intros pot_account)

lemma listMembers: "preserves I (listMembersHandler user q)"
  unfolding listMembersHandler_def PotMembers_list_def by (intro preserves_intros)

lemma listPendingMembers: "preserves I (listPendingMembersHandler user q)"
  unfolding listPendingMembersHandler_def PendingMembers_list_def by (intro preserves_intros requireUserId)

lemma listMyTransactions: "preserves I (listMyTransactionsHandler u)"
  unfolding listMyTransactionsHandler_def listTransactionsForUser_def by (intro preserves_intros)

end

text \<open>The pots without their locks, the members, the rows added by email, and the payout rules.\<close>

definition setup_of :: "db \<Rightarrow> pot list \<times> pot_member list \<times> pending_member list \<times> target_based_config list \<times>
    manual_config list \<times> recurring_config list \<times> scheduled_config list \<times> scheduled_leg list" where
  "setup_of s = (map clear_lock (pots s), potMembers s, potPendingMembers s, targetBasedPayoutConfigs s, manualPayoutConfigs s,
     recurringPayoutConfigs s, scheduledPayoutConfigs s, scheduledPayoutLegs s)"

interpretation setup_frame: api_frame "\<lambda>s. setup_of s = c" for c
  by unfold_locales (rule preserves_in_ledger_frame, simp_all add: setup_of_def)

end
