(* ===== verification/Auth.thy ===== *)
theory Auth
  imports Members Http_Errors
begin

text \<open>
  Accounts and sessions: \<open>modules/auth/auth.service.ts\<close> with \<open>lib/hash.ts\<close>, \<open>lib/tokens.ts\<close>, the two
  authentication hooks of \<open>lib/plugins/jwt.ts\<close> and the handlers of \<open>auth.controller.ts\<close> and \<open>me.controller.ts\<close>.
  SHA-256, scrypt and the two JWT libraries are the fields of the record \<open>crypto\<close>; a property that needs
  something of them says so. Concurrent requests act in the gaps between a read and the write that relies on it.
\<close>

section \<open>hash.ts\<close>

text \<open>\<open>k_scrypt\<close> gives bytes. A refresh token carries a user and a token id, an access token a user and a token
  version; both verify until they expire, which the verifier decides from the time.\<close>

record crypto =
  k_sha :: "string \<Rightarrow> string"
  k_scrypt :: "string \<Rightarrow> string \<Rightarrow> nat list"
  k_dummySalt :: string
  k_signRefresh :: "uuid \<Rightarrow> string \<Rightarrow> time \<Rightarrow> string"
  k_verifyRefresh :: "time \<Rightarrow> string \<Rightarrow> (uuid \<times> string) option"
  k_signAccess :: "uuid \<Rightarrow> int \<Rightarrow> time \<Rightarrow> string"
  k_verifyAccess :: "time \<Rightarrow> string \<Rightarrow> (uuid \<times> int) option"

text \<open>\<open>toString("hex")\<close>, and \<open>Buffer.from(text, "hex")\<close>, which stops at the first pair that is not hexadecimal.\<close>

definition hex_of_bytes :: "nat list \<Rightarrow> string" where
  "hex_of_bytes bs = concat (map (\<lambda>b. [hex_digit (b div 16), hex_digit (b mod 16)]) bs)"

definition hex_value :: "char \<Rightarrow> nat option" where
  "hex_value c = (let n = of_char c :: nat in
     if 48 \<le> n \<and> n \<le> 57 then Some (n - 48)
     else if 97 \<le> n \<and> n \<le> 102 then Some (n - 87)
     else if 65 \<le> n \<and> n \<le> 70 then Some (n - 55) else None)"

fun hex_bytes :: "string \<Rightarrow> nat list" where
  "hex_bytes (c # d # cs) =
     (case (hex_value c, hex_value d) of (Some x, Some y) \<Rightarrow> (16 * x + y) # hex_bytes cs | _ \<Rightarrow> [])"
| "hex_bytes _ = []"

definition salted_hash :: "crypto \<Rightarrow> string \<Rightarrow> string \<Rightarrow> string" where
  "salted_hash k password salt = salt @ '':'' @ hex_of_bytes (k_scrypt k password salt)"

text \<open>\<open>crypto.randomBytes(16)\<close>: a random draw of 128 bits.\<close>

definition hashPassword :: "crypto \<Rightarrow> env \<Rightarrow> string \<Rightarrow> (db, string) op" where
  "hashPassword k w password = bnd (randomUUID w) (\<lambda>n. ret (salted_hash k password (hex_digits 32 (int n))))"

definition verifyPassword :: "crypto \<Rightarrow> string \<Rightarrow> string \<Rightarrow> bool" where
  "verifyPassword k candidatePassword hash =
     (let salt = takeWhile (\<lambda>c. c \<noteq> CHR '':'') hash;
          storedHash = takeWhile (\<lambda>c. c \<noteq> CHR '':'') (tl (dropWhile (\<lambda>c. c \<noteq> CHR '':'') hash)) in
      if salt = [] \<or> storedHash = [] then False
      else let a = hex_bytes (hex_of_bytes (k_scrypt k candidatePassword salt)); b = hex_bytes storedHash in
        if length a \<noteq> length b then False else a = b)"

definition DUMMY_PASSWORD_HASH :: "crypto \<Rightarrow> string" where
  "DUMMY_PASSWORD_HASH k = salted_hash k ''dummy-password-for-constant-time-login-checks'' (k_dummySalt k)"

section \<open>tokens.ts\<close>

definition REFRESH_TOKEN_TTL_DAYS :: int where "REFRESH_TOKEN_TTL_DAYS = 30"

definition hashToken :: "crypto \<Rightarrow> string \<Rightarrow> string" where
  "hashToken k token = k_sha k token"

definition signRefreshToken :: "crypto \<Rightarrow> env \<Rightarrow> uuid \<Rightarrow> (db, string \<times> string \<times> time) op" where
  "signRefreshToken k w userId =
     bnd (randomUUID w) (\<lambda>u. let jti = uuid_text u in
     ret (k_signRefresh k userId jti (e_now w), jti, e_now w + REFRESH_TOKEN_TTL_DAYS * 24 * 60 * 60 * 1000))"

section \<open>One-time codes\<close>

definition AUTH_OTP_TTL_MINUTES :: int where "AUTH_OTP_TTL_MINUTES = 10"
definition AUTH_OTP_RESEND_COOLDOWN_SECONDS :: int where "AUTH_OTP_RESEND_COOLDOWN_SECONDS = 60"
definition OTP_MAX_PER_HOUR :: nat where "OTP_MAX_PER_HOUR = 5"

definition auth_otpExpiry :: "env \<Rightarrow> time" where
  "auth_otpExpiry w = e_now w + AUTH_OTP_TTL_MINUTES * 60 * 1000"

definition auth_codes :: "uuid \<Rightarrow> otp_purpose \<Rightarrow> db \<Rightarrow> otp_code list" where
  "auth_codes userId purpose s = filter (\<lambda>r. oc_userId r = userId \<and> oc_purpose r = purpose) (otpCodes s)"

text \<open>\<open>Math.ceil(60 - ms / 1000)\<close> is 60 less the whole seconds.\<close>

definition assertOtpNotRateLimited :: "env \<Rightarrow> uuid \<Rightarrow> otp_purpose \<Rightarrow> (db, unit) op" where
  "assertOtpNotRateLimited w userId purpose =
     bnd (gets (\<lambda>s. newest_by oc_createdAt (auth_codes userId purpose s))) (\<lambda>latest.
     seq (case latest of
            None \<Rightarrow> ret ()
          | Some l \<Rightarrow> let ms = e_now w - oc_createdAt l in
              require (\<not> ms < AUTH_OTP_RESEND_COOLDOWN_SECONDS * 1000)
                (RateLimitError ''Please wait before requesting another code'' (AUTH_OTP_RESEND_COOLDOWN_SECONDS - ms div 1000)))
     (bnd (gets (\<lambda>s. filter (\<lambda>r. e_now w - 60 * 60 * 1000 \<le> oc_createdAt r) (auth_codes userId purpose s))) (\<lambda>recentCodes.
      require (\<not> OTP_MAX_PER_HOUR \<le> length recentCodes)
        (RateLimitError ''Too many codes requested. Try again later.'' (60 * 60)))))"

fun otpPurposeLabel :: "otp_purpose \<Rightarrow> string" where
  "otpPurposeLabel signup_verification = ''verify your email''"
| "otpPurposeLabel login_purpose = ''log in''"
| "otpPurposeLabel password_reset = ''reset your password''"

definition insert_code :: "crypto \<Rightarrow> env \<Rightarrow> uuid \<Rightarrow> otp_purpose \<Rightarrow> string \<Rightarrow> (db, unit) op" where
  "insert_code k w userId purpose code =
     modify (\<lambda>s. s\<lparr>otpCodes := otpCodes s @
       [\<lparr>oc_id = fresh_id (map oc_id (otpCodes s)), oc_userId = userId, oc_purpose = purpose,
         oc_codeHash = hashOtpCode (k_sha k) code, oc_attemptCount = 0, oc_maxAttempts = 5,
         oc_expiresAt = auth_otpExpiry w, oc_consumedAt = None, oc_createdAt = e_now w\<rparr>]\<rparr>)"

definition createOtp :: "crypto \<Rightarrow> env \<Rightarrow> uuid \<Rightarrow> string \<Rightarrow> otp_purpose \<Rightarrow> (db, string) op" where
  "createOtp k w userId email purpose =
     seq (assertOtpNotRateLimited w userId purpose)
     (bnd (generateOtpCode w) (\<lambda>code.
      seq (insert_code k w userId purpose code)
      (seq (sendMail w email
             (otpEmail_text code (''Use this code to '' @ otpPurposeLabel purpose @ ''.'') (nat AUTH_OTP_TTL_MINUTES)))
      (ret code))))"

definition update_otp :: "uuid \<Rightarrow> (otp_code \<Rightarrow> otp_code) \<Rightarrow> (db, unit) op" where
  "update_otp i f = modify (\<lambda>s. s\<lparr>otpCodes := update_where (\<lambda>r. oc_id r = i) f (otpCodes s)\<rparr>)"

definition add_attempt :: "otp_code \<Rightarrow> otp_code" where
  "add_attempt r = r\<lparr>oc_attemptCount := oc_attemptCount r + 1\<rparr>"

definition consume_otp :: "time \<Rightarrow> otp_code \<Rightarrow> otp_code" where
  "consume_otp now r = r\<lparr>oc_consumedAt := Some now\<rparr>"

definition active_otp :: "uuid \<Rightarrow> otp_purpose \<Rightarrow> db \<Rightarrow> otp_code option" where
  "active_otp userId purpose s = newest_by oc_createdAt (filter (\<lambda>r. oc_consumedAt r = None) (auth_codes userId purpose s))"

definition verifyOtp :: "crypto \<Rightarrow> env \<Rightarrow> uuid \<Rightarrow> otp_purpose \<Rightarrow> string \<Rightarrow> (db, unit) op" where
  "verifyOtp k w userId purpose code =
     bnd (gets (active_otp userId purpose)) (\<lambda>otp.
     case otp of
       None \<Rightarrow> throw (AuthError ''No active code found. Request a new one.'' 400)
     | Some r \<Rightarrow>
         seq (require (\<not> oc_expiresAt r < e_now w) (AuthError ''Code has expired. Request a new one.'' 400))
         (seq (require (\<not> oc_maxAttempts r \<le> oc_attemptCount r) (AuthError ''Too many incorrect attempts. Request a new code.'' 429))
         (if \<not> verifyOtpCode (k_sha k) code (oc_codeHash r)
          then seq (update_otp (oc_id r) add_attempt) (throw (AuthError ''Incorrect code'' 400))
          else update_otp (oc_id r) (consume_otp (e_now w)))))"

section \<open>User rows\<close>

definition find_user :: "uuid \<Rightarrow> db \<Rightarrow> user option" where
  "find_user i s = find (\<lambda>u. u_id u = i) (users s)"

definition find_email :: "string \<Rightarrow> db \<Rightarrow> user option" where
  "find_email email s = find (\<lambda>u. u_email u = email) (users s)"

definition update_user :: "uuid \<Rightarrow> (user \<Rightarrow> user) \<Rightarrow> (db, unit) op" where
  "update_user i f = modify (\<lambda>s. s\<lparr>users := update_where (\<lambda>u. u_id u = i) f (users s)\<rparr>)"

definition set_verified :: "time \<Rightarrow> user \<Rightarrow> user" where
  "set_verified now u = u\<lparr>u_emailVerifiedAt := Some now\<rparr>"

definition set_refresh :: "string \<Rightarrow> time \<Rightarrow> user \<Rightarrow> user" where
  "set_refresh hash expiresAt u = u\<lparr>u_refreshTokenHash := Some hash, u_refreshTokenExpiresAt := Some expiresAt\<rparr>"

definition revoke_session :: "user \<Rightarrow> user" where
  "revoke_session u = u\<lparr>u_refreshTokenHash := None, u_refreshTokenExpiresAt := None, u_tokenVersion := u_tokenVersion u + 1\<rparr>"

definition set_password :: "string \<Rightarrow> user \<Rightarrow> user" where
  "set_password hash u = revoke_session (u\<lparr>u_passwordHash := hash\<rparr>)"

definition set_refund_profile :: "string \<Rightarrow> string \<Rightarrow> user \<Rightarrow> user" where
  "set_refund_profile account bank u = u\<lparr>u_defaultRefundAccount := Some account, u_defaultRefundBank := Some bank\<rparr>"

record public_user =
  pu_id :: uuid
  pu_email :: string
  pu_username :: string
  pu_fullName :: string

definition toPublicUser :: "user \<Rightarrow> public_user" where
  "toPublicUser u = \<lparr>pu_id = u_id u, pu_email = u_email u, pu_username = u_username u, pu_fullName = u_fullName u\<rparr>"

definition issueTokenPair :: "crypto \<Rightarrow> env \<Rightarrow> uuid \<Rightarrow> int \<Rightarrow> (db, string \<times> string) op" where
  "issueTokenPair k w userId tokenVersion =
     bnd (signRefreshToken k w userId) (\<lambda>(refreshToken, jti, expiresAt).
     seq (update_user userId (set_refresh (hashToken k jti) expiresAt))
     (ret (k_signAccess k userId tokenVersion (e_now w), refreshToken)))"

section \<open>The service\<close>

record register_input =
  ri_email :: string
  ri_username :: string
  ri_password :: string
  ri_fullName :: string
  ri_phone :: "string option"

definition same_account :: "string \<Rightarrow> string \<Rightarrow> user \<Rightarrow> bool" where
  "same_account email username u \<longleftrightarrow> u_email u = email \<or> u_username u = username"

text \<open>An insert, under the unique constraints on email and username.\<close>

definition insert_user :: "register_input \<Rightarrow> string \<Rightarrow> (db, user) op" where
  "insert_user input passwordHash s =
     (if list_ex (same_account (ri_email input) (ri_username input)) (users s) then (Inl UniqueViolation, s)
      else let u = \<lparr>u_id = fresh_id (map u_id (users s)), u_email = ri_email input, u_username = ri_username input,
                    u_passwordHash = passwordHash, u_fullName = ri_fullName input, u_phone = ri_phone input,
                    u_emailVerifiedAt = None, u_refreshTokenHash = None, u_refreshTokenExpiresAt = None, u_tokenVersion = 0,
                    u_defaultRefundAccount = None, u_defaultRefundBank = None\<rparr>
           in (Inr u, s\<lparr>users := users s @ [u]\<rparr>))"

definition register :: "crypto \<Rightarrow> env \<Rightarrow> register_input \<Rightarrow> (db, uuid \<times> string) op" where
  "register k w input =
     bnd (gets (\<lambda>s. find (same_account (ri_email input) (ri_username input)) (users s))) (\<lambda>existing.
     seq (require (existing = None) (AuthError ''Email or username already in use'' 409))
     (bnd (hashPassword k w (ri_password input)) (\<lambda>passwordHash.
      seq (in_gap w)
      (bnd (insert_user input passwordHash) (\<lambda>u.
       seq (createOtp k w (u_id u) (u_email u) signup_verification) (ret (u_id u, u_email u)))))))"

definition resendOtp :: "crypto \<Rightarrow> env \<Rightarrow> string \<Rightarrow> otp_purpose \<Rightarrow> (db, unit) op" where
  "resendOtp k w email purpose =
     bnd (gets (find_email email)) (\<lambda>user.
     case user of
       None \<Rightarrow> ret ()
     | Some u \<Rightarrow>
         if purpose = signup_verification \<and> u_emailVerifiedAt u \<noteq> None then ret ()
         else seq (createOtp k w (u_id u) (u_email u) purpose) (ret ()))"

definition invalid_code :: error where
  "invalid_code = AuthError ''Invalid email or code'' 400"

definition verifyEmail :: "crypto \<Rightarrow> env \<Rightarrow> string \<Rightarrow> string \<Rightarrow> (db, (string \<times> string) \<times> public_user) op" where
  "verifyEmail k w email code =
     bnd (gets (find_email email)) (\<lambda>user.
     case user of
       None \<Rightarrow> throw invalid_code
     | Some u \<Rightarrow>
         seq (require (u_emailVerifiedAt u = None) invalid_code)
         (seq (verifyOtp k w (u_id u) signup_verification code)
         (seq (update_user (u_id u) (set_verified (e_now w)))
         (seq (activateForEmail w (u_id u) (u_email u))
         (bnd (issueTokenPair k w (u_id u) (u_tokenVersion u)) (\<lambda>tokens.
          ret (tokens, toPublicUser u)))))))"

definition login :: "crypto \<Rightarrow> env \<Rightarrow> string \<Rightarrow> string \<Rightarrow> (db, uuid) op" where
  "login k w email password =
     bnd (gets (find_email email)) (\<lambda>user.
     let isValid = verifyPassword k password (case user of Some u \<Rightarrow> u_passwordHash u | None \<Rightarrow> DUMMY_PASSWORD_HASH k) in
     case user of
       None \<Rightarrow> throw (AuthError ''Invalid email or password'' 401)
     | Some u \<Rightarrow>
         seq (require isValid (AuthError ''Invalid email or password'' 401))
         (seq (require (u_emailVerifiedAt u \<noteq> None) (AuthError ''Please verify your email before logging in'' 403))
         (seq (createOtp k w (u_id u) (u_email u) login_purpose) (ret (u_id u)))))"

definition verifyLoginOtp :: "crypto \<Rightarrow> env \<Rightarrow> string \<Rightarrow> string \<Rightarrow> (db, (string \<times> string) \<times> public_user) op" where
  "verifyLoginOtp k w email code =
     bnd (gets (find_email email)) (\<lambda>user.
     case user of
       None \<Rightarrow> throw invalid_code
     | Some u \<Rightarrow>
         seq (verifyOtp k w (u_id u) login_purpose code)
         (bnd (issueTokenPair k w (u_id u) (u_tokenVersion u)) (\<lambda>tokens. ret (tokens, toPublicUser u))))"

text \<open>The conditional update of a rotation: the token version of the row it matched.\<close>

definition rotate :: "uuid \<Rightarrow> string \<Rightarrow> string \<Rightarrow> time \<Rightarrow> (db, int option) op" where
  "rotate userId presentedHash newHash expiresAt s =
     (case find (\<lambda>u. u_id u = userId \<and> u_refreshTokenHash u = Some presentedHash) (users s) of
        None \<Rightarrow> (Inr None, s)
      | Some u \<Rightarrow> (Inr (Some (u_tokenVersion u)),
          s\<lparr>users := update_where (\<lambda>u. u_id u = userId \<and> u_refreshTokenHash u = Some presentedHash)
                       (set_refresh newHash expiresAt) (users s)\<rparr>))"

definition session_invalid :: error where
  "session_invalid = AuthError ''Session no longer valid'' 401"

definition reuse_detected :: error where
  "reuse_detected = AuthError ''Refresh token reuse detected, session revoked'' 401"

definition refresh :: "crypto \<Rightarrow> env \<Rightarrow> string \<Rightarrow> (db, string \<times> string) op" where
  "refresh k w presentedToken =
     (case k_verifyRefresh k (e_now w) presentedToken of
        None \<Rightarrow> throw (AuthError ''Invalid or expired refresh token'' 401)
      | Some (sub, presentedJti) \<Rightarrow>
          bnd (gets (find_user sub)) (\<lambda>user.
          case user of
            None \<Rightarrow> throw session_invalid
          | Some u \<Rightarrow>
              seq (require (truthy (u_refreshTokenHash u) \<and> u_refreshTokenExpiresAt u \<noteq> None) session_invalid)
              (seq (require (\<not> the (u_refreshTokenExpiresAt u) < e_now w) (AuthError ''Session expired, please log in again'' 401))
              (bnd (signRefreshToken k w (u_id u)) (\<lambda>(refreshToken, jti, expiresAt).
               seq (in_gap w)
               (bnd (rotate (u_id u) (hashToken k presentedJti) (hashToken k jti) expiresAt) (\<lambda>rotated.
                case rotated of
                  Some tokenVersion \<Rightarrow> ret (k_signAccess k (u_id u) tokenVersion (e_now w), refreshToken)
                | None \<Rightarrow> seq (update_user (u_id u) revoke_session) (throw reuse_detected))))))))"

definition logout :: "uuid \<Rightarrow> (db, unit) op" where
  "logout userId = update_user userId revoke_session"

definition updateRefundProfile :: "env \<Rightarrow> uuid \<Rightarrow> string \<Rightarrow> string \<Rightarrow> (db, string option \<times> string option) op" where
  "updateRefundProfile w userId accountNumber bankCode =
     seq (verifyAccountDetails w accountNumber bankCode)
     (seq (update_user userId (set_refund_profile accountNumber bankCode))
     (bnd (gets (find_user userId)) (\<lambda>user.
      case user of
        None \<Rightarrow> throw (PlainError ''Cannot read properties of undefined (reading 'defaultRefundAccount')'')
      | Some u \<Rightarrow> ret (u_defaultRefundAccount u, u_defaultRefundBank u))))"

record profile =
  pr_user :: public_user
  pr_phone :: "string option"
  pr_defaultRefundAccount :: "string option"
  pr_defaultRefundBank :: "string option"

definition getProfile :: "uuid \<Rightarrow> (db, profile) op" where
  "getProfile userId =
     bnd (gets (find_user userId)) (\<lambda>user.
     case user of
       None \<Rightarrow> throw (AuthError ''User not found'' 404)
     | Some u \<Rightarrow> ret \<lparr>pr_user = toPublicUser u, pr_phone = u_phone u, pr_defaultRefundAccount = u_defaultRefundAccount u,
                     pr_defaultRefundBank = u_defaultRefundBank u\<rparr>)"

definition forgotPassword :: "crypto \<Rightarrow> env \<Rightarrow> string \<Rightarrow> (db, unit) op" where
  "forgotPassword k w email =
     bnd (gets (find_email email)) (\<lambda>user.
     case user of None \<Rightarrow> ret () | Some u \<Rightarrow> seq (createOtp k w (u_id u) (u_email u) password_reset) (ret ()))"

definition resetPassword :: "crypto \<Rightarrow> env \<Rightarrow> string \<Rightarrow> string \<Rightarrow> string \<Rightarrow> (db, unit) op" where
  "resetPassword k w email code newPassword =
     bnd (gets (find_email email)) (\<lambda>user.
     case user of
       None \<Rightarrow> throw invalid_code
     | Some u \<Rightarrow>
         seq (verifyOtp k w (u_id u) password_reset code)
         (bnd (hashPassword k w newPassword) (\<lambda>passwordHash. update_user (u_id u) (set_password passwordHash))))"

section \<open>Access tokens\<close>

definition isTokenVersionCurrent :: "uuid \<Rightarrow> int \<Rightarrow> db \<Rightarrow> bool" where
  "isTokenVersionCurrent userId tokenVersion s =
     (case find_user userId s of None \<Rightarrow> False | Some u \<Rightarrow> u_tokenVersion u = tokenVersion)"

text \<open>The \<open>authenticate\<close> hook: the caller, or the 401 it answers; \<open>optionalAuthenticate\<close>: the caller, if any.\<close>

definition authenticate :: "crypto \<Rightarrow> env \<Rightarrow> string option \<Rightarrow> db \<Rightarrow> 'b http + uuid" where
  "authenticate k w token s =
     (case Option.bind token (k_verifyAccess k (e_now w)) of
        None \<Rightarrow> Inl (refused 401 ''Unauthorized'' None)
      | Some (sub, tokenVersion) \<Rightarrow>
          if \<not> isTokenVersionCurrent sub tokenVersion s then Inl (refused 401 ''Unauthorized'' None) else Inr sub)"

definition optionalAuthenticate :: "crypto \<Rightarrow> env \<Rightarrow> string option \<Rightarrow> db \<Rightarrow> uuid option" where
  "optionalAuthenticate k w token s =
     (case Option.bind token (k_verifyAccess k (e_now w)) of
        None \<Rightarrow> None
      | Some (sub, tokenVersion) \<Rightarrow> if \<not> isTokenVersionCurrent sub tokenVersion s then None else Some sub)"

section \<open>The handlers\<close>

datatype auth_reply =
    created_account uuid string string
  | signed_in "(string \<times> string) \<times> public_user"
  | requires_otp uuid string
  | new_tokens "string \<times> string"
  | said string
  | my_profile profile
  | refund_profile "string option \<times> string option"

definition registerHandler :: "crypto \<Rightarrow> env \<Rightarrow> register_input \<Rightarrow> (db, auth_reply http) op" where
  "registerHandler k w input = respond (bnd (register k w input) (\<lambda>(userId, email).
     ret (answered 201 (created_account userId email ''Account created. Check your email for a verification code.''))))"

definition verifyEmailHandler :: "crypto \<Rightarrow> env \<Rightarrow> string \<Rightarrow> string \<Rightarrow> (db, auth_reply http) op" where
  "verifyEmailHandler k w email code =
     respond (bnd (verifyEmail k w email code) (\<lambda>result. ret (answered 200 (signed_in result))))"

definition resendOtpHandler :: "crypto \<Rightarrow> env \<Rightarrow> string \<Rightarrow> otp_purpose \<Rightarrow> (db, auth_reply http) op" where
  "resendOtpHandler k w email purpose =
     respond (seq (resendOtp k w email purpose) (ret (answered 200 (said ''If the account exists, a new code has been sent.''))))"

definition loginHandler :: "crypto \<Rightarrow> env \<Rightarrow> string \<Rightarrow> string \<Rightarrow> (db, auth_reply http) op" where
  "loginHandler k w email password =
     respond (bnd (login k w email password) (\<lambda>userId.
       ret (answered 200 (requires_otp userId ''Enter the code sent to your email to finish logging in.''))))"

definition verifyLoginOtpHandler :: "crypto \<Rightarrow> env \<Rightarrow> string \<Rightarrow> string \<Rightarrow> (db, auth_reply http) op" where
  "verifyLoginOtpHandler k w email code =
     respond (bnd (verifyLoginOtp k w email code) (\<lambda>result. ret (answered 200 (signed_in result))))"

definition refreshHandler :: "crypto \<Rightarrow> env \<Rightarrow> string \<Rightarrow> (db, auth_reply http) op" where
  "refreshHandler k w refreshToken = respond (bnd (refresh k w refreshToken) (\<lambda>result. ret (answered 200 (new_tokens result))))"

definition logoutHandler :: "uuid \<Rightarrow> (db, auth_reply http) op" where
  "logoutHandler userId = respond (seq (logout userId) (ret (answered 200 (said ''Logged out''))))"

definition forgotPasswordHandler :: "crypto \<Rightarrow> env \<Rightarrow> string \<Rightarrow> (db, auth_reply http) op" where
  "forgotPasswordHandler k w email =
     respond (seq (forgotPassword k w email) (ret (answered 200 (said ''If the account exists, a password reset code has been sent.''))))"

definition resetPasswordHandler :: "crypto \<Rightarrow> env \<Rightarrow> string \<Rightarrow> string \<Rightarrow> string \<Rightarrow> (db, auth_reply http) op" where
  "resetPasswordHandler k w email code newPassword =
     respond (seq (resetPassword k w email code newPassword)
       (ret (answered 200 (said ''Password reset. Please log in with your new password.''))))"

definition getMeHandler :: "uuid \<Rightarrow> (db, auth_reply http) op" where
  "getMeHandler userId = respond (bnd (getProfile userId) (\<lambda>p. ret (answered 200 (my_profile p))))"

definition updateRefundProfileHandler :: "env \<Rightarrow> uuid \<Rightarrow> string \<Rightarrow> string \<Rightarrow> (db, auth_reply http) op" where
  "updateRefundProfileHandler w userId accountNumber bankCode =
     respond (bnd (updateRefundProfile w userId accountNumber bankCode) (\<lambda>p. ret (answered 200 (refund_profile p))))"

end
