(* ===== verification/Auth_Laws.thy ===== *)
theory Auth_Laws
  imports Auth Action_Otp_Laws Members_Laws
begin

text \<open>
  What sessions promise: a revoked access token is refused for good, a refresh token works once and its reuse ends the
  session, signing in takes the code that was mailed, and only that code.
\<close>

section \<open>Passwords\<close>

lemma hex_value_digit: "d < 16 \<Longrightarrow> hex_value (hex_digit d) = Some d"
proof -
  assume "d < 16"
  then have "d \<in> set [0..<16]" by simp
  moreover have "\<forall>d \<in> set [0..<16]. hex_value (hex_digit d) = Some d" by code_simp
  ultimately show ?thesis by blast
qed

lemma hex_bytes_of_bytes: "\<forall>b \<in> set bs. b < 256 \<Longrightarrow> hex_bytes (hex_of_bytes bs) = bs"
  by (induction bs) (auto simp: hex_of_bytes_def hex_value_digit)

lemma hex_no_colon: "d < 16 \<Longrightarrow> hex_digit d \<noteq> CHR '':''"
  using hex_value_digit[of d] by (auto simp: hex_value_def)

lemma hex_of_bytes_no_colon: "\<forall>b \<in> set bs. b < 256 \<Longrightarrow> CHR '':'' \<notin> set (hex_of_bytes bs)"
  by (induction bs) (auto simp: hex_of_bytes_def hex_no_colon dest: sym)

lemma hex_digits_no_colon: "CHR '':'' \<notin> set (hex_digits n x)"
  by (induction n arbitrary: x) (auto simp: nat_less_iff hex_no_colon dest!: sym[of "CHR '':''"])

lemma takeWhile_fresh: "c \<notin> set xs \<Longrightarrow> takeWhile (\<lambda>x. x \<noteq> c) xs = xs"
  by (auto simp: takeWhile_eq_all_conv)

lemma dropWhile_fresh: "c \<notin> set xs \<Longrightarrow> dropWhile (\<lambda>x. x \<noteq> c) (xs @ c # ys) = c # ys"
  by (induction xs) auto

text \<open>A password is accepted for the hash made of it, and for no hash made of another that scrypt tells apart.\<close>

lemma verifyPassword_salted:
  assumes "\<And>p x. set (k_scrypt k p x) \<subseteq> {..<256} \<and> k_scrypt k p x \<noteq> []" and "salt \<noteq> []" and "CHR '':'' \<notin> set salt"
  shows "verifyPassword k candidate (salted_hash k password salt) \<longleftrightarrow> k_scrypt k candidate salt = k_scrypt k password salt"
proof -
  have bytes: "\<forall>b \<in> set (k_scrypt k p x). b < 256" for p x using assms(1) by blast
  have "takeWhile (\<lambda>c. c \<noteq> CHR '':'') (salted_hash k password salt) = salt"
    using assms(3) by (simp add: salted_hash_def takeWhile_append2 takeWhile_tail) (metis takeWhile_eq_all_conv)
  moreover have "dropWhile (\<lambda>c. c \<noteq> CHR '':'') (salted_hash k password salt) = CHR '':'' # hex_of_bytes (k_scrypt k password salt)"
    using assms(3) by (simp add: salted_hash_def dropWhile_fresh)
  moreover have "hex_of_bytes (k_scrypt k password salt) \<noteq> []"
    using assms(1)[of password salt] by (cases "k_scrypt k password salt") (auto simp: hex_of_bytes_def)
  ultimately show ?thesis
    using assms(2) by (simp add: verifyPassword_def Let_def takeWhile_fresh hex_of_bytes_no_colon bytes hex_bytes_of_bytes)
      (metis)
qed

lemma hashed_password_verifies:
  assumes "\<And>p x. set (k_scrypt k p x) \<subseteq> {..<256} \<and> k_scrypt k p x \<noteq> []"
  shows "\<exists>hash t. hashPassword k w password s = (Inr hash, t) \<and> verifyPassword k password hash"
proof -
  have "hex_digits 32 n \<noteq> []" for n by (metis length_hex_digits list.size(3) zero_neq_numeral)
  then show ?thesis
    using verifyPassword_salted[OF assms _ hex_digits_no_colon] by (simp add: hashPassword_def bnd_def randomUUID_run ret_def)
qed

section \<open>The token version never goes back\<close>

definition version_of :: "uuid \<Rightarrow> db \<Rightarrow> int option" where
  "version_of i s = map_option u_tokenVersion (find_user i s)"

definition never_back :: "db \<Rightarrow> db \<Rightarrow> bool" where
  "never_back s t \<longleftrightarrow> (\<forall>i v. version_of i s = Some v \<longrightarrow> (\<exists>v'. version_of i t = Some v' \<and> v \<le> v'))"

lemma never_back_refl: "never_back s s"
  by (simp add: never_back_def)

lemma never_back_trans: "never_back r s \<Longrightarrow> never_back s t \<Longrightarrow> never_back r t"
  unfolding never_back_def by (meson order_trans)

lemma never_back_users: "users t = users s \<Longrightarrow> never_back s t"
  by (auto simp: never_back_def version_of_def find_user_def)

lemma find_id_update:
  assumes "\<And>u. u_id (f u) = u_id u"
  shows "find (\<lambda>u. u_id u = i) (update_where P f us) = map_option (\<lambda>u. if P u then f u else u) (find (\<lambda>u. u_id u = i) us)"
  using assms by (induction us) auto

lemma find_update_none: "(\<And>x. P x \<Longrightarrow> \<not> P (f x)) \<Longrightarrow> find P (update_where P f us) = None"
  by (induction us) auto

lemma never_back_update:
  assumes "\<And>u. u_id (f u) = u_id u \<and> u_tokenVersion u \<le> u_tokenVersion (f u)"
  shows "never_back s (s\<lparr>users := update_where P f (users s)\<rparr>)"
proof -
  have eq: "version_of i (s\<lparr>users := update_where P f (users s)\<rparr>) =
      map_option (\<lambda>u. u_tokenVersion (if P u then f u else u)) (find_user i s)" for i
    using find_id_update[of f i P] assms by (simp add: version_of_def find_user_def option.map_comp comp_def)
  have le: "u_tokenVersion u \<le> u_tokenVersion (if P u then f u else u)" for u using assms by simp
  show ?thesis unfolding never_back_def
  proof (intro allI impI)
    fix i v assume "version_of i s = Some v"
    then obtain u where "find_user i s = Some u" "u_tokenVersion u = v" by (auto simp: version_of_def)
    then show "\<exists>v'. version_of i (s\<lparr>users := update_where P f (users s)\<rparr>) = Some v' \<and> v \<le> v'"
      unfolding eq using le[of u] by simp
  qed
qed

lemma preserves_never_back: "(\<And>s. never_back s (f s)) \<Longrightarrow> preserves (never_back s0) (modify f)"
  by (rule preserves_modify) (blast intro: never_back_trans)

lemma users_kept: "untouched users m \<Longrightarrow> preserves (never_back s0) m"
  unfolding preserves_def using untouchedD[of users m] never_back_users never_back_trans
  by (metis prod.collapse)

lemma untouched_users:
  "untouched users (createOtp k w i email purpose)" "untouched users (verifyOtp k w i purpose code)"
  "untouched users (hashPassword k w password)" "untouched users (signRefreshToken k w i)"
  "untouched users (activateForEmail w i email)" "untouched users (verifyAccountDetails w account bank)"
proof -
  have draw: "preserves (\<lambda>s. users s = c) (randomUUID w)" for c
    unfolding randomUUID_def by (intro preserves_intros preserves_modify) simp
  have mail: "preserves (\<lambda>s. users s = c) (sendMail w address content)" for c address content
    unfolding sendMail_def by (intro preserves_intros preserves_modify) simp
  note steps = preserves_intros preserves_modify draw mail
  show "untouched users (createOtp k w i email purpose)"
    unfolding createOtp_def assertOtpNotRateLimited_def generateOtpCode_def insert_code_def Let_def
    by (intro untouchedI steps) simp
  show "untouched users (verifyOtp k w i purpose code)"
    unfolding verifyOtp_def update_otp_def by (intro untouchedI steps) simp_all
  show "untouched users (hashPassword k w password)" "untouched users (signRefreshToken k w i)"
    unfolding hashPassword_def signRefreshToken_def Let_def by (intro untouchedI steps)+
  show "untouched users (verifyAccountDetails w account bank)"
    unfolding verifyAccountDetails_def by (intro untouchedI steps)
  have "preserves (\<lambda>s. users s = c) (insert_member potId j role addedBy)" for c potId j role addedBy
    by (simp add: preserves_def insert_member_def Let_def)
  then show "untouched users (activateForEmail w i email)"
    unfolding activateForEmail_def join_row_def update_pending_def Let_def by (intro untouchedI steps) simp_all
qed

lemma update_user_step:
  assumes "\<And>u. u_id (f u) = u_id u \<and> u_tokenVersion u \<le> u_tokenVersion (f u)"
  shows "preserves (never_back s0) (update_user i f)"
  unfolding update_user_def by (intro preserves_never_back never_back_update assms)

lemma user_steps:
  "preserves (never_back s0) (update_user i (set_refresh h t))" "preserves (never_back s0) (update_user i (set_verified t))"
  "preserves (never_back s0) (update_user i revoke_session)" "preserves (never_back s0) (update_user i (set_password h))"
  "preserves (never_back s0) (update_user i (set_refund_profile a b))"
  by (auto intro!: update_user_step simp: set_refresh_def set_verified_def revoke_session_def set_password_def set_refund_profile_def)

lemma rotate_step: "preserves (never_back s0) (rotate i h h' t)"
proof -
  have "never_back s (s\<lparr>users := update_where P (set_refresh h' t) (users s)\<rparr>)" for s P
    by (rule never_back_update) (simp add: set_refresh_def)
  then show ?thesis
    by (auto simp: preserves_def rotate_def split: option.splits intro: never_back_trans)
qed

lemma insert_user_step: "preserves (never_back s0) (insert_user input h)"
proof -
  have "never_back s (s\<lparr>users := users s @ [u]\<rparr>)" for s u
    by (auto simp: never_back_def version_of_def find_user_def find_append)
  then show ?thesis by (auto simp: preserves_def insert_user_def Let_def intro: never_back_trans)
qed

text \<open>What other requests do in a gap is a run of the same service.\<close>

definition honest_gap :: "env \<Rightarrow> bool" where
  "honest_gap w \<longleftrightarrow> (\<forall>s. never_back s (e_gap w s))"

lemma gap_step: "honest_gap w \<Longrightarrow> preserves (never_back s0) (in_gap w)"
  unfolding in_gap_def honest_gap_def by (blast intro: preserves_never_back)

datatype auth_call =
    Register env register_input | Resend env string otp_purpose | Verify_email env string string | Login env string string
  | Verify_login env string string | Refresh env string | Logout uuid | Refund_profile env uuid string string
  | Forgot env string | Reset env string string string

fun call_env :: "auth_call \<Rightarrow> env option" where
  "call_env (Register w _) = Some w"
| "call_env (Refresh w _) = Some w"
| "call_env _ = None"

fun run_auth :: "crypto \<Rightarrow> auth_call \<Rightarrow> db \<Rightarrow> db" where
  "run_auth k (Register w input) s = snd (registerHandler k w input s)"
| "run_auth k (Resend w email purpose) s = snd (resendOtpHandler k w email purpose s)"
| "run_auth k (Verify_email w email code) s = snd (verifyEmailHandler k w email code s)"
| "run_auth k (Login w email password) s = snd (loginHandler k w email password s)"
| "run_auth k (Verify_login w email code) s = snd (verifyLoginOtpHandler k w email code s)"
| "run_auth k (Refresh w token) s = snd (refreshHandler k w token s)"
| "run_auth k (Logout i) s = snd (logoutHandler i s)"
| "run_auth k (Refund_profile w i account bank) s = snd (updateRefundProfileHandler w i account bank s)"
| "run_auth k (Forgot w email) s = snd (forgotPasswordHandler k w email s)"
| "run_auth k (Reset w email code password) s = snd (resetPasswordHandler k w email code password s)"

definition honest_call :: "auth_call \<Rightarrow> bool" where
  "honest_call c \<longleftrightarrow> (\<forall>w. call_env c = Some w \<longrightarrow> honest_gap w)"

definition auth_calls :: "crypto \<Rightarrow> auth_call list \<Rightarrow> db \<Rightarrow> db" where
  "auth_calls k cs s = foldl (\<lambda>s c. run_auth k c s) s cs"

lemma never_back_run: "preserves (never_back s) m \<Longrightarrow> never_back s (snd (m s))"
  by (simp add: preserves_def never_back_refl)

lemmas user_op_steps = users_kept[OF untouched_users(1)] users_kept[OF untouched_users(2)] users_kept[OF untouched_users(3)]
  users_kept[OF untouched_users(4)] users_kept[OF untouched_users(5)] users_kept[OF untouched_users(6)]
  user_steps rotate_step insert_user_step gap_step

lemmas auth_ops = registerHandler_def resendOtpHandler_def verifyEmailHandler_def loginHandler_def verifyLoginOtpHandler_def
  refreshHandler_def logoutHandler_def updateRefundProfileHandler_def forgotPasswordHandler_def resetPasswordHandler_def
  register_def resendOtp_def verifyEmail_def login_def verifyLoginOtp_def refresh_def logout_def updateRefundProfile_def
  forgotPassword_def resetPassword_def issueTokenPair_def Let_def

lemma auth_call_never_back:
  assumes "honest_call c"
  shows "never_back s (run_auth k c s)"
proof (cases c)
  case (Register w input)
  then have gap: "honest_gap w" using assms by (simp add: honest_call_def)
  show ?thesis
    unfolding Register run_auth.simps auth_ops
    by (rule never_back_run) (intro preserves_intros user_op_steps gap)
next
  case (Refresh w token)
  then have gap: "honest_gap w" using assms by (simp add: honest_call_def)
  show ?thesis
    unfolding Refresh run_auth.simps auth_ops
    by (rule never_back_run) (intro preserves_intros user_op_steps gap)
qed (simp_all only: run_auth.simps auth_ops,
  (rule never_back_run, intro preserves_intros user_op_steps)+)

lemma auth_calls_never_back: "\<forall>c \<in> set cs. honest_call c \<Longrightarrow> never_back s (auth_calls k cs s)"
proof (induction cs arbitrary: s)
  case (Cons c cs)
  have "never_back s (run_auth k c s)" using Cons.prems by (simp add: auth_call_never_back)
  moreover have "never_back (run_auth k c s) (auth_calls k cs (run_auth k c s))" using Cons by simp
  ultimately show ?case by (simp add: auth_calls_def never_back_trans[of s "run_auth k c s"])
qed (simp add: auth_calls_def never_back_refl)

section \<open>Revoking\<close>

lemma find_user_id: "find_user i s = Some u \<Longrightarrow> u_id u = i"
  by (auto simp: find_user_def find_Some_iff)

lemma find_user_same: "users t = users s \<Longrightarrow> find_user i t = find_user i s"
  by (simp add: find_user_def)

lemma update_user_run: "update_user i f s = (Inr (), s\<lparr>users := update_where (\<lambda>u. u_id u = i) f (users s)\<rparr>)"
  by (simp add: update_user_def modify_def)

lemma find_updated_user:
  assumes "\<And>u. u_id (f u) = u_id u"
  shows "find_user j (s\<lparr>users := update_where (\<lambda>u. u_id u = i) f (users s)\<rparr>) =
    (if i = j then map_option f (find_user j s) else find_user j s)"
proof -
  have "find (\<lambda>u. u_id u = j) (update_where (\<lambda>u. u_id u = i) f us) =
    (if i = j then map_option f (find (\<lambda>u. u_id u = j) us) else find (\<lambda>u. u_id u = j) us)" for us
    using assms by (induction us) auto
  then show ?thesis by (simp add: find_user_def)
qed

lemma session_updates: "u_id (revoke_session u) = u_id u" "u_id (set_password h u) = u_id u" "u_id (set_refresh h t u) = u_id u"
  "u_tokenVersion (revoke_session u) = u_tokenVersion u + 1" "u_tokenVersion (set_password h u) = u_tokenVersion u + 1"
  "u_tokenVersion (set_refresh h t u) = u_tokenVersion u"
  by (simp_all add: revoke_session_def set_password_def set_refresh_def)

lemma logout_version: "version_of i s = Some v \<Longrightarrow> version_of i (snd (logout i s)) = Some (v + 1)"
  by (auto simp: logout_def update_user_run version_of_def find_updated_user session_updates)

lemma reset_version:
  assumes "resetPassword k w email code password s = (Inr (), t)" and "find_email email s = Some u" and "version_of (u_id u) s = Some v"
  shows "version_of (u_id u) t = Some (v + 1)"
proof -
  obtain t1 h t2 where steps: "verifyOtp k w (u_id u) password_reset code s = (Inr (), t1)"
    "hashPassword k w password t1 = (Inr h, t2)" "update_user (u_id u) (set_password h) t2 = (Inr (), t)"
    using assms(1,2) by (auto simp: resetPassword_def bnd_Inr_iff gets_def)
  have "users t2 = users s"
    using untouchedD[OF untouched_users(2) steps(1)] untouchedD[OF untouched_users(3) steps(2)] by simp
  then have "find_user (u_id u) t2 = find_user (u_id u) s" by (rule find_user_same)
  then show ?thesis
    using steps(3) assms(3) by (auto simp: update_user_run version_of_def find_updated_user session_updates)
qed

lemma refresh_unfold:
  assumes "k_verifyRefresh k (e_now w) token = Some (i, jti)" and "find_user i s = Some u"
    and "truthy (u_refreshTokenHash u)" and "u_refreshTokenExpiresAt u = Some x" and "\<not> x < e_now w"
  shows "refresh k w token s =
    (let n = uuid_text (e_uuid w (randomDraws s)); s1 = e_gap w (s\<lparr>randomDraws := Suc (randomDraws s)\<rparr>) in
     case rotate i (k_sha k jti) (k_sha k n) (e_now w + REFRESH_TOKEN_TTL_DAYS * 24 * 60 * 60 * 1000) s1 of
       (Inr (Some version), s2) \<Rightarrow> (Inr (k_signAccess k i version (e_now w), k_signRefresh k i n (e_now w)), s2)
     | (_, s2) \<Rightarrow> (Inl reuse_detected, snd (update_user i revoke_session s2)))"
proof -
  have "\<exists>r s2. rotate i h h' t z = (Inr r, s2)" for h h' t z by (simp add: rotate_def split: option.split)
  then obtain r s2 where r: "rotate i (k_sha k jti) (k_sha k (uuid_text (e_uuid w (randomDraws s))))
      (e_now w + REFRESH_TOKEN_TTL_DAYS * 24 * 60 * 60 * 1000) (e_gap w (s\<lparr>randomDraws := Suc (randomDraws s)\<rparr>)) = (Inr r, s2)"
    by blast
  show ?thesis
    using assms find_user_id[OF assms(2)] r
    by (cases r) (simp_all add: refresh_def signRefreshToken_def randomUUID_run in_gap_def hashToken_def Let_def bnd_run[where m = "rotate _ _ _ _"]
        bnd_run[where m = "randomUUID w", OF randomUUID_run] bnd_assoc update_user_run bnd_def gets_def ret_def throw_def modify_def require_def)
qed

lemma refresh_reached:
  assumes "refresh k w token s = (r, t)" and "r = Inl reuse_detected \<or> (\<exists>x. r = Inr x)" and "k_verifyRefresh k (e_now w) token = Some (i, jti)"
  shows "\<exists>u x. find_user i s = Some u \<and> truthy (u_refreshTokenHash u) \<and> u_refreshTokenExpiresAt u = Some x \<and> \<not> x < e_now w"
proof -
  obtain u where u: "find_user i s = Some u"
    using assms by (cases "find_user i s")
      (auto simp: refresh_def gets_def bnd_def throw_def session_invalid_def reuse_detected_def)
  have "truthy (u_refreshTokenHash u) \<and> u_refreshTokenExpiresAt u \<noteq> None"
    using assms u by (cases "truthy (u_refreshTokenHash u) \<and> u_refreshTokenExpiresAt u \<noteq> None")
      (auto simp: refresh_def gets_def bnd_def throw_def session_invalid_def reuse_detected_def require_def)
  moreover have "\<not> the (u_refreshTokenExpiresAt u) < e_now w"
    using assms u calculation by (cases "the (u_refreshTokenExpiresAt u) < e_now w")
      (auto simp: refresh_def gets_def bnd_def throw_def ret_def reuse_detected_def require_def)
  ultimately show ?thesis using u by auto
qed

lemma refresh_reuse_version:
  assumes "refresh k w token s = (Inl reuse_detected, t)" and "k_verifyRefresh k (e_now w) token = Some (i, jti)"
    and "version_of i s = Some v" and "honest_gap w"
  shows "\<exists>v'. version_of i t = Some v' \<and> v < v'"
proof -
  obtain u x where u: "find_user i s = Some u" "truthy (u_refreshTokenHash u)" "u_refreshTokenExpiresAt u = Some x" "\<not> x < e_now w"
    using refresh_reached[OF assms(1) _ assms(2)] by blast
  let ?s1 = "e_gap w (s\<lparr>randomDraws := Suc (randomDraws s)\<rparr>)" and ?n = "uuid_text (e_uuid w (randomDraws s))"
  let ?m = "rotate i (k_sha k jti) (k_sha k ?n) (e_now w + REFRESH_TOKEN_TTL_DAYS * 24 * 60 * 60 * 1000)"
  have "never_back s (s\<lparr>randomDraws := Suc (randomDraws s)\<rparr>)" by (rule never_back_users) simp
  then have "never_back s ?s1" using assms(4) unfolding honest_gap_def by (blast intro: never_back_trans)
  then obtain v1 where v1: "version_of i ?s1 = Some v1" "v \<le> v1" using assms(3) unfolding never_back_def by blast
  have "?m ?s1 = (Inr None, ?s1) \<or> (\<exists>a s2. ?m ?s1 = (Inr (Some a), s2))" by (simp add: rotate_def split: option.split)
  then have "t = snd (update_user i revoke_session ?s1)"
    using assms(1) unfolding refresh_unfold[OF assms(2) u] Let_def by auto
  then have "version_of i t = Some (v1 + 1)"
    using logout_version[OF v1(1)] by (simp add: logout_def)
  then show ?thesis using v1(2) by auto
qed

text \<open>A call that ends the sessions of user \<open>i\<close>: a logout, a password reset, or the reuse of a refresh token.\<close>

definition ends_sessions :: "crypto \<Rightarrow> uuid \<Rightarrow> auth_call \<Rightarrow> db \<Rightarrow> bool" where
  "ends_sessions k i c s = (case c of
     Logout j \<Rightarrow> j = i
   | Reset w email code password \<Rightarrow>
       map_option u_id (find_email email s) = Some i \<and> fst (resetPassword k w email code password s) = Inr ()
   | Refresh w token \<Rightarrow>
       map_option fst (k_verifyRefresh k (e_now w) token) = Some i \<and> fst (refresh k w token s) = Inl reuse_detected
   | _ \<Rightarrow> False)"

lemma snd_seq_ret: "snd (bnd m (\<lambda>x. ret (f x)) s) = snd (m s)"
  by (simp add: bnd_def ret_def split: prod.split sum.split)

lemma ended_version:
  assumes "ends_sessions k i c s" and "version_of i s = Some v" and "honest_call c"
  shows "\<exists>v'. version_of i (run_auth k c s) = Some v' \<and> v < v'"
proof (cases c)
  case (Logout j)
  then show ?thesis using assms(1,2) logout_version[of i s v] by (simp add: ends_sessions_def logoutHandler_def snd_seq_ret)
next
  case (Reset w email code password)
  then obtain u where u: "find_email email s = Some u" "u_id u = i" using assms(1) by (auto simp: ends_sessions_def)
  obtain t where t: "resetPassword k w email code password s = (Inr (), t)"
    using assms(1) Reset by (cases "resetPassword k w email code password s") (auto simp: ends_sessions_def)
  have "run_auth k c s = t" by (simp add: Reset resetPasswordHandler_def snd_seq_ret t)
  then show ?thesis using reset_version[OF t u(1)] u(2) assms(2) by simp
next
  case (Refresh w token)
  then obtain jti where jti: "k_verifyRefresh k (e_now w) token = Some (i, jti)" using assms(1) by (auto simp: ends_sessions_def)
  obtain t where t: "refresh k w token s = (Inl reuse_detected, t)"
    using assms(1) Refresh by (cases "refresh k w token s") (auto simp: ends_sessions_def)
  have "run_auth k c s = t" by (simp add: Refresh refreshHandler_def snd_seq_ret t)
  moreover have "honest_gap w" using assms(3) Refresh by (simp add: honest_call_def)
  ultimately show ?thesis using refresh_reuse_version[OF t jti assms(2)] by simp
qed (use assms(1) in \<open>simp_all add: ends_sessions_def\<close>)

text \<open>C26. A revoked access token stays revoked. After a logout, a password reset or the reuse of a refresh token of a
  user, and any calls after it, an access token with a version the user had reached before is refused, on protected
  routes with a 401 and on optional ones as anonymous, though its signature still verifies.\<close>

theorem revoked_access_stays_revoked:
  assumes "version_of i s = Some v" and "issued \<le> v"
    and "ends_sessions k i c s" and "list_all honest_call (c # cs)"
    and "k_verifyAccess k (e_now w) token = Some (i, issued)"
  shows "authenticate k w (Some token) (auth_calls k (c # cs) s) = Inl (refused 401 ''Unauthorized'' None) \<and>
    optionalAuthenticate k w (Some token) (auth_calls k (c # cs) s) = None"
proof -
  obtain v1 where v1: "version_of i (run_auth k c s) = Some v1" "v < v1"
    using ended_version[OF assms(3,1)] assms(4) by auto
  have "never_back (run_auth k c s) (auth_calls k cs (run_auth k c s))"
    using assms(4) by (intro auth_calls_never_back) (simp add: list_all_iff)
  then obtain v2 where "version_of i (auth_calls k (c # cs) s) = Some v2" "v1 \<le> v2"
    using v1(1) unfolding never_back_def by (auto simp: auth_calls_def)
  then have "\<not> isTokenVersionCurrent i issued (auth_calls k (c # cs) s)"
    using v1(2) assms(2) by (auto simp: isTokenVersionCurrent_def version_of_def)
  then show ?thesis using assms(5) by (simp add: authenticate_def optionalAuthenticate_def)
qed

text \<open>Tokens to look at: the verifiers know them by their first letter.\<close>

definition example_crypto :: crypto where
  "example_crypto = \<lparr>k_sha = id, k_scrypt = (\<lambda>p salt. [7]), k_dummySalt = ''00'', k_signRefresh = (\<lambda>i jti now. CHR ''r'' # jti),
     k_verifyRefresh = (\<lambda>now t. if take 1 t = ''r'' then Some (1, tl t) else None),
     k_signAccess = (\<lambda>i v now. CHR ''a'' # replicate (nat v) CHR ''i''),
     k_verifyAccess = (\<lambda>now t. if take 1 t = ''a'' then Some (1, int (length (tl t))) else None)\<rparr>"

definition session_user :: user where
  "session_user = \<lparr>u_id = 1, u_email = ''ada@x.ng'', u_username = ''ada'', u_passwordHash = ''00:07'', u_fullName = ''Ada Obi'',
     u_phone = None, u_emailVerifiedAt = Some 0, u_refreshTokenHash = Some ''first'', u_refreshTokenExpiresAt = Some 50,
     u_tokenVersion = 0, u_defaultRefundAccount = None, u_defaultRefundBank = None\<rparr>"

definition session_db :: db where
  "session_db = empty_db\<lparr>users := [session_user]\<rparr>"

theorem revoked_access_stays_revoked_witness:
  "authenticate example_crypto example_env (Some ''a'') session_db = (Inr 1 :: unit http + uuid) \<and>
   authenticate example_crypto example_env (Some ''a'') (auth_calls example_crypto [Logout 1] session_db) =
     (Inl (refused 401 ''Unauthorized'' None) :: unit http + uuid)"
proof -
  have version: "version_of 1 session_db = Some 0"
    by (simp add: version_of_def find_user_def session_db_def session_user_def)
  have "authenticate example_crypto example_env (Some ''a'') session_db = (Inr 1 :: unit http + uuid)"
    using version by (auto simp: authenticate_def example_crypto_def isTokenVersionCurrent_def version_of_def)
  moreover have "authenticate example_crypto example_env (Some ''a'') (auth_calls example_crypto [Logout 1] session_db) =
     (Inl (refused 401 ''Unauthorized'' None) :: unit http + uuid)"
  proof (rule conjunct1, rule revoked_access_stays_revoked[OF version])
    show "k_verifyAccess example_crypto (e_now example_env) ''a'' = Some (1, 0)" by (simp add: example_crypto_def)
  qed (simp_all add: ends_sessions_def honest_call_def)
  ultimately show ?thesis ..
qed

section \<open>Refresh tokens\<close>

text \<open>C27. A refresh token works once. After it was exchanged, presenting it again is detected while the session lasts: it
  is refused with a 401, the session and the access tokens of the user are revoked, and the token it was exchanged
  for is refused too (two token ids with different hashes, and no other request in between).\<close>

theorem refresh_reuse_ends_session:
  assumes first: "refresh k w token s = (Inr (access, newToken), s1)"
    and token: "k_verifyRefresh k (e_now w) token = Some (i, jti)" "k_verifyRefresh k (e_now w') token = Some (i, jti)"
    and distinct_ids: "distinct (map u_id (users s))"
    and quiet: "e_gap w = id" "e_gap w' = id"
    and hashes: "k_sha k (uuid_text (e_uuid w (randomDraws s))) \<noteq> k_sha k jti" "k_sha k (uuid_text (e_uuid w (randomDraws s))) \<noteq> []"
    and alive: "e_now w' \<le> e_now w + REFRESH_TOKEN_TTL_DAYS * 24 * 60 * 60 * 1000"
  shows "\<exists>s2 v. refresh k w' token s1 = (Inl reuse_detected, s2) \<and>
    version_of i s = Some v \<and> access = k_signAccess k i v (e_now w) \<and> version_of i s2 = Some (v + 1) \<and>
    (\<forall>w2 jti2. k_verifyRefresh k (e_now w2) newToken = Some (i, jti2) \<longrightarrow> refresh k w2 newToken s2 = (Inl session_invalid, s2))"
proof -
  let ?n = "k_sha k (uuid_text (e_uuid w (randomDraws s)))" and ?x = "e_now w + REFRESH_TOKEN_TTL_DAYS * 24 * 60 * 60 * 1000"
  let ?d = "s\<lparr>randomDraws := Suc (randomDraws s)\<rparr>" and ?P = "\<lambda>u. u_id u = i \<and> u_refreshTokenHash u = Some (k_sha k jti)"
  obtain u x where u: "find_user i s = Some u" "truthy (u_refreshTokenHash u)" "u_refreshTokenExpiresAt u = Some x" "\<not> x < e_now w"
    using refresh_reached[OF first _ token(1)] by blast
  obtain v s1' where rot: "rotate i (k_sha k jti) ?n ?x ?d = (Inr (Some v), s1')"
    "access = k_signAccess k i v (e_now w)" "s1' = s1"
    using first unfolding refresh_unfold[OF token(1) u] Let_def quiet(1)
    by (auto simp: rotate_def split: option.splits)
  obtain u1 where u1: "find ?P (users s) = Some u1" "v = u_tokenVersion u1" "s1 = ?d\<lparr>users := update_where ?P (set_refresh ?n ?x) (users s)\<rparr>"
    using rot(1,3) by (auto simp: rotate_def split: option.splits)
  have same: "u1 = u"
    using u1(1) u(1) distinct_ids by (auto simp: find_user_def find_Some_iff distinct_conv_nth nth_eq_iff_index_eq)
  have matched: "?P u" using find_SomeD[OF u1(1)] unfolding same by blast
  have "find (\<lambda>u. u_id u = i) (update_where ?P (set_refresh ?n ?x) (users s)) =
      map_option (\<lambda>u. if ?P u then set_refresh ?n ?x u else u) (find (\<lambda>u. u_id u = i) (users s))"
    by (rule find_id_update) (rule session_updates(3))
  then have found1: "find_user i s1 = Some (set_refresh ?n ?x u)"
    using u(1) matched unfolding find_user_def u1(3) by simp
  have none: "find ?P (users s1) = None"
    unfolding u1(3) by simp (rule find_update_none, use hashes(1) in \<open>simp add: set_refresh_def\<close>)
  let ?u = "set_refresh ?n ?x u" and ?d1 = "s1\<lparr>randomDraws := Suc (randomDraws s1)\<rparr>"
  have live: "truthy (u_refreshTokenHash ?u)" "u_refreshTokenExpiresAt ?u = Some ?x" "\<not> ?x < e_now w'"
    using hashes(2) alive by (simp_all add: set_refresh_def truthy_def)
  let ?s2 = "snd (update_user i revoke_session ?d1)"
  have again: "refresh k w' token s1 = (Inl reuse_detected, ?s2)"
    unfolding refresh_unfold[OF token(2) found1 live] Let_def quiet(2) by (simp add: rotate_def none)
  have "find_user i ?s2 = map_option revoke_session (find_user i ?d1)"
    unfolding update_user_run snd_conv by (subst find_updated_user) (rule session_updates(1), simp)
  moreover have "find_user i ?d1 = Some ?u" using found1 by (simp add: find_user_def)
  ultimately have revoked: "find_user i ?s2 = Some (revoke_session ?u)" by simp
  have "version_of i s = Some v" "version_of i ?s2 = Some (v + 1)"
    using u(1) u1(2) same revoked by (simp_all add: version_of_def session_updates)
  moreover have "refresh k w2 newToken ?s2 = (Inl session_invalid, ?s2)" if "k_verifyRefresh k (e_now w2) newToken = Some (i, jti2)" for w2 jti2
    using that revoked by (simp add: refresh_def gets_def bnd_def require_def throw_def truthy_def revoke_session_def)
  ultimately show ?thesis using again rot(2) by blast
qed

theorem refresh_reuse_ends_session_witness:
  "fst (refresh example_crypto example_env ''rfirst'' session_db) \<noteq> Inl reuse_detected \<and>
   fst (refresh example_crypto example_env ''rfirst'' (snd (refresh example_crypto example_env ''rfirst'' session_db))) = Inl reuse_detected"
proof -
  have token: "k_verifyRefresh example_crypto (e_now example_env) ''rfirst'' = Some (1, ''first'')" by (simp add: example_crypto_def)
  have u: "find_user 1 session_db = Some session_user" by (simp add: find_user_def session_db_def session_user_def)
  have "\<exists>a b t. refresh example_crypto example_env ''rfirst'' session_db = (Inr (a, b), t)"
    using refresh_unfold[OF token u, of 50]
    by (simp add: Let_def rotate_def session_db_def session_user_def example_env_def example_crypto_def truthy_def)
  then obtain a b t where run: "refresh example_crypto example_env ''rfirst'' session_db = (Inr (a, b), t)" by blast
  have fresh: "k_sha example_crypto (uuid_text x) \<noteq> k_sha example_crypto ''first''" "k_sha example_crypto (uuid_text x) \<noteq> []" for x
    using length_uuid_text[of x] by (auto simp: example_crypto_def)
  have "fst (refresh example_crypto example_env ''rfirst'' t) = Inl reuse_detected"
    using refresh_reuse_ends_session[OF run token token _ _ _ fresh]
    by (auto simp: session_db_def empty_db_def example_env_def REFRESH_TOKEN_TTL_DAYS_def)
  then show ?thesis using run by simp
qed

section \<open>Signing in\<close>

text \<open>C28. Signing in takes the mailed code. Tokens are only issued for the user's newest unconsumed login code, before it
  expires and before its fifth failed attempt, when the code given hashes to the stored hash; that code and only that
  one is consumed. A refused attempt issues nothing and leaves the users as they were.\<close>

theorem sign_in_needs_code:
  "case verifyLoginOtp k w email code s of
     (Inr ((access, refreshToken), pu), t) \<Rightarrow> \<exists>u r. find_email email s = Some u \<and> pu = toPublicUser u \<and>
       active_otp (u_id u) login_purpose s = Some r \<and> e_now w \<le> oc_expiresAt r \<and> oc_attemptCount r < oc_maxAttempts r \<and>
       k_sha k code = oc_codeHash r \<and> access = k_signAccess k (u_id u) (u_tokenVersion u) (e_now w) \<and>
       otpCodes t = update_where (\<lambda>x. oc_id x = oc_id r) (consume_otp (e_now w)) (otpCodes s)
   | (Inl e, t) \<Rightarrow> users t = users s"
proof -
  obtain v t where run: "verifyLoginOtp k w email code s = (v, t)" by fastforce
  show ?thesis
  proof (cases v)
    case (Inr x)
    obtain access refreshToken pu where x: "x = ((access, refreshToken), pu)" by (metis prod.collapse)
    obtain u s1 where u: "find_email email s = Some u" "verifyOtp k w (u_id u) login_purpose code s = (Inr (), s1)"
      "issueTokenPair k w (u_id u) (u_tokenVersion u) s1 = (Inr (access, refreshToken), t)" "pu = toPublicUser u"
      using run unfolding Inr x
      by (auto simp: verifyLoginOtp_def gets_def bnd_Inr_iff ret_def throw_def split: option.splits)
    obtain r where r: "active_otp (u_id u) login_purpose s = Some r" "e_now w \<le> oc_expiresAt r" "oc_attemptCount r < oc_maxAttempts r"
      "k_sha k code = oc_codeHash r" "s1 = s\<lparr>otpCodes := update_where (\<lambda>x. oc_id x = oc_id r) (consume_otp (e_now w)) (otpCodes s)\<rparr>"
      using u(2) by (auto simp: verifyOtp_def gets_def bnd_Inr_iff require_Inr_iff throw_def update_otp_def modify_def verifyOtpCode_iff
          split: option.splits if_splits)
    have "access = k_signAccess k (u_id u) (u_tokenVersion u) (e_now w) \<and> otpCodes t = otpCodes s1"
      using u(3) by (auto simp: issueTokenPair_def signRefreshToken_def bnd_run[OF randomUUID_run] bnd_assoc update_user_def modify_def ret_def bnd_def
          randomUUID_run Let_def)
    then show ?thesis using u(1,4) r unfolding run Inr x by auto
  next
    case (Inl e)
    have tokens: "\<exists>x t. issueTokenPair k w i v z = (Inr x, t)" for i v z
      by (simp add: issueTokenPair_def signRefreshToken_def bnd_def randomUUID_run update_user_def modify_def ret_def Let_def)
    have "users t = users s"
    proof (cases "find_email email s")
      case (Some u)
      obtain r1 s1 where s1: "verifyOtp k w (u_id u) login_purpose code s = (r1, s1)" by fastforce
      have "r1 = Inl e \<and> t = s1"
        using run tokens[of "u_id u" "u_tokenVersion u" s1] unfolding Inl
        by (cases r1) (auto simp: verifyLoginOtp_def Some gets_def bnd_def s1 ret_def split: sum.splits prod.splits)
      then show ?thesis using untouchedD[OF untouched_users(2) s1] by simp
    qed (use run in \<open>simp add: verifyLoginOtp_def gets_def bnd_def throw_def\<close>)
    then show ?thesis unfolding run Inl by simp
  qed
qed

lemma codes_append: "auth_codes i purpose (s\<lparr>otpCodes := rows @ [r]\<rparr>) =
    auth_codes i purpose (s\<lparr>otpCodes := rows\<rparr>) @ (if oc_userId r = i \<and> oc_purpose r = purpose then [r] else [])"
  by (simp add: auth_codes_def)

definition auth_row :: "crypto \<Rightarrow> env \<Rightarrow> uuid \<Rightarrow> otp_purpose \<Rightarrow> db \<Rightarrow> otp_code" where
  "auth_row k w i purpose s =
     \<lparr>oc_id = fresh_id (map oc_id (otpCodes s)), oc_userId = i, oc_purpose = purpose, oc_codeHash = k_sha k (issued_code w s),
      oc_attemptCount = 0, oc_maxAttempts = 5, oc_expiresAt = auth_otpExpiry w, oc_consumedAt = None, oc_createdAt = e_now w\<rparr>"

definition auth_mail :: "env \<Rightarrow> otp_purpose \<Rightarrow> db \<Rightarrow> string" where
  "auth_mail w purpose s = otpEmail_text (issued_code w s) (''Use this code to '' @ otpPurposeLabel purpose @ ''.'') (nat AUTH_OTP_TTL_MINUTES)"

lemma first_createOtp:
  assumes "auth_codes i purpose s = []" and "e_sendMail w email = None"
  shows "createOtp k w i email purpose s = (Inr (issued_code w s),
    s\<lparr>randomDraws := Suc (randomDraws s), otpCodes := otpCodes s @ [auth_row k w i purpose s],
      sentMails := sentMails s @ [(email, auth_mail w purpose s)]\<rparr>)"
proof -
  have quiet: "assertOtpNotRateLimited w i purpose s = (Inr (), s)"
    using assms(1) by (simp add: assertOtpNotRateLimited_def gets_def bnd_def ret_def require_def OTP_MAX_PER_HOUR_def)
  have code: "generateOtpCode w s = (Inr (issued_code w s), s\<lparr>randomDraws := Suc (randomDraws s)\<rparr>)"
    by (simp add: generateOtpCode_def bnd_run[OF randomUUID_run] issued_code_def ret_def)
  show ?thesis
    by (simp add: createOtp_def bnd_run[where m = "assertOtpNotRateLimited w i purpose", OF quiet]
        bnd_run[where m = "generateOtpCode w", OF code] insert_code_def sendMail_def assms(2) auth_mail_def auth_row_def
        hashOtpCode_def ret_def)
qed

text \<open>C29. The mailbox alone signs a user in. Anybody may ask for a login code by email address, and whoever reads the
  mail signs in with it: the password is never asked for, nor whether the account's own email was verified. (For a user
  with no login code on record, and a mail that goes out.)\<close>

theorem login_code_without_password:
  assumes "find_email email s = Some u" and "auth_codes (u_id u) login_purpose s = []" and "e_sendMail w (u_email u) = None"
    and "e_now w' \<le> e_now w + 600000"
  shows "\<exists>code t t' tokens. resendOtp k w email login_purpose s = (Inr (), t) \<and>
    sentMails t = sentMails s @ [(u_email u, otpEmail_text code ''Use this code to log in.'' 10)] \<and>
    verifyLoginOtp k w' email code t = (Inr (tokens, toPublicUser u), t')"
proof -
  let ?row = "auth_row k w (u_id u) login_purpose s" and ?code = "issued_code w s"
  let ?t = "s\<lparr>randomDraws := Suc (randomDraws s), otpCodes := otpCodes s @ [?row],
      sentMails := sentMails s @ [(u_email u, auth_mail w login_purpose s)]\<rparr>"
  have sent: "resendOtp k w email login_purpose s = (Inr (), ?t)"
    by (simp add: resendOtp_def gets_def bnd_def assms(1) first_createOtp[OF assms(2,3)] ret_def)
  have mail: "auth_mail w login_purpose s = otpEmail_text ?code ''Use this code to log in.'' 10"
    by (simp add: auth_mail_def AUTH_OTP_TTL_MINUTES_def)
  have codes: "auth_codes (u_id u) login_purpose ?t = [?row]"
    using assms(2) by (simp add: auth_codes_def auth_row_def)
  have active: "active_otp (u_id u) login_purpose ?t = Some ?row"
    unfolding active_otp_def codes by (simp add: auth_row_def newest_by_def)
  have passed: "\<exists>t1. verifyOtp k w' (u_id u) login_purpose ?code ?t = (Inr (), t1)"
    using assms(4)
    by (simp add: verifyOtp_def gets_def bnd_def active require_def ret_def update_otp_def modify_def verifyOtpCode_iff)
      (simp add: auth_row_def auth_otpExpiry_def AUTH_OTP_TTL_MINUTES_def)
  then obtain t1 where t1: "verifyOtp k w' (u_id u) login_purpose ?code ?t = (Inr (), t1)" by blast
  obtain tokens t' where t': "issueTokenPair k w' (u_id u) (u_tokenVersion u) t1 = (Inr tokens, t')"
    by (simp add: issueTokenPair_def signRefreshToken_def bnd_def randomUUID_run update_user_def modify_def ret_def Let_def)
  have email: "find_email email ?t = Some u" using assms(1) by (simp add: find_email_def)
  have "verifyLoginOtp k w' email ?code ?t = (Inr (tokens, toPublicUser u), t')"
    by (simp add: verifyLoginOtp_def gets_def bnd_run email bnd_run[where m = "verifyOtp k w' (u_id u) login_purpose ?code", OF t1]
        bnd_run[where m = "issueTokenPair k w' (u_id u) (u_tokenVersion u)", OF t'] ret_def del: bnd_gets)
  then show ?thesis using sent mail by (intro exI[of _ ?code] exI[of _ ?t] exI[of _ t'] exI[of _ tokens]) simp
qed

theorem login_code_without_password_witness:
  "\<exists>code t t' tokens. resendOtp example_crypto example_env ''ada@x.ng'' login_purpose session_db = (Inr (), t) \<and>
    verifyLoginOtp example_crypto example_env ''ada@x.ng'' code t = (Inr (tokens, toPublicUser session_user), t')"
proof -
  have "find_email ''ada@x.ng'' session_db = Some session_user" "auth_codes (u_id session_user) login_purpose session_db = []"
    "e_sendMail example_env (u_email session_user) = None" "e_now example_env \<le> e_now example_env + 600000"
    by (simp_all add: find_email_def session_db_def session_user_def auth_codes_def empty_db_def example_env_def)
  from login_code_without_password[OF this] show ?thesis by blast
qed

text \<open>Asking twice tells whether an address has an account: the second request within a minute is a 429 for one that
  has and the generic answer for one that has not.\<close>

lemma assert_limited:
  "newest_by oc_createdAt (auth_codes i purpose s) = Some l \<Longrightarrow> e_now w - oc_createdAt l < AUTH_OTP_RESEND_COOLDOWN_SECONDS * 1000 \<Longrightarrow>
   assertOtpNotRateLimited w i purpose s = (Inl (RateLimitError ''Please wait before requesting another code''
     (AUTH_OTP_RESEND_COOLDOWN_SECONDS - (e_now w - oc_createdAt l) div 1000)), s)"
  by (simp add: assertOtpNotRateLimited_def gets_def bnd_def require_def Let_def throw_def)

lemma second_request_reveals_account:
  assumes "find_email email s = Some u" and "auth_codes (u_id u) password_reset s = []" and "e_sendMail w (u_email u) = None"
    and "find_email other s = None"
  shows "fst (forgotPasswordHandler k w email (snd (forgotPasswordHandler k w email s))) =
      Inr (refused 429 ''Please wait before requesting another code'' (Some 60))"
    and "fst (forgotPasswordHandler k w other (snd (forgotPasswordHandler k w other s))) =
      Inr (answered 200 (said ''If the account exists, a password reset code has been sent.''))"
proof -
  let ?row = "auth_row k w (u_id u) password_reset s"
  let ?t = "s\<lparr>randomDraws := Suc (randomDraws s), otpCodes := otpCodes s @ [?row],
      sentMails := sentMails s @ [(u_email u, auth_mail w password_reset s)]\<rparr>"
  have t: "snd (forgotPasswordHandler k w email s) = ?t"
    by (simp add: forgotPasswordHandler_def forgotPassword_def gets_def bnd_def assms(1) first_createOtp[OF assms(2,3)] ret_def)
  have codes: "auth_codes (u_id u) password_reset ?t = [?row]" using assms(2) by (simp add: auth_codes_def auth_row_def)
  have "find_email email ?t = Some u" using assms(1) by (simp add: find_email_def)
  moreover have "createOtp k w (u_id u) (u_email u) password_reset ?t =
      (Inl (RateLimitError ''Please wait before requesting another code'' 60), ?t)"
  proof -
    have "newest_by oc_createdAt (auth_codes (u_id u) password_reset ?t) = Some ?row" unfolding codes by (simp add: newest_by_def)
    from assert_limited[OF this, of w] show ?thesis
      unfolding createOtp_def by (intro bnd_fail) (simp add: auth_row_def AUTH_OTP_RESEND_COOLDOWN_SECONDS_def)
  qed
  ultimately show "fst (forgotPasswordHandler k w email (snd (forgotPasswordHandler k w email s))) =
      Inr (refused 429 ''Please wait before requesting another code'' (Some 60))"
    unfolding t by (simp add: forgotPasswordHandler_def forgotPassword_def gets_def bnd_def respond_run sendErrorResponse_def)
  show "fst (forgotPasswordHandler k w other (snd (forgotPasswordHandler k w other s))) =
      Inr (answered 200 (said ''If the account exists, a password reset code has been sent.''))"
    by (simp add: forgotPasswordHandler_def forgotPassword_def gets_def bnd_def assms(4) respond_run ret_def)
qed

end
