(* ===== verification/Pots_Laws.thy ===== *)
theory Pots_Laws
  imports Pot_Frames Auth_Laws
begin

text \<open>
  What holds of pots across their API. \<open>pot_call\<close> is one call of a handler of the account API (registering,
  verifying an email, signing in and the others of \<open>auth_call\<close>) or of the pots API; \<open>good\<close> is the invariant of the states these calls reach and \<open>progress\<close> what
  every sequence of calls does to a pot that is no longer a draft.
\<close>

section \<open>The invariant and the relation\<close>

definition wf_configs :: "db \<Rightarrow> bool" where
  "wf_configs s \<longleftrightarrow> distinct (map sc_id (scheduledPayoutConfigs s))"

definition live_admin :: "db \<Rightarrow> bool" where
  "live_admin s \<longleftrightarrow> (\<forall>p\<in>set (pots s). pot_status p \<noteq> draft \<longrightarrow> has_admin s (pot_id p))"

definition good :: "db \<Rightarrow> bool" where
  "good s \<longleftrightarrow> wf_pots s \<and> wf_configs s \<and> administered {} s \<and> live_admin s"

text \<open>A pot without its status, its lock and the times of its transitions.\<close>

definition rules :: "pot \<Rightarrow> pot" where
  "rules p = (clear_lock p)\<lparr>pot_status := draft, pot_activatedAt := None, pot_closedAt := None, pot_updatedAt := 0\<rparr>"

text \<open>The payout rules stored for the pots a predicate selects.\<close>

definition config_rows :: "(uuid \<Rightarrow> bool) \<Rightarrow> db \<Rightarrow> target_based_config list \<times> manual_config list \<times> recurring_config list \<times>
    scheduled_config list \<times> scheduled_leg list" where
  "config_rows Q s =
     (filter (Q \<circ> tb_potId) (targetBasedPayoutConfigs s), filter (Q \<circ> mc_potId) (manualPayoutConfigs s),
      filter (Q \<circ> rc_potId) (recurringPayoutConfigs s), filter (Q \<circ> sc_potId) (scheduledPayoutConfigs s),
      filter (\<lambda>l. \<exists>c\<in>set (scheduledPayoutConfigs s). Q (sc_potId c) \<and> sl_scheduledConfigId l = sc_id c) (scheduledPayoutLegs s))"

definition progress :: "db \<Rightarrow> db \<Rightarrow> bool" where
  "progress s t \<longleftrightarrow> (\<forall>p\<in>set (pots s). pot_status p \<noteq> draft \<longrightarrow>
     (\<exists>q\<in>set (pots t). pot_id q = pot_id p \<and> pot_status p \<le> pot_status q \<and> rules q = rules p) \<and>
     config_rows ((=) (pot_id p)) t = config_rows ((=) (pot_id p)) s)"

definition advances :: "db \<Rightarrow> db \<Rightarrow> bool" where
  "advances s t \<longleftrightarrow> good t \<and> progress s t"

lemma progress_refl: "progress s s"
  by (auto simp: progress_def)

lemma status_le_draft: "pot_status p \<le> pot_status q \<Longrightarrow> pot_status p \<noteq> draft \<Longrightarrow> pot_status q \<noteq> draft"
  by (cases "pot_status p"; cases "pot_status q") (auto simp: less_eq_pot_status_def)

lemma progress_trans:
  assumes "progress s t" and "progress t u"
  shows "progress s u"
  unfolding progress_def
proof (intro ballI impI conjI)
  fix p assume p: "p \<in> set (pots s)" "pot_status p \<noteq> draft"
  then obtain q where q: "q \<in> set (pots t)" "pot_id q = pot_id p" "pot_status p \<le> pot_status q" "rules q = rules p"
    and c: "config_rows ((=) (pot_id p)) t = config_rows ((=) (pot_id p)) s"
    using assms(1) unfolding progress_def by blast
  then obtain r where r: "r \<in> set (pots u)" "pot_id r = pot_id q" "pot_status q \<le> pot_status r" "rules r = rules q"
    and d: "config_rows ((=) (pot_id q)) u = config_rows ((=) (pot_id q)) t"
    using assms(2) status_le_draft[OF q(3) p(2)] unfolding progress_def by blast
  show "\<exists>r\<in>set (pots u). pot_id r = pot_id p \<and> pot_status p \<le> pot_status r \<and> rules r = rules p"
    using q r by (intro bexI[of _ r]) auto
  show "config_rows ((=) (pot_id p)) u = config_rows ((=) (pot_id p)) s"
    using c d q(2) by simp
qed

lemma advances_trans: "advances s t \<Longrightarrow> advances t u \<Longrightarrow> advances s u"
  unfolding advances_def using progress_trans by blast

text \<open>A step that keeps the pots up to their locks, and the rules.\<close>

lemma rules_clear: "rules (clear_lock p) = rules p" "pot_id (clear_lock p) = pot_id p" "pot_status (clear_lock p) = pot_status p"
  by (simp_all add: rules_def clear_lock_def)

lemma clear_lock_image:
  assumes "map clear_lock ps = map clear_lock qs" and "q \<in> set qs"
  shows "\<exists>p\<in>set ps. pot_id p = pot_id q \<and> pot_status p = pot_status q \<and> rules p = rules q"
proof -
  have "clear_lock q \<in> clear_lock ` set ps"
    using assms by (metis image_eqI set_map)
  then obtain p where "p \<in> set ps" "clear_lock p = clear_lock q" by auto
  then show ?thesis using rules_clear by metis
qed

lemma map_clear_ids: "map clear_lock ps = map clear_lock qs \<Longrightarrow> map pot_id ps = map pot_id qs"
  by (drule arg_cong[of _ _ "map pot_id"]) (simp add: comp_def rules_clear(2))

lemma same_setup_advances:
  assumes "good s" and "setup_of t = setup_of s"
  shows "advances s t"
proof -
  note parts = assms(2)[unfolded setup_of_def prod.inject]
  have pots: "map clear_lock (pots t) = map clear_lock (pots s)" using parts by simp
  have admin: "has_admin t i = has_admin s i" for i using parts by (simp add: has_admin_iff)
  have live: "live_admin t" unfolding live_admin_def
  proof (intro ballI impI)
    fix q assume "q \<in> set (pots t)" "pot_status q \<noteq> draft"
    moreover obtain p where "p \<in> set (pots s)" "pot_id p = pot_id q" "pot_status p = pot_status q"
      using clear_lock_image[OF pots[symmetric] \<open>q \<in> set (pots t)\<close>] by blast
    ultimately show "has_admin t (pot_id q)" using assms(1) admin by (metis good_def live_admin_def)
  qed
  have "wf_pots t" using assms(1) map_clear_ids[OF pots] by (simp add: good_def wf_pots_def)
  moreover have "administered {} t" using parts assms(1) administered_cong[of t s] by (simp add: good_def)
  ultimately have "good t" using live parts assms(1) by (simp add: good_def wf_configs_def)
  moreover have "config_rows Q t = config_rows Q s" for Q using parts by (simp add: config_rows_def)
  ultimately show ?thesis
    unfolding advances_def progress_def using clear_lock_image[OF pots] by (metis order_refl)
qed

text \<open>Guards in front of an operation.\<close>

lemma keep_user:
  "I s \<Longrightarrow> (\<And>u. user = Some u \<Longrightarrow> I (snd (f u s))) \<Longrightarrow> I (snd (bnd (requireUserId user) f s))"
  by (cases user) (simp_all add: requireUserId_def throw_def)

lemma keep_admin:
  "I s \<Longrightarrow> (getMemberRole q u s = Some role_admin \<Longrightarrow> I (snd (m s))) \<Longrightarrow> I (snd (seq (assertIsAdmin q (Some u)) m s))"
  by (simp add: assertIsAdmin_def bnd_assoc bnd_require)

lemma keep_pot:
  "I s \<Longrightarrow> (\<And>p. find_pot q s = Some p \<Longrightarrow> I (snd (f p s))) \<Longrightarrow> I (snd (bnd (getPotOrThrow q) f s))"
  by (cases "find_pot q s") (simp_all add: bnd_def getPotOrThrow_run)

lemma keep_require: "I s \<Longrightarrow> (b \<Longrightarrow> I (snd (m s))) \<Longrightarrow> I (snd (seq (require b e) m s))"
  by (simp add: bnd_require)

lemma keep_bnd:
  "I (snd (m s)) \<Longrightarrow> (\<And>x t. m s = (Inr x, t) \<Longrightarrow> I t \<Longrightarrow> I (snd (f x t))) \<Longrightarrow> I (snd (bnd m f s))"
  by (cases "m s") (auto simp: bnd_def split: sum.split)

text \<open>Whatever keeps the set-up: after it, the relation still holds.\<close>

lemma advances_setup:
  "advances s t \<Longrightarrow> (\<And>c. preserves (\<lambda>s. setup_of s = c) m) \<Longrightarrow> advances s (snd (m t))"
  using advances_trans same_setup_advances unfolding advances_def preserves_def by metis

section \<open>The writes\<close>

text \<open>Pots other than \<open>i\<close>, and everything but the payout rules.\<close>

definition apart :: "uuid \<Rightarrow> db \<Rightarrow> db \<Rightarrow> bool" where
  "apart i s t \<longleftrightarrow> wf_configs t \<and> config_rows (\<lambda>j. j \<noteq> i) t = config_rows (\<lambda>j. j \<noteq> i) s \<and>
     pots t = pots s \<and> potMembers t = potMembers s \<and> potPendingMembers t = potPendingMembers s"

lemma apart_refl: "wf_configs s \<Longrightarrow> apart i s s"
  by (simp add: apart_def)

lemma apart_rows:
  assumes "config_rows (\<lambda>j. j \<noteq> i) t = config_rows (\<lambda>j. j \<noteq> i) s" and "j \<noteq> i"
  shows "config_rows ((=) j) t = config_rows ((=) j) s"
proof -
  have only: "filter ((=) j \<circ> f) (filter ((\<lambda>j. j \<noteq> i) \<circ> f) xs) = filter ((=) j \<circ> f) xs" for f :: "'r \<Rightarrow> uuid" and xs
    unfolding filter_filter using assms(2) by (intro filter_cong) auto
  have legs: "filter (\<lambda>l. \<exists>c\<in>set (filter ((\<lambda>j. j \<noteq> i) \<circ> sc_potId) cs). j = sc_potId c \<and> sl_scheduledConfigId l = sc_id c)
        (filter (\<lambda>l. \<exists>c\<in>set cs. sc_potId c \<noteq> i \<and> sl_scheduledConfigId l = sc_id c) ls) =
      filter (\<lambda>l. \<exists>c\<in>set cs. j = sc_potId c \<and> sl_scheduledConfigId l = sc_id c) ls" for cs ls
    unfolding filter_filter using assms(2) by (intro filter_cong) auto
  from assms(1) have
      "filter ((\<lambda>j. j \<noteq> i) \<circ> tb_potId) (targetBasedPayoutConfigs t) = filter ((\<lambda>j. j \<noteq> i) \<circ> tb_potId) (targetBasedPayoutConfigs s)"
      "filter ((\<lambda>j. j \<noteq> i) \<circ> mc_potId) (manualPayoutConfigs t) = filter ((\<lambda>j. j \<noteq> i) \<circ> mc_potId) (manualPayoutConfigs s)"
      "filter ((\<lambda>j. j \<noteq> i) \<circ> rc_potId) (recurringPayoutConfigs t) = filter ((\<lambda>j. j \<noteq> i) \<circ> rc_potId) (recurringPayoutConfigs s)"
      "filter ((\<lambda>j. j \<noteq> i) \<circ> sc_potId) (scheduledPayoutConfigs t) = filter ((\<lambda>j. j \<noteq> i) \<circ> sc_potId) (scheduledPayoutConfigs s)"
      "filter (\<lambda>l. \<exists>c\<in>set (scheduledPayoutConfigs t). sc_potId c \<noteq> i \<and> sl_scheduledConfigId l = sc_id c) (scheduledPayoutLegs t) =
       filter (\<lambda>l. \<exists>c\<in>set (scheduledPayoutConfigs s). sc_potId c \<noteq> i \<and> sl_scheduledConfigId l = sc_id c) (scheduledPayoutLegs s)"
    unfolding config_rows_def by simp_all
  note eqs = arg_cong[OF this(1), of "filter ((=) j \<circ> tb_potId)", unfolded only]
    arg_cong[OF this(2), of "filter ((=) j \<circ> mc_potId)", unfolded only]
    arg_cong[OF this(3), of "filter ((=) j \<circ> rc_potId)", unfolded only]
    arg_cong[OF this(4), of "filter ((=) j \<circ> sc_potId)", unfolded only]
    arg_cong2[OF this(4,5), of "\<lambda>cs. filter (\<lambda>l. \<exists>c\<in>set cs. j = sc_potId c \<and> sl_scheduledConfigId l = sc_id c)", unfolded legs]
  show ?thesis
    unfolding config_rows_def eqs(1-4) using eqs(5) by simp
qed

lemma apart_advances:
  assumes "good s" and "apart i s t" and "\<forall>p\<in>set (pots s). pot_status p \<noteq> draft \<longrightarrow> pot_id p \<noteq> i"
  shows "advances s t"
proof -
  have "has_admin t j = has_admin s j" for j using assms(2) by (simp add: apart_def has_admin_iff)
  then have "good t" using assms(1,2) administered_cong[of t s]
    by (simp add: good_def apart_def wf_pots_def live_admin_def)
  then show ?thesis
    using assms(2,3) apart_rows unfolding advances_def progress_def apart_def by (metis order_refl)
qed

lemma verify_keeps [simp]: "snd (verifyAccountDetails w a b s) = s"
  by (simp add: verifyAccountDetails_def op_simps split: sum.split)

lemma apart_verify:
  "apart i s t \<Longrightarrow> (\<And>n. apart i s (snd (f n t))) \<Longrightarrow> apart i s (snd (bnd (verifyAccountDetails w a b) f t))"
  by (rule keep_bnd) (simp_all, metis snd_conv verify_keeps)

lemma apart_kobo: "apart i s t \<Longrightarrow> (\<And>n. apart i s (snd (f n t))) \<Longrightarrow> apart i s (snd (bnd (from_sum r) f t))"
  by (cases r) (simp_all add: bnd_def from_sum_def)

lemma apart_optional: "apart i s t \<Longrightarrow> (\<And>n. apart i s (snd (f n t))) \<Longrightarrow> apart i s (snd (bnd (optional_kobo v) f t))"
  by (cases v) (simp_all add: optional_kobo_def bnd_assoc apart_kobo)

lemma apart_rows_insert:
  assumes "apart i s t"
  shows "tb_potId c = i \<Longrightarrow> apart i s (snd (insert_target_based c t))"
    and "mc_potId m = i \<Longrightarrow> apart i s (snd (insert_manual m t))"
    and "rc_potId r = i \<Longrightarrow> apart i s (snd (insert_recurring r t))"
  using assms by (simp_all add: apart_def wf_configs_def config_rows_def insert_target_based_def insert_manual_def insert_recurring_def)

lemma insert_scheduled_Inr:
  "insert_scheduled i ordered t = (Inr c, t') \<Longrightarrow>
   t' = t\<lparr>scheduledPayoutConfigs := scheduledPayoutConfigs t @ [c]\<rparr> \<and> sc_potId c = i \<and> sc_id c \<notin> sc_id ` set (scheduledPayoutConfigs t)"
  using fresh_id_notin[of "map sc_id (scheduledPayoutConfigs t)"] by (auto simp: insert_scheduled_def Let_def split: if_splits)

lemma apart_insert_scheduled:
  assumes "apart i s t" and "insert_scheduled i ordered t = (x, t')"
  shows "apart i s t'"
proof (cases x)
  case (Inl e)
  then show ?thesis using assms by (auto simp: insert_scheduled_def Let_def split: if_splits)
next
  case (Inr c)
  then show ?thesis
    using insert_scheduled_Inr[of i ordered t c t'] assms by (auto simp: apart_def wf_configs_def config_rows_def)
qed

lemma map_sl_number: "map sl_scheduledConfigId (number_legs n ls) = map sl_scheduledConfigId ls"
  by (induction n ls rule: number_legs.induct) simp_all

lemma apart_insert_legs:
  assumes "apart i s t" and "c \<in> set (scheduledPayoutConfigs t)" and "sc_potId c = i"
    and "\<forall>l\<in>set ls. sl_scheduledConfigId l = sc_id c"
  shows "apart i s (snd (insert_legs ls t))"
proof -
  let ?new = "number_legs (fresh_id (map sl_id (scheduledPayoutLegs t))) ls"
  have "sl_scheduledConfigId ` set ?new = sl_scheduledConfigId ` set ls"
    by (metis map_sl_number set_map)
  then have ids: "sl_scheduledConfigId l = sc_id c" if "l \<in> set ?new" for l
    using assms(4) that by (metis (mono_tags, lifting) image_iff)
  have "sc_potId d = i" if "d \<in> set (scheduledPayoutConfigs t)" "sc_id d = sc_id c" for d
    using assms(1-3) that unfolding apart_def wf_configs_def by (metis distinct_map inj_onD)
  then have "filter (\<lambda>l. \<exists>d\<in>set (scheduledPayoutConfigs t). sc_potId d \<noteq> i \<and> sl_scheduledConfigId l = sc_id d) ?new = []"
    using ids by (auto simp: filter_empty_conv)
  then show ?thesis
    using assms(1) by (simp add: insert_legs_def apart_def wf_configs_def config_rows_def)
qed

lemma map_op_leaves: "(\<And>x t. snd (f x t) = t) \<Longrightarrow> snd (map_op f xs t) = t"
proof (induction xs arbitrary: t)
  case (Cons x xs)
  have "snd (bnd (map_op f xs) (\<lambda>ys. ret (y # ys)) u) = u" for y u
    by (rule keep_bnd[of "\<lambda>v. v = u"]) (simp_all add: Cons ret_def)
  then show ?case
    unfolding map_op.simps by (intro keep_bnd[of "\<lambda>v. v = t"]) (simp_all add: Cons ret_def)
qed (simp add: ret_def)

lemma map_op_results:
  "map_op f xs t = (Inr ys, t') \<Longrightarrow> (\<And>x t y t'. f x t = (Inr y, t') \<Longrightarrow> P y) \<Longrightarrow> \<forall>y\<in>set ys. P y"
proof (induction xs arbitrary: t ys)
  case (Cons x xs)
  then show ?case by (auto simp: bnd_Inr_iff)
qed simp

lemma leg_row_reads: "snd (leg_row j lw t) = t"
  by (cases lw) (auto simp: leg_row_def op_simps split: sum.split)

lemma leg_row_config: "leg_row j lw t = (Inr l, t') \<Longrightarrow> sl_scheduledConfigId l = j"
  by (cases lw) (auto simp: leg_row_def bnd_Inr_iff)

lemma verify_pair_reads: "snd (bnd (verifyAccountDetails w a b) (\<lambda>n. ret (l, n)) t) = t"
  by (rule keep_bnd[of "\<lambda>u. u = t"]) (simp_all add: ret_def)

lemma apart_insertPayoutConfig:
  assumes "apart i s t"
  shows "apart i s (snd (insertPayoutConfig w i pair t))"
proof (cases pair)
  case (pair_scheduled ordered legs)
  show ?thesis
    unfolding pair_scheduled insertPayoutConfig.simps
  proof (rule keep_bnd)
    let ?m = "\<lambda>l. bnd (verifyAccountDetails w (sd_destinationAccount l) (sd_destinationBank l)) (\<lambda>n. ret (l, n))"
    show "apart i s (snd (map_op ?m legs t))" by (simp add: map_op_leaves verify_pair_reads assms)
    fix lws u assume u: "apart i s u"
    let ?ordered = "case ordered of None \<Rightarrow> True | Some b \<Rightarrow> b"
    show "apart i s (snd (bnd (insert_scheduled i ?ordered)
        (\<lambda>c. bnd (map_op (leg_row (sc_id c)) lws) (\<lambda>rows. insert_legs rows)) u))"
    proof (rule keep_bnd)
      show "apart i s (snd (insert_scheduled i ?ordered u))"
        using apart_insert_scheduled[OF u] by (cases "insert_scheduled i ?ordered u") auto
      fix c v assume ins: "insert_scheduled i ?ordered u = (Inr c, v)" and v: "apart i s v"
      have c: "c \<in> set (scheduledPayoutConfigs v)" "sc_potId c = i" using insert_scheduled_Inr[OF ins] by auto
      show "apart i s (snd (bnd (map_op (leg_row (sc_id c)) lws) (\<lambda>rows. insert_legs rows) v))"
      proof (rule keep_bnd)
        show "apart i s (snd (map_op (leg_row (sc_id c)) lws v))"
          by (simp add: map_op_leaves leg_row_reads v)
        fix rows x assume run: "map_op (leg_row (sc_id c)) lws v = (Inr rows, x)"
        have "x = v" using map_op_leaves[of "leg_row (sc_id c)" lws v] run by (simp add: leg_row_reads)
        then show "apart i s (snd (insert_legs rows x))"
          using map_op_results[OF run, of "\<lambda>l. sl_scheduledConfigId l = sc_id c"] leg_row_config apart_insert_legs[OF v c] by blast
      qed
    qed
  qed
qed (auto intro!: apart_verify apart_kobo apart_optional apart_rows_insert assms simp: ret_def assms split: option.split)

lemma apart_drop_config:
  assumes "apart i s t"
  shows "apart i s (drop_config i mode t)"
proof (cases mode)
  case scheduled
  let ?cs = "scheduledPayoutConfigs t" and ?ls = "scheduledPayoutLegs t"
  have other: "sc_id c \<noteq> sc_id d" if "c \<in> set ?cs" "sc_potId c \<noteq> i" "d \<in> set ?cs" "sc_potId d = i" for c d
    using assms that unfolding apart_def wf_configs_def by (auto simp: distinct_map inj_on_def)
  have "filter (\<lambda>l. \<exists>c\<in>set (filter (\<lambda>c. sc_potId c \<noteq> i) ?cs). sc_potId c \<noteq> i \<and> sl_scheduledConfigId l = sc_id c)
        (filter (\<lambda>l. sl_scheduledConfigId l \<notin> set (map sc_id (filter (\<lambda>c. sc_potId c = i) ?cs))) ?ls) =
      filter (\<lambda>l. \<exists>c\<in>set ?cs. sc_potId c \<noteq> i \<and> sl_scheduledConfigId l = sc_id c) ?ls"
    unfolding filter_filter by (intro filter_cong refl) (simp add: image_iff, metis other)
  then have "config_rows (\<lambda>j. j \<noteq> i) (drop_scheduled i t) = config_rows (\<lambda>j. j \<noteq> i) t"
    unfolding config_rows_def drop_scheduled_def Let_def by (simp add: comp_def filter_filter del: set_map set_filter)
  moreover have "wf_configs (drop_scheduled i t)"
    using assms by (simp add: apart_def wf_configs_def drop_scheduled_def Let_def distinct_map_filter)
  ultimately show ?thesis
    using assms by (simp add: scheduled apart_def) (simp add: drop_scheduled_def Let_def)
qed (use assms in \<open>simp_all add: apart_def wf_configs_def config_rows_def filter_filter comp_def\<close>)

lemma only_row:
  "wf_pots s \<Longrightarrow> find_pot q s = Some p \<Longrightarrow> r \<in> set (pots s) \<Longrightarrow> pot_id r = q \<Longrightarrow> r = p"
  using find_key_SomeI[of pot_id "pots s" r] by (simp add: wf_pots_def find_pot_def)

lemma found_row: "find_pot q s = Some p \<Longrightarrow> p \<in> set (pots s) \<and> pot_id p = q"
  unfolding find_pot_def by (drule find_SomeD) simp

text \<open>Updating rows of \<open>pots\<close>.\<close>

lemma update_advances:
  assumes "good s" and "\<And>p. pot_id (f p) = pot_id p"
    and "\<And>p. p \<in> set (pots s) \<Longrightarrow> P p \<Longrightarrow> pot_status p \<le> pot_status (f p) \<and>
      (pot_status p \<noteq> draft \<longrightarrow> rules (f p) = rules p) \<and> (pot_status (f p) \<noteq> draft \<longrightarrow> has_admin s (pot_id p))"
  shows "advances s (s\<lparr>pots := update_where P f (pots s)\<rparr>)" (is "advances s ?t")
proof -
  have "wf_pots ?t" using assms(1,2) by (simp add: good_def wf_pots_def map_update_where)
  moreover have "live_admin ?t"
    using assms unfolding live_admin_def good_def by (auto simp: set_update_where has_admin_iff)
  ultimately have "good ?t" using assms(1) by (simp add: good_def wf_configs_def)
  moreover have "\<exists>q\<in>set (pots ?t). pot_id q = pot_id p \<and> pot_status p \<le> pot_status q \<and> rules q = rules p"
    if "p \<in> set (pots s)" "pot_status p \<noteq> draft" for p
    using that assms(2,3) by (intro bexI[of _ "if P p then f p else p"]) (auto simp: set_update_where)
  ultimately show ?thesis
    unfolding advances_def progress_def by (simp add: config_rows_def)
qed

lemma insert_pot_advances:
  assumes "good s" and "pot_status p = draft"
  shows "advances s (snd (insert_pot p s))"
proof (cases "max_ge_min p \<and> user_exists (pot_creatorId p) s \<and>
    \<not> list_ex (\<lambda>q. pot_id q = pot_id p \<or> pot_shareSlug q = pot_shareSlug p) (pots s)")
  case True
  then have "snd (insert_pot p s) = s\<lparr>pots := pots s @ [p]\<rparr>" "pot_id p \<notin> pot_id ` set (pots s)"
    by (auto simp: insert_pot_def list_ex_iff)
  then show ?thesis
    using assms by (auto simp: advances_def good_def wf_pots_def wf_configs_def live_admin_def has_admin_iff progress_def config_rows_def)
qed (use assms progress_refl in \<open>auto simp: insert_pot_def advances_def\<close>)

lemma administered_all: "administered {} s \<Longrightarrow> administered {i. has_admin s i} s"
  by (simp add: administered_def)

text \<open>Operations on members alone.\<close>

definition same_pots :: "db \<Rightarrow> db \<Rightarrow> bool" where
  "same_pots s t \<longleftrightarrow> pots t = pots s \<and> targetBasedPayoutConfigs t = targetBasedPayoutConfigs s \<and>
     manualPayoutConfigs t = manualPayoutConfigs s \<and> recurringPayoutConfigs t = recurringPayoutConfigs s \<and>
     scheduledPayoutConfigs t = scheduledPayoutConfigs s \<and> scheduledPayoutLegs t = scheduledPayoutLegs s"

lemma members_advance:
  assumes "good s" and "administered {i. has_admin s i} t" and "same_pots s t"
  shows "advances s t"
proof -
  have "good t" using assms by (auto simp: good_def same_pots_def wf_pots_def wf_configs_def live_admin_def administered_def)
  then show ?thesis
    using assms(3) unfolding advances_def progress_def by (auto simp: same_pots_def config_rows_def)
qed

section \<open>Every call\<close>

lemma good_advances: "good s \<Longrightarrow> advances s s"
  by (simp add: advances_def progress_refl)

text \<open>While pot \<open>q\<close> is a draft it may be changed freely.\<close>

definition drafting :: "uuid \<Rightarrow> db \<Rightarrow> db \<Rightarrow> bool" where
  "drafting q s t \<longleftrightarrow> advances s t \<and> (\<forall>p\<in>set (pots t). pot_id p = q \<longrightarrow> pot_status p = draft)"

lemma drafting_apart:
  assumes "drafting q s t" and "\<And>r. apart q r t \<Longrightarrow> apart q r (snd (m t))"
  shows "drafting q s (snd (m t))"
proof -
  have "apart q t (snd (m t))"
    using assms by (auto simp: drafting_def advances_def good_def intro!: apart_refl)
  moreover have "\<forall>p\<in>set (pots t). pot_status p \<noteq> draft \<longrightarrow> pot_id p \<noteq> q"
    using assms(1) by (auto simp: drafting_def)
  ultimately have "advances t (snd (m t))" "pots (snd (m t)) = pots t"
    using apart_advances assms(1) unfolding drafting_def advances_def by (auto simp: apart_def)
  then show ?thesis
    using advances_trans assms(1) unfolding drafting_def by metis
qed

lemma drafting_update:
  assumes "drafting q s t" and "\<And>p. pot_id (f p) = pot_id p \<and> pot_status (f p) = pot_status p"
  shows "drafting q s (snd (update_pot q f t))"
proof (cases "list_ex (\<lambda>p. pot_id p = q \<and> \<not> max_ge_min (f p)) (pots t)")
  case False
  let ?t = "t\<lparr>pots := update_where (\<lambda>p. pot_id p = q) f (pots t)\<rparr>"
  have run: "snd (update_pot q f t) = ?t"
    using False by (simp add: update_pot_def Let_def)
  have f: "pot_id (f p) = pot_id p" "pot_status (f p) = pot_status p" for p
    using assms(2) by simp_all
  have t: "good t" "advances s t" "\<And>p. p \<in> set (pots t) \<Longrightarrow> pot_id p = q \<Longrightarrow> pot_status p = draft"
    using assms(1) by (simp_all add: drafting_def advances_def)
  have "advances t ?t"
    by (rule update_advances[OF t(1)]) (simp_all add: f t(3))
  then have "advances s ?t"
    by (rule advances_trans[OF t(2)])
  moreover have "pot_status r = draft" if r: "r \<in> set (pots ?t)" "pot_id r = q" for r
  proof -
    obtain p where "p \<in> set (pots t)" "r = (if pot_id p = q then f p else p)"
      using r(1) by (auto simp: update_where_def)
    then show ?thesis using r(2) f t(3)[of p] by (auto split: if_splits)
  qed
  ultimately show ?thesis
    unfolding run drafting_def by blast
next
  case True
  then have "snd (update_pot q f t) = t" by (simp add: update_pot_def)
  then show ?thesis using assms(1) by simp
qed

lemmas drafting_bnd = keep_bnd[where I = "drafting q s" for q s]
lemmas advances_guards =
  keep_user[where I = "advances s" for s] keep_admin[where I = "advances s" for s] keep_pot[where I = "advances s" for s]
  keep_require[where I = "advances s" for s]

lemma optional_reads: "snd (optional_kobo v t) = t"
  by (cases v) (simp_all add: optional_kobo_def op_simps split: sum.split)

lemma drafting_optional:
  assumes "drafting q s t" and "\<And>k u. drafting q s u \<Longrightarrow> drafting q s (snd (f k u))"
  shows "drafting q s (snd (bnd (optional_kobo v) f t))"
proof (rule drafting_bnd)
  show "drafting q s (snd (optional_kobo v t))" using assms(1) by (simp add: optional_reads)
  show "drafting q s (snd (f k u))" if "drafting q s u" for k u by (rule assms(2)[OF that])
qed

lemma set_fields_keeps:
  "pot_id (set_fields now input a b c p) = pot_id p \<and> pot_status (set_fields now input a b c p) = pot_status p"
  "pot_id (set_payoutMode m p) = pot_id p \<and> pot_status (set_payoutMode m p) = pot_status p"
  by (simp_all add: set_fields_def set_payoutMode_def)

lemma drafting_replace_config:
  assumes "drafting (pot_id p) s t"
  shows "drafting (pot_id p) s (snd (replace_config w zod_text p input t))"
proof (cases "up_payoutConfig input")
  case None
  then show ?thesis using assms by (simp add: replace_config_def require_def ret_def throw_def)
next
  case (Some config)
  let ?q = "pot_id p"
  show ?thesis
    unfolding replace_config_def Some option.case
  proof (rule drafting_bnd)
    fix pair u assume u: "drafting ?q s u"
    show "drafting ?q s (snd (seq (deleteExistingPayoutConfig ?q (pot_payoutMode p))
        (seq (insertPayoutConfig w ?q pair) (when_op (pair_mode pair \<noteq> pot_payoutMode p)
          (bnd (update_pot ?q (set_payoutMode (pair_mode pair))) (\<lambda>_. ret ())))) u))"
    proof (intro drafting_bnd)
      show "drafting ?q s (snd (deleteExistingPayoutConfig ?q (pot_payoutMode p) u))"
        by (rule drafting_apart[OF u]) (simp add: deleteExistingPayoutConfig_def modify_def apart_drop_config)
      fix x v assume v: "drafting ?q s v"
      show "drafting ?q s (snd (insertPayoutConfig w ?q pair v))"
        by (rule drafting_apart[OF v]) (rule apart_insertPayoutConfig)
      fix y z assume z: "drafting ?q s z"
      have "drafting ?q s (snd (bnd (update_pot ?q (set_payoutMode (pair_mode pair))) (\<lambda>_. ret ()) z))"
        by (rule drafting_bnd) (simp_all add: drafting_update z set_fields_keeps ret_def)
      then show "drafting ?q s (snd (when_op (pair_mode pair \<noteq> pot_payoutMode p)
          (bnd (update_pot ?q (set_payoutMode (pair_mode pair))) (\<lambda>_. ret ())) z))"
        using z by (simp add: when_op_def ret_def)
    qed
  qed (use assms in \<open>simp add: from_sum_def\<close>)
qed

lemma update_call:
  assumes "good s" and "e_gap w = id"
  shows "advances s (snd (Pots_update w zod_text q u input s))"
  unfolding Pots_update_def
proof (intro advances_guards good_advances assms(1))
  fix p assume p: "find_pot q s = Some p" "pot_status p = draft"
  have q: "pot_id p = q" using found_row[OF p(1)] by simp
  have "drafting q s s"
    using assms(1) p only_row[OF _ p(1)] by (auto simp: drafting_def good_advances good_def)
  then have "drafting q s (snd (seq (replace_config w zod_text p input)
      (bnd (optional_kobo (up_minContribution input)) (\<lambda>minContribution.
       bnd (optional_kobo (up_maxContribution input)) (\<lambda>maxContribution.
       bnd (optional_kobo (up_goalAmount input)) (\<lambda>goalAmount.
       update_pot q (set_fields (e_now w) input minContribution maxContribution goalAmount))))) s))"
    using drafting_replace_config[of p s s] q
    by (intro drafting_bnd drafting_optional drafting_update) (simp_all add: set_fields_keeps)
  then show "advances s (snd (seq (in_gap w) (seq (replace_config w zod_text p input)
      (bnd (optional_kobo (up_minContribution input)) (\<lambda>minContribution.
       bnd (optional_kobo (up_maxContribution input)) (\<lambda>maxContribution.
       bnd (optional_kobo (up_goalAmount input)) (\<lambda>goalAmount.
       update_pot q (set_fields (e_now w) input minContribution maxContribution goalAmount))))) ) s))"
    by (simp add: bnd_gap_id[OF assms(2)] drafting_def)
qed

text \<open>Reading, drawing random ids and parsing amounts before the insert leave the set-up as it is.\<close>

lemma randomUUID_setup: "setup_of (snd (randomUUID w s)) = setup_of s"
  by (simp add: randomUUID_def op_simps setup_of_def)

lemma new_pot_drafts:
  assumes "good s"
  shows "advances s (snd (new_pot w u input s))"
    and "new_pot w u input s = (Inr p, t) \<Longrightarrow> drafting (pot_id p) s t"
proof -
  have reads: "advances s v \<Longrightarrow> setup_of v' = setup_of v \<Longrightarrow> advances s v'" for v v'
    using same_setup_advances advances_trans unfolding advances_def by blast
  define K where "K m \<longleftrightarrow> (\<forall>v. advances s v \<longrightarrow> advances s (snd (m v)) \<and> (\<forall>p t. m v = (Inr p, t) \<longrightarrow> drafting (pot_id p) s t))" for m :: "(db, pot) op"
  have insert: "K (insert_pot q)" if "pot_status q = draft" for q
    unfolding K_def
  proof (intro allI impI)
    fix v assume v: "advances s v"
    have "advances v (snd (insert_pot q v))" using v that by (intro insert_pot_advances) (simp_all add: advances_def)
    then have "advances s (snd (insert_pot q v))" by (rule advances_trans[OF v])
    then show "advances s (snd (insert_pot q v)) \<and> (\<forall>p t. insert_pot q v = (Inr p, t) \<longrightarrow> drafting (pot_id p) s t)"
      using that by (auto simp: drafting_def insert_pot_def list_ex_iff split: if_splits)
  qed
  have bind: "K (bnd m f)" if "\<And>v. setup_of (snd (m v)) = setup_of v" "\<And>x. K (f x)" for m :: "(db, 'x) op" and f
    unfolding K_def
  proof (intro allI impI)
    fix v assume v: "advances s v"
    then have "advances s (snd (m v))" using reads that(1) by blast
    then show "advances s (snd (bnd m f v)) \<and> (\<forall>p t. bnd m f v = (Inr p, t) \<longrightarrow> drafting (pot_id p) s t)"
      using that(2) by (cases "m v") (auto simp: bnd_def K_def split: sum.split)
  qed
  have kobo: "setup_of (snd (optional_kobo k v)) = setup_of v" for k v by (simp add: optional_reads)
  have slug: "setup_of (snd (generateShareSlug w v)) = setup_of v" for v
    using randomUUID_setup[of w v] by (cases "randomUUID w v") (auto simp: generateShareSlug_def bnd_def ret_def split: sum.split)
  have "K (new_pot w u input)"
    unfolding new_pot_def
    by (intro bind slug kobo randomUUID_setup insert) simp
  then have "advances s (snd (new_pot w u input s)) \<and> (\<forall>p t. new_pot w u input s = (Inr p, t) \<longrightarrow> drafting (pot_id p) s t)"
    using good_advances[OF assms] by (simp add: K_def)
  then show "advances s (snd (new_pot w u input s))" "new_pot w u input s = (Inr p, t) \<Longrightarrow> drafting (pot_id p) s t"
    by auto
qed

lemma draft_only:
  assumes "good s" and "find_pot q s = Some p" and "pot_status p = draft"
  shows "\<forall>r\<in>set (pots s). pot_status r \<noteq> draft \<longrightarrow> pot_id r \<noteq> q"
  using only_row[OF _ assms(2)] assms by (auto simp: good_def)

lemma delete_advances:
  assumes "good s" and "\<forall>r\<in>set (pots s). pot_status r \<noteq> draft \<longrightarrow> pot_id r \<noteq> q"
  shows "advances s (snd (delete_pot q s))"
proof (cases "list_ex (\<lambda>c. c_potId c = q) (contributions s)")
  case False
  let ?m = "s\<lparr>pots := filter (\<lambda>p. pot_id p \<noteq> q) (pots s), potMembers := filter (\<lambda>m. mb_potId m \<noteq> q) (potMembers s),
    potPendingMembers := filter (\<lambda>r. pm_potId r \<noteq> q) (potPendingMembers s)\<rparr>"
  let ?t = "foldr (drop_config q) [target_based, manual, recurring, scheduled] ?m"
  have run: "snd (delete_pot q s) = ?t" using False by (simp add: delete_pot_def)
  have admin: "has_admin ?m j = has_admin s j" if "j \<noteq> q" for j
    using that by (auto simp: has_admin_iff)
  have "apart q ?m ?m" using assms(1) by (intro apart_refl) (simp add: good_def wf_configs_def)
  then have t: "apart q ?m ?t" by (simp add: apart_drop_config del: drop_config.simps)
  have "administered {} ?m"
    using assms(1) admin unfolding good_def administered_def unique_members_def by (auto simp: distinct_map_filter)
  moreover have "live_admin ?m" using assms(1) admin by (auto simp: good_def live_admin_def)
  ultimately have m: "good ?m"
    using assms(1) by (simp add: good_def wf_pots_def wf_configs_def distinct_map_filter)
  have "progress s ?m"
    unfolding progress_def using assms(2) by (auto simp: config_rows_def)
  then have "advances s ?m" using m by (simp add: advances_def)
  moreover have "advances ?m ?t" by (rule apart_advances[OF m t]) auto
  ultimately show ?thesis unfolding run by (rule advances_trans)
qed (use assms(1) in \<open>simp add: delete_pot_def good_advances\<close>)

lemma delete_call:
  assumes "good s" and "e_gap w = id"
  shows "advances s (snd (deleteDraft w q u s))"
  unfolding deleteDraft_def
  by (intro advances_guards good_advances assms(1)) (auto simp: bnd_gap_id[OF assms(2)] intro!: delete_advances assms(1) dest: draft_only[OF assms(1)])

lemma activate_call:
  assumes "good s" and "e_gap w = id"
  shows "advances s (snd (activate w q u s))"
  unfolding activate_def
proof (intro advances_guards good_advances assms(1))
  fix p assume p: "getMemberRole q u s = Some role_admin" "find_pot q s = Some p" "pot_status p = draft"
  have "advances s (s\<lparr>pots := update_where (\<lambda>p. pot_id p = q) (set_open (e_now w)) (pots s)\<rparr>)"
    using draft_only[OF assms(1) p(2,3)] role_has_admin[OF p(1)]
    by (intro update_advances assms(1)) (auto simp: set_open_def less_eq_pot_status_def)
  then show "advances s (snd (seq (in_gap w) (update_pot q (set_open (e_now w))) s))"
    using assms(1) by (simp add: bnd_gap_id[OF assms(2)] update_pot_def Let_def good_advances)
qed

lemma create_call:
  assumes "good s"
  shows "advances s (snd (Pots_create w zod_text u input s))"
  unfolding Pots_create_def
proof (rule keep_bnd[where I = "advances s"])
  show "advances s (snd (new_pot w u input s))" by (rule new_pot_drafts(1)[OF assms])
  fix p t assume "new_pot w u input s = (Inr p, t)"
  from new_pot_drafts(2)[OF assms this] have t: "drafting (pot_id p) s t" .
  have "drafting (pot_id p) s (snd (bnd (from_sum (validatePayoutModeConfig zod_text (np_payoutMode input) (np_payoutConfig input)))
      (\<lambda>pair. seq (insertPayoutConfig w (pot_id p) pair) (bnd (insert_member (pot_id p) u role_admin None) (\<lambda>_. ret p))) t))"
  proof (intro drafting_bnd)
    show "drafting (pot_id p) s (snd (from_sum (validatePayoutModeConfig zod_text (np_payoutMode input) (np_payoutConfig input)) t))"
      using t by (simp add: from_sum_def)
    fix pair v assume v: "drafting (pot_id p) s v"
    show "drafting (pot_id p) s (snd (insertPayoutConfig w (pot_id p) pair v))"
      by (rule drafting_apart[OF v]) (rule apart_insertPayoutConfig)
    fix x z assume z: "drafting (pot_id p) s z"
    show "drafting (pot_id p) s (snd (insert_member (pot_id p) u role_admin None z))"
    proof -
      have "good z" using z by (simp add: drafting_def advances_def)
      then have "advances z (snd (insert_member (pot_id p) u role_admin None z))"
        by (intro members_advance administered_insert administered_all)
          (simp_all add: good_def same_pots_def insert_member_def Let_def)
      moreover have "pots (snd (insert_member (pot_id p) u role_admin None z)) = pots z"
        by (simp add: insert_member_def Let_def)
      ultimately show ?thesis using z advances_trans unfolding drafting_def by metis
    qed
  qed (simp add: ret_def)
  then show "advances s (snd (bnd (from_sum (validatePayoutModeConfig zod_text (np_payoutMode input) (np_payoutConfig input)))
      (\<lambda>pair. seq (insertPayoutConfig w (pot_id p) pair) (bnd (insert_member (pot_id p) u role_admin None) (\<lambda>_. ret p))) t))"
    by (simp add: drafting_def)
qed

lemma close_advances:
  assumes "good s" and "find_pot q s = Some p" and "pot_status p = pot_open"
  shows "advances s (snd (close_unlocked now q s))"
proof -
  have "pot_status r = pot_open \<and> has_admin s q" if "r \<in> set (pots s)" "pot_id r = q" for r
    using only_row[OF _ assms(2) that] assms that by (auto simp: good_def live_admin_def)
  then have "advances s (s\<lparr>pots := update_where (\<lambda>p. pot_id p = q \<and> pot_pendingOperation p = None) (set_closed now) (pots s)\<rparr>)"
    by (intro update_advances assms(1)) (auto simp: set_closed_def rules_def clear_lock_def less_eq_pot_status_def)
  then show ?thesis by (simp add: close_unlocked_def Let_def)
qed

lemma pot_balance_setup: "setup_of (snd (pot_balance q s)) = setup_of s"
  using setup_frame.pot_balance[of "setup_of s" q] by (simp add: preserves_def)

lemma close_call:
  assumes "good s" and "e_gap w = id"
  shows "advances s (snd (close w q u s))"
  unfolding close_def
proof (intro advances_guards good_advances assms(1))
  fix p assume p: "find_pot q s = Some p" "pot_status p = pot_open"
  let ?rest = "\<lambda>balance. seq (require (balance = 0) (PotError ''Pot balance must be zero before it can be closed'' 409))
       (seq (in_gap w)
       (bnd (close_unlocked (e_now w) q) (\<lambda>updated.
        case updated of None \<Rightarrow> throw still_in_flight | Some q \<Rightarrow> ret q)))"
  show "advances s (snd (bnd (pot_balance q) ?rest s))"
  proof (rule keep_bnd[where I = "advances s"])
    show "advances s (snd (pot_balance q s))" by (rule same_setup_advances[OF assms(1) pot_balance_setup])
    fix b t assume run: "pot_balance q s = (Inr b, t)" and t: "advances s t"
    have "setup_of t = setup_of s" using pot_balance_setup[of q s] run by simp
    then have "map clear_lock (pots t) = map clear_lock (pots s)" by (simp add: setup_of_def)
    moreover have "p \<in> set (pots s)" "pot_id p = q" using found_row[OF p(1)] by simp_all
    ultimately obtain r where r: "r \<in> set (pots t)" "pot_id r = q" "pot_status r = pot_open"
      using clear_lock_image[of "pots t" "pots s" p] p(2) by metis
    have good: "good t" using t by (simp add: advances_def)
    then have "find_pot q t = Some r"
      using find_key_SomeI[of pot_id "pots t" r] r by (simp add: find_pot_def good_def wf_pots_def)
    from close_advances[OF good this r(3), of "e_now w"] have closed: "advances s (snd (close_unlocked (e_now w) q t))"
      by (rule advances_trans[OF t])
    have "advances s (snd (bnd (close_unlocked (e_now w) q) (\<lambda>updated.
        case updated of None \<Rightarrow> throw still_in_flight | Some q \<Rightarrow> ret q) t))"
      by (rule keep_bnd[where I = "advances s"]) (use closed in \<open>auto simp: throw_def ret_def split: option.split\<close>)
    then show "advances s (snd (?rest b t))"
      using t by (simp add: bnd_require bnd_gap_id[OF assms(2)])
  qed
qed

text \<open>The operations on members leave the pots and their rules alone.\<close>

lemma same_pots_updates:
  "same_pots s t \<Longrightarrow> same_pots s (t\<lparr>potMembers := ms\<rparr>)" "same_pots s t \<Longrightarrow> same_pots s (t\<lparr>potPendingMembers := rs\<rparr>)"
  "same_pots s t \<Longrightarrow> same_pots s (t\<lparr>sentMails := mails\<rparr>)"
  by (simp_all add: same_pots_def)

lemma same_pots_gap: "e_gap w = id \<Longrightarrow> preserves (same_pots s) (in_gap w)"
  by (simp add: in_gap_def preserves_def modify_def)

lemma same_pots_mail: "preserves (same_pots s) (sendMail w address content)"
  unfolding sendMail_def by (intro preserves_intros preserves_modify same_pots_updates)

lemma same_pots_insert:
  "preserves (same_pots s) (insert_member q u r by')" "preserves (same_pots s) (insert_pending q email r adder)"
  by (simp_all add: preserves_def insert_member_def insert_pending_def Let_def same_pots_updates)

lemma same_pots_ops:
  "e_gap w = id \<Longrightarrow> preserves (same_pots s) (updateRole w q u r)"
  "e_gap w = id \<Longrightarrow> preserves (same_pots s) (PotMembers_remove w q u notify)"
  "preserves (same_pots s) (PendingMembers_create w origin q u input)"
  "preserves (same_pots s) (PendingMembers_remove q i)"
  "preserves (same_pots s) (activateForEmail w u email)"
  unfolding updateRole_def PotMembers_remove_def PendingMembers_create_def add_pending_def PendingMembers_remove_def
    activateForEmail_def join_row_def update_pending_def pot_or_404_def Let_def
  by (intro preserves_intros preserves_modify same_pots_updates same_pots_gap same_pots_mail same_pots_insert; assumption?)+

lemma members_call:
  assumes "good s" and "\<And>A. administered A s \<Longrightarrow> administered A (snd (m s))" and "preserves (same_pots s) m"
  shows "advances s (snd (m s))"
  using assms by (intro members_advance) (auto simp: good_def administered_all preserves_def same_pots_def)

section \<open>The calls of the API\<close>

inductive pot_call :: "db \<Rightarrow> db \<Rightarrow> bool" where
  call_create: "pot_call s (snd (createPotHandler w zod_text user body s))"
| call_update: "e_gap w = id \<Longrightarrow> pot_call s (snd (updatePotHandler w zod_text user q changes s))"
| call_delete: "e_gap w = id \<Longrightarrow> pot_call s (snd (deleteDraftPotHandler w user q s))"
| call_activate: "e_gap w = id \<Longrightarrow> pot_call s (snd (activatePotHandler w user q s))"
| call_close: "e_gap w = id \<Longrightarrow> pot_call s (snd (closePotHandler w user q s))"
| call_get: "pot_call s (snd (getPotHandler user q s))"
| call_list: "pot_call s (snd (listPotsHandler user scope title s))"
| call_feed: "pot_call s (snd (listTransactionsHandler user q s))"
| call_my_feed: "pot_call s (snd (listMyTransactionsHandler u s))"
| call_members: "pot_call s (snd (listMembersHandler user q s))"
| call_pending_members: "pot_call s (snd (listPendingMembersHandler user q s))"
| call_payout_otp: "pot_call s (snd (requestPayoutOtpHandler w sha collate user q fields' s))"
| call_refund_otp: "pot_call s (snd (requestRefundOtpHandler w sha collate user q s))"
| call_payout: "e_gap w = id \<Longrightarrow> pot_call s (snd (triggerPayoutHandler w sha collate url user header q fields' s))"
| call_refund: "e_gap w = id \<Longrightarrow> pot_call s (snd (triggerRefundHandler w sha collate url user header q code s))"
| call_contribute: "pot_call s (snd (contributeHandler w sha json_text url user header q input content s))"
| call_add_member: "pot_call s (snd (addMemberHandler w origin user q member s))"
| call_remove_pending: "pot_call s (snd (removePendingMemberHandler user q i s))"
| call_role: "e_gap w = id \<Longrightarrow> pot_call s (snd (updateMemberRoleHandler w user q target r s))"
| call_remove_member: "e_gap w = id \<Longrightarrow> pot_call s (snd (removeMemberHandler w user q target s))"
| call_leave: "e_gap w = id \<Longrightarrow> pot_call s (snd (leavePotHandler w user q s))"
| call_auth: "(\<forall>w. call_env c = Some w \<longrightarrow> e_gap w = id) \<Longrightarrow> pot_call s (run_auth k c s)"

lemma answer_pot_setup: "setup_of (snd (answer_pot code p s)) = setup_of s"
  using setup_frame.answer_pot[of "setup_of s" code p] by (simp add: preserves_def)

lemma answered_call:
  assumes "advances s (snd (m s))"
  shows "advances s (snd (bnd m (\<lambda>p. answer_pot code (g p)) s))"
proof (rule keep_bnd[where I = "advances s"])
  show "advances s (snd (m s))" by (rule assms)
  fix x t assume t: "advances s t"
  then have "advances t (snd (answer_pot code (g x) t))"
    by (intro same_setup_advances answer_pot_setup) (simp add: advances_def)
  then show "advances s (snd (answer_pot code (g x) t))" by (rule advances_trans[OF t])
qed

lemma returned_call: "advances s (snd (m s)) \<Longrightarrow> advances s (snd (bnd m (\<lambda>x. ret (g x)) s))"
  by (rule keep_bnd[where I = "advances s"]) (simp_all add: ret_def)

lemma setup_call: "good s \<Longrightarrow> (\<And>c. preserves (\<lambda>s. setup_of s = c) m) \<Longrightarrow> advances s (snd (m s))"
  by (rule same_setup_advances) (simp_all add: preserves_def)

text \<open>The calls of the account API write users, codes and mails, which are no part of the set-up. The one that
  verifies an email then makes the user a member of the pots they were added to.\<close>

lemma setup_of_updates [simp]:
  "setup_of (s\<lparr>users := us\<rparr>) = setup_of s" "setup_of (s\<lparr>otpCodes := rs\<rparr>) = setup_of s"
  "setup_of (s\<lparr>sentMails := ms\<rparr>) = setup_of s" "setup_of (s\<lparr>randomDraws := n\<rparr>) = setup_of s"
  by (simp_all add: setup_of_def)

lemma keep_setup: "(\<And>c. preserves (\<lambda>s. setup_of s = c) m) \<Longrightarrow> preserves (advances s) m"
  unfolding preserves_def[of "advances s"] by (metis advances_setup snd_conv)

lemma modify_setup: "(\<And>t. setup_of (f t) = setup_of t) \<Longrightarrow> preserves (\<lambda>s. setup_of s = c) (modify f)"
  by (simp add: preserves_def modify_def)

lemma account_setup:
  "preserves (\<lambda>s. setup_of s = c) (randomUUID w)" "preserves (\<lambda>s. setup_of s = c) (sendMail w address content)"
  "preserves (\<lambda>s. setup_of s = c) (update_user i f)" "preserves (\<lambda>s. setup_of s = c) (rotate i h h' t)"
  "preserves (\<lambda>s. setup_of s = c) (insert_user input h)" "preserves (\<lambda>s. setup_of s = c) (update_otp j g)"
  unfolding randomUUID_def sendMail_def update_user_def update_otp_def
  by (intro preserves_intros modify_setup; simp) +
    (auto simp: preserves_def modify_def rotate_def insert_user_def Let_def split: option.splits)

lemma account_steps:
  "preserves (advances s) (createOtp k w i email purpose)" "preserves (advances s) (verifyOtp k w i purpose code)"
  "preserves (advances s) (hashPassword k w password)" "preserves (advances s) (signRefreshToken k w i)"
  "preserves (advances s) (verifyAccountDetails w account bank)" "preserves (advances s) (update_user i f)"
  "preserves (advances s) (rotate i h h' t)" "preserves (advances s) (insert_user input hash)"
  unfolding createOtp_def assertOtpNotRateLimited_def generateOtpCode_def insert_code_def verifyOtp_def hashPassword_def
    signRefreshToken_def verifyAccountDetails_def Let_def
  by (intro keep_setup preserves_intros account_setup modify_setup; simp)+

lemma gap_advances: "e_gap w = id \<Longrightarrow> preserves (advances s) (in_gap w)"
  by (simp add: preserves_def in_gap_def modify_def)

lemma join_advances: "preserves (advances s) (activateForEmail w u email)"
proof -
  have "advances t (snd (activateForEmail w u email t))" if "advances s t" for t
    using that by (intro members_call same_pots_ops administered_activateForEmail) (simp add: advances_def)
  then show ?thesis
    unfolding preserves_def using advances_trans by (metis snd_conv)
qed

lemma run_advances: "preserves (advances s) m \<Longrightarrow> good s \<Longrightarrow> advances s (snd (m s))"
  by (simp add: preserves_def good_advances)

lemma auth_call_advances:
  assumes "good s" and "\<forall>w. call_env c = Some w \<longrightarrow> e_gap w = id"
  shows "advances s (run_auth k c s)"
proof (cases c)
  case (Register w input)
  then have gap: "e_gap w = id" using assms(2) by simp
  show ?thesis unfolding Register run_auth.simps auth_ops
    by (rule run_advances[OF _ assms(1)]) (intro preserves_intros account_steps gap_advances gap)
next
  case (Refresh w token)
  then have gap: "e_gap w = id" using assms(2) by simp
  show ?thesis unfolding Refresh run_auth.simps auth_ops
    by (rule run_advances[OF _ assms(1)]) (intro preserves_intros account_steps gap_advances gap)
qed (simp_all only: run_auth.simps auth_ops,
  (rule run_advances[OF _ assms(1)], intro preserves_intros account_steps join_advances)+)

lemma pot_call_advances: "pot_call s t \<Longrightarrow> good s \<Longrightarrow> advances s t"
proof (induction rule: pot_call.induct)
  case (call_create s w zod_text user body)
  then show ?case unfolding createPotHandler_def snd_respond
    by (intro keep_user[where I = "advances s"] answered_call create_call good_advances)
next
  case (call_update w s zod_text user q changes)
  then show ?case unfolding updatePotHandler_def snd_respond
    by (intro keep_user[where I = "advances s"] answered_call[where g = "\<lambda>p. p"] update_call good_advances)
next
  case (call_delete w s user q)
  then show ?case unfolding deleteDraftPotHandler_def snd_respond
    by (intro keep_user[where I = "advances s"] returned_call delete_call good_advances)
next
  case (call_activate w s user q)
  then show ?case unfolding activatePotHandler_def snd_respond
    by (intro keep_user[where I = "advances s"] answered_call[where g = "\<lambda>p. p"] activate_call good_advances)
next
  case (call_close w s user q)
  then show ?case unfolding closePotHandler_def snd_respond
    by (intro keep_user[where I = "advances s"] answered_call close_call good_advances)
next
  case (call_add_member s w origin user q member)
  then show ?case unfolding addMemberHandler_def snd_respond
    by (intro advances_guards returned_call members_call same_pots_ops good_advances administered_PendingMembers_create)
      (auto intro: role_has_admin)
next
  case (call_remove_pending s user q i)
  then show ?case unfolding removePendingMemberHandler_def snd_respond
    by (intro advances_guards returned_call members_call same_pots_ops good_advances administered_PendingMembers_remove)
next
  case (call_role w s user q target r)
  then show ?case unfolding updateMemberRoleHandler_def snd_respond
    by (intro advances_guards returned_call members_call same_pots_ops good_advances administered_updateRole)
next
  case (call_remove_member w s user q target)
  then show ?case unfolding removeMemberHandler_def snd_respond
    by (intro advances_guards returned_call members_call same_pots_ops good_advances administered_PotMembers_remove)
next
  case (call_leave w s user q)
  then show ?case unfolding leavePotHandler_def leave_def snd_respond
    by (intro advances_guards returned_call members_call same_pots_ops good_advances administered_PotMembers_remove)
next
  case (call_auth c s k)
  then show ?case by (rule auth_call_advances[rotated])
qed (auto intro!: setup_call setup_frame.getPot setup_frame.listPots setup_frame.listTransactions setup_frame.listMembers
    setup_frame.listPendingMembers setup_frame.listMyTransactions setup_frame.payout_otp
    setup_frame.refund_otp setup_frame.payout setup_frame.refund setup_frame.contribute)

lemma pot_calls_advance: "pot_call\<^sup>*\<^sup>* s t \<Longrightarrow> good s \<Longrightarrow> advances s t"
proof (induction rule: rtranclp_induct)
  case (step t u)
  then show ?case using pot_call_advances[OF step.hyps(2)] advances_trans[of s t u] by (auto simp: advances_def)
qed (rule good_advances)

lemma good_empty: "good empty_db"
  by (simp add: good_def wf_pots_def wf_configs_def administered_def unique_members_def live_admin_def empty_db_def)

text \<open>C17. Every pot keeps an admin. In every state reached from the empty database by calls of the account API and
  the pots API, one after another, by users who register and verify their emails, a pot that is open or closed has an
  admin, so has every pot with a member or with someone added by email, and no user is twice in a pot. The lock-out
  of a whole group by a removal or a demotion cannot happen, as long as two of them do not overlap
  (\<open>Members_Laws.both_admins_can_leave\<close>).\<close>

theorem every_pot_keeps_an_admin:
  "pot_call\<^sup>*\<^sup>* empty_db s \<Longrightarrow>
   (\<forall>p\<in>set (pots s). pot_status p \<noteq> draft \<longrightarrow> 0 < countAdmins (pot_id p) s) \<and>
   (\<forall>m\<in>set (potMembers s). 0 < countAdmins (mb_potId m) s) \<and>
   (\<forall>r\<in>set (potPendingMembers s). pm_status r = pm_pending \<longrightarrow> 0 < countAdmins (pm_potId r) s) \<and>
   distinct (map (\<lambda>m. (mb_potId m, mb_userId m)) (potMembers s))"
  using pot_calls_advance[OF _ good_empty, of s]
  by (simp add: advances_def good_def live_admin_def administered_def unique_members_def has_admin_def)

text \<open>C18. Once a pot is live, its terms are settled. Whatever calls the account API and the pots API get after a pot was
  opened, the pot is still there, its status has only moved forward, its payout mode, refund type, limits and text are the
  ones it was opened with, and so are the stored payout destinations, amounts and dates.\<close>

theorem live_terms_settled:
  assumes "pot_call\<^sup>*\<^sup>* empty_db s" and "pot_call\<^sup>*\<^sup>* s t" and "find_pot q s = Some p" and "pot_status p \<noteq> draft"
  shows "\<exists>r. find_pot q t = Some r \<and> pot_status p \<le> pot_status r \<and> rules r = rules p \<and>
    config_rows ((=) q) t = config_rows ((=) q) s"
proof -
  have s: "good s" using pot_calls_advance[OF assms(1) good_empty] by (simp add: advances_def)
  have t: "good t" "progress s t" using pot_calls_advance[OF assms(2) s] by (simp_all add: advances_def)
  have "p \<in> set (pots s)" "pot_id p = q" using found_row[OF assms(3)] by simp_all
  then obtain r where r: "r \<in> set (pots t)" "pot_id r = q" "pot_status p \<le> pot_status r" "rules r = rules p"
    and c: "config_rows ((=) q) t = config_rows ((=) q) s"
    using t(2) assms(4) unfolding progress_def by blast
  moreover have "find_pot q t = Some r"
    using find_key_SomeI[of pot_id "pots t" r] r t(1) by (simp add: find_pot_def good_def wf_pots_def)
  ultimately show ?thesis by blast
qed

section \<open>A pot goes live\<close>

definition manual_input :: CreatePotInput where
  "manual_input = \<lparr>np_title = ''Rent'', np_description = None, np_potType = private_pot, np_payoutMode = manual,
     np_payoutConfig = \<lparr>pi_destinationAccount = None, pi_destinationBank = None, pi_targetDate = None, pi_targetAmount = None,
       pi_amount = None, pi_intervalDays = None, pi_nextRunAt = None, pi_ordered = None, pi_legs = None\<rparr>,
     np_refundType = refund_admin, np_minContribution = None, np_maxContribution = None, np_goalAmount = None\<rparr>"

text \<open>Ada registers and verifies her email with the code she was sent.\<close>

definition ada_input :: register_input where
  "ada_input = \<lparr>ri_email = ''ada@x.ng'', ri_username = ''ada'', ri_password = ''pass'', ri_fullName = ''Ada Obi'', ri_phone = None\<rparr>"

definition registered_db :: db where
  "registered_db = run_auth example_crypto (Register example_env ada_input) empty_db"

definition verified_db :: db where
  "verified_db = run_auth example_crypto (Verify_email example_env ''ada@x.ng'' ''000001'') registered_db"

definition ada_row :: user where
  "ada_row = \<lparr>u_id = 1, u_email = ''ada@x.ng'', u_username = ''ada'', u_passwordHash = salted_hash example_crypto ''pass'' (hex_digits 32 0),
     u_fullName = ''Ada Obi'', u_phone = None, u_emailVerifiedAt = None, u_refreshTokenHash = None, u_refreshTokenExpiresAt = None,
     u_tokenVersion = 0, u_defaultRefundAccount = None, u_defaultRefundBank = None\<rparr>"

definition ada_code :: "string \<Rightarrow> otp_code" where
  "ada_code code = \<lparr>oc_id = 1, oc_userId = 1, oc_purpose = signup_verification, oc_codeHash = code, oc_attemptCount = 0,
     oc_maxAttempts = 5, oc_expiresAt = 600000, oc_consumedAt = None, oc_createdAt = 0\<rparr>"

lemma sent_code: "padStart 6 (CHR ''0'') (show_nat 1) = ''000001''"
  by code_simp

lemma crypto_sha: "k_sha example_crypto = id" by (simp add: example_crypto_def)

lemma env_parts: "e_now example_env = 0" "e_uuid example_env = (\<lambda>n. n)" "e_gap example_env = id" "e_sendMail example_env = (\<lambda>_. None)"
  by (simp_all add: example_env_def)

lemmas account_ops = respond_def hashPassword_def randomUUID_def insert_user_def createOtp_def assertOtpNotRateLimited_def auth_codes_def
  generateOtpCode_def insert_code_def sendMail_def in_gap_def OTP_LENGTH_def newest_by_def fresh_id_def OTP_MAX_PER_HOUR_def
  hashOtpCode_def auth_otpExpiry_def AUTH_OTP_TTL_MINUTES_def crypto_sha env_parts

definition ada_mail :: "string \<times> string" where
  "ada_mail = (''ada@x.ng'', otpEmail_text ''000001'' ''Use this code to verify your email.'' 10)"

lemma registered_eq: "registered_db = empty_db\<lparr>users := [ada_row], randomDraws := 2, otpCodes := [ada_code ''000001''], sentMails := [ada_mail]\<rparr>"
  unfolding registered_db_def run_auth.simps auth_ops ada_input_def
  by (simp add: op_simps account_ops Let_def empty_db_def ada_row_def ada_code_def ada_mail_def sent_code[simplified])

lemma verified_eq: "verified_db = empty_db\<lparr>users := [set_refresh (uuid_text 2) 2592000000 (set_verified 0 ada_row)], randomDraws := 3,
     otpCodes := [consume_otp 0 (ada_code ''000001'')], sentMails := [ada_mail]\<rparr>"
  unfolding verified_db_def registered_eq run_auth.simps auth_ops
  by (simp add: op_simps account_ops Let_def empty_db_def ada_row_def ada_code_def find_email_def verifyOtp_def active_otp_def
     verifyOtpCode_def update_otp_def consume_otp_def update_user_def set_verified_def set_refresh_def activateForEmail_def
     signRefreshToken_def hashToken_def REFRESH_TOKEN_TTL_DAYS_def)

text \<open>She creates a pot, opens it, and leaves, which is refused.\<close>

definition opened_db :: db where
  "opened_db = snd (activatePotHandler example_env (Some 1) 4 (snd (createPotHandler example_env (\<lambda>_. []) (Some 1) manual_input verified_db)))"

definition left_db :: db where
  "left_db = snd (leavePotHandler example_env (Some 1) 4 opened_db)"

lemma opened_calls: "pot_call\<^sup>*\<^sup>* empty_db opened_db" "pot_call\<^sup>*\<^sup>* opened_db left_db"
proof -
  have "pot_call empty_db registered_db"
    unfolding registered_db_def by (rule call_auth) (simp add: env_parts)
  moreover have "pot_call registered_db verified_db"
    unfolding verified_db_def by (rule call_auth) simp
  moreover have "pot_call verified_db (snd (createPotHandler example_env (\<lambda>_. []) (Some 1) manual_input verified_db))"
    by (rule call_create)
  moreover have "pot_call (snd (createPotHandler example_env (\<lambda>_. []) (Some 1) manual_input verified_db)) opened_db"
    unfolding opened_db_def by (rule call_activate) (simp add: env_parts)
  ultimately show "pot_call\<^sup>*\<^sup>* empty_db opened_db" by (metis converse_rtranclp_into_rtranclp rtranclp.rtrancl_refl)
  have "pot_call opened_db left_db" unfolding left_db_def by (rule call_leave) (simp add: env_parts)
  then show "pot_call\<^sup>*\<^sup>* opened_db left_db" by blast
qed

lemma opened_row:
  "map_option (\<lambda>p. (pot_id p, pot_status p, pot_creatorId p)) (find_pot 4 opened_db) = Some (4, pot_open, 1)"
  "map u_id (users opened_db) = [1]"
  unfolding opened_db_def verified_eq by code_simp+

lemma opened_pot:
  obtains p where "find_pot 4 opened_db = Some p" and "pot_status p = pot_open" and "user_exists (pot_creatorId p) opened_db"
proof -
  obtain p where p: "find_pot 4 opened_db = Some p" "pot_status p = pot_open" "pot_creatorId p = 1"
    using opened_row(1) by auto
  have "1 \<in> set (map u_id (users opened_db))" using opened_row(2) by simp
  then have "user_exists 1 opened_db" by (auto simp: user_exists_def list_ex_iff)
  then show thesis using that p by simp
qed

theorem every_pot_keeps_an_admin_witness:
  "\<exists>p\<in>set (pots opened_db). pot_status p = pot_open \<and> user_exists (pot_creatorId p) opened_db \<and> 0 < countAdmins (pot_id p) opened_db"
proof -
  obtain p where p: "find_pot 4 opened_db = Some p" "pot_status p = pot_open" "user_exists (pot_creatorId p) opened_db"
    by (rule opened_pot)
  then show ?thesis
    using every_pot_keeps_an_admin[OF opened_calls(1)] found_row[OF p(1)] by auto
qed

theorem live_terms_settled_witness:
  "\<exists>p r. find_pot 4 opened_db = Some p \<and> user_exists (pot_creatorId p) opened_db \<and> find_pot 4 left_db = Some r \<and> rules r = rules p"
proof -
  obtain p where p: "find_pot 4 opened_db = Some p" "pot_status p \<noteq> draft" "user_exists (pot_creatorId p) opened_db"
    by (rule opened_pot) auto
  show ?thesis using live_terms_settled[OF opened_calls p(1,2)] p by blast
qed

end
