(* ===== verification/Sweeps.thy ===== *)
theory Sweeps
  imports Contributions
begin

text \<open>
  The periodic sweeps: \<open>payout-scheduler.service.ts\<close> (recurring payouts, and scheduled legs in order or
  as a batch), \<open>expiry.service.ts\<close> (virtual accounts past their expiry), and the handlers of
  \<open>payout-cron-handlers.ts\<close> that run them. Each try/catch around one row is a \<open>catch_op\<close>, so a row that
  fails is counted and the loop goes on. The gap between a sweep's read and its atomic claim is \<open>e_gap\<close>.
\<close>

section \<open>Recurring payouts\<close>

text \<open>\<open>recurring_payout_configs inner join pots on pots.id = pot_id\<close>, the pot open and the run due.\<close>

definition due_recurring :: "env \<Rightarrow> db \<Rightarrow> (recurring_config \<times> pot) list" where
  "due_recurring w s =
     concat (map (\<lambda>c. map (\<lambda>p. (c, p))
       (filter (\<lambda>p. pot_id p = rc_potId c \<and> pot_status p = pot_open \<and> rc_nextRunAt c \<le> e_now w) (pots s)))
       (recurringPayoutConfigs s))"

text \<open>One step of a sweep: a payout of a fixed amount, skipped when underfunded, refused or not queued.\<close>

definition count_fired :: "bool \<Rightarrow> nat \<times> nat \<Rightarrow> nat \<times> nat" where
  "count_fired ok = (\<lambda>(fired, skipped). if ok then (Suc fired, skipped) else (fired, Suc skipped))"

definition fire_recurring :: "env \<Rightarrow> recurring_config \<Rightarrow> pot \<Rightarrow> (db, bool) op" where
  "fire_recurring w config p =
     bnd (pot_balance (pot_id p)) (\<lambda>balance.
     if balance < rc_amount config + OUTBOUND_FEE then ret False
     else catch_op
       (seq (postFixedAmountDisbursement w p op_payout (rc_amount config)
               \<lparr>de_account = rc_destinationAccount config, de_bank = rc_destinationBank config\<rparr>
               (Some (advance_recurring_next_run_at (rc_id config))) None)
        (ret True))
       (\<lambda>err. ret False))"

definition fireDueRecurringPayouts :: "env \<Rightarrow> (db, nat \<times> nat) op" where
  "fireDueRecurringPayouts w =
     bnd (gets (due_recurring w)) (\<lambda>due.
     fold_op (\<lambda>(config, p) counts.
       bnd (fire_recurring w config p) (\<lambda>ok. ret (count_fired ok counts))) due (0, 0))"

section \<open>Scheduled legs\<close>

definition open_scheduled :: "db \<Rightarrow> (scheduled_config \<times> pot) list" where
  "open_scheduled s =
     concat (map (\<lambda>c. map (\<lambda>p. (c, p))
       (filter (\<lambda>p. pot_id p = sc_potId c \<and> pot_status p = pot_open) (pots s)))
       (scheduledPayoutConfigs s))"

text \<open>The unfired legs of a configuration, \<open>order by sequence_order\<close>.\<close>

definition unfired_legs :: "uuid \<Rightarrow> db \<Rightarrow> scheduled_leg list" where
  "unfired_legs configId s =
     sort_key sl_sequenceOrder
       (filter (\<lambda>l. sl_scheduledConfigId l = configId \<and> \<not> sl_fired l) (scheduledPayoutLegs s))"

definition due_legs :: "env \<Rightarrow> uuid \<Rightarrow> db \<Rightarrow> scheduled_leg list" where
  "due_legs w configId s = filter (\<lambda>l. sl_scheduledDate l \<le> e_now w) (unfired_legs configId s)"

definition enqueueLeg :: "env \<Rightarrow> pot \<Rightarrow> scheduled_leg \<Rightarrow> (db, bool) op" where
  "enqueueLeg w p leg =
     bnd (pot_balance (pot_id p)) (\<lambda>balance.
     if balance < sl_amount leg + OUTBOUND_FEE then ret False
     else catch_op
       (seq (postFixedAmountDisbursement w p op_payout (sl_amount leg)
               \<lparr>de_account = sl_destinationAccount leg, de_bank = sl_destinationBank leg\<rparr>
               (Some (mark_scheduled_leg_fired (sl_id leg))) None)
        (ret True))
       (\<lambda>err. ret False))"

text \<open>The admission loop of a batch: a leg gets in when what the earlier ones left covers it and its fee.\<close>

fun admit_legs :: "kobo \<Rightarrow> kobo \<Rightarrow> scheduled_leg list \<Rightarrow> scheduled_leg list \<times> nat" where
  "admit_legs balance reserved [] = ([], 0)"
| "admit_legs balance reserved (leg # legs) =
     (if balance - reserved < sl_amount leg + OUTBOUND_FEE
      then (let (admitted, skipped) = admit_legs balance reserved legs in (admitted, Suc skipped))
      else (let (admitted, skipped) = admit_legs balance (reserved + (sl_amount leg + OUTBOUND_FEE)) legs
            in (leg # admitted, skipped)))"

definition batch_job :: "pot \<Rightarrow> scheduled_leg \<Rightarrow> uuid \<Rightarrow> ledger_job" where
  "batch_job p leg u =
     \<lparr>lj_potId = pot_id p, lj_amount = sl_amount leg, lj_destinationAccount = sl_destinationAccount leg,
      lj_destinationBank = sl_destinationBank leg,
      lj_reference = ''payout_'' @ uuid_text (pot_id p) @ ''_'' @ uuid_text (sl_id leg) @ ''_'' @ uuid_text u,
      lj_contributorUserId = None, lj_isFanOutLeg = True,
      lj_onSuccess = Some (mark_scheduled_leg_fired (sl_id leg))\<rparr>"

text \<open>One admitted leg: a job that cannot be queued gives its share of the lock back.\<close>

definition send_scheduled :: "env \<Rightarrow> pot \<Rightarrow> scheduled_leg \<Rightarrow> (db, bool) op" where
  "send_scheduled w p leg =
     bnd (randomUUID w) (\<lambda>u.
     catch_op (seq (enqueuePayout w (batch_job p leg u)) (ret True))
       (\<lambda>err. seq (decrementPendingOperationLeg (pot_id p)) (ret False)))"

definition enqueueUnorderedLegs :: "env \<Rightarrow> pot \<Rightarrow> scheduled_leg list \<Rightarrow> (db, nat \<times> nat) op" where
  "enqueueUnorderedLegs w p dueLegs =
     bnd (pot_balance (pot_id p)) (\<lambda>balance.
     let (admitted, skipped) = admit_legs balance 0 dueLegs in
     if admitted = [] then ret (0, skipped)
     else
       seq (in_gap w)
       (bnd (claimPendingOperation (pot_id p) op_payout (int (length admitted))) (\<lambda>claimed.
        if \<not> claimed then ret (0, skipped + length admitted)
        else fold_op (\<lambda>leg counts. bnd (send_scheduled w p leg) (\<lambda>ok. ret (count_fired ok counts)))
               admitted (0, skipped))))"

definition sweep_config :: "env \<Rightarrow> scheduled_config \<Rightarrow> pot \<Rightarrow> (db, nat \<times> nat) op" where
  "sweep_config w config p =
     (if sc_ordered config
      then bnd (gets (unfired_legs (sc_id config))) (\<lambda>legs.
        case legs of
          [] \<Rightarrow> ret (0, 0)
        | nextLeg # _ \<Rightarrow>
            if e_now w < sl_scheduledDate nextLeg then ret (0, 0)
            else bnd (enqueueLeg w p nextLeg) (\<lambda>ok. ret (count_fired ok (0, 0))))
      else bnd (gets (due_legs w (sc_id config))) (\<lambda>dueLegs.
        if dueLegs = [] then ret (0, 0) else enqueueUnorderedLegs w p dueLegs))"

definition fireDueScheduledLegs :: "env \<Rightarrow> (db, nat \<times> nat) op" where
  "fireDueScheduledLegs w =
     bnd (gets open_scheduled) (\<lambda>openPots.
     fold_op (\<lambda>(config, p) (fired, skipped).
       bnd (sweep_config w config p) (\<lambda>(f, k). ret (fired + f, skipped + k))) openPots (0, 0))"

section \<open>Expired contributions\<close>

definition awaits_payment :: "contribution \<Rightarrow> bool" where
  "awaits_payment c \<longleftrightarrow> c_status c = c_pending \<or> c_status c = c_underpaid"

definition expired_contributions :: "env \<Rightarrow> db \<Rightarrow> contribution list" where
  "expired_contributions w s = filter (\<lambda>c. awaits_payment c \<and> c_expiresAt c < e_now w) (contributions s)"

text \<open>\<open>update contributions set status = 'failed' where id = .. and status in (..) returning id\<close>\<close>

definition claim_expired :: "uuid \<Rightarrow> (db, bool) op" where
  "claim_expired cid s =
     (let waiting = (\<lambda>c. c_id c = cid \<and> awaits_payment c) in
      (Inr (list_ex waiting (contributions s)),
       s\<lparr>contributions := update_where waiting (set_contribution_status c_failed) (contributions s)\<rparr>))"

definition unrefunded_payments :: "uuid \<Rightarrow> db \<Rightarrow> contribution_payment list" where
  "unrefunded_payments cid s =
     filter (\<lambda>p. cp_contributionId p = cid \<and> \<not> cp_refunded p) (contributionPayments s)"

definition expiry_job :: "contribution \<Rightarrow> contribution_payment \<Rightarrow> contribution_refund_job" where
  "expiry_job c payment =
     \<lparr>rj_contributionId = c_id c, rj_contributionPaymentId = cp_id payment,
      rj_amount = cp_amount payment - OUTBOUND_FEE, rj_destinationAccount = cp_senderAccountNumber payment,
      rj_destinationBank = cp_senderBankCode payment,
      rj_reference = ''expiry_refund_'' @ uuid_text (cp_id payment)\<rparr>"

definition enqueue_expiry_refund ::
  "env \<Rightarrow> contribution \<Rightarrow> contribution_payment \<Rightarrow> nat \<times> bool \<Rightarrow> (db, nat \<times> bool) op" where
  "enqueue_expiry_refund w c payment = (\<lambda>(refunded, allEnqueuedOk).
     if cp_amount payment \<le> OUTBOUND_FEE then ret (refunded, allEnqueuedOk)
     else catch_op (seq (enqueueContributionRefund w (expiry_job c payment)) (ret (Suc refunded, allEnqueuedOk)))
            (\<lambda>err. ret (refunded, False)))"

text \<open>\<open>nomba.expireVirtualAccount\<close>; the sweep logs its failure and goes on.\<close>

definition expireVirtualAccount :: "env \<Rightarrow> string \<Rightarrow> (db, unit) op" where
  "expireVirtualAccount w accountRef =
     (case e_expireVirtualAccount w accountRef of Some err \<Rightarrow> throw err | None \<Rightarrow> ret ())"

definition expire_contribution :: "env \<Rightarrow> contribution \<Rightarrow> nat \<times> nat \<Rightarrow> (db, nat \<times> nat) op" where
  "expire_contribution w c = (\<lambda>(expiredCount, refundedPayments).
     seq (in_gap w)
     (bnd (claim_expired (c_id c)) (\<lambda>claimed.
      if \<not> claimed then ret (expiredCount, refundedPayments)
      else
        bnd (gets (unrefunded_payments (c_id c))) (\<lambda>payments.
        bnd (fold_op (enqueue_expiry_refund w c) payments (refundedPayments, True)) (\<lambda>(refundedPayments, allEnqueuedOk).
        seq (catch_op (expireVirtualAccount w (c_virtualAccountRef c)) (\<lambda>err. ret ()))
        (if allEnqueuedOk then ret (Suc expiredCount, refundedPayments)
         else seq (update_contribution (c_id c) (set_contribution_status (c_status c)))
              (ret (expiredCount, refundedPayments))))))))"

definition sweepExpiredContributions :: "env \<Rightarrow> (db, nat \<times> nat) op" where
  "sweepExpiredContributions w =
     bnd (gets (expired_contributions w)) (\<lambda>expired. fold_op (expire_contribution w) expired (0, 0))"

section \<open>The cron handlers\<close>

definition checkTargetBasedPayouts :: "env \<Rightarrow> (db, nat \<times> nat) op" where
  "checkTargetBasedPayouts w = fireDueTargetBasedPayouts w"

definition checkRecurringPayouts :: "env \<Rightarrow> (db, (nat \<times> nat) \<times> (nat \<times> nat)) op" where
  "checkRecurringPayouts w =
     bnd (fireDueRecurringPayouts w) (\<lambda>recurring.
     bnd (fireDueScheduledLegs w) (\<lambda>scheduled. ret (recurring, scheduled)))"

definition cron_sweepExpiredContributions :: "env \<Rightarrow> (db, nat \<times> nat) op" where
  "cron_sweepExpiredContributions w = sweepExpiredContributions w"

end
