(* ===== verification/Sweeps_Laws.thy ===== *)
theory Sweeps_Laws
  imports Sweeps Contributions_Laws "HOL-Library.Sublist"
begin

text \<open>
  What the sweeps do: the expiry sweep queues every refund once and fails exactly the contributions whose
  refunds were all accepted; a batch of scheduled legs never promises more than the pot holds and locks it for
  exactly the jobs it queued; an ordered schedule pays its legs in turn; a due and funded recurring payout is
  queued by the next sweep and, once the worker has run its job, paid and rescheduled.
\<close>

section \<open>Adding jobs\<close>

text \<open>What the queue holds after a list of jobs was added to it, refusals apart.\<close>

fun queue_with :: "env \<Rightarrow> DisbursementJobData list \<Rightarrow> DisbursementJobData list \<Rightarrow> DisbursementJobData list" where
  "queue_with w [] q = q"
| "queue_with w (j # js) q =
     queue_with w js (if e_enqueue w (job_reference j) \<noteq> None \<or> job_reference j \<in> job_reference ` set q
                      then q else q @ [j])"

definition accepts :: "env \<Rightarrow> DisbursementJobData \<Rightarrow> bool" where
  "accepts w j \<longleftrightarrow> e_enqueue w (job_reference j) = None"

lemma queue_with_append: "queue_with w (js @ ks) q = queue_with w ks (queue_with w js q)"
  by (induction js arbitrary: q) auto

lemma queue_with_keeps: "set q \<subseteq> set (queue_with w js q)"
proof (induction js arbitrary: q)
  case (Cons j js)
  then show ?case using Cons[of "q @ [j]"] by auto
qed simp

lemma queue_with_new: "set (queue_with w js q) \<subseteq> set q \<union> {j \<in> set js. accepts w j}"
proof (induction js arbitrary: q)
  case (Cons j js)
  show ?case using Cons[of q] Cons[of "q @ [j]"] by (auto simp: accepts_def)
qed simp

lemma queue_with_has: "j \<in> set js \<Longrightarrow> accepts w j \<Longrightarrow> job_reference j \<in> job_reference ` set (queue_with w js q)"
proof (induction js arbitrary: q)
  case (Cons k js)
  show ?case
  proof (cases "j = k")
    case True
    then show ?thesis
      using Cons.prems(2) queue_with_keeps[of _ w js] by (fastforce simp: accepts_def)
  next
    case False
    then show ?thesis using Cons by auto
  qed
qed simp

lemma queue_with_distinct:
  "distinct (map job_reference q) \<Longrightarrow> distinct (map job_reference (queue_with w js q))"
  by (induction js arbitrary: q) auto

lemma queue_with_again: "queue_with w js (queue_with w js q) = queue_with w js q"
proof -
  have "\<forall>j\<in>set ks. accepts w j \<longrightarrow> job_reference j \<in> job_reference ` set r \<Longrightarrow> queue_with w ks r = r" for ks r
    by (induction ks) (auto simp: accepts_def)
  then show ?thesis using queue_with_has by blast
qed

lemma add_job_queue:
  "add_job w j s = (case e_enqueue w (job_reference j) of
     Some err \<Rightarrow> (Inl err, s) | None \<Rightarrow> (Inr (), s\<lparr>transfersQueue := queue_with w [j] (transfersQueue s)\<rparr>))"
  by (simp add: add_job_def throw_def modify_def split: option.split)

section \<open>The expiry sweep\<close>

text \<open>The refunds of a contribution: its payments that are still to be refunded and cover the outbound fee.\<close>

definition refund_jobs :: "contribution \<Rightarrow> db \<Rightarrow> DisbursementJobData list" where
  "refund_jobs c s = map (\<lambda>p. job_contribution_refund (expiry_job c p))
     (filter (\<lambda>p. OUTBOUND_FEE < cp_amount p) (unrefunded_payments (c_id c) s))"

definition all_accepted :: "env \<Rightarrow> contribution \<Rightarrow> db \<Rightarrow> bool" where
  "all_accepted w c s \<longleftrightarrow> (\<forall>j\<in>set (refund_jobs c s). accepts w j)"

lemma enqueue_refunds:
  "fold_op (enqueue_expiry_refund w c) ps (n, ok) s =
   (let js = map (\<lambda>p. job_contribution_refund (expiry_job c p)) (filter (\<lambda>p. OUTBOUND_FEE < cp_amount p) ps) in
    (Inr (n + length (filter (accepts w) js), ok \<and> (\<forall>j\<in>set js. accepts w j)),
     s\<lparr>transfersQueue := queue_with w js (transfersQueue s)\<rparr>))"
proof (induction ps arbitrary: n ok s)
  case Nil
  then show ?case by (simp add: ret_def)
next
  case (Cons p ps)
  let ?j = "job_contribution_refund (expiry_job c p)"
  show ?case
  proof (cases "OUTBOUND_FEE < cp_amount p")
    case False
    then show ?thesis
      using Cons.IH by (simp add: enqueue_expiry_refund_def Let_def)
  next
    case True
    then have step: "enqueue_expiry_refund w c p (n, ok) s =
        (if accepts w ?j then (Inr (Suc n, ok), s\<lparr>transfersQueue := queue_with w [?j] (transfersQueue s)\<rparr>)
         else (Inr (n, False), s))"
      by (simp add: enqueue_expiry_refund_def enqueueContributionRefund_def catch_op_def bnd_def add_job_queue accepts_def ret_def
          split: option.split)
    show ?thesis
      using True Cons.IH
      by (auto simp: bnd_def step Let_def accepts_def)
  qed
qed

text \<open>One contribution, claimed: its refunds are queued, and it stays failed only if all of them were.\<close>

lemma expire_contribution_run:
  assumes "e_gap w = id" and "distinct (map c_id (contributions s))" and "c \<in> set (contributions s)" and "awaits_payment c"
  shows "expire_contribution w c (n, m) s =
    (Inr (n + (if all_accepted w c s then 1 else 0), m + length (filter (accepts w) (refund_jobs c s))),
     s\<lparr>contributions := update_where (\<lambda>x. x = c \<and> all_accepted w c s) (set_contribution_status c_failed) (contributions s),
       transfersQueue := queue_with w (refund_jobs c s) (transfersQueue s)\<rparr>)"
proof -
  have only: "x = c" if "x \<in> set (contributions s)" "c_id x = c_id c" for x
    using assms(2,3) that by (metis distinct_map inj_onD)
  have claim: "claim_expired (c_id c) s = (Inr True, s\<lparr>contributions := update_where (\<lambda>x. x = c) (set_contribution_status c_failed) (contributions s)\<rparr>)"
    using only assms(3,4) by (auto simp: claim_expired_def Let_def list_ex_iff update_where_def intro!: map_cong)
  have undo: "update_where (\<lambda>x. c_id x = c_id c) (set_contribution_status (c_status c))
      (update_where (\<lambda>x. x = c) (set_contribution_status c_failed) (contributions s)) = contributions s"
    using only by (auto simp: update_where_def set_contribution_status_def intro!: map_idI)
  have release: "catch_op (expireVirtualAccount w r) (\<lambda>err. ret ()) u = (Inr (), u)" for r u
    by (simp add: catch_op_def expireVirtualAccount_def throw_def ret_def split: option.split)
  have payments: "unrefunded_payments i (s\<lparr>contributions := cs\<rparr>) = unrefunded_payments i s" for i cs
    by (simp add: unrefunded_payments_def)
  note flat = enqueue_refunds[where ps = "unrefunded_payments (c_id c) s" and c = c, folded refund_jobs_def all_accepted_def]
  show ?thesis
    by (simp add: expire_contribution_def in_gap_def assms(1) bnd_def modify_def claim gets_def payments flat Let_def
        release update_contribution_def undo ret_def update_where_none refund_jobs_def[symmetric] all_accepted_def[symmetric])
qed

lemma refund_jobs_frame:
  "contributionPayments s' = contributionPayments s \<Longrightarrow> refund_jobs c s' = refund_jobs c s"
  "contributionPayments s' = contributionPayments s \<Longrightarrow> all_accepted w c s' = all_accepted w c s"
  by (simp_all add: refund_jobs_def all_accepted_def unrefunded_payments_def)

lemma update_where_twice:
  assumes "\<And>x. P x \<Longrightarrow> \<not> Q (f x)"
  shows "update_where Q f (update_where P f rows) = update_where (\<lambda>x. P x \<or> Q x) f rows"
  using assms by (induction rows) auto

lemma sweep_run:
  assumes "e_gap w = id"
  shows "distinct (map c_id (contributions s)) \<Longrightarrow> distinct cs \<Longrightarrow> \<forall>c\<in>set cs. c \<in> set (contributions s) \<and> awaits_payment c \<Longrightarrow>
    fold_op (expire_contribution w) cs (n, m) s =
    (Inr (n + length (filter (\<lambda>c. all_accepted w c s) cs),
          m + length (filter (accepts w) (concat (map (\<lambda>c. refund_jobs c s) cs)))),
     s\<lparr>contributions := update_where (\<lambda>c. c \<in> set cs \<and> all_accepted w c s) (set_contribution_status c_failed) (contributions s),
       transfersQueue := queue_with w (concat (map (\<lambda>c. refund_jobs c s) cs)) (transfersQueue s)\<rparr>)"
proof (induction cs arbitrary: s n m)
  case Nil
  then show ?case by (simp add: ret_def update_where_none)
next
  case (Cons c cs)
  let ?fail = "set_contribution_status c_failed"
  let ?s1 = "s\<lparr>contributions := update_where (\<lambda>x. x = c \<and> all_accepted w c s) ?fail (contributions s),
       transfersQueue := queue_with w (refund_jobs c s) (transfersQueue s)\<rparr>"
  have ids: "distinct (map c_id (contributions ?s1))"
    using Cons.prems(1) by (simp add: map_update_where set_contribution_status_def)
  have rest: "\<forall>x\<in>set cs. x \<in> set (contributions ?s1) \<and> awaits_payment x"
    using Cons.prems(2,3) by (auto simp: set_update_where image_iff)
  have failed: "\<not> awaits_payment (?fail x)" for x
    by (simp add: awaits_payment_def set_contribution_status_def)
  have two: "update_where (\<lambda>x. x \<in> set cs \<and> all_accepted w x s) ?fail (update_where (\<lambda>x. x = c \<and> all_accepted w c s) ?fail rows) =
      update_where (\<lambda>x. (x = c \<or> x \<in> set cs) \<and> all_accepted w x s) ?fail rows" for rows
    using Cons.prems(3) failed by (subst update_where_twice) (auto simp: update_where_def)
  note frame = refund_jobs_frame[of ?s1 s, simplified]
  show ?case
    using Cons.IH[OF ids _ rest] Cons.prems(2,3)
    by (simp add: bnd_def expire_contribution_run[OF assms Cons.prems(1)] frame two queue_with_append)
qed


lemma sweepExpiredContributions_run:
  assumes "e_gap w = id" and "distinct (map c_id (contributions s))"
  shows "sweepExpiredContributions w s =
    (let cs = expired_contributions w s; js = concat (map (\<lambda>c. refund_jobs c s) cs) in
     (Inr (length (filter (\<lambda>c. all_accepted w c s) cs), length (filter (accepts w) js)),
      s\<lparr>contributions := update_where (\<lambda>c. c \<in> set cs \<and> all_accepted w c s) (set_contribution_status c_failed) (contributions s),
        transfersQueue := queue_with w js (transfersQueue s)\<rparr>))"
proof -
  have "distinct (expired_contributions w s)"
    using assms(2) by (simp add: expired_contributions_def distinct_map)
  moreover have "\<forall>c\<in>set (expired_contributions w s). c \<in> set (contributions s) \<and> awaits_payment c"
    by (simp add: expired_contributions_def)
  ultimately show ?thesis
    using sweep_run[OF assms, of "expired_contributions w s" 0 0]
    by (simp add: sweepExpiredContributions_def bnd_def gets_def Let_def)
qed

text \<open>C21. The expiry sweep refunds every payment of an expired contribution once. It fails exactly the
  contributions past their expiry all of whose refunds the queue accepted; each unrefunded payment that covers
  the outbound fee and whose job is accepted has a job under its own reference afterwards, for its amount less
  the fee, to its sender; no other job is added, no reference is queued twice, no balance moves, and with the
  queue up a second sweep does nothing.\<close>

theorem expiry_sweep_refunds_once:
  assumes "e_gap w = id" and "distinct (map c_id (contributions s))" and "distinct (map job_reference (transfersQueue s))"
  shows "\<exists>r t. sweepExpiredContributions w s = (Inr r, t) \<and> led t = led s \<and>
    contributions t = update_where (\<lambda>c. c \<in> set (expired_contributions w s) \<and> all_accepted w c s)
      (set_contribution_status c_failed) (contributions s) \<and>
    (\<forall>c\<in>set (expired_contributions w s). \<forall>p\<in>set (unrefunded_payments (c_id c) s).
       OUTBOUND_FEE < cp_amount p \<and> e_enqueue w (rj_reference (expiry_job c p)) = None \<longrightarrow>
       rj_reference (expiry_job c p) \<in> job_reference ` set (transfersQueue t)) \<and>
    (\<forall>j\<in>set (transfersQueue t). j \<in> set (transfersQueue s) \<or>
       (\<exists>c\<in>set (expired_contributions w s). \<exists>p\<in>set (unrefunded_payments (c_id c) s).
          OUTBOUND_FEE < cp_amount p \<and> j = job_contribution_refund (expiry_job c p))) \<and>
    distinct (map job_reference (transfersQueue t)) \<and>
    (e_enqueue w = (\<lambda>_. None) \<longrightarrow> sweepExpiredContributions w t = (Inr (0, 0), t))"
proof -
  let ?cs = "expired_contributions w s" and ?js = "concat (map (\<lambda>c. refund_jobs c s) (expired_contributions w s))"
  obtain r t where run: "sweepExpiredContributions w s = (Inr r, t)"
    and t: "t = s\<lparr>contributions := update_where (\<lambda>c. c \<in> set ?cs \<and> all_accepted w c s) (set_contribution_status c_failed) (contributions s),
        transfersQueue := queue_with w ?js (transfersQueue s)\<rparr>"
    using sweepExpiredContributions_run[OF assms(1,2)] by (simp add: Let_def)
  have queued: "job_reference (job_contribution_refund (expiry_job c p)) \<in> job_reference ` set (transfersQueue t)"
    if h: "c \<in> set ?cs" "p \<in> set (unrefunded_payments (c_id c) s)" "OUTBOUND_FEE < cp_amount p"
      "e_enqueue w (rj_reference (expiry_job c p)) = None" for c p
  proof -
    have "job_contribution_refund (expiry_job c p) \<in> set ?js"
      using h(1-3) by (auto simp: refund_jobs_def)
    then show ?thesis
      unfolding t using h(4) queue_with_has[of "job_contribution_refund (expiry_job c p)" ?js w "transfersQueue s"]
      by (simp add: accepts_def)
  qed
  have new: "j \<in> set (transfersQueue s) \<or> (\<exists>c\<in>set ?cs. \<exists>p\<in>set (unrefunded_payments (c_id c) s).
      OUTBOUND_FEE < cp_amount p \<and> j = job_contribution_refund (expiry_job c p))" if j: "j \<in> set (transfersQueue t)" for j
  proof -
    have "j \<in> set (transfersQueue s) \<or> j \<in> set ?js"
      using j queue_with_new[of w ?js "transfersQueue s"] unfolding t by auto
    then show ?thesis by (auto simp: refund_jobs_def)
  qed
  have again: "sweepExpiredContributions w t = (Inr (0, 0), t)" if up: "e_enqueue w = (\<lambda>_. None)"
  proof -
    have ids: "distinct (map c_id (contributions t))"
      unfolding t using assms(2) by (simp add: map_update_where set_contribution_status_def)
    have "all_accepted w c s" for c
      by (simp add: all_accepted_def accepts_def up)
    then have "expired_contributions w t = []"
      unfolding t expired_contributions_def
      by (auto simp: set_update_where filter_empty_conv awaits_payment_def set_contribution_status_def)
    then show ?thesis
      using sweepExpiredContributions_run[OF assms(1) ids] by (simp add: Let_def update_where_none)
  qed
  show ?thesis
  proof (intro exI[of _ r] exI[of _ t] conjI run ballI impI)
    show "distinct (map job_reference (transfersQueue t))"
      unfolding t by (simp add: queue_with_distinct assms(3))
    show "rj_reference (expiry_job c p) \<in> job_reference ` set (transfersQueue t)"
      if "c \<in> set ?cs" "p \<in> set (unrefunded_payments (c_id c) s)"
        "OUTBOUND_FEE < cp_amount p \<and> e_enqueue w (rj_reference (expiry_job c p)) = None" for c p
      using queued[of c p] that by simp
  qed (use new again in \<open>simp_all add: t\<close>)
qed

definition late_contribution :: "uuid \<Rightarrow> contribution_status \<Rightarrow> time \<Rightarrow> contribution" where
  "late_contribution i st expiry = \<lparr>c_id = i, c_potId = 7, c_contributorUserId = Some 1,
     c_virtualAccountRef = ''va'', c_virtualAccountNumber = Some (show_nat i), c_virtualAccountBankName = None,
     c_expectedAmount = 101000, c_intendedAmount = 100000, c_status = st, c_anonymous = False,
     c_refundAccountNumber = None, c_refundAccountName = None, c_refundBank = None,
     c_transactionId = None, c_expiresAt = expiry, c_fundedAt = None\<rparr>"

definition paid_in :: "uuid \<Rightarrow> uuid \<Rightarrow> kobo \<Rightarrow> contribution_payment" where
  "paid_in i c v = \<lparr>cp_id = i, cp_contributionId = c, cp_nombaTransactionId = show_nat i, cp_amount = v,
     cp_senderAccountNumber = ''0123456789'', cp_senderBankCode = ''058'', cp_senderName = ''Ada'', cp_refunded = False\<rparr>"

definition late_db :: db where
  "late_db = empty_db\<lparr>
     contributions := [late_contribution 1 c_underpaid (-1), late_contribution 2 c_funded (-1), late_contribution 3 c_pending 5],
     contributionPayments := [paid_in 1 1 60000, paid_in 2 1 5000, paid_in 3 2 101000]\<rparr>"

theorem expiry_sweep_refunds_once_witness:
  "\<exists>r t. sweepExpiredContributions example_env late_db = (Inr r, t) \<and> map c_status (contributions t) = [c_failed, c_funded, c_pending] \<and>
     ''expiry_refund_00000000-0000-0000-0000-000000000001'' \<in> job_reference ` set (transfersQueue t) \<and>
     sweepExpiredContributions example_env t = (Inr (0, 0), t)"
proof -
  have ok: "e_gap example_env = id" "distinct (map c_id (contributions late_db))"
    "distinct (map job_reference (transfersQueue late_db))" "e_enqueue example_env = (\<lambda>_. None)"
    by (simp_all add: example_env_def late_db_def late_contribution_def empty_db_def)
  have rows: "expired_contributions example_env late_db = [late_contribution 1 c_underpaid (-1)]"
    "unrefunded_payments 1 late_db = [paid_in 1 1 60000, paid_in 2 1 5000]"
    "OUTBOUND_FEE < cp_amount (paid_in 1 1 60000)" "c_id (late_contribution 1 c_underpaid (-1)) = 1"
    "rj_reference (expiry_job (late_contribution 1 c_underpaid (-1)) (paid_in 1 1 60000)) = ''expiry_refund_00000000-0000-0000-0000-000000000001''"
    by code_simp+
  have all: "all_accepted example_env c late_db" for c
    by (simp add: all_accepted_def accepts_def ok(4))
  obtain r t where t: "sweepExpiredContributions example_env late_db = (Inr r, t)"
    "contributions t = update_where (\<lambda>c. c \<in> set (expired_contributions example_env late_db) \<and> all_accepted example_env c late_db)
      (set_contribution_status c_failed) (contributions late_db)"
    "\<forall>c\<in>set (expired_contributions example_env late_db). \<forall>p\<in>set (unrefunded_payments (c_id c) late_db).
       OUTBOUND_FEE < cp_amount p \<and> e_enqueue example_env (rj_reference (expiry_job c p)) = None \<longrightarrow>
       rj_reference (expiry_job c p) \<in> job_reference ` set (transfersQueue t)"
    "sweepExpiredContributions example_env t = (Inr (0, 0), t)"
    using expiry_sweep_refunds_once[OF ok(1-3)] ok(4) by blast
  have "map c_status (contributions t) = [c_failed, c_funded, c_pending]"
    unfolding t(2) rows all by code_simp
  moreover have "''expiry_refund_00000000-0000-0000-0000-000000000001'' \<in> job_reference ` set (transfersQueue t)"
    using t(3)[rule_format, of "late_contribution 1 c_underpaid (-1)" "paid_in 1 1 60000"] by (simp only: rows ok(4)) simp
  ultimately show ?thesis using t(1,4) by (intro exI[of _ r] exI[of _ t] conjI)
qed


section \<open>A batch of scheduled legs\<close>

definition cost :: "kobo list \<Rightarrow> kobo" where
  "cost vs = (\<Sum>v\<leftarrow>vs. v + OUTBOUND_FEE)"

lemma cost_simps [simp]: "cost [] = 0" "cost (v # vs) = v + OUTBOUND_FEE + cost vs"
  by (simp_all add: cost_def)

lemma cost_nonneg: "\<forall>v\<in>set vs. 0 \<le> v \<Longrightarrow> 0 \<le> cost vs"
  by (induction vs) (auto simp: fee_constants)

lemma cost_subseq: "subseq us vs \<Longrightarrow> \<forall>v\<in>set vs. 0 \<le> v \<Longrightarrow> cost us \<le> cost vs"
  by (induction rule: list_emb.induct) (auto simp: fee_constants cost_nonneg)

lemma admit_legs_facts:
  assumes "admit_legs balance reserved legs = (admitted, skipped)"
  shows "subseq admitted legs" and "length admitted + skipped = length legs"
    and "reserved \<le> balance \<Longrightarrow> reserved + cost (map sl_amount admitted) \<le> balance"
    and "\<forall>l\<in>set legs. 0 < sl_amount l \<Longrightarrow> reserved + cost (map sl_amount legs) \<le> balance \<Longrightarrow> admitted = legs"
proof -
  have "subseq admitted legs \<and> length admitted + skipped = length legs \<and>
    (reserved \<le> balance \<longrightarrow> reserved + cost (map sl_amount admitted) \<le> balance) \<and>
    ((\<forall>l\<in>set legs. 0 < sl_amount l) \<and> reserved + cost (map sl_amount legs) \<le> balance \<longrightarrow> admitted = legs)"
    using assms
  proof (induction balance reserved legs arbitrary: admitted skipped rule: admit_legs.induct)
    case (2 balance reserved leg legs)
    have pos: "0 \<le> cost (map sl_amount legs)" if "\<forall>l\<in>set legs. 0 < sl_amount l"
      using that by (intro cost_nonneg) (auto intro: less_imp_le)
    show ?case
    proof (cases "balance - reserved < sl_amount leg + OUTBOUND_FEE")
      case True
      obtain a k where r: "admit_legs balance reserved legs = (a, k)" by fastforce
      then show ?thesis
        using 2(1)[OF True r] 2(3) True pos by auto
    next
      case False
      obtain a k where r: "admit_legs balance (reserved + (sl_amount leg + OUTBOUND_FEE)) legs = (a, k)" by fastforce
      then show ?thesis
        using 2(2)[OF False r] 2(3) False by (auto simp: algebra_simps)
    qed
  qed simp
  then show "subseq admitted legs" and "length admitted + skipped = length legs"
    and "reserved \<le> balance \<Longrightarrow> reserved + cost (map sl_amount admitted) \<le> balance"
    and "\<forall>l\<in>set legs. 0 < sl_amount l \<Longrightarrow> reserved + cost (map sl_amount legs) \<le> balance \<Longrightarrow> admitted = legs"
    by blast+
qed

lemma set_admit_legs: "set (fst (admit_legs balance reserved legs)) \<subseteq> set legs"
  by (induction balance reserved legs rule: admit_legs.induct) (auto split: prod.splits if_splits)

text \<open>One admitted leg: a job of its own, or its share of the lock given back.\<close>

lemma send_scheduled_run:
  assumes "fresh_draws w (Suc k) s" and "pot_ok (pot_id p) s" and "0 < legs_held (pot_id p) s"
  obtains u s' where "send_scheduled w p leg s = (Inr True, s')" and "pots s' = pots s" and "led s' = led s" and "fresh_draws w k s'"
      and "transfersQueue s' = transfersQueue s @ [job_payout (batch_job p leg u)]"
    | s' where "send_scheduled w p leg s = (Inr False, s')" and "e_enqueue w \<noteq> (\<lambda>_. None)" and "led s' = led s"
      and "fresh_draws w k s'" and "pot_ok (pot_id p) s'" and "legs_held (pot_id p) s' = legs_held (pot_id p) s - 1"
      and "transfersQueue s' = transfersQueue s"
proof -
  let ?u = "e_uuid w (randomDraws s)" and ?s1 = "s\<lparr>randomDraws := Suc (randomDraws s)\<rparr>"
  let ?j = "job_payout (batch_job p leg ?u)"
  define pre where "pre = ''payout_'' @ uuid_text (pot_id p) @ ''_'' @ uuid_text (sl_id leg) @ ''_''"
  have ref: "job_reference ?j = pre @ uuid_text ?u"
    by (simp add: batch_job_def pre_def)
  have fresh1: "fresh_draws w k ?s1"
    using assms(1) unfolding fresh_draws_def by (auto intro: inj_on_subset)
  show ?thesis
  proof (cases "e_enqueue w (job_reference ?j)")
    case None
    have "send_scheduled w p leg s = (Inr True, ?s1\<lparr>transfersQueue := transfersQueue s @ [?j]\<rparr>)"
      using None fresh_draws_notin[OF assms(1), of pre]
      by (simp add: send_scheduled_def bnd_def randomUUID_run catch_op_def enqueuePayout_def add_job_def modify_def ret_def ref
          del: job_reference.simps)
    moreover have "fresh_draws w k (?s1\<lparr>transfersQueue := transfersQueue s @ [?j]\<rparr>)"
      by (rule fresh_draws_add[OF assms(1) ref])
    ultimately show ?thesis
      using that(1)[of "?s1\<lparr>transfersQueue := transfersQueue s @ [?j]\<rparr>" ?u] by simp
  next
    case (Some err)
    have ok: "pot_ok (pot_id p) ?s1" "legs_held (pot_id p) ?s1 = legs_held (pot_id p) s"
      using assms(2) legs_held_frame[of ?s1 s] by auto
    have dec: "decrementPendingOperationLeg (pot_id p) ?s1 = (Inr (), run_decrement (pot_id p) ?s1)"
      by (simp add: run_decrement_def decrementPendingOperationLeg_def bnd_def modify_def gets_def when_op_def ret_def clearPendingOperation_def)
    have "send_scheduled w p leg s = (Inr False, run_decrement (pot_id p) ?s1)"
      using Some by (simp add: send_scheduled_def bnd_def randomUUID_run catch_op_def enqueuePayout_def add_job_def throw_def dec ret_def)
    moreover have "fresh_draws w k (run_decrement (pot_id p) ?s1)"
      using fresh1 by (simp add: fresh_draws_def run_decrement_frame)
    moreover have "e_enqueue w \<noteq> (\<lambda>_. None)" using Some by auto
    ultimately show ?thesis
      using that(2)[of "run_decrement (pot_id p) ?s1"] run_decrement_frame[of "pot_id p" ?s1]
        pot_lock.ok_release[OF ok(1)] pot_lock.release_one[OF ok(1)] ok(2) assms(3) by simp
  qed
qed


definition of_leg :: "pot \<Rightarrow> scheduled_leg \<Rightarrow> ledger_job \<Rightarrow> bool" where
  "of_leg p leg j \<longleftrightarrow> (\<exists>u. j = batch_job p leg u)"

lemma send_batch_run:
  "fresh_draws w (length legs) s \<Longrightarrow> pot_ok (pot_id p) s \<Longrightarrow> length legs \<le> legs_held (pot_id p) s \<Longrightarrow>
   \<exists>sent jobs t. fold_op (\<lambda>leg counts. bnd (send_scheduled w p leg) (\<lambda>ok. ret (count_fired ok counts))) legs (f, k) s =
       (Inr (f + length jobs, k + (length legs - length jobs)), t) \<and>
     subseq sent legs \<and> list_all2 (of_leg p) sent jobs \<and> led t = led s \<and>
     transfersQueue t = transfersQueue s @ map job_payout jobs \<and>
     legs_held (pot_id p) t = legs_held (pot_id p) s - (length legs - length jobs) \<and>
     (e_enqueue w = (\<lambda>_. None) \<longrightarrow> sent = legs)"
proof (induction legs arbitrary: s f k)
  case Nil
  then show ?case by (intro exI[of _ "[]"] exI[of _ s]) (simp add: ret_def)
next
  case (Cons leg legs)
  let ?body = "\<lambda>leg counts. bnd (send_scheduled w p leg) (\<lambda>ok. ret (count_fired ok counts))"
  have held: "0 < legs_held (pot_id p) s" using Cons.prems(3) by auto
  show ?case
  proof (rule send_scheduled_run[of w "length legs" s p leg])
    show "fresh_draws w (Suc (length legs)) s" "pot_ok (pot_id p) s" "0 < legs_held (pot_id p) s"
      using Cons.prems(1,2) held by simp_all
  next
    fix u s' assume st: "send_scheduled w p leg s = (Inr True, s')" "pots s' = pots s" "led s' = led s"
      "fresh_draws w (length legs) s'" "transfersQueue s' = transfersQueue s @ [job_payout (batch_job p leg u)]"
    have ok: "pot_ok (pot_id p) s'" "legs_held (pot_id p) s' = legs_held (pot_id p) s"
      using legs_held_frame[OF st(2)] Cons.prems(2) by auto
    obtain sent jobs t where t: "fold_op ?body legs (Suc f, k) s' = (Inr (Suc f + length jobs, k + (length legs - length jobs)), t)"
      "subseq sent legs" "list_all2 (of_leg p) sent jobs" "led t = led s'" "transfersQueue t = transfersQueue s' @ map job_payout jobs"
      "legs_held (pot_id p) t = legs_held (pot_id p) s' - (length legs - length jobs)" "e_enqueue w = (\<lambda>_. None) \<longrightarrow> sent = legs"
      using Cons.IH[OF st(4) ok(1), of "Suc f" k] Cons.prems(3) ok(2) by auto
    have "of_leg p leg (batch_job p leg u)" by (auto simp: of_leg_def)
    moreover have "?body leg (f, k) s = (Inr (Suc f, k), s')"
      by (simp add: bnd_run[where m = "send_scheduled w p leg", OF st(1)] count_fired_def ret_def)
    ultimately show ?thesis
      using t st ok(2) by (intro exI[of _ "leg # sent"] exI[of _ "batch_job p leg u # jobs"] exI[of _ t])
        (simp add: bnd_run[where m = "?body leg (f, k)"])
  next
    fix s' assume st: "send_scheduled w p leg s = (Inr False, s')" "e_enqueue w \<noteq> (\<lambda>_. None)" "led s' = led s"
      "fresh_draws w (length legs) s'" "pot_ok (pot_id p) s'" "legs_held (pot_id p) s' = legs_held (pot_id p) s - 1"
      "transfersQueue s' = transfersQueue s"
    have fits: "length legs \<le> legs_held (pot_id p) s'"
      using Cons.prems(3) unfolding st(6) list.size by linarith
    obtain sent jobs t where t: "fold_op ?body legs (f, Suc k) s' = (Inr (f + length jobs, Suc k + (length legs - length jobs)), t)"
      "subseq sent legs" "list_all2 (of_leg p) sent jobs" "led t = led s'" "transfersQueue t = transfersQueue s' @ map job_payout jobs"
      "legs_held (pot_id p) t = legs_held (pot_id p) s' - (length legs - length jobs)"
      using Cons.IH[OF st(4,5) fits, of f "Suc k"] by blast
    have le: "length jobs \<le> length legs"
      using list_all2_lengthD[OF t(3)] list_emb_length[OF t(2)] by simp
    have "?body leg (f, k) s = (Inr (f, Suc k), s')"
      by (simp add: bnd_run[where m = "send_scheduled w p leg", OF st(1)] count_fired_def ret_def)
    then show ?thesis
      using t st le by (intro exI[of _ sent] exI[of _ jobs] exI[of _ t])
        (auto simp: bnd_run[where m = "?body leg (f, k)"] Suc_diff_le)
  qed
qed

lemma of_leg_all:
  "list_all2 (of_leg p) sent jobs \<Longrightarrow> map lj_amount jobs = map sl_amount sent"
  "list_all2 (of_leg p) sent jobs \<Longrightarrow> map lj_onSuccess jobs = map (\<lambda>l. Some (mark_scheduled_leg_fired (sl_id l))) sent"
  "list_all2 (of_leg p) sent jobs \<Longrightarrow> \<forall>j\<in>set jobs. lj_potId j = pot_id p \<and> lj_isFanOutLeg j"
  by (induction rule: list_all2_induct) (auto simp: of_leg_def batch_job_def)

text \<open>C20. A batch of scheduled legs never promises more than the pot holds. From a free lock: every job it
  queues pays one due leg, in their order and each at most once, the amounts and outbound fees of the queued jobs
  together stay within the pot's funds, the lock is held for exactly as many legs as jobs were queued (so it is
  free again when none was), the two counts add up to the due legs, and when the queue is up and the funds
  cover all of them they all go out in this one sweep.\<close>

theorem scheduled_batch_fits:
  assumes "wf_ledger (led s)" and "pot_ok (pot_id p) s" and "legs_held (pot_id p) s = 0" and "e_gap w = id"
    and "fresh_draws w (length legs) s" and "\<forall>l\<in>set legs. 0 < sl_amount l"
  shows "\<exists>jobs skipped t. enqueueUnorderedLegs w p legs s = (Inr (length jobs, skipped), t) \<and>
    length jobs + skipped = length legs \<and> transfersQueue t = transfersQueue s @ map job_payout jobs \<and>
    cost (map lj_amount jobs) \<le> pot_funds (pot_id p) s \<and> legs_held (pot_id p) t = length jobs \<and>
    subseq (map lj_onSuccess jobs) (map (\<lambda>l. Some (mark_scheduled_leg_fired (sl_id l))) legs) \<and>
    (\<forall>j\<in>set jobs. lj_potId j = pot_id p \<and> lj_isFanOutLeg j) \<and>
    (e_enqueue w = (\<lambda>_. None) \<and> cost (map sl_amount legs) \<le> pot_funds (pot_id p) s \<longrightarrow> skipped = 0)"
proof -
  let ?q = "pot_id p"
  obtain as where bal: "pot_balance ?q s = (Inr (pot_funds ?q s), s\<lparr>led := (led s)\<lparr>accounts := accounts (led s) @ as\<rparr>\<rparr>)"
    using pot_balance_run[OF assms(1)] by blast
  let ?s1 = "s\<lparr>led := (led s)\<lparr>accounts := accounts (led s) @ as\<rparr>\<rparr>"
  obtain admitted skipped where adm: "admit_legs (pot_funds ?q s) 0 legs = (admitted, skipped)" by fastforce
  note facts = admit_legs_facts[OF adm]
  have funds: "0 \<le> pot_funds ?q s"
    using wf_ledgerD(6)[OF assms(1)] by (simp add: pot_funds_def split: option.split)
  show ?thesis
  proof (cases "admitted = []")
    case True
    then show ?thesis
      using facts(2,4) assms(3,6) funds
      by (intro exI[of _ "[]"] exI[of _ skipped] exI[of _ ?s1])
        (auto simp: enqueueUnorderedLegs_def bnd_def bal adm ret_def)
  next
    case False
    obtain cur where cur: "find_pot ?q s = Some cur" "wf_pots s"
      using assms(2) by (auto simp: pot_ok_def)
    let ?s2 = "?s1\<lparr>pots := update_where (\<lambda>q. pot_id q = ?q) (claim_lock op_payout (int (length admitted))) (pots s)\<rparr>"
    have claim: "claimPendingOperation ?q op_payout (int (length admitted)) ?s1 = (Inr True, ?s2)"
      using claim_run[of ?s1 ?q cur op_payout "int (length admitted)"] cur legs_held_0[OF cur(1)] assms(3) by simp
    have ok: "pot_ok ?q ?s1" "legs_held ?q ?s1 = 0" using assms(2,3) by simp_all
    have "snd (run_claim ?q op_payout (length admitted) ?s1) = ?s2"
      by (simp add: run_claim_def claim)
    then have held: "legs_held ?q ?s2 = length admitted" "pot_ok ?q ?s2"
      using pot_lock.claim_free[OF ok, of "length admitted" op_payout] pot_lock.ok_claim[OF ok(1), of op_payout "length admitted"] False
      by auto
    have fresh: "fresh_draws w (length admitted) ?s2"
      using fresh_draws_mono[OF assms(5), of "length admitted"] facts(2) by (simp add: fresh_draws_def)
    obtain sent jobs t where t: "fold_op (\<lambda>leg counts. bnd (send_scheduled w p leg) (\<lambda>ok. ret (count_fired ok counts))) admitted (0, skipped) ?s2 =
        (Inr (0 + length jobs, skipped + (length admitted - length jobs)), t)"
      "subseq sent admitted" "list_all2 (of_leg p) sent jobs" "transfersQueue t = transfersQueue ?s2 @ map job_payout jobs"
      "legs_held ?q t = legs_held ?q ?s2 - (length admitted - length jobs)" "e_enqueue w = (\<lambda>_. None) \<longrightarrow> sent = admitted"
      using send_batch_run[OF fresh held(2), of 0 skipped] held(1) by auto
    have le: "length jobs \<le> length admitted" "length jobs = length sent"
      using list_all2_lengthD[OF t(3)] list_emb_length[OF t(2)] by auto
    have "enqueueUnorderedLegs w p legs s = (Inr (length jobs, skipped + (length admitted - length jobs)), t)"
      using False t(1) by (simp add: enqueueUnorderedLegs_def bnd_def bal adm in_gap_def assms(4) modify_def claim)
    moreover have "cost (map lj_amount jobs) \<le> pot_funds ?q s"
    proof -
      have "\<forall>v\<in>set (map sl_amount admitted). 0 \<le> v"
        using assms(6) subseq_order.order_trans list_emb_set[OF facts(1)] by (fastforce intro: less_imp_le)
      then have "cost (map sl_amount sent) \<le> cost (map sl_amount admitted)"
        using subseq_map[OF t(2), of sl_amount] by (intro cost_subseq)
      then show ?thesis using facts(3) funds of_leg_all(1)[OF t(3)] by simp
    qed
    moreover have "subseq (map lj_onSuccess jobs) (map (\<lambda>l. Some (mark_scheduled_leg_fired (sl_id l))) legs)"
      using subseq_map[OF subseq_order.order_trans[OF t(2) facts(1)]] of_leg_all(2)[OF t(3)] by simp
    moreover have "skipped + (length admitted - length jobs) = 0"
      if "e_enqueue w = (\<lambda>_. None)" "cost (map sl_amount legs) \<le> pot_funds ?q s"
      using that t(6) facts(2,4) assms(6) le by auto
    ultimately show ?thesis
      using le facts(2) held(1) t(4,5) of_leg_all(3)[OF t(3)]
      by (intro exI[of _ jobs] exI[of _ "skipped + (length admitted - length jobs)"] exI[of _ t]) auto
  qed
qed


definition example_leg :: "uuid \<Rightarrow> int \<Rightarrow> kobo \<Rightarrow> scheduled_leg" where
  "example_leg i n v = \<lparr>sl_id = i, sl_scheduledConfigId = 1, sl_sequenceOrder = n, sl_destinationAccount = ''0123456789'',
     sl_destinationBank = ''058'', sl_destinationAccountName = ''Ada'', sl_amount = v, sl_scheduledDate = 0,
     sl_fired = False, sl_firedAt = None\<rparr>"

theorem scheduled_batch_fits_witness:
  "\<exists>jobs t. enqueueUnorderedLegs example_env example_pot [example_leg 1 0 8000, example_leg 2 1 1000] example_db = (Inr (2, 0), t) \<and>
     transfersQueue t = map job_payout jobs \<and> legs_held 7 t = 2 \<and> cost (map lj_amount jobs) \<le> 20000"
proof -
  let ?legs = "[example_leg 1 0 8000, example_leg 2 1 1000]"
  have facts: "pot_funds 7 example_db = 20000" "transfersQueue example_db = []" "pot_id example_pot = 7"
    "legs_held (pot_id example_pot) example_db = 0" "cost (map sl_amount ?legs) = 19000"
    by code_simp+
  have ok: "pot_ok (pot_id example_pot) example_db" "\<forall>l\<in>set ?legs. 0 < sl_amount l"
    using example_db_ok(2,3) by (simp_all add: pot_ok_def example_leg_def)
  obtain jobs skipped t where t: "enqueueUnorderedLegs example_env example_pot ?legs example_db = (Inr (length jobs, skipped), t)"
    "length jobs + skipped = length ?legs" "transfersQueue t = [] @ map job_payout jobs" "cost (map lj_amount jobs) \<le> 20000"
    "legs_held 7 t = length jobs" "e_enqueue example_env = (\<lambda>_. None) \<and> cost (map sl_amount ?legs) \<le> 20000 \<longrightarrow> skipped = 0"
    using scheduled_batch_fits[OF example_db_ok(1) ok(1) facts(4) example_db_ok(4) example_db_ok(6)[of "length ?legs"] ok(2)]
    unfolding facts by auto
  have "skipped = 0" using t(6) example_db_ok(5) unfolding facts(5) by simp
  then show ?thesis
    using t(1-5) by (intro exI[of _ jobs] exI[of _ t]) simp
qed

section \<open>An ordered schedule\<close>

text \<open>What a job a sweep queues for a leg of the tables \<open>s\<close> must be.\<close>

definition in_turn :: "env \<Rightarrow> db \<Rightarrow> DisbursementJobData \<Rightarrow> bool" where
  "in_turn w s j \<longleftrightarrow> (\<exists>config\<in>set (scheduledPayoutConfigs s). \<exists>leg\<in>set (scheduledPayoutLegs s). \<exists>p\<in>set (pots s). \<exists>data.
     j = job_payout data \<and> lj_onSuccess data = Some (mark_scheduled_leg_fired (sl_id leg)) \<and> lj_potId data = sc_potId config \<and>
     lj_amount data = sl_amount leg \<and> pot_id p = sc_potId config \<and> pot_status p = pot_open \<and>
     sl_scheduledConfigId leg = sc_id config \<and> \<not> sl_fired leg \<and> sl_scheduledDate leg \<le> e_now w \<and>
     (sc_ordered config \<longrightarrow> (\<forall>other\<in>set (scheduledPayoutLegs s). sl_scheduledConfigId other = sc_id config \<and>
        sl_sequenceOrder other < sl_sequenceOrder leg \<longrightarrow> sl_fired other)))"

definition queue_in_turn :: "env \<Rightarrow> db \<Rightarrow> db \<Rightarrow> bool" where
  "queue_in_turn w s t \<longleftrightarrow> scheduledPayoutLegs t = scheduledPayoutLegs s \<and>
     (\<forall>j\<in>set (transfersQueue t). j \<in> set (transfersQueue s) \<or> in_turn w s j)"

lemma turn_frame:
  "queue_in_turn w s (t\<lparr>led := l\<rparr>) = queue_in_turn w s t" "queue_in_turn w s (t\<lparr>pots := ps\<rparr>) = queue_in_turn w s t"
  "queue_in_turn w s (t\<lparr>randomDraws := n\<rparr>) = queue_in_turn w s t"
  by (simp_all add: queue_in_turn_def)

lemma turn_steps:
  "preserves (queue_in_turn w s) (in_ledger m)" "preserves (queue_in_turn w s) (randomUUID w)"
  "preserves (queue_in_turn w s) (claimPendingOperation q kind n)" "preserves (queue_in_turn w s) (decrementPendingOperationLeg q)"
  "in_turn w s j \<Longrightarrow> preserves (queue_in_turn w s) (add_job w j)"
proof -
  show "preserves (queue_in_turn w s) (in_ledger m)"
    by (rule preserves_in_ledger_frame) (rule turn_frame)
  show "preserves (queue_in_turn w s) (randomUUID w)"
    unfolding randomUUID_def by (intro preserves_intros preserves_modify) (simp add: turn_frame)
  show "preserves (queue_in_turn w s) (claimPendingOperation q kind n)"
    by (simp add: preserves_def claimPendingOperation_def Let_def turn_frame)
  show "preserves (queue_in_turn w s) (decrementPendingOperationLeg q)"
    unfolding decrementPendingOperationLeg_def clearPendingOperation_def
    by (intro preserves_intros preserves_modify) (simp_all add: turn_frame)
  show "preserves (queue_in_turn w s) (add_job w j)" if "in_turn w s j"
    unfolding add_job_def by (intro preserves_intros preserves_modify) (use that in \<open>auto simp: queue_in_turn_def\<close>)
qed

lemma turn_balance: "preserves (queue_in_turn w s) (pot_balance q)"
  unfolding pot_balance_def by (intro preserves_intros turn_steps)

text \<open>The first of a list sorted by a key is the least.\<close>

lemma unfired_head:
  assumes "unfired_legs i s = leg # rest"
  shows "leg \<in> set (scheduledPayoutLegs s)" and "sl_scheduledConfigId leg = i" and "\<not> sl_fired leg"
    and "other \<in> set (scheduledPayoutLegs s) \<Longrightarrow> sl_scheduledConfigId other = i \<Longrightarrow>
      sl_sequenceOrder other < sl_sequenceOrder leg \<Longrightarrow> sl_fired other"
proof -
  let ?rows = "filter (\<lambda>l. sl_scheduledConfigId l = i \<and> \<not> sl_fired l) (scheduledPayoutLegs s)"
  have set: "set (unfired_legs i s) = set ?rows" and sorted: "sorted (map sl_sequenceOrder (unfired_legs i s))"
    by (simp_all add: unfired_legs_def)
  have "leg \<in> set ?rows" using set assms by auto
  then show "leg \<in> set (scheduledPayoutLegs s)" and "sl_scheduledConfigId leg = i" and "\<not> sl_fired leg"
    by auto
  show "sl_fired other" if h: "other \<in> set (scheduledPayoutLegs s)" "sl_scheduledConfigId other = i"
    "sl_sequenceOrder other < sl_sequenceOrder leg"
  proof (rule ccontr)
    assume "\<not> sl_fired other"
    then have "other \<in> set (unfired_legs i s)" using h set by auto
    then show False using sorted h(3) by (auto simp: assms)
  qed
qed

lemma turn_fixed:
  assumes "e_gap w = id" and "\<And>u. in_turn w s (job_payout \<lparr>lj_potId = pot_id p, lj_amount = v, lj_destinationAccount = de_account d,
      lj_destinationBank = de_bank d, lj_reference = kind_text op_payout @ ''_'' @ uuid_text (pot_id p) @ ''_'' @ uuid_text u,
      lj_contributorUserId = None, lj_isFanOutLeg = False, lj_onSuccess = a\<rparr>)"
  shows "preserves (queue_in_turn w s) (postFixedAmountDisbursement w p op_payout v d a None)"
proof -
  have pay: "enqueue_for w op_payout j = add_job w (job_payout j)" for j
    by (simp add: enqueue_for_def enqueuePayout_def)
  show ?thesis
    unfolding postFixedAmountDisbursement_def pay in_gap_def assms(1)
    by (intro preserves_intros turn_steps turn_balance preserves_modify assms(2)) simp
qed

lemma sweep_config_in_turn:
  assumes "e_gap w = id" and "(config, p) \<in> set (open_scheduled s)"
  shows "preserves (queue_in_turn w s) (sweep_config w config p)"
proof (rule preservesI)
  fix t assume t: "queue_in_turn w s t"
  have rows: "scheduledPayoutLegs t = scheduledPayoutLegs s" using t by (simp add: queue_in_turn_def)
  have row: "config \<in> set (scheduledPayoutConfigs s)" "p \<in> set (pots s)" "pot_id p = sc_potId config" "pot_status p = pot_open"
    using assms(2) by (auto simp: open_scheduled_def)
  have step: "preserves (queue_in_turn w s) (enqueueLeg w p leg)"
    if h: "unfired_legs (sc_id config) t = leg # rest" "sl_scheduledDate leg \<le> e_now w" for leg rest
  proof -
    have "\<forall>u. in_turn w s (job_payout \<lparr>lj_potId = pot_id p, lj_amount = sl_amount leg, lj_destinationAccount = sl_destinationAccount leg,
      lj_destinationBank = sl_destinationBank leg, lj_reference = kind_text op_payout @ ''_'' @ uuid_text (pot_id p) @ ''_'' @ uuid_text u,
      lj_contributorUserId = None, lj_isFanOutLeg = False, lj_onSuccess = Some (mark_scheduled_leg_fired (sl_id leg))\<rparr>)"
      unfolding in_turn_def using unfired_head[OF h(1)] row rows h(2)
      by (intro allI bexI[of _ config] bexI[of _ leg] bexI[of _ p] exI) auto
    then show ?thesis
      unfolding enqueueLeg_def by (intro preserves_intros turn_balance turn_fixed[OF assms(1)]) simp
  qed
  have batch: "preserves (queue_in_turn w s) (send_scheduled w p leg)"
    if h: "leg \<in> set (due_legs w (sc_id config) t)" "\<not> sc_ordered config" for leg
  proof -
    have "\<forall>u. in_turn w s (job_payout (batch_job p leg u))"
      unfolding in_turn_def using h row rows
      by (intro allI bexI[of _ config] bexI[of _ leg] bexI[of _ p] exI) (auto simp: due_legs_def unfired_legs_def batch_job_def)
    then show ?thesis
      unfolding send_scheduled_def enqueuePayout_def by (intro preserves_intros turn_steps) simp
  qed
  have many: "preserves (queue_in_turn w s) (fold_op (\<lambda>leg counts. bnd (send_scheduled w p leg) (\<lambda>ok. ret (count_fired ok counts))) legs c)"
    if "set legs \<subseteq> set (due_legs w (sc_id config) t)" "\<not> sc_ordered config" for legs c
    using that
  proof (induction legs arbitrary: c)
    case (Cons leg legs)
    show ?case
      unfolding fold_op.simps by (intro preserves_intros batch Cons.IH) (use Cons.prems in auto)
  qed (simp add: preserves_ret)
  show "queue_in_turn w s (snd (sweep_config w config p t))"
  proof (cases "sc_ordered config")
    case True
    show ?thesis
    proof (cases "unfired_legs (sc_id config) t")
      case Nil
      then show ?thesis using True t by (simp add: sweep_config_def ret_def)
    next
      case (Cons leg rest)
      show ?thesis
      proof (cases "e_now w < sl_scheduledDate leg")
        case True
        then show ?thesis using \<open>sc_ordered config\<close> t Cons by (simp add: sweep_config_def ret_def)
      next
        case False
        have "preserves (queue_in_turn w s) (bnd (enqueueLeg w p leg) (\<lambda>ok. ret (count_fired ok (0, 0))))"
          using step[OF Cons] False by (intro preserves_intros) simp
        then show ?thesis using \<open>sc_ordered config\<close> t Cons False by (simp add: sweep_config_def preserves_def)
      qed
    qed
  next
    case False
    have "preserves (queue_in_turn w s) (enqueueUnorderedLegs w p (due_legs w (sc_id config) t))"
    proof -
      show ?thesis
        unfolding enqueueUnorderedLegs_def Let_def case_prod_beta in_gap_def assms(1)
        by (intro preserves_intros turn_steps turn_balance preserves_modify many[OF set_admit_legs False]) simp
    qed
    then show ?thesis using False t by (simp add: sweep_config_def ret_def preserves_def)
  qed
qed


lemma fireDueScheduledLegs_in_turn:
  assumes "e_gap w = id"
  shows "queue_in_turn w s (snd (fireDueScheduledLegs w s))"
proof -
  let ?body = "\<lambda>(config, p) (fired, skipped). bnd (sweep_config w config p) (\<lambda>(f, k). ret (fired + f :: nat, skipped + k :: nat))"
  have "preserves (queue_in_turn w s) (fold_op ?body rows c)" if "set rows \<subseteq> set (open_scheduled s)" for rows c
    using that
  proof (induction rows arbitrary: c)
    case (Cons row rows)
    obtain config p where row: "row = (config, p)" by fastforce
    have "preserves (queue_in_turn w s) (sweep_config w config p)"
      using Cons.prems row by (intro sweep_config_in_turn[OF assms]) simp
    then have "preserves (queue_in_turn w s) (?body row c)"
      by (cases c) (simp add: row preserves_bnd preserves_ret split_def)
    then show ?case
      unfolding fold_op.simps by (intro preserves_bnd Cons.IH) (use Cons.prems in simp_all)
  qed (simp add: preserves_ret)
  moreover have "queue_in_turn w s s" by (simp add: queue_in_turn_def)
  ultimately show ?thesis
    by (simp add: fireDueScheduledLegs_def preserves_def)
qed

text \<open>A rotation of two members: the first leg is queued, the second waits although its date has come too.\<close>

definition rotation_db :: db where
  "rotation_db = empty_db\<lparr>pots := [example_pot],
     led := empty_ledger\<lparr>accounts := [\<lparr>acc_id = 1, acc_ownerType = pot_owner, acc_ownerId = Some 7, acc_currency = ''NGN'',
         acc_normalBalance = credit, acc_status = account_active\<rparr>],
       balances := [\<lparr>bal_accountId = 1, bal_ledgerBalance = 20000, bal_availableBalance = 20000, bal_version = 0\<rparr>]\<rparr>,
     scheduledPayoutConfigs := [\<lparr>sc_id = 1, sc_potId = 7, sc_ordered = True\<rparr>],
     scheduledPayoutLegs := [example_leg 2 1 1000, example_leg 1 0 8000]\<rparr>"

lemma rotation_run: "length (transfersQueue (snd (fireDueScheduledLegs example_env rotation_db))) = 1"
proof -
  have rows: "open_scheduled rotation_db = [(\<lparr>sc_id = 1, sc_potId = 7, sc_ordered = True\<rparr>, example_pot)]"
    "unfired_legs 1 rotation_db = [example_leg 1 0 8000, example_leg 2 1 1000]" "pot_id example_pot = 7"
    by code_simp+
  have "pot_balance 7 rotation_db = (Inr 20000, rotation_db)"
    by (simp add: pot_balance_def bnd_def in_ledger_run getOrCreatePotAccount_def getOrCreateAccount_existing rotation_db_def
        is_account_of_def gets_def getBalance_def bal_lookup_def)
  then show ?thesis
    using rows
    by (simp add: fireDueScheduledLegs_def sweep_config_def gets_def bnd_def example_leg_def enqueueLeg_def fee_constants count_fired_def
        postFixedAmountDisbursement_def catch_op_def randomUUID_run in_gap_def example_env_def modify_def claimPendingOperation_def
        Let_def require_def ret_def enqueue_for_def enqueuePayout_def add_job_def throw_def list_ex_iff)
      (simp add: rotation_db_def empty_db_def example_pot_def)
qed

text \<open>A scheduled payout waits its turn. Every job the scheduled sweep adds to the queue pays exactly one
  leg of a schedule of an open pot, a leg that has not fired and whose date has come; and when the schedule is
  ordered, every leg before it in the sequence has fired already.\<close>

lemma scheduled_legs_in_turn:
  assumes "e_gap w = id" and "fireDueScheduledLegs w s = (r, t)"
  shows "\<forall>j\<in>set (transfersQueue t). j \<in> set (transfersQueue s) \<or> in_turn w s j"
  using fireDueScheduledLegs_in_turn[OF assms(1), of s] assms(2) by (simp add: queue_in_turn_def)

lemma scheduled_legs_in_turn_witness:
  "\<exists>r t. fireDueScheduledLegs example_env rotation_db = (r, t) \<and> length (transfersQueue t) = 1 \<and>
     (\<forall>j\<in>set (transfersQueue t). in_turn example_env rotation_db j)"
proof -
  obtain r t where run: "fireDueScheduledLegs example_env rotation_db = (r, t)" by fastforce
  have "transfersQueue rotation_db = []" by (simp add: rotation_db_def empty_db_def)
  then show ?thesis
    using scheduled_legs_in_turn[OF example_db_ok(4) run] run rotation_run by auto
qed

end
