(* ===== verification/Sweeps_Liveness.thy ===== *)
theory Sweeps_Liveness
  imports Sweeps_Laws
begin

text \<open>
  From the cron sweep to the bank: a recurring payout that is due, funded and unobstructed is queued by the next
  sweep, whatever the other pots' payouts do, and the worker that runs its job pays it and sets the next run.
\<close>

section \<open>One recurring payout\<close>

context disbursement_frame
begin

lemma fire_recurring: "e_gap w = id \<Longrightarrow> preserves I (fire_recurring w config p)"
  unfolding fire_recurring_def by (intro preserves_intros pot_balance postFixedAmountDisbursement)

end

text \<open>What every step of the sweep keeps: the ledger's rows and balances, its accounts, the pots' ids, the
  schedule and the jobs already queued.\<close>

interpretation recurring_frame: disbursement_frame "\<lambda>s. recurringPayoutConfigs s = c" for c
  by unfold_locales (rule preserves_in_ledger_frame, simp_all)

lemma pot_ids_of_locks: "map clear_lock ps = map clear_lock qs \<Longrightarrow> map pot_id ps = map pot_id qs"
proof -
  have "map pot_id rs = map pot_id (map clear_lock rs)" for rs
    by (induction rs) (simp_all add: clear_lock_def)
  then show "map clear_lock ps = map clear_lock qs \<Longrightarrow> map pot_id ps = map pot_id qs" by metis
qed

interpretation pot_ids_frame: disbursement_frame "\<lambda>s. map pot_id (pots s) = c" for c
proof unfold_locales
  fix s :: db and ps
  assume "map pot_id (pots s) = c" and "map clear_lock ps = map clear_lock (pots s)"
  then show "map pot_id (pots (s\<lparr>pots := ps\<rparr>)) = c"
    using pot_ids_of_locks[of ps "pots s"] by (simp del: map_eq_conv)
qed (rule preserves_in_ledger_frame, simp_all del: map_eq_conv)

definition sweep_kept :: "db \<Rightarrow> db \<Rightarrow> bool" where
  "sweep_kept s t \<longleftrightarrow> wf_ledger (led t) \<and> wf_pots t \<and> ledger_rows t = ledger_rows s \<and>
     (\<exists>as. accounts (led t) = accounts (led s) @ as) \<and> recurringPayoutConfigs t = recurringPayoutConfigs s \<and>
     map pot_id (pots t) = map pot_id (pots s) \<and> set (transfersQueue s) \<subseteq> set (transfersQueue t)"

lemma sweep_kept_trans: "sweep_kept s t \<Longrightarrow> sweep_kept t u \<Longrightarrow> sweep_kept s u"
  unfolding sweep_kept_def by (elim conjE exE) auto

definition recurring_job :: "env \<Rightarrow> recurring_config \<Rightarrow> nat \<Rightarrow> DisbursementJobData" where
  "recurring_job w config n = fixed_job w (rc_potId config) op_payout (rc_amount config)
     \<lparr>de_account = rc_destinationAccount config, de_bank = rc_destinationBank config\<rparr>
     (Some (advance_recurring_next_run_at (rc_id config))) None n"

lemma find_pot_claim_other:
  "q \<noteq> q' \<Longrightarrow> find_pot q (s\<lparr>pots := update_where (\<lambda>p. pot_id p = q') (claim_lock kind n) (pots s)\<rparr>) = find_pot q s"
  by (simp add: find_pot_def claim_lock.find_other)

lemma fresh_draws_skip:
  "fresh_draws w (Suc k) s \<Longrightarrow> transfersQueue s' = transfersQueue s \<Longrightarrow> randomDraws s' = Suc (randomDraws s) \<Longrightarrow> fresh_draws w k s'"
  unfolding fresh_draws_def by (auto intro: inj_on_subset)

lemma fresh_draws_same:
  "transfersQueue s' = transfersQueue s \<Longrightarrow> randomDraws s' = randomDraws s \<Longrightarrow> fresh_draws w k s' = fresh_draws w k s"
  by (simp add: fresh_draws_def)

lemma fire_recurring_kept:
  assumes "e_gap w = id" and "wf_ledger (led s)" and "wf_pots s" and "fire_recurring w config p s = (r, s')"
    and "set (transfersQueue s) \<subseteq> set (transfersQueue s')"
  shows "sweep_kept s s'"
proof -
  have run: "snd (fire_recurring w config p s) = s'" using assms(4) by simp
  have "wf_ledger (led s')"
    using wf_frame.fire_recurring[OF assms(1)] assms(2) run by (auto simp: preserves_def)
  moreover have "ledger_rows s' = ledger_rows s"
    using rows_frame.fire_recurring[OF assms(1), of "ledger_rows s"] run by (auto simp: preserves_def)
  moreover have "\<exists>as. accounts (led s') = accounts (led s) @ as"
    using accounts_frame.fire_recurring[OF assms(1), of "accounts (led s)"] run by (auto simp: preserves_def)
  moreover have "recurringPayoutConfigs s' = recurringPayoutConfigs s"
    using recurring_frame.fire_recurring[OF assms(1), of "recurringPayoutConfigs s"] run by (auto simp: preserves_def)
  moreover have ids: "map pot_id (pots s') = map pot_id (pots s)"
    using pot_ids_frame.fire_recurring[OF assms(1), of "map pot_id (pots s)"] run
    by (auto simp: preserves_def simp del: map_eq_conv)
  moreover have "wf_pots s'" using assms(3) unfolding wf_pots_def ids .
  ultimately show ?thesis using assms(5) by (simp add: sweep_kept_def)
qed

lemma fire_recurring_step:
  assumes "e_gap w = id" and "e_enqueue w = (\<lambda>_. None)" and "fresh_draws w (Suc k) s" and "wf_ledger (led s)" and "wf_pots s"
    and "find_pot (pot_id p) s = Some cur" and "pot_id p = rc_potId config"
  shows "\<exists>ok s'. fire_recurring w config p s = (Inr ok, s') \<and> sweep_kept s s' \<and> fresh_draws w k s' \<and>
    randomDraws s \<le> randomDraws s' \<and> randomDraws s' \<le> Suc (randomDraws s) \<and> (\<forall>q. q \<noteq> pot_id p \<longrightarrow> find_pot q s' = find_pot q s) \<and>
    (pot_pendingOperation cur = None \<and> rc_amount config + OUTBOUND_FEE \<le> pot_funds (pot_id p) s \<and> 0 < pot_funds (pot_id p) s \<longrightarrow>
       legs_held (pot_id p) s' = 1 \<and> recurring_job w config (randomDraws s) \<in> set (transfersQueue s'))"
proof -
  let ?q = "pot_id p" and ?d = "\<lparr>de_account = rc_destinationAccount config, de_bank = rc_destinationBank config\<rparr>"
  let ?post = "postFixedAmountDisbursement w p op_payout (rc_amount config) ?d (Some (advance_recurring_next_run_at (rc_id config))) None"
  let ?job = "recurring_job w config (randomDraws s)"
  obtain as where bal: "pot_balance ?q s = (Inr (pot_funds ?q s), s\<lparr>led := (led s)\<lparr>accounts := accounts (led s) @ as\<rparr>\<rparr>)"
    using pot_balance_run[OF assms(4)] by blast
  define s1 where "s1 = s\<lparr>led := (led s)\<lparr>accounts := accounts (led s) @ as\<rparr>\<rparr>"
  have same: "transfersQueue s1 = transfersQueue s" "randomDraws s1 = randomDraws s" "pots s1 = pots s" "\<And>q. find_pot q s1 = find_pot q s"
    by (simp_all add: s1_def)
  have funded: "pot_funds ?q s1 = pot_funds ?q s" if h: "0 < pot_funds ?q s"
  proof -
    obtain a where "pot_account ?q s = Some a" using pot_funds_pos_account[OF h] by blast
    then have "s1 = s" using bal pot_balance_existing[of ?q s a] by (simp add: s1_def)
    then show ?thesis by simp
  qed
  show ?thesis
  proof (cases "pot_funds ?q s < rc_amount config + OUTBOUND_FEE")
    case True
    then have run: "fire_recurring w config p s = (Inr False, s1)"
      by (simp add: fire_recurring_def bnd_def bal s1_def ret_def)
    have "sweep_kept s s1" by (rule fire_recurring_kept[OF assms(1,4,5) run]) (simp add: same)
    moreover have "fresh_draws w k s1" using fresh_draws_mono[OF assms(3), of k] fresh_draws_same[of s1 s] same by simp
    ultimately show ?thesis using run True same by (intro exI[of _ False] exI[of _ s1]) simp
  next
    case False
    have go: "fire_recurring w config p s = catch_op (seq ?post (ret True)) (\<lambda>err. ret False) s1"
      using False by (simp add: fire_recurring_def bnd_def bal s1_def)
    have wf1: "wf_ledger (led s1)" "wf_pots s1" "find_pot ?q s1 = Some cur"
      using preservesD[OF wf_frame.pot_balance _ bal] assms(4-6) by (simp_all add: s1_def)
    obtain as2 where post: "let u1 = s1\<lparr>led := (led s1)\<lparr>accounts := accounts (led s1) @ as2\<rparr>\<rparr>;
      u2 = u1\<lparr>randomDraws := Suc (randomDraws s1)\<rparr>;
      u3 = u2\<lparr>pots := update_where (\<lambda>q. pot_id q = ?q) (claim_lock op_payout 1) (pots s1)\<rparr> in
      ?post s1 = (if pot_funds ?q s1 < rc_amount config + OUTBOUND_FEE then (Inl (fee_error (rc_amount config) (pot_funds ?q s1)), u1)
       else if pot_pendingOperation cur \<noteq> None then (Inl in_flight_error, u2)
       else add_job w (fixed_job w ?q op_payout (rc_amount config) ?d (Some (advance_recurring_next_run_at (rc_id config))) None (randomDraws s1)) u3)"
      using postFixedAmountDisbursement_run[OF wf1 assms(1), of op_payout "rc_amount config" ?d] by blast
    define u1 where "u1 = s1\<lparr>led := (led s1)\<lparr>accounts := accounts (led s1) @ as2\<rparr>\<rparr>"
    define u2 where "u2 = u1\<lparr>randomDraws := Suc (randomDraws s1)\<rparr>"
    define u3 where "u3 = u2\<lparr>pots := update_where (\<lambda>q. pot_id q = ?q) (claim_lock op_payout 1) (pots s1)\<rparr>"
    let ?u4 = "u3\<lparr>transfersQueue := transfersQueue s @ [?job]\<rparr>"
    have job: "fixed_job w ?q op_payout (rc_amount config) ?d (Some (advance_recurring_next_run_at (rc_id config))) None (randomDraws s1) = ?job"
      by (simp add: recurring_job_def assms(7) same)
    have ref: "job_reference ?job = (kind_text op_payout @ ''_'' @ uuid_text (rc_potId config) @ ''_'') @ uuid_text (e_uuid w (randomDraws s))"
      unfolding recurring_job_def by (rule fixed_job_reference)
    have u: "transfersQueue u3 = transfersQueue s" "randomDraws u3 = Suc (randomDraws s)"
      "transfersQueue u2 = transfersQueue s" "randomDraws u2 = Suc (randomDraws s)" "transfersQueue u1 = transfersQueue s"
      "randomDraws u1 = randomDraws s" "\<And>q. find_pot q u1 = find_pot q s" "\<And>q. find_pot q u2 = find_pot q s"
      by (simp_all add: u1_def u2_def u3_def same)
    have add: "add_job w ?job u3 = (Inr (), ?u4)"
      using fresh_draws_notin[OF assms(3), of "kind_text op_payout @ ''_'' @ uuid_text (rc_potId config) @ ''_''"]
      by (simp add: add_job_def assms(2) modify_def u(1) ref del: kind_text.simps)
    from post have out: "?post s1 = (if pot_funds ?q s1 < rc_amount config + OUTBOUND_FEE then (Inl (fee_error (rc_amount config) (pot_funds ?q s1)), u1)
       else if pot_pendingOperation cur \<noteq> None then (Inl in_flight_error, u2) else (Inr (), ?u4))"
      unfolding Let_def u1_def[symmetric] u2_def[symmetric] u3_def[symmetric] job add .
    have find4: "find_pot q ?u4 = (if q = ?q then Some (claim_lock op_payout 1 cur) else find_pot q s)" for q
      using find_pot_claim_other[where q = q and q' = ?q and s = u2 and kind = op_payout and n = 1]
        find_pot_claimed[where potId = ?q and s = u2 and operation = op_payout and n = 1] u(8) assms(6)
      by (auto simp: u3_def u2_def u1_def same)
    have run: "fire_recurring w config p s = (if pot_funds ?q s1 < rc_amount config + OUTBOUND_FEE then (Inr False, u1)
       else if pot_pendingOperation cur \<noteq> None then (Inr False, u2) else (Inr True, ?u4))"
      by (simp add: go catch_op_def bnd_def out ret_def)
    have fresh4: "fresh_draws w k ?u4"
      using fresh_draws_add[OF assms(3) ref] by (simp add: fresh_draws_def u)
    have held: "legs_held ?q ?u4 = 1"
      unfolding legs_held_def find4 by (simp add: claim_lock_def)
    consider "pot_funds ?q s1 < rc_amount config + OUTBOUND_FEE" | "\<not> pot_funds ?q s1 < rc_amount config + OUTBOUND_FEE" "pot_pendingOperation cur \<noteq> None"
      | "\<not> pot_funds ?q s1 < rc_amount config + OUTBOUND_FEE" "pot_pendingOperation cur = None" by blast
    then show ?thesis
    proof cases
      case 1
      then have r: "fire_recurring w config p s = (Inr False, u1)" using run by simp
      have "fresh_draws w k u1" using fresh_draws_mono[OF assms(3), of k] fresh_draws_same[of u1 s] u by simp
      then show ?thesis
        using fire_recurring_kept[OF assms(1,4,5) r] r 1 funded u by (intro exI[of _ False] exI[of _ u1]) auto
    next
      case 2
      then have r: "fire_recurring w config p s = (Inr False, u2)" using run by simp
      show ?thesis
        using fire_recurring_kept[OF assms(1,4,5) r] r 2 u fresh_draws_skip[OF assms(3) u(3,4)]
        by (intro exI[of _ False] exI[of _ u2]) auto
    next
      case 3
      then have r: "fire_recurring w config p s = (Inr True, ?u4)" using run by simp
      show ?thesis
        using fire_recurring_kept[OF assms(1,4,5) r] r fresh4 held find4 u(2) by (intro exI[of _ True] exI[of _ ?u4]) auto
    qed
  qed
qed

section \<open>The whole sweep\<close>

lemma find_pot_None_iff: "find_pot q s = None \<longleftrightarrow> q \<notin> set (map pot_id (pots s))"
  by (simp add: find_pot_def find_key_None_iff)

abbreviation recurring_body :: "env \<Rightarrow> recurring_config \<times> pot \<Rightarrow> nat \<times> nat \<Rightarrow> (db, nat \<times> nat) op" where
  "recurring_body w \<equiv> \<lambda>(config, p) counts. bnd (fire_recurring w config p) (\<lambda>ok. ret (count_fired ok counts))"

lemma recurring_loop:
  assumes "e_gap w = id" and "e_enqueue w = (\<lambda>_. None)"
  shows "fresh_draws w (length rows + k) s \<Longrightarrow> wf_ledger (led s) \<Longrightarrow> wf_pots s \<Longrightarrow>
    \<forall>(c, p)\<in>set rows. pot_id p = rc_potId c \<and> pot_id p \<in> set (map pot_id (pots s)) \<Longrightarrow>
    \<exists>counts' t. fold_op (recurring_body w) rows counts s = (Inr counts', t) \<and> sweep_kept s t \<and> fresh_draws w k t \<and>
      randomDraws s \<le> randomDraws t \<and> randomDraws t \<le> randomDraws s + length rows \<and>
      (\<forall>q. q \<notin> (\<lambda>(c, p). pot_id p) ` set rows \<longrightarrow> find_pot q t = find_pot q s)"
proof (induction rows arbitrary: s counts)
  case Nil
  then show ?case by (intro exI[of _ counts] exI[of _ s]) (simp add: ret_def sweep_kept_def)
next
  case (Cons row rows)
  obtain c p where row: "row = (c, p)" by fastforce
  obtain cur where cur: "find_pot (pot_id p) s = Some cur"
    using Cons.prems(4) unfolding row list.set(2) ball_simps by (metis (no_types, lifting) case_prodD find_pot_None_iff insertI1 not_None_eq)
  have id: "pot_id p = rc_potId c" using Cons.prems(4) by (simp add: row)
  have fresh: "fresh_draws w (Suc (length rows + k)) s" using Cons.prems(1) by simp
  obtain ok s' where s': "fire_recurring w c p s = (Inr ok, s')" "sweep_kept s s'" "fresh_draws w (length rows + k) s'"
    "randomDraws s \<le> randomDraws s'" "randomDraws s' \<le> Suc (randomDraws s)"
    "\<forall>q. q \<noteq> pot_id p \<longrightarrow> find_pot q s' = find_pot q s"
    using fire_recurring_step[OF assms fresh Cons.prems(2,3) cur id] by blast
  have ids: "map pot_id (pots s') = map pot_id (pots s)" "wf_ledger (led s')" "wf_pots s'"
    using s'(2) unfolding sweep_kept_def by blast+
  have rest: "\<forall>(c, p)\<in>set rows. pot_id p = rc_potId c \<and> pot_id p \<in> set (map pot_id (pots s'))"
    using Cons.prems(4) unfolding ids(1) by simp
  obtain counts' t where t: "fold_op (recurring_body w) rows (count_fired ok counts) s' = (Inr counts', t)" "sweep_kept s' t" "fresh_draws w k t"
    "randomDraws s' \<le> randomDraws t" "randomDraws t \<le> randomDraws s' + length rows"
    "\<forall>q. q \<notin> (\<lambda>(c, p). pot_id p) ` set rows \<longrightarrow> find_pot q t = find_pot q s'"
    using Cons.IH[OF s'(3) ids(2,3) rest] by blast
  have "recurring_body w row counts s = (Inr (count_fired ok counts), s')"
    by (simp add: row bnd_run[where m = "fire_recurring w c p", OF s'(1)] ret_def)
  then have "fold_op (recurring_body w) (row # rows) counts s = (Inr counts', t)"
    by (simp add: bnd_run[where m = "recurring_body w row counts"] t(1))
  then show ?case
    using t(2-) s'(2,4-) sweep_kept_trans[OF s'(2) t(2)] by (intro exI[of _ counts'] exI[of _ t]) (auto simp: row)
qed

lemma due_recurring_distinct:
  assumes "distinct (map rc_potId (recurringPayoutConfigs s))" and "wf_pots s"
  shows "distinct (map (\<lambda>(c, p). pot_id p) (due_recurring w s))"
proof -
  let ?rows = "\<lambda>c. map (\<lambda>p. (c, p)) (filter (\<lambda>p. pot_id p = rc_potId c \<and> pot_status p = pot_open \<and> rc_nextRunAt c \<le> e_now w) (pots s))"
  have one: "distinct (map (\<lambda>(c, p). pot_id p) (?rows c)) \<and> set (map (\<lambda>(c, p). pot_id p) (?rows c)) \<subseteq> {rc_potId c}" for c
    using assms(2) by (auto simp: wf_pots_def o_def distinct_map_filter)
  have "distinct (map rc_potId cs) \<Longrightarrow> distinct (map (\<lambda>(c, p). pot_id p) (concat (map ?rows cs))) \<and>
      set (map (\<lambda>(c, p). pot_id p) (concat (map ?rows cs))) \<subseteq> rc_potId ` set cs" for cs
  proof (induction cs)
    case (Cons c cs)
    have "rc_potId c \<notin> rc_potId ` set cs" using Cons.prems by auto
    then show ?case using Cons.IH one[of c] Cons.prems unfolding list.map concat.simps map_append distinct_append set_append by fastforce
  qed simp
  then show ?thesis using assms(1) unfolding due_recurring_def by blast
qed

text \<open>What is asked of the references: none of the ledger's contains an id that is yet to be drawn.\<close>

definition new_references :: "env \<Rightarrow> nat \<Rightarrow> db \<Rightarrow> bool" where
  "new_references w k s \<longleftrightarrow> (\<forall>n\<in>{randomDraws s..<randomDraws s + k}. \<forall>pre suf.
     tx_lookup (pre @ uuid_text (e_uuid w n) @ suf) (led s) = None)"

lemma sweep_kept_funds:
  assumes "sweep_kept s t" and "0 < pot_funds q s" and "0 < float_funds s"
  shows "pot_funds q t = pot_funds q s" and "float_funds t = float_funds s"
proof -
  obtain as where as: "accounts (led t) = accounts (led s) @ as" and rows: "ledger_rows t = ledger_rows s"
    using assms(1) by (auto simp: sweep_kept_def)
  obtain a f where "pot_account q s = Some a" "system_account platform_float (led s) = Some f"
    using pot_funds_pos_account[OF assms(2)] assms(3) by (auto simp: float_funds_def split: option.splits)
  then show "pot_funds q t = pot_funds q s" "float_funds t = float_funds s"
    using funds_kept[OF rows as] by auto
qed

lemma sweep_queues_due:
  assumes "e_gap w = id" and "e_enqueue w = (\<lambda>_. None)" and "fresh_draws w (length (due_recurring w s)) s"
    and "wf_ledger (led s)" and "wf_pots s" and "distinct (map rc_potId (recurringPayoutConfigs s))"
    and "(config, p) \<in> set (due_recurring w s)" and "pot_pendingOperation p = None"
    and "rc_amount config + OUTBOUND_FEE \<le> pot_funds (pot_id p) s" and "0 < pot_funds (pot_id p) s" and "0 < float_funds s"
  shows "\<exists>counts t n. fireDueRecurringPayouts w s = (Inr counts, t) \<and> sweep_kept s t \<and> legs_held (pot_id p) t = 1 \<and>
    n \<in> {randomDraws s..<randomDraws s + length (due_recurring w s)} \<and> recurring_job w config n \<in> set (transfersQueue t)"
proof -
  let ?q = "pot_id p" and ?due = "due_recurring w s"
  obtain xs ys where split: "?due = xs @ (config, p) # ys"
    using split_list[OF assms(7)] by blast
  have rows: "\<forall>(c, p)\<in>set ?due. pot_id p = rc_potId c \<and> p \<in> set (pots s)"
    by (auto simp: due_recurring_def)
  have dist: "distinct (map (\<lambda>(c, p). pot_id p) (xs @ (config, p) # ys))"
    using due_recurring_distinct[OF assms(6,5), of w] by (simp add: split)
  have others: "?q \<notin> (\<lambda>(c, p). pot_id p) ` set xs" "?q \<notin> (\<lambda>(c, p). pot_id p) ` set ys"
    using dist by (auto simp: rev_image_eqI)
  have p: "find_pot ?q s = Some p" "?q = rc_potId config"
    using rows assms(5,7) find_key_SomeI[of pot_id "pots s" p] by (auto simp: find_pot_def wf_pots_def)
  have "fresh_draws w (length xs + Suc (length ys)) s" using assms(3) by (simp add: split)
  moreover have "\<forall>(c, p)\<in>set xs. pot_id p = rc_potId c \<and> pot_id p \<in> set (map pot_id (pots s))"
    using rows by (auto simp: split)
  ultimately obtain c1 t1 where t1: "fold_op (recurring_body w) xs (0, 0) s = (Inr c1, t1)" "sweep_kept s t1" "fresh_draws w (Suc (length ys)) t1"
    "randomDraws s \<le> randomDraws t1" "randomDraws t1 \<le> randomDraws s + length xs"
    "\<forall>q. q \<notin> (\<lambda>(c, p). pot_id p) ` set xs \<longrightarrow> find_pot q t1 = find_pot q s"
    using recurring_loop[OF assms(1,2) _ assms(4,5)] by blast
  have at: "wf_ledger (led t1)" "wf_pots t1" "find_pot ?q t1 = Some p" "map pot_id (pots t1) = map pot_id (pots s)"
    using t1(2,6) p others unfolding sweep_kept_def by auto
  note funds = sweep_kept_funds[OF t1(2) assms(10,11)]
  obtain ok t2 where t2: "fire_recurring w config p t1 = (Inr ok, t2)" "sweep_kept t1 t2" "fresh_draws w (length ys) t2"
    "legs_held ?q t2 = 1" "recurring_job w config (randomDraws t1) \<in> set (transfersQueue t2)"
    using fire_recurring_step[OF assms(1,2) t1(3) at(1-3) p(2)] assms(8-10) funds by auto
  have kept2: "wf_ledger (led t2)" "wf_pots t2" "map pot_id (pots t2) = map pot_id (pots s)"
    using t2(2) at(4) unfolding sweep_kept_def by auto
  have "\<forall>(c, p)\<in>set ys. pot_id p = rc_potId c \<and> pot_id p \<in> set (map pot_id (pots t2))"
    using rows unfolding kept2(3) by (auto simp: split)
  moreover have "fresh_draws w (length ys + 0) t2" using t2(3) by simp
  ultimately obtain c3 t where t: "fold_op (recurring_body w) ys (count_fired ok c1) t2 = (Inr c3, t)" "sweep_kept t2 t"
    "\<forall>q. q \<notin> (\<lambda>(c, p). pot_id p) ` set ys \<longrightarrow> find_pot q t = find_pot q t2"
    using recurring_loop[OF assms(1,2) _ kept2(1,2)] by blast
  have mid: "recurring_body w (config, p) c1 t1 = (Inr (count_fired ok c1), t2)"
    by (simp add: bnd_run[where m = "fire_recurring w config p", OF t2(1)] ret_def)
  have "fold_op (recurring_body w) ?due (0, 0) s = (Inr c3, t)"
    unfolding split fold_op_append bnd_run[where m = "fold_op (recurring_body w) xs (0, 0)", OF t1(1)] fold_op.simps
      bnd_run[where m = "recurring_body w (config, p) c1", OF mid] by (rule t(1))
  moreover have "sweep_kept s t"
    using sweep_kept_trans[OF sweep_kept_trans[OF t1(2) t2(2)] t(2)] .
  moreover have "legs_held ?q t = 1"
    using t(3) others(2) t2(4) by (simp add: legs_held_def)
  moreover have "recurring_job w config (randomDraws t1) \<in> set (transfersQueue t)"
    using t2(5) t(2) by (auto simp: sweep_kept_def)
  ultimately show ?thesis
    using t1(4,5) by (intro exI[of _ c3] exI[of _ t] exI[of _ "randomDraws t1"])
      (simp add: fireDueRecurringPayouts_def split)
qed

text \<open>C19. A recurring payout happens. When the run of an open pot is due, no operation holds its lock and its
  funds and the float cover the amount and the fees, the next sweep queues a job for it, whatever the other
  pots' payouts do; and when the worker runs that job and Nomba confirms, the pot has paid exactly the amount and
  the outbound fee, its lock is free, and its next run is one interval later.\<close>

theorem recurring_payout_happens:
  assumes "e_gap w = id" and "e_enqueue w = (\<lambda>_. None)" and "fresh_draws w (length (due_recurring w s)) s"
    and "new_references w (length (due_recurring w s)) s"
    and "wf_ledger (led s)" and "wf_pots s" and "distinct (map rc_potId (recurringPayoutConfigs s))"
    and "distinct (map rc_id (recurringPayoutConfigs s))" and "(config, p) \<in> set (due_recurring w s)"
    and "pot_pendingOperation p = None" and "1 \<le> rc_amount config"
    and "rc_amount config + OUTBOUND_FEE \<le> pot_funds (pot_id p) s" and "rc_amount config + NOMBA_OUTBOUND_FEE \<le> float_funds s"
    and "e_lookupBankAccount w (rc_destinationAccount config) (rc_destinationBank config) = Inr accountName"
    and "\<forall>params. e_transferToBankAccount w params = Inr SUCCESS" and "e_completionFault w = None"
  shows "\<exists>counts t data x t'. fireDueRecurringPayouts w s = (Inr counts, t) \<and> job_payout data \<in> set (transfersQueue t) \<and>
    lj_potId data = pot_id p \<and> lj_amount data = rc_amount config \<and> processLedgerDisbursement w op_payout data t = (Inr x, t') \<and>
    pot_funds (pot_id p) t' = pot_funds (pot_id p) s - (rc_amount config + OUTBOUND_FEE) \<and> legs_held (pot_id p) t' = 0 \<and>
    find (\<lambda>c. rc_id c = rc_id config) (recurringPayoutConfigs t') =
      Some (set_next_run (rc_nextRunAt config + rc_intervalDays config * 24 * 60 * 60 * 1000) config)"
proof -
  let ?q = "pot_id p"
  have pos: "0 < pot_funds ?q s" "0 < float_funds s" using assms(11-13) by (simp_all add: fee_constants)
  have row: "config \<in> set (recurringPayoutConfigs s)" "?q = rc_potId config"
    using assms(9) by (auto simp: due_recurring_def)
  obtain counts t n where t: "fireDueRecurringPayouts w s = (Inr counts, t)" "sweep_kept s t" "legs_held ?q t = 1"
    "n \<in> {randomDraws s..<randomDraws s + length (due_recurring w s)}" "recurring_job w config n \<in> set (transfersQueue t)"
    using sweep_queues_due[OF assms(1-3,5-7,9,10,12) pos] by blast
  obtain data where data: "recurring_job w config n = job_payout data" "lj_potId data = ?q" "lj_amount data = rc_amount config"
    "lj_destinationAccount data = rc_destinationAccount config" "lj_destinationBank data = rc_destinationBank config"
    "lj_isFanOutLeg data = False" "lj_onSuccess data = Some (advance_recurring_next_run_at (rc_id config))"
    "lj_reference data = (kind_text op_payout @ ''_'' @ uuid_text (rc_potId config) @ ''_'') @ uuid_text (e_uuid w n)"
    by (simp add: recurring_job_def fixed_job_def row(2))
  note funds = sweep_kept_funds[OF t(2) pos]
  have kept: "wf_ledger (led t)" "wf_pots t" "recurringPayoutConfigs t = recurringPayoutConfigs s" "ledger_rows t = ledger_rows s"
    using t(2) by (auto simp: sweep_kept_def)
  have none: "tx_lookup (pre @ uuid_text (e_uuid w n) @ suf) (led t) = None" for pre suf
    using assms(4) t(4) kept(4) by (simp add: new_references_def ledger_rows_def tx_lookup_def)
  have new: "job_new data t"
    unfolding job_new_def data(8) append_assoc[of _ "uuid_text (e_uuid w n)"] using none[of _ "[]"] none by (simp only: append_Nil2)
  have fits: "job_fits data t" using assms(11-13) by (simp add: job_fits_def data funds)
  have lock: "pot_ok (lj_potId data) t" "0 < legs_held (lj_potId data) t"
    using kept(2) t(3) unfolding data(2) by (auto simp: pot_ok_def legs_held_def split: option.splits)
  have asked: "e_lookupBankAccount w (lj_destinationAccount data) (lj_destinationBank data) = Inr accountName"
    using assms(14) by (simp add: data)
  obtain x r t' where run: "processLedgerDisbursement w op_payout data t = (Inr x, t')"
    "pot_funds ?q t' = pot_funds ?q t - (rc_amount config + OUTBOUND_FEE)" "legs_held ?q r = legs_after data (legs_held ?q t)"
    "applyOnSuccess w (advance_recurring_next_run_at (rc_id config)) r = (Inr (), t')" "recurringPayoutConfigs r = recurringPayoutConfigs t"
    using payout_confirmed_run[OF kept(1) new fits lock asked assms(15)[rule_format] assms(16)]
    unfolding data option.case by blast
  have found: "find (\<lambda>c. rc_id c = rc_id config) (recurringPayoutConfigs r) = Some config"
    using find_key_SomeI[OF assms(8) row(1)] run(5) kept(3) by simp
  define next_at where "next_at = rc_nextRunAt config + rc_intervalDays config * 24 * 60 * 60 * 1000"
  have t': "t' = r\<lparr>recurringPayoutConfigs := update_where (\<lambda>c. rc_id c = rc_id config) (set_next_run next_at) (recurringPayoutConfigs r)\<rparr>"
    using run(4) found by (simp add: modify_def next_at_def)
  have "find (\<lambda>c. rc_id c = rc_id config) (recurringPayoutConfigs t') = Some (set_next_run next_at config)"
    unfolding t' using found by (simp add: find_update_where set_next_run_def)
  moreover have "legs_held ?q t' = 0"
    using run(3) unfolding t' by (simp add: legs_held_def find_pot_def legs_after_def data)
  ultimately show ?thesis
    using t(1,5) run(1,2) funds(1) data(1-3) by (intro exI[of _ counts] exI[of _ t] exI[of _ data] exI[of _ x] exI[of _ t']) (simp add: next_at_def)
qed

text \<open>The example pot paying N100 every week, its run due now.\<close>

definition weekly :: recurring_config where
  "weekly = \<lparr>rc_id = 4, rc_potId = 7, rc_destinationAccount = ''0123456789'', rc_destinationBank = ''058'',
     rc_destinationAccountName = ''Ada'', rc_amount = 10000, rc_intervalDays = 7, rc_nextRunAt = 0\<rparr>"

definition weekly_db :: db where
  "weekly_db = example_db\<lparr>recurringPayoutConfigs := [weekly]\<rparr>"

theorem recurring_payout_happens_witness:
  "\<exists>counts t data x t'. fireDueRecurringPayouts example_env weekly_db = (Inr counts, t) \<and> job_payout data \<in> set (transfersQueue t) \<and>
     processLedgerDisbursement example_env op_payout data t = (Inr x, t') \<and> pot_funds 7 t' = 5000 \<and> legs_held 7 t' = 0 \<and>
     map_option rc_nextRunAt (find (\<lambda>c. rc_id c = 4) (recurringPayoutConfigs t')) = Some 604800000"
proof -
  have facts: "due_recurring example_env weekly_db = [(weekly, example_pot)]" "pot_funds 7 example_db = 20000" "float_funds example_db = 23000"
    "pot_id example_pot = 7" "pot_pendingOperation example_pot = None" "rc_amount weekly = 10000" "rc_id weekly = 4"
    by code_simp+
  have env: "e_lookupBankAccount example_env a b = Inr ''Ada''" "\<forall>params. e_transferToBankAccount example_env params = Inr SUCCESS"
    "e_completionFault example_env = None" for a b
    by (simp_all add: example_env_def)
  have frame: "led weekly_db = led example_db" "pots weekly_db = pots example_db" "randomDraws weekly_db = randomDraws example_db"
    "transfersQueue weekly_db = transfersQueue example_db" "recurringPayoutConfigs weekly_db = [weekly]"
    by (simp_all add: weekly_db_def)
  have state: "wf_ledger (led weekly_db)" "wf_pots weekly_db" "fresh_draws example_env (length [(weekly, example_pot)]) weekly_db"
    "pot_funds 7 weekly_db = 20000" "float_funds weekly_db = 23000" "recurringPayoutConfigs weekly_db = [weekly]"
    using example_db_ok(1,2) example_db_ok(6)[of 1] facts(2,3)
    unfolding wf_pots_def pot_funds_def pot_account_def float_funds_def fresh_draws_def frame by simp_all
  have "\<forall>x\<in>set (transactions (led weekly_db)). length (tx_reference x) < 36" by code_simp
  then have short: "x \<in> set (transactions (led weekly_db)) \<Longrightarrow> tx_reference x \<noteq> pre @ uuid_text u @ suf" for x pre u suf
    by (metis append_assoc leD length_append length_uuid_text trans_le_add1 trans_le_add2 order_refl)
  have new: "new_references example_env (length [(weekly, example_pot)]) weekly_db"
    unfolding new_references_def tx_lookup_def find_None_iff by (blast dest: short)
  have hyps: "fresh_draws example_env (length (due_recurring example_env weekly_db)) weekly_db"
    "new_references example_env (length (due_recurring example_env weekly_db)) weekly_db"
    "distinct (map rc_potId (recurringPayoutConfigs weekly_db))" "distinct (map rc_id (recurringPayoutConfigs weekly_db))"
    "(weekly, example_pot) \<in> set (due_recurring example_env weekly_db)" "1 \<le> rc_amount weekly"
    "rc_amount weekly + OUTBOUND_FEE \<le> pot_funds (pot_id example_pot) weekly_db"
    "rc_amount weekly + NOMBA_OUTBOUND_FEE \<le> float_funds weekly_db"
    using new state unfolding facts by (simp_all add: fee_constants)
  obtain counts t data x t' where run: "fireDueRecurringPayouts example_env weekly_db = (Inr counts, t)" "job_payout data \<in> set (transfersQueue t)"
    "processLedgerDisbursement example_env op_payout data t = (Inr x, t')" "legs_held (pot_id example_pot) t' = 0"
    "pot_funds (pot_id example_pot) t' = pot_funds (pot_id example_pot) weekly_db - (rc_amount weekly + OUTBOUND_FEE)"
    "find (\<lambda>c. rc_id c = rc_id weekly) (recurringPayoutConfigs t') =
       Some (set_next_run (rc_nextRunAt weekly + rc_intervalDays weekly * 24 * 60 * 60 * 1000) weekly)"
    using recurring_payout_happens[OF example_db_ok(4,5) hyps(1,2) state(1,2) hyps(3-5) facts(5) hyps(6-8) env] by blast
  then show ?thesis
    using state(4) facts
    by (intro exI[of _ counts] exI[of _ t] exI[of _ data] exI[of _ x] exI[of _ t']) (simp add: fee_constants set_next_run_def, simp add: weekly_def)
qed

end
