(* ===== verification/Webhooks.thy ===== *)
theory Webhooks
  imports Contributions Members Http_Errors
begin

text \<open>
  Inbound webhooks from Nomba: verification and deduplication by request id in the client
  (\<open>NombaClient.handleWebhook\<close>, with the two id stores of \<open>webhooks.ts\<close>), the durable record and dispatch
  of \<open>nomba-webhooks.service.ts\<close>, and the route that answers. HMAC-SHA256, \<open>JSON.parse\<close> and the id store are
  parameters. The gaps between the service's read, insert and claim are \<open>e_gap\<close>.
\<close>

section \<open>Events\<close>

text \<open>The envelope of an event: the text fields that are signed (absent or present), and the data the services read.\<close>

record hook_event =
  he_event_type :: "string option"
  he_requestId :: "string option"
  he_userId :: "string option"
  he_walletId :: "string option"
  he_transactionId :: "string option"
  he_type :: "string option"
  he_time :: "string option"
  he_responseCode :: "string option"
  he_data :: webhook_data

definition text_of :: "string option \<Rightarrow> string" where
  "text_of v = (case v of Some t \<Rightarrow> t | None \<Rightarrow> [])"

text \<open>\<open>NOMBA_WEBHOOK_EVENT_TYPES\<close>; any other text matches no case of the switch.\<close>

definition event_type_of :: "string \<Rightarrow> event_type option" where
  "event_type_of t = map_of
     [(''payment_success'', payment_success), (''payment_failed'', payment_failed), (''payment_reversal'', payment_reversal),
      (''payout_success'', payout_success), (''payout_failed'', payout_failed), (''payout_refund'', payout_refund)] t"

section \<open>The service\<close>

definition resolveTransfer :: "env \<Rightarrow> webhook_data \<Rightarrow> transfer_outcome \<Rightarrow> (db, unit) op" where
  "resolveTransfer w data outcome =
     (if \<not> truthy (wd_merchantTxRef data) then ret ()
      else resolvePendingTransfer w (the (wd_merchantTxRef data)) outcome)"

definition dispatch :: "env \<Rightarrow> hook_event \<Rightarrow> (db, unit) op" where
  "dispatch w event =
     (case event_type_of (text_of (he_event_type event)) of
        Some payment_success \<Rightarrow> confirmFunding w (he_data event)
      | Some payment_failed \<Rightarrow> ret ()
      | Some payment_reversal \<Rightarrow> reverseFunding w (he_data event)
      | Some payout_success \<Rightarrow> resolveTransfer w (he_data event) outcome_success
      | Some payout_failed \<Rightarrow> resolveTransfer w (he_data event) outcome_failed
      | Some payout_refund \<Rightarrow> resolveTransfer w (he_data event) outcome_failed
      | None \<Rightarrow> ret ())"

text \<open>The insert: \<open>event_id\<close> is unique, \<open>event_type\<close> is not null.\<close>

definition insert_event :: "hook_event \<Rightarrow> bool \<Rightarrow> (db, provider_event) op" where
  "insert_event event signatureValid s =
     (if he_event_type event = None
      then (Inl (PlainError ''null value in column event_type violates not-null constraint''), s)
      else if text_of (he_requestId event) \<in> pe_eventId ` set (providerEvents s) then (Inl UniqueViolation, s)
      else (let row = \<lparr>pe_id = fresh_id (map pe_id (providerEvents s)), pe_eventId = text_of (he_requestId event),
              pe_eventType = text_of (he_event_type event), pe_signatureValid = signatureValid, pe_processed = False,
              pe_processedAt = None, pe_claimedAt = None\<rparr>
            in (Inr row, s\<lparr>providerEvents := providerEvents s @ [row]\<rparr>)))"

definition set_claimedAt :: "time option \<Rightarrow> provider_event \<Rightarrow> provider_event" where
  "set_claimedAt t e = e\<lparr>pe_claimedAt := t\<rparr>"

definition set_processed :: "time \<Rightarrow> provider_event \<Rightarrow> provider_event" where
  "set_processed t e = e\<lparr>pe_processed := True, pe_processedAt := Some t\<rparr>"

text \<open>\<open>update provider_events set claimed_at = now where id = .. and claimed_at is null returning\<close>\<close>

definition claim_event :: "time \<Rightarrow> uuid \<Rightarrow> (db, bool) op" where
  "claim_event now i s =
     (let free = (\<lambda>e. pe_id e = i \<and> pe_claimedAt e = None) in
      (Inr (list_ex free (providerEvents s)),
       s\<lparr>providerEvents := update_where free (set_claimedAt (Some now)) (providerEvents s)\<rparr>))"

definition update_event :: "uuid \<Rightarrow> (provider_event \<Rightarrow> provider_event) \<Rightarrow> (db, unit) op" where
  "update_event i f = modify (\<lambda>s. s\<lparr>providerEvents := update_where (\<lambda>e. pe_id e = i) f (providerEvents s)\<rparr>)"

definition find_event :: "string \<Rightarrow> db \<Rightarrow> provider_event option" where
  "find_event eventId s = find (\<lambda>e. pe_eventId e = eventId) (providerEvents s)"

text \<open>From the claim on.\<close>

definition claim_and_dispatch :: "env \<Rightarrow> hook_event \<Rightarrow> provider_event \<Rightarrow> (db, unit) op" where
  "claim_and_dispatch w event eventRow =
     bnd (claim_event (e_now w) (pe_id eventRow)) (\<lambda>claimed.
     if \<not> claimed then ret ()
     else seq (catch_op (dispatch w event)
                 (\<lambda>err. seq (update_event (pe_id eventRow) (set_claimedAt None)) (throw err)))
          (update_event (pe_id eventRow) (set_processed (e_now w))))"

definition handle :: "env \<Rightarrow> hook_event \<Rightarrow> bool \<Rightarrow> (db, unit) op" where
  "handle w event signatureValid =
     bnd (gets (find_event (text_of (he_requestId event)))) (\<lambda>existing.
     seq (in_gap w)
     (case existing of
        Some row \<Rightarrow> if pe_processed row then ret () else claim_and_dispatch w event row
      | None \<Rightarrow>
          bnd (catch_op (bnd (insert_event event signatureValid) (\<lambda>row. ret (Some row)))
                 (\<lambda>err. if err = UniqueViolation then ret None else throw err)) (\<lambda>inserted.
          case inserted of None \<Rightarrow> ret () | Some row \<Rightarrow> claim_and_dispatch w event row)))"

section \<open>Signatures\<close>

definition signed_responseCode :: "string option \<Rightarrow> string" where
  "signed_responseCode code = (if \<not> truthy code \<or> code = Some ''null'' then [] else text_of code)"

fun join_colon :: "string list \<Rightarrow> string" where
  "join_colon [] = []"
| "join_colon [t] = t"
| "join_colon (t # u # ts) = t @ '':'' @ join_colon (u # ts)"

definition hashingPayload :: "hook_event \<Rightarrow> string \<Rightarrow> string" where
  "hashingPayload event nombaTimestamp = join_colon
     [text_of (he_event_type event), text_of (he_requestId event), text_of (he_userId event), text_of (he_walletId event),
      text_of (he_transactionId event), text_of (he_type event), text_of (he_time event),
      signed_responseCode (he_responseCode event), nombaTimestamp]"

text \<open>\<open>createHmac("sha256", secret).update(text).digest("base64")\<close> is the parameter \<open>hmac\<close>.\<close>

definition computeWebhookSignature :: "(string \<Rightarrow> string \<Rightarrow> string) \<Rightarrow> hook_event \<Rightarrow> string \<Rightarrow> string \<Rightarrow> string" where
  "computeWebhookSignature hmac event nombaTimestamp webhookSecret = hmac webhookSecret (hashingPayload event nombaTimestamp)"

definition safeEqualCaseInsensitive :: "string \<Rightarrow> string \<Rightarrow> bool" where
  "safeEqualCaseInsensitive a b \<longleftrightarrow> toLowerCase a = toLowerCase b"

section \<open>The stores of request ids\<close>

text \<open>\<open>WebhookIdStore\<close>: an id is there once added, and adding one id says nothing about the others.\<close>

locale webhook_id_store =
  fixes has_id :: "string \<Rightarrow> 's \<Rightarrow> bool" and add_id :: "string \<Rightarrow> 's \<Rightarrow> 's"
  assumes has_added: "has_id r (add_id r s)"
    and has_others: "r' \<noteq> r \<Longrightarrow> has_id r' (add_id r s) = has_id r' s"
begin

lemma has_add: "has_id r' (add_id r s) \<longleftrightarrow> r' = r \<or> has_id r' s"
  using has_added has_others by (cases "r' = r") auto

lemma has_after_adds: "has_id r (fold add_id rs s) \<longleftrightarrow> r \<in> set rs \<or> has_id r s"
  by (induction rs arbitrary: s) (auto simp: has_add)

end

text \<open>\<open>InMemoryWebhookIdStore\<close>\<close>

definition memory_has :: "string \<Rightarrow> string list \<Rightarrow> bool" where
  "memory_has requestId seen \<longleftrightarrow> List.member seen requestId"

definition memory_add :: "string \<Rightarrow> string list \<Rightarrow> string list" where
  "memory_add requestId seen = List.insert requestId seen"

interpretation memory_ids: webhook_id_store memory_has memory_add
  by unfold_locales (auto simp: memory_has_def memory_add_def)

text \<open>\<open>RedisWebhookIdStore\<close>, over the two Redis commands it sends: \<open>EXISTS key\<close> answers 1 or 0 and
  \<open>SET key value EX ttl\<close> stores the key, which is there until its time to live has passed.\<close>

definition webhook_ttlSeconds :: int where "webhook_ttlSeconds = 60 * 60 * 24 * 30"

definition webhook_keyPrefix :: string where "webhook_keyPrefix = ''nomba:webhook:''"

definition redis_has :: "(string \<Rightarrow> 'r \<Rightarrow> nat) \<Rightarrow> string \<Rightarrow> 'r \<Rightarrow> bool" where
  "redis_has exists requestId redis \<longleftrightarrow> exists (webhook_keyPrefix @ requestId) redis = 1"

definition redis_add :: "(string \<Rightarrow> string \<Rightarrow> int \<Rightarrow> 'r \<Rightarrow> 'r) \<Rightarrow> string \<Rightarrow> 'r \<Rightarrow> 'r" where
  "redis_add set_EX requestId redis = set_EX (webhook_keyPrefix @ requestId) ''1'' webhook_ttlSeconds redis"

text \<open>What is asked of Redis within the life of the keys.\<close>

locale redis_keys =
  fixes exists_key :: "string \<Rightarrow> 'r \<Rightarrow> nat" and set_EX :: "string \<Rightarrow> string \<Rightarrow> int \<Rightarrow> 'r \<Rightarrow> 'r"
  assumes exists_set: "0 < ttl \<Longrightarrow> exists_key k (set_EX k v ttl r) = 1"
    and exists_other: "k' \<noteq> k \<Longrightarrow> exists_key k' (set_EX k v ttl r) = exists_key k' r"

sublocale redis_keys \<subseteq> ids: webhook_id_store "redis_has exists_key" "redis_add set_EX"
  by unfold_locales (simp_all add: redis_has_def redis_add_def exists_set exists_other webhook_ttlSeconds_def)

text \<open>Keys with their expiry, at one instant.\<close>

definition expiring_exists :: "time \<Rightarrow> string \<Rightarrow> (string \<times> time) list \<Rightarrow> nat" where
  "expiring_exists now k r = (case map_of r k of Some t \<Rightarrow> if now < t then 1 else 0 | None \<Rightarrow> 0)"

definition expiring_set :: "time \<Rightarrow> string \<Rightarrow> string \<Rightarrow> int \<Rightarrow> (string \<times> time) list \<Rightarrow> (string \<times> time) list" where
  "expiring_set now k v ttl r = (k, now + ttl * 1000) # r"

interpretation redis_ids: redis_keys "expiring_exists now" "expiring_set now" for now
  by unfold_locales (auto simp: expiring_exists_def expiring_set_def)

section \<open>The client's handler and the route\<close>

text \<open>The state is the id store beside the database.\<close>

type_synonym 's hook_state = "'s \<times> db"

definition on_db :: "(db, 'a) op \<Rightarrow> ('s hook_state, 'a) op" where
  "on_db m = (\<lambda>(seen, s). case m s of (r, t) \<Rightarrow> (r, (seen, t)))"

text \<open>What \<open>JSON.parse\<close> makes of the body: the message of its error, or the event, or \<open>null\<close>, which has no \<open>data\<close> to
  read.\<close>

datatype parsed = not_json string | json_null | json_event hook_event

definition handleWebhook ::
  "(string \<Rightarrow> 's \<Rightarrow> bool) \<Rightarrow> (string \<Rightarrow> 's \<Rightarrow> 's) \<Rightarrow> (string \<Rightarrow> string \<Rightarrow> string) \<Rightarrow> (string \<Rightarrow> parsed) \<Rightarrow> string option \<Rightarrow>
   string \<Rightarrow> string option \<Rightarrow> string option \<Rightarrow> (hook_event \<Rightarrow> (db, unit) op) \<Rightarrow> ('s hook_state, unit) op" where
  "handleWebhook has_id add_id hmac parse webhookSecret rawBody signature nombaTimestamp handler =
     seq (require (truthy webhookSecret) (PlainError ''webhookSecret not configured''))
     (seq (require (truthy signature) (WebhookVerificationError ''Missing nomba-signature header''))
     (seq (require (truthy nombaTimestamp) (WebhookVerificationError ''Missing nomba-timestamp header''))
     (case parse rawBody of
        not_json m \<Rightarrow> throw (WebhookVerificationError (''Webhook payload is not valid JSON: '' @ m))
      | json_null \<Rightarrow> throw (PlainError ''TypeError: Cannot read properties of null'')
      | json_event event \<Rightarrow>
          seq (require (safeEqualCaseInsensitive (the signature)
                 (computeWebhookSignature hmac event (the nombaTimestamp) (the webhookSecret)))
                 (WebhookVerificationError ''bad signature''))
          (seq (require (truthy (he_requestId event))
                 (WebhookVerificationError ''Webhook payload missing requestId - cannot dedupe safely''))
          (bnd (gets (\<lambda>(seen, s). has_id (the (he_requestId event)) seen)) (\<lambda>seen.
           if seen then ret ()
           else seq (on_db (handler event))
                (modify (\<lambda>(seen, s). (add_id (the (he_requestId event)) seen, s)))))))))"

definition is_WebhookVerificationError :: "error \<Rightarrow> bool" where
  "is_WebhookVerificationError err = (case err of WebhookVerificationError _ \<Rightarrow> True | _ \<Rightarrow> False)"

definition nombaWebhookRoute ::
  "env \<Rightarrow> (string \<Rightarrow> 's \<Rightarrow> bool) \<Rightarrow> (string \<Rightarrow> 's \<Rightarrow> 's) \<Rightarrow> (string \<Rightarrow> string \<Rightarrow> string) \<Rightarrow> (string \<Rightarrow> parsed) \<Rightarrow> string option \<Rightarrow>
   string \<Rightarrow> string option \<Rightarrow> string option \<Rightarrow> ('s hook_state, unit http) op" where
  "nombaWebhookRoute w has_id add_id hmac parse webhookSecret rawBody signature timestamp =
     catch_op
       (seq (handleWebhook has_id add_id hmac parse webhookSecret rawBody signature timestamp
               (\<lambda>event. handle w event True))
        (ret (answered 200 ())))
       (\<lambda>err. if is_WebhookVerificationError err then ret (refused 401 ''Webhook verification failed'' None)
              else ret (refused 500 ''Internal error processing webhook'' None))"

end
