(* ===== verification/Webhooks_Laws.thy ===== *)
theory Webhooks_Laws
  imports Webhooks Frames
begin

text \<open>
  What the webhook path guarantees: nothing happens on a request that is not signed, an event that was dispatched
  successfully is never dispatched again, and an event whose dispatch failed is dispatched again by the next
  delivery. A redelivery that arrives while the first one is still at work can lose the event.
\<close>

section \<open>No handler touches the events\<close>

interpretation events_frame: disbursement_frame "\<lambda>s. providerEvents s = c" for c
  by unfold_locales (rule preserves_in_ledger_frame, simp_all)

lemma applyOnSuccess_events: "preserves (\<lambda>s. providerEvents s = c) (applyOnSuccess w a)"
  by (cases a) (auto simp: applyFired_def intro!: preserves_intros preserves_modify)

lemma resolve_events: "preserves (\<lambda>s. providerEvents s = c) (resolvePendingTransfer w r outcome)"
  unfolding resolvePendingTransfer_def Let_def mark_payment_refunded_def
  by (intro preserves_intros preserves_in_ledger_frame applyOnSuccess_events preserves_modify events_frame.decrement) simp_all

lemma update_contribution_events: "preserves (\<lambda>s. providerEvents s = c) (update_contribution i f)"
  unfolding update_contribution_def by (intro preserves_modify) simp

lemma in_ledger_events: "preserves (\<lambda>s. providerEvents s = c) (in_ledger m)"
  by (rule preserves_in_ledger_frame) simp

lemma refundOverpayment_events: "preserves (\<lambda>s. providerEvents s = c) (refundOverpayment w p v)"
  unfolding refundOverpayment_def Let_def by (intro preserves_intros preserves_modify) simp

lemma fund_contribution_events:
  "e_gap w = id \<Longrightarrow> preserves (\<lambda>s. providerEvents s = c) (fund_contribution w row p v tot)"
  unfolding fund_contribution_def refund_excess_def funding_accounts_def Let_def
  by (intro preserves_intros in_ledger_events update_contribution_events events_frame.checkAndFireForPot refundOverpayment_events)

lemma record_payment_events:
  assumes "e_gap w = id"
  shows "preserves (\<lambda>s. providerEvents s = c) (record_payment w row p v)"
proof -
  have "preserves (\<lambda>s. providerEvents s = c) (insert_payment row p v)"
    by (simp add: preserves_def insert_payment_def)
  then show ?thesis
    unfolding record_payment_def by (intro preserves_intros update_contribution_events fund_contribution_events[OF assms])
qed

lemma dispatch_events:
  assumes "e_gap w = id"
  shows "preserves (\<lambda>s. providerEvents s = c) (dispatch w event)"
proof -
  have "preserves (\<lambda>s. providerEvents s = c) (confirmFunding w p)" for p
    unfolding confirmFunding_def by (intro preserves_intros record_payment_events assms events_frame.gap)
  moreover have "preserves (\<lambda>s. providerEvents s = c) (reverseFunding w p)" for p
    unfolding reverseFunding_def by (intro preserves_intros in_ledger_events update_contribution_events)
  ultimately show ?thesis
    unfolding dispatch_def resolveTransfer_def
    by (auto intro!: preserves_intros resolve_events split: option.split event_type.split)
qed

section \<open>One delivery\<close>

definition wf_events :: "db \<Rightarrow> bool" where
  "wf_events s \<longleftrightarrow> distinct (map pe_id (providerEvents s)) \<and> distinct (map pe_eventId (providerEvents s))"

definition event_id :: "hook_event \<Rightarrow> string" where
  "event_id event = text_of (he_requestId event)"

definition dispatching :: "env \<Rightarrow> uuid \<Rightarrow> provider_event list \<Rightarrow> provider_event list" where
  "dispatching w i es = update_where (\<lambda>e. pe_id e = i) (set_claimedAt (Some (e_now w))) es"

interpretation claim_id: keyed_update pe_id "set_claimedAt t" for t
  by unfold_locales (simp add: set_claimedAt_def)

interpretation claim_event_id: keyed_update pe_eventId "set_claimedAt t" for t
  by unfold_locales (simp add: set_claimedAt_def)

interpretation processed_id: keyed_update pe_id "set_processed t" for t
  by unfold_locales (simp add: set_processed_def)

interpretation processed_event_id: keyed_update pe_eventId "set_processed t" for t
  by unfold_locales (simp add: set_processed_def)

lemma update_where_cong:
  "(\<And>r. r \<in> set rows \<Longrightarrow> P r = Q r) \<Longrightarrow> update_where P f rows = update_where Q f rows"
  unfolding update_where_def by (intro map_cong) auto

lemma claim_event_run:
  assumes "distinct (map pe_id (providerEvents s))" and "row \<in> set (providerEvents s)"
  shows "claim_event now (pe_id row) s =
    (if pe_claimedAt row = None
     then (Inr True, s\<lparr>providerEvents := update_where (\<lambda>e. pe_id e = pe_id row) (set_claimedAt (Some now)) (providerEvents s)\<rparr>)
     else (Inr False, s))"
proof -
  have only: "e = row" if "e \<in> set (providerEvents s)" "pe_id e = pe_id row" for e
    using assms that by (metis distinct_map inj_onD)
  show ?thesis
  proof (cases "pe_claimedAt row = None")
    case True
    then have "update_where (\<lambda>e. pe_id e = pe_id row \<and> pe_claimedAt e = None) (set_claimedAt (Some now)) (providerEvents s) =
        update_where (\<lambda>e. pe_id e = pe_id row) (set_claimedAt (Some now)) (providerEvents s)"
      using only by (intro update_where_cong) auto
    then show ?thesis using True assms(2) by (auto simp: claim_event_def Let_def list_ex_iff)
  next
    case False
    then have "\<not> list_ex (\<lambda>e. pe_id e = pe_id row \<and> pe_claimedAt e = None) (providerEvents s)"
      "update_where (\<lambda>e. pe_id e = pe_id row \<and> pe_claimedAt e = None) (set_claimedAt (Some now)) (providerEvents s) = providerEvents s"
      using only False by (auto simp: list_ex_iff) (intro update_where_none, auto)
    then show ?thesis using False by (simp add: claim_event_def Let_def)
  qed
qed

text \<open>The row the delivery works on: the one already recorded, or the one it inserts.\<close>

definition event_row :: "hook_event \<Rightarrow> bool \<Rightarrow> db \<Rightarrow> provider_event" where
  "event_row event v s = (case find_event (event_id event) s of Some row \<Rightarrow> row
     | None \<Rightarrow> \<lparr>pe_id = fresh_id (map pe_id (providerEvents s)), pe_eventId = event_id event, pe_eventType = text_of (he_event_type event),
         pe_signatureValid = v, pe_processed = False, pe_processedAt = None, pe_claimedAt = None\<rparr>)"

definition with_row :: "hook_event \<Rightarrow> bool \<Rightarrow> db \<Rightarrow> provider_event list" where
  "with_row event v s = (if find_event (event_id event) s = None then providerEvents s @ [event_row event v s] else providerEvents s)"

lemma with_row_wf:
  assumes "wf_events s"
  shows "distinct (map pe_id (with_row event v s))" and "distinct (map pe_eventId (with_row event v s))"
    and "event_row event v s \<in> set (with_row event v s)" and "pe_eventId (event_row event v s) = event_id event"
proof -
  have none: "event_id event \<notin> pe_eventId ` set (providerEvents s)" if "find_event (event_id event) s = None"
    using that by (simp add: find_event_def find_key_None_iff)
  have new: "fresh_id (map pe_id (providerEvents s)) \<notin> pe_id ` set (providerEvents s)"
    using fresh_id_notin[of "map pe_id (providerEvents s)"] by simp
  show "distinct (map pe_id (with_row event v s))" "distinct (map pe_eventId (with_row event v s))"
    using assms none new by (auto simp: wf_events_def with_row_def event_row_def)
  show "event_row event v s \<in> set (with_row event v s)" "pe_eventId (event_row event v s) = event_id event"
    using find_SomeD[of "\<lambda>e. pe_eventId e = event_id event" "providerEvents s"]
    by (auto simp: with_row_def event_row_def find_event_def split: option.split)
qed

lemma handle_run:
  assumes "e_gap w = id" and "wf_events s" and "find_event (event_id event) s = None \<Longrightarrow> he_event_type event \<noteq> None"
  shows "handle w event v s =
    (let row = event_row event v s; es = with_row event v s in
     if pe_processed row then (Inr (), s)
     else if pe_claimedAt row \<noteq> None then (Inr (), s)
     else case dispatch w event (s\<lparr>providerEvents := dispatching w (pe_id row) es\<rparr>) of
       (Inr u, t) \<Rightarrow> (Inr (), t\<lparr>providerEvents := update_where (\<lambda>e. pe_id e = pe_id row) (set_processed (e_now w)) (dispatching w (pe_id row) es)\<rparr>)
     | (Inl err, t) \<Rightarrow> (Inl err, t\<lparr>providerEvents := update_where (\<lambda>e. pe_id e = pe_id row) (set_claimedAt None) (dispatching w (pe_id row) es)\<rparr>))"
proof -
  let ?row = "event_row event v s" and ?es = "with_row event v s"
  note wf = with_row_wf[OF assms(2), of event v]
  have work: "claim_and_dispatch w event ?row (s\<lparr>providerEvents := ?es\<rparr>) =
      (if pe_claimedAt ?row \<noteq> None then (Inr (), s\<lparr>providerEvents := ?es\<rparr>)
       else case dispatch w event (s\<lparr>providerEvents := dispatching w (pe_id ?row) ?es\<rparr>) of
         (Inr u, t) \<Rightarrow> (Inr (), t\<lparr>providerEvents := update_where (\<lambda>e. pe_id e = pe_id ?row) (set_processed (e_now w)) (dispatching w (pe_id ?row) ?es)\<rparr>)
       | (Inl err, t) \<Rightarrow> (Inl err, t\<lparr>providerEvents := update_where (\<lambda>e. pe_id e = pe_id ?row) (set_claimedAt None) (dispatching w (pe_id ?row) ?es)\<rparr>))"
  proof (cases "pe_claimedAt ?row")
    case None
    let ?d = "s\<lparr>providerEvents := dispatching w (pe_id ?row) ?es\<rparr>"
    obtain r t where run: "dispatch w event ?d = (r, t)" by fastforce
    have "providerEvents t = dispatching w (pe_id ?row) ?es"
      by (rule preservesD[OF dispatch_events[OF assms(1)] _ run]) simp
    then show ?thesis
      using claim_event_run[of "s\<lparr>providerEvents := ?es\<rparr>" ?row "e_now w"] wf(1,3) None run
      by (cases r) (simp_all add: claim_and_dispatch_def bnd_def catch_op_def update_event_def modify_def throw_def dispatching_def)
  next
    case (Some c)
    then show ?thesis
      using claim_event_run[of "s\<lparr>providerEvents := ?es\<rparr>" ?row "e_now w"] wf(1,3)
      by (simp add: claim_and_dispatch_def bnd_def ret_def)
  qed
  show ?thesis
  proof (cases "find_event (event_id event) s")
    case (Some row)
    then have eqs: "?row = row" "?es = providerEvents s" by (simp_all add: event_row_def with_row_def)
    show ?thesis
      using Some work unfolding eqs by (simp add: handle_def bnd_def gets_def in_gap_def modify_def assms(1) Let_def ret_def event_id_def[symmetric])
  next
    case None
    then have es: "?es = providerEvents s @ [?row]" and fresh: "pe_processed ?row = False" "pe_claimedAt ?row = None"
      by (simp_all add: with_row_def event_row_def)
    have "insert_event event v s = (Inr ?row, s\<lparr>providerEvents := ?es\<rparr>)"
      using None[unfolded find_event_def find_key_None_iff] assms(3)[OF None] unfolding es event_row_def None option.case
      by (simp add: insert_event_def event_id_def Let_def)
    then show ?thesis
      using None work fresh
      by (simp add: handle_def bnd_def gets_def in_gap_def modify_def assms(1) Let_def ret_def catch_op_def event_id_def[symmetric])
  qed
qed

section \<open>An event is applied once\<close>

definition is_processed :: "string \<Rightarrow> db \<Rightarrow> bool" where
  "is_processed r s \<longleftrightarrow> (\<exists>e. find_event r s = Some e \<and> pe_processed e)"

definition in_flight :: "string \<Rightarrow> db \<Rightarrow> bool" where
  "in_flight r s \<longleftrightarrow> (\<exists>e. find_event r s = Some e \<and> pe_claimedAt e \<noteq> None \<and> \<not> pe_processed e)"

lemma find_event_with_row:
  assumes "wf_events s"
  shows "find (\<lambda>e. pe_eventId e = r) (with_row event v s) =
    (if r = event_id event then Some (event_row event v s) else find_event r s)"
proof (cases "find_event (event_id event) s")
  case None
  then show ?thesis
    using with_row_wf(4)[OF assms, of event v]
    by (auto simp: with_row_def find_append find_event_def split: option.split)
next
  case (Some row)
  then show ?thesis by (auto simp: with_row_def event_row_def find_event_def)
qed

lemma find_after_update:
  assumes "distinct (map pe_id es)" and "distinct (map pe_eventId es)" and "row \<in> set es" and "\<And>e. pe_eventId (f e) = pe_eventId e"
  shows "find (\<lambda>e. pe_eventId e = r) (update_where (\<lambda>e. pe_id e = pe_id row) f es) =
    (if r = pe_eventId row then Some (f row) else find (\<lambda>e. pe_eventId e = r) es)"
proof -
  have same: "(pe_id e = pe_id row) = (pe_eventId e = pe_eventId row)" if "e \<in> set es" for e
    using assms(1-3) that by (metis distinct_map inj_onD)
  have "update_where (\<lambda>e. pe_id e = pe_id row) f es = update_where (\<lambda>e. pe_eventId e = pe_eventId row) f es"
    using same by (rule update_where_cong)
  then show ?thesis
    using find_key_SomeI[OF assms(2,3)] assms(4)
    by (cases "r = pe_eventId row"; cases "find (\<lambda>e. pe_eventId e = r) es") (auto simp: find_update_where dest: find_SomeD)
qed

lemma dispatching_wf:
  assumes "wf_events s"
  shows "distinct (map pe_id (dispatching w i (with_row event v s)))" and "distinct (map pe_eventId (dispatching w i (with_row event v s)))"
  using with_row_wf(1,2)[OF assms] by (simp_all add: dispatching_def claim_id.keys_kept claim_event_id.keys_kept)

lemma handle_untyped:
  assumes "e_gap w = id" and "find_event (event_id event) s = None" and "he_event_type event = None"
  shows "handle w event v s = (Inl (PlainError ''null value in column event_type violates not-null constraint''), s)"
  using assms by (simp add: handle_def bnd_def gets_def in_gap_def modify_def event_id_def insert_event_def catch_op_def throw_def)

text \<open>What a delivery leaves of the events' table: the rows of other events as they were, its own row, if it was
  free, processed when the dispatch returned and free again when it threw.\<close>

lemma handle_rows:
  assumes "e_gap w = id" and "wf_events s" and "handle w event v s = (r, t)"
  shows "wf_events t" and "i \<noteq> event_id event \<Longrightarrow> find_event i t = find_event i s"
    and "is_processed (event_id event) s \<or> in_flight (event_id event) s \<Longrightarrow> r = Inr () \<and> t = s"
    and "\<not> is_processed (event_id event) s \<Longrightarrow> \<not> in_flight (event_id event) s \<Longrightarrow> r = Inr () \<Longrightarrow> is_processed (event_id event) t"
    and "\<not> is_processed (event_id event) s \<Longrightarrow> \<not> in_flight (event_id event) s \<Longrightarrow> r = Inl err \<Longrightarrow>
      \<not> is_processed (event_id event) t \<and> \<not> in_flight (event_id event) t"
proof -
  let ?id = "event_id event" and ?row = "event_row event v s" and ?es = "with_row event v s"
  let ?d = "dispatching w (pe_id ?row) ?es"
  note wf = with_row_wf[OF assms(2), of event v]
  have dwf: "distinct (map pe_id ?d)" "distinct (map pe_eventId ?d)"
    by (rule dispatching_wf[OF assms(2)])+
  have found: "find (\<lambda>e. pe_eventId e = j) ?d = (if j = ?id then Some (set_claimedAt (Some (e_now w)) ?row) else find_event j s)" for j
    unfolding dispatching_def using find_after_update[OF wf(1-3), of "set_claimedAt (Some (e_now w))" j] find_event_with_row[OF assms(2)] wf(4)
    by (auto simp: set_claimedAt_def)
  have claimed: "set_claimedAt (Some (e_now w)) ?row \<in> set ?d"
    using find_SomeD[OF found[of ?id, simplified]] by simp
  have after: "find (\<lambda>e. pe_eventId e = j) (update_where (\<lambda>e. pe_id e = pe_id ?row) f ?d) =
      (if j = ?id then Some (f (set_claimedAt (Some (e_now w)) ?row)) else find_event j s)"
    if "\<And>e. pe_eventId (f e) = pe_eventId e" for f j
    using find_after_update[OF dwf claimed that, of j] found[of j] wf(4) by (simp add: set_claimedAt_def)
  have wf_after: "wf_events (u\<lparr>providerEvents := update_where P f ?d\<rparr>)"
    if "\<And>e. pe_eventId (f e) = pe_eventId e" "\<And>e. pe_id (f e) = pe_id e" for u :: db and P f
    using dwf that by (simp add: wf_events_def map_update_where)
  consider (untyped) "find_event ?id s = None" "he_event_type event = None"
    | (done') "find_event ?id s = None \<longrightarrow> he_event_type event \<noteq> None" "is_processed ?id s \<or> in_flight ?id s"
    | (work) "find_event ?id s = None \<longrightarrow> he_event_type event \<noteq> None" "\<not> is_processed ?id s" "\<not> in_flight ?id s" by argo
  then have "wf_events t \<and> (i \<noteq> ?id \<longrightarrow> find_event i t = find_event i s) \<and> (is_processed ?id s \<or> in_flight ?id s \<longrightarrow> r = Inr () \<and> t = s) \<and>
    (\<not> is_processed ?id s \<and> \<not> in_flight ?id s \<longrightarrow>
      (r = Inr () \<longrightarrow> is_processed ?id t) \<and> (\<forall>err. r = Inl err \<longrightarrow> \<not> is_processed ?id t \<and> \<not> in_flight ?id t))"
  proof cases
    case untyped
    then have "r = Inl (PlainError ''null value in column event_type violates not-null constraint'')" "t = s"
      using handle_untyped[OF assms(1) untyped] assms(3) by auto
    then show ?thesis using untyped(1) assms(2) by (simp add: is_processed_def in_flight_def)
  next
    case done'
    then obtain e where "find_event ?id s = Some e" "pe_processed e \<or> pe_claimedAt e \<noteq> None"
      by (auto simp: is_processed_def in_flight_def)
    then have "r = Inr ()" "t = s"
      using handle_run[OF assms(1,2) done'(1)[rule_format]] assms(3) by (auto simp: Let_def event_row_def split: if_splits)
    then show ?thesis using done'(2) assms(2) by simp
  next
    case work
    have free: "\<not> pe_processed ?row" "pe_claimedAt ?row = None"
      using work(2,3) by (auto simp: event_row_def is_processed_def in_flight_def split: option.split)
    obtain q u where run: "dispatch w event (s\<lparr>providerEvents := ?d\<rparr>) = (q, u)" by fastforce
    have out: "(r, t) = (case q of Inr x \<Rightarrow> (Inr (), u\<lparr>providerEvents := update_where (\<lambda>e. pe_id e = pe_id ?row) (set_processed (e_now w)) ?d\<rparr>)
       | Inl err \<Rightarrow> (Inl err, u\<lparr>providerEvents := update_where (\<lambda>e. pe_id e = pe_id ?row) (set_claimedAt None) ?d\<rparr>))"
      using handle_run[OF assms(1,2) work(1)[rule_format]] assms(3) free run by (simp add: Let_def split: sum.splits)
    show ?thesis
    proof (cases q)
      case (Inl err)
      then have t: "r = Inl err" "t = u\<lparr>providerEvents := update_where (\<lambda>e. pe_id e = pe_id ?row) (set_claimedAt None) ?d\<rparr>"
        using out by auto
      have rows: "find_event j t = (if j = ?id then Some (set_claimedAt None (set_claimedAt (Some (e_now w)) ?row)) else find_event j s)" for j
        unfolding t(2) find_event_def using after[of "set_claimedAt None" j] by (simp add: set_claimedAt_def find_event_def)
      then have "\<not> is_processed ?id t" "\<not> in_flight ?id t"
        using free(1) by (simp_all add: is_processed_def in_flight_def) (simp_all add: set_claimedAt_def)
      moreover have "wf_events t" unfolding t(2) by (rule wf_after) (simp_all add: set_claimedAt_def)
      ultimately show ?thesis using rows t(1) work(2,3) by simp
    next
      case (Inr x)
      then have t: "r = Inr ()" "t = u\<lparr>providerEvents := update_where (\<lambda>e. pe_id e = pe_id ?row) (set_processed (e_now w)) ?d\<rparr>"
        using out by auto
      have rows: "find_event j t = (if j = ?id then Some (set_processed (e_now w) (set_claimedAt (Some (e_now w)) ?row)) else find_event j s)" for j
        unfolding t(2) find_event_def using after[of "set_processed (e_now w)" j] by (simp add: set_processed_def find_event_def)
      then have "is_processed ?id t" by (simp add: is_processed_def) (simp add: set_processed_def)
      moreover have "wf_events t" unfolding t(2) by (rule wf_after) (simp_all add: set_processed_def)
      ultimately show ?thesis using rows t(1) work(2,3) by simp
    qed
  qed
  then show "wf_events t" and "i \<noteq> ?id \<Longrightarrow> find_event i t = find_event i s"
    and "is_processed ?id s \<or> in_flight ?id s \<Longrightarrow> r = Inr () \<and> t = s"
    and "\<not> is_processed ?id s \<Longrightarrow> \<not> in_flight ?id s \<Longrightarrow> r = Inr () \<Longrightarrow> is_processed ?id t"
    and "\<not> is_processed ?id s \<Longrightarrow> \<not> in_flight ?id s \<Longrightarrow> r = Inl err \<Longrightarrow> \<not> is_processed ?id t \<and> \<not> in_flight ?id t"
    by blast+
qed

lemma handle_dispatches:
  assumes "e_gap w = id" and "wf_events s" and "\<not> is_processed (event_id event) s" and "\<not> in_flight (event_id event) s"
    and "find_event (event_id event) s = None \<longrightarrow> he_event_type event \<noteq> None"
  shows "\<exists>es es' q u. dispatch w event (s\<lparr>providerEvents := es\<rparr>) = (q, u) \<and> handle w event v s = (q, u\<lparr>providerEvents := es'\<rparr>)"
proof -
  have "\<not> pe_processed (event_row event v s)" "pe_claimedAt (event_row event v s) = None"
    using assms(3,4) by (auto simp: event_row_def is_processed_def in_flight_def split: option.split)
  moreover obtain q u where "dispatch w event (s\<lparr>providerEvents := dispatching w (pe_id (event_row event v s)) (with_row event v s)\<rparr>) = (q, u)"
    by fastforce
  ultimately show ?thesis
    using handle_run[OF assms(1,2) assms(5)[rule_format], of v]
    by (cases q) (rule exI[of _ "dispatching w (pe_id (event_row event v s)) (with_row event v s)"], fastforce simp: Let_def)+
qed

definition deliver :: "env \<Rightarrow> hook_event list \<Rightarrow> db \<Rightarrow> db" where
  "deliver w events s = fold (\<lambda>event s. snd (handle w event True s)) events s"

lemma deliver_keeps:
  assumes "e_gap w = id"
  shows "wf_events s \<Longrightarrow> is_processed r s \<Longrightarrow> wf_events (deliver w events s) \<and> is_processed r (deliver w events s)"
proof (induction events arbitrary: s)
  case (Cons event events)
  obtain q t where run: "handle w event True s = (q, t)" by fastforce
  note rows = handle_rows[OF assms Cons.prems(1) run]
  have "is_processed r t"
  proof (cases "r = event_id event")
    case True
    then show ?thesis using rows(3) Cons.prems(2) by simp
  next
    case False
    then show ?thesis using rows(2)[OF False] Cons.prems(2) by (simp add: is_processed_def)
  qed
  then show ?case using Cons.IH[OF rows(1)] run by (simp add: deliver_def)
qed (simp add: deliver_def)

text \<open>C22. A webhook event is applied once. When a delivery of an event that no other delivery is working on returns,
  either the event had been applied before and nothing changed, or the event's handler ran once on the state and
  what it left, up to the record of the event, is the new state; and from then on, after any deliveries of any
  events in between, delivering it again changes nothing.\<close>

theorem webhook_event_applied_once:
  assumes "e_gap w = id" and "wf_events s" and "\<not> in_flight (event_id event) s" and "handle w event True s = (Inr (), t)"
  shows "(is_processed (event_id event) s \<and> t = s \<or>
      (\<exists>es es' u. dispatch w event (s\<lparr>providerEvents := es\<rparr>) = (Inr (), u) \<and> t = u\<lparr>providerEvents := es'\<rparr>)) \<and>
    (\<forall>events. handle w event True (deliver w events t) = (Inr (), deliver w events t))"
proof
  have typed: "find_event (event_id event) s = None \<longrightarrow> he_event_type event \<noteq> None"
    using handle_untyped[OF assms(1), of event s True] assms(4) by auto
  show "is_processed (event_id event) s \<and> t = s \<or>
      (\<exists>es es' u. dispatch w event (s\<lparr>providerEvents := es\<rparr>) = (Inr (), u) \<and> t = u\<lparr>providerEvents := es'\<rparr>)"
  proof (cases "is_processed (event_id event) s")
    case True
    then show ?thesis using handle_rows(3)[OF assms(1,2,4)] by simp
  next
    case False
    show ?thesis
      using handle_dispatches[OF assms(1,2) False assms(3) typed, of True] assms(4) by auto
  qed
  have wf: "wf_events t" by (rule handle_rows(1)[OF assms(1,2,4)])
  have "is_processed (event_id event) t"
    using handle_rows(3,4)[OF assms(1,2,4)] assms(3) by blast
  then show "\<forall>events. handle w event True (deliver w events t) = (Inr (), deliver w events t)"
    using deliver_keeps[OF assms(1) wf] handle_rows(3)[OF assms(1)] by (metis prod.collapse)
qed

text \<open>A payment of N600 into a contribution of N1,010, and its redelivery after another event.\<close>

definition example_hook :: "string \<Rightarrow> string \<Rightarrow> string option \<Rightarrow> hook_event" where
  "example_hook i ty sender = \<lparr>he_event_type = Some ty, he_requestId = Some i, he_userId = Some ''u'', he_walletId = Some ''w'',
     he_transactionId = Some ''t1'', he_type = Some ''vact_transfer'', he_time = Some ''2025-01-01'', he_responseCode = None,
     he_data = \<lparr>wd_transactionId = ''t1'', wd_amountFixed2 = ''600.00'', wd_aliasAccountNumber = Some ''9876543210'',
       wd_merchantTxRef = None, wd_senderName = sender, wd_accountNumber = Some ''0123456789'', wd_bankCode = Some ''058''\<rparr>\<rparr>"

definition hooked_db :: db where
  "hooked_db = empty_db\<lparr>contributions := [\<lparr>c_id = 1, c_potId = 7, c_contributorUserId = Some 1,
     c_virtualAccountRef = ''va'', c_virtualAccountNumber = Some ''9876543210'', c_virtualAccountBankName = None,
     c_expectedAmount = 101000, c_intendedAmount = 100000, c_status = c_pending, c_anonymous = False,
     c_refundAccountNumber = None, c_refundAccountName = None, c_refundBank = None,
     c_transactionId = None, c_expiresAt = 5, c_fundedAt = None\<rparr>]\<rparr>"

lemma hooked_db_ok: "wf_events hooked_db" "\<not> in_flight i hooked_db" "\<not> is_processed i hooked_db"
  by (simp_all add: hooked_db_def empty_db_def wf_events_def in_flight_def is_processed_def find_event_def)

theorem webhook_event_applied_once_witness:
  "\<exists>t. handle example_env (example_hook ''r1'' ''payment_success'' (Some ''Ada'')) True hooked_db = (Inr (), t) \<and>
     map c_status (contributions t) = [c_underpaid] \<and> map cp_amount (contributionPayments t) = [60000] \<and>
     (let u = deliver example_env [example_hook ''r2'' ''payment_failed'' None] t in
      handle example_env (example_hook ''r1'' ''payment_success'' (Some ''Ada'')) True u = (Inr (), u))"
proof -
  let ?ev = "example_hook ''r1'' ''payment_success'' (Some ''Ada'')"
  have out: "fst (handle example_env ?ev True hooked_db) = Inr ()"
    "map c_status (contributions (snd (handle example_env ?ev True hooked_db))) = [c_underpaid]"
    "map cp_amount (contributionPayments (snd (handle example_env ?ev True hooked_db))) = [60000]"
    by code_simp+
  then obtain t where t: "handle example_env ?ev True hooked_db = (Inr (), t)" by (metis prod.collapse)
  show ?thesis
    using webhook_event_applied_once[OF example_db_ok(4) hooked_db_ok(1,2) t] out(2,3) t by (auto simp: Let_def)
qed

section \<open>The route\<close>

text \<open>A request is genuine when its signature is the one the secret gives its event, and it names its event.\<close>

definition genuine :: "(string \<Rightarrow> string \<Rightarrow> string) \<Rightarrow> (string \<Rightarrow> parsed) \<Rightarrow> string \<Rightarrow> string \<Rightarrow> string option \<Rightarrow> string option \<Rightarrow> hook_event \<Rightarrow> bool" where
  "genuine hmac parse secret rawBody signature timestamp event \<longleftrightarrow>
     parse rawBody = json_event event \<and> truthy (he_requestId event) \<and>
     (\<exists>sig time. signature = Some sig \<and> timestamp = Some time \<and> sig \<noteq> [] \<and> time \<noteq> [] \<and>
        toLowerCase sig = toLowerCase (hmac secret (hashingPayload event time)))"

lemma truthy_Some: "truthy v \<longleftrightarrow> (\<exists>t. v = Some t \<and> t \<noteq> [])"
  by (cases v) (auto simp: truthy_def)

lemma handleWebhook_genuine:
  assumes "genuine hmac parse secret rawBody signature timestamp event" and "secret \<noteq> []"
  shows "handleWebhook has_id add_id hmac parse (Some secret) rawBody signature timestamp handler (seen, s) =
    (if has_id (event_id event) seen then (Inr (), (seen, s))
     else case handler event s of
       (Inr u, t) \<Rightarrow> (Inr (), (add_id (event_id event) seen, t))
     | (Inl err, t) \<Rightarrow> (Inl err, (seen, t)))"
  using assms
  by (auto simp: handleWebhook_def genuine_def truthy_Some safeEqualCaseInsensitive_def computeWebhookSignature_def bnd_def
      require_def ret_def throw_def gets_def on_db_def modify_def event_id_def text_of_def split: prod.split sum.split)

lemma handleWebhook_not_genuine:
  assumes "\<And>event. \<not> genuine hmac parse secret rawBody signature timestamp event" and "secret \<noteq> []"
  shows "\<exists>err. handleWebhook has_id add_id hmac parse (Some secret) rawBody signature timestamp handler st = (Inl err, st) \<and>
    (parse rawBody \<noteq> json_null \<longrightarrow> is_WebhookVerificationError err)"
proof (cases "parse rawBody")
  case (json_event event)
  then show ?thesis
    using assms(1)[of event] assms(2)
    by (auto simp: handleWebhook_def genuine_def truthy_Some safeEqualCaseInsensitive_def computeWebhookSignature_def bnd_def
        require_def ret_def throw_def is_WebhookVerificationError_def)
qed (use assms(2) in \<open>auto simp: handleWebhook_def truthy_Some bnd_def require_def ret_def throw_def is_WebhookVerificationError_def\<close>)

text \<open>C23. A webhook acts only when it is signed and new. Whatever the id store, a request whose signature is not the
  secret's for the event it carries (or that carries no signature, timestamp, event or request id) leaves every
  table and the store as they are, and is answered 401 unless its body is the JSON value null; a genuine request
  whose id was seen before is acknowledged and changes nothing either.\<close>

theorem only_signed_new_webhooks_act:
  assumes "secret \<noteq> []"
    and "(\<forall>event. \<not> genuine hmac parse secret rawBody signature timestamp event) \<or>
      genuine hmac parse secret rawBody signature timestamp event \<and> has_id (event_id event) (fst st)"
  shows "\<exists>answer. nombaWebhookRoute w has_id add_id hmac parse (Some secret) rawBody signature timestamp st = (Inr answer, st) \<and>
    (if genuine hmac parse secret rawBody signature timestamp event then answer = answered 200 ()
     else parse rawBody \<noteq> json_null \<longrightarrow> answer = refused 401 ''Webhook verification failed'' None)"
proof (cases "genuine hmac parse secret rawBody signature timestamp event")
  case True
  then have "has_id (event_id event) (fst st)" using assms(2) by blast
  then show ?thesis
    using handleWebhook_genuine[OF True assms(1), of has_id add_id _ "fst st" "snd st"] True
    by (simp add: nombaWebhookRoute_def catch_op_def bnd_def ret_def)
next
  case False
  then obtain err where "handleWebhook has_id add_id hmac parse (Some secret) rawBody signature timestamp (\<lambda>event. handle w event True) st = (Inl err, st)"
    "parse rawBody \<noteq> json_null \<longrightarrow> is_WebhookVerificationError err"
    using handleWebhook_not_genuine[OF _ assms(1)] assms(2) by metis
  then show ?thesis
    using False by (auto simp: nombaWebhookRoute_def catch_op_def bnd_def ret_def)
qed

text \<open>A stand-in for the keyed hash and for the parser of one body.\<close>

definition example_hmac :: "string \<Rightarrow> string \<Rightarrow> string" where
  "example_hmac secret text = secret @ text"

definition example_parse :: "string \<Rightarrow> parsed" where
  "example_parse body = (if body = ''null'' then json_null else json_event (example_hook body ''payment_success'' None))"

theorem only_signed_new_webhooks_act_witness:
  "nombaWebhookRoute example_env memory_has memory_add example_hmac example_parse (Some ''k'') ''r1'' (Some ''forged'') (Some ''now'') ([], hooked_db) =
     (Inr (refused 401 ''Webhook verification failed'' None), ([], hooked_db))"
proof -
  have forged: "\<not> genuine example_hmac example_parse ''k'' ''r1'' (Some ''forged'') (Some ''now'') event" for event
    by (auto simp: genuine_def example_hmac_def toLowerCase_def js_lower_def Let_def)
  have "example_parse ''r1'' \<noteq> json_null" by (simp add: example_parse_def)
  then show ?thesis
    using only_signed_new_webhooks_act[of "''k''" example_hmac example_parse "''r1''" "Some ''forged''" "Some ''now''"
        "example_hook ''r1'' ''payment_success'' None" memory_has "([], hooked_db)" example_env memory_add] forged by auto
qed

text \<open>A webhook that failed is tried again. When the handler of a genuine, new event throws, the answer is 500, the
  request id is not remembered, and the record of the event is free: the next delivery runs the handler again and
  its outcome is the handler's.\<close>

lemma failed_webhook_is_retried:
  assumes "e_gap w = id" and "e_gap w' = id" and "wf_events s" and "secret \<noteq> []"
    and "genuine hmac parse secret rawBody signature timestamp event" and "\<not> has_id (event_id event) seen"
    and "\<not> is_processed (event_id event) s" and "\<not> in_flight (event_id event) s" and "he_event_type event \<noteq> None"
    and "handle w event True s = (Inl err, t)" and "\<not> is_WebhookVerificationError err"
  shows "nombaWebhookRoute w has_id add_id hmac parse (Some secret) rawBody signature timestamp (seen, s) =
      (Inr (refused 500 ''Internal error processing webhook'' None), (seen, t)) \<and>
    (\<exists>es. fst (handle w' event True t) = fst (dispatch w' event (t\<lparr>providerEvents := es\<rparr>)))"
proof
  show "nombaWebhookRoute w has_id add_id hmac parse (Some secret) rawBody signature timestamp (seen, s) =
      (Inr (refused 500 ''Internal error processing webhook'' None), (seen, t))"
    using handleWebhook_genuine[OF assms(5,4), of has_id add_id "\<lambda>event. handle w event True" seen s] assms(6,10,11)
    by (simp add: nombaWebhookRoute_def catch_op_def bnd_def ret_def)
  have t: "wf_events t" "\<not> is_processed (event_id event) t" "\<not> in_flight (event_id event) t"
    using handle_rows(1,5)[OF assms(1,3,10)] assms(7,8) by blast+
  have "find_event (event_id event) t = None \<longrightarrow> he_event_type event \<noteq> None" using assms(9) by simp
  then show "\<exists>es. fst (handle w' event True t) = fst (dispatch w' event (t\<lparr>providerEvents := es\<rparr>))"
    using handle_dispatches[OF assms(2) t, of True] by (metis fst_conv)
qed

lemma failed_webhook_is_retried_witness:
  "\<exists>t es. nombaWebhookRoute example_env memory_has memory_add example_hmac example_parse (Some ''k'') ''r1''
       (Some (example_hmac ''k'' (hashingPayload (example_hook ''r1'' ''payment_success'' None) ''now''))) (Some ''now'') ([], hooked_db) =
     (Inr (refused 500 ''Internal error processing webhook'' None), ([], t)) \<and>
     fst (handle example_env (example_hook ''r1'' ''payment_success'' None) True t) =
       fst (dispatch example_env (example_hook ''r1'' ''payment_success'' None) (t\<lparr>providerEvents := es\<rparr>))"
proof -
  let ?ev = "example_hook ''r1'' ''payment_success'' None"
  have "fst (handle example_env ?ev True hooked_db) = Inl (PlainError ''payment_success payload missing customer bank details'')"
    by code_simp
  then obtain t where t: "handle example_env ?ev True hooked_db = (Inl (PlainError ''payment_success payload missing customer bank details''), t)"
    by (metis prod.collapse)
  have gen: "genuine example_hmac example_parse ''k'' ''r1'' (Some (example_hmac ''k'' (hashingPayload ?ev ''now''))) (Some ''now'') ?ev"
    by (simp add: genuine_def example_parse_def truthy_Some example_hmac_def example_hook_def)
  have new: "\<not> memory_has (event_id ?ev) []" "he_event_type ?ev \<noteq> None"
    "\<not> is_WebhookVerificationError (PlainError ''payment_success payload missing customer bank details'')"
    by (simp_all add: memory_has_def is_WebhookVerificationError_def example_hook_def)
  show ?thesis
    using failed_webhook_is_retried[where has_id = memory_has and seen = "[]" and add_id = memory_add,
        OF example_db_ok(4,4) hooked_db_ok(1) _ gen new(1) hooked_db_ok(3,2) new(2) t new(3)] by auto
qed

text \<open>But a redelivery that arrives while the first one is at work is acknowledged and remembered; when the first
  then fails, Nomba's next delivery finds the id and the event is never applied.\<close>

lemma inflight_redelivery_loses_event:
  assumes "e_gap w = id" and "wf_events s" and "secret \<noteq> []" and "in_flight (event_id event) s"
    and "genuine hmac parse secret rawBody signature timestamp event" and "\<not> memory_has (event_id event) seen"
  shows "nombaWebhookRoute w memory_has memory_add hmac parse (Some secret) rawBody signature timestamp (seen, s) =
      (Inr (answered 200 ()), (memory_add (event_id event) seen, s))"
    and "nombaWebhookRoute w memory_has memory_add hmac parse (Some secret) rawBody signature timestamp (memory_add (event_id event) seen, s') =
      (Inr (answered 200 ()), (memory_add (event_id event) seen, s'))"
proof -
  obtain r t where "handle w event True s = (r, t)" by fastforce
  then have "handle w event True s = (Inr (), s)" using handle_rows(3)[OF assms(1,2)] assms(4) by metis
  then show "nombaWebhookRoute w memory_has memory_add hmac parse (Some secret) rawBody signature timestamp (seen, s) =
      (Inr (answered 200 ()), (memory_add (event_id event) seen, s))"
    using handleWebhook_genuine[OF assms(5,3), of memory_has memory_add "\<lambda>event. handle w event True" seen s] assms(6)
    by (simp add: nombaWebhookRoute_def catch_op_def bnd_def ret_def)
  show "nombaWebhookRoute w memory_has memory_add hmac parse (Some secret) rawBody signature timestamp (memory_add (event_id event) seen, s') =
      (Inr (answered 200 ()), (memory_add (event_id event) seen, s'))"
    using handleWebhook_genuine[OF assms(5,3), of memory_has memory_add "\<lambda>event. handle w event True" "memory_add (event_id event) seen" s']
      memory_ids.has_added by (simp add: nombaWebhookRoute_def catch_op_def bnd_def ret_def)
qed

text \<open>The amount is not among the signed fields.\<close>

lemma amount_is_not_signed: "hashingPayload (event\<lparr>he_data := d\<rparr>) time = hashingPayload event time"
  by (simp add: hashingPayload_def)

end
