(* ===== verification/Numbers.thy ===== *)
theory Numbers
  imports Money Complex_Main "HOL-Library.Log_Nat"
begin

text \<open>
  The numbers of JavaScript, as far as amounts of money pass through them: the double nearest to a decimal text,
  \<open>toFixed(2)\<close>, and the two conversions of \<open>nomba.client.ts\<close> and \<open>reconciliation.service.ts\<close> that take such a
  number back to kobo. A finite double is its rational value. The detour through a double is exact below 2^52 kobo.
\<close>

section \<open>Doubles\<close>

definition two_to :: "int \<Rightarrow> rat" where
  "two_to e = (if 0 \<le> e then 2 ^ nat e else 1 / 2 ^ nat (- e))"

text \<open>The exponent \<open>e\<close> with \<open>2^e \<le> x < 2^(e + 1)\<close>, for \<open>0 < x\<close>.\<close>

definition binary_exponent :: "rat \<Rightarrow> int" where
  "binary_exponent x =
     (let (p, q) = quotient_of x; d = bitlen p - bitlen q in if two_to d \<le> x then d else d - 1)"

text \<open>Ties go to the even integer.\<close>

definition round_half_even :: "rat \<Rightarrow> int" where
  "round_half_even y =
     (let n = \<lfloor>y\<rfloor>; f = y - of_int n in
      if f < 1 / 2 then n else if 1 / 2 < f then n + 1 else if even n then n else n + 1)"

text \<open>The double nearest to a non-negative value: 53 significant bits.\<close>

definition double_of :: "rat \<Rightarrow> rat" where
  "double_of x =
     (if x = 0 then 0
      else let e = binary_exponent x - 52 in of_int (round_half_even (x / two_to e)) * two_to e)"

text \<open>\<open>Number(koboToNairaString(kobo))\<close>\<close>

definition number_of_kobo :: "kobo \<Rightarrow> rat" where
  "number_of_kobo k = (if k < 0 then - double_of (of_int (- k) / 100) else double_of (of_int k / 100))"

text \<open>\<open>x.toFixed(2)\<close> for \<open>0 \<le> x\<close>: the integer \<open>n\<close> with \<open>n / 100\<close> closest to \<open>x\<close>, the larger of two, with its
  decimal point; from \<open>10^21\<close> on the exponent notation, which is no naira string.\<close>

definition toFixed2 :: "rat \<Rightarrow> string" where
  "toFixed2 x = (if 10 ^ 21 \<le> x then ''1e+21'' else koboToNairaString \<lfloor>x * 100 + 1 / 2\<rfloor>)"

definition signed :: "bool \<Rightarrow> kobo \<Rightarrow> kobo" where
  "signed negative k = (if negative then - k else k)"

text \<open>\<open>nairaToKoboExact\<close>: an amount that is not there reads as \<open>NaN\<close>.\<close>

definition nairaToKoboExact :: "rat option \<Rightarrow> error + kobo" where
  "nairaToKoboExact amount =
     (case amount of
        None \<Rightarrow> nairaStringToKobo ''NaN''
      | Some x \<Rightarrow> map_sum id (signed (x < 0)) (nairaStringToKobo (toFixed2 \<bar>x\<bar>)))"

text \<open>\<open>nombaNairaToKobo\<close>: unconvertible is undefined.\<close>

definition nombaNairaToKobo :: "rat option \<Rightarrow> kobo option" where
  "nombaNairaToKobo amount =
     (case amount of
        None \<Rightarrow> None
      | Some x \<Rightarrow> (let fixed = toFixed2 \<bar>x\<bar> in
          if \<not> isValidNairaString fixed then None
          else case nairaStringToKobo fixed of Inl _ \<Rightarrow> None | Inr kobo \<Rightarrow> Some (signed (x < 0) kobo)))"

section \<open>The nearest double\<close>

lemma two_to_pos: "0 < two_to e"
  by (simp add: two_to_def)

lemma two_to_Suc: "two_to (e + 1) = 2 * two_to e"
proof (cases "0 \<le> e")
  case True
  then have "nat (e + 1) = Suc (nat e)" by simp
  then show ?thesis using True by (simp add: two_to_def)
next
  case False
  then have "nat (- e) = Suc (nat (- (e + 1)))" by simp
  then show ?thesis using False by (cases "e + 1 = 0") (simp_all add: two_to_def)
qed

lemma two_to_add_nat: "two_to (e + int n) = 2 ^ n * two_to e"
proof (induction n)
  case (Suc n)
  have "two_to (e + int (Suc n)) = two_to ((e + int n) + 1)" by (simp add: algebra_simps)
  then show ?case using Suc two_to_Suc[of "e + int n"] by simp
qed simp

lemma two_to_diff: "0 \<le> a \<Longrightarrow> 0 \<le> b \<Longrightarrow> two_to (a - b) = 2 ^ nat a / 2 ^ nat b"
proof -
  assume ab: "0 \<le> a" "0 \<le> b"
  have "two_to (a - b + int (nat b)) = 2 ^ nat b * two_to (a - b)" by (rule two_to_add_nat)
  then show ?thesis using ab by (simp add: two_to_def[of a] field_simps)
qed

lemma binary_exponent_bounds:
  assumes "0 < x"
  shows "two_to (binary_exponent x) \<le> x" and "x < 2 * two_to (binary_exponent x)"
proof -
  obtain p q where pq: "quotient_of x = (p, q)" by fastforce
  have q: "0 < q" using quotient_of_denom_pos[OF pq] .
  have x: "x = of_int p / of_int q" using quotient_of_div[OF pq] .
  have p: "0 < p" using assms q by (simp add: x zero_less_divide_iff)
  let ?bp = "bitlen p" and ?bq = "bitlen q"
  have bp: "2 ^ nat (?bp - 1) \<le> p" "p < 2 ^ nat ?bp" and bq: "2 ^ nat (?bq - 1) \<le> q" "q < 2 ^ nat ?bq"
    using bitlen_bounds[OF p] bitlen_bounds[OF q] by auto
  have one: "1 \<le> b" if "0 < n" "n < 2 ^ nat b" for n b :: int
  proof (rule ccontr)
    assume "\<not> 1 \<le> b"
    then have "nat b = 0" by simp
    then show False using that by simp
  qed
  have pos: "1 \<le> ?bp" "1 \<le> ?bq" by (rule one[OF p bp(2)], rule one[OF q bq(2)])
  let ?d = "?bp - ?bq"
  have r: "(2 :: rat) ^ nat (?bp - 1) \<le> of_int p" "of_int p < (2 :: rat) ^ nat ?bp"
    "(2 :: rat) ^ nat (?bq - 1) \<le> of_int q" "of_int q \<le> (2 :: rat) ^ nat ?bq"
    using bp bq by (metis of_int_le_iff of_int_less_iff of_int_numeral of_int_power less_imp_le)+
  have "two_to (?d - 1) = 2 ^ nat (?bp - 1) / 2 ^ nat ?bq"
    using two_to_diff[of "?bp - 1" ?bq] pos by (simp add: algebra_simps)
  also have "\<dots> \<le> of_int p / of_int q"
    using r p q by (intro frac_le) (simp_all del: of_int_power)
  finally have low: "two_to (?d - 1) \<le> x" by (simp add: x)
  have "x = of_int p / of_int q" by (rule x)
  also have "\<dots> < 2 ^ nat ?bp / 2 ^ nat (?bq - 1)"
    using r p by (intro frac_less) (simp_all del: of_int_power)
  also have "\<dots> = two_to (?d + 1)"
    using two_to_diff[of ?bp "?bq - 1"] pos by (simp add: algebra_simps)
  finally have high: "x < 2 * two_to ?d" by (simp add: two_to_Suc)
  show "two_to (binary_exponent x) \<le> x" "x < 2 * two_to (binary_exponent x)"
    using low high two_to_Suc[of "?d - 1"] by (auto simp: binary_exponent_def pq Let_def)
qed

lemma round_half_even_near: "\<bar>of_int (round_half_even y) - y\<bar> \<le> 1 / 2"
  using floor_correct[of y] by (auto simp: round_half_even_def Let_def abs_le_iff)

lemma double_of_near:
  assumes "0 \<le> x"
  shows "\<bar>double_of x - x\<bar> \<le> x / 2 ^ 53"
proof (cases "x = 0")
  case False
  let ?e = "binary_exponent x - 52"
  have x: "0 < x" using assms False by simp
  have e: "2 ^ 52 * two_to ?e \<le> x"
    using binary_exponent_bounds(1)[OF x] two_to_add_nat[of ?e 52] by simp
  have "double_of x - x = (of_int (round_half_even (x / two_to ?e)) - x / two_to ?e) * two_to ?e"
    using False two_to_pos[of ?e] by (simp add: double_of_def Let_def algebra_simps)
  then have "\<bar>double_of x - x\<bar> = \<bar>of_int (round_half_even (x / two_to ?e)) - x / two_to ?e\<bar> * two_to ?e"
    using two_to_pos[of ?e] by (simp add: abs_mult)
  also have "\<dots> \<le> 1 / 2 * two_to ?e"
    using round_half_even_near two_to_pos[of ?e] by (intro mult_right_mono) auto
  also have "\<dots> \<le> x / 2 ^ 53" using e by simp
  finally show ?thesis .
qed (simp add: double_of_def)

lemma double_of_nonneg: "0 \<le> x \<Longrightarrow> 0 \<le> double_of x"
proof -
  assume x: "0 \<le> x"
  have "x / 2 ^ 53 \<le> x" using x by simp
  then show ?thesis using double_of_near[OF x] by linarith
qed

section \<open>The detour is exact\<close>

lemma fixed_of_double:
  assumes "0 \<le> k" and "k < 2 ^ 52"
  shows "toFixed2 (double_of (of_int k / 100)) = koboToNairaString k"
proof -
  let ?d = "double_of (of_int k / 100)"
  have k: "(of_int k :: rat) < 2 ^ 52" using assms(2) by (metis of_int_less_iff of_int_numeral of_int_power)
  have "\<bar>?d - of_int k / 100\<bar> \<le> (of_int k / 100) / 2 ^ 53"
    using assms(1) by (intro double_of_near) simp
  also have "\<dots> < 1 / 200" using k by simp
  finally have near: "\<bar>?d - of_int k / 100\<bar> < 1 / 200" .
  then have "of_int k / 100 - 1 / 200 < ?d" "?d < of_int k / 100 + 1 / 200"
    unfolding abs_less_iff by linarith+
  moreover from this have "\<lfloor>?d * 100 + 1 / 2\<rfloor> = k"
    by (intro floor_unique) (simp_all add: field_simps)
  moreover have "\<not> 10 ^ 21 \<le> ?d"
    using calculation(2) k by simp
  ultimately show ?thesis by (simp add: toFixed2_def)
qed

lemma exact_number:
  assumes "\<bar>k\<bar> < 2 ^ 52"
  shows "nairaToKoboExact (Some (number_of_kobo k)) = Inr k" and "nombaNairaToKobo (Some (number_of_kobo k)) = Some k"
proof -
  have valid: "isValidNairaString (koboToNairaString n)" if "0 \<le> n" for n
    using kobo_renders[OF that] by (auto simp: nairaStringToKobo_def split: if_splits)
  have pos: "0 < double_of x" if "0 < x" for x
  proof -
    have "x / 2 ^ 53 < x" using that by simp
    then show ?thesis using double_of_near[of x] that by linarith
  qed
  have read: "nairaToKoboExact (Some (number_of_kobo k)) = Inr k \<and> nombaNairaToKobo (Some (number_of_kobo k)) = Some k"
  proof (cases "k < 0")
    case True
    then have "number_of_kobo k < 0" "\<bar>number_of_kobo k\<bar> = double_of (of_int (- k) / 100)"
      using pos[of "of_int (- k) / 100"] by (simp_all add: number_of_kobo_def)
    then show ?thesis
      using True assms fixed_of_double[of "- k"] valid[of "- k"] kobo_renders[of "- k"]
      by (simp add: nairaToKoboExact_def nombaNairaToKobo_def Let_def signed_def)
  next
    case False
    then have "\<not> number_of_kobo k < 0" "\<bar>number_of_kobo k\<bar> = double_of (of_int k / 100)"
      using double_of_nonneg[of "of_int k / 100"] by (simp_all add: number_of_kobo_def)
    then show ?thesis
      using False assms fixed_of_double[of k] valid[of k] kobo_renders[of k]
      by (simp add: nairaToKoboExact_def nombaNairaToKobo_def Let_def signed_def)
  qed
  then show "nairaToKoboExact (Some (number_of_kobo k)) = Inr k" and "nombaNairaToKobo (Some (number_of_kobo k)) = Some k"
    by blast+
qed

text \<open>Money survives the detour through a JavaScript number. Every amount below 2^52 kobo, rendered as a naira
  string, read as the nearest double and taken back to kobo through \<open>toFixed(2)\<close>, is the same amount, with its
  sign, in both conversions the reconciliation uses.\<close>

lemma float_detour_exact:
  assumes "\<bar>k\<bar> < 2 ^ 52"
  shows "nairaToKoboExact (Some (number_of_kobo k)) = Inr k \<and> nombaNairaToKobo (Some (number_of_kobo k)) = Some k"
  using exact_number[OF assms] by blast

lemma float_detour_exact_witness:
  "nairaToKoboExact (Some (number_of_kobo (- 120010))) = Inr (- 120010)"
  using float_detour_exact[of "- 120010"] by simp

end
