(* ===== verification/Reconcile.thy ===== *)
theory Reconcile
  imports Numbers Contributions
begin

text \<open>
  Reconciliation with Nomba: \<open>NombaClient.reconcile\<close> with \<open>buildLineItem\<close> and \<open>buildReport\<close>, and
  \<open>ReconciliationService.runForWindow\<close>, which records its findings. The pages Nomba answers with are the
  parameter \<open>fetch\<close>, a function of the cursor; amounts it reports are JavaScript numbers (\<open>Numbers\<close>).
\<close>

section \<open>Line items\<close>

record nomba_transaction =
  nt_amount :: "rat option"
  nt_merchantTxRef :: "string option"
  nt_virtualAccountReference :: "string option"

record nomba_page =
  pg_results :: "nomba_transaction list"
  pg_cursor :: "string option"

record local_record =
  lr_amount :: rat
  lr_customerId :: "string option"

datatype reconciliation_status = matched | overpaid | underpaid | orphan | missing_on_nomba

record line_item =
  li_status :: reconciliation_status
  li_ref :: string
  li_customerId :: "string option"
  li_nombaAmount :: "rat option"
  li_localAmount :: "rat option"
  li_difference :: "rat option"

text \<open>\<open>tx.merchantTxRef || tx.virtualAccountReference\<close>\<close>

definition correlatingRef :: "nomba_transaction \<Rightarrow> string option" where
  "correlatingRef tx = (if truthy (nt_merchantTxRef tx) then nt_merchantTxRef tx else nt_virtualAccountReference tx)"

definition buildLineItem :: "string \<Rightarrow> nomba_transaction \<Rightarrow> local_record option \<Rightarrow> (db, line_item) op" where
  "buildLineItem ref tx localRecord =
     (case localRecord of
        None \<Rightarrow> ret \<lparr>li_status = orphan, li_ref = ref, li_customerId = None, li_nombaAmount = nt_amount tx,
                  li_localAmount = None, li_difference = None\<rparr>
      | Some l \<Rightarrow>
          bnd (from_sum (nairaToKoboExact (nt_amount tx))) (\<lambda>nombaKobo.
          bnd (from_sum (nairaToKoboExact (Some (lr_amount l)))) (\<lambda>localKobo.
          let differenceKobo = nombaKobo - localKobo in
          ret \<lparr>li_status = (if differenceKobo = 0 then matched else if 0 < differenceKobo then overpaid else underpaid),
               li_ref = ref, li_customerId = lr_customerId l, li_nombaAmount = nt_amount tx,
               li_localAmount = Some (lr_amount l), li_difference = Some (number_of_kobo differenceKobo)\<rparr>)))"

section \<open>The report\<close>

record kobo_totals =
  kt_expectedTotal :: kobo
  kt_receivedTotal :: kobo
  kt_overpaidTotal :: kobo
  kt_underpaidTotal :: kobo

record customer_summary =
  cu_customerId :: string
  cu_expectedTotal :: rat
  cu_receivedTotal :: rat
  cu_overpaidTotal :: rat
  cu_underpaidTotal :: rat
  cu_lineItems :: "line_item list"

record report =
  rp_totalChecked :: nat
  rp_matchedCount :: nat
  rp_overpaidCount :: nat
  rp_underpaidCount :: nat
  rp_orphanCount :: nat
  rp_missingOnNombaCount :: nat
  rp_lineItems :: "line_item list"
  rp_byCustomer :: "customer_summary list"

definition no_totals :: kobo_totals where
  "no_totals = \<lparr>kt_expectedTotal = 0, kt_receivedTotal = 0, kt_overpaidTotal = 0, kt_underpaidTotal = 0\<rparr>"

text \<open>An optional amount in kobo, 0 when it is not there.\<close>

definition kobo_or_zero :: "rat option \<Rightarrow> (db, kobo) op" where
  "kobo_or_zero v = (case v of None \<Rightarrow> ret 0 | Some x \<Rightarrow> from_sum (nairaToKoboExact (Some x)))"

definition add_totals :: "line_item \<Rightarrow> kobo_totals \<Rightarrow> (db, kobo_totals) op" where
  "add_totals item t =
     bnd (kobo_or_zero (li_localAmount item)) (\<lambda>expected.
     bnd (kobo_or_zero (li_nombaAmount item)) (\<lambda>received.
     bnd (kobo_or_zero (if li_status item = overpaid then li_difference item else None)) (\<lambda>over.
     bnd (kobo_or_zero (if li_status item = underpaid then li_difference item else None)) (\<lambda>under.
     ret \<lparr>kt_expectedTotal = kt_expectedTotal t + expected, kt_receivedTotal = kt_receivedTotal t + received,
          kt_overpaidTotal = kt_overpaidTotal t + over, kt_underpaidTotal = kt_underpaidTotal t + (- under)\<rparr>))))"

definition customer_key :: "line_item \<Rightarrow> string" where
  "customer_key item = (case li_customerId item of Some c \<Rightarrow> c | None \<Rightarrow> ''unknown'')"

text \<open>The map from customers to their totals and items, in the order of their first item.\<close>

fun add_to_customer :: "line_item \<Rightarrow> (string \<times> kobo_totals \<times> line_item list) list \<Rightarrow>
    (db, (string \<times> kobo_totals \<times> line_item list) list) op" where
  "add_to_customer item [] = bnd (add_totals item no_totals) (\<lambda>t. ret [(customer_key item, t, [item])])"
| "add_to_customer item ((key, t, items) # rest) =
     (if key = customer_key item then bnd (add_totals item t) (\<lambda>t'. ret ((key, t', items @ [item]) # rest))
      else bnd (add_to_customer item rest) (\<lambda>rest'. ret ((key, t, items) # rest')))"

definition summary_of :: "string \<times> kobo_totals \<times> line_item list \<Rightarrow> customer_summary" where
  "summary_of = (\<lambda>(key, t, items).
     \<lparr>cu_customerId = key, cu_expectedTotal = number_of_kobo (kt_expectedTotal t),
      cu_receivedTotal = number_of_kobo (kt_receivedTotal t), cu_overpaidTotal = number_of_kobo (kt_overpaidTotal t),
      cu_underpaidTotal = number_of_kobo (kt_underpaidTotal t), cu_lineItems = items\<rparr>)"

definition count_status :: "reconciliation_status \<Rightarrow> line_item list \<Rightarrow> nat" where
  "count_status st items = length (filter (\<lambda>i. li_status i = st) items)"

definition buildReport :: "line_item list \<Rightarrow> (db, report) op" where
  "buildReport lineItems =
     bnd (fold_op add_to_customer lineItems []) (\<lambda>byCustomer.
     ret \<lparr>rp_totalChecked = length lineItems, rp_matchedCount = count_status matched lineItems,
          rp_overpaidCount = count_status overpaid lineItems, rp_underpaidCount = count_status underpaid lineItems,
          rp_orphanCount = count_status orphan lineItems, rp_missingOnNombaCount = count_status missing_on_nomba lineItems,
          rp_lineItems = lineItems, rp_byCustomer = map summary_of byCustomer\<rparr>)"

section \<open>Walking the pages\<close>

definition MAX_RECONCILE_PAGES :: nat where "MAX_RECONCILE_PAGES = 10000"

definition pages_error :: error where
  "pages_error = PlainError ''reconcile() aborted after 10000 pages - Nomba may be returning a cursor that never terminates''"

text \<open>What the loop carries: the refs seen and the line items found.\<close>

type_synonym progress = "string list \<times> line_item list"

definition take_transaction ::
  "(string \<Rightarrow> (db, local_record option) op) \<Rightarrow> (line_item \<Rightarrow> (db, unit) op) \<Rightarrow> nomba_transaction \<Rightarrow> progress \<Rightarrow> (db, progress) op" where
  "take_transaction findLocalByRef onLineItem tx = (\<lambda>(seenRefs, lineItems).
     if \<not> truthy (correlatingRef tx) then ret (seenRefs, lineItems)
     else let ref = the (correlatingRef tx) in
       bnd (findLocalByRef ref) (\<lambda>localRecord.
       bnd (buildLineItem ref tx localRecord) (\<lambda>item.
       seq (onLineItem item) (ret (List.insert ref seenRefs, lineItems @ [item])))))"

function reconcile_loop ::
  "(string option \<Rightarrow> error + nomba_page) \<Rightarrow> (nomba_transaction \<Rightarrow> progress \<Rightarrow> (db, progress) op) \<Rightarrow>
   string option \<Rightarrow> nat \<Rightarrow> progress \<Rightarrow> (db, progress) op" where
  "reconcile_loop fetch body cursor pageCount acc =
     bnd (from_sum (fetch cursor)) (\<lambda>page.
     bnd (fold_op body (pg_results page) acc) (\<lambda>acc'.
     if MAX_RECONCILE_PAGES < pageCount + 1 then throw pages_error
     else if truthy (pg_cursor page) then reconcile_loop fetch body (pg_cursor page) (pageCount + 1) acc'
     else ret acc'))"
  by pat_completeness auto

termination
  by (relation "measure (\<lambda>(fetch, body, cursor, pageCount, acc). MAX_RECONCILE_PAGES - pageCount)") auto

declare reconcile_loop.simps [simp del]

definition take_expected ::
  "(string \<Rightarrow> (db, local_record option) op) \<Rightarrow> (line_item \<Rightarrow> (db, unit) op) \<Rightarrow> string list \<Rightarrow> string \<Rightarrow> line_item list \<Rightarrow> (db, line_item list) op" where
  "take_expected findLocalByRef onLineItem seenRefs ref lineItems =
     (if ref \<in> set seenRefs then ret lineItems
      else bnd (findLocalByRef ref) (\<lambda>localRecord.
        let item = \<lparr>li_status = missing_on_nomba, li_ref = ref, li_customerId = Option.bind localRecord lr_customerId,
              li_nombaAmount = None, li_localAmount = map_option lr_amount localRecord, li_difference = None\<rparr> in
        seq (onLineItem item) (ret (lineItems @ [item]))))"

definition reconcile ::
  "(string option \<Rightarrow> error + nomba_page) \<Rightarrow> (string \<Rightarrow> (db, local_record option) op) \<Rightarrow> (db, string list) op option \<Rightarrow>
   (line_item \<Rightarrow> (db, unit) op) \<Rightarrow> (db, report) op" where
  "reconcile fetch findLocalByRef listExpectedRefs onLineItem =
     bnd (reconcile_loop fetch (take_transaction findLocalByRef onLineItem) None 0 ([], [])) (\<lambda>(seenRefs, lineItems).
     bnd (case listExpectedRefs of
            None \<Rightarrow> ret lineItems
          | Some refs \<Rightarrow> bnd refs (\<lambda>expectedRefs. fold_op (take_expected findLocalByRef onLineItem seenRefs) expectedRefs lineItems))
       buildReport)"

section \<open>Recording the findings\<close>

fun toRecordStatus :: "reconciliation_status \<Rightarrow> record_status" where
  "toRecordStatus matched = rr_matched"
| "toRecordStatus orphan = rr_unmatched_external"
| "toRecordStatus missing_on_nomba = rr_unmatched_internal"
| "toRecordStatus overpaid = rr_amount_mismatch"
| "toRecordStatus underpaid = rr_amount_mismatch"

text \<open>\<open>date.toISOString()\<close> in the years 0 to 9999.\<close>

definition toISOString :: "time \<Rightarrow> string" where
  "toISOString t =
     (let secs = t div 1000; (y, m, d) = utc_date (secs div 86400); r = secs mod 86400 in
      padStart 4 CHR ''0'' (show_int y) @ ''-'' @ pad2 m @ ''-'' @ pad2 d @ ''T'' @
      pad2 (r div 3600) @ '':'' @ pad2 (r mod 3600 div 60) @ '':'' @ pad2 (r mod 60) @ ''.'' @
      padStart 3 CHR ''0'' (show_int (t mod 1000)) @ ''Z'')"

definition expected_transactions :: "time \<Rightarrow> time \<Rightarrow> db \<Rightarrow> transaction list" where
  "expected_transactions dateFrom dateTo s =
     filter (\<lambda>t. tx_type t \<in> {ty_contribution, ty_payout, ty_refund} \<and> dateFrom \<le> tx_createdAt t \<and> tx_createdAt t \<le> dateTo)
       (transactions (led s))"

text \<open>The later row of a map built in a loop wins.\<close>

definition contribution_ref :: "uuid \<Rightarrow> db \<Rightarrow> string option" where
  "contribution_ref transactionId s =
     map_option c_virtualAccountRef (find (\<lambda>c. c_transactionId c = Some transactionId) (rev (contributions s)))"

definition correlatingRefFor :: "transaction \<Rightarrow> db \<Rightarrow> string" where
  "correlatingRefFor t s =
     (if tx_type t = ty_contribution
      then (case contribution_ref (tx_id t) s of Some r \<Rightarrow> r | None \<Rightarrow> tx_reference t)
      else tx_reference t)"

definition insert_batch :: "time \<Rightarrow> time \<Rightarrow> kobo \<Rightarrow> (db, settlement_batch) op" where
  "insert_batch dateFrom dateTo expected s =
     (let b = \<lparr>sb_id = fresh_id (map sb_id (settlementBatches s)),
            sb_batchReference = ''nomba_'' @ toISOString dateFrom @ ''_'' @ toISOString dateTo,
            sb_periodStart = dateFrom, sb_periodEnd = dateTo, sb_expectedAmount = expected, sb_reportedAmount = None,
            sb_status = sb_open\<rparr>
      in (Inr b, s\<lparr>settlementBatches := settlementBatches s @ [b]\<rparr>))"

text \<open>By reference, else through the contribution with that virtual account.\<close>

definition findTransactionByRef :: "string \<Rightarrow> db \<Rightarrow> transaction option" where
  "findTransactionByRef ref s =
     (case find (\<lambda>t. tx_reference t = ref) (transactions (led s)) of
        Some t \<Rightarrow> Some t
      | None \<Rightarrow> (case concat (map (\<lambda>c. filter (\<lambda>t. c_transactionId c = Some (tx_id t)) (transactions (led s)))
                   (filter (\<lambda>c. c_virtualAccountRef c = ref) (contributions s))) of
                 [] \<Rightarrow> None | t # _ \<Rightarrow> Some t))"

definition findLocalByRef :: "string \<Rightarrow> (db, local_record option) op" where
  "findLocalByRef ref =
     gets (\<lambda>s. map_option (\<lambda>t. \<lparr>lr_amount = number_of_kobo (tx_amount t), lr_customerId = None\<rparr>) (findTransactionByRef ref s))"

definition record_item :: "uuid \<Rightarrow> line_item \<Rightarrow> (db, unit) op" where
  "record_item batchId item =
     modify (\<lambda>s. s\<lparr>reconciliationRecords := reconciliationRecords s @
       [\<lparr>rr_id = fresh_id (map rr_id (reconciliationRecords s)), rr_settlementBatchId = Some batchId,
         rr_transactionId = map_option tx_id (findTransactionByRef (li_ref item) s), rr_externalReference = li_ref item,
         rr_internalAmount = nombaNairaToKobo (li_localAmount item), rr_externalAmount = nombaNairaToKobo (li_nombaAmount item),
         rr_status = toRecordStatus (li_status item)\<rparr>]\<rparr>)"

definition close_batch :: "kobo \<Rightarrow> bool \<Rightarrow> settlement_batch \<Rightarrow> settlement_batch" where
  "close_batch reportedAmount allMatched b =
     b\<lparr>sb_reportedAmount := Some reportedAmount, sb_status := (if allMatched then sb_matched else sb_mismatched)\<rparr>"

definition reported_total :: "report \<Rightarrow> kobo" where
  "reported_total r = (\<Sum>item\<leftarrow>rp_lineItems r. case nombaNairaToKobo (li_nombaAmount item) of Some k \<Rightarrow> k | None \<Rightarrow> 0)"

definition all_matched :: "report \<Rightarrow> bool" where
  "all_matched r \<longleftrightarrow> rp_overpaidCount r = 0 \<and> rp_underpaidCount r = 0 \<and> rp_orphanCount r = 0 \<and> rp_missingOnNombaCount r = 0"

definition runForWindow :: "(string option \<Rightarrow> error + nomba_page) \<Rightarrow> time \<Rightarrow> time \<Rightarrow> (db, settlement_batch option) op" where
  "runForWindow fetch dateFrom dateTo =
     bnd (gets (\<lambda>s. map (\<lambda>t. (correlatingRefFor t s, tx_amount t)) (expected_transactions dateFrom dateTo s))) (\<lambda>expectedInWindow.
     bnd (insert_batch dateFrom dateTo (\<Sum>(ref, amount)\<leftarrow>expectedInWindow. amount)) (\<lambda>batch.
     bnd (reconcile fetch findLocalByRef (Some (ret (map fst expectedInWindow))) (record_item (sb_id batch))) (\<lambda>report.
     seq (modify (\<lambda>s. s\<lparr>settlementBatches := update_where (\<lambda>b. sb_id b = sb_id batch)
            (close_batch (reported_total report) (all_matched report)) (settlementBatches s)\<rparr>))
     (gets (\<lambda>s. find (\<lambda>b. sb_id b = sb_id batch) (settlementBatches s))))))"

text \<open>\<open>PayoutCronHandlers.runReconciliation\<close>\<close>

definition runReconciliation :: "env \<Rightarrow> (string option \<Rightarrow> error + nomba_page) \<Rightarrow> int \<Rightarrow> (db, settlement_batch option) op" where
  "runReconciliation w fetch hoursBack =
     (let dateTo = e_now w; dateFrom = dateTo - hoursBack * 60 * 60 * 1000 in runForWindow fetch dateFrom dateTo)"

end
