(* ===== verification/Reconcile_Laws.thy ===== *)
theory Reconcile_Laws
  imports Reconcile Contributions_Laws
begin

text \<open>
  What a reconciliation run leaves behind: the loop over Nomba's pages is the fold over the transactions of the
  pages the cursors chain together, at most 10001 of them; a run only adds findings and its own batch, the batch is
  matched exactly when every finding is, and a contribution paid with its fee is reported as a mismatch.
\<close>

section \<open>Operations with two postconditions\<close>

text \<open>What a result and the state left behind satisfy: \<open>I\<close> for a value, \<open>E\<close> for an error.\<close>

definition outcome :: "('a \<Rightarrow> 's \<Rightarrow> bool) \<Rightarrow> ('s \<Rightarrow> bool) \<Rightarrow> (error + 'a) \<times> 's \<Rightarrow> bool" where
  "outcome I E r = (case r of (Inr x, s) \<Rightarrow> I x s | (Inl e, s) \<Rightarrow> E s)"

lemma outcome_simps [simp]: "outcome I E (Inr x, s) = I x s" "outcome I E (Inl e, s) = E s"
  by (simp_all add: outcome_def)

lemma outcome_ret [simp]: "outcome I E (ret x s) = I x s"
  by (simp add: ret_def)

lemma outcome_throw [simp]: "outcome I E (throw e s) = E s"
  by (simp add: throw_def)

lemma outcome_bnd:
  assumes "outcome I E (m s)" and "\<And>x t. I x t \<Longrightarrow> outcome J E (f x t)"
  shows "outcome J E (bnd m f s)"
  using assms by (cases "m s"; cases "fst (m s)") (auto simp: bnd_def)

lemma outcome_weaken: "outcome I E r \<Longrightarrow> (\<And>x t. I x t \<Longrightarrow> J x t) \<Longrightarrow> (\<And>t. E t \<Longrightarrow> F t) \<Longrightarrow> outcome J F r"
  by (cases r; cases "fst r") auto

lemma outcome_Inr: "outcome I E (m s) \<Longrightarrow> m s = (Inr x, t) \<Longrightarrow> I x t"
  by simp

lemma outcome_Inl: "outcome I E (m s) \<Longrightarrow> m s = (Inl e, t) \<Longrightarrow> E t"
  by simp

lemma outcome_fold:
  assumes "\<And>x a s. x \<in> set xs \<Longrightarrow> I a s \<Longrightarrow> outcome I E (f x a s)" and "I a s"
  shows "outcome I E (fold_op f xs a s)"
  using assms
proof (induction xs arbitrary: a s)
  case (Cons x xs)
  have "outcome I E (f x a s)" using Cons.prems by simp
  moreover have "outcome I E (fold_op f xs a' t)" if "I a' t" for a' t
    using Cons.IH[OF _ that] Cons.prems(1) by simp
  ultimately show ?case by (simp add: outcome_bnd)
qed simp

section \<open>The pages\<close>

text \<open>The pages that the cursors chain together, \<open>n\<close> at most.\<close>

fun pages_of :: "(string option \<Rightarrow> error + nomba_page) \<Rightarrow> nat \<Rightarrow> string option \<Rightarrow> error + nomba_page list" where
  "pages_of fetch 0 cursor = Inr []"
| "pages_of fetch (Suc n) cursor =
     (case fetch cursor of
        Inl e \<Rightarrow> Inl e
      | Inr page \<Rightarrow> if truthy (pg_cursor page) then map_sum id ((#) page) (pages_of fetch n (pg_cursor page)) else Inr [page])"

declare pages_of.simps(2) [simp del]

lemma pages_of_length: "pages_of fetch n cursor = Inr pages \<Longrightarrow> length pages \<le> n"
  by (induction n arbitrary: cursor pages) (auto split: sum.splits if_splits simp: map_sum_def pages_of.simps)

lemma loop_over_pages:
  assumes "pages_of fetch n cursor = Inr pages" and "n + pageCount = Suc MAX_RECONCILE_PAGES" and "0 < n"
  shows "reconcile_loop fetch body cursor pageCount acc =
    bnd (fold_op body (concat (map pg_results pages)) acc) (\<lambda>acc'.
      if pageCount + length pages \<le> MAX_RECONCILE_PAGES then ret acc' else throw pages_error)"
  using assms
proof (induction n arbitrary: cursor pages pageCount acc)
  case (Suc n)
  obtain page where page: "fetch cursor = Inr page" using Suc.prems(1) by (auto split: sum.splits simp: pages_of.simps)
  have start: "bnd (from_sum (fetch cursor)) g = g page" for g :: "nomba_page \<Rightarrow> (db, progress) op"
    by (simp add: page bnd_def from_sum_def fun_eq_iff)
  show ?case
  proof (cases "truthy (pg_cursor page)")
    case False
    then have "pages = [page]" using Suc.prems(1) page by (simp add: pages_of.simps)
    then show ?thesis
      using False
      by (subst reconcile_loop.simps, cases "pageCount < MAX_RECONCILE_PAGES")
        (simp_all add: start less_Suc_eq_le not_less[symmetric] Suc_le_eq)
  next
    case True
    then obtain rest where rest: "pages_of fetch n (pg_cursor page) = Inr rest" "pages = page # rest"
      using Suc.prems(1) page by (cases "pages_of fetch n (pg_cursor page)") (auto simp: pages_of.simps)
    show ?thesis
    proof (cases n)
      case 0
      then have "MAX_RECONCILE_PAGES < pageCount + 1" using Suc.prems(2) by simp
      then show ?thesis
        using 0 rest by (subst reconcile_loop.simps) (simp add: start)
    next
      case (Suc m)
      then have go: "\<not> MAX_RECONCILE_PAGES < pageCount + 1" using Suc.prems(2) by simp
      have "reconcile_loop fetch body (pg_cursor page) (pageCount + 1) acc' =
        bnd (fold_op body (concat (map pg_results rest)) acc') (\<lambda>acc''.
          if pageCount + length pages \<le> MAX_RECONCILE_PAGES then ret acc'' else throw pages_error)" for acc'
        using Suc.IH[OF rest(1), of "pageCount + 1" acc'] Suc.prems(2) Suc rest(2) by simp
      then show ?thesis
        using go True rest(2)
        by (subst reconcile_loop.simps) (simp add: start fold_op_append bnd_assoc)
    qed
  qed
qed simp

lemma loop_stops_with_fetch:
  assumes "pages_of fetch n cursor = Inl e"
  shows "\<exists>e' t. reconcile_loop fetch body cursor pageCount acc s = (Inl e', t)"
  using assms
proof (induction n arbitrary: cursor pageCount acc s)
  case (Suc n)
  show ?case
  proof (cases "fetch cursor")
    case (Inl e)
    then show ?thesis by (subst reconcile_loop.simps) (simp add: bnd_def from_sum_def)
  next
    case (Inr page)
    then have go: "truthy (pg_cursor page)" "pages_of fetch n (pg_cursor page) = Inl e"
      using Suc.prems by (auto simp: pages_of.simps split: if_splits) (cases "pages_of fetch n (pg_cursor page)"; auto)
    obtain r t where body: "fold_op body (pg_results page) acc s = (r, t)" by fastforce
    show ?thesis
      using Suc.IH[OF go(2), of "pageCount + 1" _ t] go(1) Inr body
      by (subst reconcile_loop.simps)
        (cases r; auto simp: bnd_def from_sum_def throw_def)
  qed
qed simp

text \<open>C24. The walk over Nomba's pages always ends, whatever cursors it is given. It takes the transactions of the
  pages the cursors chain together, in order and each once, however they are cut into pages; a chain longer than
  10000 pages, endless or not, ends in the error after its 10001st page, and so does a page that cannot be fetched.\<close>

theorem reconcile_walks_pages:
  "case pages_of fetch (Suc MAX_RECONCILE_PAGES) None of
     Inr pages \<Rightarrow> length pages \<le> Suc MAX_RECONCILE_PAGES \<and>
       reconcile_loop fetch body None 0 acc =
         bnd (fold_op body (concat (map pg_results pages)) acc) (\<lambda>acc'.
           if length pages \<le> MAX_RECONCILE_PAGES then ret acc' else throw pages_error)
   | Inl e \<Rightarrow> \<exists>e' t. reconcile_loop fetch body None 0 acc s = (Inl e', t)"
proof (cases "pages_of fetch (Suc MAX_RECONCILE_PAGES) None")
  case (Inl e)
  then show ?thesis using loop_stops_with_fetch[OF Inl] by simp
next
  case (Inr pages)
  then show ?thesis
    using loop_over_pages[OF Inr, of 0] pages_of_length[OF Inr] by simp
qed

section \<open>The findings\<close>

text \<open>What a record says of a line item.\<close>

definition shown :: "reconciliation_record \<Rightarrow> uuid option \<times> uuid option \<times> string \<times> kobo option \<times> kobo option \<times> record_status" where
  "shown r = (rr_settlementBatchId r, rr_transactionId r, rr_externalReference r, rr_internalAmount r, rr_externalAmount r, rr_status r)"

definition finding :: "uuid \<Rightarrow> db \<Rightarrow> line_item \<Rightarrow> uuid option \<times> uuid option \<times> string \<times> kobo option \<times> kobo option \<times> record_status" where
  "finding b s item = (Some b, map_option tx_id (findTransactionByRef (li_ref item) s), li_ref item,
     nombaNairaToKobo (li_localAmount item), nombaNairaToKobo (li_nombaAmount item), toRecordStatus (li_status item))"

text \<open>\<open>t\<close> is \<open>s\<close> with one record more for each line item.\<close>

definition recorded :: "uuid \<Rightarrow> db \<Rightarrow> line_item list \<Rightarrow> db \<Rightarrow> bool" where
  "recorded b s items t \<longleftrightarrow>
     (\<exists>news. t = s\<lparr>reconciliationRecords := reconciliationRecords s @ news\<rparr> \<and> map shown news = map (finding b s) items)"

definition some_recorded :: "uuid \<Rightarrow> db \<Rightarrow> db \<Rightarrow> bool" where
  "some_recorded b s t \<longleftrightarrow> (\<exists>items. recorded b s items t)"

lemma recorded_start: "recorded b s [] s"
  by (auto simp: recorded_def intro!: exI[of _ "[]"])

lemma find_ref_records: "findTransactionByRef ref (s\<lparr>reconciliationRecords := rs\<rparr>) = findTransactionByRef ref s"
  by (simp add: findTransactionByRef_def split: option.split)

lemma recorded_same:
  assumes "recorded b s items t"
  shows "findTransactionByRef ref t = findTransactionByRef ref s"
  using assms by (auto simp: recorded_def find_ref_records)

lemma record_item_step:
  assumes "recorded b s items t"
  shows "\<exists>t'. record_item b item t = (Inr (), t') \<and> recorded b s (items @ [item]) t'"
proof -
  obtain news where t: "t = s\<lparr>reconciliationRecords := reconciliationRecords s @ news\<rparr>" "map shown news = map (finding b s) items"
    using assms by (auto simp: recorded_def)
  then show ?thesis
    by (auto simp: record_item_def modify_def recorded_def shown_def finding_def find_ref_records
        intro!: exI[of _ "news @ [_]"])
qed

lemma buildLineItem_run: "buildLineItem ref tx l t = (fst (buildLineItem ref tx l s), t)"
  by (auto simp: buildLineItem_def bnd_def from_sum_def ret_def Let_def split: option.split sum.split)

lemma buildLineItem_ref: "buildLineItem ref tx l t = (Inr item, t') \<Longrightarrow> li_ref item = ref"
  by (auto simp: buildLineItem_def bnd_def from_sum_def ret_def Let_def split: option.splits sum.splits)

definition progress_ok :: "uuid \<Rightarrow> db \<Rightarrow> progress \<Rightarrow> db \<Rightarrow> bool" where
  "progress_ok b s p t \<longleftrightarrow> recorded b s (snd p) t \<and> set (fst p) \<subseteq> li_ref ` set (snd p)"

definition local_record_of :: "string \<Rightarrow> db \<Rightarrow> local_record option" where
  "local_record_of ref s =
     map_option (\<lambda>t. \<lparr>lr_amount = number_of_kobo (tx_amount t), lr_customerId = None\<rparr>) (findTransactionByRef ref s)"

lemma findLocalByRef_run: "recorded b s items t \<Longrightarrow> findLocalByRef ref t = (Inr (local_record_of ref s), t)"
  by (simp add: findLocalByRef_def gets_def local_record_of_def recorded_same)

lemma bnd_findLocalByRef: "recorded b s items t \<Longrightarrow> bnd (findLocalByRef ref) f t = f (local_record_of ref s) t"
  by (rule bnd_run) (rule findLocalByRef_run)

lemma bnd_from_sum [simp]: "bnd (from_sum (Inr x)) f = f x"
  by (simp add: bnd_def from_sum_def fun_eq_iff)

lemma take_transaction_ok:
  assumes "progress_ok b s p t"
  shows "outcome (progress_ok b s) (some_recorded b s) (take_transaction findLocalByRef (record_item b) tx p t)"
proof -
  obtain seen items where p: "p = (seen, items)" by fastforce
  have rec: "recorded b s items t" and seen: "set seen \<subseteq> li_ref ` set items"
    using assms by (auto simp: p progress_ok_def)
  show ?thesis
  proof (cases "truthy (correlatingRef tx)")
    case False
    then show ?thesis using assms by (simp add: take_transaction_def p)
  next
    case True
    let ?ref = "the (correlatingRef tx)"
    obtain r where r: "buildLineItem ?ref tx (local_record_of ?ref s) t = (r, t)"
      using buildLineItem_run by blast
    show ?thesis
    proof (cases r)
      case (Inl e)
      then show ?thesis
        using True rec by (auto simp: take_transaction_def p Let_def bnd_findLocalByRef[OF rec] bnd_fail[where m = "buildLineItem ?ref tx (local_record_of ?ref s)", OF r[unfolded Inl]] some_recorded_def)
    next
      case (Inr item)
      obtain t' where t': "record_item b item t = (Inr (), t')" "recorded b s (items @ [item]) t'"
        using record_item_step[OF rec] by blast
      show ?thesis
        using True t'(2) seen buildLineItem_ref[OF r[unfolded Inr]]
        by (auto simp: take_transaction_def p Let_def bnd_findLocalByRef[OF rec] bnd_run[where m = "buildLineItem ?ref tx (local_record_of ?ref s)", OF r[unfolded Inr]]
            bnd_run[where m = "record_item b item", OF t'(1)] progress_ok_def)
    qed
  qed
qed

lemma outcome_loop:
  assumes step: "\<And>tx a t. I a t \<Longrightarrow> outcome I E (body tx a t)" and stop: "\<And>a t. I a t \<Longrightarrow> E t" and "I acc s"
  shows "outcome I E (reconcile_loop fetch body cursor pageCount acc s)"
  using assms(3)
proof (induction "Suc MAX_RECONCILE_PAGES - pageCount" arbitrary: cursor pageCount acc s rule: less_induct)
  case less
  show ?case
  proof (cases "fetch cursor")
    case (Inl e)
    then show ?thesis using stop[OF less.prems] by (subst reconcile_loop.simps) (simp add: bnd_def from_sum_def)
  next
    case (Inr page)
    have "outcome I E (fold_op body (pg_results page) acc s)"
      by (rule outcome_fold[OF step less.prems])
    moreover have "outcome I E ((if MAX_RECONCILE_PAGES < pageCount + 1 then throw pages_error
        else if truthy (pg_cursor page) then reconcile_loop fetch body (pg_cursor page) (pageCount + 1) a else ret a) t)"
      if "I a t" for a t
      using that stop[OF that] less.hyps[of "pageCount + 1", OF _ that] by auto
    ultimately show ?thesis
      using Inr by (subst reconcile_loop.simps) (simp add: outcome_bnd)
  qed
qed

lemma take_expected_ok:
  assumes "recorded b s items t"
  shows "outcome (recorded b s) (some_recorded b s) (take_expected findLocalByRef (record_item b) seen ref items t)"
proof -
  obtain t' where "record_item b \<lparr>li_status = missing_on_nomba, li_ref = ref, li_customerId = Option.bind (local_record_of ref s) lr_customerId,
      li_nombaAmount = None, li_localAmount = map_option lr_amount (local_record_of ref s), li_difference = None\<rparr> t = (Inr (), t')"
    "recorded b s (items @ [\<lparr>li_status = missing_on_nomba, li_ref = ref, li_customerId = Option.bind (local_record_of ref s) lr_customerId,
      li_nombaAmount = None, li_localAmount = map_option lr_amount (local_record_of ref s), li_difference = None\<rparr>]) t'"
    using record_item_step[OF assms] by blast
  then show ?thesis
    using assms by (simp add: take_expected_def Let_def bnd_findLocalByRef[OF assms] bnd_run)
qed

lemma take_expected_covers:
  assumes "fold_op (take_expected find_local note_item seen) refs items t = (Inr items', t')"
  shows "set items \<subseteq> set items' \<and> set refs \<subseteq> set seen \<union> li_ref ` set items'"
  using assms
proof (induction refs arbitrary: items t)
  case Nil
  then show ?case by (simp add: ret_def)
next
  case (Cons ref refs)
  obtain items1 t1 where step: "take_expected find_local note_item seen ref items t = (Inr items1, t1)"
    "fold_op (take_expected find_local note_item seen) refs items1 t1 = (Inr items', t')"
    using Cons.prems by (auto simp: bnd_Inr_iff)
  have "set items \<subseteq> set items1 \<and> (ref \<in> set seen \<or> ref \<in> li_ref ` set items1)"
    using step(1) by (auto simp: take_expected_def bnd_Inr_iff Let_def ret_def split: if_splits)
  then show ?case using Cons.IH[OF step(2)] by auto
qed

lemma add_to_customer_reads: "preserves (\<lambda>t. t = s) (add_to_customer item groups)"
  by (induction item groups rule: add_to_customer.induct)
    (auto intro!: preserves_intros simp: add_totals_def kobo_or_zero_def)

lemma buildReport_ok:
  "outcome (\<lambda>r t. t = s \<and> rp_lineItems r = items \<and> (all_matched r \<longleftrightarrow> (\<forall>i \<in> set items. li_status i = matched))) (\<lambda>t. t = s)
     (buildReport items s)"
proof -
  have counts: "(count_status overpaid items = 0 \<and> count_status underpaid items = 0 \<and> count_status orphan items = 0 \<and>
      count_status missing_on_nomba items = 0) \<longleftrightarrow> (\<forall>i \<in> set items. li_status i = matched)"
    by (auto simp: count_status_def filter_empty_conv) (metis reconciliation_status.exhaust)
  have "preserves (\<lambda>t. t = s) (fold_op add_to_customer items [])"
    by (auto intro!: preserves_intros add_to_customer_reads)
  then have "outcome (\<lambda>_ t. t = s) (\<lambda>t. t = s) (fold_op add_to_customer items [] s)"
    unfolding preserves_def by (cases "fst (fold_op add_to_customer items [] s)") (auto simp: outcome_def split: prod.split)
  then show ?thesis
    unfolding buildReport_def by (rule outcome_bnd) (use counts in \<open>simp add: all_matched_def\<close>)
qed

section \<open>A run\<close>

text \<open>The batch row a run inserts.\<close>

definition opened :: "time \<Rightarrow> time \<Rightarrow> db \<Rightarrow> settlement_batch" where
  "opened dateFrom dateTo s =
     \<lparr>sb_id = fresh_id (map sb_id (settlementBatches s)),
      sb_batchReference = ''nomba_'' @ toISOString dateFrom @ ''_'' @ toISOString dateTo,
      sb_periodStart = dateFrom, sb_periodEnd = dateTo,
      sb_expectedAmount = (\<Sum>t\<leftarrow>expected_transactions dateFrom dateTo s. tx_amount t), sb_reportedAmount = None,
      sb_status = sb_open\<rparr>"

definition with_batch :: "time \<Rightarrow> time \<Rightarrow> db \<Rightarrow> db" where
  "with_batch dateFrom dateTo s = s\<lparr>settlementBatches := settlementBatches s @ [opened dateFrom dateTo s]\<rparr>"

text \<open>Some line item was made of the transaction.\<close>

definition judged :: "db \<Rightarrow> nomba_transaction \<Rightarrow> line_item list \<Rightarrow> bool" where
  "judged s tx items \<longleftrightarrow> (\<exists>item \<in> set items.
     fst (buildLineItem (the (correlatingRef tx)) tx (local_record_of (the (correlatingRef tx)) s) s) = Inr item)"

lemma take_transaction_grows:
  "take_transaction find_local note_item tx (seen, items) t = (Inr (seen', items'), t') \<Longrightarrow> set items \<subseteq> set items'"
  by (auto simp: take_transaction_def bnd_Inr_iff Let_def ret_def split: if_splits)

lemma take_transaction_judges:
  assumes "progress_ok b s p t" and "truthy (correlatingRef tx)"
    and "take_transaction findLocalByRef (record_item b) tx p t = (Inr p', t')"
  shows "judged s tx (snd p')"
proof -
  obtain seen items where p: "p = (seen, items)" by fastforce
  have rec: "recorded b s items t" using assms(1) by (simp add: p progress_ok_def)
  let ?m = "buildLineItem (the (correlatingRef tx)) tx (local_record_of (the (correlatingRef tx)) s)"
  have same: "fst (?m u) = fst (?m t)" "snd (?m t) = t" for u
    using buildLineItem_run by (metis fst_conv, metis snd_conv)
  have "bnd ?m (\<lambda>item. seq (record_item b item) (ret (List.insert (the (correlatingRef tx)) seen, items @ [item]))) t = (Inr p', t')"
    using assms(2,3) by (simp add: take_transaction_def p Let_def bnd_findLocalByRef[OF rec])
  then obtain item u where item: "?m t = (Inr item, u)"
    "seq (record_item b item) (ret (List.insert (the (correlatingRef tx)) seen, items @ [item])) u = (Inr p', t')"
    unfolding bnd_Inr_iff[of ?m] by blast
  have "item \<in> set (snd p')" using item(2) by (auto simp: record_item_def ret_def)
  moreover have "fst (?m s) = Inr item" using same(1)[of s] item(1) by simp
  ultimately show ?thesis unfolding judged_def by blast
qed

lemma fold_judges:
  assumes "progress_ok b s p t" and "fold_op (take_transaction findLocalByRef (record_item b)) txs p t = (Inr p', t')"
    and "tx \<in> set txs" and "truthy (correlatingRef tx)"
  shows "judged s tx (snd p')"
proof -
  let ?body = "take_transaction findLocalByRef (record_item b)"
  obtain ys zs where txs: "txs = ys @ tx # zs" using assms(3) split_list by fast
  obtain p1 t1 p2 t2 where steps: "fold_op ?body ys p t = (Inr p1, t1)" "?body tx p1 t1 = (Inr p2, t2)"
    "fold_op ?body zs p2 t2 = (Inr p', t')"
    using assms(2) by (auto simp: txs fold_op_append bnd_Inr_iff)
  have ok1: "progress_ok b s p1 t1"
    by (rule outcome_Inr[where m = "fold_op ?body ys p", OF _ steps(1)], rule outcome_fold)
      (erule take_transaction_ok, rule assms(1))
  have "judged s tx (snd p2)" by (rule take_transaction_judges[OF ok1 assms(4) steps(2)])
  moreover have "set (snd p2) \<subseteq> set (snd p')" using steps(3)
  proof (induction zs arbitrary: p2 t2)
    case (Cons z zs)
    obtain p3 t3 where step: "?body z p2 t2 = (Inr p3, t3)" and rest: "fold_op ?body zs p3 t3 = (Inr p', t')"
      using Cons.prems unfolding fold_op.simps bnd_Inr_iff by blast
    have "set (snd p2) \<subseteq> set (snd p3)"
      using step take_transaction_grows[of _ _ z "fst p2" "snd p2" t2 "fst p3" "snd p3" t3] by simp
    then show ?case using Cons.IH[OF rest] by blast
  qed (simp add: ret_def)
  ultimately show ?thesis by (auto simp: judged_def)
qed

lemma loop_judges:
  assumes "progress_ok b s p t" and "reconcile_loop fetch (take_transaction findLocalByRef (record_item b)) None 0 p t = (Inr p', t')"
    and "pages_of fetch (Suc MAX_RECONCILE_PAGES) None = Inr pages" and "tx \<in> set (concat (map pg_results pages))"
    and "truthy (correlatingRef tx)"
  shows "judged s tx (snd p')"
proof -
  have "fold_op (take_transaction findLocalByRef (record_item b)) (concat (map pg_results pages)) p t = (Inr p', t')"
    using assms(2) unfolding loop_over_pages[OF assms(3), of 0, simplified]
    by (auto simp: bnd_Inr_iff ret_def throw_def split: if_splits)
  then show ?thesis using fold_judges[OF assms(1) _ assms(4,5)] by blast
qed

text \<open>What a finished run returns and leaves, and what an aborted one leaves.\<close>

definition reported_sum :: "line_item list \<Rightarrow> kobo" where
  "reported_sum items = (\<Sum>item\<leftarrow>items. case nombaNairaToKobo (li_nombaAmount item) of Some k \<Rightarrow> k | None \<Rightarrow> 0)"

definition finished :: "(string option \<Rightarrow> error + nomba_page) \<Rightarrow> time \<Rightarrow> time \<Rightarrow> db \<Rightarrow> settlement_batch option \<Rightarrow> db \<Rightarrow> bool" where
  "finished fetch dateFrom dateTo s r t \<longleftrightarrow> (\<exists>items news batch.
     batch = close_batch (reported_sum items) (\<forall>i \<in> set items. li_status i = matched) (opened dateFrom dateTo s) \<and> r = Some batch \<and>
     t = s\<lparr>settlementBatches := settlementBatches s @ [batch], reconciliationRecords := reconciliationRecords s @ news\<rparr> \<and>
     map shown news = map (finding (sb_id batch) s) items \<and>
     (\<forall>x \<in> set (expected_transactions dateFrom dateTo s). correlatingRefFor x s \<in> li_ref ` set items) \<and>
     (\<forall>pages. pages_of fetch (Suc MAX_RECONCILE_PAGES) None = Inr pages \<longrightarrow>
        (\<forall>tx \<in> set (concat (map pg_results pages)). truthy (correlatingRef tx) \<longrightarrow> judged s tx items)))"

definition aborted :: "time \<Rightarrow> time \<Rightarrow> db \<Rightarrow> db \<Rightarrow> bool" where
  "aborted dateFrom dateTo s t \<longleftrightarrow> (\<exists>items news.
     t = s\<lparr>settlementBatches := settlementBatches s @ [opened dateFrom dateTo s], reconciliationRecords := reconciliationRecords s @ news\<rparr> \<and>
     map shown news = map (finding (sb_id (opened dateFrom dateTo s)) s) items)"

lemma insert_batch_run:
  "insert_batch a z (\<Sum>t\<leftarrow>expected_transactions a z s. tx_amount t) s =
     (Inr (opened a z s), with_batch a z s)"
  by (simp add: insert_batch_def opened_def with_batch_def Let_def comp_def)

lemma run_outcome: "outcome (finished fetch a z s) (aborted a z s) (runForWindow fetch a z s)"
proof -
  let ?s1 = "with_batch a z s" and ?b = "sb_id (opened a z s)"
  let ?note = "record_item ?b" and ?refs = "map (\<lambda>t. correlatingRefFor t s) (expected_transactions a z s)"
  have same: "finding ?b ?s1 = finding ?b s" "local_record_of ref ?s1 = local_record_of ref s" for ref
    by (simp_all add: fun_eq_iff finding_def local_record_of_def with_batch_def findTransactionByRef_def split: option.split)
  have judged_same: "judged ?s1 = judged s"
    using buildLineItem_run[of _ _ _ ?s1 s] by (auto simp: fun_eq_iff judged_def same(2))
  have abort: "aborted a z s t" if "some_recorded ?b ?s1 t" for t
    using that unfolding some_recorded_def recorded_def aborted_def same by (auto simp: with_batch_def)
  have start: "progress_ok ?b ?s1 ([], []) ?s1" by (simp add: progress_ok_def recorded_start)
  have some: "some_recorded ?b ?s1 t" if "progress_ok ?b ?s1 p t" for p t
    using that by (auto simp: progress_ok_def some_recorded_def)
  let ?walk = "reconcile_loop fetch (take_transaction findLocalByRef ?note) None 0 ([], [])"
  let ?J = "\<lambda>p. \<forall>pages. pages_of fetch (Suc MAX_RECONCILE_PAGES) None = Inr pages \<longrightarrow>
    (\<forall>tx \<in> set (concat (map pg_results pages)). truthy (correlatingRef tx) \<longrightarrow> judged s tx p)"
  have "outcome (progress_ok ?b ?s1) (some_recorded ?b ?s1) (?walk ?s1)"
    by (rule outcome_loop[OF take_transaction_ok some start])
  moreover have "?J (snd p)" if "?walk ?s1 = (Inr p, t)" for p t
    using loop_judges[OF start that] unfolding judged_same by blast
  ultimately have walk: "outcome (\<lambda>p t. progress_ok ?b ?s1 p t \<and> ?J (snd p)) (some_recorded ?b ?s1) (?walk ?s1)"
    by (cases "?walk ?s1"; cases "fst (?walk ?s1)") simp_all
  let ?rest = "\<lambda>seen. fold_op (take_expected findLocalByRef ?note seen) ?refs"
  have rest: "outcome (\<lambda>items' t'. recorded ?b ?s1 items' t' \<and> set ?refs \<subseteq> li_ref ` set items' \<and> ?J items') (some_recorded ?b ?s1)
      (?rest (fst p) (snd p) t)" if "progress_ok ?b ?s1 p t \<and> ?J (snd p)" for p t
  proof -
    have "outcome (recorded ?b ?s1) (some_recorded ?b ?s1) (?rest (fst p) (snd p) t)"
      using that by (intro outcome_fold take_expected_ok) (auto simp: progress_ok_def)
    moreover have "set ?refs \<subseteq> li_ref ` set items' \<and> ?J items'" if "?rest (fst p) (snd p) t = (Inr items', t')" for items' t'
    proof -
      have grow: "set (snd p) \<subseteq> set items'" "set ?refs \<subseteq> set (fst p) \<union> li_ref ` set items'"
        using take_expected_covers[OF that] by blast+
      then have "set ?refs \<subseteq> li_ref ` set items'"
        using \<open>progress_ok ?b ?s1 p t \<and> ?J (snd p)\<close> unfolding progress_ok_def by blast
      moreover have "judged s tx items'" if "judged s tx (snd p)" for tx
        using that grow(1) by (auto simp: judged_def)
      ultimately show ?thesis using \<open>progress_ok ?b ?s1 p t \<and> ?J (snd p)\<close> by blast
    qed
    ultimately show ?thesis
      by (cases "?rest (fst p) (snd p) t"; cases "fst (?rest (fst p) (snd p) t)") simp_all
  qed
  define Done where "Done = (\<lambda>r t. recorded ?b ?s1 (rp_lineItems r) t \<and> set ?refs \<subseteq> li_ref ` set (rp_lineItems r) \<and>
    ?J (rp_lineItems r) \<and> (all_matched r \<longleftrightarrow> (\<forall>i \<in> set (rp_lineItems r). li_status i = matched)))"
  have report: "outcome Done (some_recorded ?b ?s1) (buildReport items t)"
    if "recorded ?b ?s1 items t \<and> set ?refs \<subseteq> li_ref ` set items \<and> ?J items" for items t
    using buildReport_ok[of t items] that
    by (cases "buildReport items t"; cases "fst (buildReport items t)") (auto simp: some_recorded_def Done_def)
  have reconciled: "outcome Done (some_recorded ?b ?s1) (reconcile fetch findLocalByRef (Some (ret ?refs)) ?note ?s1)"
    unfolding reconcile_def option.case bnd_ret
    by (rule outcome_bnd, rule walk, unfold split_beta, rule outcome_bnd, erule rest, erule report)
  have closed: "outcome (finished fetch a z s) (aborted a z s) (seq
      (modify (\<lambda>u. u\<lparr>settlementBatches := update_where (\<lambda>b. sb_id b = ?b) (close_batch (reported_total r) (all_matched r)) (settlementBatches u)\<rparr>))
      (gets (\<lambda>u. find (\<lambda>b. sb_id b = ?b) (settlementBatches u))) t)" if fin: "Done r t" for r t
  proof -
    have new: "?b \<notin> sb_id ` set (settlementBatches s)"
      using fresh_id_notin[of "map sb_id (settlementBatches s)"] by (simp add: opened_def)
    then have old: "update_where (\<lambda>b. sb_id b = ?b) f (settlementBatches s) = settlementBatches s"
      "find (\<lambda>b. sb_id b = ?b) (settlementBatches s) = None" for f
      by (auto intro!: update_where_none simp: find_None_iff) (metis image_eqI)+
    have b: "sb_id (close_batch k m x) = sb_id x" for k m x by (simp add: close_batch_def)
    obtain news where t: "t = ?s1\<lparr>reconciliationRecords := reconciliationRecords ?s1 @ news\<rparr>"
      "map shown news = map (finding ?b s) (rp_lineItems r)"
      using fin by (auto simp: Done_def recorded_def same)
    have facts: "set ?refs \<subseteq> li_ref ` set (rp_lineItems r)" "?J (rp_lineItems r)"
      "all_matched r = (\<forall>i \<in> set (rp_lineItems r). li_status i = matched)"
      using fin unfolding Done_def by blast+
    let ?batch = "close_batch (reported_total r) (all_matched r) (opened a z s)"
    have end_run: "seq (modify (\<lambda>u. u\<lparr>settlementBatches := update_where (\<lambda>b. sb_id b = ?b) (close_batch (reported_total r) (all_matched r)) (settlementBatches u)\<rparr>))
        (gets (\<lambda>u. find (\<lambda>b. sb_id b = ?b) (settlementBatches u))) t =
      (Inr (Some ?batch), s\<lparr>settlementBatches := settlementBatches s @ [?batch], reconciliationRecords := reconciliationRecords s @ news\<rparr>)"
      by (simp add: t(1) with_batch_def gets_def old find_append b)
    show ?thesis
      unfolding end_run outcome_simps finished_def
    proof (intro exI conjI)
      show "?batch = close_batch (reported_sum (rp_lineItems r)) (\<forall>i \<in> set (rp_lineItems r). li_status i = matched) (opened a z s)"
        by (simp only: facts(3) reported_total_def reported_sum_def)
    qed (use facts t(2) in \<open>auto simp: b\<close>)
  qed
  have "runForWindow fetch a z s = bnd (reconcile fetch findLocalByRef (Some (ret ?refs)) ?note) (\<lambda>r. seq
      (modify (\<lambda>u. u\<lparr>settlementBatches := update_where (\<lambda>b. sb_id b = ?b) (close_batch (reported_total r) (all_matched r)) (settlementBatches u)\<rparr>))
      (gets (\<lambda>u. find (\<lambda>b. sb_id b = ?b) (settlementBatches u)))) ?s1"
    by (simp add: runForWindow_def bnd_run[where m = "insert_batch a z (\<Sum>t\<leftarrow>expected_transactions a z s. tx_amount t)", OF insert_batch_run] comp_def)
  then show ?thesis
    by (simp only:) (rule outcome_bnd, rule outcome_weaken, rule reconciled, assumption, erule abort, erule closed)
qed

lemma finding_rows:
  assumes "map shown news = map (finding b s) items"
  shows "(\<forall>x \<in> set news. rr_status x = rr_matched) \<longleftrightarrow> (\<forall>i \<in> set items. li_status i = matched)"
    and "reported_sum items = (\<Sum>x\<leftarrow>news. case rr_externalAmount x of Some k \<Rightarrow> k | None \<Rightarrow> 0)"
    and "rr_externalReference ` set news = li_ref ` set items"
    and "\<forall>x \<in> set news. rr_settlementBatchId x = Some b"
proof -
  have rows: "map rr_status news = map (toRecordStatus \<circ> li_status) items" "map rr_externalReference news = map li_ref items"
    "map rr_externalAmount news = map (nombaNairaToKobo \<circ> li_nombaAmount) items"
    "map rr_settlementBatchId news = map (\<lambda>_. Some b) items"
    using arg_cong[OF assms, of "map (snd \<circ> snd \<circ> snd \<circ> snd \<circ> snd)"] arg_cong[OF assms, of "map (fst \<circ> snd \<circ> snd)"]
      arg_cong[OF assms, of "map (fst \<circ> snd \<circ> snd \<circ> snd \<circ> snd)"] arg_cong[OF assms, of "map fst"]
    by (simp_all add: comp_def shown_def finding_def)
  have m: "toRecordStatus st = rr_matched \<longleftrightarrow> st = matched" for st by (cases st) simp_all
  have "rr_status ` set news = (toRecordStatus \<circ> li_status) ` set items"
    using arg_cong[OF rows(1), of set] by simp
  then have "rr_status ` set news \<subseteq> {rr_matched} \<longleftrightarrow> (toRecordStatus \<circ> li_status) ` set items \<subseteq> {rr_matched}" by simp
  then show "(\<forall>x \<in> set news. rr_status x = rr_matched) \<longleftrightarrow> (\<forall>i \<in> set items. li_status i = matched)"
    by (simp add: image_subset_iff m)
  show "reported_sum items = (\<Sum>x\<leftarrow>news. case rr_externalAmount x of Some k \<Rightarrow> k | None \<Rightarrow> 0)"
    using arg_cong[OF rows(3), of "map (\<lambda>v. case v of Some k \<Rightarrow> k | None \<Rightarrow> 0)"]
    by (simp add: reported_sum_def comp_def)
  show "rr_externalReference ` set news = li_ref ` set items" using arg_cong[OF rows(2), of set] by simp
  show "\<forall>x \<in> set news. rr_settlementBatchId x = Some b"
    using arg_cong[OF rows(4), of set] by (auto simp: image_def set_eq_iff)
qed

text \<open>A reconciliation run only reports. A run that finishes changes nothing but its own new batch and the new
  findings; the batch is matched exactly when every finding is, and reports the sum of the amounts of its findings;
  every transaction expected in the window has a finding under its reference. A run that fails leaves its batch open.\<close>

lemma reconciliation_only_reports:
  "case runForWindow fetch a z s of
     (Inr r, t) \<Rightarrow> \<exists>batch news. r = Some batch \<and>
       t = s\<lparr>settlementBatches := settlementBatches s @ [batch], reconciliationRecords := reconciliationRecords s @ news\<rparr> \<and>
       sb_status batch = (if \<forall>x \<in> set news. rr_status x = rr_matched then sb_matched else sb_mismatched) \<and>
       sb_reportedAmount batch = Some (\<Sum>x\<leftarrow>news. case rr_externalAmount x of Some k \<Rightarrow> k | None \<Rightarrow> 0) \<and>
       (\<forall>x \<in> set news. rr_settlementBatchId x = Some (sb_id batch)) \<and>
       (\<forall>x \<in> set (expected_transactions a z s). \<exists>y \<in> set news. rr_externalReference y = correlatingRefFor x s)
   | (Inl e, t) \<Rightarrow> \<exists>batch news. sb_status batch = sb_open \<and>
       t = s\<lparr>settlementBatches := settlementBatches s @ [batch], reconciliationRecords := reconciliationRecords s @ news\<rparr>"
proof -
  have out: "outcome (finished fetch a z s) (aborted a z s) (runForWindow fetch a z s)" by (rule run_outcome)
  obtain v t where run: "runForWindow fetch a z s = (v, t)" by fastforce
  show ?thesis
  proof (cases v)
    case (Inl e)
    then have "aborted a z s t" using out run by simp
    moreover have "sb_status (opened a z s) = sb_open" by (simp add: opened_def)
    ultimately show ?thesis unfolding run Inl prod.case sum.case aborted_def by blast
  next
    case (Inr r)
    then have "finished fetch a z s r t" using out run by simp
    then obtain items news batch where f:
      "batch = close_batch (reported_sum items) (\<forall>i \<in> set items. li_status i = matched) (opened a z s)" "r = Some batch"
      "t = s\<lparr>settlementBatches := settlementBatches s @ [batch], reconciliationRecords := reconciliationRecords s @ news\<rparr>"
      "map shown news = map (finding (sb_id batch) s) items"
      "\<forall>x \<in> set (expected_transactions a z s). correlatingRefFor x s \<in> li_ref ` set items"
      unfolding finished_def by blast
    note rows = finding_rows[OF f(4)]
    show ?thesis
      unfolding run Inr prod.case sum.case
    proof (intro exI conjI)
      show "sb_status batch = (if \<forall>x \<in> set news. rr_status x = rr_matched then sb_matched else sb_mismatched)"
        unfolding rows(1) f(1) by (simp add: close_batch_def)
      show "sb_reportedAmount batch = Some (\<Sum>x\<leftarrow>news. case rr_externalAmount x of Some k \<Rightarrow> k | None \<Rightarrow> 0)"
        unfolding rows(2)[symmetric] f(1) by (simp add: close_batch_def)
      show "\<forall>x \<in> set (expected_transactions a z s). \<exists>y \<in> set news. rr_externalReference y = correlatingRefFor x s"
        using f(5) unfolding rows(3)[symmetric] by (metis imageE)
    qed (fact f(2) f(3) rows(4))+
  qed
qed

lemma overpaid_item:
  assumes "\<bar>paid\<bar> < 2 ^ 52" and "\<bar>owed\<bar> < 2 ^ 52" and "owed < paid" and "nt_amount tx = Some (number_of_kobo paid)"
    and "lr_amount l = number_of_kobo owed" and "fst (buildLineItem ref tx (Some l) s) = Inr item"
  shows "li_status item = overpaid \<and> li_ref item = ref"
  using assms(6) exact_number(1)[OF assms(1)] exact_number(1)[OF assms(2)] assms(3)
  by (auto simp: buildLineItem_def assms(4,5) Let_def ret_def)

text \<open>C25. A contribution paid the way the app asks for it is reported as a mismatch. Its ledger transaction is booked
  at the intended amount, the payment at Nomba carries the inbound fee on top; when that payment is in the window,
  the run records an amount mismatch under its reference and its batch is never matched.\<close>

theorem paid_contribution_is_a_mismatch:
  assumes run: "runForWindow fetch a z s = (Inr r, s')"
    and pages: "pages_of fetch (Suc MAX_RECONCILE_PAGES) None = Inr pages" "tx \<in> set (concat (map pg_results pages))"
    and ref: "correlatingRef tx = Some ref" "ref \<noteq> []" "findTransactionByRef ref s = Some t"
    and paid: "nt_amount tx = Some (number_of_kobo paid)" "tx_amount t + inboundFeeFor (tx_amount t) \<le> paid"
    and sizes: "0 \<le> tx_amount t" "paid < 2 ^ 52"
  shows "map_option sb_status r = Some sb_mismatched \<and>
    (\<exists>x \<in> set (reconciliationRecords s'). rr_externalReference x = ref \<and> rr_status x = rr_amount_mismatch)"
proof -
  have "finished fetch a z s r s'" using run_outcome[of fetch a z s] run by simp
  then obtain items news batch where f:
    "batch = close_batch (reported_sum items) (\<forall>i \<in> set items. li_status i = matched) (opened a z s)" "r = Some batch"
    "s' = s\<lparr>settlementBatches := settlementBatches s @ [batch], reconciliationRecords := reconciliationRecords s @ news\<rparr>"
    "map shown news = map (finding (sb_id batch) s) items"
    "\<forall>pages. pages_of fetch (Suc MAX_RECONCILE_PAGES) None = Inr pages \<longrightarrow>
        (\<forall>tx \<in> set (concat (map pg_results pages)). truthy (correlatingRef tx) \<longrightarrow> judged s tx items)"
    unfolding finished_def by blast
  have fee: "0 < inboundFeeFor (tx_amount t)"
    by (simp add: inboundFeeFor_def nombaInboundFeeFor_def Let_def fee_constants)
  have real: "truthy (correlatingRef tx)" using ref(1,2) by (simp add: truthy_def)
  have seen: "judged s tx items" using f(5)[rule_format, OF pages real] .
  obtain item where item: "item \<in> set items" "fst (buildLineItem ref tx (local_record_of ref s) s) = Inr item"
    using seen unfolding judged_def ref(1) option.sel by blast
  have over: "li_status item = overpaid \<and> li_ref item = ref"
    by (rule overpaid_item[OF _ _ _ paid(1) _ item(2)[unfolded local_record_of_def ref(3) option.map]])
      (use fee paid(2) sizes in auto)
  have "finding (sb_id batch) s item \<in> set (map shown news)" unfolding f(4) using item(1) by simp
  then obtain x where x: "x \<in> set news" "shown x = finding (sb_id batch) s item" by (metis imageE set_map)
  have "\<not> (\<forall>i \<in> set items. li_status i = matched)" using item(1) over by (metis reconciliation_status.distinct(1))
  then have "sb_status batch = sb_mismatched" unfolding f(1) by (simp add: close_batch_def)
  moreover have "rr_externalReference x = ref \<and> rr_status x = rr_amount_mismatch"
    using x(2) over by (simp add: shown_def finding_def)
  ultimately show ?thesis using x(1) unfolding f(2,3) by (simp add: Bex_def) blast
qed

definition day_tx :: transaction where
  "day_tx = \<lparr>tx_id = 1, tx_type = ty_contribution, tx_status = tx_completed, tx_reference = ''contribution_1'',
   tx_externalReference = None, tx_amount = 1000000, tx_metadata = None, tx_onSuccess = None, tx_completedAt = None, tx_createdAt = 5\<rparr>"

definition day_db :: db where
  "day_db = empty_db\<lparr>led := empty_ledger\<lparr>transactions := [day_tx]\<rparr>,
   contributions := [pending_contribution\<lparr>c_virtualAccountRef := ''va1'', c_transactionId := Some 1\<rparr>]\<rparr>"

definition day_payment :: nomba_transaction where
  "day_payment = \<lparr>nt_amount = Some (number_of_kobo 1012000), nt_merchantTxRef = None, nt_virtualAccountReference = Some ''va1''\<rparr>"

definition day_page :: "string option \<Rightarrow> error + nomba_page" where
  "day_page cursor = Inr \<lparr>pg_results = [day_payment], pg_cursor = None\<rparr>"

lemma day_found: "findTransactionByRef ''va1'' day_db = Some day_tx"
  by (simp add: findTransactionByRef_def day_db_def day_tx_def empty_db_def empty_ledger_def)
lemma day_run: "\<not> isl (fst (runForWindow day_page 0 10 day_db))"
proof -
  have e: "expected_transactions 0 10 day_db = [day_tx]" "correlatingRefFor day_tx day_db = ''va1''"
    by (simp_all add: expected_transactions_def day_db_def day_tx_def correlatingRefFor_def contribution_ref_def)
  have f: "findTransactionByRef ''va1'' (with_batch 0 10 day_db) = Some day_tx"
    using day_found by (simp add: with_batch_def findTransactionByRef_def split: option.splits)
  let ?item = "\<lparr>li_status = overpaid, li_ref = ''va1'', li_customerId = None,
    li_nombaAmount = nt_amount day_payment, li_localAmount = Some (number_of_kobo 1000000), li_difference = Some (number_of_kobo 12000)\<rparr>"
  have b: "buildLineItem ''va1'' day_payment (local_record_of ''va1'' day_db) = ret ?item"
    by (simp add: buildLineItem_def day_payment_def local_record_of_def day_found exact_number day_tx_def Let_def)
  have l: "findLocalByRef ''va1'' (with_batch 0 10 day_db) = (Inr (local_record_of ''va1'' day_db), with_batch 0 10 day_db)"
    by (simp add: findLocalByRef_def gets_def f local_record_of_def day_found)
  have c: "correlatingRef day_payment = Some ''va1''" by (simp add: correlatingRef_def day_payment_def truthy_def)
  have walk: "reconcile_loop day_page (take_transaction findLocalByRef (record_item (Suc 0))) None 0 ([], []) (with_batch 0 10 day_db) =
    (Inr ([''va1''], [?item]), snd (record_item (Suc 0) ?item (with_batch 0 10 day_db)))"
    apply (subst reconcile_loop.simps)
    apply (simp add: day_page_def take_transaction_def c Let_def bnd_assoc bnd_run[where m = "findLocalByRef ''va1''", OF l] b MAX_RECONCILE_PAGES_def truthy_def record_item_def)
    by (simp add: ret_def modify_def)
  have rep: "\<exists>r. buildReport [?item] = ret r"
    by (simp add: buildReport_def add_totals_def kobo_or_zero_def day_payment_def exact_number) (rule exI, rule refl)
  then obtain r where rep: "buildReport [?item] = ret r" by blast
  have id: "sb_id (opened 0 10 day_db) = Suc 0" by (simp add: opened_def day_db_def empty_db_def fresh_id_def)
  have ins: "insert_batch 0 10 1000000 day_db = (Inr (opened 0 10 day_db), with_batch 0 10 day_db)"
    using insert_batch_run[of 0 10 day_db] by (simp add: e day_tx_def)
  have "reconcile day_page findLocalByRef (Some (ret [''va1''])) (record_item (Suc 0)) (with_batch 0 10 day_db) =
    (Inr r, snd (record_item (Suc 0) ?item (with_batch 0 10 day_db)))"
    by (simp add: reconcile_def bnd_run[where m = "reconcile_loop _ _ _ _ _", OF walk] take_expected_def rep)
  then show ?thesis
    by (simp add: runForWindow_def e day_tx_def[THEN arg_cong[of _ _ tx_amount]] bnd_run[where m = "insert_batch 0 10 _", OF ins] id bnd_run[where m = "reconcile _ _ _ _"] gets_def)
qed

theorem paid_contribution_is_a_mismatch_witness:
  "\<exists>batch s'. runForWindow day_page 0 10 day_db = (Inr (Some batch), s') \<and> sb_status batch = sb_mismatched"
proof -
  obtain r s' where run: "runForWindow day_page 0 10 day_db = (Inr r, s')"
    using day_run by (cases "runForWindow day_page 0 10 day_db"; cases "fst (runForWindow day_page 0 10 day_db)") auto
  have pages: "pages_of day_page (Suc MAX_RECONCILE_PAGES) None = Inr [\<lparr>pg_results = [day_payment], pg_cursor = None\<rparr>]"
    by (simp add: pages_of.simps day_page_def truthy_def)
  have "map_option sb_status r = Some sb_mismatched"
    using paid_contribution_is_a_mismatch[OF run pages _ _ _ day_found, of day_payment 1012000]
    by (simp add: correlatingRef_def truthy_def day_payment_def day_tx_def inboundFeeFor_def nombaInboundFeeFor_nonneg fee_constants)
  then show ?thesis using run by auto
qed

lemma reconciliation_only_reports_witness:
  "\<exists>batch t. runForWindow day_page 0 10 day_db = (Inr (Some batch), t) \<and> settlementBatches t = [batch] \<and> led t = led day_db"
proof -
  obtain r s' where "runForWindow day_page 0 10 day_db = (Inr r, s')"
    using day_run by (cases "runForWindow day_page 0 10 day_db"; cases "fst (runForWindow day_page 0 10 day_db)") auto
  then show ?thesis
    using reconciliation_only_reports[where fetch = day_page and a = 0 and z = 10 and s = day_db] by (auto simp: day_db_def empty_db_def)
qed

end
