(* ===== verification/Pot_Config_Laws.thy ===== *)
theory Pot_Config_Laws
  imports Pot_Config
begin

text \<open>
  What a validated payout config is worth: the type the rest of the backend relies on when it fires a payout.
\<close>

lemma naira_amount_positive:
  assumes "nairaAmount t"
  shows "\<exists>k. nairaStringToKobo t = Inr k \<and> 0 < k"
proof -
  obtain n k1 k2 where t: "t = n @ [CHR ''.'', k1, k2]" "n \<noteq> []" "list_all is_digit n" "is_digit k1" "is_digit k2"
    using assms isValidNairaString_iff[of t] unfolding nairaAmount_def by blast
  have "nairaStringToKobo t = Inr (BigInt n * 100 + BigInt [k1, k2])"
    unfolding t(1) by (rule nairaStringToKobo_parts[OF t(3,2,4,5)])
  moreover have "0 < BigInt n * 100 + BigInt [k1, k2]"
  proof -
    have "list_ex (\<lambda>c. is_digit c \<and> c \<noteq> CHR ''0'') (n @ [CHR ''.'', k1, k2])" using assms unfolding nairaAmount_def t(1) by blast
    then have "(\<exists>c \<in> set n. c \<noteq> CHR ''0'') \<or> (\<exists>c \<in> set [k1, k2]. c \<noteq> CHR ''0'')"
      unfolding list_ex_iff by (auto simp: not_digit_dot)
    then have "parse_nat n \<noteq> 0 \<or> parse_nat [k1, k2] \<noteq> 0"
      using parse_nat_eq_0[OF t(3)] parse_nat_eq_0[of "[k1, k2]"] t(4,5) by auto
    then show ?thesis unfolding BigInt_def by linarith
  qed
  ultimately show ?thesis by blast
qed

text \<open>Amounts that parse to something positive, accounts that are there.\<close>

definition pays :: "string \<Rightarrow> kobo \<Rightarrow> bool" where
  "pays t least \<longleftrightarrow> (case nairaStringToKobo t of Inl _ \<Rightarrow> False | Inr k \<Rightarrow> least < k)"

fun usable_config :: "PayoutModeConfigPair \<Rightarrow> bool" where
  "usable_config (pair_target_based account bank date amount) \<longleftrightarrow>
     account \<noteq> [] \<and> bank \<noteq> [] \<and> (date \<noteq> None \<or> amount \<noteq> None) \<and> (case amount of None \<Rightarrow> True | Some t \<Rightarrow> pays t OUTBOUND_FEE)"
| "usable_config (pair_manual account bank) \<longleftrightarrow> (account = None) = (bank = None) \<and> account \<noteq> Some [] \<and> bank \<noteq> Some []"
| "usable_config (pair_recurring account bank amount days nextRunAt) \<longleftrightarrow> account \<noteq> [] \<and> bank \<noteq> [] \<and> pays amount 0 \<and> 1 \<le> days"
| "usable_config (pair_scheduled ordered legs) \<longleftrightarrow> legs \<noteq> [] \<and>
     list_all (\<lambda>l. sd_destinationAccount l \<noteq> [] \<and> sd_destinationBank l \<noteq> [] \<and> 0 \<le> sd_sequenceOrder l \<and> pays (sd_amount l) 0) legs"

lemma issue_simps:
  "field_required f v = [] \<longleftrightarrow> v \<noteq> None" "field_min1 f w = [] \<longleftrightarrow> w \<noteq> Some []"
  "at_least f n i = [] \<longleftrightarrow> (case i of None \<Rightarrow> True | Some k \<Rightarrow> n \<le> k)"
  "field_naira w = [] \<longleftrightarrow> (case w of None \<Rightarrow> True | Some t \<Rightarrow> nairaAmount t)" "refine b m = [] \<longleftrightarrow> b"
  by (auto simp: field_required_def field_min1_def at_least_def field_naira_def refine_def split: option.split)

lemma nairaAmount_pays: "nairaAmount t \<Longrightarrow> pays t 0"
  using naira_amount_positive[of t] by (auto simp: pays_def)

lemma leg_usable:
  assumes "scheduledLegSchema l = []"
  shows "sd_destinationAccount (scheduled_leg_data l) \<noteq> [] \<and> sd_destinationBank (scheduled_leg_data l) \<noteq> [] \<and>
    0 \<le> sd_sequenceOrder (scheduled_leg_data l) \<and> pays (sd_amount (scheduled_leg_data l)) 0"
  using assms by (auto simp: scheduledLegSchema_def destinationSchema_def issue_simps scheduled_leg_data_def nairaAmount_pays)

lemma target_schema:
  assumes "targetBasedPayoutConfigSchema c = Inr ([], pair)"
  shows "pair_mode pair = target_based \<and> usable_config pair"
proof -
  let ?shape = "destinationSchema (pi_destinationAccount c) (pi_destinationBank c) @ field_naira (pi_targetAmount c)"
  have shape: "\<not> aborted ?shape"
  proof
    assume "aborted ?shape"
    moreover from this have "?shape = []" using assms by (simp add: targetBasedPayoutConfigSchema_def Let_def)
    ultimately show False unfolding \<open>?shape = []\<close> by (simp add: aborted_def)
  qed
  show ?thesis
    using assms shape
    by (cases "pi_targetAmount c")
      (auto simp: targetBasedPayoutConfigSchema_def Let_def destinationSchema_def issue_simps pays_def split: sum.splits)
qed

text \<open>C30. Validation lets only usable payout rules through. A config it accepts is one of the mode it was asked for, and
  well typed: its accounts are given and not empty, its amounts parse to more than nothing (a target to more than the
  outbound fee), a target has a date or an amount, an interval is at least a day, a schedule has a leg.\<close>

theorem validated_config_is_usable:
  assumes "validatePayoutModeConfig zod_text mode config = Inr pair"
  shows "pair_mode pair = mode \<and> usable_config pair"
proof -
  have valid: "schema_for mode config = Inr ([], pair)"
    using assms by (auto simp: validatePayoutModeConfig_def split: sum.splits prod.splits if_splits)
  show ?thesis
  proof (cases mode)
    case target_based
    then show ?thesis using valid target_schema by simp
  next
    case manual
    then show ?thesis using valid by (auto simp: manualPayoutConfigSchema_def issue_simps)
  next
    case recurring
    then show ?thesis
      using valid by (auto simp: recurringPayoutConfigSchema_def destinationSchema_def issue_simps nairaAmount_pays)
  next
    case scheduled
    then show ?thesis
      using valid leg_usable
      by (auto simp: scheduledPayoutConfigSchema_def Let_def issue_simps list_all_iff split: if_splits option.splits)
  qed
qed

definition weekly_config :: payout_config_input where
  "weekly_config = \<lparr>pi_destinationAccount = Some ''0123456789'', pi_destinationBank = Some ''058'', pi_targetDate = None,
     pi_targetAmount = None, pi_amount = Some ''250.00'', pi_intervalDays = Some 7, pi_nextRunAt = Some 0, pi_ordered = None,
     pi_legs = None\<rparr>"

theorem validated_config_is_usable_witness:
  "\<exists>pair. validatePayoutModeConfig (\<lambda>_. []) recurring weekly_config = Inr pair \<and> usable_config pair"
proof -
  have "nairaAmount ''250.00''" by code_simp
  then have "validatePayoutModeConfig (\<lambda>_. []) recurring weekly_config = Inr (pair_recurring ''0123456789'' ''058'' ''250.00'' 7 0)"
    by (simp add: validatePayoutModeConfig_def recurringPayoutConfigSchema_def weekly_config_def destinationSchema_def
        field_required_def field_min1_def field_naira_def at_least_def)
  from validated_config_is_usable[OF this] this show ?thesis by blast
qed

end
