(* ===== verification/Nomba_Client.thy ===== *)
theory Nomba_Client
  imports Members Http_Errors Numbers
begin

text \<open>
  The HTTP side of \<open>integrations/nomba/nomba.client.ts\<close>: requests and how their failures are normalised, the access
  token with its refresh, the bank list with its cache (\<open>bank-store.ts\<close>), and the handlers of \<open>banks.controller.ts\<close>.
  What \<open>fetch\<close> answers is a function of the requests sent so far, \<open>Date.parse\<close>, \<open>encodeURIComponent\<close> and the
  encoding of \<open>URLSearchParams\<close> are parameters too. Bodies are the values given to \<open>JSON.stringify\<close>, answers the parsed JSON.
\<close>

section \<open>Requests\<close>

datatype http_method = GET | POST | DELETE

datatype http_body = no_body | json_body json | transfer_body transfer_params | account_body account_request

record http_request =
  rq_method :: http_method
  rq_path :: string
  rq_accountId :: string
  rq_bearer :: "json option option"
  rq_body :: http_body

text \<open>No answer (network, DNS, timeout), or a status with the body when it is JSON.\<close>

datatype http_answer = unreachable string | response nat "json option"

record cached_token =
  ct_accessToken :: "json option"
  ct_refreshToken :: "json option"
  ct_refreshAt :: "time option"

record client =
  cl_cachedToken :: "cached_token option"
  cl_banks :: "json option"
  cl_requests :: "http_request list"

text \<open>\<open>NombaClientConfig\<close> with the world around the client.\<close>

record nomba_world =
  nw_clientId :: string
  nw_clientSecret :: string
  nw_accountId :: string
  nw_subAccountId :: string
  nw_fetch :: "http_request list \<Rightarrow> http_request \<Rightarrow> http_answer"
  nw_now :: time
  nw_parseDate :: "json option \<Rightarrow> time option"
  nw_encode :: "string \<Rightarrow> string"
  nw_formEncode :: "string \<Rightarrow> string"

text \<open>A member of a JSON value; of two with the same key \<open>JSON.parse\<close> keeps the last.\<close>

fun json_field :: "string \<Rightarrow> json \<Rightarrow> json option" where
  "json_field key (JObj kvs) = map_of (rev kvs) key"
| "json_field key _ = None"

fun json_truthy :: "json \<Rightarrow> bool" where
  "json_truthy JNull = False"
| "json_truthy (JBool b) = b"
| "json_truthy (JNum n) = (n \<noteq> 0)"
| "json_truthy (JStr t) = (t \<noteq> [])"
| "json_truthy (JArr _) = True"
| "json_truthy (JObj _) = True"

text \<open>\<open>String(value)\<close>\<close>

fun json_text :: "json \<Rightarrow> string" where
  "json_text JNull = ''null''"
| "json_text (JBool b) = (if b then ''true'' else ''false'')"
| "json_text (JNum n) = show_int n"
| "json_text (JStr t) = t"
| "json_text (JArr xs) = join_comma (map (\<lambda>x. case x of JNull \<Rightarrow> [] | _ \<Rightarrow> json_text x) xs)"
| "json_text (JObj _) = ''[object Object]''"

definition first_truthy :: "json option \<Rightarrow> json option" where
  "first_truthy v = (case v of Some j \<Rightarrow> if json_truthy j then Some j else None | None \<Rightarrow> None)"

text \<open>\<open>json?.description || json?.message || `Request failed (${status})`\<close>\<close>

definition failure_text :: "nat \<Rightarrow> json \<Rightarrow> string" where
  "failure_text status j =
     (case first_truthy (json_field ''description'' j) of
        Some d \<Rightarrow> json_text d
      | None \<Rightarrow> (case first_truthy (json_field ''message'' j) of
          Some m \<Rightarrow> json_text m
        | None \<Rightarrow> ''Request failed ('' @ show_nat status @ '')''))"

text \<open>\<open>json.data ?? json\<close>\<close>

definition unwrap_data :: "json \<Rightarrow> (client, json) op" where
  "unwrap_data j =
     (if j = JNull then throw (PlainError ''Cannot read properties of null (reading 'data')'')
      else case json_field ''data'' j of None \<Rightarrow> ret j | Some d \<Rightarrow> if d = JNull then ret j else ret d)"

definition needs_auth :: "string \<Rightarrow> bool" where
  "needs_auth path \<longleftrightarrow> take 9 path \<noteq> ''/v1/auth/''"

fun error_message :: "error \<Rightarrow> string" where
  "error_message (PlainError m) = m"
| "error_message (NombaApiError m _) = m"
| "error_message _ = []"

definition normalise :: "error \<Rightarrow> error" where
  "normalise e = (if is_NombaApiError e then e else NombaApiError (''Nomba API request failed: '' @ error_message e) 0)"

definition fetch_op :: "nomba_world \<Rightarrow> http_request \<Rightarrow> (client, http_answer) op" where
  "fetch_op w rq c = (Inr (nw_fetch w (cl_requests c) rq), c\<lparr>cl_requests := cl_requests c @ [rq]\<rparr>)"

text \<open>\<open>request\<close>, given how a bearer token is obtained. A body that is not JSON reads as \<open>{}\<close>; 2xx is \<open>ok\<close>.\<close>

definition request_with :: "(client, json option) op \<Rightarrow> nomba_world \<Rightarrow> http_method \<Rightarrow> string \<Rightarrow> http_body \<Rightarrow> (client, json) op" where
  "request_with bearer w meth path body =
     catch_op
       (bnd (if needs_auth path then bnd bearer (\<lambda>t. ret (Some t)) else ret None) (\<lambda>auth.
        bnd (fetch_op w \<lparr>rq_method = meth, rq_path = path, rq_accountId = nw_accountId w, rq_bearer = auth, rq_body = body\<rparr>) (\<lambda>answer.
        case answer of
          unreachable m \<Rightarrow> throw (PlainError m)
        | response status content \<Rightarrow>
            let j = (case content of None \<Rightarrow> JObj [] | Some v \<Rightarrow> v) in
            if \<not> (200 \<le> status \<and> status < 300) \<and> status \<noteq> 201
            then throw (NombaApiError (failure_text status j) (int status))
            else unwrap_data j)))
       (\<lambda>e. throw (normalise e))"

section \<open>The access token\<close>

text \<open>The token endpoints need no token.\<close>

definition post_auth :: "nomba_world \<Rightarrow> string \<Rightarrow> json \<Rightarrow> (client, json) op" where
  "post_auth w path body = request_with (throw (PlainError ''unauthenticated'')) w POST path (json_body body)"

definition json_fields :: "(string \<times> json option) list \<Rightarrow> json" where
  "json_fields kvs = JObj (concat (map (\<lambda>(k, v). case v of None \<Rightarrow> [] | Some j \<Rightarrow> [(k, j)]) kvs))"

definition issue_token :: "nomba_world \<Rightarrow> (client, json) op" where
  "issue_token w = post_auth w ''/v1/auth/token/issue''
     (JObj [(''grant_type'', JStr ''client_credentials''), (''client_id'', JStr (nw_clientId w)), (''client_secret'', JStr (nw_clientSecret w))])"

definition refresh_token :: "nomba_world \<Rightarrow> cached_token \<Rightarrow> (client, json) op" where
  "refresh_token w t = post_auth w ''/v1/auth/token/refresh''
     (json_fields [(''grant_type'', Some (JStr ''refresh_token'')), (''refresh_token'', ct_refreshToken t)])"

definition token_of :: "nomba_world \<Rightarrow> json \<Rightarrow> cached_token" where
  "token_of w data = \<lparr>ct_accessToken = json_field ''access_token'' data, ct_refreshToken = json_field ''refresh_token'' data,
     ct_refreshAt = map_option (\<lambda>t. t - 5 * 60 * 1000) (nw_parseDate w (json_field ''expiresAt'' data))\<rparr>"

definition fetchNewToken :: "nomba_world \<Rightarrow> (client, cached_token) op" where
  "fetchNewToken w =
     bnd (gets cl_cachedToken) (\<lambda>cached.
     bnd (case cached of
            Some t \<Rightarrow> catch_op (refresh_token w t) (\<lambda>_. issue_token w)
          | None \<Rightarrow> issue_token w) (\<lambda>data.
     seq (modify (\<lambda>c. c\<lparr>cl_cachedToken := Some (token_of w data)\<rparr>)) (ret (token_of w data))))"

text \<open>A missing or malformed expiry compares as never valid.\<close>

definition valid_at :: "time \<Rightarrow> cached_token \<Rightarrow> bool" where
  "valid_at now t = (case ct_refreshAt t of None \<Rightarrow> False | Some r \<Rightarrow> now < r)"

abbreviation still_valid :: "nomba_world \<Rightarrow> cached_token \<Rightarrow> bool" where
  "still_valid w t \<equiv> valid_at (nw_now w) t"

definition getAccessToken :: "nomba_world \<Rightarrow> (client, json option) op" where
  "getAccessToken w =
     bnd (gets cl_cachedToken) (\<lambda>cached.
     case cached of
       Some t \<Rightarrow> if still_valid w t then ret (ct_accessToken t) else bnd (fetchNewToken w) (\<lambda>t. ret (ct_accessToken t))
     | None \<Rightarrow> bnd (fetchNewToken w) (\<lambda>t. ret (ct_accessToken t)))"

definition nomba_request :: "nomba_world \<Rightarrow> http_method \<Rightarrow> string \<Rightarrow> http_body \<Rightarrow> (client, json) op" where
  "nomba_request w = request_with (getAccessToken w) w"

definition get_op :: "nomba_world \<Rightarrow> string \<Rightarrow> (client, json) op" where
  "get_op w path = nomba_request w GET path no_body"

definition post_op :: "nomba_world \<Rightarrow> string \<Rightarrow> http_body \<Rightarrow> (client, json) op" where
  "post_op w path body = nomba_request w POST path body"

definition del_op :: "nomba_world \<Rightarrow> string \<Rightarrow> (client, json) op" where
  "del_op w path = nomba_request w DELETE path no_body"

section \<open>The endpoints\<close>

definition nomba_lookupBankAccount :: "nomba_world \<Rightarrow> string \<Rightarrow> string \<Rightarrow> (client, json) op" where
  "nomba_lookupBankAccount w accountNumber bankCode =
     post_op w ''/v1/transfers/bank/lookup'' (json_body (JObj [(''accountNumber'', JStr accountNumber), (''bankCode'', JStr bankCode)]))"

definition nomba_transferToBankAccount :: "nomba_world \<Rightarrow> transfer_params \<Rightarrow> (client, json) op" where
  "nomba_transferToBankAccount w params =
     post_op w (''/v2/transfers/bank/'' @ nw_encode w (nw_subAccountId w)) (transfer_body params)"

definition nomba_createVirtualAccount :: "nomba_world \<Rightarrow> account_request \<Rightarrow> (client, json) op" where
  "nomba_createVirtualAccount w params =
     post_op w (''/v1/accounts/virtual/'' @ nw_encode w (nw_subAccountId w)) (account_body params)"

definition nomba_expireVirtualAccount :: "nomba_world \<Rightarrow> string \<Rightarrow> (client, json) op" where
  "nomba_expireVirtualAccount w accountRef = del_op w (''/v1/accounts/virtual/'' @ nw_encode w accountRef)"

text \<open>\<open>URLSearchParams\<close>, on the keys and values the code sets.\<close>

definition query_text :: "nomba_world \<Rightarrow> (string \<times> string) list \<Rightarrow> string" where
  "query_text w kvs = join_with ''&'' (map (\<lambda>(k, v). k @ ''='' @ nw_formEncode w v) kvs)"

definition nomba_fetchTransactions :: "nomba_world \<Rightarrow> string \<Rightarrow> string \<Rightarrow> string option \<Rightarrow> string option \<Rightarrow> (client, json) op" where
  "nomba_fetchTransactions w dateFrom dateTo status cursor =
     post_op w (''/v1/transactions/accounts/'' @ nw_encode w (nw_subAccountId w) @ ''?'' @
         query_text w ([(''dateFrom'', dateFrom), (''dateTo'', dateTo)] @ (if truthy cursor then [(''cursor'', the cursor)] else [])))
       (json_body (if truthy status then JObj [(''status'', JStr (the status))] else JObj []))"

text \<open>\<open>evaluatePayment\<close>\<close>

datatype payment_verdict = pv_exact | pv_overpaid | pv_underpaid | pv_unknown_expectation

definition evaluatePayment :: "rat \<Rightarrow> rat option \<Rightarrow> payment_verdict" where
  "evaluatePayment amountReceived expectedAmount =
     (case expectedAmount of
        None \<Rightarrow> pv_unknown_expectation
      | Some e \<Rightarrow> if amountReceived = e then pv_exact else if e < amountReceived then pv_overpaid else pv_underpaid)"

section \<open>The bank list\<close>

definition fetchAndCacheBankCodes :: "nomba_world \<Rightarrow> (client, json) op" where
  "fetchAndCacheBankCodes w =
     bnd (get_op w ''/v1/transfers/banks'') (\<lambda>banks. seq (modify (\<lambda>c. c\<lparr>cl_banks := Some banks\<rparr>)) (ret banks))"

definition fetchBankCodes :: "nomba_world \<Rightarrow> (client, json) op" where
  "fetchBankCodes w =
     bnd (gets (\<lambda>c. first_truthy (cl_banks c))) (\<lambda>cached.
     case cached of Some banks \<Rightarrow> ret banks | None \<Rightarrow> fetchAndCacheBankCodes w)"

definition refreshBankCodes :: "nomba_world \<Rightarrow> (client, json) op" where
  "refreshBankCodes w = seq (modify (\<lambda>c. c\<lparr>cl_banks := None\<rparr>)) (fetchBankCodes w)"

section \<open>banks.controller.ts\<close>

text \<open>\<open>env.BANKS_REFRESH_ALLOWED_USER_IDS.split(",").map(trim).filter(Boolean)\<close>\<close>

fun split_comma :: "string \<Rightarrow> string list" where
  "split_comma [] = [[]]"
| "split_comma (c # cs) =
     (if c = CHR '','' then [] # split_comma cs else (case split_comma cs of p # ps \<Rightarrow> (c # p) # ps | [] \<Rightarrow> [[c]]))"

definition allowed_ids :: "string \<Rightarrow> string list" where
  "allowed_ids setting = filter (\<lambda>t. t \<noteq> []) (map js_trim (split_comma setting))"

definition allowed :: "string \<Rightarrow> uuid option \<Rightarrow> bool" where
  "allowed setting userId \<longleftrightarrow> (case userId of None \<Rightarrow> False | Some i \<Rightarrow> uuid_text i \<in> set (allowed_ids setting))"

definition listBanksHandler :: "nomba_world \<Rightarrow> (client, json http) op" where
  "listBanksHandler w = respond (bnd (fetchBankCodes w) (\<lambda>banks. ret (answered 200 (JObj [(''banks'', banks)]))))"

definition refreshBanksHandler :: "nomba_world \<Rightarrow> string \<Rightarrow> uuid option \<Rightarrow> (client, json http) op" where
  "refreshBanksHandler w setting userId =
     (if \<not> allowed setting userId then ret (refused 403 ''Not authorized to refresh the bank list'' None)
      else respond (bnd (refreshBankCodes w) (\<lambda>banks. ret (answered 200 (JObj [(''banks'', banks)])))))"

definition lookupBankAccountHandler :: "env \<Rightarrow> string \<Rightarrow> string \<Rightarrow> (db, (string \<times> string \<times> string) http) op" where
  "lookupBankAccountHandler w accountNumber bankCode =
     respond (bnd (verifyAccountDetails w accountNumber bankCode) (\<lambda>accountName.
       ret (answered 200 (accountNumber, bankCode, accountName))))"

section \<open>What callers can rely on\<close>

text \<open>Whatever goes wrong inside a request, its error is a \<open>NombaApiError\<close>.\<close>

lemma request_errors_normalised: "request_with bearer w meth path body c = (Inl e, c') \<Longrightarrow> is_NombaApiError e"
  by (auto simp: request_with_def catch_op_def throw_def normalise_def is_NombaApiError_def split: prod.splits sum.splits if_splits error.splits)

text \<open>A valid cached token is used as it is, without a request.\<close>

lemma cached_token_used:
  "cl_cachedToken c = Some t \<Longrightarrow> still_valid w t \<Longrightarrow> getAccessToken w c = (Inr (ct_accessToken t), c)"
  by (simp add: getAccessToken_def gets_def bnd_def ret_def)

text \<open>A refresh that fails falls back to the credentials, whatever the failure.\<close>

lemma failed_refresh_logs_in:
  assumes "cl_cachedToken c = Some t" and "refresh_token w t c = (Inl e, c1)" and "issue_token w c1 = (Inr data, c2)"
  shows "fetchNewToken w c = (Inr (token_of w data), c2\<lparr>cl_cachedToken := Some (token_of w data)\<rparr>)"
  using assms by (simp add: fetchNewToken_def gets_def bnd_def catch_op_def modify_def ret_def)

text \<open>A bank list that could not be fetched again is gone: the cache was cleared first.\<close>

lemma refresh_clears_banks:
  assumes "get_op w ''/v1/transfers/banks'' (c\<lparr>cl_banks := None\<rparr>) = (Inl e, c1)"
  shows "refreshBankCodes w c = (Inl e, c1)"
  using assms
  by (simp add: refreshBankCodes_def fetchBankCodes_def fetchAndCacheBankCodes_def first_truthy_def bnd_def gets_def modify_def)

end
