(* ===== verification/Token_Flight.thy ===== *)
theory Token_Flight
  imports Nomba_Client
begin

text \<open>
  \<open>getAccessToken\<close> under concurrency: callers that find no valid token share one request. Between two steps of a
  caller anything may run; a step is a synchronous piece of the code, from one \<open>await\<close> to the next. Callers have
  numbers, one for each call.
\<close>

section \<open>Steps\<close>

record flights =
  fg_cachedToken :: "cached_token option"
  fg_inFlight :: bool
  fg_waiting :: "nat list"
  fg_answers :: "(nat \<times> (error + json option)) list"
  fg_started :: nat
  fg_settled :: nat

definition no_flights :: flights where
  "no_flights = \<lparr>fg_cachedToken = None, fg_inFlight = False, fg_waiting = [], fg_answers = [], fg_started = 0, fg_settled = 0\<rparr>"

definition usable :: "time \<Rightarrow> flights \<Rightarrow> bool" where
  "usable now f \<longleftrightarrow> (case fg_cachedToken f of None \<Rightarrow> False | Some t \<Rightarrow> valid_at now t)"

definition new_caller :: "nat \<Rightarrow> flights \<Rightarrow> bool" where
  "new_caller c f \<longleftrightarrow> c \<notin> set (fg_waiting f) \<union> fst ` set (fg_answers f)"

text \<open>\<open>.finally\<close> clears the request in flight whether it brought a token or an error.\<close>

definition settle :: "error + cached_token \<Rightarrow> flights \<Rightarrow> flights" where
  "settle r f = f\<lparr>fg_cachedToken := (case r of Inr t \<Rightarrow> Some t | Inl _ \<Rightarrow> fg_cachedToken f), fg_inFlight := False, fg_waiting := [],
     fg_answers := fg_answers f @ map (\<lambda>c. (c, map_sum id ct_accessToken r)) (fg_waiting f), fg_settled := fg_settled f + 1\<rparr>"

inductive flight_step :: "flights \<Rightarrow> flights \<Rightarrow> bool" where
  cached_answer: "new_caller c f \<Longrightarrow> fg_cachedToken f = Some t \<Longrightarrow> valid_at now t \<Longrightarrow>
    flight_step f (f\<lparr>fg_answers := fg_answers f @ [(c, Inr (ct_accessToken t))]\<rparr>)"
| join_request: "new_caller c f \<Longrightarrow> \<not> usable now f \<Longrightarrow> fg_inFlight f \<Longrightarrow>
    flight_step f (f\<lparr>fg_waiting := fg_waiting f @ [c]\<rparr>)"
| start_request: "new_caller c f \<Longrightarrow> \<not> usable now f \<Longrightarrow> \<not> fg_inFlight f \<Longrightarrow>
    flight_step f (f\<lparr>fg_waiting := fg_waiting f @ [c], fg_inFlight := True, fg_started := fg_started f + 1\<rparr>)"
| request_settles: "fg_inFlight f \<Longrightarrow> flight_step f (settle r f)"

inductive_cases flight_stepE: "flight_step f g"

inductive flights_reach :: "flights \<Rightarrow> bool" where
  start: "flights_reach no_flights"
| step: "flights_reach f \<Longrightarrow> flight_step f g \<Longrightarrow> flights_reach g"

section \<open>One request for all of them\<close>

definition shared :: "flights \<Rightarrow> bool" where
  "shared f \<longleftrightarrow> (fg_waiting f \<noteq> [] \<longleftrightarrow> fg_inFlight f) \<and> fg_started f = fg_settled f + (if fg_inFlight f then 1 else 0) \<and>
     distinct (fg_waiting f @ map fst (fg_answers f))"

lemma shared_start: "shared no_flights"
  by (simp add: shared_def no_flights_def)

lemma shared_step: "flight_step f g \<Longrightarrow> shared f \<Longrightarrow> shared g"
  by (induction rule: flight_step.induct) (auto simp: shared_def new_caller_def settle_def comp_def)

text \<open>However callers and answers interleave, at most one token request is in flight, somebody waits exactly while one
  is, and no caller is answered twice.\<close>

lemma token_request_shared: "flights_reach f \<Longrightarrow> shared f"
  by (induction rule: flights_reach.induct) (auto intro: shared_start shared_step)

text \<open>An answer that arrives reaches everybody who waits.\<close>

lemma settling_answers_everybody:
  assumes "flight_step f (settle r f)" and "c \<in> set (fg_waiting f)"
  shows "(c, map_sum id ct_accessToken r) \<in> set (fg_answers (settle r f))" and "fg_waiting (settle r f) = []"
  using assms by (simp_all add: settle_def)

end
