(* ===== verification/Failed_Jobs.thy ===== *)
theory Failed_Jobs
  imports Nomba_Client
begin

text \<open>
  Jobs that exhausted their attempts: \<open>modules/scheduler/failed-job-tracker.ts\<close> and the handlers of
  \<open>failed-jobs.controller.ts\<close>. BullMQ delivers the \<open>failed\<close> event and gives re-enqueued jobs ids of its own.
\<close>

section \<open>The tracker\<close>

text \<open>What \<open>queue.getJob\<close> returns.\<close>

record queue_job =
  qj_name :: string
  qj_data :: job_data
  qj_attemptsMade :: int

definition same_job :: "string \<Rightarrow> string \<Rightarrow> failed_job \<Rightarrow> bool" where
  "same_job queueName jobId r \<longleftrightarrow> fj_queueName r = queueName \<and> fj_jobId r = jobId"

text \<open>The \<open>failed\<close> event; \<open>onConflictDoNothing\<close> on the unique (queue, job).\<close>

definition on_failed :: "env \<Rightarrow> string \<Rightarrow> string \<Rightarrow> string \<Rightarrow> queue_job option \<Rightarrow> (db, unit) op" where
  "on_failed w queueName jobId failedReason job =
     (case job of
        None \<Rightarrow> ret ()
      | Some j \<Rightarrow> modify (\<lambda>s. if list_ex (same_job queueName jobId) (failedJobs s) then s
          else s\<lparr>failedJobs := failedJobs s @
            [\<lparr>fj_id = fresh_id (map fj_id (failedJobs s)), fj_queueName = queueName, fj_jobName = qj_name j, fj_jobId = jobId,
              fj_data = qj_data j, fj_failedReason = failedReason, fj_attemptsMade = qj_attemptsMade j, fj_status = fj_pending,
              fj_resolvedAt = None, fj_createdAt = e_now w\<rparr>]\<rparr>))"

text \<open>\<open>queue.add\<close> without a job id: a new job, whatever the queue holds.\<close>

fun requeue :: "env \<Rightarrow> string \<Rightarrow> job_data \<Rightarrow> (db, unit) op" where
  "requeue w jobName (transfer_data j) =
     (case e_enqueue w (job_reference j) of
        Some err \<Rightarrow> throw err
      | None \<Rightarrow> modify (\<lambda>s. s\<lparr>transfersQueue := transfersQueue s @ [j]\<rparr>))"
| "requeue w jobName (cron_data hoursBack) =
     (case e_enqueue w jobName of
        Some err \<Rightarrow> throw err
      | None \<Rightarrow> modify (\<lambda>s. s\<lparr>payoutCronQueue := payoutCronQueue s @ [(jobName, hoursBack)]\<rparr>))"

definition resolve_job :: "failed_job_status \<Rightarrow> time \<Rightarrow> failed_job \<Rightarrow> failed_job" where
  "resolve_job status now r = r\<lparr>fj_status := status, fj_resolvedAt := Some now\<rparr>"

definition update_failed :: "uuid \<Rightarrow> (failed_job \<Rightarrow> failed_job) \<Rightarrow> (db, unit) op" where
  "update_failed i f = modify (\<lambda>s. s\<lparr>failedJobs := update_where (\<lambda>r. fj_id r = i) f (failedJobs s)\<rparr>)"

definition pending_job :: "uuid \<Rightarrow> db \<Rightarrow> failed_job option" where
  "pending_job i s =
     (case find (\<lambda>r. fj_id r = i) (failedJobs s) of
        None \<Rightarrow> None
      | Some r \<Rightarrow> if fj_status r \<noteq> fj_pending then None else Some r)"

definition retry_job :: "env \<Rightarrow> uuid \<Rightarrow> (db, failed_job option) op" where
  "retry_job w failedJobRowId =
     bnd (gets (pending_job failedJobRowId)) (\<lambda>row.
     case row of
       None \<Rightarrow> ret None
     | Some r \<Rightarrow>
         seq (requeue w (fj_jobName r) (fj_data r))
         (seq (in_gap w)
         (seq (update_failed (fj_id r) (resolve_job fj_retried (e_now w))) (ret (Some r)))))"

definition ignore_job :: "env \<Rightarrow> uuid \<Rightarrow> (db, failed_job option) op" where
  "ignore_job w failedJobRowId =
     bnd (gets (pending_job failedJobRowId)) (\<lambda>row.
     case row of
       None \<Rightarrow> ret None
     | Some r \<Rightarrow>
         seq (update_failed (fj_id r) (resolve_job fj_ignored (e_now w)))
         (gets (\<lambda>s. find (\<lambda>x. fj_id x = fj_id r) (failedJobs s))))"

section \<open>The handlers\<close>

datatype failed_jobs_reply = failed_rows "failed_job list" | job_message string

definition assertAllowed :: "string \<Rightarrow> uuid option \<Rightarrow> (db, failed_jobs_reply http) op \<Rightarrow> (db, failed_jobs_reply http) op" where
  "assertAllowed setting userId m =
     (if \<not> allowed setting userId then ret (refused 403 ''Not authorized to manage failed jobs'' None) else m)"

definition listFailedJobsHandler :: "string \<Rightarrow> uuid option \<Rightarrow> (db, failed_jobs_reply http) op" where
  "listFailedJobsHandler setting userId = assertAllowed setting userId
     (respond (bnd (gets (\<lambda>s. rev (sort_key fj_createdAt (filter (\<lambda>r. fj_status r = fj_pending) (failedJobs s))))) (\<lambda>rows.
        ret (answered 200 (failed_rows rows)))))"

definition job_resolved :: "failed_jobs_reply http" where
  "job_resolved = refused 409 ''Failed job not found, or already resolved'' None"

definition retryFailedJobHandler :: "env \<Rightarrow> string \<Rightarrow> uuid option \<Rightarrow> uuid \<Rightarrow> (db, failed_jobs_reply http) op" where
  "retryFailedJobHandler w setting userId i = assertAllowed setting userId
     (respond (bnd (retry_job w i) (\<lambda>job. ret (case job of None \<Rightarrow> job_resolved | Some _ \<Rightarrow> answered 200 (job_message ''Job re-enqueued'')))))"

definition ignoreFailedJobHandler :: "env \<Rightarrow> string \<Rightarrow> uuid option \<Rightarrow> uuid \<Rightarrow> (db, failed_jobs_reply http) op" where
  "ignoreFailedJobHandler w setting userId i = assertAllowed setting userId
     (respond (bnd (ignore_job w i) (\<lambda>row. ret (case row of None \<Rightarrow> job_resolved | Some _ \<Rightarrow> answered 200 (job_message ''Job marked ignored'')))))"

section \<open>Resolved once\<close>

lemma resolved_gone:
  assumes "st \<noteq> fj_pending"
  shows "pending_job i (s\<lparr>failedJobs := update_where (\<lambda>r. fj_id r = i) (resolve_job st now) (failedJobs s)\<rparr>) = None"
proof -
  have "find (\<lambda>r. fj_id r = i) (update_where (\<lambda>r. fj_id r = i) (resolve_job st now) rows) =
      map_option (resolve_job st now) (find (\<lambda>r. fj_id r = i) rows)" for rows
    by (induction rows) (auto simp: resolve_job_def)
  then show ?thesis using assms by (simp add: pending_job_def resolve_job_def split: option.split)
qed

text \<open>Retrying a job that was retried or ignored re-enqueues nothing.\<close>

lemma retried_once:
  assumes "retry_job w i s = (Inr (Some r), t)" and "fj_id r = i"
  shows "retry_job w' i t = (Inr None, t)"
proof -
  obtain s1 where "t = s1\<lparr>failedJobs := update_where (\<lambda>r. fj_id r = i) (resolve_job fj_retried (e_now w)) (failedJobs s1)\<rparr>"
    using assms by (auto simp: retry_job_def bnd_Inr_iff gets_def update_failed_def modify_def ret_def split: option.splits)
  then have "pending_job i t = None" using resolved_gone[of fj_retried] by simp
  then show ?thesis by (simp add: retry_job_def gets_def bnd_def ret_def)
qed

text \<open>The status is checked before the job is added and set after: a second retry in between adds it again.\<close>

lemma concurrent_retries_both_enqueue:
  assumes "pending_job i s = Some r" and "fj_id r = i" and "fj_data r = transfer_data j" and "e_enqueue w (job_reference j) = None"
    and "e_gap quiet = id" and "e_enqueue quiet (job_reference j) = None" and "e_gap w = (\<lambda>u. snd (retry_job quiet i u))"
  shows "transfersQueue (snd (retry_job w i s)) = transfersQueue s @ [j, j]"
proof -
  have "pending_job i (s\<lparr>transfersQueue := q\<rparr>) = Some r" for q using assms(1) by (simp add: pending_job_def)
  then show ?thesis
    using assms by (simp add: retry_job_def gets_def bnd_def modify_def in_gap_def update_failed_def ret_def)
qed

end
