(* ===== verification/Auth_Routes.thy ===== *)
theory Auth_Routes
  imports Auth Nomba_Client
begin

text \<open>
  The HTTP surface of accounts and sessions: the routes of \<open>auth.route.ts\<close> and \<open>me.route.ts\<close> with the body schemas
  of \<open>auth.schema.ts\<close> and \<open>me.schema.ts\<close>, and the JSON of their answers. Fastify checks a body before it runs the
  \<open>authenticate\<close> hook, and the hook before the handler. How its validator reads a value where a string is expected,
  what it takes for an email address and the errors it reports are parameters. The rate limits of the routes are
  not hit, and \<open>/me/transactions\<close> is with the pots.
\<close>

record route_world =
  rt_coerce :: "json \<Rightarrow> string option"
  rt_email :: "string \<Rightarrow> bool"
  rt_errors :: "json option \<Rightarrow> ajv_error list"

section \<open>Bodies\<close>

definition text_field :: "route_world \<Rightarrow> (string \<Rightarrow> bool) \<Rightarrow> string \<Rightarrow> json \<Rightarrow> string option" where
  "text_field z ok key body =
     (case Option.bind (json_field key body) (rt_coerce z) of Some t \<Rightarrow> if ok t then Some t else None | None \<Rightarrow> None)"

definition email_field :: "route_world \<Rightarrow> json \<Rightarrow> string option" where
  "email_field z = text_field z (rt_email z) ''email''"

definition code_field :: "route_world \<Rightarrow> json \<Rightarrow> string option" where
  "code_field z = text_field z (\<lambda>t. length t = 6) ''code''"

definition long_enough :: "nat \<Rightarrow> string \<Rightarrow> bool" where
  "long_enough n t \<longleftrightarrow> 1 \<le> length t \<and> n \<le> length t"

definition phone_field :: "route_world \<Rightarrow> json \<Rightarrow> string option option" where
  "phone_field z body = (case json_field ''phone'' body of None \<Rightarrow> Some None | Some v \<Rightarrow> map_option Some (rt_coerce z v))"

definition registerSchema :: "route_world \<Rightarrow> json \<Rightarrow> register_input option" where
  "registerSchema z body =
     (case (text_field z (\<lambda>t. long_enough 1 t \<and> rt_email z t) ''email'' body, text_field z (long_enough 3) ''username'' body,
            text_field z (long_enough 8) ''password'' body, text_field z (long_enough 1) ''fullName'' body, phone_field z body) of
        (Some e, Some u, Some p, Some f, Some ph) \<Rightarrow>
          Some \<lparr>ri_email = e, ri_username = u, ri_password = p, ri_fullName = f, ri_phone = ph\<rparr>
      | _ \<Rightarrow> None)"

definition pair_of :: "'a option \<Rightarrow> 'b option \<Rightarrow> ('a \<times> 'b) option" where
  "pair_of x y = (case (x, y) of (Some a, Some b) \<Rightarrow> Some (a, b) | _ \<Rightarrow> None)"

definition verifyEmailSchema :: "route_world \<Rightarrow> json \<Rightarrow> (string \<times> string) option" where
  "verifyEmailSchema z body = pair_of (email_field z body) (code_field z body)"

definition purpose_of :: "string \<Rightarrow> otp_purpose option" where
  "purpose_of t = (if t = ''signup_verification'' then Some signup_verification else if t = ''login'' then Some login_purpose
     else if t = ''password_reset'' then Some password_reset else None)"

definition resendOtpSchema :: "route_world \<Rightarrow> json \<Rightarrow> (string \<times> otp_purpose) option" where
  "resendOtpSchema z body =
     pair_of (email_field z body) (Option.bind (text_field z (\<lambda>t. True) ''purpose'' body) purpose_of)"

definition loginSchema :: "route_world \<Rightarrow> json \<Rightarrow> (string \<times> string) option" where
  "loginSchema z body = pair_of (email_field z body) (text_field z (\<lambda>t. True) ''password'' body)"

definition verifyLoginOtpSchema :: "route_world \<Rightarrow> json \<Rightarrow> (string \<times> string) option" where
  "verifyLoginOtpSchema z body = pair_of (email_field z body) (code_field z body)"

definition refreshTokenSchema :: "route_world \<Rightarrow> json \<Rightarrow> string option" where
  "refreshTokenSchema z = text_field z (\<lambda>t. True) ''refreshToken''"

definition logoutSchema :: "route_world \<Rightarrow> json \<Rightarrow> string option" where
  "logoutSchema z = text_field z (\<lambda>t. True) ''refreshToken''"

definition forgotPasswordSchema :: "route_world \<Rightarrow> json \<Rightarrow> string option" where
  "forgotPasswordSchema z = email_field z"

definition resetPasswordSchema :: "route_world \<Rightarrow> json \<Rightarrow> (string \<times> string \<times> string) option" where
  "resetPasswordSchema z body =
     pair_of (email_field z body) (pair_of (code_field z body) (text_field z (long_enough 8) ''newPassword'' body))"

definition updateRefundProfileSchema :: "route_world \<Rightarrow> json \<Rightarrow> (string \<times> string) option" where
  "updateRefundProfileSchema z body =
     pair_of (text_field z (long_enough 1) ''accountNumber'' body) (text_field z (long_enough 1) ''bankCode'' body)"

section \<open>Routes\<close>

text \<open>\<open>schemaErrorFormatter\<close> and \<open>setErrorHandler\<close> of \<open>app.ts\<close>.\<close>

definition with_body :: "route_world \<Rightarrow> (json \<Rightarrow> 'b option) \<Rightarrow> json option \<Rightarrow> ('b \<Rightarrow> (db, 'a http) op) \<Rightarrow> (db, 'a http) op" where
  "with_body z schema body handler =
     (case Option.bind body schema of
        None \<Rightarrow> ret (refused 400 (formatSchemaErrors (rt_errors z body) ''body'') None)
      | Some input \<Rightarrow> handler input)"

definition authenticated :: "crypto \<Rightarrow> env \<Rightarrow> string option \<Rightarrow> (uuid \<Rightarrow> (db, 'a http) op) \<Rightarrow> (db, 'a http) op" where
  "authenticated k w bearer handler s =
     (case authenticate k w bearer s of Inl answer \<Rightarrow> (Inr answer, s) | Inr userId \<Rightarrow> handler userId s)"

definition not_found :: "'a http" where
  "not_found = refused 404 ''Route not found'' None"

definition authRoutes ::
  "route_world \<Rightarrow> crypto \<Rightarrow> env \<Rightarrow> string \<Rightarrow> json option \<Rightarrow> string option \<Rightarrow> (db, auth_reply http) op" where
  "authRoutes z k w path body bearer =
     (if path = ''/register'' then with_body z (registerSchema z) body (registerHandler k w)
      else if path = ''/verify-email'' then with_body z (verifyEmailSchema z) body (\<lambda>(email, code). verifyEmailHandler k w email code)
      else if path = ''/resend-otp'' then with_body z (resendOtpSchema z) body (\<lambda>(email, purpose). resendOtpHandler k w email purpose)
      else if path = ''/login'' then with_body z (loginSchema z) body (\<lambda>(email, password). loginHandler k w email password)
      else if path = ''/login/verify-otp'' then
        with_body z (verifyLoginOtpSchema z) body (\<lambda>(email, code). verifyLoginOtpHandler k w email code)
      else if path = ''/refresh'' then with_body z (refreshTokenSchema z) body (refreshHandler k w)
      else if path = ''/logout'' then with_body z (logoutSchema z) body (\<lambda>_. authenticated k w bearer logoutHandler)
      else if path = ''/forgot-password'' then with_body z (forgotPasswordSchema z) body (forgotPasswordHandler k w)
      else if path = ''/reset-password'' then
        with_body z (resetPasswordSchema z) body (\<lambda>(email, code, password). resetPasswordHandler k w email code password)
      else ret not_found)"

definition meRoutes ::
  "route_world \<Rightarrow> crypto \<Rightarrow> env \<Rightarrow> string \<Rightarrow> string \<Rightarrow> json option \<Rightarrow> string option \<Rightarrow> (db, auth_reply http) op" where
  "meRoutes z k w meth path body bearer =
     (if meth = ''GET'' \<and> path = '''' then authenticated k w bearer getMeHandler
      else if meth = ''PATCH'' \<and> path = ''/refund-profile'' then
        with_body z (updateRefundProfileSchema z) body
          (\<lambda>(accountNumber, bankCode). authenticated k w bearer (\<lambda>i. updateRefundProfileHandler w i accountNumber bankCode))
      else ret not_found)"

text \<open>The two tables under their prefixes; the query string is not part of the path.\<close>

definition backend_routes ::
  "route_world \<Rightarrow> crypto \<Rightarrow> env \<Rightarrow> string \<Rightarrow> string \<Rightarrow> json option \<Rightarrow> string option \<Rightarrow> (db, auth_reply http) op" where
  "backend_routes z k w meth url body bearer =
     (let path = takeWhile (\<lambda>c. c \<noteq> CHR ''?'') url in
      if meth = ''POST'' \<and> take 5 path = ''/auth'' then authRoutes z k w (drop 5 path) body bearer
      else if take 3 path = ''/me'' then meRoutes z k w meth (drop 3 path) body bearer
      else ret not_found)"

section \<open>Answers\<close>

definition text_or_null :: "string option \<Rightarrow> json" where
  "text_or_null v = (case v of None \<Rightarrow> JNull | Some t \<Rightarrow> JStr t)"

definition public_user_fields :: "public_user \<Rightarrow> (string \<times> json) list" where
  "public_user_fields p = [(''id'', JStr (uuid_text (pu_id p))), (''email'', JStr (pu_email p)),
     (''username'', JStr (pu_username p)), (''fullName'', JStr (pu_fullName p))]"

fun reply_json :: "auth_reply \<Rightarrow> json" where
  "reply_json (created_account userId email m) =
     JObj [(''userId'', JStr (uuid_text userId)), (''email'', JStr email), (''message'', JStr m)]"
| "reply_json (signed_in ((access, refreshToken), p)) =
     JObj [(''accessToken'', JStr access), (''refreshToken'', JStr refreshToken), (''user'', JObj (public_user_fields p))]"
| "reply_json (requires_otp userId m) =
     JObj [(''requiresOtp'', JBool True), (''userId'', JStr (uuid_text userId)), (''message'', JStr m)]"
| "reply_json (new_tokens (access, refreshToken)) = JObj [(''accessToken'', JStr access), (''refreshToken'', JStr refreshToken)]"
| "reply_json (said m) = JObj [(''message'', JStr m)]"
| "reply_json (my_profile p) = JObj (public_user_fields (pr_user p) @
     [(''phone'', text_or_null (pr_phone p)), (''defaultRefundAccount'', text_or_null (pr_defaultRefundAccount p)),
      (''defaultRefundBank'', text_or_null (pr_defaultRefundBank p))])"
| "reply_json (refund_profile (account, bank)) =
     JObj [(''defaultRefundAccount'', text_or_null account), (''defaultRefundBank'', text_or_null bank)]"

fun http_status :: "'a http \<Rightarrow> nat" where
  "http_status (answered c b) = c"
| "http_status (refused c m r) = c"

fun http_json :: "auth_reply http \<Rightarrow> json" where
  "http_json (answered c b) = reply_json b"
| "http_json (refused c m r) = JObj [(''message'', JStr m)]"

fun http_retry_after :: "'a http \<Rightarrow> int option" where
  "http_retry_after (answered c b) = None"
| "http_retry_after (refused c m r) = r"

end
