(* ===== verification/Pots_Routes.thy ===== *)
theory Pots_Routes
  imports Pots_Controller Auth_Routes "HOL-Library.Monad_Syntax"
begin

text \<open>
  The HTTP surface of the pots: the routes of \<open>pots.route.ts\<close> with the parameter, query and body schemas of
  \<open>pots.schema.ts\<close> as AJV enforces them (patterns, formats and required fields, without Zod's refinements; fields a schema
  does not name are removed). Fastify checks parameters, body and query before it runs the route's authentication hook,
  and the hook before the handler. How AJV coerces a value, its formats, the texts of its errors and \<open>JSON.stringify\<close> are
  parameters.
\<close>

record pots_world =
  pz_route :: route_world
  pz_uuid :: "string \<Rightarrow> uuid option"
  pz_int :: "json \<Rightarrow> int option"
  pz_bool :: "json \<Rightarrow> bool option"
  pz_time :: "string \<Rightarrow> time option"
  pz_stringify :: "json \<Rightarrow> string"
  pz_issue :: "zod_issue \<Rightarrow> string"
  pz_sha :: "string \<Rightarrow> string"
  pz_collate :: "string \<Rightarrow> string"
  pz_origin :: string
  pz_contribution :: "contribution \<times> string \<times> string \<Rightarrow> string"

record api_request =
  aq_method :: string
  aq_url :: string
  aq_path :: "string list"
  aq_query :: "(string \<times> string) list"
  aq_bearer :: "string option"
  aq_idempotencyKey :: "string option"
  aq_body :: "json option"

section \<open>Fields\<close>

text \<open>A field that must be there, and one that may be left out.\<close>

definition needed :: "(json \<Rightarrow> 'a option) \<Rightarrow> string \<Rightarrow> json \<Rightarrow> 'a option" where
  "needed get key j = Option.bind (json_field key j) get"

definition optional :: "(json \<Rightarrow> 'a option) \<Rightarrow> string \<Rightarrow> json \<Rightarrow> 'a option option" where
  "optional get key j = (case json_field key j of None \<Rightarrow> Some None | Some v \<Rightarrow> map_option Some (get v))"

definition checked_text :: "pots_world \<Rightarrow> (string \<Rightarrow> bool) \<Rightarrow> json \<Rightarrow> string option" where
  "checked_text z ok v = (case rt_coerce (pz_route z) v of Some t \<Rightarrow> if ok t then Some t else None | None \<Rightarrow> None)"

definition min1 :: "string \<Rightarrow> bool" where "min1 t \<longleftrightarrow> 1 \<le> length t"

definition text_value :: "pots_world \<Rightarrow> json \<Rightarrow> string option" where "text_value z = checked_text z (\<lambda>_. True)"
definition min1_value :: "pots_world \<Rightarrow> json \<Rightarrow> string option" where "min1_value z = checked_text z min1"
definition naira_value :: "pots_world \<Rightarrow> json \<Rightarrow> string option" where "naira_value z = checked_text z nairaAmount"

definition time_value :: "pots_world \<Rightarrow> json \<Rightarrow> time option" where
  "time_value z v = Option.bind (text_value z v) (pz_time z)"

definition int_from :: "pots_world \<Rightarrow> int \<Rightarrow> json \<Rightarrow> int option" where
  "int_from z least v = (case pz_int z v of Some n \<Rightarrow> if least \<le> n then Some n else None | None \<Rightarrow> None)"

definition enum_value :: "pots_world \<Rightarrow> (string \<times> 'a) list \<Rightarrow> json \<Rightarrow> 'a option" where
  "enum_value z table v = Option.bind (text_value z v) (map_of table)"

definition payoutModeValues :: "(string \<times> payout_mode) list" where
  "payoutModeValues = [(''target_based'', target_based), (''manual'', manual), (''recurring'', recurring), (''scheduled'', scheduled)]"
definition potTypeValues :: "(string \<times> pot_type) list" where
  "potTypeValues = [(''public'', public_pot), (''private'', private_pot)]"
definition refundTypeValues :: "(string \<times> refund_type) list" where
  "refundTypeValues = [(''admin'', refund_admin), (''contributors'', refund_contributors)]"
definition potMemberRoleValues :: "(string \<times> role) list" where
  "potMemberRoleValues = [(''admin'', role_admin), (''member'', role_member)]"

fun is_object :: "json \<Rightarrow> bool" where
  "is_object (JObj _) \<longleftrightarrow> True"
| "is_object _ \<longleftrightarrow> False"

fun all_options :: "'a option list \<Rightarrow> 'a list option" where
  "all_options [] = Some []"
| "all_options (v # vs) = (case (v, all_options vs) of (Some x, Some xs) \<Rightarrow> Some (x # xs) | _ \<Rightarrow> None)"

definition object_value :: "(json \<Rightarrow> 'a option) \<Rightarrow> json \<Rightarrow> 'a option" where
  "object_value get j = (if is_object j then get j else None)"

definition list_value :: "(json \<Rightarrow> 'a option) \<Rightarrow> json \<Rightarrow> 'a list option" where
  "list_value get j = (case j of JArr js \<Rightarrow> all_options (map get js) | _ \<Rightarrow> None)"

section \<open>The rule of a pot\<close>

definition blank_config :: payout_config_input where
  "blank_config = \<lparr>pi_destinationAccount = None, pi_destinationBank = None, pi_targetDate = None, pi_targetAmount = None,
     pi_amount = None, pi_intervalDays = None, pi_nextRunAt = None, pi_ordered = None, pi_legs = None\<rparr>"

definition leg_body :: "pots_world \<Rightarrow> json \<Rightarrow> leg_input option" where
  "leg_body z = object_value (\<lambda>j. do {
     account \<leftarrow> needed (min1_value z) ''destinationAccount'' j;
     bank \<leftarrow> needed (min1_value z) ''destinationBank'' j;
     order \<leftarrow> needed (int_from z 0) ''sequenceOrder'' j;
     amount \<leftarrow> needed (naira_value z) ''amount'' j;
     date \<leftarrow> needed (time_value z) ''scheduledDate'' j;
     Some \<lparr>li_destinationAccount = Some account, li_destinationBank = Some bank, li_sequenceOrder = Some order,
           li_amount = Some amount, li_scheduledDate = Some date\<rparr> })"

text \<open>The branch of \<open>createPotSchema\<close> that its discriminator selects.\<close>

fun mode_config :: "pots_world \<Rightarrow> payout_mode \<Rightarrow> json \<Rightarrow> payout_config_input option" where
  "mode_config z target_based j = do {
     account \<leftarrow> needed (min1_value z) ''destinationAccount'' j;
     bank \<leftarrow> needed (min1_value z) ''destinationBank'' j;
     date \<leftarrow> optional (time_value z) ''targetDate'' j;
     amount \<leftarrow> optional (naira_value z) ''targetAmount'' j;
     Some (blank_config\<lparr>pi_destinationAccount := Some account, pi_destinationBank := Some bank, pi_targetDate := date,
       pi_targetAmount := amount\<rparr>) }"
| "mode_config z manual j = do {
     account \<leftarrow> optional (min1_value z) ''destinationAccount'' j;
     bank \<leftarrow> optional (min1_value z) ''destinationBank'' j;
     Some (blank_config\<lparr>pi_destinationAccount := account, pi_destinationBank := bank\<rparr>) }"
| "mode_config z recurring j = do {
     account \<leftarrow> needed (min1_value z) ''destinationAccount'' j;
     bank \<leftarrow> needed (min1_value z) ''destinationBank'' j;
     amount \<leftarrow> needed (naira_value z) ''amount'' j;
     days \<leftarrow> needed (int_from z 1) ''intervalDays'' j;
     date \<leftarrow> needed (time_value z) ''nextRunAt'' j;
     Some (blank_config\<lparr>pi_destinationAccount := Some account, pi_destinationBank := Some bank, pi_amount := Some amount,
       pi_intervalDays := Some days, pi_nextRunAt := Some date\<rparr>) }"
| "mode_config z scheduled j = do {
     ordered \<leftarrow> optional (pz_bool z) ''ordered'' j;
     legs \<leftarrow> needed (list_value (leg_body z)) ''legs'' j;
     if 1 \<le> length legs then Some (blank_config\<lparr>pi_ordered := ordered, pi_legs := Some legs\<rparr>) else None }"

definition createPotSchema :: "pots_world \<Rightarrow> json \<Rightarrow> CreatePotInput option" where
  "createPotSchema z = object_value (\<lambda>j. do {
     title \<leftarrow> needed (min1_value z) ''title'' j;
     description \<leftarrow> optional (text_value z) ''description'' j;
     potType \<leftarrow> needed (enum_value z potTypeValues) ''potType'' j;
     refundType \<leftarrow> needed (enum_value z refundTypeValues) ''refundType'' j;
     minContribution \<leftarrow> optional (naira_value z) ''minContribution'' j;
     maxContribution \<leftarrow> optional (naira_value z) ''maxContribution'' j;
     goalAmount \<leftarrow> optional (naira_value z) ''goalAmount'' j;
     payoutMode \<leftarrow> needed (enum_value z payoutModeValues) ''payoutMode'' j;
     payoutConfig \<leftarrow> needed (object_value (mode_config z payoutMode)) ''payoutConfig'' j;
     Some \<lparr>np_title = title, np_description = description, np_potType = potType, np_payoutMode = payoutMode,
           np_payoutConfig = payoutConfig, np_refundType = refundType, np_minContribution = minContribution,
           np_maxContribution = maxContribution, np_goalAmount = goalAmount\<rparr> })"

text \<open>\<open>updatePotPayoutConfigSchema\<close>: every field optional, whatever the mode.\<close>

definition loose_leg :: "pots_world \<Rightarrow> json \<Rightarrow> leg_input option" where
  "loose_leg z = object_value (\<lambda>j. do {
     account \<leftarrow> optional (min1_value z) ''destinationAccount'' j;
     bank \<leftarrow> optional (min1_value z) ''destinationBank'' j;
     order \<leftarrow> optional (int_from z 0) ''sequenceOrder'' j;
     amount \<leftarrow> optional (naira_value z) ''amount'' j;
     date \<leftarrow> optional (time_value z) ''scheduledDate'' j;
     Some \<lparr>li_destinationAccount = account, li_destinationBank = bank, li_sequenceOrder = order,
           li_amount = amount, li_scheduledDate = date\<rparr> })"

definition updatePotPayoutConfigSchema :: "pots_world \<Rightarrow> json \<Rightarrow> payout_config_input option" where
  "updatePotPayoutConfigSchema z = object_value (\<lambda>j. do {
     account \<leftarrow> optional (min1_value z) ''destinationAccount'' j;
     bank \<leftarrow> optional (min1_value z) ''destinationBank'' j;
     targetDate \<leftarrow> optional (time_value z) ''targetDate'' j;
     targetAmount \<leftarrow> optional (naira_value z) ''targetAmount'' j;
     amount \<leftarrow> optional (naira_value z) ''amount'' j;
     days \<leftarrow> optional (int_from z 1) ''intervalDays'' j;
     date \<leftarrow> optional (time_value z) ''nextRunAt'' j;
     ordered \<leftarrow> optional (pz_bool z) ''ordered'' j;
     legs \<leftarrow> optional (list_value (loose_leg z)) ''legs'' j;
     Some \<lparr>pi_destinationAccount = account, pi_destinationBank = bank, pi_targetDate = targetDate, pi_targetAmount = targetAmount,
           pi_amount = amount, pi_intervalDays = days, pi_nextRunAt = date, pi_ordered = ordered, pi_legs = legs\<rparr> })"

definition updatePotSchema :: "pots_world \<Rightarrow> json \<Rightarrow> UpdatePotInput option" where
  "updatePotSchema z = object_value (\<lambda>j. do {
     title \<leftarrow> optional (min1_value z) ''title'' j;
     description \<leftarrow> optional (text_value z) ''description'' j;
     potType \<leftarrow> optional (enum_value z potTypeValues) ''potType'' j;
     refundType \<leftarrow> optional (enum_value z refundTypeValues) ''refundType'' j;
     minContribution \<leftarrow> optional (naira_value z) ''minContribution'' j;
     maxContribution \<leftarrow> optional (naira_value z) ''maxContribution'' j;
     goalAmount \<leftarrow> optional (naira_value z) ''goalAmount'' j;
     payoutMode \<leftarrow> optional (enum_value z payoutModeValues) ''payoutMode'' j;
     payoutConfig \<leftarrow> optional (updatePotPayoutConfigSchema z) ''payoutConfig'' j;
     Some \<lparr>up_title = title, up_description = description, up_potType = potType, up_refundType = refundType,
           up_minContribution = minContribution, up_maxContribution = maxContribution, up_goalAmount = goalAmount,
           up_payoutMode = payoutMode, up_payoutConfig = payoutConfig\<rparr> })"

section \<open>The other bodies\<close>

definition addMemberSchema :: "pots_world \<Rightarrow> json \<Rightarrow> AddMemberInput option" where
  "addMemberSchema z = object_value (\<lambda>j. do {
     email \<leftarrow> needed (checked_text z (rt_email (pz_route z))) ''email'' j;
     role \<leftarrow> optional (enum_value z potMemberRoleValues) ''role'' j;
     Some \<lparr>am_email = email, am_role = role\<rparr> })"

definition updateMemberRoleSchema :: "pots_world \<Rightarrow> json \<Rightarrow> role option" where
  "updateMemberRoleSchema z = object_value (needed (enum_value z potMemberRoleValues) ''role'')"

definition contributeSchema :: "pots_world \<Rightarrow> json \<Rightarrow> ContributeInput option" where
  "contributeSchema z = object_value (\<lambda>j. do {
     amount \<leftarrow> needed (naira_value z) ''amount'' j;
     anonymous \<leftarrow> optional (pz_bool z) ''anonymous'' j;
     account \<leftarrow> optional (min1_value z) ''refundAccountNumber'' j;
     bank \<leftarrow> optional (min1_value z) ''refundBankCode'' j;
     Some \<lparr>ci_amount = amount, ci_anonymous = anonymous, ci_refundAccountNumber = account, ci_refundBankCode = bank\<rparr> })"

text \<open>The bodies whose hash is taken keep the order of their fields.\<close>

definition object_keys :: "json \<Rightarrow> string list" where
  "object_keys j = (case j of JObj kvs \<Rightarrow> rev (remdups (rev (map fst kvs))) | _ \<Rightarrow> [])"

definition text_body :: "pots_world \<Rightarrow> (string \<times> (string \<Rightarrow> bool)) list \<Rightarrow> json \<Rightarrow> body option" where
  "text_body z checks = object_value (\<lambda>j. all_options (map
     (\<lambda>key. map_option (Pair key) (needed (checked_text z (the (map_of checks key))) key j))
     (filter (\<lambda>key. map_of checks key \<noteq> None) (object_keys j))))"

definition requestPayoutOtpSchema :: "pots_world \<Rightarrow> json \<Rightarrow> body option" where
  "requestPayoutOtpSchema z = text_body z [(''destinationAccount'', min1), (''destinationBank'', min1), (''amount'', nairaAmount)]"

definition triggerPayoutSchema :: "pots_world \<Rightarrow> json \<Rightarrow> body option" where
  "triggerPayoutSchema z j = do {
     b \<leftarrow> text_body z [(''destinationAccount'', min1), (''destinationBank'', min1), (''amount'', nairaAmount),
       (''otpCode'', \<lambda>t. length t = 6)] j;
     if body_field ''otpCode'' b \<noteq> None then Some b else None }"

definition triggerRefundSchema :: "pots_world \<Rightarrow> json \<Rightarrow> string option" where
  "triggerRefundSchema z = object_value (needed (checked_text z (\<lambda>t. length t = 6)) ''otpCode'')"

definition listPotsQuerySchema :: "(string \<times> string) list \<Rightarrow> (scope option \<times> string option) option" where
  "listPotsQuerySchema query =
     (case map_of (rev query) ''scope'' of
        None \<Rightarrow> Some (None, map_of (rev query) ''q'')
      | Some t \<Rightarrow> if t = ''public'' then Some (Some scope_public, map_of (rev query) ''q'')
          else if t = ''mine'' then Some (Some scope_mine, map_of (rev query) ''q'') else None)"

section \<open>The routes\<close>

datatype pot_route =
    route_create | route_list | route_get string | route_update string | route_delete string | route_activate string
  | route_close string | route_payout_otp string | route_payout string | route_refund_otp string | route_refund string
  | route_contribute string | route_transactions string | route_members string | route_add_member string
  | route_pending string | route_remove_pending string string | route_role string string | route_remove string string
  | route_leave string

definition route_of :: "string \<Rightarrow> string list \<Rightarrow> pot_route option" where
  "route_of meth path =
     (case path of
        [] \<Rightarrow> if meth = ''POST'' then Some route_create else if meth = ''GET'' then Some route_list else None
      | [i] \<Rightarrow> if meth = ''GET'' then Some (route_get i) else if meth = ''PATCH'' then Some (route_update i)
               else if meth = ''DELETE'' then Some (route_delete i) else None
      | [i, a] \<Rightarrow>
          if meth = ''POST'' then
            (if a = ''activate'' then Some (route_activate i) else if a = ''close'' then Some (route_close i)
             else if a = ''payout'' then Some (route_payout i) else if a = ''refund'' then Some (route_refund i)
             else if a = ''contributions'' then Some (route_contribute i) else if a = ''members'' then Some (route_add_member i)
             else if a = ''leave'' then Some (route_leave i) else None)
          else if meth = ''GET'' then
            (if a = ''transactions'' then Some (route_transactions i) else if a = ''members'' then Some (route_members i)
             else if a = ''pending-members'' then Some (route_pending i) else None)
          else None
      | [i, a, b] \<Rightarrow>
          if meth = ''POST'' \<and> a = ''payout'' \<and> b = ''otp'' then Some (route_payout_otp i)
          else if meth = ''POST'' \<and> a = ''refund'' \<and> b = ''otp'' then Some (route_refund_otp i)
          else if meth = ''DELETE'' \<and> a = ''pending-members'' then Some (route_remove_pending i b)
          else if meth = ''PATCH'' \<and> a = ''members'' then Some (route_role i b)
          else if meth = ''DELETE'' \<and> a = ''members'' then Some (route_remove i b)
          else None
      | _ \<Rightarrow> None)"

datatype pot_reply =
    reply_pot pot_view
  | reply_pots "pot_view list"
  | reply_message string
  | reply_empty
  | reply_contribution string
  | reply_feed "(transaction \<times> string \<times> string option) list"
  | reply_members "(pot_member \<times> user) list"
  | reply_member "(pot_member \<times> user) option"
  | reply_added added
  | reply_pending "pending_member list"

definition replied :: "('a \<Rightarrow> pot_reply) \<Rightarrow> (db, 'a http) op \<Rightarrow> (db, pot_reply http) op" where
  "replied f m = bnd m (\<lambda>h. ret (map_http f h))"

definition invalid :: "pots_world \<Rightarrow> json option \<Rightarrow> string \<Rightarrow> 'a http" where
  "invalid z j part = refused 400 (formatSchemaErrors (rt_errors (pz_route z) j) part) None"

definition with_id :: "pots_world \<Rightarrow> string \<Rightarrow> (uuid \<Rightarrow> (db, 'a http) op) \<Rightarrow> (db, 'a http) op" where
  "with_id z i handler = (case pz_uuid z i of None \<Rightarrow> ret (invalid z (Some (JStr i)) ''params'') | Some potId \<Rightarrow> handler potId)"

definition with_ids :: "pots_world \<Rightarrow> string \<Rightarrow> string \<Rightarrow> (uuid \<Rightarrow> uuid \<Rightarrow> (db, 'a http) op) \<Rightarrow> (db, 'a http) op" where
  "with_ids z i j handler = with_id z i (\<lambda>potId. with_id z j (handler potId))"

definition with_json :: "pots_world \<Rightarrow> (json \<Rightarrow> 'b option) \<Rightarrow> json option \<Rightarrow> ('b \<Rightarrow> (db, 'a http) op) \<Rightarrow> (db, 'a http) op" where
  "with_json z schema j handler = (case Option.bind j schema of None \<Rightarrow> ret (invalid z j ''body'') | Some input \<Rightarrow> handler input)"

text \<open>\<open>preHandler: [server.authenticate]\<close> and \<open>[server.optionalAuthenticate]\<close>\<close>

definition signed_in_as :: "crypto \<Rightarrow> env \<Rightarrow> api_request \<Rightarrow> (uuid option \<Rightarrow> (db, 'a http) op) \<Rightarrow> (db, 'a http) op" where
  "signed_in_as k w rq handler = authenticated k w (aq_bearer rq) (\<lambda>userId. handler (Some userId))"

definition maybe_signed_in :: "crypto \<Rightarrow> env \<Rightarrow> api_request \<Rightarrow> (uuid option \<Rightarrow> (db, 'a http) op) \<Rightarrow> (db, 'a http) op" where
  "maybe_signed_in k w rq handler s = handler (optionalAuthenticate k w (aq_bearer rq) s) s"

fun run_route :: "pots_world \<Rightarrow> crypto \<Rightarrow> env \<Rightarrow> api_request \<Rightarrow> pot_route \<Rightarrow> (db, pot_reply http) op" where
  "run_route z k w rq route_create = with_json z (createPotSchema z) (aq_body rq) (\<lambda>input.
     signed_in_as k w rq (\<lambda>user. replied reply_pot (createPotHandler w (pz_issue z) user input)))"
| "run_route z k w rq route_list =
     (case listPotsQuerySchema (aq_query rq) of
        None \<Rightarrow> ret (invalid z None ''querystring'')
      | Some (scope, q) \<Rightarrow> maybe_signed_in k w rq (\<lambda>user. replied reply_pots (listPotsHandler user scope q)))"
| "run_route z k w rq (route_get i) = with_id z i (\<lambda>potId.
     maybe_signed_in k w rq (\<lambda>user. replied reply_pot (getPotHandler user potId)))"
| "run_route z k w rq (route_update i) = with_id z i (\<lambda>potId. with_json z (updatePotSchema z) (aq_body rq) (\<lambda>input.
     signed_in_as k w rq (\<lambda>user. replied reply_pot (updatePotHandler w (pz_issue z) user potId input))))"
| "run_route z k w rq (route_delete i) = with_id z i (\<lambda>potId.
     signed_in_as k w rq (\<lambda>user. replied reply_message (deleteDraftPotHandler w user potId)))"
| "run_route z k w rq (route_activate i) = with_id z i (\<lambda>potId.
     signed_in_as k w rq (\<lambda>user. replied reply_pot (activatePotHandler w user potId)))"
| "run_route z k w rq (route_close i) = with_id z i (\<lambda>potId.
     signed_in_as k w rq (\<lambda>user. replied reply_pot (closePotHandler w user potId)))"
| "run_route z k w rq (route_payout_otp i) = with_id z i (\<lambda>potId. with_json z (requestPayoutOtpSchema z) (aq_body rq) (\<lambda>b.
     signed_in_as k w rq (\<lambda>user. replied reply_message (requestPayoutOtpHandler w (pz_sha z) (pz_collate z) user potId b))))"
| "run_route z k w rq (route_payout i) = with_id z i (\<lambda>potId. with_json z (triggerPayoutSchema z) (aq_body rq) (\<lambda>b.
     signed_in_as k w rq (\<lambda>user. replied (\<lambda>_. reply_empty)
       (triggerPayoutHandler w (pz_sha z) (pz_collate z) (aq_url rq) user (aq_idempotencyKey rq) potId b))))"
| "run_route z k w rq (route_refund_otp i) = with_id z i (\<lambda>potId.
     signed_in_as k w rq (\<lambda>user. replied reply_message (requestRefundOtpHandler w (pz_sha z) (pz_collate z) user potId)))"
| "run_route z k w rq (route_refund i) = with_id z i (\<lambda>potId. with_json z (triggerRefundSchema z) (aq_body rq) (\<lambda>otpCode.
     signed_in_as k w rq (\<lambda>user. replied (\<lambda>_. reply_empty)
       (triggerRefundHandler w (pz_sha z) (pz_collate z) (aq_url rq) user (aq_idempotencyKey rq) potId otpCode))))"
| "run_route z k w rq (route_contribute i) = with_id z i (\<lambda>potId. with_json z (contributeSchema z) (aq_body rq) (\<lambda>input.
     maybe_signed_in k w rq (\<lambda>user. replied reply_contribution
       (contributeHandler w (pz_sha z) (pz_contribution z) (aq_url rq) user (aq_idempotencyKey rq) potId input
          (pz_stringify z (the (aq_body rq)))))))"
| "run_route z k w rq (route_transactions i) = with_id z i (\<lambda>potId.
     maybe_signed_in k w rq (\<lambda>user. replied reply_feed (listTransactionsHandler user potId)))"
| "run_route z k w rq (route_members i) = with_id z i (\<lambda>potId.
     maybe_signed_in k w rq (\<lambda>user. replied reply_members (listMembersHandler user potId)))"
| "run_route z k w rq (route_add_member i) = with_id z i (\<lambda>potId. with_json z (addMemberSchema z) (aq_body rq) (\<lambda>input.
     signed_in_as k w rq (\<lambda>user. replied reply_added (addMemberHandler w (pz_origin z) user potId input))))"
| "run_route z k w rq (route_pending i) = with_id z i (\<lambda>potId.
     signed_in_as k w rq (\<lambda>user. replied reply_pending (listPendingMembersHandler user potId)))"
| "run_route z k w rq (route_remove_pending i j) = with_ids z i j (\<lambda>potId pendingId.
     signed_in_as k w rq (\<lambda>user. replied reply_message (removePendingMemberHandler user potId pendingId)))"
| "run_route z k w rq (route_role i j) = with_ids z i j (\<lambda>potId userId. with_json z (updateMemberRoleSchema z) (aq_body rq) (\<lambda>role.
     signed_in_as k w rq (\<lambda>user. replied reply_member (updateMemberRoleHandler w user potId userId role))))"
| "run_route z k w rq (route_remove i j) = with_ids z i j (\<lambda>potId userId.
     signed_in_as k w rq (\<lambda>user. replied reply_message (removeMemberHandler w user potId userId)))"
| "run_route z k w rq (route_leave i) = with_id z i (\<lambda>potId.
     signed_in_as k w rq (\<lambda>user. replied reply_message (leavePotHandler w user potId)))"

definition potsRoutes :: "pots_world \<Rightarrow> crypto \<Rightarrow> env \<Rightarrow> api_request \<Rightarrow> (db, pot_reply http) op" where
  "potsRoutes z k w rq =
     (case route_of (aq_method rq) (aq_path rq) of None \<Rightarrow> ret not_found | Some r \<Rightarrow> run_route z k w rq r)"

end
