(* ===== verification/Web_Session.thy ===== *)
theory Web_Session
  imports Auth_Routes
begin

text \<open>
  The web app's own server, between the browser and the backend: the session cookies of \<open>lib/server/session.ts\<close>, the
  catch-all proxy \<open>app/api/[...path]/route.ts\<close> with its refresh on a 401, the routes of \<open>app/api/auth/\<close>, and the page
  gate of \<open>proxy.ts\<close>. A handler works on the backend's state and on the cookies of the request it answers; the backend
  is a parameter \<open>send\<close> (a request to an operation), instantiated below with the routes of \<open>Auth_Routes\<close>.
\<close>

section \<open>Cookies\<close>

text \<open>\<open>cookies()\<close> of a request: what it was sent with, overlaid with what the handler wrote; the writes go back
  with the answer.\<close>

datatype set_cookie = set_cookie string string int | delete_cookie string

record cookie_store =
  cs_values :: "(string \<times> string) list"
  cs_out :: "set_cookie list"

definition ACCESS_TOKEN_COOKIE :: string where "ACCESS_TOKEN_COOKIE = ''glasspot_at''"
definition REFRESH_TOKEN_COOKIE :: string where "REFRESH_TOKEN_COOKIE = ''glasspot_rt''"
definition ACCESS_TOKEN_MAX_AGE_SECONDS :: int where "ACCESS_TOKEN_MAX_AGE_SECONDS = 15 * 60"
definition REFRESH_TOKEN_MAX_AGE_SECONDS :: int where "REFRESH_TOKEN_MAX_AGE_SECONDS = 30 * 24 * 60 * 60"

definition write_cookie :: "set_cookie \<Rightarrow> cookie_store \<Rightarrow> cookie_store" where
  "write_cookie c st =
     (case c of
        set_cookie n v age \<Rightarrow> st\<lparr>cs_values := (n, v) # cs_values st, cs_out := cs_out st @ [c]\<rparr>
      | delete_cookie n \<Rightarrow> st\<lparr>cs_values := filter (\<lambda>(m, v). m \<noteq> n) (cs_values st), cs_out := cs_out st @ [c]\<rparr>)"

definition cookie :: "string \<Rightarrow> cookie_store \<Rightarrow> string option" where
  "cookie n st = map_of (cs_values st) n"

text \<open>The state of a handler: the backend's, and the cookies of its request.\<close>

type_synonym 's web = "'s \<times> cookie_store"

definition on_cookies :: "set_cookie list \<Rightarrow> ('s web, unit) op" where
  "on_cookies cs = modify (\<lambda>(s, st). (s, foldl (\<lambda>st c. write_cookie c st) st cs))"

definition on_backend :: "('s, 'a) op \<Rightarrow> ('s web, 'a) op" where
  "on_backend m = (\<lambda>(s, st). case m s of (r, t) \<Rightarrow> (r, (t, st)))"

definition setSessionCookies :: "string \<Rightarrow> string \<Rightarrow> ('s web, unit) op" where
  "setSessionCookies accessToken refreshToken = on_cookies
     [set_cookie ACCESS_TOKEN_COOKIE accessToken ACCESS_TOKEN_MAX_AGE_SECONDS,
      set_cookie REFRESH_TOKEN_COOKIE refreshToken REFRESH_TOKEN_MAX_AGE_SECONDS]"

definition clearSessionCookies :: "('s web, unit) op" where
  "clearSessionCookies = on_cookies [delete_cookie ACCESS_TOKEN_COOKIE, delete_cookie REFRESH_TOKEN_COOKIE]"

definition getSessionTokens :: "('s web, string option \<times> string option) op" where
  "getSessionTokens = gets (\<lambda>(s, st). (cookie ACCESS_TOKEN_COOKIE st, cookie REFRESH_TOKEN_COOKIE st))"

section \<open>Requests to the backend\<close>

datatype backend_data = no_data | raw_text string | json_data json

record backend_request =
  bq_url :: string
  bq_method :: string
  bq_data :: backend_data
  bq_headers :: "(string \<times> string) list"

record backend_response =
  br_status :: nat
  br_data :: json
  br_retryAfter :: "string option"

text \<open>\<open>backendClient\<close> never rejects for a status (\<open>validateStatus: () => true\<close>); an unreachable backend throws.\<close>

type_synonym 's backend = "backend_request \<Rightarrow> ('s, backend_response) op"

definition post :: "'s backend \<Rightarrow> string \<Rightarrow> backend_data \<Rightarrow> (string \<times> string) list \<Rightarrow> ('s web, backend_response) op" where
  "post send url payload headers =
     on_backend (send \<lparr>bq_url = url, bq_method = ''POST'', bq_data = payload, bq_headers = headers\<rparr>)"

text \<open>The two tokens of an answer. The cast of the source trusts the backend's 200 answers to carry them as
  strings; an answer of another shape ends in an error here.\<close>

definition token_pair :: "json \<Rightarrow> ('s, string \<times> string) op" where
  "token_pair payload =
     (case (json_field ''accessToken'' payload, json_field ''refreshToken'' payload) of
        (Some (JStr a), Some (JStr r)) \<Rightarrow> ret (a, r)
      | _ \<Rightarrow> throw (PlainError ''TypeError''))"

definition refreshSession :: "'s backend \<Rightarrow> string \<Rightarrow> ('s web, string option) op" where
  "refreshSession send refreshToken =
     bnd (post send ''/auth/refresh'' (json_data (JObj [(''refreshToken'', JStr refreshToken)])) []) (\<lambda>resp.
     if br_status resp \<noteq> 200 then seq clearSessionCookies (ret None)
     else bnd (token_pair (br_data resp)) (\<lambda>(accessToken, newRefreshToken).
          seq (setSessionCookies accessToken newRefreshToken) (ret (Some accessToken))))"

section \<open>The proxy\<close>

record web_request =
  wq_path :: "string list"
  wq_search :: string
  wq_method :: string
  wq_headers :: "(string \<times> string) list"
  wq_body :: string

record web_response =
  ws_status :: nat
  ws_data :: json
  ws_retryAfter :: "string option"

definition FORWARDED_REQUEST_HEADERS :: "string list" where
  "FORWARDED_REQUEST_HEADERS = [''idempotency-key'', ''content-type'']"

definition target_path :: "web_request \<Rightarrow> string" where
  "target_path rq = ''/'' @ join_with ''/'' (wq_path rq) @ wq_search rq"

definition buildHeaders :: "web_request \<Rightarrow> string option \<Rightarrow> (string \<times> string) list" where
  "buildHeaders rq token =
     concat (map (\<lambda>name. case map_of (wq_headers rq) name of
                Some v \<Rightarrow> if v = [] then [] else [(name, v)] | None \<Rightarrow> []) FORWARDED_REQUEST_HEADERS)
     @ (if truthy token then [(''Authorization'', ''Bearer '' @ the token)] else [])"

definition proxied :: "web_request \<Rightarrow> string option \<Rightarrow> backend_request" where
  "proxied rq token =
     \<lparr>bq_url = target_path rq, bq_method = wq_method rq,
      bq_data = (if wq_method rq \<noteq> ''GET'' \<and> wq_method rq \<noteq> ''HEAD'' then raw_text (wq_body rq) else no_data),
      bq_headers = buildHeaders rq token\<rparr>"

definition passed_on :: "backend_response \<Rightarrow> web_response" where
  "passed_on resp = \<lparr>ws_status = br_status resp, ws_data = br_data resp,
     ws_retryAfter = (if truthy (br_retryAfter resp) then br_retryAfter resp else None)\<rparr>"

definition forward :: "'s backend \<Rightarrow> web_request \<Rightarrow> ('s web, web_response) op" where
  "forward send rq =
     bnd getSessionTokens (\<lambda>(accessToken, _).
     bnd (on_backend (send (proxied rq accessToken))) (\<lambda>resp.
     bnd (if br_status resp = 401
          then bnd getSessionTokens (\<lambda>(_, refreshToken).
               bnd (if truthy refreshToken then refreshSession send (the refreshToken) else ret None) (\<lambda>newAccessToken.
               if truthy newAccessToken then on_backend (send (proxied rq newAccessToken))
               else if \<not> truthy refreshToken then seq clearSessionCookies (ret resp)
               else ret resp))
          else ret resp) (\<lambda>resp.
     ret (passed_on resp))))"

section \<open>The authentication routes\<close>

definition json_header :: "(string \<times> string) list" where
  "json_header = [(''content-type'', ''application/json'')]"

text \<open>\<open>NextResponse.json(response.data, { status })\<close>\<close>

definition echoed :: "backend_response \<Rightarrow> web_response" where
  "echoed resp = \<lparr>ws_status = br_status resp, ws_data = br_data resp, ws_retryAfter = None\<rparr>"

definition message_response :: "nat \<Rightarrow> string \<Rightarrow> web_response" where
  "message_response status m = \<lparr>ws_status = status, ws_data = JObj [(''message'', JStr m)], ws_retryAfter = None\<rparr>"

definition registerRoute :: "'s backend \<Rightarrow> string \<Rightarrow> ('s web, web_response) op" where
  "registerRoute send body = bnd (post send ''/auth/register'' (raw_text body) json_header) (\<lambda>resp. ret (echoed resp))"

definition loginRoute :: "'s backend \<Rightarrow> string \<Rightarrow> ('s web, web_response) op" where
  "loginRoute send body = bnd (post send ''/auth/login'' (raw_text body) json_header) (\<lambda>resp. ret (echoed resp))"

definition resendOtpRoute :: "'s backend \<Rightarrow> string \<Rightarrow> ('s web, web_response) op" where
  "resendOtpRoute send body = bnd (post send ''/auth/resend-otp'' (raw_text body) json_header) (\<lambda>resp. ret (echoed resp))"

definition forgotPasswordRoute :: "'s backend \<Rightarrow> string \<Rightarrow> ('s web, web_response) op" where
  "forgotPasswordRoute send body =
     bnd (post send ''/auth/forgot-password'' (raw_text body) json_header) (\<lambda>resp. ret (echoed resp))"

definition resetPasswordRoute :: "'s backend \<Rightarrow> string \<Rightarrow> ('s web, web_response) op" where
  "resetPasswordRoute send body =
     bnd (post send ''/auth/reset-password'' (raw_text body) json_header) (\<lambda>resp. ret (echoed resp))"

definition keep_session :: "backend_response \<Rightarrow> ('s web, unit) op" where
  "keep_session resp =
     (if br_status resp = 200
      then bnd (token_pair (br_data resp)) (\<lambda>(accessToken, refreshToken). setSessionCookies accessToken refreshToken)
      else ret ())"

definition verifyEmailRoute :: "'s backend \<Rightarrow> string \<Rightarrow> ('s web, web_response) op" where
  "verifyEmailRoute send body =
     bnd (post send ''/auth/verify-email'' (raw_text body) json_header) (\<lambda>resp. seq (keep_session resp) (ret (echoed resp)))"

definition verifyOtpRoute :: "'s backend \<Rightarrow> string \<Rightarrow> ('s web, web_response) op" where
  "verifyOtpRoute send body =
     bnd (post send ''/auth/login/verify-otp'' (raw_text body) json_header) (\<lambda>resp. seq (keep_session resp) (ret (echoed resp)))"

definition refreshRoute :: "'s backend \<Rightarrow> ('s web, web_response) op" where
  "refreshRoute send =
     bnd getSessionTokens (\<lambda>(_, refreshToken).
     if \<not> truthy refreshToken then ret (message_response 401 ''No session to refresh'')
     else bnd (refreshSession send (the refreshToken)) (\<lambda>accessToken.
          ret (if \<not> truthy accessToken then message_response 401 ''Session expired'' else message_response 200 ''Session refreshed'')))"

definition logoutRoute :: "'s backend \<Rightarrow> ('s web, web_response) op" where
  "logoutRoute send =
     bnd getSessionTokens (\<lambda>(accessToken, _).
     seq (if truthy accessToken
          then bnd (post send ''/auth/logout'' (json_data (JObj [])) [(''Authorization'', ''Bearer '' @ the accessToken)]) (\<lambda>resp. ret ())
          else ret ())
     (seq clearSessionCookies (ret (message_response 200 ''Logged out''))))"

section \<open>The page gate\<close>

definition PROTECTED_PREFIXES :: "string list" where
  "PROTECTED_PREFIXES = [''/home'', ''/discover'', ''/activity'', ''/profile'']"

definition GUEST_ONLY_ROUTES :: "string list" where
  "GUEST_ONLY_ROUTES = [''/login'', ''/signup'', ''/forgot-password'', ''/reset-password'']"

definition starts_with :: "string \<Rightarrow> string \<Rightarrow> bool" where
  "starts_with p t \<longleftrightarrow> take (length p) t = p"

text \<open>\<open>/^\/pots\/[^/]+\/edit(\/|$)/\<close>\<close>

definition isProtectedPotRoute :: "string \<Rightarrow> bool" where
  "isProtectedPotRoute pathname \<longleftrightarrow>
     pathname = ''/pots/new'' \<or>
     (starts_with ''/pots/'' pathname \<and>
      (let rest = drop 6 pathname; potId = takeWhile (\<lambda>c. c \<noteq> CHR ''/'') rest; after = dropWhile (\<lambda>c. c \<noteq> CHR ''/'') rest
       in potId \<noteq> [] \<and> starts_with ''/edit'' after \<and> (drop 5 after = [] \<or> starts_with ''/'' (drop 5 after))))"

text \<open>Through, or off to another page with the page to come back to.\<close>

datatype gate = next_page | redirect_to string "string option"

definition proxy :: "bool \<Rightarrow> string \<Rightarrow> gate" where
  "proxy hasSession pathname =
     (if hasSession \<and> pathname \<in> set GUEST_ONLY_ROUTES then redirect_to ''/home'' None
      else if \<not> (list_ex (\<lambda>prefix. starts_with prefix pathname) PROTECTED_PREFIXES \<or> isProtectedPotRoute pathname) then next_page
      else if hasSession then next_page
      else redirect_to ''/login'' (Some pathname))"

definition has_session :: "(string \<times> string) list \<Rightarrow> bool" where
  "has_session cookies \<longleftrightarrow> map_of cookies ''glasspot_at'' \<noteq> None \<or> map_of cookies ''glasspot_rt'' \<noteq> None"

section \<open>The browser\<close>

text \<open>Cookies with the time they run out; an answer's writes applied in order.\<close>

type_synonym jar = "(string \<times> string \<times> time) list"

definition sent_cookies :: "time \<Rightarrow> jar \<Rightarrow> (string \<times> string) list" where
  "sent_cookies now jar = concat (map (\<lambda>(n, v, t). if now < t then [(n, v)] else []) jar)"

definition receive_cookie :: "time \<Rightarrow> jar \<Rightarrow> set_cookie \<Rightarrow> jar" where
  "receive_cookie now jar c =
     (case c of
        set_cookie n v age \<Rightarrow> (n, v, now + age * 1000) # filter (\<lambda>(m, v, t). m \<noteq> n) jar
      | delete_cookie n \<Rightarrow> filter (\<lambda>(m, v, t). m \<noteq> n) jar)"

text \<open>A request that was sent with \<open>cookies\<close>: the answer, the backend's state, and the jar the answer's writes
  leave. A browser sends what is in its jar at the time; of two requests under way at once, both were sent before
  the answer of either.\<close>

definition exchange ::
  "(string \<times> string) list \<Rightarrow> ('s web, web_response) op \<Rightarrow> time \<Rightarrow> jar \<Rightarrow> 's \<Rightarrow> (error + web_response) \<times> 's \<times> jar" where
  "exchange cookies route now jar s =
     (case route (s, \<lparr>cs_values = cookies, cs_out = []\<rparr>) of
        (Inr answer, (t, st)) \<Rightarrow> (Inr answer, t, foldl (receive_cookie now) jar (cs_out st))
      | (Inl e, (t, st)) \<Rightarrow> (Inl e, t, jar))"

definition browse :: "('s web, web_response) op \<Rightarrow> time \<Rightarrow> jar \<Rightarrow> 's \<Rightarrow> (error + web_response) \<times> 's \<times> jar" where
  "browse route now jar = exchange (sent_cookies now jar) route now jar"

section \<open>The backend behind it\<close>

text \<open>Fastify's side of a request: \<open>Bearer\<close>, the JSON body (\<open>parse\<close> stands for \<open>JSON.parse\<close>), status and headers.\<close>

definition bearer_of :: "(string \<times> string) list \<Rightarrow> string option" where
  "bearer_of headers =
     (case map_of headers ''Authorization'' of
        Some h \<Rightarrow> if starts_with ''Bearer '' h then Some (drop 7 h) else None | None \<Rightarrow> None)"

definition glasspot_backend :: "(string \<Rightarrow> json option) \<Rightarrow> route_world \<Rightarrow> crypto \<Rightarrow> env \<Rightarrow> db backend" where
  "glasspot_backend parse z k w rq =
     bnd (backend_routes z k w (bq_method rq) (bq_url rq)
            (case bq_data rq of no_data \<Rightarrow> None | raw_text t \<Rightarrow> parse t | json_data j \<Rightarrow> Some j)
            (bearer_of (bq_headers rq))) (\<lambda>answer.
     ret \<lparr>br_status = http_status answer, br_data = http_json answer, br_retryAfter = map_option show_int (http_retry_after answer)\<rparr>)"

end
