(* ===== verification/Web_Client.thy ===== *)
theory Web_Client
  imports Web_Session "HOL-Library.Sublist"
begin

text \<open>
  What runs in the browser: the calls of \<open>lib/api.ts\<close> with \<open>apiFetch\<close> and its redirect to the login page, the polling hook
  \<open>usePollUntil.ts\<close> and the account lookup hook \<open>useBankAccountLookup.ts\<close>. \<open>fetch\<close>, \<open>encodeURIComponent\<close>, the encoding of
  \<open>URLSearchParams\<close> and random ids are parameters; a hook is a state with the events that change it.
\<close>

section \<open>apiFetch\<close>

record api_call =
  ac_path :: string
  ac_method :: string
  ac_headers :: "(string \<times> string) list"
  ac_body :: "json option"
  ac_skipAuthRedirect :: bool

text \<open>An answer with its content type, and its body where it parses as JSON.\<close>

record fetched =
  ft_status :: nat
  ft_contentType :: "string option"
  ft_json :: "json option"

datatype api_outcome = loaded json | api_error string nat

text \<open>\<open>window.location\<close> with the page it was told to go to; \<open>None\<close> where there is no window.\<close>

record page =
  pg_pathname :: string
  pg_search :: string
  pg_href :: "string option"

fun text_includes :: "string \<Rightarrow> string \<Rightarrow> bool" where
  "text_includes p [] \<longleftrightarrow> p = []"
| "text_includes p (c # cs) \<longleftrightarrow> starts_with p (c # cs) \<or> text_includes p cs"

definition redirectToLogin :: "(string \<Rightarrow> string) \<Rightarrow> page option \<Rightarrow> page option" where
  "redirectToLogin encode window =
     (case window of
        None \<Rightarrow> None
      | Some p \<Rightarrow> if pg_pathname p = ''/login'' then Some p
          else Some (p\<lparr>pg_href := Some (''/login?redirect='' @ encode (pg_pathname p @ pg_search p))\<rparr>))"

definition answer_body :: "fetched \<Rightarrow> json" where
  "answer_body a =
     (if (case ft_contentType a of None \<Rightarrow> False | Some t \<Rightarrow> text_includes ''application/json'' t)
      then (case ft_json a of Some j \<Rightarrow> j | None \<Rightarrow> JNull) else JNull)"

definition api_message :: "json \<Rightarrow> string" where
  "api_message j = (case json_field ''message'' j of Some m \<Rightarrow> json_text m | None \<Rightarrow> ''Something went wrong'')"

definition apiFetch ::
  "(string \<Rightarrow> string) \<Rightarrow> (api_call \<Rightarrow> ('s, fetched) op) \<Rightarrow> api_call \<Rightarrow> ('s \<times> page option, api_outcome) op" where
  "apiFetch encode fetch call = (\<lambda>(s, window).
     case fetch (call\<lparr>ac_path := ''/api'' @ ac_path call,
                      ac_headers := (''content-type'', ''application/json'') # ac_headers call\<rparr>) s of
       (Inl e, t) \<Rightarrow> (Inl e, (t, window))
     | (Inr a, t) \<Rightarrow>
         if \<not> (200 \<le> ft_status a \<and> ft_status a < 300)
         then (Inr (api_error (api_message (answer_body a)) (ft_status a)),
               (t, if ft_status a = 401 \<and> \<not> ac_skipAuthRedirect call then redirectToLogin encode window else window))
         else (Inr (loaded (answer_body a)), (t, window)))"

section \<open>The calls\<close>

definition get :: "string \<Rightarrow> api_call" where
  "get path = \<lparr>ac_path = path, ac_method = ''GET'', ac_headers = [], ac_body = None, ac_skipAuthRedirect = False\<rparr>"

definition send_json :: "string \<Rightarrow> string \<Rightarrow> json \<Rightarrow> api_call" where
  "send_json meth path input = (get path)\<lparr>ac_method := meth, ac_body := Some input\<rparr>"

definition bare :: "string \<Rightarrow> string \<Rightarrow> api_call" where
  "bare meth path = (get path)\<lparr>ac_method := meth\<rparr>"

text \<open>With the \<open>Idempotency-Key\<close> of \<open>generateIdempotencyKey\<close>.\<close>

definition keyed :: "string \<Rightarrow> api_call \<Rightarrow> api_call" where
  "keyed uuid call = call\<lparr>ac_headers := [(''Idempotency-Key'', uuid)]\<rparr>"

definition api_register :: "json \<Rightarrow> api_call" where "api_register input = send_json ''POST'' ''/auth/register'' input"
definition api_verifyEmail :: "json \<Rightarrow> api_call" where "api_verifyEmail input = send_json ''POST'' ''/auth/verify-email'' input"
definition api_login :: "json \<Rightarrow> api_call" where "api_login input = send_json ''POST'' ''/auth/login'' input"
definition api_verifyLoginOtp :: "json \<Rightarrow> api_call" where "api_verifyLoginOtp input = send_json ''POST'' ''/auth/verify-otp'' input"
definition api_resendOtp :: "json \<Rightarrow> api_call" where "api_resendOtp input = send_json ''POST'' ''/auth/resend-otp'' input"
definition api_forgotPassword :: "json \<Rightarrow> api_call" where "api_forgotPassword input = send_json ''POST'' ''/auth/forgot-password'' input"
definition api_resetPassword :: "json \<Rightarrow> api_call" where "api_resetPassword input = send_json ''POST'' ''/auth/reset-password'' input"
definition api_logout :: api_call where "api_logout = bare ''POST'' ''/auth/logout''"

definition api_getMe :: api_call where "api_getMe = (get ''/me'')\<lparr>ac_skipAuthRedirect := True\<rparr>"
definition api_updateRefundProfile :: "json \<Rightarrow> api_call" where "api_updateRefundProfile input = send_json ''PATCH'' ''/me/refund-profile'' input"
definition api_getMyTransactions :: api_call where "api_getMyTransactions = get ''/me/transactions''"

definition api_listBanks :: api_call where "api_listBanks = get ''/banks''"
definition api_lookupBankAccount :: "json \<Rightarrow> api_call" where "api_lookupBankAccount input = send_json ''POST'' ''/banks/lookup'' input"

definition pot_path :: "string \<Rightarrow> string \<Rightarrow> string" where "pot_path potId rest = ''/pots/'' @ potId @ rest"

definition api_createPot :: "json \<Rightarrow> api_call" where "api_createPot input = send_json ''POST'' ''/pots'' input"

definition api_listPots :: "((string \<times> string) list \<Rightarrow> string) \<Rightarrow> string option \<Rightarrow> string option \<Rightarrow> api_call" where
  "api_listPots encodeQuery scope q =
     (let query = encodeQuery ((if truthy scope then [(''scope'', the scope)] else []) @ (if truthy q then [(''q'', the q)] else [])) in
      get (''/pots'' @ (if query \<noteq> [] then ''?'' @ query else [])))"

definition api_getPot :: "string \<Rightarrow> api_call" where "api_getPot potId = get (pot_path potId [])"
definition api_updatePot :: "string \<Rightarrow> json \<Rightarrow> api_call" where "api_updatePot potId patch = send_json ''PATCH'' (pot_path potId []) patch"
definition api_activatePot :: "string \<Rightarrow> api_call" where "api_activatePot potId = bare ''POST'' (pot_path potId ''/activate'')"
definition api_deletePot :: "string \<Rightarrow> api_call" where "api_deletePot potId = bare ''DELETE'' (pot_path potId [])"
definition api_closePot :: "string \<Rightarrow> api_call" where "api_closePot potId = bare ''POST'' (pot_path potId ''/close'')"
definition api_getPotMembers :: "string \<Rightarrow> api_call" where "api_getPotMembers potId = get (pot_path potId ''/members'')"
definition api_getPendingMembers :: "string \<Rightarrow> api_call" where
  "api_getPendingMembers potId = (get (pot_path potId ''/pending-members''))\<lparr>ac_skipAuthRedirect := True\<rparr>"
definition api_addMember :: "string \<Rightarrow> json \<Rightarrow> api_call" where "api_addMember potId input = send_json ''POST'' (pot_path potId ''/members'') input"
definition api_updateMemberRole :: "string \<Rightarrow> string \<Rightarrow> string \<Rightarrow> api_call" where
  "api_updateMemberRole potId userId role = send_json ''PATCH'' (pot_path potId (''/members/'' @ userId)) (JObj [(''role'', JStr role)])"
definition api_removeMember :: "string \<Rightarrow> string \<Rightarrow> api_call" where
  "api_removeMember potId userId = bare ''DELETE'' (pot_path potId (''/members/'' @ userId))"
definition api_removePendingMember :: "string \<Rightarrow> string \<Rightarrow> api_call" where
  "api_removePendingMember potId pendingId = bare ''DELETE'' (pot_path potId (''/pending-members/'' @ pendingId))"
definition api_leavePot :: "string \<Rightarrow> api_call" where "api_leavePot potId = bare ''POST'' (pot_path potId ''/leave'')"
definition api_getPotTransactions :: "string \<Rightarrow> api_call" where "api_getPotTransactions potId = get (pot_path potId ''/transactions'')"
definition api_contribute :: "string \<Rightarrow> string \<Rightarrow> json \<Rightarrow> api_call" where
  "api_contribute uuid potId input = keyed uuid (send_json ''POST'' (pot_path potId ''/contributions'') input)"
definition api_requestPayoutOtp :: "string \<Rightarrow> json \<Rightarrow> api_call" where
  "api_requestPayoutOtp potId input = send_json ''POST'' (pot_path potId ''/payout/otp'') input"
definition api_triggerPayout :: "string \<Rightarrow> string \<Rightarrow> json \<Rightarrow> api_call" where
  "api_triggerPayout uuid potId input = keyed uuid (send_json ''POST'' (pot_path potId ''/payout'') input)"
definition api_requestRefundOtp :: "string \<Rightarrow> api_call" where "api_requestRefundOtp potId = bare ''POST'' (pot_path potId ''/refund/otp'')"
definition api_triggerRefund :: "string \<Rightarrow> string \<Rightarrow> json \<Rightarrow> api_call" where
  "api_triggerRefund uuid potId input = keyed uuid (send_json ''POST'' (pot_path potId ''/refund'') input)"

text \<open>The request the web server sees: header names are read case-insensitively, the body is its JSON text.\<close>

definition wire_request :: "(json \<Rightarrow> string) \<Rightarrow> api_call \<Rightarrow> web_request" where
  "wire_request stringify call =
     (let path = takeWhile (\<lambda>c. c \<noteq> CHR ''?'') (ac_path call) in
      \<lparr>wq_path = tl (split_slash path), wq_search = dropWhile (\<lambda>c. c \<noteq> CHR ''?'') (ac_path call), wq_method = ac_method call,
       wq_headers = map (\<lambda>(n, v). (map lower_ascii n, v)) ((''content-type'', ''application/json'') # ac_headers call),
       wq_body = (case ac_body call of None \<Rightarrow> [] | Some j \<Rightarrow> stringify j)\<rparr>)"

section \<open>Polling\<close>

datatype 'a checked = found 'a | nothing | failed
datatype poll_status = poll_idle | polling | poll_done | poll_error

text \<open>The hook's state: the timer \<open>timeoutRef\<close> refers to, timers still running that it no longer refers to, ticks that
  wait for their check, \<open>checkNow\<close> calls that do.\<close>

record 'a poll =
  pl_status :: poll_status
  pl_result :: "'a option"
  pl_failures :: nat
  pl_timer :: bool
  pl_lost :: nat
  pl_ticks :: nat
  pl_checks :: nat

definition MAX_CONSECUTIVE_FAILURES :: nat where "MAX_CONSECUTIVE_FAILURES = 5"

definition initial_poll :: "'a poll" where
  "initial_poll = \<lparr>pl_status = poll_idle, pl_result = None, pl_failures = 0, pl_timer = False, pl_lost = 0, pl_ticks = 0, pl_checks = 0\<rparr>"

definition set_timer :: "'a poll \<Rightarrow> 'a poll" where
  "set_timer p = p\<lparr>pl_timer := True, pl_lost := (if pl_timer p then Suc (pl_lost p) else pl_lost p)\<rparr>"

definition poll_stop :: "'a poll \<Rightarrow> 'a poll" where
  "poll_stop p = p\<lparr>pl_timer := False\<rparr>"

definition poll_start :: "'a poll \<Rightarrow> 'a poll" where
  "poll_start p = (poll_stop p)\<lparr>pl_failures := 0, pl_status := polling, pl_result := None, pl_ticks := Suc (pl_ticks p)\<rparr>"

text \<open>A timer that fires starts a tick.\<close>

definition timer_fires :: "'a poll \<Rightarrow> 'a poll" where
  "timer_fires p = p\<lparr>pl_timer := False, pl_ticks := Suc (pl_ticks p)\<rparr>"

definition lost_timer_fires :: "'a poll \<Rightarrow> 'a poll" where
  "lost_timer_fires p = p\<lparr>pl_lost := pl_lost p - 1, pl_ticks := Suc (pl_ticks p)\<rparr>"

definition tick_returns :: "'a checked \<Rightarrow> 'a poll \<Rightarrow> 'a poll" where
  "tick_returns c p0 =
     (let p = p0\<lparr>pl_ticks := pl_ticks p0 - 1\<rparr> in
      case c of
        found v \<Rightarrow> p\<lparr>pl_failures := 0, pl_result := Some v, pl_status := poll_done\<rparr>
      | nothing \<Rightarrow> set_timer (p\<lparr>pl_failures := 0\<rparr>)
      | failed \<Rightarrow> (let q = p\<lparr>pl_failures := Suc (pl_failures p)\<rparr> in
          if MAX_CONSECUTIVE_FAILURES \<le> pl_failures q then q\<lparr>pl_status := poll_error\<rparr> else set_timer q))"

definition checkNow :: "'a poll \<Rightarrow> 'a poll" where
  "checkNow p = (poll_stop p)\<lparr>pl_checks := Suc (pl_checks p)\<rparr>"

definition checkNow_returns :: "'a checked \<Rightarrow> 'a poll \<Rightarrow> 'a poll" where
  "checkNow_returns c p0 =
     (let p = p0\<lparr>pl_checks := pl_checks p0 - 1\<rparr> in
      case c of
        found v \<Rightarrow> p\<lparr>pl_failures := 0, pl_result := Some v, pl_status := poll_done\<rparr>
      | nothing \<Rightarrow> set_timer (p\<lparr>pl_failures := 0\<rparr>)
      | failed \<Rightarrow> set_timer p)"

text \<open>A poll left to itself: each tick returns, and its timer fires, until it stops or the checks are used up.\<close>

fun poll_run :: "'a checked list \<Rightarrow> 'a poll \<Rightarrow> 'a poll" where
  "poll_run [] p = p"
| "poll_run (c # cs) p = (let q = tick_returns c p in if pl_timer q then poll_run cs (timer_fires q) else q)"

section \<open>Looking up an account\<close>

record lookup =
  lk_account :: string
  lk_bank :: string
  lk_confirmed :: "(string \<times> string \<times> string) option"
  lk_isLookingUp :: bool
  lk_error :: "string option"

definition NUBAN_LENGTH :: nat where "NUBAN_LENGTH = 10"

definition isComplete :: "lookup \<Rightarrow> bool" where
  "isComplete l \<longleftrightarrow> lk_bank l \<noteq> [] \<and> length (lk_account l) = NUBAN_LENGTH"

definition confirmedName :: "lookup \<Rightarrow> string option" where
  "confirmedName l = (case lk_confirmed l of
     Some (account, bank, n) \<Rightarrow> if account = lk_account l \<and> bank = lk_bank l then Some n else None | None \<Rightarrow> None)"

text \<open>The effect runs when one of the two fields changes; a lookup still under way is cancelled and will change nothing.\<close>

definition change_pair :: "string \<Rightarrow> string \<Rightarrow> lookup \<Rightarrow> lookup" where
  "change_pair account bank l =
     (if account = lk_account l \<and> bank = lk_bank l then l
      else let m = l\<lparr>lk_account := account, lk_bank := bank, lk_error := None\<rparr> in
        if \<not> isComplete m then m else m\<lparr>lk_isLookingUp := True\<rparr>)"

text \<open>The lookup of the current pair returns.\<close>

definition lookup_returns :: "api_outcome + string \<Rightarrow> lookup \<Rightarrow> lookup" where
  "lookup_returns outcome l =
     (case outcome of
        Inr accountName \<Rightarrow> l\<lparr>lk_confirmed := Some (lk_account l, lk_bank l, accountName), lk_isLookingUp := False\<rparr>
      | Inl (api_error m status) \<Rightarrow> l\<lparr>lk_error := Some m, lk_isLookingUp := False\<rparr>
      | Inl _ \<Rightarrow> l\<lparr>lk_error := Some ''Couldn't verify that account.'', lk_isLookingUp := False\<rparr>)"

section \<open>What the hooks promise\<close>

text \<open>Only a login page is ever left out of a redirect, and a redirect goes to the login page.\<close>

lemma redirects_do_not_nest:
  assumes "apiFetch encode fetch call (s, Some p) = (r, (t, Some q))" and "pg_href q \<noteq> pg_href p"
  shows "pg_pathname p \<noteq> ''/login'' \<and> pg_href q = Some (''/login?redirect='' @ encode (pg_pathname p @ pg_search p))"
  using assms by (auto simp: apiFetch_def redirectToLogin_def split: prod.splits sum.splits if_splits)

lemma header_found:
  "map_of (buildHeaders rq token) ''idempotency-key'' =
   (case map_of (wq_headers rq) ''idempotency-key'' of Some v \<Rightarrow> if v = [] then None else Some v | None \<Rightarrow> None)"
  by (simp add: buildHeaders_def FORWARDED_REQUEST_HEADERS_def split: option.split)

text \<open>A call that moves money reaches the backend with its key, through the proxy.\<close>

lemma money_calls_carry_key:
  assumes "uuid \<noteq> []" and "call \<in> {api_contribute uuid potId input, api_triggerPayout uuid potId input, api_triggerRefund uuid potId input}"
  shows "map_of (bq_headers (proxied (wire_request stringify call) token)) ''idempotency-key'' = Some uuid"
proof -
  have lower: "map lower_ascii ''Idempotency-Key'' = ''idempotency-key''" "map lower_ascii ''content-type'' = ''content-type''" by code_simp+
  have two: "map f [a, b] = [f a, f b]" for f :: "string \<times> string \<Rightarrow> string \<times> string" and a b by simp
  have lower: "map (\<lambda>(n, v). (map lower_ascii n, v)) [(''content-type'', ''application/json''), (''Idempotency-Key'', uuid)]
      = [(''content-type'', ''application/json''), (''idempotency-key'', uuid)]"
    unfolding two prod.case lower by (rule refl)
  have "ac_headers call = [(''Idempotency-Key'', uuid)]"
    using assms(2) by (auto simp: api_contribute_def api_triggerPayout_def api_triggerRefund_def keyed_def)
  then have "map_of (wq_headers (wire_request stringify call)) ''idempotency-key'' = Some uuid"
    unfolding wire_request_def Let_def by (simp only: web_request.simps lower) simp
  then show ?thesis using assms(1) by (simp add: proxied_def header_found)
qed

lemma tick_goes_on:
  fixes p :: "'a poll"
  defines "q \<equiv> p\<lparr>pl_ticks := Suc (pl_ticks p - 1)\<rparr>"
  shows "poll_run (nothing # cs) (p\<lparr>pl_failures := n, pl_result := None, pl_timer := False\<rparr>)
      = poll_run cs (q\<lparr>pl_failures := 0, pl_result := None, pl_timer := False\<rparr>)"
    and "n < 4 \<Longrightarrow> poll_run (failed # cs) (p\<lparr>pl_failures := n, pl_result := None, pl_timer := False\<rparr>)
      = poll_run cs (q\<lparr>pl_failures := Suc n, pl_result := None, pl_timer := False\<rparr>)"
  by (cases p, simp add: q_def tick_returns_def set_timer_def timer_fires_def MAX_CONSECUTIVE_FAILURES_def Let_def)+

text \<open>The checks up to the first value, with no five failures in a row and \<open>n\<close> failures before them.\<close>

definition finds :: "'a \<Rightarrow> nat \<Rightarrow> 'a checked list \<Rightarrow> bool" where
  "finds v n cs \<longleftrightarrow> (\<exists>before after. cs = before @ found v # after \<and> (\<forall>w. found w \<notin> set before) \<and>
     \<not> prefix (replicate (5 - n) failed) before \<and> \<not> sublist (replicate 5 failed) before)"

lemma finds_Nil: "\<not> finds v n []" by (simp add: finds_def)

lemma finds_Cons:
  "finds v n (c # cs) \<longleftrightarrow>
     (c = found v \<and> n < 5 \<or> (\<forall>w. c \<noteq> found w) \<and> (\<exists>before after. cs = before @ found v # after \<and> (\<forall>w. found w \<notin> set before) \<and>
     \<not> prefix (replicate (5 - n) failed) (c # before) \<and> \<not> sublist (replicate 5 failed) (c # before)))" (is "?l \<longleftrightarrow> ?r")
proof
  assume ?l
  then obtain before after where b: "c # cs = before @ found v # after" "\<forall>w. found w \<notin> set before"
      "\<not> prefix (replicate (5 - n) failed) before" "\<not> sublist (replicate 5 failed) before" unfolding finds_def by blast
  show ?r
  proof (cases before)
    case Nil
    then have "\<not> 5 \<le> n" using b(3) by (cases "5 - n") auto
    then show ?thesis using b(1) Nil by simp
  next
    case (Cons d ds)
    then have "c = d" "cs = ds @ found v # after" using b(1) by simp_all
    have "\<forall>w. c \<noteq> found w" using b(2) unfolding Cons \<open>c = d\<close> by (metis list.set_intros(1))
    moreover have "\<forall>w. found w \<notin> set ds" using b(2) unfolding Cons by (metis list.set_intros(2))
    moreover have "\<not> prefix (replicate (5 - n) failed) (c # ds)" "\<not> sublist (replicate 5 failed) (c # ds)"
      using b(3,4) unfolding Cons \<open>c = d\<close> .
    ultimately show ?thesis using \<open>cs = ds @ found v # after\<close> by blast
  qed
next
  assume ?r
  then show ?l
  proof (elim disjE conjE exE)
    assume "c = found v" "n < 5"
    then show ?l unfolding finds_def by (intro exI[of _ "[]"] exI[of _ cs]) simp
  next
    fix before after
    assume c: "\<forall>w. c \<noteq> found w" and b: "cs = before @ found v # after" "\<forall>w. found w \<notin> set before"
      "\<not> prefix (replicate (5 - n) failed) (c # before)" "\<not> sublist (replicate 5 failed) (c # before)"
    have "c # cs = (c # before) @ found v # after" "\<forall>w. found w \<notin> set (c # before)" using b(1,2) c by auto
    then show ?l using b(3,4) unfolding finds_def by (intro exI[of _ "c # before"] exI[of _ after] conjI)
  qed
qed

lemma five_failures_first: "prefix (replicate 5 failed) b \<Longrightarrow> sublist (replicate 5 failed) b"
  by simp

lemma finds_nothing: "n < 5 \<Longrightarrow> finds v n (nothing # cs) \<longleftrightarrow> finds v 0 cs"
proof -
  assume "n < 5"
  then obtain k where k: "5 - n = Suc k" by (metis Suc_diff_Suc)
  have "\<not> prefix (replicate (5 - n) failed) (nothing # b) \<and> (sublist (replicate 5 failed) (nothing # b) \<longleftrightarrow> sublist (replicate 5 failed) b)"
    for b :: "'a checked list" unfolding k by (simp add: sublist_Cons_right numeral_eq_Suc)
  then show ?thesis unfolding finds_Cons unfolding finds_def using five_failures_first by auto
qed

lemma finds_failed: "n < 4 \<Longrightarrow> finds v n (failed # cs) \<longleftrightarrow> finds v (Suc n) cs"
proof -
  assume n: "n < 4"
  then have k: "5 - n = Suc (5 - Suc n)" by simp
  have "prefix (replicate (5 - n) failed) (failed # b) \<longleftrightarrow> prefix (replicate (5 - Suc n) failed) b" for b :: "'a checked list"
    unfolding k by simp
  moreover have "sublist (replicate 5 failed) (failed # b) \<longleftrightarrow> sublist (replicate 5 failed) b"
    if no: "\<not> prefix (replicate (5 - Suc n) failed) b" for b :: "'a checked list"
  proof -
    have "(4::nat) = (5 - Suc n) + n" using n by simp
    then have "replicate 4 failed = replicate (5 - Suc n) failed @ replicate n (failed :: 'a checked)"
      by (metis replicate_add)
    then have "\<not> prefix (replicate 4 failed) b" using no by (metis append_prefixD)
    then show ?thesis by (simp add: sublist_Cons_right numeral_eq_Suc)
  qed
  ultimately show ?thesis unfolding finds_Cons unfolding finds_def by auto
qed

lemma poll_continues:
  "n < 5 \<Longrightarrow> pl_result (poll_run cs (p\<lparr>pl_failures := n, pl_result := None, pl_timer := False\<rparr>)) = Some v \<longleftrightarrow> finds v n cs"
proof (induction cs arbitrary: n p)
  case Nil
  then show ?case by (simp add: finds_Nil)
next
  case (Cons c cs)
  show ?case
  proof (cases c)
    case (found w)
    then show ?thesis using Cons.prems by (simp add: tick_returns_def finds_Cons)
  next
    case nothing
    then show ?thesis using Cons.prems Cons.IH[of 0] by (simp only: nothing tick_goes_on finds_nothing)
  next
    case failed
    show ?thesis
    proof (cases "n = 4")
      case True
      have "\<not> finds v n (failed # cs)" using True by (simp add: finds_Cons)
      then show ?thesis by (simp add: failed True tick_returns_def MAX_CONSECUTIVE_FAILURES_def)
    next
      case False
      then have "n < 4" "Suc n < 5" using Cons.prems by simp_all
      then show ?thesis using Cons.IH[of "Suc n"] by (simp only: failed tick_goes_on finds_failed)
    qed
  qed
qed

text \<open>A poll ends with a value exactly when a check finds it, before any other value and before five checks in a row failed.\<close>

lemma poll_finds:
  "pl_result (poll_run cs (poll_start p)) = Some v \<longleftrightarrow>
   (\<exists>before after. cs = before @ found v # after \<and> (\<forall>w. found w \<notin> set before) \<and> \<not> sublist (replicate 5 failed) before)"
proof -
  let ?p = "p\<lparr>pl_status := polling, pl_ticks := Suc (pl_ticks p)\<rparr>"
  have "poll_start p = ?p\<lparr>pl_failures := 0, pl_result := None, pl_timer := False\<rparr>"
    by (simp add: poll_start_def poll_stop_def)
  then show ?thesis using poll_continues[of 0 cs ?p v] five_failures_first by (auto simp: finds_def)
qed

text \<open>Stopping only clears the timer: a check under way goes on polling after the page is gone, and a \<open>checkNow\<close> beside a
  check under way leaves two timers, of which a stop finds one.\<close>

lemma stop_misses_check_under_way: "pl_timer (tick_returns nothing (poll_stop (poll_start initial_poll)))"
  by (simp add: poll_start_def poll_stop_def tick_returns_def set_timer_def)

lemma check_now_doubles_poll:
  "let p = checkNow_returns nothing (tick_returns nothing (checkNow (poll_start initial_poll))) in
   pl_timer p \<and> pl_lost p = 1 \<and> pl_lost (poll_stop p) = 1"
  by (simp add: poll_start_def poll_stop_def tick_returns_def set_timer_def checkNow_def checkNow_returns_def initial_poll_def Let_def)

text \<open>A name is shown for the very pair it was looked up for; a field emptied while its lookup is under way leaves the
  indicator on.\<close>

lemma name_belongs_to_pair:
  "confirmedName (lookup_returns (Inr n) l) = Some n \<and>
   (account \<noteq> lk_account l \<or> bank \<noteq> lk_bank l \<longrightarrow> confirmedName (change_pair account bank (lookup_returns (Inr n) l)) = None)"
  by (auto simp: confirmedName_def lookup_returns_def change_pair_def isComplete_def Let_def)

lemma indicator_stays_on:
  assumes "lk_isLookingUp l" and "account \<noteq> lk_account l" and "length account \<noteq> NUBAN_LENGTH"
  shows "lk_isLookingUp (change_pair account bank l) \<and> \<not> isComplete (change_pair account bank l)"
  using assms by (simp add: change_pair_def isComplete_def Let_def)

end
