(* ===== verification/Web_Session_Laws.thy ===== *)
theory Web_Session_Laws
  imports Web_Session Auth_Laws
begin

text \<open>
  What the browser gets from its session: an expired access token is renewed behind its back, a session that is dead
  ends on the login page; and where the two sides do not fit: a logout that the backend never accepts, two requests
  at once that end the session they share, tokens in the answer that should only be in cookies.
\<close>

section \<open>The backend as the proxy sees it\<close>

lemma bearer_built: "bearer_of (buildHeaders rq token) = (if truthy token then token else None)"
proof -
  have "map_of (concat (map (\<lambda>name. case map_of (wq_headers rq) name of
      Some v \<Rightarrow> if v = [] then [] else [(name, v)] | None \<Rightarrow> []) FORWARDED_REQUEST_HEADERS) @ xs) ''Authorization'' = map_of xs ''Authorization''" for xs
    by (simp add: FORWARDED_REQUEST_HEADERS_def split: option.split)
  then show ?thesis
    by (auto simp: bearer_of_def buildHeaders_def starts_with_def truthy_def)
qed

definition answer_of :: "auth_reply http \<Rightarrow> backend_response" where
  "answer_of a = \<lparr>br_status = http_status a, br_data = http_json a, br_retryAfter = map_option show_int (http_retry_after a)\<rparr>"

lemma backend_run:
  "glasspot_backend parse z k w q s =
   (case backend_routes z k w (bq_method q) (bq_url q)
      (case bq_data q of no_data \<Rightarrow> None | raw_text t \<Rightarrow> parse t | json_data j \<Rightarrow> Some j) (bearer_of (bq_headers q)) s of
      (Inl e, t) \<Rightarrow> (Inl e, t) | (Inr a, t) \<Rightarrow> (Inr (answer_of a), t))"
  by (simp add: glasspot_backend_def answer_of_def bnd_def ret_def split: prod.split sum.split)

definition refresh_request :: "string \<Rightarrow> backend_request" where
  "refresh_request t = \<lparr>bq_url = ''/auth/refresh'', bq_method = ''POST'',
     bq_data = json_data (JObj [(''refreshToken'', JStr t)]), bq_headers = []\<rparr>"

lemma backend_refresh:
  assumes "rt_coerce z (JStr t) = Some t"
  shows "glasspot_backend parse z k w (refresh_request t) s =
    (case refresh k w t s of
       (Inl e, s') \<Rightarrow> (Inr (answer_of (sendErrorResponse e)), s')
     | (Inr p, s') \<Rightarrow> (Inr (answer_of (answered 200 (new_tokens p))), s'))"
  using assms
  by (simp add: backend_run refresh_request_def backend_routes_def authRoutes_def with_body_def refreshTokenSchema_def text_field_def
      refreshHandler_def respond_run bnd_def ret_def split: prod.split sum.split)

definition me_request :: "(string \<times> string) list \<Rightarrow> web_request" where
  "me_request headers = \<lparr>wq_path = [''me''], wq_search = [], wq_method = ''GET'', wq_headers = headers, wq_body = []\<rparr>"

lemma backend_me:
  "glasspot_backend parse z k w (proxied (me_request hs) token) s =
   (case authenticate k w (if truthy token then token else None) s of
      Inl a \<Rightarrow> (Inr (answer_of a), s)
    | Inr i \<Rightarrow> (case getMeHandler i s of (Inl e, t) \<Rightarrow> (Inl e, t) | (Inr a, t) \<Rightarrow> (Inr (answer_of a), t)))"
proof -
  have url: "bq_url (proxied (me_request hs) token) = ''/me''" "bq_method (proxied (me_request hs) token) = ''GET''"
    "bearer_of (bq_headers (proxied (me_request hs) token)) = (if truthy token then token else None)"
    by (simp_all add: proxied_def me_request_def target_path_def bearer_built)
  show ?thesis
    unfolding backend_run url
    by (simp add: backend_routes_def meRoutes_def authenticated_def split: sum.split)
qed

section \<open>The proxy\<close>

lemma getSessionTokens_run:
  "getSessionTokens (s, st) = (Inr (cookie ACCESS_TOKEN_COOKIE st, cookie REFRESH_TOKEN_COOKIE st), (s, st))"
  by (simp add: getSessionTokens_def gets_def)

lemma on_backend_run: "on_backend m (s, st) = (case m s of (r, t) \<Rightarrow> (r, (t, st)))"
  by (simp add: on_backend_def)

definition cleared :: "cookie_store \<Rightarrow> cookie_store" where
  "cleared st = write_cookie (delete_cookie REFRESH_TOKEN_COOKIE) (write_cookie (delete_cookie ACCESS_TOKEN_COOKIE) st)"

definition signed :: "string \<Rightarrow> string \<Rightarrow> cookie_store \<Rightarrow> cookie_store" where
  "signed a r st = write_cookie (set_cookie REFRESH_TOKEN_COOKIE r REFRESH_TOKEN_MAX_AGE_SECONDS)
     (write_cookie (set_cookie ACCESS_TOKEN_COOKIE a ACCESS_TOKEN_MAX_AGE_SECONDS) st)"

lemma cookie_writes:
  "clearSessionCookies (s, st) = (Inr (), (s, cleared st))" "setSessionCookies a r (s, st) = (Inr (), (s, signed a r st))"
  by (simp_all add: clearSessionCookies_def setSessionCookies_def on_cookies_def modify_def cleared_def signed_def)

lemma refreshSession_run:
  "refreshSession send t (s, st) =
   (case send (refresh_request t) s of
      (Inl e, s') \<Rightarrow> (Inl e, (s', st))
    | (Inr resp, s') \<Rightarrow>
        if br_status resp \<noteq> 200 then (Inr None, (s', cleared st))
        else (case token_pair (br_data resp) () of
           (Inl e, _) \<Rightarrow> (Inl e, (s', st)) | (Inr (a, r), _) \<Rightarrow> (Inr (Some a), (s', signed a r st))))"
  by (auto simp: refreshSession_def post_def refresh_request_def on_backend_run bnd_def ret_def throw_def token_pair_def cookie_writes
      split: prod.split sum.split option.split json.split)

lemma forward_run:
  "forward send rq (s, st) =
   (case send (proxied rq (cookie ACCESS_TOKEN_COOKIE st)) s of
      (Inl e, t) \<Rightarrow> (Inl e, (t, st))
    | (Inr resp, t) \<Rightarrow>
        if br_status resp \<noteq> 401 then (Inr (passed_on resp), (t, st))
        else if \<not> truthy (cookie REFRESH_TOKEN_COOKIE st) then (Inr (passed_on resp), (t, cleared st))
        else (case refreshSession send (the (cookie REFRESH_TOKEN_COOKIE st)) (t, st) of
           (Inl e, u) \<Rightarrow> (Inl e, u)
         | (Inr new, (t', st')) \<Rightarrow>
             if truthy new then (case send (proxied rq new) t' of
                (Inl e, t'') \<Rightarrow> (Inl e, (t'', st')) | (Inr resp', t'') \<Rightarrow> (Inr (passed_on resp'), (t'', st')))
             else (Inr (passed_on resp), (t', st'))))"
  by (auto simp: forward_def getSessionTokens_run on_backend_run bnd_def ret_def cookie_writes truthy_def
      split: prod.split sum.split option.split)

section \<open>The jar\<close>

lemma sent_cons: "map_of (sent_cookies now ((n, v, t) # jar)) m =
   (if m = n \<and> now < t then Some v else map_of (sent_cookies now jar) m)"
  by (simp add: sent_cookies_def)

lemma sent_removed: "map_of (sent_cookies now (filter (\<lambda>(m, v, t). m \<noteq> n) jar)) m =
   (if m = n then None else map_of (sent_cookies now jar) m)"
  by (induction jar) (auto simp: sent_cookies_def)

definition signed_jar :: "time \<Rightarrow> string \<Rightarrow> string \<Rightarrow> jar \<Rightarrow> jar" where
  "signed_jar now a r jar = foldl (receive_cookie now) jar
     [set_cookie ACCESS_TOKEN_COOKIE a ACCESS_TOKEN_MAX_AGE_SECONDS, set_cookie REFRESH_TOKEN_COOKIE r REFRESH_TOKEN_MAX_AGE_SECONDS]"

definition cleared_jar :: "time \<Rightarrow> jar \<Rightarrow> jar" where
  "cleared_jar now jar = foldl (receive_cookie now) jar [delete_cookie ACCESS_TOKEN_COOKIE, delete_cookie REFRESH_TOKEN_COOKIE]"

lemmas cookie_constants = ACCESS_TOKEN_COOKIE_def REFRESH_TOKEN_COOKIE_def ACCESS_TOKEN_MAX_AGE_SECONDS_def REFRESH_TOKEN_MAX_AGE_SECONDS_def

lemma signed_jar_sends:
  "map_of (sent_cookies now (signed_jar now a r jar)) ACCESS_TOKEN_COOKIE = Some a"
  "map_of (sent_cookies now (signed_jar now a r jar)) REFRESH_TOKEN_COOKIE = Some r"
  by (simp_all add: signed_jar_def receive_cookie_def cookie_constants sent_cons sent_removed)

lemma cleared_jar_sends: "\<not> has_session (sent_cookies now (cleared_jar now jar))"
  by (simp add: cleared_jar_def receive_cookie_def cookie_constants sent_removed has_session_def del: filter_filter)

lemma outs:
  "cs_out (cleared \<lparr>cs_values = c, cs_out = []\<rparr>) = [delete_cookie ACCESS_TOKEN_COOKIE, delete_cookie REFRESH_TOKEN_COOKIE]"
  "cs_out (signed a r \<lparr>cs_values = c, cs_out = []\<rparr>) =
     [set_cookie ACCESS_TOKEN_COOKIE a ACCESS_TOKEN_MAX_AGE_SECONDS, set_cookie REFRESH_TOKEN_COOKIE r REFRESH_TOKEN_MAX_AGE_SECONDS]"
  by (simp_all add: cleared_def signed_def write_cookie_def)

section \<open>Logging out\<close>

definition logout_request :: "string \<Rightarrow> backend_request" where
  "logout_request accessToken = \<lparr>bq_url = ''/auth/logout'', bq_method = ''POST'', bq_data = json_data (JObj []),
     bq_headers = [(''Authorization'', ''Bearer '' @ accessToken)]\<rparr>"

lemma logoutRoute_run:
  "logoutRoute send (s, st) =
   (if truthy (cookie ACCESS_TOKEN_COOKIE st)
    then (case send (logout_request (the (cookie ACCESS_TOKEN_COOKIE st))) s of
        (Inl e, t) \<Rightarrow> (Inl e, (t, st)) | (Inr a, t) \<Rightarrow> (Inr (message_response 200 ''Logged out''), (t, cleared st)))
    else (Inr (message_response 200 ''Logged out''), (s, cleared st)))"
  by (simp add: logoutRoute_def getSessionTokens_run post_def logout_request_def on_backend_run bnd_def ret_def cookie_writes
      split: prod.split sum.split)

text \<open>C34. Logging out on the web ends nothing on the backend. The web server sends the logout an empty JSON object, which the
  route's body schema refuses before the handler runs: the browser is told it is logged out and its cookies are gone, but
  every table of the backend is as it was, so the refresh token (and the access token, until it expires) still works.\<close>

theorem web_logout_keeps_session:
  "\<exists>jar'. browse (logoutRoute (glasspot_backend parse z k w)) now jar s = (Inr (message_response 200 ''Logged out''), s, jar') \<and>
    \<not> has_session (sent_cookies now jar')"
proof -
  have refused: "\<exists>a. glasspot_backend parse z k w (logout_request t) s = (Inr a, s)" for t
    by (simp add: logout_request_def backend_run backend_routes_def authRoutes_def with_body_def logoutSchema_def text_field_def ret_def)
  have "logoutRoute (glasspot_backend parse z k w) (s, st) = (Inr (message_response 200 ''Logged out''), (s, cleared st))" for st
    using refused[of "the (cookie ACCESS_TOKEN_COOKIE st)"] by (auto simp: logoutRoute_run)
  then show ?thesis
    using cleared_jar_sends by (auto simp: browse_def exchange_def outs cleared_jar_def)
qed

section \<open>Renewing a session\<close>

text \<open>A refresh token that the backend would exchange for user \<open>u\<close>.\<close>

definition live_session :: "crypto \<Rightarrow> env \<Rightarrow> string \<Rightarrow> user \<Rightarrow> db \<Rightarrow> bool" where
  "live_session k w token u s \<longleftrightarrow> token \<noteq> [] \<and>
     (case k_verifyRefresh k (e_now w) token of
        None \<Rightarrow> False
      | Some (i, jti) \<Rightarrow> find_user i s = Some u \<and> truthy (u_refreshTokenHash u) \<and> u_refreshTokenHash u = Some (k_sha k jti) \<and>
          (case u_refreshTokenExpiresAt u of None \<Rightarrow> False | Some x \<Rightarrow> \<not> x < e_now w))"

definition next_token_id :: "env \<Rightarrow> db \<Rightarrow> string" where
  "next_token_id w s = uuid_text (e_uuid w (randomDraws s))"

definition next_expiry :: "env \<Rightarrow> time" where
  "next_expiry w = e_now w + REFRESH_TOKEN_TTL_DAYS * 24 * 60 * 60 * 1000"

lemma refresh_live:
  assumes "live_session k w token u s" and "e_gap w = id"
  shows "\<exists>t. refresh k w token s = (Inr (k_signAccess k (u_id u) (u_tokenVersion u) (e_now w),
      k_signRefresh k (u_id u) (next_token_id w s) (e_now w)), t) \<and>
    find_user (u_id u) t = Some (set_refresh (k_sha k (next_token_id w s)) (next_expiry w) u) \<and>
    (\<forall>jti. k_verifyRefresh k (e_now w) token = Some (u_id u, jti) \<and> k_sha k (next_token_id w s) \<noteq> k_sha k jti \<longrightarrow>
       (\<forall>x \<in> set (users t). \<not> (u_id x = u_id u \<and> u_refreshTokenHash x = Some (k_sha k jti))))"
proof -
  obtain i jti x where v: "k_verifyRefresh k (e_now w) token = Some (i, jti)" and u: "find_user i s = Some u"
      "truthy (u_refreshTokenHash u)" "u_refreshTokenExpiresAt u = Some x" "\<not> x < e_now w"
      and h: "u_refreshTokenHash u = Some (k_sha k jti)"
    using assms(1) by (auto simp: live_session_def split: option.splits)
  have i: "i = u_id u" using find_user_id[OF u(1)] by simp
  let ?P = "\<lambda>u'. u_id u' = u_id u \<and> u_refreshTokenHash u' = Some (k_sha k jti)"
  let ?f = "set_refresh (k_sha k (next_token_id w s)) (next_expiry w)"
  have first: "find ?P (users s) = Some u"
    using u(1) h i by (auto simp: find_user_def find_Some_iff)
  let ?t = "s\<lparr>randomDraws := Suc (randomDraws s), users := update_where ?P ?f (users s)\<rparr>"
  have "refresh k w token s = (Inr (k_signAccess k (u_id u) (u_tokenVersion u) (e_now w),
      k_signRefresh k (u_id u) (next_token_id w s) (e_now w)), ?t)"
    unfolding refresh_unfold[OF v u] Let_def using first assms(2) i by (simp add: rotate_def next_token_id_def next_expiry_def)
  moreover have "find (\<lambda>u'. u_id u' = u_id u) (update_where ?P ?f (users s)) =
      map_option (\<lambda>u'. if ?P u' then ?f u' else u') (find (\<lambda>u'. u_id u' = u_id u) (users s))"
    by (rule find_id_update) (rule session_updates(3))
  then have "find_user (u_id u) ?t = Some (?f u)"
    using u(1) h i by (simp add: find_user_def)
  moreover have "\<not> ?P y" if "k_sha k (next_token_id w s) \<noteq> k_sha k jti" "y \<in> set (update_where ?P ?f (users s))" for y
    using that by (auto simp: update_where_def set_refresh_def split: if_splits)
  ultimately show ?thesis using v i by fastforce
qed

definition profile_of :: "user \<Rightarrow> profile" where
  "profile_of u = \<lparr>pr_user = toPublicUser u, pr_phone = u_phone u, pr_defaultRefundAccount = u_defaultRefundAccount u,
     pr_defaultRefundBank = u_defaultRefundBank u\<rparr>"

lemma getMe_run: "find_user i s = Some u \<Longrightarrow> getMeHandler i s = (Inr (answered 200 (my_profile (profile_of u))), s)"
  by (simp add: getMeHandler_def respond_run getProfile_def gets_def bnd_def ret_def profile_of_def)

text \<open>The browser's side: it sends the refresh token, and no access token that still verifies.\<close>

definition sends_expired :: "crypto \<Rightarrow> env \<Rightarrow> string \<Rightarrow> (string \<times> string) list \<Rightarrow> bool" where
  "sends_expired k w token cookies \<longleftrightarrow> map_of cookies REFRESH_TOKEN_COOKIE = Some token \<and>
     Option.bind (map_of cookies ACCESS_TOKEN_COOKIE) (k_verifyAccess k (e_now w)) = None"

lemma first_try_refused:
  assumes "sends_expired k w token cookies"
  shows "glasspot_backend parse z k w (proxied (me_request hs) (map_of cookies ACCESS_TOKEN_COOKIE)) s =
    (Inr (answer_of (refused 401 ''Unauthorized'' None)), s)"
  using assms by (auto simp: backend_me authenticate_def sends_expired_def truthy_def split: option.split)

lemma renewed:
  assumes "live_session k w token u s" and "e_gap w = id" and "sends_expired k w token cookies"
    and "rt_coerce z (JStr token) = Some token"
    and "access = k_signAccess k (u_id u) (u_tokenVersion u) (e_now w)"
    and "access \<noteq> []" and "k_verifyAccess k (e_now w) access = Some (u_id u, u_tokenVersion u)"
  shows "\<exists>t. exchange cookies (forward (glasspot_backend parse z k w) (me_request hs)) now jar s =
      (Inr \<lparr>ws_status = 200, ws_data = reply_json (my_profile (profile_of u)), ws_retryAfter = None\<rparr>, t,
       signed_jar now access (k_signRefresh k (u_id u) (next_token_id w s) (e_now w)) jar) \<and>
    t = snd (refresh k w token s)"
proof -
  obtain t where t: "refresh k w token s = (Inr (access, k_signRefresh k (u_id u) (next_token_id w s) (e_now w)), t)"
      "find_user (u_id u) t = Some (set_refresh (k_sha k (next_token_id w s)) (next_expiry w) u)"
    using refresh_live[OF assms(1,2)] assms(5) by blast
  have token: "token \<noteq> []" using assms(1) by (simp add: live_session_def)
  have "profile_of (set_refresh h x u) = profile_of u" "u_tokenVersion (set_refresh h x u) = u_tokenVersion u" for h x
    by (simp_all add: profile_of_def toPublicUser_def set_refresh_def)
  then have again: "glasspot_backend parse z k w (proxied (me_request hs) (Some access)) t =
      (Inr (answer_of (answered 200 (my_profile (profile_of u)))), t)"
    using assms(6,7) t(2) getMe_run[OF t(2)]
    by (simp add: backend_me authenticate_def truthy_def isTokenVersionCurrent_def)
  have sent: "cookie n \<lparr>cs_values = cookies, cs_out = []\<rparr> = map_of cookies n" for n by (simp add: cookie_def)
  show ?thesis
    using assms(3,6) t(1) again token
    by (simp add: exchange_def forward_run sent first_try_refused[OF assms(3)] refreshSession_run backend_refresh[OF assms(4)]
        answer_of_def truthy_def token_pair_def ret_def passed_on_def sends_expired_def outs signed_jar_def)
qed

text \<open>An expired access token is renewed behind the page's back. When the browser sends a refresh token the backend would
  exchange and no access token that verifies, a call through the proxy is answered in one go with the user's profile, and
  the browser holds the new access token and the refresh token that goes with it.\<close>

lemma expired_access_is_renewed:
  assumes "live_session k w token u s" and "e_gap w = id" and "sends_expired k w token (sent_cookies now jar)"
    and "rt_coerce z (JStr token) = Some token"
    and "access = k_signAccess k (u_id u) (u_tokenVersion u) (e_now w)"
    and "access \<noteq> []" and "k_verifyAccess k (e_now w) access = Some (u_id u, u_tokenVersion u)"
  shows "\<exists>t jar'. browse (forward (glasspot_backend parse z k w) (me_request hs)) now jar s =
      (Inr \<lparr>ws_status = 200, ws_data = reply_json (my_profile (profile_of u)), ws_retryAfter = None\<rparr>, t, jar') \<and>
    authenticate k w (map_of (sent_cookies now jar') ACCESS_TOKEN_COOKIE) t = (Inr (u_id u) :: unit http + uuid) \<and>
    map_of (sent_cookies now jar') REFRESH_TOKEN_COOKIE = Some (k_signRefresh k (u_id u) (next_token_id w s) (e_now w))"
proof -
  obtain t where run: "exchange (sent_cookies now jar) (forward (glasspot_backend parse z k w) (me_request hs)) now jar s =
      (Inr \<lparr>ws_status = 200, ws_data = reply_json (my_profile (profile_of u)), ws_retryAfter = None\<rparr>, t,
       signed_jar now access (k_signRefresh k (u_id u) (next_token_id w s) (e_now w)) jar)" "t = snd (refresh k w token s)"
    using renewed[OF assms] by blast
  have "find_user (u_id u) t = Some (set_refresh (k_sha k (next_token_id w s)) (next_expiry w) u)"
    using refresh_live[OF assms(1,2)] run(2) by auto
  then have "authenticate k w (Some access) t = (Inr (u_id u) :: unit http + uuid)"
    using assms(7) by (simp add: authenticate_def isTokenVersionCurrent_def set_refresh_def)
  then show ?thesis
    using run(1) by (auto simp: browse_def signed_jar_sends)
qed

section \<open>Two requests at once\<close>

lemma refreshed_again:
  assumes "live_session k w token u s" and "e_gap w = id" and "k_verifyRefresh k (e_now w) token = Some (u_id u, jti)"
    and "k_sha k (next_token_id w s) \<noteq> k_sha k jti" and "k_sha k (next_token_id w s) \<noteq> []"
  shows "\<exists>t. refresh k w token (snd (refresh k w token s)) = (Inl reuse_detected, t) \<and>
    version_of (u_id u) t = Some (u_tokenVersion u + 1) \<and> map_option u_refreshTokenHash (find_user (u_id u) t) = Some None"
proof -
  let ?h = "k_sha k (next_token_id w s)" and ?s1 = "snd (refresh k w token s)"
  let ?u = "set_refresh ?h (next_expiry w) u" and ?P = "\<lambda>x. u_id x = u_id u \<and> u_refreshTokenHash x = Some (k_sha k jti)"
  have found: "find_user (u_id u) ?s1 = Some ?u" and gone: "\<forall>x \<in> set (users ?s1). \<not> ?P x"
    using refresh_live[OF assms(1,2)] assms(3,4) by auto
  have none: "find ?P (users ?s1) = None" using gone by (auto simp: find_None_iff)
  have live: "truthy (u_refreshTokenHash ?u)" "u_refreshTokenExpiresAt ?u = Some (next_expiry w)" "\<not> next_expiry w < e_now w"
    using assms(5) by (simp_all add: set_refresh_def truthy_def next_expiry_def REFRESH_TOKEN_TTL_DAYS_def)
  let ?d = "?s1\<lparr>randomDraws := Suc (randomDraws ?s1)\<rparr>" and ?t = "snd (update_user (u_id u) revoke_session (?s1\<lparr>randomDraws := Suc (randomDraws ?s1)\<rparr>))"
  have "refresh k w token ?s1 = (Inl reuse_detected, ?t)"
    unfolding refresh_unfold[OF assms(3) found live] Let_def assms(2) using none by (simp add: rotate_def)
  moreover have "find_user (u_id u) ?t = map_option revoke_session (find_user (u_id u) ?d)"
    unfolding update_user_run snd_conv by (subst find_updated_user) (rule session_updates(1), simp)
  then have "find_user (u_id u) ?t = Some (revoke_session ?u)" using found by (simp add: find_user_def)
  ultimately show ?thesis by (auto simp: version_of_def revoke_session_def set_refresh_def)
qed

text \<open>C33. Two requests at once end the session they share. When a page makes two calls with the same expired access token,
  as any page that loads several things does after a quarter of an hour, the first is answered with a renewed session;
  the second presents the refresh token that the first has just exchanged, which the backend takes for theft: it is
  answered 401, the session is revoked, the tokens the first call was given are dead, and the browser's cookies are
  cleared. (Two token ids with different hashes.)\<close>

theorem parallel_calls_end_session:
  assumes "live_session k w token u s" and "e_gap w = id" and "sends_expired k w token (sent_cookies now jar)"
    and "rt_coerce z (JStr token) = Some token"
    and "access = k_signAccess k (u_id u) (u_tokenVersion u) (e_now w)"
    and "access \<noteq> []" and "k_verifyAccess k (e_now w) access = Some (u_id u, u_tokenVersion u)"
    and "k_verifyRefresh k (e_now w) token = Some (u_id u, jti)"
    and "k_sha k (next_token_id w s) \<noteq> k_sha k jti" and "k_sha k (next_token_id w s) \<noteq> []"
  shows "\<exists>answer1 answer2 s1 s2 jar1 jar2.
    browse (forward (glasspot_backend parse z k w) (me_request hs)) now jar s = (Inr answer1, s1, jar1) \<and> ws_status answer1 = 200 \<and>
    exchange (sent_cookies now jar) (forward (glasspot_backend parse z k w) (me_request hs)) now jar1 s1 = (Inr answer2, s2, jar2) \<and>
    ws_status answer2 = 401 \<and> \<not> has_session (sent_cookies now jar2) \<and>
    authenticate k w (Some access) s2 = (Inl (refused 401 ''Unauthorized'' None) :: unit http + uuid) \<and>
    map_option u_refreshTokenHash (find_user (u_id u) s2) = Some None"
proof -
  let ?B = "glasspot_backend parse z k w" and ?c = "sent_cookies now jar" and ?s1 = "snd (refresh k w token s)"
  let ?jar1 = "signed_jar now access (k_signRefresh k (u_id u) (next_token_id w s) (e_now w)) jar"
  have first: "browse (forward ?B (me_request hs)) now jar s =
      (Inr \<lparr>ws_status = 200, ws_data = reply_json (my_profile (profile_of u)), ws_retryAfter = None\<rparr>, ?s1, ?jar1)"
    using renewed[OF assms(1-7)] unfolding browse_def by blast
  obtain t where again: "refresh k w token ?s1 = (Inl reuse_detected, t)" "version_of (u_id u) t = Some (u_tokenVersion u + 1)"
      "map_option u_refreshTokenHash (find_user (u_id u) t) = Some None"
    using refreshed_again[OF assms(1,2,8-10)] by blast
  have sent: "cookie n \<lparr>cs_values = ?c, cs_out = []\<rparr> = map_of ?c n" for n by (simp add: cookie_def)
  have token: "map_of ?c REFRESH_TOKEN_COOKIE = Some token" "token \<noteq> []"
    using assms(1,3) by (simp_all add: sends_expired_def live_session_def)
  have "forward ?B (me_request hs) (?s1, \<lparr>cs_values = ?c, cs_out = []\<rparr>) =
      (Inr (passed_on (answer_of (refused 401 ''Unauthorized'' None))), (t, cleared \<lparr>cs_values = ?c, cs_out = []\<rparr>))"
    using token by (simp add: forward_run sent first_try_refused[OF assms(3)] refreshSession_run backend_refresh[OF assms(4)] again(1)
        truthy_def answer_of_def reuse_detected_def sendErrorResponse_def)
  then have "exchange ?c (forward ?B (me_request hs)) now ?jar1 ?s1 =
      (Inr (passed_on (answer_of (refused 401 ''Unauthorized'' None))), t, cleared_jar now ?jar1)"
    by (simp add: exchange_def outs cleared_jar_def)
  moreover have "authenticate k w (Some access) t = (Inl (refused 401 ''Unauthorized'' None) :: unit http + uuid)"
    using assms(7) again(2) by (auto simp: authenticate_def isTokenVersionCurrent_def version_of_def)
  ultimately show ?thesis
    using first again(3) cleared_jar_sends[of now ?jar1] by (force simp: passed_on_def answer_of_def)
qed

section \<open>A session to look at\<close>

definition example_routes :: route_world where
  "example_routes = \<lparr>rt_coerce = (\<lambda>j. case j of JStr t \<Rightarrow> Some t | _ \<Rightarrow> None), rt_email = (\<lambda>t. True), rt_errors = (\<lambda>b. [])\<rparr>"

definition example_jar :: jar where
  "example_jar = [(''glasspot_rt'', ''rfirst'', 50)]"

lemma example_session:
  "live_session example_crypto example_env ''rfirst'' session_user session_db" "e_gap example_env = id"
  "sends_expired example_crypto example_env ''rfirst'' (sent_cookies 0 example_jar)" "rt_coerce example_routes (JStr ''rfirst'') = Some ''rfirst''"
  "''a'' = k_signAccess example_crypto (u_id session_user) (u_tokenVersion session_user) (e_now example_env)" "''a'' \<noteq> []"
  "k_verifyAccess example_crypto (e_now example_env) ''a'' = Some (u_id session_user, u_tokenVersion session_user)"
  "k_verifyRefresh example_crypto (e_now example_env) ''rfirst'' = Some (u_id session_user, ''first'')"
  by (simp_all add: live_session_def example_crypto_def session_db_def session_user_def find_user_def example_env_def truthy_def
      sends_expired_def example_jar_def sent_cookies_def REFRESH_TOKEN_COOKIE_def ACCESS_TOKEN_COOKIE_def example_routes_def)

lemma expired_access_is_renewed_witness:
  "\<exists>t jar'. browse (forward (glasspot_backend (\<lambda>t. None) example_routes example_crypto example_env) (me_request [])) 0 example_jar session_db =
      (Inr \<lparr>ws_status = 200, ws_data = reply_json (my_profile (profile_of session_user)), ws_retryAfter = None\<rparr>, t, jar') \<and>
    authenticate example_crypto example_env (map_of (sent_cookies 0 jar') ''glasspot_at'') t = (Inr 1 :: unit http + uuid)"
  using expired_access_is_renewed[OF example_session(1-7), of "\<lambda>t. None" "[]"]
  by (auto simp: ACCESS_TOKEN_COOKIE_def session_user_def)

theorem parallel_calls_end_session_witness:
  "\<exists>answer1 answer2 s1 s2 jar1 jar2.
    browse (forward (glasspot_backend (\<lambda>t. None) example_routes example_crypto example_env) (me_request [])) 0 example_jar session_db =
      (Inr answer1, s1, jar1) \<and> ws_status answer1 = 200 \<and>
    exchange (sent_cookies 0 example_jar) (forward (glasspot_backend (\<lambda>t. None) example_routes example_crypto example_env) (me_request []))
      0 jar1 s1 = (Inr answer2, s2, jar2) \<and> ws_status answer2 = 401 \<and> \<not> has_session (sent_cookies 0 jar2)"
proof -
  have fresh: "k_sha example_crypto (next_token_id example_env session_db) \<noteq> k_sha example_crypto ''first''"
    "k_sha example_crypto (next_token_id example_env session_db) \<noteq> []"
    using length_uuid_text[of "e_uuid example_env (randomDraws session_db)"] by (auto simp: example_crypto_def next_token_id_def)
  show ?thesis
    using parallel_calls_end_session[OF example_session fresh, of "\<lambda>t. None" "[]"] by fast
qed

section \<open>Dead sessions and the login page\<close>

lemma gate_never_loops: "proxy live page = redirect_to p back \<Longrightarrow> proxy live p = next_page"
  by (auto simp: proxy_def GUEST_ONLY_ROUTES_def PROTECTED_PREFIXES_def starts_with_def isProtectedPotRoute_def split: if_splits)

text \<open>Any refusal of a refresh clears the cookies, also a 429 or a 500 that says nothing about the session.\<close>

lemma refused_refresh_clears:
  assumes "send (refresh_request t) s = (Inr resp, s')" and "br_status resp \<noteq> 200"
  shows "refreshSession send t (s, st) = (Inr None, (s', cleared st))"
  using assms by (simp add: refreshSession_run)

lemma forward_refused:
  assumes "forward send rq (s, \<lparr>cs_values = c, cs_out = []\<rparr>) = (Inr a, (t, st))" and "ws_status a = 401"
    and "\<forall>token s1 s2 r. send (refresh_request token) s1 = (Inr r, s2) \<longrightarrow> br_status r \<noteq> 200"
  shows "st = cleared \<lparr>cs_values = c, cs_out = []\<rparr>"
  using assms
  by (auto simp: forward_run refreshSession_run passed_on_def truthy_def split: prod.splits sum.splits if_splits)

text \<open>A dead session ends on the login page. When the backend exchanges no refresh token for the browser any more, a call
  answered 401 through the proxy leaves it with no session cookie; and from there every page that is not open to all sends it
  to the login page, which lets it in: it is not bounced between pages.\<close>

lemma dead_session_lands_on_login:
  assumes "browse (forward send rq) now jar s = (Inr a, t, jar')" and "ws_status a = 401"
    and "\<forall>token s1 s2 r. send (refresh_request token) s1 = (Inr r, s2) \<longrightarrow> br_status r \<noteq> 200"
  shows "let live = has_session (sent_cookies now jar') in \<not> live \<and>
    (\<forall>page. proxy live page = next_page \<or> proxy live page = redirect_to ''/login'' (Some page) \<and> proxy live ''/login'' = next_page)"
proof -
  let ?st = "\<lparr>cs_values = sent_cookies now jar, cs_out = []\<rparr>"
  obtain st where run: "forward send rq (s, ?st) = (Inr a, (t, st))" "jar' = foldl (receive_cookie now) jar (cs_out st)"
    using assms(1) by (auto simp: browse_def exchange_def split: prod.splits sum.splits)
  have "jar' = cleared_jar now jar"
    using run(2) forward_refused[OF run(1) assms(2,3)] by (simp add: outs cleared_jar_def)
  moreover have "proxy False page = next_page \<or> proxy False page = redirect_to ''/login'' (Some page)" for page
    by (simp add: proxy_def)
  moreover have "proxy False ''/login'' = next_page" by code_simp
  ultimately show ?thesis using cleared_jar_sends[of now jar] by (simp add: Let_def)
qed

definition refusing_backend :: "unit backend" where
  "refusing_backend q s = (Inr \<lparr>br_status = 401, br_data = JNull, br_retryAfter = None\<rparr>, s)"

lemma dead_session_lands_on_login_witness:
  "\<exists>a jar'. browse (forward refusing_backend (me_request [])) 0 example_jar () = (Inr a, (), jar') \<and>
    \<not> has_session (sent_cookies 0 jar')"
proof -
  have "\<exists>a jar'. browse (forward refusing_backend (me_request [])) 0 example_jar () = (Inr a, (), jar') \<and> ws_status a = 401"
    by (simp add: browse_def exchange_def forward_run refreshSession_run refusing_backend_def passed_on_def split: sum.split prod.split)
  then obtain a jar' where run: "browse (forward refusing_backend (me_request [])) 0 example_jar () = (Inr a, (), jar')" "ws_status a = 401"
    by blast
  show ?thesis
    using dead_session_lands_on_login[OF run] run(1) by (auto simp: refusing_backend_def Let_def)
qed

text \<open>The routes that complete a sign-in put the tokens into cookies the page cannot read, and into the answer it can.\<close>

lemma tokens_reach_the_page:
  assumes "verifyOtpRoute send body (s, st) = (Inr a, u)" and "ws_status a = 200"
  shows "\<exists>access refreshToken. json_field ''accessToken'' (ws_data a) = Some (JStr access) \<and>
    json_field ''refreshToken'' (ws_data a) = Some (JStr refreshToken)"
  using assms
  by (auto simp: verifyOtpRoute_def post_def on_backend_run bnd_def ret_def throw_def keep_session_def token_pair_def echoed_def
      split: prod.splits sum.splits if_splits option.splits json.splits)

end
