(* ===== verification/Pots_Routes_Laws.thy ===== *)
theory Pots_Routes_Laws
  imports Pots_Routes Pots_Laws Web_Client Web_Session_Laws
begin

text \<open>
  What holds of the pots' routes: whatever a request carries, it is a call of the API or changes nothing, so every
  invariant of those calls is one of the requests; and without a valid token nothing changes on a route that
  \<open>server.authenticate\<close> guards.
\<close>

section \<open>A request is a call, or nothing\<close>

lemma snd_replied [simp]: "snd (replied f m s) = snd (m s)"
  by (simp add: replied_def bnd_def ret_def split: prod.split sum.split)

lemma with_id_cases:
  assumes "P s" and "\<And>potId. pz_uuid z i = Some potId \<Longrightarrow> P (snd (handler potId s))"
  shows "P (snd (with_id z i handler s))"
  using assms by (cases "pz_uuid z i") (simp_all add: with_id_def ret_def)

lemma with_json_cases:
  assumes "P s" and "\<And>input. Option.bind j schema = Some input \<Longrightarrow> P (snd (handler input s))"
  shows "P (snd (with_json z schema j handler s))"
  using assms by (cases "Option.bind j schema") (simp_all add: with_json_def ret_def)

lemma signed_in_cases:
  assumes "P s" and "\<And>user. P (snd (handler (Some user) s))"
  shows "P (snd (signed_in_as k w rq handler s))"
  using assms by (simp add: signed_in_as_def authenticated_def split: sum.split)

lemma maybe_signed_in_cases:
  assumes "\<And>user. P (snd (handler user s))"
  shows "P (snd (maybe_signed_in k w rq handler s))"
  using assms by (simp add: maybe_signed_in_def)

lemmas request_cases = with_id_cases with_json_cases signed_in_cases maybe_signed_in_cases

definition step_or_same :: "db \<Rightarrow> db \<Rightarrow> bool" where
  "step_or_same s t \<longleftrightarrow> pot_call s t \<or> t = s"

lemma step_or_same_refl: "step_or_same s s"
  by (simp add: step_or_same_def)

lemma step_or_same_call: "pot_call s (snd (m s)) \<Longrightarrow> step_or_same s (snd (replied f m s))"
  by (simp add: step_or_same_def)

lemma step_or_same_ret: "step_or_same s (snd (ret x s))"
  by (simp add: step_or_same_def ret_def)

lemmas request_steps = request_cases[where P = "step_or_same s" for s] step_or_same_refl step_or_same_ret step_or_same_call

lemma route_is_call:
  assumes "e_gap w = id"
  shows "step_or_same s (snd (run_route z k w rq r s))"
  using assms by (cases r)
    (auto simp del: snd_replied simp: with_ids_def split: option.split intro!: request_steps intro: pot_call.intros)

lemma request_is_call:
  assumes "e_gap w = id"
  shows "step_or_same s (snd (potsRoutes z k w rq s))"
  using route_is_call[OF assms] by (simp add: potsRoutes_def step_or_same_ret split: option.split)

text \<open>Requests one after another.\<close>

inductive pot_request :: "pots_world \<Rightarrow> crypto \<Rightarrow> db \<Rightarrow> db \<Rightarrow> bool" for z k where
  "e_gap w = id \<Longrightarrow> pot_request z k s (snd (potsRoutes z k w rq s))"

lemma requests_are_calls: "(pot_request z k)\<^sup>*\<^sup>* s t \<Longrightarrow> pot_call\<^sup>*\<^sup>* s t"
proof (induction rule: rtranclp_induct)
  case (step t u)
  have "step_or_same t u" using step.hyps(2) by (auto elim!: pot_request.cases dest: request_is_call)
  then show ?case using step.IH by (auto simp: step_or_same_def)
qed simp

corollary requests_advance: "(pot_request z k)\<^sup>*\<^sup>* s t \<Longrightarrow> good s \<Longrightarrow> advances s t"
  using pot_calls_advance requests_are_calls by blast

section \<open>Guarded routes\<close>

text \<open>The routes with \<open>server.optionalAuthenticate\<close>.\<close>

fun open_route :: "pot_route \<Rightarrow> bool" where
  "open_route route_list \<longleftrightarrow> True"
| "open_route (route_get _) \<longleftrightarrow> True"
| "open_route (route_contribute _) \<longleftrightarrow> True"
| "open_route (route_transactions _) \<longleftrightarrow> True"
| "open_route (route_members _) \<longleftrightarrow> True"
| "open_route _ \<longleftrightarrow> False"

definition turned_away :: "db \<Rightarrow> (error + 'a http) \<times> db \<Rightarrow> bool" where
  "turned_away s r \<longleftrightarrow> (\<exists>m. r = (Inr (refused 400 m None), s)) \<or> r = (Inr (refused 401 ''Unauthorized'' None), s)"

lemma turned_away_id:
  assumes "\<And>potId. turned_away s (handler potId s)"
  shows "turned_away s (with_id z i handler s)"
  using assms by (cases "pz_uuid z i") (simp_all add: with_id_def invalid_def turned_away_def ret_def)

lemma turned_away_json:
  assumes "\<And>input. turned_away s (handler input s)"
  shows "turned_away s (with_json z schema j handler s)"
  using assms by (cases "Option.bind j schema") (simp_all add: with_json_def invalid_def turned_away_def ret_def)

lemma turned_away_hook:
  assumes "authenticate k w (aq_bearer rq) s = Inl (answer :: 'a http)"
  shows "turned_away s (signed_in_as k w rq (handler :: uuid option \<Rightarrow> (db, 'a http) op) s)"
  using assms by (auto simp: signed_in_as_def authenticated_def authenticate_def turned_away_def split: option.splits if_splits)

lemmas turned_away = turned_away_id turned_away_json turned_away_hook

text \<open>C35. A caller without a valid token changes nothing on a guarded route. When the bearer token of a request is
  missing, invalid, expired or of a superseded version, every route of the pots other than the five that
  \<open>optionalAuthenticate\<close> serves (list, get, contribute, transactions, members) answers 401, or 400 when the path or
  the body is malformed, and the database stays as it is.\<close>

theorem signed_out_changes_nothing:
  assumes "authenticate k w (aq_bearer rq) s = Inl (answer :: pot_reply http)"
    and "route_of (aq_method rq) (aq_path rq) = Some r" and "\<not> open_route r"
  shows "turned_away s (potsRoutes z k w rq s)"
  using assms by (cases r) (simp_all add: potsRoutes_def with_ids_def turned_away)

text \<open>A payout that nobody signed in for.\<close>

definition example_pots_world :: pots_world where
  "example_pots_world = \<lparr>pz_route = example_routes, pz_uuid = (\<lambda>t. if t = ''pot'' then Some 7 else None), pz_int = (\<lambda>j. None),
     pz_bool = (\<lambda>j. None), pz_time = (\<lambda>t. None), pz_stringify = (\<lambda>j. []), pz_issue = (\<lambda>i. []), pz_sha = id, pz_collate = id,
     pz_origin = [], pz_contribution = (\<lambda>c. [])\<rparr>"

definition anonymous_payout :: api_request where
  "anonymous_payout = \<lparr>aq_method = ''POST'', aq_url = ''/api/v1/pots/pot/payout'', aq_path = [''pot'', ''payout''], aq_query = [],
     aq_bearer = None, aq_idempotencyKey = Some ''k'', aq_body = Some (JObj [(''otpCode'', JStr ''000000'')])\<rparr>"

theorem signed_out_changes_nothing_witness:
  "turned_away session_db (potsRoutes example_pots_world example_crypto example_env anonymous_payout session_db)"
  by (rule signed_out_changes_nothing[where r = "route_payout ''pot''" and answer = "refused 401 ''Unauthorized'' None"])
    (simp_all add: anonymous_payout_def authenticate_def route_of_def)

section \<open>The client's calls\<close>

definition routed :: "api_call \<Rightarrow> pot_route option" where
  "routed call = (let path = takeWhile (\<lambda>c. c \<noteq> CHR ''?'') (ac_path call) in
     if take 5 path = ''/pots'' then route_of (ac_method call) (tl (split_slash (drop 5 path))) else None)"

definition plain :: "string \<Rightarrow> bool" where
  "plain i \<longleftrightarrow> CHR ''/'' \<notin> set i \<and> CHR ''?'' \<notin> set i"

lemma split_slash_plain: "plain i \<Longrightarrow> split_slash i = [i]"
  by (induction i) (auto simp: plain_def)

lemma split_slash_segment: "plain i \<Longrightarrow> split_slash (i @ CHR ''/'' # rest) = i # split_slash rest"
  by (induction i) (auto simp: plain_def)

lemma takeWhile_plain: "plain i \<Longrightarrow> takeWhile (\<lambda>c. c \<noteq> CHR ''?'') (i @ rest) = i @ takeWhile (\<lambda>c. c \<noteq> CHR ''?'') rest"
  by (induction i) (auto simp: plain_def)

lemma takeWhile_plain_end: "plain i \<Longrightarrow> takeWhile (\<lambda>c. c \<noteq> CHR ''?'') i = i"
  using takeWhile_plain[of i "[]"] by simp

lemmas routed_simps = routed_def Let_def pot_path_def get_def bare_def send_json_def keyed_def route_of_def
  split_slash_plain split_slash_segment takeWhile_plain takeWhile_plain_end

text \<open>Every call of the web client names the route it means. For identifiers without a slash or a question mark, the
  method and the path that each function of \<open>lib/api.ts\<close> about pots builds select, among the routes of
  \<open>pots.route.ts\<close>, the handler of that operation on that pot, whatever its body and its idempotency key are.\<close>

lemma client_calls_are_routed:
  assumes "plain i" and "plain j"
  shows
    "routed (api_createPot b) = Some route_create \<and> routed (api_listPots enc scope q) = Some route_list \<and>
    routed (api_getPot i) = Some (route_get i) \<and> routed (api_updatePot i b) = Some (route_update i) \<and>
    routed (api_activatePot i) = Some (route_activate i) \<and> routed (api_deletePot i) = Some (route_delete i) \<and>
    routed (api_closePot i) = Some (route_close i) \<and> routed (api_getPotMembers i) = Some (route_members i) \<and>
    routed (api_getPendingMembers i) = Some (route_pending i) \<and> routed (api_addMember i b) = Some (route_add_member i) \<and>
    routed (api_updateMemberRole i j role) = Some (route_role i j) \<and> routed (api_removeMember i j) = Some (route_remove i j) \<and>
    routed (api_removePendingMember i j) = Some (route_remove_pending i j) \<and> routed (api_leavePot i) = Some (route_leave i) \<and>
    routed (api_getPotTransactions i) = Some (route_transactions i) \<and> routed (api_contribute uuid i b) = Some (route_contribute i) \<and>
    routed (api_requestPayoutOtp i b) = Some (route_payout_otp i) \<and> routed (api_triggerPayout uuid i b) = Some (route_payout i) \<and>
    routed (api_requestRefundOtp i) = Some (route_refund_otp i) \<and> routed (api_triggerRefund uuid i b) = Some (route_refund i)"
  using assms by (intro conjI; simp add: routed_simps api_createPot_def api_listPots_def api_getPot_def api_updatePot_def api_activatePot_def
      api_deletePot_def api_closePot_def api_getPotMembers_def api_getPendingMembers_def api_addMember_def api_updateMemberRole_def
      api_removeMember_def api_removePendingMember_def api_leavePot_def api_getPotTransactions_def api_contribute_def
      api_requestPayoutOtp_def api_triggerPayout_def api_requestRefundOtp_def api_triggerRefund_def)

lemma client_calls_are_routed_witness:
  "routed (api_createPot JNull) = Some route_create \<and> routed (api_listPots (\<lambda>_. ''scope=mine'') (Some ''mine'') None) = Some route_list \<and>
    routed (api_getPot ''pot'') = Some (route_get ''pot'') \<and> routed (api_updatePot ''pot'' JNull) = Some (route_update ''pot'') \<and>
    routed (api_activatePot ''pot'') = Some (route_activate ''pot'') \<and> routed (api_deletePot ''pot'') = Some (route_delete ''pot'') \<and>
    routed (api_closePot ''pot'') = Some (route_close ''pot'') \<and> routed (api_getPotMembers ''pot'') = Some (route_members ''pot'') \<and>
    routed (api_getPendingMembers ''pot'') = Some (route_pending ''pot'') \<and> routed (api_addMember ''pot'' JNull) = Some (route_add_member ''pot'') \<and>
    routed (api_updateMemberRole ''pot'' ''ada'' ''admin'') = Some (route_role ''pot'' ''ada'') \<and> routed (api_removeMember ''pot'' ''ada'') = Some (route_remove ''pot'' ''ada'') \<and>
    routed (api_removePendingMember ''pot'' ''ada'') = Some (route_remove_pending ''pot'' ''ada'') \<and> routed (api_leavePot ''pot'') = Some (route_leave ''pot'') \<and>
    routed (api_getPotTransactions ''pot'') = Some (route_transactions ''pot'') \<and> routed (api_contribute ''k'' ''pot'' JNull) = Some (route_contribute ''pot'') \<and>
    routed (api_requestPayoutOtp ''pot'' JNull) = Some (route_payout_otp ''pot'') \<and> routed (api_triggerPayout ''k'' ''pot'' JNull) = Some (route_payout ''pot'') \<and>
    routed (api_requestRefundOtp ''pot'') = Some (route_refund_otp ''pot'') \<and> routed (api_triggerRefund ''k'' ''pot'' JNull) = Some (route_refund ''pot'')"
  by (rule client_calls_are_routed) (simp_all add: plain_def)

end
