(* ===== verification/Web_Wizard.thy ===== *)
theory Web_Wizard
  imports Pots_Controller Numbers Web_Money
begin

text \<open>
  The form a pot is created and edited with: \<open>components/pot/wizard/wizard-types.ts\<close>, \<open>wizard-helpers.ts\<close> and
  \<open>pot-to-wizard-state.ts\<close>, \<open>toNairaAmount\<close> of \<open>lib/money.ts\<close>, and the operations on the list of scheduled payouts
  (\<open>ScheduledLegBuilder.tsx\<close>) with the previews the steps render. \<open>Number\<close> is modelled on the texts the amount and
  interval fields let through (digits and dots), a date on the texts of a date input.
\<close>

section \<open>Numbers\<close>

text \<open>\<open>Number(text)\<close> of digits and dots: \<open>None\<close> is \<open>NaN\<close>.\<close>

definition js_number :: "string \<Rightarrow> rat option" where
  "js_number s =
     (let w = takeWhile is_digit s; r = dropWhile is_digit s in
      if s = [] then Some 0
      else if r = [] then Some (double_of (of_int (BigInt w)))
      else if hd r = CHR ''.'' \<and> list_all is_digit (tl r) \<and> (w \<noteq> [] \<or> tl r \<noteq> [])
      then Some (double_of (of_int (BigInt (w @ tl r)) / 10 ^ length (tl r)))
      else None)"

text \<open>\<open>nairaAmountToNumber\<close>, as it is compared with a bound: \<open>NaN\<close> is greater than nothing.\<close>

definition number_above :: "rat \<Rightarrow> string \<Rightarrow> bool" where
  "number_above bound s = (case js_number s of None \<Rightarrow> False | Some x \<Rightarrow> bound < x)"

text \<open>The text of an integral double: the shortest digits that read back as it, zeros behind them; from \<open>10^21\<close> on
  the exponent notation.\<close>

definition shortest_digits :: "int \<Rightarrow> int \<times> nat" where
  "shortest_digits x =
     (let len = length (show_int x);
          candidate = (\<lambda>k. let p = 10 ^ (len - k); n = x div p in
            if double_of (of_int (n * p)) = of_int x \<and> (double_of (of_int ((n + 1) * p)) \<noteq> of_int x \<or> 2 * (x - n * p) \<le> p) then Some (n, len - k)
            else if double_of (of_int ((n + 1) * p)) = of_int x then Some (n + 1, len - k) else None)
      in case find (\<lambda>k. candidate k \<noteq> None) [1..<len] of Some k \<Rightarrow> the (candidate k) | None \<Rightarrow> (x, 0))"

definition number_text :: "rat \<Rightarrow> string" where
  "number_text x =
     (let n = \<lfloor>x\<rfloor> in
      if n < 2 ^ 53 then show_int n
      else if 2 ^ 1024 \<le> n then ''Infinity''
      else let (digits, zeros) = shortest_digits n; t = show_int digits; e = length t - 1 + zeros in
        if n < 10 ^ 21 then t @ replicate zeros (CHR ''0'')
        else take 1 t @ (if drop 1 t = [] then [] else ''.'' @ drop 1 t) @ ''e+'' @ show_nat e)"

definition is_space :: "char \<Rightarrow> bool" where
  "is_space c \<longleftrightarrow> (let n = of_char c :: nat in (9 \<le> n \<and> n \<le> 13) \<or> n = 32 \<or> n = 160)"

definition text_trim :: "string \<Rightarrow> string" where
  "text_trim s = rev (dropWhile is_space (rev (dropWhile is_space s)))"

text \<open>\<open>/^\d+(\.\d+)?$/\<close>\<close>

definition amount_pattern :: "string \<Rightarrow> bool" where
  "amount_pattern s \<longleftrightarrow> takeWhile is_digit s \<noteq> [] \<and>
     (case dropWhile is_digit s of [] \<Rightarrow> True | c # f \<Rightarrow> c = CHR ''.'' \<and> f \<noteq> [] \<and> list_all is_digit f)"

definition toNairaAmount :: "string \<Rightarrow> string option" where
  "toNairaAmount rawInput =
     (let trimmed = text_trim rawInput in
      if \<not> amount_pattern trimmed then None
      else let parts = split_dot trimmed; wholePart = hd parts; fractionPart = (case parts of _ # f # _ \<Rightarrow> f | _ \<Rightarrow> []);
               kobo = take 2 (fractionPart @ ''00'')
           in Some (number_text (the (js_number wholePart)) @ ''.'' @ kobo))"

section \<open>The form\<close>

record wizard_leg =
  wl_destinationAccount :: string
  wl_destinationBank :: string
  wl_destinationConfirmedName :: "string option"
  wl_sequenceOrder :: int
  wl_amount :: string
  wl_scheduledDate :: string

record wizard_state =
  ws_title :: string
  ws_description :: string
  ws_potType :: pot_type
  ws_refundType :: refund_type
  ws_minContribution :: string
  ws_maxContribution :: string
  ws_goalAmount :: string
  ws_payoutMode :: "payout_mode option"
  ws_targetDestinationAccount :: string
  ws_targetDestinationBank :: string
  ws_targetDestinationConfirmedName :: "string option"
  ws_targetDate :: string
  ws_targetAmountNaira :: string
  ws_manualDestinationAccount :: string
  ws_manualDestinationBank :: string
  ws_manualDestinationConfirmedName :: "string option"
  ws_recurringDestinationAccount :: string
  ws_recurringDestinationBank :: string
  ws_recurringDestinationConfirmedName :: "string option"
  ws_recurringAmountNaira :: string
  ws_recurringIntervalDays :: string
  ws_recurringNextRunAt :: string
  ws_scheduledOrdered :: bool
  ws_scheduledLegs :: "wizard_leg list"

definition initialWizardState :: wizard_state where
  "initialWizardState = \<lparr>ws_title = [], ws_description = [], ws_potType = private_pot, ws_refundType = refund_contributors,
     ws_minContribution = [], ws_maxContribution = [], ws_goalAmount = [], ws_payoutMode = None,
     ws_targetDestinationAccount = [], ws_targetDestinationBank = [], ws_targetDestinationConfirmedName = None,
     ws_targetDate = [], ws_targetAmountNaira = [],
     ws_manualDestinationAccount = [], ws_manualDestinationBank = [], ws_manualDestinationConfirmedName = None,
     ws_recurringDestinationAccount = [], ws_recurringDestinationBank = [], ws_recurringDestinationConfirmedName = None,
     ws_recurringAmountNaira = [], ws_recurringIntervalDays = ''30'', ws_recurringNextRunAt = [],
     ws_scheduledOrdered = True, ws_scheduledLegs = []\<rparr>"

section \<open>Checks\<close>

definition isPositiveAmount :: "string \<Rightarrow> bool" where
  "isPositiveAmount raw \<longleftrightarrow> raw \<noteq> [] \<and> number_above 0 raw"

definition isValidIntervalDays :: "string \<Rightarrow> bool" where
  "isValidIntervalDays raw \<longleftrightarrow> raw \<noteq> [] \<and>
     (case js_number raw of None \<Rightarrow> False | Some n \<Rightarrow> of_int \<lfloor>n\<rfloor> = n \<and> 1 \<le> n)"

definition isValidTargetAmount :: "string \<Rightarrow> bool" where
  "isValidTargetAmount raw \<longleftrightarrow> isPositiveAmount raw \<and> number_above (the (js_number web_OUTBOUND_FEE)) raw"

definition valid_leg :: "wizard_leg \<Rightarrow> bool" where
  "valid_leg l \<longleftrightarrow> wl_destinationAccount l \<noteq> [] \<and> wl_destinationBank l \<noteq> [] \<and> truthy (wl_destinationConfirmedName l) \<and>
     isPositiveAmount (wl_amount l) \<and> wl_scheduledDate l \<noteq> []"

definition isConfigStepValid :: "wizard_state \<Rightarrow> bool" where
  "isConfigStepValid s =
     (case ws_payoutMode s of
        Some manual \<Rightarrow> (ws_manualDestinationAccount s \<noteq> []) = (ws_manualDestinationBank s \<noteq> []) \<and>
          (ws_manualDestinationAccount s = [] \<or> truthy (ws_manualDestinationConfirmedName s))
      | Some recurring \<Rightarrow> ws_recurringDestinationAccount s \<noteq> [] \<and> ws_recurringDestinationBank s \<noteq> [] \<and>
          truthy (ws_recurringDestinationConfirmedName s) \<and> isPositiveAmount (ws_recurringAmountNaira s) \<and>
          isValidIntervalDays (ws_recurringIntervalDays s) \<and> ws_recurringNextRunAt s \<noteq> []
      | Some scheduled \<Rightarrow> 0 < length (ws_scheduledLegs s) \<and> list_all valid_leg (ws_scheduledLegs s)
      | Some target_based \<Rightarrow> ws_targetDestinationAccount s \<noteq> [] \<and> ws_targetDestinationBank s \<noteq> [] \<and>
          truthy (ws_targetDestinationConfirmedName s) \<and> (ws_targetDate s \<noteq> [] \<or> isValidTargetAmount (ws_targetAmountNaira s))
      | None \<Rightarrow> False)"

section \<open>What is submitted\<close>

text \<open>\<open>new Date(text)\<close> of a date input's \<open>YYYY-MM-DD\<close>: midnight UTC.\<close>

definition utc_days :: "int \<Rightarrow> int \<Rightarrow> int \<Rightarrow> int" where
  "utc_days y m d =
     (let y' = (if m \<le> 2 then y - 1 else y); era = y' div 400; yoe = y' mod 400;
          doy = (153 * (if 2 < m then m - 3 else m + 9) + 2) div 5 + d - 1
      in era * 146097 + yoe * 365 + yoe div 4 - yoe div 100 + doy - 719468)"

definition new_Date :: "string \<Rightarrow> time option" where
  "new_Date t =
     (if length t = 10 \<and> t ! 4 = CHR ''-'' \<and> t ! 7 = CHR ''-'' \<and> list_all is_digit (take 4 t @ take 2 (drop 5 t) @ drop 8 t)
      then Some (utc_days (BigInt (take 4 t)) (BigInt (take 2 (drop 5 t))) (BigInt (drop 8 t)) * 86400000)
      else None)"

text \<open>\<open>toIsoDate\<close> as the time it stands for; \<open>toISOString\<close> of an invalid date throws.\<close>

definition toIsoDate :: "time \<Rightarrow> string \<Rightarrow> error + time" where
  "toIsoDate now d =
     (if d = [] then Inr now
      else case new_Date d of Some t \<Rightarrow> Inr t | None \<Rightarrow> Inl (PlainError ''RangeError: Invalid time value''))"

definition wireAmount :: "string \<Rightarrow> string" where
  "wireAmount raw = (case toNairaAmount raw of Some t \<Rightarrow> t | None \<Rightarrow> ''0.00'')"

definition no_config :: payout_config_input where
  "no_config = \<lparr>pi_destinationAccount = None, pi_destinationBank = None, pi_targetDate = None, pi_targetAmount = None, pi_amount = None,
     pi_intervalDays = None, pi_nextRunAt = None, pi_ordered = None, pi_legs = None\<rparr>"

definition leg_input_of :: "wizard_leg \<Rightarrow> time \<Rightarrow> leg_input" where
  "leg_input_of l t = \<lparr>li_destinationAccount = Some (wl_destinationAccount l), li_destinationBank = Some (wl_destinationBank l),
     li_sequenceOrder = Some (wl_sequenceOrder l), li_amount = Some (wireAmount (wl_amount l)), li_scheduledDate = Some t\<rparr>"

fun leg_inputs :: "time \<Rightarrow> wizard_leg list \<Rightarrow> error + leg_input list" where
  "leg_inputs now [] = Inr []"
| "leg_inputs now (l # ls) =
     (case toIsoDate now (wl_scheduledDate l) of
        Inl e \<Rightarrow> Inl e
      | Inr t \<Rightarrow> map_sum id (\<lambda>rest. leg_input_of l t # rest) (leg_inputs now ls))"

text \<open>An interval is sent as the number typed; here it is cut to a whole one, which \<open>isConfigStepValid\<close> has made sure it is.\<close>

definition buildPayoutConfig :: "time \<Rightarrow> wizard_state \<Rightarrow> error + payout_config_input" where
  "buildPayoutConfig now s =
     (case ws_payoutMode s of
        Some manual \<Rightarrow> Inr (if ws_manualDestinationAccount s \<noteq> [] \<and> ws_manualDestinationBank s \<noteq> []
          then no_config\<lparr>pi_destinationAccount := Some (ws_manualDestinationAccount s), pi_destinationBank := Some (ws_manualDestinationBank s)\<rparr>
          else no_config)
      | Some recurring \<Rightarrow>
          map_sum id (\<lambda>t. no_config\<lparr>pi_destinationAccount := Some (ws_recurringDestinationAccount s),
              pi_destinationBank := Some (ws_recurringDestinationBank s), pi_amount := Some (wireAmount (ws_recurringAmountNaira s)),
              pi_intervalDays := map_option floor (js_number (ws_recurringIntervalDays s)), pi_nextRunAt := Some t\<rparr>)
            (toIsoDate now (ws_recurringNextRunAt s))
      | Some scheduled \<Rightarrow>
          map_sum id (\<lambda>legs. no_config\<lparr>pi_ordered := Some (ws_scheduledOrdered s), pi_legs := Some legs\<rparr>) (leg_inputs now (ws_scheduledLegs s))
      | _ \<Rightarrow>
          map_sum id (\<lambda>t. no_config\<lparr>pi_destinationAccount := Some (ws_targetDestinationAccount s),
              pi_destinationBank := Some (ws_targetDestinationBank s), pi_targetDate := t,
              pi_targetAmount := (if ws_targetAmountNaira s \<noteq> [] then Some (wireAmount (ws_targetAmountNaira s)) else None)\<rparr>)
            (if ws_targetDate s \<noteq> [] then map_sum id Some (toIsoDate now (ws_targetDate s)) else Inr None))"

section \<open>Editing a pot\<close>

definition toDateInput :: "string option \<Rightarrow> string" where
  "toDateInput date = (if truthy date then take 10 (the date) else [])"

definition toWizardAmount :: "string option \<Rightarrow> string" where
  "toWizardAmount naira = (case naira of Some t \<Rightarrow> t | None \<Rightarrow> [])"

definition text_of_option :: "string option \<Rightarrow> string" where
  "text_of_option v = (case v of Some t \<Rightarrow> t | None \<Rightarrow> [])"

definition wizard_base :: "pot_view \<Rightarrow> wizard_state" where
  "wizard_base v = (let p = pv_pot v in initialWizardState\<lparr>ws_title := pot_title p, ws_description := text_of_option (pot_description p),
     ws_potType := pot_potType p, ws_refundType := pot_refundType p, ws_minContribution := toWizardAmount (Some (pv_minContribution v)),
     ws_maxContribution := toWizardAmount (pv_maxContribution v), ws_goalAmount := toWizardAmount (pv_goalAmount v),
     ws_payoutMode := Some (pot_payoutMode p)\<rparr>)"

definition wizard_leg_of :: "leg_view \<Rightarrow> wizard_leg" where
  "wizard_leg_of l = \<lparr>wl_destinationAccount = lv_destinationAccount l, wl_destinationBank = lv_destinationBank l,
     wl_destinationConfirmedName = Some (lv_destinationAccountName l), wl_sequenceOrder = lv_sequenceOrder l,
     wl_amount = toWizardAmount (Some (lv_amount l)), wl_scheduledDate = toDateInput (Some (lv_scheduledDate l))\<rparr>"

text \<open>A config of another mode than the pot's, which the cast of the source rules out, is an error here.\<close>

definition potToWizardState :: "pot_view \<Rightarrow> error + wizard_state" where
  "potToWizardState v =
     (let base = wizard_base v in
      case (pot_payoutMode (pv_pot v), pv_payoutConfig v) of
        (target_based, Some (view_target_based account bank name date amount fired)) \<Rightarrow>
          Inr (base\<lparr>ws_targetDestinationAccount := account, ws_targetDestinationBank := bank, ws_targetDestinationConfirmedName := Some name,
            ws_targetDate := toDateInput date, ws_targetAmountNaira := toWizardAmount amount\<rparr>)
      | (manual, None) \<Rightarrow>
          Inr (base\<lparr>ws_manualDestinationAccount := [], ws_manualDestinationBank := [], ws_manualDestinationConfirmedName := None\<rparr>)
      | (manual, Some (view_manual account bank name)) \<Rightarrow>
          Inr (base\<lparr>ws_manualDestinationAccount := text_of_option account, ws_manualDestinationBank := text_of_option bank,
            ws_manualDestinationConfirmedName := name\<rparr>)
      | (recurring, Some (view_recurring account bank name amount intervalDays nextRunAt)) \<Rightarrow>
          Inr (base\<lparr>ws_recurringDestinationAccount := account, ws_recurringDestinationBank := bank,
            ws_recurringDestinationConfirmedName := Some name, ws_recurringAmountNaira := toWizardAmount (Some amount),
            ws_recurringIntervalDays := show_int intervalDays, ws_recurringNextRunAt := toDateInput (Some nextRunAt)\<rparr>)
      | (scheduled, Some (view_scheduled ordered legs)) \<Rightarrow>
          Inr (base\<lparr>ws_scheduledOrdered := ordered, ws_scheduledLegs := map wizard_leg_of legs\<rparr>)
      | _ \<Rightarrow> Inl (PlainError ''TypeError''))"

section \<open>The list of scheduled payouts\<close>

definition emptyLeg :: "int \<Rightarrow> wizard_leg" where
  "emptyLeg i = \<lparr>wl_destinationAccount = [], wl_destinationBank = [], wl_destinationConfirmedName = None, wl_sequenceOrder = i,
     wl_amount = [], wl_scheduledDate = []\<rparr>"

definition set_order :: "nat \<Rightarrow> wizard_leg \<Rightarrow> wizard_leg" where
  "set_order i l = l\<lparr>wl_sequenceOrder := int i\<rparr>"

definition updateLeg :: "nat \<Rightarrow> (wizard_leg \<Rightarrow> wizard_leg) \<Rightarrow> wizard_leg list \<Rightarrow> wizard_leg list" where
  "updateLeg index f legs = map (\<lambda>(i, l). if i = index then f l else l) (enumerate 0 legs)"

definition addLeg :: "wizard_leg list \<Rightarrow> wizard_leg list" where
  "addLeg legs = legs @ [emptyLeg (int (length legs))]"

definition removeLeg :: "nat \<Rightarrow> wizard_leg list \<Rightarrow> wizard_leg list" where
  "removeLeg index legs = map (\<lambda>(i, l). set_order i l) (enumerate 0 (map snd (filter (\<lambda>(i, l). i \<noteq> index) (enumerate 0 legs))))"

text \<open>\<open>addNaira(toNairaAmount(amount)!, OUTBOUND_FEE)\<close>, under an amount that is positive.\<close>

definition needed_preview :: "string \<Rightarrow> error + string option" where
  "needed_preview amount =
     (if isPositiveAmount amount
      then (case toNairaAmount amount of
          None \<Rightarrow> Inl (PlainError ''TypeError: Cannot read properties of null (reading 'split')'')
        | Some t \<Rightarrow> map_sum id Some (addNaira t web_OUTBOUND_FEE))
      else Inr None)"

end
