(* ===== verification/Web_Wizard_Laws.thy ===== *)
theory Web_Wizard_Laws
  imports Web_Wizard Pot_Config_Laws
begin

text \<open>
  The wizard against the backend: for what its fields can hold, which steps that the wizard lets pass the backend
  accepts, to the kobo; what a pot's form submits when nothing was edited; the order of the scheduled payouts.
\<close>

section \<open>Amounts\<close>

lemma double_of_int:
  assumes "0 \<le> n" and "n < 2 ^ 53"
  shows "double_of (of_int n) = of_int n"
proof (cases "n = 0")
  case False
  let ?x = "of_int n :: rat"
  define b where "b = binary_exponent ?x"
  have x: "0 < ?x" using assms False by simp
  have b: "two_to b \<le> ?x" using binary_exponent_bounds(1)[OF x] by (simp add: b_def)
  have small: "b \<le> 52"
  proof (rule ccontr)
    assume "\<not> b \<le> 52"
    then have "53 \<le> nat b" "two_to b = 2 ^ nat b" by (simp_all add: two_to_def)
    then have "(2 :: rat) ^ 53 \<le> two_to b" using power_increasing[of 53 "nat b" "2 :: rat"] by simp
    then have "(2 :: rat) ^ 53 \<le> of_int n" using b by linarith
    then have "(2 :: int) ^ 53 \<le> n" by (metis of_int_le_iff of_int_numeral of_int_power)
    then show False using assms(2) by simp
  qed
  let ?k = "nat (52 - b)"
  have scale: "two_to (b - 52) = 1 / 2 ^ ?k" using small by (auto simp: two_to_def)
  have whole: "round_half_even (of_int m) = m" for m by (simp add: round_half_even_def)
  have "?x / two_to (b - 52) = of_int (n * 2 ^ ?k)" by (simp add: scale)
  then have "round_half_even (?x / two_to (b - 52)) = n * 2 ^ ?k" using whole by (simp only:)
  then show ?thesis using False by (simp add: double_of_def Let_def b_def[symmetric] scale)
qed (simp add: double_of_def)

text \<open>An amount field holds what \<open>sanitizeAmountInput\<close> leaves; of an amount below \<open>2^53\<close> naira.\<close>

definition typed :: "string \<Rightarrow> bool" where
  "typed t \<longleftrightarrow> sanitizeAmountInput t = t \<and> BigInt (takeWhile is_digit t) < 2 ^ 53"

text \<open>What is submitted for it (\<open>wireAmount\<close>): nothing unless there are digits, on both sides of a dot if there is one;
  kobo beyond the second digit are cut off.\<close>

definition sent_kobo :: "string \<Rightarrow> kobo" where
  "sent_kobo t =
     (let w = takeWhile is_digit t in
      if w = [] then 0
      else case dropWhile is_digit t of
             [] \<Rightarrow> BigInt w * 100
           | _ # f \<Rightarrow> if f = [] then 0 else BigInt w * 100 + BigInt (take 2 (f @ ''00'')))"

lemma typed_shape:
  assumes "typed t"
  obtains w where "list_all is_digit w" "t = w" "BigInt w < 2 ^ 53"
  | w f where "list_all is_digit w" "list_all is_digit f" "t = w @ CHR ''.'' # f" "BigInt w < 2 ^ 53"
proof -
  let ?w = "takeWhile is_digit t" and ?r = "dropWhile is_digit t"
  have san: "sanitizeAmountInput t = t" using assms by (simp add: typed_def)
  have chars: "set t \<subseteq> {c. is_digit c \<or> c = CHR ''.''}" "length (filter (\<lambda>c. c = CHR ''.'') t) \<le> 1"
    using sanitized_amount[of t] unfolding san by blast+
  have w: "list_all is_digit ?w" "BigInt ?w < 2 ^ 53" "t = ?w @ ?r"
    using assms by (auto simp: typed_def list_all_iff dest: set_takeWhileD)
  show thesis
  proof (cases ?r)
    case Nil
    have "t = ?w" using w(3) unfolding Nil append_Nil2 .
    then show thesis using that(1)[OF w(1) _ w(2)] by blast
  next
    case (Cons c f)
    have "\<not> is_digit c" using hd_dropWhile[of is_digit t] Cons by simp
    moreover have "c \<in> set t" using set_dropWhileD[of c is_digit t] Cons by simp
    ultimately have dot: "c = CHR ''.''" using chars(1) by auto
    have all: "t = ?w @ CHR ''.'' # f" using w(3) unfolding Cons dot .
    have "filter (\<lambda>c. c = CHR ''.'') f = []"
    proof -
      have "length (filter (\<lambda>c. c = CHR ''.'') (?w @ CHR ''.'' # f)) \<le> 1" unfolding all[symmetric] by (rule chars(2))
      then show ?thesis by (simp add: filter_empty_conv)
    qed
    moreover have "set f \<subseteq> set t" using set_dropWhileD[of _ is_digit t] Cons by auto
    ultimately have "list_all is_digit f" using chars(1) by (auto simp: list_all_iff filter_empty_conv)
    then show thesis using that(2)[of ?w f] w(1,2) all by blast
  qed
qed

lemma no_space: "is_digit c \<or> c = CHR ''.'' \<Longrightarrow> \<not> is_space c"
  by (auto simp: is_digit_def is_space_def)

lemma text_trim_id:
  assumes "set t \<subseteq> {c. is_digit c \<or> c = CHR ''.''}"
  shows "text_trim t = t"
proof -
  have keep: "dropWhile is_space u = u" if "set u \<subseteq> {c. is_digit c \<or> c = CHR ''.''}" for u
    using that no_space[of "hd u"] by (cases u) auto
  have "dropWhile is_space t = t" "dropWhile is_space (rev t) = rev t" using assms keep[of t] keep[of "rev t"] by simp_all
  then show ?thesis by (simp add: text_trim_def)
qed

lemma number_text_digits:
  assumes "list_all is_digit w" and "w \<noteq> []" and "BigInt w < 2 ^ 53"
  shows "number_text (the (js_number w)) = show_int (BigInt w)"
proof -
  have tw: "takeWhile is_digit w = w" "dropWhile is_digit w = []" using assms(1) by (simp_all add: list_all_iff)
  have exact: "double_of (of_int (BigInt w)) = of_int (BigInt w)"
    using assms(3) by (intro double_of_int) (simp_all add: BigInt_def)
  have "js_number w = Some (of_int (BigInt w))" unfolding js_number_def Let_def tw exact using assms(2) by simp
  then show ?thesis using assms(3) by (simp add: number_text_def)
qed

lemma take_digits: "list_all is_digit w \<Longrightarrow> takeWhile is_digit (w @ CHR ''.'' # f) = w \<and> dropWhile is_digit (w @ CHR ''.'' # f) = CHR ''.'' # f"
  by (simp add: list_all_iff takeWhile_append2 dropWhile_append2)

lemma two_kobo_digits:
  assumes "list_all is_digit f"
  obtains k1 k2 where "take 2 (f @ ''00'') = [k1, k2]" "is_digit k1" "is_digit k2"
proof -
  have "is_digit CHR ''0''" by (simp add: is_digit_def)
  then have all: "list_all is_digit (take 2 (f @ ''00''))" using assms by (auto simp: list_all_iff dest: in_set_takeD)
  obtain k1 k2 where "take 2 (f @ ''00'') = [k1, k2]"
    by (cases f rule: remdups_adj.cases) auto
  then show thesis using that all by simp
qed

lemma BigInt_show: "0 \<le> n \<Longrightarrow> BigInt (show_int n) = n"
  by (simp add: BigInt_def show_int_def)

lemma wire_amount:
  assumes "typed t"
  shows "nairaStringToKobo (wireAmount t) = Inr (sent_kobo t)"
proof -
  have zero: "nairaStringToKobo ''0.00'' = Inr 0" by code_simp
  have none: "BigInt ''00'' = 0" "is_digit (CHR ''0'')" by code_simp+
  have shown: "list_all is_digit (show_int (BigInt w))" "show_int (BigInt w) \<noteq> []" "BigInt (show_int (BigInt w)) = BigInt w" for w
    using BigInt_show[of "BigInt w"] show_nat_digits by (auto simp: show_int_def BigInt_def list_all_iff)
  show ?thesis
  using assms
  proof (cases rule: typed_shape)
    case (1 w)
    have trim: "text_trim t = w" using 1 text_trim_id[of w] by (auto simp: list_all_iff)
    have tw: "takeWhile is_digit w = w" "dropWhile is_digit w = []" using 1(1) by (simp_all add: list_all_iff)
    show ?thesis
    proof (cases "w = []")
      case True
      then show ?thesis using trim zero 1(2) by (simp add: wireAmount_def toNairaAmount_def amount_pattern_def sent_kobo_def)
    next
      case False
      have "toNairaAmount t = Some (show_int (BigInt w) @ ''.00'')"
        unfolding toNairaAmount_def trim Let_def split_dot_no_dot[OF digits_no_dot[OF 1(1)]]
        using False 1(1,3) by (simp add: amount_pattern_def tw(2) number_text_digits) (simp add: tw(1))
      moreover have "sent_kobo t = BigInt w * 100" unfolding sent_kobo_def 1(2) tw Let_def using False by simp
      ultimately show ?thesis
        using nairaStringToKobo_parts[of "show_int (BigInt w)" "CHR ''0''" "CHR ''0''"] shown[of w] none
        by (simp add: wireAmount_def)
    qed
  next
    case (2 w f)
    have trim: "text_trim t = t" using 2 by (intro text_trim_id) (auto simp: list_all_iff)
    note tw = take_digits[OF 2(1), of f, folded 2(3)]
    show ?thesis
    proof (cases "w = [] \<or> f = []")
      case True
      then have "\<not> amount_pattern t" using tw by (auto simp: amount_pattern_def)
      then show ?thesis using trim True tw zero by (auto simp: wireAmount_def toNairaAmount_def sent_kobo_def)
    next
      case False
      obtain k1 k2 where k: "take 2 (f @ ''00'') = [k1, k2]" "is_digit k1" "is_digit k2" by (rule two_kobo_digits[OF 2(2)])
      have parts: "split_dot t = [w, f]"
        using 2 digits_no_dot[of w] digits_no_dot[of f] by (simp add: split_dot_one split_dot_no_dot del: split_dot.simps(2))
      have "amount_pattern t" using tw False 2(2) by (simp add: amount_pattern_def)
      then have "toNairaAmount t = Some (show_int (BigInt w) @ [CHR ''.'', k1, k2])"
        using trim parts 2(1,4) False k(1) by (simp add: toNairaAmount_def number_text_digits)
      then show ?thesis
        using nairaStringToKobo_parts[of "show_int (BigInt w)" k1 k2] shown k False tw
        by (simp add: wireAmount_def sent_kobo_def)
    qed
  qed
qed

lemma valid_amount_positive:
  assumes "nairaStringToKobo a = Inr k"
  shows "nairaAmount a \<longleftrightarrow> 0 < k"
proof
  assume "nairaAmount a"
  then show "0 < k" using naira_amount_positive[of a] assms by auto
next
  assume k: "0 < k"
  have valid: "isValidNairaString a" using assms by (simp add: nairaStringToKobo_def split: if_splits)
  then obtain n k1 k2 where a: "a = n @ [CHR ''.'', k1, k2]" "n \<noteq> []" "list_all is_digit n" "is_digit k1" "is_digit k2"
    unfolding isValidNairaString_iff by blast
  have amount: "k = BigInt n * 100 + BigInt [k1, k2]" using assms nairaStringToKobo_parts[OF a(3,2,4,5)] a(1) by simp
  show "nairaAmount a"
  proof (rule ccontr)
    assume "\<not> nairaAmount a"
    then have zeros: "\<forall>c \<in> set n \<union> {k1, k2}. c = CHR ''0''"
      using valid a by (auto simp: nairaAmount_def list_ex_iff list_all_iff)
    have "parse_nat n = 0" "parse_nat [k1, k2] = 0"
      using zeros a parse_nat_eq_0[of n] parse_nat_eq_0[of "[k1, k2]"] by auto
    then show False using k amount by (simp add: BigInt_def)
  qed
qed

lemma accepted_amount: "typed t \<Longrightarrow> nairaAmount (wireAmount t) \<longleftrightarrow> 0 < sent_kobo t"
  using valid_amount_positive[OF wire_amount] .

section \<open>Steps\<close>

lemma accepted_iff:
  "(\<exists>pair. validatePayoutModeConfig zod_text mode config = Inr pair) \<longleftrightarrow> (\<exists>pair. schema_for mode config = Inr ([], pair))"
  by (auto simp: validatePayoutModeConfig_def split: sum.split prod.split)

lemma leg_inputs_legs:
  "leg_inputs now ls = Inr inputs \<Longrightarrow> list_all2 (\<lambda>l i. \<exists>t. i = leg_input_of l t) ls inputs"
proof (induction ls arbitrary: inputs)
  case (Cons l ls)
  then show ?case by (cases "leg_inputs now ls") (auto split: sum.splits)
qed simp

lemma leg_accepted:
  assumes "valid_leg l" and "0 \<le> wl_sequenceOrder l"
  shows "scheduledLegSchema (leg_input_of l t) = [] \<longleftrightarrow> nairaAmount (wireAmount (wl_amount l))"
  using assms by (simp add: scheduledLegSchema_def leg_input_of_def destinationSchema_def issue_simps valid_leg_def)

text \<open>The amounts a step submits, and what each has to exceed.\<close>

definition wizard_amounts :: "wizard_state \<Rightarrow> (string \<times> kobo) list" where
  "wizard_amounts s =
     (case ws_payoutMode s of
        Some recurring \<Rightarrow> [(ws_recurringAmountNaira s, 0)]
      | Some scheduled \<Rightarrow> map (\<lambda>l. (wl_amount l, 0)) (ws_scheduledLegs s)
      | Some target_based \<Rightarrow> if ws_targetAmountNaira s \<noteq> [] then [(ws_targetAmountNaira s, OUTBOUND_FEE)] else []
      | _ \<Rightarrow> [])"

lemma recurring_step:
  assumes "isConfigStepValid s" and "ws_payoutMode s = Some recurring" and "buildPayoutConfig now s = Inr config"
    and "typed (ws_recurringAmountNaira s)"
  shows "(\<exists>pair. recurringPayoutConfigSchema config = Inr ([], pair)) \<longleftrightarrow> 0 < sent_kobo (ws_recurringAmountNaira s)"
proof -
  obtain t where config: "config = no_config\<lparr>pi_destinationAccount := Some (ws_recurringDestinationAccount s),
      pi_destinationBank := Some (ws_recurringDestinationBank s), pi_amount := Some (wireAmount (ws_recurringAmountNaira s)),
      pi_intervalDays := map_option floor (js_number (ws_recurringIntervalDays s)), pi_nextRunAt := Some t\<rparr>"
    using assms(2,3) by (cases "toIsoDate now (ws_recurringNextRunAt s)") (auto simp: buildPayoutConfig_def)
  obtain n where "js_number (ws_recurringIntervalDays s) = Some n" "1 \<le> n"
    using assms(1,2) by (auto simp: isConfigStepValid_def isValidIntervalDays_def split: option.splits)
  then show ?thesis
    using assms(1,2) accepted_amount[OF assms(4)]
    by (simp add: config recurringPayoutConfigSchema_def destinationSchema_def issue_simps no_config_def isConfigStepValid_def)
qed

lemma scheduled_step:
  assumes "isConfigStepValid s" and "ws_payoutMode s = Some scheduled" and "buildPayoutConfig now s = Inr config"
    and "list_all (typed \<circ> wl_amount) (ws_scheduledLegs s)" and "list_all (\<lambda>l. 0 \<le> wl_sequenceOrder l) (ws_scheduledLegs s)"
  shows "(\<exists>pair. scheduledPayoutConfigSchema config = Inr ([], pair)) \<longleftrightarrow> list_all (\<lambda>l. 0 < sent_kobo (wl_amount l)) (ws_scheduledLegs s)"
proof -
  obtain inputs where inputs: "leg_inputs now (ws_scheduledLegs s) = Inr inputs"
      "config = no_config\<lparr>pi_ordered := Some (ws_scheduledOrdered s), pi_legs := Some inputs\<rparr>"
    using assms(2,3) by (cases "leg_inputs now (ws_scheduledLegs s)") (auto simp: buildPayoutConfig_def)
  have valid: "ws_scheduledLegs s \<noteq> []" "list_all valid_leg (ws_scheduledLegs s)"
    using assms(1,2) by (auto simp: isConfigStepValid_def)
  have pairs: "list_all2 (\<lambda>l i. \<exists>t. i = leg_input_of l t) (ws_scheduledLegs s) inputs" by (rule leg_inputs_legs[OF inputs(1)])
  then have "inputs \<noteq> []" using valid(1) by (cases inputs) auto
  moreover have "concat (map scheduledLegSchema inputs) = [] \<longleftrightarrow> list_all (\<lambda>l. 0 < sent_kobo (wl_amount l)) (ws_scheduledLegs s)"
    using pairs valid(2) assms(4,5)
  proof (induction rule: list_all2_induct)
    case (Cons l ls i inputs')
    then obtain t where "i = leg_input_of l t" by blast
    then show ?case using Cons leg_accepted[of l t] accepted_amount[of "wl_amount l"] by simp
  qed simp
  ultimately show ?thesis
    by (auto simp: inputs(2) scheduledPayoutConfigSchema_def issue_simps no_config_def)
qed

lemma target_step:
  assumes "isConfigStepValid s" and "ws_payoutMode s = Some target_based" and "buildPayoutConfig now s = Inr config"
    and "ws_targetAmountNaira s \<noteq> [] \<longrightarrow> typed (ws_targetAmountNaira s)"
  shows "(\<exists>pair. targetBasedPayoutConfigSchema config = Inr ([], pair)) \<longleftrightarrow>
    (ws_targetAmountNaira s \<noteq> [] \<longrightarrow> OUTBOUND_FEE < sent_kobo (ws_targetAmountNaira s))"
proof -
  let ?a = "ws_targetAmountNaira s"
  obtain date where config: "config = no_config\<lparr>pi_destinationAccount := Some (ws_targetDestinationAccount s),
      pi_destinationBank := Some (ws_targetDestinationBank s), pi_targetDate := date,
      pi_targetAmount := (if ?a \<noteq> [] then Some (wireAmount ?a) else None)\<rparr>" and date: "ws_targetDate s \<noteq> [] \<longrightarrow> date \<noteq> None"
    using assms(2,3) by (cases "toIsoDate now (ws_targetDate s)") (auto simp: buildPayoutConfig_def split: if_splits)
  have dest: "ws_targetDestinationAccount s \<noteq> []" "ws_targetDestinationBank s \<noteq> []" and one: "ws_targetDate s \<noteq> [] \<or> ?a \<noteq> []"
    using assms(1,2) by (auto simp: isConfigStepValid_def isValidTargetAmount_def isPositiveAmount_def)
  have shape: "destinationSchema (Some (ws_targetDestinationAccount s)) (Some (ws_targetDestinationBank s)) = []"
    using dest by (simp add: destinationSchema_def issue_simps)
  show ?thesis
  proof (cases "?a = []")
    case True
    then show ?thesis
      using one date shape
      by (auto simp: config targetBasedPayoutConfigSchema_def no_config_def issue_simps aborted_def field_naira_def refine_def)
  next
    case False
    then have typed: "typed ?a" using assms(4) by simp
    have "field_naira (Some (wireAmount ?a)) = [] \<longleftrightarrow> 0 < sent_kobo ?a" and "\<not> aborted (field_naira (Some (wireAmount ?a)))"
      using accepted_amount[OF typed] by (auto simp: field_naira_def aborted_def)
    moreover have "OUTBOUND_FEE < k \<Longrightarrow> 0 < k" for k by (simp add: OUTBOUND_FEE_def NOMBA_OUTBOUND_FEE_def PLATFORM_OUTBOUND_FEE_def)
    ultimately show ?thesis
      using False shape wire_amount[OF typed]
      by (auto simp: config targetBasedPayoutConfigSchema_def no_config_def Let_def refine_def)
  qed
qed

lemma wizard_step_sent:
  assumes "isConfigStepValid s" and "ws_payoutMode s = Some mode" and "buildPayoutConfig now s = Inr config"
    and "list_all (typed \<circ> fst) (wizard_amounts s)" and "list_all (\<lambda>l. 0 \<le> wl_sequenceOrder l) (ws_scheduledLegs s)"
  shows "(\<exists>pair. validatePayoutModeConfig zod_text mode config = Inr pair) \<longleftrightarrow>
    list_all (\<lambda>(amount, least). least < sent_kobo amount) (wizard_amounts s)"
proof (cases mode)
  case target_based
  then show ?thesis using target_step[of s now config] assms by (auto simp: accepted_iff wizard_amounts_def)
next
  case manual
  have "config = no_config \<or> (\<exists>a b. a \<noteq> [] \<and> b \<noteq> [] \<and> config = no_config\<lparr>pi_destinationAccount := Some a, pi_destinationBank := Some b\<rparr>)"
    using assms(2,3) manual by (auto simp: buildPayoutConfig_def split: if_splits)
  then have "\<exists>pair. manualPayoutConfigSchema config = Inr ([], pair)"
    by (auto simp: manualPayoutConfigSchema_def issue_simps no_config_def)
  then show ?thesis using assms(2) manual by (simp add: accepted_iff wizard_amounts_def)
next
  case recurring
  then show ?thesis using recurring_step[of s now config] assms by (simp add: accepted_iff wizard_amounts_def)
next
  case scheduled
  then show ?thesis
    using scheduled_step[of s now config] assms by (simp add: accepted_iff wizard_amounts_def list_all_iff)
qed

text \<open>The two conditions apart: digits on both sides of the dot, and the amount itself, cut to whole kobo, for which
  ``5.'' is five naira and ``.5'' fifty kobo.\<close>

definition both_sides :: "string \<Rightarrow> bool" where
  "both_sides t \<longleftrightarrow> takeWhile is_digit t \<noteq> [] \<and> (dropWhile is_digit t = [] \<or> tl (dropWhile is_digit t) \<noteq> [])"

definition cut_kobo :: "string \<Rightarrow> kobo" where
  "cut_kobo t = BigInt (takeWhile is_digit t) * 100 + BigInt (take 2 (tl (dropWhile is_digit t) @ ''00''))"

lemma sent_kobo_cut: "sent_kobo t = (if both_sides t then cut_kobo t else 0)"
proof -
  have "BigInt ''00'' = 0" by code_simp
  moreover obtain r where r: "dropWhile is_digit t = r" by blast
  ultimately show ?thesis
    unfolding sent_kobo_def both_sides_def cut_kobo_def Let_def r by (cases r) auto
qed

lemma sent_kobo_exceeds: "0 \<le> least \<Longrightarrow> least < sent_kobo t \<longleftrightarrow> both_sides t \<and> least < cut_kobo t"
  by (simp add: sent_kobo_cut)

lemma wizard_least: "(amount, least) \<in> set (wizard_amounts s) \<Longrightarrow> 0 \<le> least"
  by (cases "ws_payoutMode s"; cases "the (ws_payoutMode s)")
    (auto simp: wizard_amounts_def OUTBOUND_FEE_def NOMBA_OUTBOUND_FEE_def PLATFORM_OUTBOUND_FEE_def split: if_splits)

lemma wizard_amounts_sent:
  "list_all (\<lambda>(amount, least). both_sides amount \<and> least < cut_kobo amount) (wizard_amounts s) \<longleftrightarrow>
   list_all (\<lambda>(amount, least). least < sent_kobo amount) (wizard_amounts s)"
  using sent_kobo_exceeds wizard_least unfolding list_all_iff by blast

text \<open>C36. What the wizard lets through the backend accepts, but for small change and half-typed decimals. For a step
  that passes the wizard's check with fields as its inputs leave them (amounts below \<open>2^53\<close> naira, legs not numbered
  negatively, dates that can be read), the backend's validation of what is submitted succeeds exactly when every amount
  has digits on both sides of its dot, if it has one, and, cut to whole kobo, exceeds nothing, or the outbound fee for a
  target amount, also for one given beside a date. So ``5.'', five naira to the wizard, is refused.\<close>

theorem wizard_step_is_accepted:
  assumes "isConfigStepValid s" and "ws_payoutMode s = Some mode" and "buildPayoutConfig now s = Inr config"
    and "list_all (typed \<circ> fst) (wizard_amounts s)" and "list_all (\<lambda>l. 0 \<le> wl_sequenceOrder l) (ws_scheduledLegs s)"
  shows "(\<exists>pair. validatePayoutModeConfig zod_text mode config = Inr pair) \<longleftrightarrow>
    list_all (\<lambda>(amount, least). both_sides amount \<and> least < cut_kobo amount) (wizard_amounts s)"
  unfolding wizard_amounts_sent by (rule wizard_step_sent[OF assms])

text \<open>Amounts the wizard calls positive that are submitted as nothing, and a preview that fails on one of them: it is shown
  while an amount such as 5.50 is being typed. A target amount below the fee passes beside a date.\<close>

definition weekly_state :: "string \<Rightarrow> wizard_state" where
  "weekly_state amount = initialWizardState\<lparr>ws_payoutMode := Some recurring, ws_recurringDestinationAccount := ''0123456789'',
     ws_recurringDestinationBank := ''058'', ws_recurringDestinationConfirmedName := Some ''Ada'', ws_recurringAmountNaira := amount,
     ws_recurringNextRunAt := ''2025-03-01''\<rparr>"

lemma weekly_steps:
  "isConfigStepValid (weekly_state ''250'')" "ws_payoutMode (weekly_state ''250'') = Some recurring"
  "list_all (typed \<circ> fst) (wizard_amounts (weekly_state ''250''))"
  "list_all (\<lambda>l. 0 \<le> wl_sequenceOrder l) (ws_scheduledLegs (weekly_state ''250''))"
  "list_all (\<lambda>(amount, least). both_sides amount \<and> least < cut_kobo amount) (wizard_amounts (weekly_state ''250''))"
  "isConfigStepValid (weekly_state ''5.'')" "ws_payoutMode (weekly_state ''5.'') = Some recurring"
  "list_all (typed \<circ> fst) (wizard_amounts (weekly_state ''5.''))"
  "list_all (\<lambda>l. 0 \<le> wl_sequenceOrder l) (ws_scheduledLegs (weekly_state ''5.''))"
  "\<not> list_all (\<lambda>(amount, least). both_sides amount \<and> least < cut_kobo amount) (wizard_amounts (weekly_state ''5.''))"
  by code_simp+

theorem wizard_step_is_accepted_witness:
  "(\<exists>config pair. buildPayoutConfig 0 (weekly_state ''250'') = Inr config \<and> validatePayoutModeConfig (\<lambda>_. []) recurring config = Inr pair) \<and>
   (\<exists>config. buildPayoutConfig 0 (weekly_state ''5.'') = Inr config \<and> (\<forall>pair. validatePayoutModeConfig (\<lambda>_. []) recurring config \<noteq> Inr pair))"
proof -
  have built: "\<exists>config. buildPayoutConfig 0 (weekly_state a) = Inr config" for a
  proof -
    have "\<exists>t. toIsoDate 0 ''2025-03-01'' = Inr t" by (simp add: toIsoDate_def new_Date_def is_digit_def)
    then show ?thesis by (auto simp: buildPayoutConfig_def weekly_state_def)
  qed
  obtain c d where "buildPayoutConfig 0 (weekly_state ''250'') = Inr c" "buildPayoutConfig 0 (weekly_state ''5.'') = Inr d"
    using built by blast
  then show ?thesis
    using wizard_step_is_accepted[OF weekly_steps(1,2) _ weekly_steps(3,4), of 0 c "\<lambda>_. []"]
      wizard_step_is_accepted[OF weekly_steps(6,7) _ weekly_steps(8,9), of 0 d "\<lambda>_. []"] weekly_steps(5,10) by blast
qed

lemma five_and_a_dot: "cut_kobo ''5.'' = 500 \<and> \<not> both_sides ''5.'' \<and> sent_kobo ''5.'' = 0"
  by code_simp

lemma positive_but_nothing:
  "isPositiveAmount ''5.'' \<and> wireAmount ''5.'' = ''0.00'' \<and> isPositiveAmount ''0.001'' \<and> wireAmount ''0.001'' = ''0.00''"
  by code_simp

lemma typing_a_dot_fails:
  "isPositiveAmount ''5.'' \<and>
   needed_preview ''5.'' = Inl (PlainError ''TypeError: Cannot read properties of null (reading 'split')'')"
  by code_simp

lemma small_target_beside_date:
  "isConfigStepValid (initialWizardState\<lparr>ws_payoutMode := Some target_based, ws_targetDestinationAccount := ''0123456789'',
     ws_targetDestinationBank := ''058'', ws_targetDestinationConfirmedName := Some ''Ada'', ws_targetDate := ''2025-03-01'',
     ws_targetAmountNaira := ''20''\<rparr>) \<and> sent_kobo ''20'' < OUTBOUND_FEE"
  by code_simp

section \<open>The order of the scheduled payouts\<close>

definition in_order :: "wizard_leg list \<Rightarrow> bool" where
  "in_order legs \<longleftrightarrow> map wl_sequenceOrder legs = map int [0..<length legs]"

text \<open>Adding, editing and removing keeps the legs numbered by their place, so the orders are distinct and not negative.\<close>

lemma addLeg_order: "in_order legs \<Longrightarrow> in_order (addLeg legs)"
  by (simp add: in_order_def addLeg_def emptyLeg_def)

lemma updateLeg_order:
  assumes "in_order legs" and "\<And>l. wl_sequenceOrder (f l) = wl_sequenceOrder l"
  shows "in_order (updateLeg index f legs)"
proof -
  have "map wl_sequenceOrder (map (\<lambda>(i, l). if i = index then f l else l) (enumerate n legs)) = map wl_sequenceOrder legs" for n
    using assms(2) by (induction legs arbitrary: n) (auto simp: enumerate_simps)
  then show ?thesis using assms(1) by (simp add: in_order_def updateLeg_def)
qed

lemma removeLeg_order: "in_order (removeLeg index legs)"
proof -
  have "map wl_sequenceOrder (map (\<lambda>(i, l). set_order i l) (enumerate n ls)) = map int [n..<n + length ls]" for n ls
  proof (induction ls arbitrary: n)
    case (Cons l ls)
    have "[n..<n + length (l # ls)] = n # [Suc n..<Suc n + length ls]"
      using upt_conv_Cons[of n "n + length (l # ls)"] by simp
    then show ?case using Cons[of "Suc n"] by (simp add: enumerate_simps set_order_def)
  qed simp
  then show ?thesis by (simp add: in_order_def removeLeg_def)
qed

section \<open>Editing without a change\<close>

text \<open>A date input shows the day only.\<close>

definition day_only :: "time \<Rightarrow> bool" where
  "day_only t \<longleftrightarrow> new_Date (take 10 (toISOString t)) = Some t"

lemma shown_amount:
  assumes "0 \<le> k" and "k < 2 ^ 53 * 100"
  shows "wireAmount (koboToNairaString k) = koboToNairaString k" and "koboToNairaString k \<noteq> []"
proof -
  let ?w = "show_nat (nat (k div 100))"
  obtain k1 k2 where shown: "koboToNairaString k = ?w @ [CHR ''.'', k1, k2]" and d: "is_digit k1" "is_digit k2"
    using koboToNairaString_nonneg[OF assms(1)] by (simp add: less_mult_imp_div_less nat_less_iff)
  have w: "list_all is_digit ?w" "BigInt ?w = k div 100" "?w \<noteq> []"
    using show_nat_digits assms(1) by (auto simp: list_all_iff BigInt_def pos_imp_zdiv_nonneg_iff)
  note tw = take_digits[OF w(1), of "[k1, k2]"]
  have trim: "text_trim (?w @ [CHR ''.'', k1, k2]) = ?w @ [CHR ''.'', k1, k2]"
    using w(1) d by (intro text_trim_id) (auto simp: list_all_iff)
  have parts: "split_dot (?w @ [CHR ''.'', k1, k2]) = [?w, [k1, k2]]"
    using w(1) d digits_no_dot[of ?w] digits_no_dot[of "[k1, k2]"]
    by (simp add: split_dot_one split_dot_no_dot del: split_dot.simps(2))
  have "amount_pattern (?w @ [CHR ''.'', k1, k2])" using tw w(3) d by (simp add: amount_pattern_def)
  moreover have "number_text (the (js_number ?w)) = ?w"
    using number_text_digits[OF w(1,3)] w(2) assms(1,2) by (simp add: show_int_def pos_imp_zdiv_nonneg_iff)
  ultimately show "wireAmount (koboToNairaString k) = koboToNairaString k"
    using trim parts by (simp add: shown wireAmount_def toNairaAmount_def)
  show "koboToNairaString k \<noteq> []" by (simp add: shown)
qed

text \<open>What the form of a pot with a recurring payout submits when nothing was edited: the rule as it is stored, when its
  next run is at midnight.\<close>

lemma recurring_edit_keeps:
  assumes "pot_payoutMode (pv_pot v) = recurring" and "pv_payoutConfig v = Some (serializePayoutConfig (row_recurring c))"
    and "0 \<le> rc_amount c" and "rc_amount c < 2 ^ 53 * 100" and "0 \<le> rc_intervalDays c" and "rc_intervalDays c < 2 ^ 53"
    and "day_only (rc_nextRunAt c)"
  shows "\<exists>s. potToWizardState v = Inr s \<and> buildPayoutConfig now s = Inr (no_config
    \<lparr>pi_destinationAccount := Some (rc_destinationAccount c), pi_destinationBank := Some (rc_destinationBank c),
     pi_amount := Some (koboToNairaString (rc_amount c)), pi_intervalDays := Some (rc_intervalDays c), pi_nextRunAt := Some (rc_nextRunAt c)\<rparr>)"
proof -
  let ?d = "show_int (rc_intervalDays c)"
  have digits: "list_all is_digit ?d" "?d \<noteq> []" "BigInt ?d = rc_intervalDays c"
    using assms(5) show_nat_digits BigInt_show[of "rc_intervalDays c"] by (auto simp: show_int_def list_all_iff)
  have tw: "takeWhile is_digit ?d = ?d" "dropWhile is_digit ?d = []" using digits(1) by (simp_all add: list_all_iff)
  have number: "js_number ?d = Some (of_int (rc_intervalDays c))"
    unfolding js_number_def Let_def tw using digits(2,3) double_of_int[OF assms(5,6)] by simp
  have "take 10 (toISOString (rc_nextRunAt c)) \<noteq> []" using assms(7) by (auto simp: day_only_def new_Date_def)
  then have date: "toIsoDate now (toDateInput (Some (toISOString (rc_nextRunAt c)))) = Inr (rc_nextRunAt c)"
    using assms(7) by (auto simp: toIsoDate_def toDateInput_def truthy_def day_only_def)
  show ?thesis
    using assms(1,2) shown_amount(1)[OF assms(3,4)] number date
    by (simp add: potToWizardState_def wizard_base_def Let_def buildPayoutConfig_def toWizardAmount_def)
qed

text \<open>A time of day is lost: 2025-03-01 at ten in the morning comes back as midnight.\<close>

lemma time_of_day_lost:
  "new_Date (take 10 (toISOString 1740823200000)) = Some 1740787200000 \<and> day_only 1740787200000"
proof -
  have "take 10 (toISOString 1740823200000) = ''2025-03-01''" "take 10 (toISOString 1740787200000) = ''2025-03-01''" by code_simp+
  moreover have "new_Date ''2025-03-01'' = Some 1740787200000" by code_simp
  ultimately show ?thesis by (simp add: day_only_def)
qed

end
