(* ===== verification/Web_Pages.thy ===== *)
theory Web_Pages
  imports Web_Wizard Web_Client
begin

text \<open>
  The pages around the pot form: the messages its steps show (\<open>BasicsStep.tsx\<close>, \<open>TargetBasedConfigStep.tsx\<close>,
  \<open>ManualConfigStep.tsx\<close>, \<open>RecurringConfigStep.tsx\<close>, \<open>ScheduledLegBuilder.tsx\<close>), the steps of \<open>app/(app)/pots/new/page.tsx\<close>
  with what they submit, and saving in \<open>app/(app)/pots/[id]/edit/page.tsx\<close>; and of the pot page \<open>app/pots/[id]/page.tsx\<close> the
  buttons it offers and the filters, sorting and paging of its lists.
\<close>

section \<open>Messages of the steps\<close>

text \<open>\<open>confirmed\<close> is the name the step's own lookup has confirmed.\<close>

definition account_message :: "string \<Rightarrow> string \<Rightarrow> string option \<Rightarrow> string option" where
  "account_message account bank confirmed =
     (if account = [] then Some ''Enter the payout account number.''
      else if bank \<noteq> [] \<and> \<not> truthy confirmed then Some ''Wait for the account name to be confirmed.'' else None)"

definition bank_message :: "string \<Rightarrow> string option" where
  "bank_message bank = (if bank = [] then Some ''Choose the payout bank.'' else None)"

definition targetAmountTooLow :: "wizard_state \<Rightarrow> bool" where
  "targetAmountTooLow s \<longleftrightarrow> isPositiveAmount (ws_targetAmountNaira s) \<and> \<not> isValidTargetAmount (ws_targetAmountNaira s)"

definition hasAtLeastOneCondition :: "wizard_state \<Rightarrow> bool" where
  "hasAtLeastOneCondition s \<longleftrightarrow> ws_targetDate s \<noteq> [] \<or> isValidTargetAmount (ws_targetAmountNaira s)"

definition target_messages :: "(string \<Rightarrow> string) \<Rightarrow> string option \<Rightarrow> wizard_state \<Rightarrow> string option list" where
  "target_messages formatNaira confirmed s =
     [account_message (ws_targetDestinationAccount s) (ws_targetDestinationBank s) confirmed,
      bank_message (ws_targetDestinationBank s),
      if targetAmountTooLow s then Some (''Must be more than '' @ formatNaira web_OUTBOUND_FEE @ '', the payout fee.'') else None,
      if \<not> hasAtLeastOneCondition s then Some ''Set at least a target date or a target amount.'' else None]"

definition manual_messages :: "string option \<Rightarrow> wizard_state \<Rightarrow> string option list" where
  "manual_messages confirmed s =
     (let account = ws_manualDestinationAccount s; bank = ws_manualDestinationBank s in
      [if bank \<noteq> [] \<and> account = [] then Some ''Add an account number too.''
       else if account \<noteq> [] \<and> bank \<noteq> [] \<and> \<not> truthy confirmed then Some ''Wait for the account name to be confirmed.'' else None,
       if account \<noteq> [] \<and> bank = [] then Some ''Add a bank too.'' else None])"

definition recurring_messages :: "string option \<Rightarrow> wizard_state \<Rightarrow> string option list" where
  "recurring_messages confirmed s =
     [account_message (ws_recurringDestinationAccount s) (ws_recurringDestinationBank s) confirmed,
      bank_message (ws_recurringDestinationBank s),
      if \<not> isPositiveAmount (ws_recurringAmountNaira s) then Some ''Enter an amount greater than 0.'' else None,
      if \<not> isValidIntervalDays (ws_recurringIntervalDays s) then Some ''Enter how many days between payouts. Must be at least 1.'' else None,
      if ws_recurringNextRunAt s = [] then Some ''Choose the first payout date.'' else None]"

definition legErrors :: "wizard_leg \<Rightarrow> string option list" where
  "legErrors l =
     [if wl_destinationAccount l = [] then Some ''Enter the account number.''
      else if wl_destinationBank l \<noteq> [] \<and> \<not> truthy (wl_destinationConfirmedName l) then Some ''Wait for the account name to be confirmed.''
      else None,
      if wl_destinationBank l \<noteq> [] then None else Some ''Choose the bank.'',
      if isPositiveAmount (wl_amount l) then None else Some ''Enter an amount greater than 0.'',
      if wl_scheduledDate l \<noteq> [] then None else Some ''Choose a date.'']"

text \<open>The legs that are shown: an empty one when there is none.\<close>

definition shown_legs :: "wizard_state \<Rightarrow> wizard_leg list" where
  "shown_legs s = (if 0 < length (ws_scheduledLegs s) then ws_scheduledLegs s else [emptyLeg 0])"

text \<open>What the config step shows after a click that was refused.\<close>

definition config_messages :: "(string \<Rightarrow> string) \<Rightarrow> string option \<Rightarrow> wizard_state \<Rightarrow> string option list" where
  "config_messages formatNaira confirmed s =
     (case ws_payoutMode s of
        Some target_based \<Rightarrow> target_messages formatNaira confirmed s
      | Some manual \<Rightarrow> manual_messages confirmed s
      | Some recurring \<Rightarrow> recurring_messages confirmed s
      | Some scheduled \<Rightarrow> concat (map legErrors (shown_legs s))
      | None \<Rightarrow> [])"

text \<open>The amounts of the first step (a field never holds a sign, so none is negative).\<close>

definition zero_amount :: "string \<Rightarrow> bool" where
  "zero_amount raw \<longleftrightarrow> raw \<noteq> [] \<and> js_number raw = Some 0"

definition number_less :: "string \<Rightarrow> string \<Rightarrow> bool" where
  "number_less a b = (case (js_number a, js_number b) of (Some x, Some y) \<Rightarrow> x < y | _ \<Rightarrow> False)"

definition basics_messages :: "wizard_state \<Rightarrow> string option list" where
  "basics_messages s =
     (let zero = ''Enter an amount greater than 0, or leave this blank.'' in
      [if text_trim (ws_title s) = [] then Some ''Enter a title for this pot.'' else None,
       if zero_amount (ws_minContribution s) then Some zero else None,
       if zero_amount (ws_maxContribution s) then Some zero
       else if ws_maxContribution s \<noteq> [] \<and> ws_minContribution s \<noteq> [] \<and> number_less (ws_maxContribution s) (ws_minContribution s)
       then Some ''The maximum can't be less than the minimum contribution.'' else None,
       if zero_amount (ws_goalAmount s) then Some zero else None])"

section \<open>The confirmed name\<close>

text \<open>The effect that lifts a lookup's name into the form; it runs when the name changes and when the step appears, and a
  step appears with a lookup that has confirmed nothing yet.\<close>

definition sync_confirmed :: "string option \<Rightarrow> wizard_state \<Rightarrow> wizard_state" where
  "sync_confirmed confirmed s =
     (case ws_payoutMode s of
        Some target_based \<Rightarrow> if ws_targetDestinationConfirmedName s \<noteq> confirmed then s\<lparr>ws_targetDestinationConfirmedName := confirmed\<rparr> else s
      | Some manual \<Rightarrow> if ws_manualDestinationConfirmedName s \<noteq> confirmed then s\<lparr>ws_manualDestinationConfirmedName := confirmed\<rparr> else s
      | Some recurring \<Rightarrow>
          if ws_recurringDestinationConfirmedName s \<noteq> confirmed then s\<lparr>ws_recurringDestinationConfirmedName := confirmed\<rparr> else s
      | _ \<Rightarrow> s)"

definition step_appears :: "wizard_state \<Rightarrow> wizard_state" where
  "step_appears = sync_confirmed None"

section \<open>Submitting the form\<close>

definition text_or_none :: "string \<Rightarrow> string option" where
  "text_or_none t = (if t = [] then None else Some t)"

definition limit_field :: "string \<Rightarrow> string option" where
  "limit_field raw = (if isPositiveAmount raw then toNairaAmount raw else None)"

text \<open>\<open>handleCreate\<close>: without a mode nothing is sent.\<close>

definition create_input :: "time \<Rightarrow> wizard_state \<Rightarrow> (error + CreatePotInput) option" where
  "create_input now s =
     map_option (\<lambda>mode. map_sum id (\<lambda>config.
        \<lparr>np_title = text_trim (ws_title s), np_description = text_or_none (text_trim (ws_description s)), np_potType = ws_potType s,
         np_payoutMode = mode, np_payoutConfig = config, np_refundType = ws_refundType s,
         np_minContribution = limit_field (ws_minContribution s), np_maxContribution = limit_field (ws_maxContribution s),
         np_goalAmount = limit_field (ws_goalAmount s)\<rparr>) (buildPayoutConfig now s))
       (ws_payoutMode s)"

text \<open>\<open>handleSave\<close>: \<open>None\<close> is a refused click, which turns the messages on.\<close>

definition save_input :: "time \<Rightarrow> wizard_state \<Rightarrow> (error + UpdatePotInput) option" where
  "save_input now s =
     (if text_trim (ws_title s) = [] \<or> ws_payoutMode s = None \<or> \<not> isConfigStepValid s then None
      else Some (map_sum id (\<lambda>config.
        \<lparr>up_title = Some (text_trim (ws_title s)), up_description = text_or_none (text_trim (ws_description s)),
         up_potType = Some (ws_potType s), up_refundType = Some (ws_refundType s),
         up_minContribution = limit_field (ws_minContribution s), up_maxContribution = limit_field (ws_maxContribution s),
         up_goalAmount = limit_field (ws_goalAmount s), up_payoutMode = ws_payoutMode s, up_payoutConfig = Some config\<rparr>)
        (buildPayoutConfig now s)))"

section \<open>The steps of a new pot\<close>

datatype wizard_step = step_basics | step_mode | step_config | step_review

definition wizardSteps :: "wizard_step list" where
  "wizardSteps = [step_basics, step_mode, step_config, step_review]"

record new_page =
  np_stepIndex :: nat
  np_state :: wizard_state
  np_submitAttempted :: bool

definition np_step :: "new_page \<Rightarrow> wizard_step" where
  "np_step n = wizardSteps ! np_stepIndex n"

definition canAdvance :: "new_page \<Rightarrow> bool" where
  "canAdvance n =
     (case np_step n of
        step_basics \<Rightarrow> 0 < length (text_trim (ws_title (np_state n)))
      | step_mode \<Rightarrow> ws_payoutMode (np_state n) \<noteq> None
      | step_config \<Rightarrow> isConfigStepValid (np_state n)
      | step_review \<Rightarrow> True)"

text \<open>From the first step \<open>goBack\<close> leaves the page.\<close>

definition goBack :: "new_page \<Rightarrow> new_page option" where
  "goBack n = (if np_stepIndex n = 0 then None else Some (n\<lparr>np_submitAttempted := False, np_stepIndex := np_stepIndex n - 1\<rparr>))"

definition goNext :: "new_page \<Rightarrow> new_page" where
  "goNext n =
     (if \<not> canAdvance n then n\<lparr>np_submitAttempted := True\<rparr>
      else (let m = n\<lparr>np_submitAttempted := False\<rparr> in
            if np_stepIndex n < length wizardSteps - 1 then m\<lparr>np_stepIndex := np_stepIndex n + 1\<rparr> else m))"

text \<open>What a step's inputs can change: the first step its own fields, the second the mode, the third the fields of the rule.\<close>

definition edit_basics :: "wizard_state \<Rightarrow> wizard_state \<Rightarrow> wizard_state" where
  "edit_basics new s = s\<lparr>ws_title := ws_title new, ws_description := ws_description new, ws_potType := ws_potType new,
     ws_refundType := ws_refundType new, ws_minContribution := ws_minContribution new, ws_maxContribution := ws_maxContribution new,
     ws_goalAmount := ws_goalAmount new\<rparr>"

definition choose_mode :: "payout_mode \<Rightarrow> wizard_state \<Rightarrow> wizard_state" where
  "choose_mode m s = s\<lparr>ws_payoutMode := Some m\<rparr>"

definition edit_config :: "wizard_state \<Rightarrow> wizard_state \<Rightarrow> wizard_state" where
  "edit_config new s = (edit_basics s new)\<lparr>ws_payoutMode := ws_payoutMode s\<rparr>"

definition fresh_page :: new_page where
  "fresh_page = \<lparr>np_stepIndex = 0, np_state = initialWizardState, np_submitAttempted = False\<rparr>"

inductive new_pot_page :: "new_page \<Rightarrow> bool" where
  page_fresh: "new_pot_page fresh_page"
| page_basics: "new_pot_page n \<Longrightarrow> np_step n = step_basics \<Longrightarrow> new_pot_page (n\<lparr>np_state := edit_basics new (np_state n)\<rparr>)"
| page_mode: "new_pot_page n \<Longrightarrow> np_step n = step_mode \<Longrightarrow> new_pot_page (n\<lparr>np_state := choose_mode m (np_state n)\<rparr>)"
| page_config: "new_pot_page n \<Longrightarrow> np_step n = step_config \<Longrightarrow> new_pot_page (n\<lparr>np_state := edit_config new (np_state n)\<rparr>)"
| page_back: "new_pot_page n \<Longrightarrow> goBack n = Some m \<Longrightarrow> new_pot_page m"
| page_next: "new_pot_page n \<Longrightarrow> new_pot_page (goNext n)"

section \<open>The pot page\<close>

datatype member_row =
    member_row uuid string string role
  | pending_row string role

definition row_role :: "member_row \<Rightarrow> role" where
  "row_role m = (case m of member_row _ _ _ r \<Rightarrow> r | pending_row _ r \<Rightarrow> r)"

definition is_pending :: "member_row \<Rightarrow> bool" where
  "is_pending m = (case m of member_row _ _ _ _ \<Rightarrow> False | pending_row _ _ \<Rightarrow> True)"

text \<open>\<open>loadMembers\<close>: pending rows are added for who may read them (\<open>None\<close>: the second call failed).\<close>

definition memberRows :: "(pot_member \<times> user) list \<Rightarrow> pending_member list option \<Rightarrow> member_row list" where
  "memberRows members pending =
     map (\<lambda>(m, u). member_row (mb_userId m) (u_fullName u) (u_username u) (mb_role m)) members @
     (case pending of None \<Rightarrow> [] | Some ps \<Rightarrow>
        map (\<lambda>p. pending_row (pm_email p) (pm_role p)) (filter (\<lambda>p. pm_status p = pm_pending) ps))"

definition isAdmin :: "uuid option \<Rightarrow> member_row list \<Rightarrow> bool" where
  "isAdmin me rows \<longleftrightarrow> list_ex (\<lambda>m. case m of member_row u _ _ r \<Rightarrow> me = Some u \<and> r = role_admin | _ \<Rightarrow> False) rows"

definition isCurrentMember :: "uuid option \<Rightarrow> member_row list \<Rightarrow> bool" where
  "isCurrentMember me rows \<longleftrightarrow> list_ex (\<lambda>m. case m of member_row u _ _ _ \<Rightarrow> me = Some u | _ \<Rightarrow> False) rows"

definition hasFixedManualDestination :: "pot_view \<Rightarrow> bool" where
  "hasFixedManualDestination v \<longleftrightarrow> pot_payoutMode (pv_pot v) = manual \<and>
     (case pv_payoutConfig v of Some (view_manual account bank _) \<Rightarrow> truthy account \<and> truthy bank | _ \<Rightarrow> False)"

definition has_balance :: "pot_view \<Rightarrow> bool" where
  "has_balance v \<longleftrightarrow> number_above 0 (pv_balance v)"

definition canTriggerPayout :: "uuid option \<Rightarrow> member_row list \<Rightarrow> pot_view \<Rightarrow> bool" where
  "canTriggerPayout me rows v \<longleftrightarrow> isAdmin me rows \<and> pot_status (pv_pot v) = pot_open \<and> pot_pendingOperation (pv_pot v) = None \<and>
     has_balance v \<and> pot_payoutMode (pv_pot v) = manual"

definition hasUsableRefundDestination :: "profile option \<Rightarrow> pot_view \<Rightarrow> bool" where
  "hasUsableRefundDestination me v \<longleftrightarrow> pot_refundType (pv_pot v) \<noteq> refund_admin \<or>
     (case me of None \<Rightarrow> False | Some p \<Rightarrow> truthy (pr_defaultRefundAccount p) \<and> truthy (pr_defaultRefundBank p))"

definition canTriggerRefund :: "uuid option \<Rightarrow> profile option \<Rightarrow> member_row list \<Rightarrow> pot_view \<Rightarrow> bool" where
  "canTriggerRefund me profile rows v \<longleftrightarrow> isAdmin me rows \<and> pot_status (pv_pot v) = pot_open \<and>
     pot_pendingOperation (pv_pot v) = None \<and> has_balance v \<and> hasUsableRefundDestination profile v"

definition canClose :: "uuid option \<Rightarrow> member_row list \<Rightarrow> pot_view \<Rightarrow> bool" where
  "canClose me rows v \<longleftrightarrow> isAdmin me rows \<and> pot_status (pv_pot v) = pot_open"

definition canEditMembers :: "uuid option \<Rightarrow> member_row list \<Rightarrow> pot_view \<Rightarrow> bool" where
  "canEditMembers me rows v \<longleftrightarrow> isAdmin me rows \<and> pot_status (pv_pot v) = draft"

text \<open>The activity list: completed transactions, newest first, of the chosen kind, on pages.\<close>

definition completedTransactions :: "transaction list \<Rightarrow> transaction list" where
  "completedTransactions ts = sort_key (\<lambda>t. - tx_createdAt t) (filter (\<lambda>t. tx_status t = tx_completed) ts)"

definition filter_types :: "string \<Rightarrow> transaction_type list option" where
  "filter_types i = (if i = ''contribution'' then Some [ty_contribution, ty_funding] else if i = ''payout'' then Some [ty_payout]
     else if i = ''refund'' then Some [ty_refund, ty_reversal] else None)"

definition filteredTransactions :: "string \<Rightarrow> transaction list \<Rightarrow> transaction list" where
  "filteredTransactions i ts =
     (case filter_types i of Some types \<Rightarrow> filter (\<lambda>t. tx_type t \<in> set types) (completedTransactions ts) | None \<Rightarrow> completedTransactions ts)"

text \<open>\<open>None\<close> is the page size "all"; pages count from one.\<close>

definition paged :: "nat option \<Rightarrow> nat \<Rightarrow> 'a list \<Rightarrow> 'a list" where
  "paged pageSize pageNo rows = (case pageSize of None \<Rightarrow> rows | Some k \<Rightarrow> take k (drop ((pageNo - 1) * k) rows))"

definition totalPages :: "nat option \<Rightarrow> nat \<Rightarrow> nat" where
  "totalPages pageSize totalItems = (case pageSize of None \<Rightarrow> 1 | Some k \<Rightarrow> max 1 ((totalItems + k - 1) div k))"

definition filteredMembers :: "string \<Rightarrow> member_row list \<Rightarrow> member_row list" where
  "filteredMembers i rows =
     (if i = ''pending'' then filter is_pending rows
      else if i = ''admins'' then filter (\<lambda>m. row_role m = role_admin) rows else rows)"

end
