(* ===== verification/Web_Pages_Laws.thy ===== *)
theory Web_Pages_Laws
  imports Web_Pages Web_Wizard_Laws Members_Laws
begin

text \<open>
  The pages: the messages of a step say why it is refused, a new pot is submitted only after every step was checked, what
  saving an edited draft cannot do, the buttons of the pot page against the backend's guards, and paging.
\<close>

section \<open>Messages\<close>

definition silent :: "string option list \<Rightarrow> bool" where
  "silent ms \<longleftrightarrow> list_all (\<lambda>m. m = None) ms"

lemma silent_simps [simp]:
  "silent []" "silent (m # ms) \<longleftrightarrow> m = None \<and> silent ms" "silent (concat mss) \<longleftrightarrow> list_all silent mss"
  by (auto simp: silent_def list_all_iff)

lemma silent_leg: "silent (legErrors l) \<longleftrightarrow> valid_leg l"
  by (auto simp: legErrors_def valid_leg_def)

text \<open>A refused step says why. With the confirmed name lifted into the form, the config step shows no message exactly
  when it is let through; the one message it shows beside a step that passes is that of a target amount that does not
  exceed the fee, which a date lets through.\<close>

lemma refused_step_says_why:
  assumes "ws_payoutMode s = Some m" and "sync_confirmed confirmed s = s"
  shows "silent (config_messages formatNaira confirmed s) \<longleftrightarrow>
    isConfigStepValid s \<and> \<not> (m = target_based \<and> targetAmountTooLow s)"
proof (cases m)
  case target_based
  then have "ws_targetDestinationConfirmedName s = confirmed"
    using assms by (auto simp: sync_confirmed_def split: if_splits dest: arg_cong[of _ s ws_targetDestinationConfirmedName])
  then show ?thesis using assms(1) target_based
    by (auto simp: config_messages_def target_messages_def account_message_def bank_message_def isConfigStepValid_def hasAtLeastOneCondition_def)
next
  case manual
  then have "ws_manualDestinationConfirmedName s = confirmed"
    using assms by (auto simp: sync_confirmed_def split: if_splits dest: arg_cong[of _ s ws_manualDestinationConfirmedName])
  then show ?thesis using assms(1) manual
    by (auto simp: config_messages_def manual_messages_def Let_def isConfigStepValid_def)
next
  case recurring
  then have "ws_recurringDestinationConfirmedName s = confirmed"
    using assms by (auto simp: sync_confirmed_def split: if_splits dest: arg_cong[of _ s ws_recurringDestinationConfirmedName])
  then show ?thesis using assms(1) recurring
    by (auto simp: config_messages_def recurring_messages_def account_message_def bank_message_def isConfigStepValid_def)
next
  case scheduled
  have "list_all silent (map legErrors ls) \<longleftrightarrow> list_all valid_leg ls" for ls
    by (simp add: list.pred_map comp_def silent_leg)
  moreover have "\<not> valid_leg (emptyLeg 0)" by (simp add: valid_leg_def emptyLeg_def)
  ultimately show ?thesis using assms(1) scheduled
    by (simp add: config_messages_def isConfigStepValid_def shown_legs_def)
qed

lemma refused_step_says_why_witness:
  "\<not> silent (config_messages id (Some ''Ada'') (weekly_state '''')) \<and> silent (config_messages id (Some ''Ada'') (weekly_state ''250''))"
proof -
  have "sync_confirmed (Some ''Ada'') (weekly_state a) = weekly_state a" "ws_payoutMode (weekly_state a) = Some recurring" for a
    by (simp_all add: sync_confirmed_def weekly_state_def initialWizardState_def)
  note facts = refused_step_says_why[OF this(2,1), of id]
  have "\<not> isConfigStepValid (weekly_state '''')" by code_simp
  then show ?thesis using facts[of "''''"] facts[of "''250''"] weekly_steps(1) by simp
qed

section \<open>A step that appears\<close>

text \<open>Opening the edit form takes back the names the pot's rule was confirmed with: until the lookup has returned, and when it
  fails, an unchanged rule cannot be saved.\<close>

lemma reopened_form_is_refused:
  assumes "ws_payoutMode s = Some m" and "m \<in> {target_based, recurring}"
  shows "\<not> isConfigStepValid (step_appears s)"
  using assms by (auto simp: step_appears_def sync_confirmed_def isConfigStepValid_def truthy_def)

section \<open>The steps of a new pot\<close>

definition checked_up_to :: "nat \<Rightarrow> wizard_state \<Rightarrow> bool" where
  "checked_up_to i s \<longleftrightarrow> (0 < i \<longrightarrow> text_trim (ws_title s) \<noteq> []) \<and> (1 < i \<longrightarrow> ws_payoutMode s \<noteq> None) \<and> (2 < i \<longrightarrow> isConfigStepValid s)"

lemma step_index:
  "i \<le> 3 \<Longrightarrow> wizardSteps ! i = step_basics \<longleftrightarrow> i = 0" "i \<le> 3 \<Longrightarrow> wizardSteps ! i = step_mode \<longleftrightarrow> i = 1"
  "i \<le> 3 \<Longrightarrow> wizardSteps ! i = step_config \<longleftrightarrow> i = 2" "i \<le> 3 \<Longrightarrow> wizardSteps ! i = step_review \<longleftrightarrow> i = 3"
proof -
  assume "i \<le> 3"
  then have "i = 0 \<or> i = 1 \<or> i = 2 \<or> i = 3" by linarith
  then show "wizardSteps ! i = step_basics \<longleftrightarrow> i = 0" "wizardSteps ! i = step_mode \<longleftrightarrow> i = 1"
    "wizardSteps ! i = step_config \<longleftrightarrow> i = 2" "wizardSteps ! i = step_review \<longleftrightarrow> i = 3"
    by (auto simp: wizardSteps_def numeral_2_eq_2 numeral_3_eq_3)
qed

lemma page_checked: "new_pot_page n \<Longrightarrow> np_stepIndex n \<le> 3 \<and> checked_up_to (np_stepIndex n) (np_state n)"
proof (induction rule: new_pot_page.induct)
  case (page_next n)
  then show ?case
    by (auto simp: goNext_def canAdvance_def np_step_def checked_up_to_def step_index wizardSteps_def[THEN arg_cong[of _ _ length]] Let_def
        split: wizard_step.splits)
qed (auto simp: fresh_page_def checked_up_to_def np_step_def step_index goBack_def choose_mode_def edit_basics_def edit_config_def
    initialWizardState_def split: if_splits)

text \<open>A pot is created only from a form that was checked. Whatever is typed on the steps and however often the user goes back
  and on, the review step, whose button creates the pot, is reached only with a title, a payout mode and a rule that
  passes the check of its step.\<close>

lemma created_pot_was_checked:
  assumes "new_pot_page n" and "np_step n = step_review"
  shows "text_trim (ws_title (np_state n)) \<noteq> [] \<and> isConfigStepValid (np_state n) \<and> create_input now (np_state n) \<noteq> None"
  using page_checked[OF assms(1)] assms(2) by (auto simp: checked_up_to_def np_step_def step_index create_input_def)

lemma created_pot_was_checked_witness:
  "\<exists>n. new_pot_page n \<and> np_step n = step_review \<and> isConfigStepValid (np_state n)"
proof -
  let ?n1 = "fresh_page\<lparr>np_state := edit_basics (initialWizardState\<lparr>ws_title := ''Trip''\<rparr>) (np_state fresh_page)\<rparr>"
  let ?n2 = "goNext ?n1"
  let ?n3 = "?n2\<lparr>np_state := choose_mode manual (np_state ?n2)\<rparr>"
  let ?n4 = "goNext ?n3" and ?n5 = "goNext (goNext ?n3)"
  have steps: "np_step fresh_page = step_basics" "np_step ?n2 = step_mode" "np_step ?n5 = step_review" by code_simp+
  have "new_pot_page ?n1" by (rule page_basics[OF page_fresh steps(1)])
  then have "new_pot_page ?n3" by (intro page_mode page_next steps(2))
  then have page: "new_pot_page ?n5" by (intro page_next)
  show ?thesis using created_pot_was_checked[OF page steps(3)] page steps(3) by blast
qed

section \<open>Saving a draft\<close>

text \<open>The optional fields of every pot.\<close>

definition optional_fields :: "pot \<Rightarrow> string option \<times> kobo option \<times> kobo option" where
  "optional_fields p = (pot_description p, pot_maxContribution p, pot_goalAmount p)"

definition optional_rows :: "db \<Rightarrow> (uuid \<times> string option \<times> kobo option \<times> kobo option) list" where
  "optional_rows s = map (\<lambda>p. (pot_id p, optional_fields p)) (pots s)"

lemma optional_found:
  assumes "map (\<lambda>p. (pot_id p, optional_fields p)) ps = map (\<lambda>p. (pot_id p, optional_fields p)) qs"
  shows "map_option optional_fields (find (\<lambda>p. pot_id p = i) ps) = map_option optional_fields (find (\<lambda>p. pot_id p = i) qs)"
proof -
  have "map_option optional_fields (find (\<lambda>p. pot_id p = i) ps) =
      map_option snd (find (\<lambda>e. fst e = i) (map (\<lambda>p. (pot_id p, optional_fields p)) ps))" for ps
    by (induction ps) simp_all
  then show ?thesis using assms by simp
qed

lemma optional_rows_update:
  assumes "\<And>p. pot_id (f p) = pot_id p" and "\<And>p. optional_fields (f p) = optional_fields p"
  shows "preserves (\<lambda>s. optional_rows s = c) (update_pot q f)"
proof (rule preservesI)
  fix s assume "optional_rows s = c"
  moreover have "map (\<lambda>p. (pot_id p, optional_fields p)) (update_where (\<lambda>p. pot_id p = q) f (pots s)) = map (\<lambda>p. (pot_id p, optional_fields p)) (pots s)"
    by (induction "pots s") (simp_all add: update_where_def assms)
  ultimately show "optional_rows (snd (update_pot q f s)) = c" by (simp add: update_pot_def optional_rows_def Let_def)
qed

lemma optional_rows_config:
  "preserves (\<lambda>s. optional_rows s = c) (deleteExistingPayoutConfig q m)"
  "preserves (\<lambda>s. optional_rows s = c) (insertPayoutConfig w q pair)"
proof -
  have "optional_rows (drop_config q m s) = optional_rows s" for s
    by (cases m) (simp_all add: optional_rows_def drop_scheduled_def Let_def)
  then show "preserves (\<lambda>s. optional_rows s = c) (deleteExistingPayoutConfig q m)"
    by (auto simp: deleteExistingPayoutConfig_def intro: preserves_modify)
  have rows: "preserves (\<lambda>s. optional_rows s = c) (insert_target_based r1)" "preserves (\<lambda>s. optional_rows s = c) (insert_manual r2)"
    "preserves (\<lambda>s. optional_rows s = c) (insert_recurring r3)" "preserves (\<lambda>s. optional_rows s = c) (insert_scheduled q b)"
    "preserves (\<lambda>s. optional_rows s = c) (insert_legs ls)" for r1 r2 r3 b ls
    by (auto simp: preserves_def optional_rows_def insert_target_based_def insert_manual_def insert_recurring_def insert_scheduled_def
        insert_legs_def Let_def modify_def)
  have reads: "preserves (\<lambda>s. optional_rows s = c) (verifyAccountDetails w x y)" "preserves (\<lambda>s. optional_rows s = c) (optional_kobo v)"
    "preserves (\<lambda>s. optional_rows s = c) (leg_row j lw)" for x y v j lw
    unfolding verifyAccountDetails_def optional_kobo_def leg_row_def by (intro preserves_intros)+
  show "preserves (\<lambda>s. optional_rows s = c) (insertPayoutConfig w q pair)"
  proof (cases pair)
    case (pair_target_based account bank date amount)
    show ?thesis unfolding pair_target_based insertPayoutConfig.simps by (intro preserves_intros reads rows)
  next
    case (pair_manual account bank)
    show ?thesis unfolding pair_manual insertPayoutConfig.simps by (intro preserves_intros reads rows)
  next
    case (pair_recurring account bank amount interval date)
    show ?thesis unfolding pair_recurring insertPayoutConfig.simps by (intro preserves_intros reads rows)
  next
    case (pair_scheduled ordered legs)
    show ?thesis unfolding pair_scheduled insertPayoutConfig.simps by (intro preserves_intros reads rows)
  qed
qed

text \<open>C37. A cleared limit comes back. Saving the form of a draft with its description, maximum and goal emptied succeeds, and
  leaves all three as they were: an empty field is left out of the request, and the backend leaves a field that is left
  out alone.\<close>

theorem cleared_fields_stay:
  assumes "text_trim (ws_description f) = []" and "ws_maxContribution f = []" and "ws_goalAmount f = []"
    and "save_input now f = Some (Inr input)" and "e_gap w = id"
    and "find_pot potId s = Some p" and "Pots_update w zod_text potId userId input s = (Inr updated, t)"
  shows "\<exists>q. updated = Some q \<and> find_pot potId t = Some q \<and> pot_description q = pot_description p \<and>
    pot_maxContribution q = pot_maxContribution p \<and> pot_goalAmount q = pot_goalAmount p"
proof -
  have none: "up_description input = None" "up_maxContribution input = None" "up_goalAmount input = None"
    using assms(1-4)
    by (cases "buildPayoutConfig now f"; auto simp: save_input_def limit_field_def isPositiveAmount_def text_or_none_def split: if_splits)+
  have fields: "optional_fields (set_fields now' input a None None r) = optional_fields r" for now' a r
    by (simp add: optional_fields_def set_fields_def none)
  have gap: "preserves (\<lambda>s. optional_rows s = c) (in_gap w)" for c by (simp add: in_gap_def assms(5) preserves_def modify_def)
  have replaced: "preserves (\<lambda>s. optional_rows s = c) (replace_config w zod_text p' input)" for c p'
    unfolding replace_config_def
    by (intro preserves_intros optional_rows_config optional_rows_update) (simp_all add: set_payoutMode_def optional_fields_def)
  have "preserves (\<lambda>s. optional_rows s = c) (Pots_update w zod_text potId userId input)" for c
    unfolding Pots_update_def optional_kobo_def none option.case bnd_ret
    by (intro preserves_intros gap replaced optional_rows_update)
      (simp_all add: fields, simp_all add: set_fields_def)
  then have "optional_rows t = optional_rows s" using assms(7) unfolding preserves_def by (metis snd_conv)
  then have same: "map_option optional_fields (find_pot potId t) = map_option optional_fields (find_pot potId s)"
    unfolding optional_rows_def find_pot_def by (rule optional_found)
  moreover have "updated = find_pot potId t"
    using assms(7) unfolding Pots_update_def bnd_Inr_iff update_pot_def by (auto simp: Let_def split: if_splits)
  ultimately show ?thesis using assms(6) by (cases "find_pot potId t") (auto simp: optional_fields_def)
qed

definition trip_form :: wizard_state where
  "trip_form = initialWizardState\<lparr>ws_title := ''Trip'', ws_payoutMode := Some manual\<rparr>"

definition trip_input :: UpdatePotInput where
  "trip_input = \<lparr>up_title = Some ''Trip'', up_description = None, up_potType = Some private_pot, up_refundType = Some refund_contributors,
     up_minContribution = None, up_maxContribution = None, up_goalAmount = None, up_payoutMode = Some manual, up_payoutConfig = Some no_config\<rparr>"

definition limited_pot :: pot where
  "limited_pot = example_pot\<lparr>pot_status := draft, pot_maxContribution := Some 500000\<rparr>"

definition limited_db :: db where
  "limited_db = empty_db\<lparr>pots := [limited_pot],
     potMembers := [\<lparr>mb_id = 1, mb_potId = 7, mb_userId = 1, mb_role = role_admin, mb_addedByUserId = None\<rparr>]\<rparr>"

theorem cleared_fields_stay_witness:
  "save_input 0 trip_form = Some (Inr trip_input) \<and>
   (\<exists>q t. Pots_update example_env (\<lambda>_. []) 7 1 trip_input limited_db = (Inr (Some q), t) \<and> pot_maxContribution q = Some 500000)"
proof -
  have saved: "save_input 0 trip_form = Some (Inr trip_input)"
    by (simp add: save_input_def trip_form_def trip_input_def initialWizardState_def text_trim_def is_space_def isConfigStepValid_def
        buildPayoutConfig_def text_or_none_def limit_field_def isPositiveAmount_def)
  have "\<not> isl (fst (Pots_update example_env (\<lambda>_. []) 7 1 trip_input limited_db))" by code_simp
  then obtain updated t where run: "Pots_update example_env (\<lambda>_. []) 7 1 trip_input limited_db = (Inr updated, t)"
    by (metis prod.collapse sum.collapse(2))
  have "find_pot 7 limited_db = Some limited_pot" "e_gap example_env = id"
    by (simp_all add: find_pot_def limited_db_def limited_pot_def example_pot_def example_env_def)
  then show ?thesis
    using cleared_fields_stay[OF _ _ _ saved _ _ run] saved run
    by (auto simp: trip_form_def initialWizardState_def text_trim_def limited_pot_def)
qed

section \<open>The buttons of the pot page\<close>

lemma admin_row:
  assumes "isAdmin (Some me) (memberRows (member_join (\<lambda>m. mb_potId m = potId) s) pending)" and "unique_members s"
  shows "getMemberRole potId me s = Some role_admin"
proof -
  obtain m where m: "m \<in> set (potMembers s)" "mb_potId m = potId" "mb_userId m = me" "mb_role m = role_admin"
    using assms(1) unfolding isAdmin_def memberRows_def list_ex_append
    by (cases pending) (auto simp: list_ex_iff member_join_def split: member_row.splits prod.splits)
  have "find (\<lambda>x. mb_potId x = potId \<and> mb_userId x = me) (potMembers s) = Some m"
  proof -
    have "find (\<lambda>x. mb_potId x = potId \<and> mb_userId x = me) (potMembers s) \<noteq> None" using m by (auto simp: find_None_iff)
    then obtain n where n: "find (\<lambda>x. mb_potId x = potId \<and> mb_userId x = me) (potMembers s) = Some n" by blast
    then have "n \<in> set (potMembers s)" "mb_potId n = potId" "mb_userId n = me" by (auto dest: find_SomeD)
    then have "n = m" using m assms(2) by (auto simp: unique_members_def distinct_map inj_on_def)
    then show ?thesis using n by simp
  qed
  then show ?thesis using m(4) by (simp add: getMemberRole_def find_member_def)
qed

text \<open>A payout or refund button is offered only to whom the backend lets through its first guards, for a pot that is open and
  free; a payout only where it is manual.\<close>

lemma offered_payout_is_allowed:
  assumes "unique_members s" and "canTriggerPayout (Some me) (memberRows (member_join (\<lambda>m. mb_potId m = potId) s) pending) v"
  shows "assertIsAdmin potId (Some me) s = (Inr (), s) \<and> pot_status (pv_pot v) = pot_open \<and> pot_payoutMode (pv_pot v) = manual \<and>
    pot_pendingOperation (pv_pot v) = None"
  using assms admin_row[of me potId s pending]
  by (simp add: canTriggerPayout_def assertIsAdmin_def bnd_def gets_def require_def ret_def)

lemma offered_refund_is_allowed:
  assumes "unique_members s" and "canTriggerRefund (Some me) profile (memberRows (member_join (\<lambda>m. mb_potId m = potId) s) pending) v"
  shows "assertIsAdmin potId (Some me) s = (Inr (), s) \<and> pot_status (pv_pot v) = pot_open \<and> pot_pendingOperation (pv_pot v) = None \<and>
    (pot_refundType (pv_pot v) = refund_admin \<longrightarrow>
       (\<exists>p. profile = Some p \<and> truthy (pr_defaultRefundAccount p) \<and> truthy (pr_defaultRefundBank p)))"
  using assms admin_row[of me potId s pending]
  by (auto simp: canTriggerRefund_def hasUsableRefundDestination_def assertIsAdmin_def bnd_def gets_def require_def ret_def split: option.splits)

text \<open>The pages of a list are the list.\<close>

lemma pages_are_the_list:
  assumes "0 < k"
  shows "concat (map (\<lambda>i. paged (Some k) i rows) [1..<Suc (totalPages (Some k) (length rows))]) = rows"
proof -
  have first: "concat (map (\<lambda>i. paged (Some k) i rows) [1..<Suc n]) = take (n * k) rows" for n
  proof (induction n)
    case (Suc n)
    have "take (n * k) rows @ take k (drop (n * k) rows) = take (n * k + k) rows" by (simp add: take_add)
    then show ?case using Suc by (simp add: paged_def add.commute)
  qed simp
  have "length rows \<le> totalPages (Some k) (length rows) * k"
  proof -
    have "length rows + k - 1 < ((length rows + k - 1) div k + 1) * k" using assms by (simp add: dividend_less_div_times)
    then have "length rows \<le> (length rows + k - 1) div k * k" using assms by simp
    also have "\<dots> \<le> totalPages (Some k) (length rows) * k" by (simp add: totalPages_def)
    finally show ?thesis .
  qed
  then show ?thesis using first[of "totalPages (Some k) (length rows)"] by simp
qed

end
