(* ===== verification/Web_Modals.thy ===== *)
theory Web_Modals
  imports Web_Wizard Web_Client
begin

text \<open>
  The dialogs that move money: \<open>PayoutAmountModal.tsx\<close>, \<open>PayoutDestinationModal.tsx\<close>,
  \<open>OtpStep.tsx\<close>, \<open>ContributeModal.tsx\<close> and \<open>AwaitingPaymentModal.tsx\<close>. A dialog is a state with the handlers of its
  buttons; what it sends are the bodies of the calls of \<open>lib/api.ts\<close>. \<open>formatNaira\<close>, which is \<open>Intl\<close>'s, is a parameter.
\<close>

section \<open>Amounts\<close>

text \<open>\<open>nairaAmountToNumber\<close> of a rendered amount, which may be negative.\<close>

definition rendered_number :: "string \<Rightarrow> rat option" where
  "rendered_number t = (case t of c # cs \<Rightarrow> if c = CHR ''-'' \<and> cs \<noteq> [] then map_option uminus (js_number cs) else js_number t | [] \<Rightarrow> js_number t)"

text \<open>\<open>wireAmount\<close> of the payout dialogs: a field that is blank, or that \<open>toNairaAmount\<close> does not read, sends nothing.\<close>

definition payout_amount :: "string \<Rightarrow> string option" where
  "payout_amount amount = (if amount \<noteq> [] then toNairaAmount amount else None)"

definition fullBalancePayout :: "string \<Rightarrow> error + string" where
  "fullBalancePayout balance = subtractNaira balance web_OUTBOUND_FEE"

definition maxSendable :: "string \<Rightarrow> rat option" where
  "maxSendable balance = (case fullBalancePayout balance of Inl _ \<Rightarrow> None | Inr t \<Rightarrow> rendered_number t)"

definition belowFeeThreshold :: "string \<Rightarrow> bool" where
  "belowFeeThreshold balance = (case maxSendable balance of None \<Rightarrow> False | Some m \<Rightarrow> m \<le> 0)"

text \<open>Why an amount that was typed is not taken: \<open>!naira || naira <= 0\<close>, \<open>naira > maxSendableNaira\<close>.\<close>

definition too_much_text :: "(string \<Rightarrow> string) \<Rightarrow> string \<Rightarrow> string" where
  "too_much_text formatNaira balance =
     ''You can send up to '' @ formatNaira (case fullBalancePayout balance of Inl _ \<Rightarrow> [] | Inr t \<Rightarrow> t) @ ''. A flat ''
       @ formatNaira web_OUTBOUND_FEE @ '' fee applies on top.''"

definition above :: "rat \<Rightarrow> rat option \<Rightarrow> bool" where
  "above n bound = (case bound of None \<Rightarrow> False | Some m \<Rightarrow> m < n)"

definition payout_amount_error :: "(string \<Rightarrow> string) \<Rightarrow> string \<Rightarrow> string \<Rightarrow> string option" where
  "payout_amount_error formatNaira balance amount =
     (case js_number amount of
        None \<Rightarrow> Some ''Enter an amount greater than 0.''
      | Some n \<Rightarrow>
          if n \<le> 0 then Some ''Enter an amount greater than 0.''
          else if above n (maxSendable balance) then Some (too_much_text formatNaira balance)
          else None)"

section \<open>A payout to the account on file\<close>

datatype payout_step = entering | confirming

record amount_modal =
  am_step :: payout_step
  am_amount :: string
  am_amountError :: string

definition closed_amount_modal :: amount_modal where
  "closed_amount_modal = \<lparr>am_step = entering, am_amount = [], am_amountError = []\<rparr>"

definition amount_typed :: "string \<Rightarrow> amount_modal \<Rightarrow> amount_modal" where
  "amount_typed raw m = m\<lparr>am_amount := sanitizeAmountInput raw, am_amountError := []\<rparr>"

definition amount_continue :: "(string \<Rightarrow> string) \<Rightarrow> string \<Rightarrow> amount_modal \<Rightarrow> amount_modal" where
  "amount_continue formatNaira balance m =
     (if am_amount m = [] then m\<lparr>am_step := confirming\<rparr>
      else case payout_amount_error formatNaira balance (am_amount m) of
             Some e \<Rightarrow> m\<lparr>am_amountError := e\<rparr>
           | None \<Rightarrow> m\<lparr>am_amountError := [], am_step := confirming\<rparr>)"

text \<open>The bodies of the two calls; \<open>JSON.stringify\<close> drops an amount that is \<open>undefined\<close>.\<close>

definition amount_fields :: "string \<Rightarrow> body" where
  "amount_fields amount = (case payout_amount amount of Some t \<Rightarrow> [(''amount'', t)] | None \<Rightarrow> [])"

definition amount_requestCode :: "amount_modal \<Rightarrow> body" where
  "amount_requestCode m = amount_fields (am_amount m)"

definition amount_verify :: "amount_modal \<Rightarrow> string \<Rightarrow> body" where
  "amount_verify m otpCode = amount_fields (am_amount m) @ [(''otpCode'', otpCode)]"

section \<open>A payout to any account\<close>

record modal_errors =
  me_account :: "string option"
  me_bank :: "string option"
  me_amount :: "string option"

definition no_errors :: modal_errors where
  "no_errors = \<lparr>me_account = None, me_bank = None, me_amount = None\<rparr>"

record destination_modal =
  dm_step :: payout_step
  dm_account :: string
  dm_bank :: string
  dm_amount :: string
  dm_errors :: modal_errors

definition destination_errors :: "(string \<Rightarrow> string) \<Rightarrow> string \<Rightarrow> string option \<Rightarrow> destination_modal \<Rightarrow> modal_errors" where
  "destination_errors formatNaira balance confirmed m =
     \<lparr>me_account = (if dm_account m \<noteq> [] \<and> dm_bank m \<noteq> [] \<and> \<not> truthy confirmed then Some ''Wait for the account name to be confirmed.''
        else if dm_account m = [] then Some ''Enter the account number.'' else None),
      me_bank = (if dm_bank m = [] then Some ''Choose the bank.'' else None),
      me_amount = (if dm_amount m = [] then None else payout_amount_error formatNaira balance (dm_amount m))\<rparr>"

definition destination_continue ::
  "(string \<Rightarrow> string) \<Rightarrow> string \<Rightarrow> string option \<Rightarrow> destination_modal \<Rightarrow> destination_modal" where
  "destination_continue formatNaira balance confirmed m =
     (let nextErrors = destination_errors formatNaira balance confirmed m in
      if nextErrors \<noteq> no_errors then m\<lparr>dm_errors := nextErrors\<rparr> else m\<lparr>dm_errors := no_errors, dm_step := confirming\<rparr>)"

definition destination_requestCode :: "destination_modal \<Rightarrow> body" where
  "destination_requestCode m =
     [(''destinationAccount'', dm_account m), (''destinationBank'', dm_bank m)] @ amount_fields (dm_amount m)"

definition destination_verify :: "destination_modal \<Rightarrow> string \<Rightarrow> body" where
  "destination_verify m otpCode =
     [(''destinationAccount'', dm_account m), (''destinationBank'', dm_bank m)] @ amount_fields (dm_amount m) @ [(''otpCode'', otpCode)]"

section \<open>The code\<close>

text \<open>\<open>OtpStep\<close>: a code is asked for when the step appears; it is sent on only when its six digits are there, and asked
  for again only when the timer has run down.\<close>

record otp_step =
  os_code :: string
  os_secondsLeft :: int
  os_error :: string

definition otp_confirm :: "(string \<Rightarrow> ('s, api_outcome) op) \<Rightarrow> otp_step \<Rightarrow> 's \<Rightarrow> otp_step \<times> 's" where
  "otp_confirm onVerify o1 s =
     (if length (os_code o1) \<noteq> 6 then (o1, s)
      else case onVerify (os_code o1) s of
        (Inr (loaded _), t) \<Rightarrow> (o1\<lparr>os_error := []\<rparr>, t)
      | (Inr (api_error m status), t) \<Rightarrow> (o1\<lparr>os_error := m\<rparr>, t)
      | (Inl _, t) \<Rightarrow> (o1\<lparr>os_error := ''Couldn't verify that code''\<rparr>, t))"

definition otp_resend :: "int \<Rightarrow> ('s, api_outcome) op \<Rightarrow> otp_step \<Rightarrow> 's \<Rightarrow> otp_step \<times> 's" where
  "otp_resend wait onRequestCode o1 s =
     (if 0 < os_secondsLeft o1 then (o1, s)
      else case onRequestCode s of
        (Inr (loaded _), t) \<Rightarrow> (o1\<lparr>os_secondsLeft := wait\<rparr>, t)
      | (_, t) \<Rightarrow> (o1, t))"

section \<open>A contribution\<close>

definition VIRTUAL_ACCOUNT_MAX_ATTEMPTS :: nat where "VIRTUAL_ACCOUNT_MAX_ATTEMPTS = 3"

text \<open>What the amount field holds, against the pot's limits: an error, nothing (\<open>return\<close>), or the amount to send.\<close>

definition contribution_amount :: "(string \<Rightarrow> string) \<Rightarrow> pot_view \<Rightarrow> string \<Rightarrow> string + string option" where
  "contribution_amount formatNaira v amount =
     (if text_trim amount = [] then Inl ''Enter an amount.''
      else let least = rendered_number (pv_minContribution v);
               most = (if truthy (pv_maxContribution v) then rendered_number (the (pv_maxContribution v)) else None)
           in case js_number amount of
                None \<Rightarrow> Inl (''Enter at least '' @ formatNaira (pv_minContribution v) @ ''.'')
              | Some n \<Rightarrow>
                  if n = 0 \<or> (case least of None \<Rightarrow> False | Some l \<Rightarrow> n < l)
                  then Inl (''Enter at least '' @ formatNaira (pv_minContribution v) @ ''.'')
                  else if above n most
                  then Inl (''The most you can contribute is '' @ formatNaira (the (pv_maxContribution v)) @ ''.'')
                  else Inr (toNairaAmount amount))"

definition contribute_body :: "string \<Rightarrow> bool \<Rightarrow> json" where
  "contribute_body wire anonymous = JObj [(''amount'', JStr wire), (''anonymous'', JBool anonymous)]"

definition isRetryable :: "error + api_outcome \<Rightarrow> bool" where
  "isRetryable r = (case r of Inr (api_error m status) \<Rightarrow> status = 502 | _ \<Rightarrow> False)"

text \<open>The attempts, each \<open>send\<close> with a key of its own.\<close>

function contribute_attempts :: "nat \<Rightarrow> ('s, api_outcome) op \<Rightarrow> ('s, api_outcome) op" where
  "contribute_attempts attempt send s =
     (case send s of (r, t) \<Rightarrow>
        if \<not> isRetryable r \<or> VIRTUAL_ACCOUNT_MAX_ATTEMPTS \<le> attempt then (r, t)
        else contribute_attempts (Suc attempt) send t)"
  by pat_completeness auto

termination
  by (relation "measure (\<lambda>(attempt, send, s). VIRTUAL_ACCOUNT_MAX_ATTEMPTS - attempt)") auto

declare contribute_attempts.simps [simp del]

text \<open>The toast, if any, after \<open>handleSubmit\<close>: a contribution that was issued closes the dialog instead.\<close>

definition contribute_toast :: "error + api_outcome \<Rightarrow> string option" where
  "contribute_toast r =
     (case r of Inr (loaded _) \<Rightarrow> None | Inr (api_error m _) \<Rightarrow> Some m | Inl _ \<Rightarrow> Some ''Couldn't start your contribution'')"

text \<open>What the dialog awaits: a completed contribution in the pot's feed that is not older than the one it issued.\<close>

definition funded_since :: "time \<Rightarrow> transaction list \<Rightarrow> transaction checked" where
  "funded_since issued feed =
     (case find (\<lambda>t. tx_type t = ty_contribution \<and> tx_status t = tx_completed \<and> issued \<le> tx_createdAt t) feed of
        Some t \<Rightarrow> found t | None \<Rightarrow> nothing)"

end
