(* ===== verification/Web_Modals_Laws.thy ===== *)
theory Web_Modals_Laws
  imports Web_Modals Web_Wizard_Laws
begin

text \<open>
  The dialogs against the backend: reading an amount as a double keeps the order of amounts below \<open>2^52\<close> kobo, so what
  a dialog lets through is covered, or within the limits, to the kobo; and what becomes of an amount that the two
  readings of the client, \<open>Number\<close> and \<open>toNairaAmount\<close>, do not agree on.
\<close>

section \<open>Doubles keep the order\<close>

lemma round_half_even_mono: "x \<le> y \<Longrightarrow> round_half_even x \<le> round_half_even y"
proof -
  assume xy: "x \<le> y"
  have bounds: "\<lfloor>z\<rfloor> \<le> round_half_even z \<and> round_half_even z \<le> \<lfloor>z\<rfloor> + 1" for z :: rat
    by (simp add: round_half_even_def Let_def)
  show ?thesis
  proof (cases "\<lfloor>x\<rfloor> = \<lfloor>y\<rfloor>")
    case True
    then show ?thesis using xy by (auto simp: round_half_even_def Let_def)
  next
    case False
    then have "\<lfloor>x\<rfloor> + 1 \<le> \<lfloor>y\<rfloor>" using floor_mono[OF xy] by simp
    then show ?thesis using bounds[of x] bounds[of y] by linarith
  qed
qed

lemma round_half_even_int [simp]: "round_half_even (of_int n) = n"
  by (simp add: round_half_even_def)

lemma two_to_le: "a \<le> b \<Longrightarrow> two_to a \<le> two_to b"
proof -
  assume "a \<le> b"
  then obtain n where "b = a + int n" using zle_iff_zadd by blast
  then show ?thesis using two_to_add_nat[of a n] two_to_pos[of a] by simp
qed

lemma double_of_within:
  assumes "0 < x"
  shows "two_to (binary_exponent x) \<le> double_of x" and "double_of x \<le> 2 * two_to (binary_exponent x)"
proof -
  let ?e = "binary_exponent x" and ?u = "two_to (binary_exponent x - 52)"
  have u: "0 < ?u" by (rule two_to_pos)
  have scale: "two_to ?e = 2 ^ 52 * ?u" using two_to_add_nat[of "?e - 52" 52] by simp
  have low: "of_int (2 ^ 52) \<le> x / ?u" and high: "x / ?u \<le> of_int (2 ^ 53)"
    using binary_exponent_bounds[OF assms] u by (simp_all add: scale field_simps)
  have d: "double_of x = of_int (round_half_even (x / ?u)) * ?u" using assms by (simp add: double_of_def Let_def)
  have "2 ^ 52 \<le> round_half_even (x / ?u)" "round_half_even (x / ?u) \<le> 2 ^ 53"
    using round_half_even_mono[OF low] round_half_even_mono[OF high] by (simp_all only: round_half_even_int)
  then have "of_int (2 ^ 52) \<le> (of_int (round_half_even (x / ?u)) :: rat)" "of_int (round_half_even (x / ?u)) \<le> (of_int (2 ^ 53) :: rat)"
    by (simp_all only: of_int_le_iff)
  then show "two_to ?e \<le> double_of x" "double_of x \<le> 2 * two_to ?e"
    using u by (simp_all add: d scale)
qed

lemma double_of_mono:
  assumes "0 \<le> x" and "x \<le> y"
  shows "double_of x \<le> double_of y"
proof (cases "x = 0")
  case True
  then show ?thesis using double_of_nonneg[of y] assms by (simp add: double_of_def)
next
  case False
  then have pos: "0 < x" "0 < y" using assms by simp_all
  let ?a = "binary_exponent x" and ?b = "binary_exponent y"
  consider "?a = ?b" | "?a + 1 \<le> ?b" | "?b + 1 \<le> ?a" by linarith
  then show ?thesis
  proof cases
    case 1
    have "x / two_to (?b - 52) \<le> y / two_to (?b - 52)"
      using assms(2) two_to_pos[of "?b - 52"] by (simp add: divide_right_mono)
    then have "round_half_even (x / two_to (?b - 52)) \<le> round_half_even (y / two_to (?b - 52))" by (rule round_half_even_mono)
    then show ?thesis using 1 pos two_to_pos[of "?b - 52"] by (simp add: double_of_def Let_def mult_right_mono)
  next
    case 2
    have "2 * two_to ?a \<le> two_to ?b" using two_to_le[OF 2] by (simp add: two_to_Suc)
    then show ?thesis using double_of_within(2)[OF pos(1)] double_of_within(1)[OF pos(2)] by linarith
  next
    case 3
    have "2 * two_to ?b \<le> two_to ?a" using two_to_le[OF 3] by (simp add: two_to_Suc)
    then have "y < x" using binary_exponent_bounds(2)[OF pos(2)] binary_exponent_bounds(1)[OF pos(1)] by linarith
    then show ?thesis using assms(2) by simp
  qed
qed

text \<open>Two amounts of kobo read as different doubles.\<close>

lemma kobo_double_le:
  assumes "0 \<le> m" and "m < 2 ^ 52 - 1" and "0 \<le> x" and "double_of x \<le> double_of (of_int m / 100)"
  shows "x * 100 < of_int (m + 1)"
proof (rule ccontr)
  assume "\<not> x * 100 < of_int (m + 1)"
  then have "of_int (m + 1) / 100 \<le> x" by simp
  then have "double_of (of_int (m + 1) / 100) \<le> double_of x" using assms(1) by (intro double_of_mono) simp_all
  moreover have "double_of (of_int m / 100) \<le> double_of (of_int (m + 1) / 100)" using assms(1) by (intro double_of_mono) simp_all
  ultimately have "number_of_kobo (m + 1) = number_of_kobo m" using assms(1,4) by (simp add: number_of_kobo_def)
  moreover have "nombaNairaToKobo (Some (number_of_kobo (m + 1))) = Some (m + 1)" "nombaNairaToKobo (Some (number_of_kobo m)) = Some m"
    using assms(1,2) by (auto intro!: exact_number(2))
  ultimately show False by simp
qed

section \<open>What a typed amount is\<close>

definition number_value :: "string \<Rightarrow> rat" where
  "number_value t =
     (let w = takeWhile is_digit t; f = tl (dropWhile is_digit t) in of_int (BigInt (w @ f)) / 10 ^ length f)"

lemma js_number_value: "js_number t = Some n \<Longrightarrow> n = double_of (number_value t) \<and> 0 \<le> number_value t"
  by (cases "dropWhile is_digit t")
    (auto simp: js_number_def number_value_def Let_def BigInt_def double_of_def[of 0] simp del: dropWhile_eq_Nil_conv split: if_splits)

lemma parse_nat_append: "parse_nat (u @ v) = parse_nat u * 10 ^ length v + parse_nat v"
proof (induction v rule: rev_induct)
  case (snoc c v)
  have "parse_nat (u @ v @ [c]) = 10 * parse_nat (u @ v) + digit_val c" using parse_nat_snoc[of "u @ v" c] by simp
  then show ?case using snoc by (simp add: parse_nat_snoc algebra_simps)
qed simp

text \<open>The two kobo digits against the whole fraction.\<close>

lemma fraction_kobo:
  "parse_nat (take 2 (f @ ''00'')) * 10 ^ length f \<le> parse_nat f * 100 \<and>
   (length f \<le> 2 \<longrightarrow> parse_nat (take 2 (f @ ''00'')) * 10 ^ length f = parse_nat f * 100)"
proof -
  have zeros: "parse_nat ''00'' = 0" "parse_nat ''0'' = 0" by code_simp+
  have "parse_nat (f @ ''00'') = parse_nat f * 100" using parse_nat_append[of f "''00''"] zeros by simp
  moreover have "length (drop 2 (f @ ''00'')) = length f" by simp
  then have "parse_nat (f @ ''00'') = parse_nat (take 2 (f @ ''00'')) * 10 ^ length f + parse_nat (drop 2 (f @ ''00''))"
    using parse_nat_append[of "take 2 (f @ ''00'')" "drop 2 (f @ ''00'')"] unfolding append_take_drop_id by simp
  moreover have "parse_nat (drop 2 (f @ ''00'')) = 0" if "length f \<le> 2"
  proof -
    from that consider "length f = 0" | "length f = 1" | "length f = 2" by linarith
    then show ?thesis using zeros by cases (simp_all add: numeral_2_eq_2)
  qed
  ultimately show ?thesis by auto
qed

definition fraction_digits :: "string \<Rightarrow> nat" where
  "fraction_digits t = length (tl (dropWhile is_digit t))"

lemma typed_value:
  assumes "typed t" and "toNairaAmount t = Some a"
  shows "nairaStringToKobo a = Inr (sent_kobo t)" and "0 \<le> sent_kobo t" and "of_int (sent_kobo t) \<le> number_value t * 100"
    and "fraction_digits t \<le> 2 \<Longrightarrow> of_int (sent_kobo t) = number_value t * 100"
proof -
  show "nairaStringToKobo a = Inr (sent_kobo t)" using wire_amount[OF assms(1)] assms(2) by (simp add: wireAmount_def)
  show "0 \<le> sent_kobo t" by (simp add: sent_kobo_def Let_def BigInt_def split: list.split)
  have "of_int (sent_kobo t) \<le> number_value t * 100 \<and> (fraction_digits t \<le> 2 \<longrightarrow> of_int (sent_kobo t) = number_value t * 100)"
    using assms(1)
  proof (cases rule: typed_shape)
    case (1 w)
    have tw: "takeWhile is_digit w = w" "dropWhile is_digit w = []" using 1(1) by (simp_all add: list_all_iff)
    then show ?thesis unfolding sent_kobo_def number_value_def 1(2) tw Let_def by (simp add: BigInt_def)
  next
    case (2 w f)
    note tw = take_digits[OF 2(1), of f, folded 2(3)]
    have trim: "text_trim t = t" using 2 by (intro text_trim_id) (auto simp: list_all_iff)
    have "amount_pattern t" using assms(2) trim by (simp add: toNairaAmount_def Let_def split: if_splits)
    then have parts: "w \<noteq> []" "f \<noteq> []" using tw by (simp_all add: amount_pattern_def)
    let ?K = "parse_nat (take 2 (f @ ''00''))" and ?n = "length f"
    have k: "sent_kobo t = int (parse_nat w) * 100 + int ?K"
      using tw parts by (simp add: sent_kobo_def BigInt_def)
    have v: "number_value t * 100 = of_nat (parse_nat w) * 100 + of_nat (parse_nat f * 100) / 10 ^ ?n"
      using tw by (simp add: number_value_def BigInt_def parse_nat_append field_simps)
    have le: "of_nat (?K * 10 ^ ?n) \<le> (of_nat (parse_nat f * 100) :: rat)" using fraction_kobo[of f] by (simp only: of_nat_le_iff)
    have eq: "?n \<le> 2 \<Longrightarrow> of_nat (?K * 10 ^ ?n) = (of_nat (parse_nat f * 100) :: rat)" using fraction_kobo[of f] by (simp only:)
    have "(of_nat ?K :: rat) \<le> of_nat (parse_nat f * 100) / 10 ^ ?n" using le by (simp add: field_simps)
    moreover have "?n \<le> 2 \<Longrightarrow> (of_nat ?K :: rat) = of_nat (parse_nat f * 100) / 10 ^ ?n" using eq by (simp add: field_simps)
    ultimately show ?thesis using tw by (simp add: k v fraction_digits_def)
  qed
  then show "of_int (sent_kobo t) \<le> number_value t * 100"
    and "fraction_digits t \<le> 2 \<Longrightarrow> of_int (sent_kobo t) = number_value t * 100" by blast+
qed

lemma rendered_kobo:
  assumes "0 \<le> k"
  shows "rendered_number (koboToNairaString k) = Some (double_of (of_int k / 100))"
proof -
  let ?w = "show_nat (nat (k div 100))"
  define a b where "a = digit_char (nat (k mod 100) div 10)" and "b = digit_char (nat (k mod 100) mod 10)"
  have t: "koboToNairaString k = ?w @ [CHR ''.'', a, b]" using koboToNairaString_nonneg[OF assms] by (simp add: a_def b_def)
  have w: "list_all is_digit ?w" "?w \<noteq> []" using show_nat_digits by (auto simp: list_all_iff)
  have ab: "is_digit a" "is_digit b" by (simp_all add: a_def b_def)
  have "parse_nat [a, b] = nat (k mod 100)"
    by (simp add: parse_nat_def a_def b_def)
  then have "BigInt (?w @ [a, b]) = k"
    using assms parse_nat_append[of ?w "[a, b]"] by (simp add: BigInt_def pos_imp_zdiv_nonneg_iff)
  moreover have "hd (koboToNairaString k) \<noteq> CHR ''-''" using w by (cases ?w) (auto simp: t is_digit_def)
  then have "rendered_number (koboToNairaString k) = js_number (koboToNairaString k)"
    by (auto simp: rendered_number_def split: list.split)
  moreover have "js_number (koboToNairaString k) = Some (double_of (of_int (BigInt (?w @ [a, b])) / 100))"
    using take_digits[OF w(1), of "[a, b]"] w(2) ab unfolding t by (simp add: js_number_def)
  ultimately show ?thesis by simp
qed

lemma negative_not_above:
  assumes "k < 0"
  shows "\<exists>m. rendered_number (koboToNairaString k) = Some m \<and> m \<le> 0"
proof -
  have "koboToNairaString k = CHR ''-'' # koboToNairaString (- k)" using assms by (simp add: koboToNairaString_def Let_def)
  moreover have "rendered_number (koboToNairaString (- k)) = Some (double_of (of_int (- k) / 100))"
    by (rule rendered_kobo) (use assms in simp)
  moreover have "koboToNairaString (- k) = js # ks \<Longrightarrow> js \<noteq> CHR ''-''" for js ks
    using koboToNairaString_nonneg[of "- k"] show_nat_digits[of "CHR ''-''" "nat (- k div 100)"] assms
    by (cases "show_nat (nat (- k div 100))") (auto simp: is_digit_def)
  moreover have "koboToNairaString (- k) \<noteq> []" using koboToNairaString_nonneg[of "- k"] assms by simp
  ultimately have "rendered_number (koboToNairaString k) = Some (- double_of (of_int (- k) / 100))"
    by (auto simp: rendered_number_def split: list.splits if_splits)
  then show ?thesis using double_of_nonneg[of "of_int (- k) / 100"] assms by simp
qed

section \<open>The payout dialogs\<close>

lemma sendable:
  assumes "0 \<le> b"
  shows "maxSendable (koboToNairaString b) = rendered_number (koboToNairaString (b - OUTBOUND_FEE))"
  using assms web_reads_back[of b] web_fee_constants(4)
  by (simp add: maxSendable_def fullBalancePayout_def subtractNaira_def with_kobo_def web_format)

text \<open>A dialog is open for an amount only when the balance exceeds the fee.\<close>

lemma open_dialog:
  assumes "0 \<le> b" and "\<not> belowFeeThreshold (koboToNairaString b)"
  shows "OUTBOUND_FEE < b" and "maxSendable (koboToNairaString b) = Some (double_of (of_int (b - OUTBOUND_FEE) / 100))"
proof -
  have "\<not> b < OUTBOUND_FEE"
    using negative_not_above[of "b - OUTBOUND_FEE"] assms(2) sendable[OF assms(1)] by (auto simp: belowFeeThreshold_def)
  moreover have "b \<noteq> OUTBOUND_FEE"
    using assms(2) sendable[OF assms(1)] rendered_kobo[of 0] by (auto simp: belowFeeThreshold_def double_of_def)
  ultimately show "OUTBOUND_FEE < b" by simp
  then show "maxSendable (koboToNairaString b) = Some (double_of (of_int (b - OUTBOUND_FEE) / 100))"
    using sendable[OF assms(1)] rendered_kobo[of "b - OUTBOUND_FEE"] by simp
qed

lemma typed_is_covered:
  assumes "0 \<le> b" and "b < 2 ^ 52" and "\<not> belowFeeThreshold (koboToNairaString b)" and "typed t"
    and "payout_amount_error formatNaira (koboToNairaString b) t = None" and "toNairaAmount t = Some a"
  shows "nairaStringToKobo a = Inr (sent_kobo t) \<and> 0 \<le> sent_kobo t \<and> sent_kobo t + OUTBOUND_FEE \<le> b"
proof -
  obtain n where n: "js_number t = Some n" "\<not> double_of (of_int (b - OUTBOUND_FEE) / 100) < n"
    using assms(5) open_dialog(2)[OF assms(1,3)] by (auto simp: payout_amount_error_def above_def split: option.splits if_splits)
  then have le: "double_of (number_value t) \<le> double_of (of_int (b - OUTBOUND_FEE) / 100)" "0 \<le> number_value t"
    using js_number_value[OF n(1)] by simp_all
  have fee: "1 < OUTBOUND_FEE" by (simp add: OUTBOUND_FEE_def NOMBA_OUTBOUND_FEE_def PLATFORM_OUTBOUND_FEE_def)
  have "number_value t * 100 < of_int (b - OUTBOUND_FEE + 1)"
    by (rule kobo_double_le) (use le fee open_dialog(1)[OF assms(1,3)] assms(2) in simp_all)
  then have "(of_int (sent_kobo t) :: rat) < of_int (b - OUTBOUND_FEE + 1)" using typed_value(3)[OF assms(4,6)] by linarith
  then have "sent_kobo t < b - OUTBOUND_FEE + 1" by (simp only: of_int_less_iff)
  then show ?thesis using typed_value(1,2)[OF assms(4,6)] by simp
qed

text \<open>C32. What the payout dialog sends is covered. For a balance below \<open>2^52\<close> kobo, an amount as its field leaves it, and the
  dialog gone on to the code: the calls carry either no amount or one whose kobo and the outbound fee fit in the
  balance, so the backend does not refuse it for the funds the dialog saw.\<close>

theorem payout_dialog_amount_is_covered:
  assumes "0 \<le> b" and "b < 2 ^ 52" and "\<not> belowFeeThreshold (koboToNairaString b)" and "typed (am_amount m)"
    and "am_step m = entering" and "am_step (amount_continue formatNaira (koboToNairaString b) m) = confirming"
  shows "amount_requestCode m = [] \<or>
    (\<exists>a k. amount_requestCode m = [(''amount'', a)] \<and> nairaStringToKobo a = Inr k \<and> 0 \<le> k \<and> k + OUTBOUND_FEE \<le> b)"
proof (cases "payout_amount (am_amount m)")
  case None
  then show ?thesis by (simp add: amount_requestCode_def amount_fields_def)
next
  case (Some a)
  then have a: "am_amount m \<noteq> []" "toNairaAmount (am_amount m) = Some a" by (simp_all add: payout_amount_def split: if_splits)
  then have "payout_amount_error formatNaira (koboToNairaString b) (am_amount m) = None"
    using assms(5,6) by (auto simp: amount_continue_def split: option.splits)
  then show ?thesis
    using typed_is_covered[OF assms(1-4) _ a(2)] Some by (auto simp: amount_requestCode_def amount_fields_def)
qed

text \<open>An amount that is positive and covered is let through.\<close>

lemma double_of_pos: "0 < x \<Longrightarrow> 0 < double_of x"
  using double_of_within(1)[of x] two_to_pos[of "binary_exponent x"] by linarith

lemma covered_is_let_through:
  assumes "js_number t = Some (double_of x)" and "0 < x" and "x * 100 \<le> of_int (b - OUTBOUND_FEE)"
  shows "payout_amount_error formatNaira (koboToNairaString b) t = None" and "\<not> belowFeeThreshold (koboToNairaString b)"
proof -
  have "(0 :: rat) < of_int (b - OUTBOUND_FEE)" using assms(2,3) by linarith
  then have b: "OUTBOUND_FEE < b" by (simp only: of_int_0_less_iff)
  have fee: "0 < OUTBOUND_FEE" by (simp add: OUTBOUND_FEE_def NOMBA_OUTBOUND_FEE_def PLATFORM_OUTBOUND_FEE_def)
  have "maxSendable (koboToNairaString b) = Some (double_of (of_int (b - OUTBOUND_FEE) / 100))"
    using sendable[of b] rendered_kobo[of "b - OUTBOUND_FEE"] b fee by simp
  moreover have "double_of x \<le> double_of (of_int (b - OUTBOUND_FEE) / 100)" "0 < double_of x"
    using assms(2,3) double_of_pos by (auto intro!: double_of_mono)
  ultimately show "payout_amount_error formatNaira (koboToNairaString b) t = None" "\<not> belowFeeThreshold (koboToNairaString b)"
    using assms(1) by (auto simp: payout_amount_error_def above_def belowFeeThreshold_def)
qed

lemma dialog_150: "typed ''150.50''" "js_number ''150.50'' = Some (double_of (15050 / 100))" "OUTBOUND_FEE = 5000"
  "payout_amount ''150.50'' \<noteq> None"
proof -
  show "typed ''150.50''" "OUTBOUND_FEE = 5000" "payout_amount ''150.50'' \<noteq> None" by code_simp+
  have digits: "takeWhile is_digit ''150.50'' = ''150''" "dropWhile is_digit ''150.50'' = ''.50''" "BigInt ''15050'' = 15050"
    by code_simp+
  show "js_number ''150.50'' = Some (double_of (15050 / 100))" unfolding js_number_def digits Let_def using digits(3) by (simp add: is_digit_def)
qed

theorem payout_dialog_amount_is_covered_witness:
  "\<exists>a k. amount_requestCode (closed_amount_modal\<lparr>am_amount := ''150.50''\<rparr>) = [(''amount'', a)] \<and> nairaStringToKobo a = Inr k \<and>
     k + OUTBOUND_FEE \<le> 20050"
proof -
  let ?m = "closed_amount_modal\<lparr>am_amount := ''150.50''\<rparr>"
  have "payout_amount_error id (koboToNairaString 20050) ''150.50'' = None" "\<not> belowFeeThreshold (koboToNairaString 20050)"
    using covered_is_let_through[OF dialog_150(2), of 20050] dialog_150(3) by simp_all
  moreover have "amount_requestCode ?m \<noteq> []" using dialog_150(4) by (auto simp: amount_requestCode_def amount_fields_def)
  ultimately show ?thesis
    using payout_dialog_amount_is_covered[of 20050 ?m id] dialog_150(1) by (auto simp: amount_continue_def closed_amount_modal_def)
qed

text \<open>The code is asked for and used with the same request, so it fits.\<close>

lemma code_fits_payout:
  "otp_context (amount_verify m otpCode) = amount_requestCode m"
  "otp_context (destination_verify d otpCode) = destination_requestCode d"
  by (auto simp: otp_context_def amount_verify_def amount_requestCode_def destination_verify_def destination_requestCode_def
      amount_fields_def split: option.split)

section \<open>A dot that was left standing\<close>

lemma dangling_dot:
  assumes "list_all is_digit w" and "w \<noteq> []"
  shows "js_number (w @ ''.'') = Some (double_of (of_int (BigInt w)))" and "toNairaAmount (w @ ''.'') = None"
proof -
  note tw = take_digits[OF assms(1), of "[]"]
  show "js_number (w @ ''.'') = Some (double_of (of_int (BigInt w)))" using tw assms(2) by (simp add: js_number_def)
  have "text_trim (w @ ''.'') = w @ ''.''" using assms(1) by (intro text_trim_id) (auto simp: list_all_iff)
  then show "toNairaAmount (w @ ''.'') = None" using tw by (simp add: toNairaAmount_def amount_pattern_def)
qed

text \<open>A payout with no amount, to the account on file: the balance but the fee.\<close>

lemma full_payout:
  assumes "find_pot potId s = Some p" and "pot_status p = pot_open" and "pot_payoutMode p = manual" and "pot_pendingOperation p = None"
    and "getMemberRole potId userId s = Some role_admin" and "manual_config_of potId s = Some c"
    and "mc_destinationAccount c = Some account" and "mc_destinationBank c = Some bank" and "account \<noteq> []" and "bank \<noteq> []"
    and "OUTBOUND_FEE < pot_funds potId s" and "wf_ledger (led s)" and "wf_pots s"
    and "e_gap world = id" and "e_enqueue world = (\<lambda>_. None)" and "fresh_draws world 1 s"
  shows "\<exists>t. triggerPayout world potId userId dest None s = (Inr (), t) \<and>
    transfersQueue t = transfersQueue s @ [fixed_job world potId op_payout (pot_funds potId s - OUTBOUND_FEE)
      \<lparr>de_account = account, de_bank = bank\<rparr> None None (randomDraws s)]"
proof -
  have id: "pot_id p = potId" using assms(1) by (auto simp: find_pot_def dest: find_Some_iff[THEN iffD1])
  have "0 < pot_funds potId s" using assms(11) by (simp add: OUTBOUND_FEE_def NOMBA_OUTBOUND_FEE_def PLATFORM_OUTBOUND_FEE_def)
  then obtain a where "pot_account potId s = Some a" using pot_funds_pos_account by blast
  note balance = pot_balance_existing[OF this]
  let ?d = "\<lparr>de_account = account, de_bank = bank\<rparr>" and ?amount = "pot_funds potId s - OUTBOUND_FEE"
  have "triggerPayout world potId userId dest None s = postFixedAmountDisbursement world p op_payout ?amount ?d None None s"
    using assms(1-11) balance
    by (simp add: triggerPayout_def assertIsAdmin_def getPotOrThrow_def bnd_def gets_def require_def ret_def throw_def
        resolve_destination_def truthy_def postDisbursement_def id)
  moreover obtain as where run: "let s1 = s\<lparr>led := (led s)\<lparr>accounts := accounts (led s) @ as\<rparr>\<rparr>;
      s2 = s1\<lparr>randomDraws := Suc (randomDraws s)\<rparr>;
      s3 = s2\<lparr>pots := update_where (\<lambda>q. pot_id q = pot_id p) (claim_lock op_payout 1) (pots s)\<rparr> in
    postFixedAmountDisbursement world p op_payout ?amount ?d None None s =
      (if pot_funds (pot_id p) s < ?amount + OUTBOUND_FEE then (Inl (fee_error ?amount (pot_funds (pot_id p) s)), s1)
       else if pot_pendingOperation p \<noteq> None then (Inl in_flight_error, s2)
       else add_job world (fixed_job world (pot_id p) op_payout ?amount ?d None None (randomDraws s)) s3)"
    using postFixedAmountDisbursement_run[OF assms(12,13) assms(1)[folded id] assms(14), of op_payout ?amount ?d None None] by blast
  moreover have "job_reference (fixed_job world potId op_payout ?amount ?d None None (randomDraws s)) \<notin> job_reference ` set (transfersQueue s)"
    unfolding fixed_job_reference by (rule fresh_draws_notin) (use assms(16) in simp)
  ultimately show ?thesis using assms(4,15) by (simp add: Let_def id add_job_def modify_def)
qed

text \<open>C31. An amount that ends in its dot pays out everything. In the dialog of a pot with an account on file, a whole number
  of naira within the balance, typed with its dot: the dialog goes on to the code and shows no error, but it asks
  for the code and for the payout without an amount; once the code is entered, the backend queues the whole balance
  but the fee.\<close>

theorem dangling_dot_pays_everything:
  assumes "list_all is_digit w" and "0 < BigInt w" and "BigInt w * 100 + OUTBOUND_FEE \<le> pot_funds potId s"
    and "find_pot potId s = Some p" and "pot_status p = pot_open" and "pot_payoutMode p = manual" and "pot_pendingOperation p = None"
    and "getMemberRole potId userId s = Some role_admin" and "manual_config_of potId s = Some c"
    and "mc_destinationAccount c = Some account" and "mc_destinationBank c = Some bank" and "account \<noteq> []" and "bank \<noteq> []"
    and "wf_ledger (led s)" and "wf_pots s" and "e_gap world = id" and "e_enqueue world = (\<lambda>_. None)" and "fresh_draws world 1 s"
    and "verify world sha collate userId trigger_payout potId (flat (amount_requestCode m)) code (Some key) s0 = (Inr (), s)"
    and "m = closed_amount_modal\<lparr>am_amount := w @ ''.''\<rparr>"
  shows "amount_continue formatNaira (koboToNairaString (pot_funds potId s)) m = m\<lparr>am_step := confirming\<rparr> \<and>
    (\<exists>t. confirmed_payout world sha collate userId potId key (amount_verify m code) s0 = (Inr (202, []), t) \<and>
       transfersQueue t = transfersQueue s @ [fixed_job world potId op_payout (pot_funds potId s - OUTBOUND_FEE)
         \<lparr>de_account = account, de_bank = bank\<rparr> None None (randomDraws s)])"
proof
  have w: "w \<noteq> []" using assms(2) by (auto simp: BigInt_def)
  note dot = dangling_dot[OF assms(1) w]
  have "of_int (BigInt w * 100) \<le> (of_int (pot_funds potId s - OUTBOUND_FEE) :: rat)" unfolding of_int_le_iff using assms(3) by linarith
  then have x: "(0 :: rat) < of_int (BigInt w)" "of_int (BigInt w) * (100 :: rat) \<le> of_int (pot_funds potId s - OUTBOUND_FEE)"
    using assms(2) by (simp_all only: of_int_0_less_iff of_int_mult of_int_numeral)
  show "amount_continue formatNaira (koboToNairaString (pot_funds potId s)) m = m\<lparr>am_step := confirming\<rparr>"
    using covered_is_let_through(1)[OF dot(1) x] by (simp add: assms(20) amount_continue_def closed_amount_modal_def)
  have fee: "OUTBOUND_FEE < pot_funds potId s" using assms(2,3) by linarith
  have none: "amount_fields (am_amount m) = []" using dot(2) by (simp add: assms(20) amount_fields_def payout_amount_def)
  obtain t where "triggerPayout world potId userId None None s = (Inr (), t)"
    "transfersQueue t = transfersQueue s @ [fixed_job world potId op_payout (pot_funds potId s - OUTBOUND_FEE)
         \<lparr>de_account = account, de_bank = bank\<rparr> None None (randomDraws s)]"
    using full_payout[OF assms(4-13) fee assms(14-18), of None] by blast
  moreover have "body_destination (amount_verify m code) = None" "body_field ''amount'' (amount_verify m code) = None"
    "body_field ''otpCode'' (amount_verify m code) = Some code"
    using none by (simp_all add: body_destination_def body_field_def amount_verify_def truthy_def)
  ultimately show "\<exists>t. confirmed_payout world sha collate userId potId key (amount_verify m code) s0 = (Inr (202, []), t) \<and>
       transfersQueue t = transfersQueue s @ [fixed_job world potId op_payout (pot_funds potId s - OUTBOUND_FEE)
         \<lparr>de_account = account, de_bank = bank\<rparr> None None (randomDraws s)]"
    using assms(19) code_fits_payout(1)[of m code] by (simp add: confirmed_payout_def bnd_def optional_kobo_def ret_def)
qed

definition dangling_modal :: amount_modal where
  "dangling_modal = closed_amount_modal\<lparr>am_amount := ''1.''\<rparr>"

definition dialog_db :: db where
  "dialog_db = example_db\<lparr>potMembers := [\<lparr>mb_id = 1, mb_potId = 7, mb_userId = 1, mb_role = role_admin, mb_addedByUserId = None\<rparr>],
     manualPayoutConfigs := [\<lparr>mc_id = 1, mc_potId = 7, mc_destinationAccount = Some ''0123456789'', mc_destinationBank = Some ''058'',
       mc_destinationAccountName = Some ''Ada''\<rparr>],
     actionOtpCodes := [\<lparr>ao_id = 1, ao_userId = 1, ao_action = trigger_payout, ao_potId = 7,
       ao_contextHash = hashActionContext id id (flat (amount_requestCode dangling_modal)), ao_codeHash = ''000000'',
       ao_attemptCount = 0, ao_maxAttempts = 5, ao_expiresAt = 600000, ao_consumedAt = None, ao_consumedByIdempotencyKey = None,
       ao_createdAt = 0\<rparr>]\<rparr>"

theorem dangling_dot_pays_everything_witness:
  "\<exists>t. confirmed_payout example_env id id 1 7 ''k'' (amount_verify dangling_modal ''000000'') dialog_db = (Inr (202, []), t) \<and>
     transfersQueue t = [fixed_job example_env 7 op_payout 15000 \<lparr>de_account = ''0123456789'', de_bank = ''058''\<rparr> None None 0]"
proof -
  have one: "active_code 1 trigger_payout 7 dialog_db = Some (hd (actionOtpCodes dialog_db))"
    by (simp add: dialog_db_def active_code_def codes_for_def newest_by_def)
  define s where "s = snd (verify example_env id id 1 trigger_payout 7 (flat (amount_requestCode dangling_modal)) ''000000'' (Some ''k'') dialog_db)"
  have run: "verify example_env id id 1 trigger_payout 7 (flat (amount_requestCode dangling_modal)) ''000000'' (Some ''k'') dialog_db = (Inr (), s)"
    and s: "\<exists>codes. s = dialog_db\<lparr>actionOtpCodes := codes\<rparr>"
    using verify_active[OF one, of example_env id id "flat (amount_requestCode dangling_modal)" "''000000''" "Some ''k''"]
    by (simp_all add: s_def dialog_db_def confirms_def verifyOtpCode_iff example_env_def)
      (rule exI, rule refl)
  have funds: "pot_funds 7 example_db = 20000" "transfersQueue example_db = []" "randomDraws example_db = 0" by code_simp+
  have same: "led s = led example_db" "pots s = pots example_db" "transfersQueue s = []" "randomDraws s = 0"
    "potMembers s = potMembers dialog_db" "manualPayoutConfigs s = manualPayoutConfigs dialog_db"
    using s funds by (auto simp: dialog_db_def)
  have "pot_funds 7 s = pot_funds 7 example_db" by (simp add: pot_funds_def pot_account_def same(1) cong: option.case_cong)
  then have balance: "pot_funds 7 s = 20000" using funds by simp
  have pot: "find_pot 7 s = Some example_pot" "wf_pots s" "wf_ledger (led s)" "fresh_draws example_env 1 s"
    using example_db_ok(1-3) example_db_ok(6)[of 1] funds
    by (simp_all add: find_pot_def wf_pots_def same fresh_draws_def) (simp add: example_pot_def)
  have rows: "getMemberRole 7 1 s = Some role_admin" "manual_config_of 7 s = Some (hd (manualPayoutConfigs dialog_db))"
    by (simp_all add: getMemberRole_def find_member_def manual_config_of_def same dialog_db_def)
  have open_pot: "pot_status example_pot = pot_open" "pot_payoutMode example_pot = manual" "pot_pendingOperation example_pot = None"
    by (simp_all add: example_pot_def)
  have config: "mc_destinationAccount (hd (manualPayoutConfigs dialog_db)) = Some ''0123456789''"
    "mc_destinationBank (hd (manualPayoutConfigs dialog_db)) = Some ''058''" by (simp_all add: dialog_db_def)
  have one_naira: "list_all is_digit ''1''" "0 < BigInt ''1''" "BigInt ''1'' * 100 + OUTBOUND_FEE \<le> pot_funds 7 s" "OUTBOUND_FEE = 5000"
    unfolding balance by code_simp+
  have typed: "dangling_modal = closed_amount_modal\<lparr>am_amount := ''1'' @ ''.''\<rparr>" by (simp add: dangling_modal_def)
  show ?thesis
    using dangling_dot_pays_everything[OF one_naira(1-3) pot(1) open_pot rows config _ _ pot(3,2) example_db_ok(4,5) pot(4) run typed]
    by (simp add: balance same one_naira(4))
qed

section \<open>The contribution dialog\<close>

text \<open>What the dialog sends is within the pot's limits: always below the maximum, and from the minimum on when at most two
  digits follow the dot (digits beyond are cut off, after \<open>Number\<close> may have rounded them up to the minimum).\<close>

lemma contribution_within_shown_limits:
  assumes "typed t" and "contribution_amount formatNaira v t = Inr (Some a)"
    and "pv_minContribution v = koboToNairaString lo" and "0 \<le> lo" and "lo < 2 ^ 52 - 1"
    and "pv_maxContribution v = map_option koboToNairaString hi" and "\<forall>m \<in> set_option hi. 0 \<le> m \<and> m < 2 ^ 52 - 1"
  shows "nairaStringToKobo a = Inr (sent_kobo t) \<and> (\<forall>m \<in> set_option hi. sent_kobo t \<le> m) \<and>
    (fraction_digits t \<le> 2 \<longrightarrow> lo \<le> sent_kobo t)"
proof (intro conjI ballI impI)
  let ?most = "if truthy (pv_maxContribution v) then rendered_number (the (pv_maxContribution v)) else None"
  obtain n where n: "js_number t = Some n" "toNairaAmount t = Some a" "\<not> n < double_of (of_int lo / 100)" "\<not> above n ?most"
    using assms(2,3) rendered_kobo[OF assms(4)] unfolding contribution_amount_def Let_def
    by (auto split: if_splits option.splits)
  note reads = js_number_value[OF n(1)] and kobo = typed_value[OF assms(1) n(2)]
  show "nairaStringToKobo a = Inr (sent_kobo t)" by (rule kobo(1))
  show "sent_kobo t \<le> m" if "m \<in> set_option hi" for m
  proof -
    have m: "hi = Some m" "0 \<le> m" "m < 2 ^ 52 - 1" using that assms(7) by auto
    have "koboToNairaString m \<noteq> []" using koboToNairaString_nonneg[OF m(2)] by simp
    then have "double_of (number_value t) \<le> double_of (of_int m / 100)"
      using n(4) reads assms(6) m(1) rendered_kobo[OF m(2)] by (auto simp: truthy_def above_def)
    then have "number_value t * 100 < of_int (m + 1)" using reads by (intro kobo_double_le[OF m(2,3)]) simp_all
    then have "(of_int (sent_kobo t) :: rat) < of_int (m + 1)" using kobo(3) by linarith
    then show ?thesis by (simp only: of_int_less_iff)
  qed
  show "lo \<le> sent_kobo t" if "fraction_digits t \<le> 2"
  proof (rule ccontr)
    assume less: "\<not> lo \<le> sent_kobo t"
    have "number_value t = of_int (sent_kobo t) / 100" using kobo(4)[OF that] by simp
    then have "double_of (number_value t) = double_of (of_int (sent_kobo t) / 100)" by (simp only:)
    then have "double_of (of_int lo / 100) \<le> double_of (of_int (sent_kobo t) / 100)" using n(3) reads by linarith
    then have "of_int lo / 100 * 100 < (of_int (sent_kobo t + 1) :: rat)"
      using less assms(4,5) kobo(2) by (intro kobo_double_le) simp_all
    then have "(of_int lo :: rat) < of_int (sent_kobo t + 1)" by simp
    then show False using less by (simp only: of_int_less_iff)
  qed
qed

text \<open>At most three attempts, and a second or third only after a 502.\<close>

lemma three_attempts:
  "contribute_attempts 1 send s =
    (case send s of (r1, s1) \<Rightarrow> if \<not> isRetryable r1 then (r1, s1)
       else case send s1 of (r2, s2) \<Rightarrow> if \<not> isRetryable r2 then (r2, s2) else send s2)"
proof -
  have "contribute_attempts 3 send u = send u" for u
    by (subst contribute_attempts.simps) (simp add: VIRTUAL_ACCOUNT_MAX_ATTEMPTS_def split: prod.split)
  moreover have "contribute_attempts 2 send u = (case send u of (r2, s2) \<Rightarrow> if \<not> isRetryable r2 then (r2, s2) else contribute_attempts 3 send s2)" for u
    by (subst contribute_attempts.simps) (simp add: VIRTUAL_ACCOUNT_MAX_ATTEMPTS_def numeral_3_eq_3 numeral_2_eq_2 split: prod.split)
  moreover have "contribute_attempts 1 send u = (case send u of (r1, s1) \<Rightarrow> if \<not> isRetryable r1 then (r1, s1) else contribute_attempts 2 send s1)" for u
    by (subst contribute_attempts.simps) (simp add: VIRTUAL_ACCOUNT_MAX_ATTEMPTS_def numeral_2_eq_2 split: prod.split)
  ultimately show ?thesis by (simp cong: if_cong)
qed

text \<open>The wait for a payment ends with anybody's: the first completed contribution in the pot's feed from then on.\<close>

lemma any_contribution_ends_wait:
  assumes "t \<in> set feed" and "tx_type t = ty_contribution" and "tx_status t = tx_completed" and "issued \<le> tx_createdAt t"
  shows "\<exists>u. pl_result (poll_run [funded_since issued feed] (poll_start p)) = Some u"
proof -
  have "find (\<lambda>t. tx_type t = ty_contribution \<and> tx_status t = tx_completed \<and> issued \<le> tx_createdAt t) feed \<noteq> None"
    using assms by (auto simp: find_None_iff)
  then obtain u where "funded_since issued feed = found u" by (auto simp: funded_since_def)
  then have "pl_result (poll_run [funded_since issued feed] (poll_start p)) = Some u"
    unfolding poll_finds by (intro exI[of _ "[]"]) simp
  then show ?thesis by blast
qed

end
