(* ===== verification/Web_Forms.thy ===== *)
theory Web_Forms
  imports Web_Client Web_Pages
begin

text \<open>
  Signing in and up: the forms of \<open>components/auth\<close> (\<open>LoginForm.tsx\<close>, \<open>SignupForm.tsx\<close>, \<open>ForgotPasswordForm.tsx\<close>,
  \<open>ResetPasswordForm.tsx\<close>, \<open>OtpVerifyForm.tsx\<close>) with the code field \<open>OtpInput.tsx\<close> and the timer \<open>useResendTimer.ts\<close>, what the
  browser keeps for them (\<open>pendingVerifyEmail.ts\<close>, \<open>draftPot.ts\<close>), and where they send it. A submit is an operation on the
  state behind \<open>lib/api.ts\<close> (\<open>call\<close> stands for \<open>apiFetch\<close>) that also changes the form and the visit: storage and the
  page asked for. \<open>URLSearchParams\<close> and \<open>encodeURIComponent\<close> are the parameter \<open>encode\<close>.
\<close>

section \<open>Patterns\<close>

text \<open>\<open>/^[^\s@]+@[^\s@]+\.[^\s@]+$/\<close>\<close>

definition EMAIL_PATTERN :: "string \<Rightarrow> bool" where
  "EMAIL_PATTERN t \<longleftrightarrow>
     (let name = takeWhile (\<lambda>c. c \<noteq> CHR ''@'') t; host = drop (length name + 1) t in
      CHR ''@'' \<in> set t \<and> name \<noteq> [] \<and> list_all (\<lambda>c. \<not> is_space c \<and> c \<noteq> CHR ''@'') (name @ host) \<and>
      CHR ''.'' \<in> set (tl (butlast host)))"

text \<open>\<open>/^(0\d{10}|\+234\d{10})$/\<close>\<close>

definition PHONE_PATTERN :: "string \<Rightarrow> bool" where
  "PHONE_PATTERN t \<longleftrightarrow>
     (length t = 11 \<and> take 1 t = ''0'' \<and> list_all is_digit (drop 1 t)) \<or>
     (length t = 14 \<and> take 4 t = ''+234'' \<and> list_all is_digit (drop 4 t))"

definition MIN_PASSWORD_LENGTH :: nat where "MIN_PASSWORD_LENGTH = 8"

section \<open>The code\<close>

definition digits_of :: "string \<Rightarrow> string list" where
  "digits_of v = map (\<lambda>i. if i < length v then [v ! i] else []) [0..<6]"

definition setDigit :: "nat \<Rightarrow> string \<Rightarrow> string \<Rightarrow> string" where
  "setDigit index digit v = concat ((digits_of v)[index := digit])"

definition last_digit :: "string \<Rightarrow> string" where
  "last_digit raw = (let ds = filter is_digit raw in drop (length ds - 1) ds)"

definition otp_handleChange :: "nat \<Rightarrow> string \<Rightarrow> string \<Rightarrow> string" where
  "otp_handleChange index raw v = setDigit index (last_digit raw) v"

text \<open>Backspace in an empty box; in a full one the browser empties it, which is a change.\<close>

definition otp_handleBackspace :: "nat \<Rightarrow> string \<Rightarrow> string" where
  "otp_handleBackspace index v = (if digits_of v ! index = [] \<and> 0 < index then setDigit (index - 1) [] v else v)"

definition otp_handlePaste :: "string \<Rightarrow> string \<Rightarrow> string" where
  "otp_handlePaste text v = (let pasted = take 6 (filter is_digit text) in if pasted = [] then v else pasted)"

inductive otp_value :: "string \<Rightarrow> bool" where
  otp_empty: "otp_value []"
| otp_change: "otp_value v \<Longrightarrow> i < 6 \<Longrightarrow> otp_value (otp_handleChange i raw v)"
| otp_backspace: "otp_value v \<Longrightarrow> i < 6 \<Longrightarrow> otp_value (otp_handleBackspace i v)"
| otp_paste: "otp_value v \<Longrightarrow> otp_value (otp_handlePaste text v)"

text \<open>The timer of "Resend code".\<close>

definition RESEND_SECONDS :: int where "RESEND_SECONDS = 30"

definition timer_second :: "int \<Rightarrow> int" where
  "timer_second secondsLeft = (if secondsLeft \<le> 0 then secondsLeft else max (secondsLeft - 1) 0)"

definition timer_label :: "int \<Rightarrow> string" where
  "timer_label secondsLeft = show_int (secondsLeft div 60) @ '':'' @ padStart 2 (CHR ''0'') (show_int (secondsLeft mod 60))"

section \<open>The visit\<close>

record visit =
  vi_pendingEmail :: "string option"
  vi_draft :: "wizard_state option"
  vi_page :: string

definition push :: "string \<Rightarrow> visit \<Rightarrow> visit" where
  "push page v = v\<lparr>vi_page := page\<rparr>"

definition setPendingVerifyEmail :: "string \<Rightarrow> visit \<Rightarrow> visit" where
  "setPendingVerifyEmail email v = v\<lparr>vi_pendingEmail := Some email\<rparr>"

definition clearPendingVerifyEmail :: "visit \<Rightarrow> visit" where
  "clearPendingVerifyEmail v = v\<lparr>vi_pendingEmail := None\<rparr>"

definition saveDraftPot :: "wizard_state \<Rightarrow> visit \<Rightarrow> visit" where
  "saveDraftPot f v = v\<lparr>vi_draft := Some f\<rparr>"

definition clearDraftPot :: "visit \<Rightarrow> visit" where
  "clearDraftPot v = v\<lparr>vi_draft := None\<rparr>"

section \<open>Logging in\<close>

record login_form =
  lf_email :: string
  lf_password :: string
  lf_emailError :: "string option"
  lf_passwordError :: "string option"

definition email_error :: "string \<Rightarrow> string option" where
  "email_error email =
     (if text_trim email = [] then Some ''Enter your email address.''
      else if \<not> EMAIL_PATTERN (text_trim email) then Some ''Enter a valid email address.'' else None)"

definition checked_login :: "login_form \<Rightarrow> login_form" where
  "checked_login f = f\<lparr>lf_emailError := email_error (lf_email f),
     lf_passwordError := (if text_trim (lf_password f) = [] then Some ''Enter your password.'' else None)\<rparr>"

definition login_body :: "login_form \<Rightarrow> json" where
  "login_body f = JObj [(''email'', JStr (text_trim (lf_email f))), (''password'', JStr (lf_password f))]"

definition resend_body :: "string \<Rightarrow> string \<Rightarrow> json" where
  "resend_body email purpose = JObj [(''email'', JStr email), (''purpose'', JStr purpose)]"

text \<open>The outcome of a call as the forms read it: an \<open>ApiError\<close>'s message, or their own.\<close>

definition shown_error :: "string \<Rightarrow> error + api_outcome \<Rightarrow> string" where
  "shown_error own r = (case r of Inr (api_error m _) \<Rightarrow> m | _ \<Rightarrow> own)"

definition login_page_after :: "(string \<Rightarrow> string) \<Rightarrow> string option \<Rightarrow> string" where
  "login_page_after encode redirectTo =
     (if truthy redirectTo then ''/login/verify?redirect='' @ encode (the redirectTo) else ''/login/verify'')"

definition login_submit ::
  "(string \<Rightarrow> string) \<Rightarrow> (api_call \<Rightarrow> ('s, api_outcome) op) \<Rightarrow> string option \<Rightarrow> login_form \<times> 's \<times> visit \<Rightarrow> login_form \<times> 's \<times> visit" where
  "login_submit encode call redirectTo = (\<lambda>(f, s, v).
     let g = checked_login f; email = text_trim (lf_email f) in
     if lf_emailError g \<noteq> None \<or> lf_passwordError g \<noteq> None then (g, s, v)
     else case call (api_login (login_body f)) s of
       (Inr (loaded _), t) \<Rightarrow> (g, t, push (login_page_after encode redirectTo) (setPendingVerifyEmail email v))
     | (Inr (api_error m status), t) \<Rightarrow>
         if status = 403
         then (g, snd (call (api_resendOtp (resend_body email ''signup_verification'')) t),
               push ''/signup/verify'' (setPendingVerifyEmail email v))
         else (g\<lparr>lf_passwordError := Some m\<rparr>, t, v)
     | (Inl _, t) \<Rightarrow> (g\<lparr>lf_passwordError := Some ''Couldn't log you in''\<rparr>, t, v))"

section \<open>Signing up\<close>

record signup_form =
  sf_fullName :: string
  sf_username :: string
  sf_email :: string
  sf_password :: string
  sf_phone :: string

text \<open>The errors under full name, username, email, password and phone.\<close>

definition password_error :: "string \<Rightarrow> string \<Rightarrow> string option" where
  "password_error missing password =
     (if text_trim password = [] then Some missing
      else if length password < MIN_PASSWORD_LENGTH then Some (''Use at least '' @ show_int (int MIN_PASSWORD_LENGTH) @ '' characters.'')
      else None)"

definition signup_errors :: "signup_form \<Rightarrow> string option list" where
  "signup_errors f =
     [if text_trim (sf_fullName f) = [] then Some ''Enter your full name.'' else None,
      if text_trim (sf_username f) = [] then Some ''Choose a username.''
      else if list_ex is_space (text_trim (sf_username f)) then Some ''Usernames can't contain spaces.'' else None,
      email_error (sf_email f),
      password_error ''Create a password.'' (sf_password f),
      if text_trim (sf_phone f) \<noteq> [] \<and> \<not> PHONE_PATTERN (text_trim (sf_phone f))
      then Some ''Enter a valid Nigerian number, e.g. 08012345678.'' else None]"

definition signup_body :: "signup_form \<Rightarrow> json" where
  "signup_body f = JObj
     ([(''fullName'', JStr (text_trim (sf_fullName f))), (''username'', JStr (text_trim (sf_username f))),
       (''email'', JStr (text_trim (sf_email f))), (''password'', JStr (sf_password f))]
      @ (if text_trim (sf_phone f) \<noteq> [] then [(''phone'', JStr (text_trim (sf_phone f)))] else []))"

text \<open>The errors shown after a submit, with the state and the visit.\<close>

definition signup_submit ::
  "(api_call \<Rightarrow> ('s, api_outcome) op) \<Rightarrow> signup_form \<Rightarrow> 's \<times> visit \<Rightarrow> string option list \<times> 's \<times> visit" where
  "signup_submit call f = (\<lambda>(s, v).
     if \<not> list_all ((=) None) (signup_errors f) then (signup_errors f, s, v)
     else case call (api_register (signup_body f)) s of
       (Inr (loaded _), t) \<Rightarrow> (replicate 5 None, t, push ''/signup/verify'' (setPendingVerifyEmail (text_trim (sf_email f)) v))
     | (r, t) \<Rightarrow> ((replicate 5 None)[2 := Some (shown_error ''Couldn't create your account'' r)], t, v))"

section \<open>A forgotten password\<close>

definition forgot_submit ::
  "(string \<Rightarrow> string) \<Rightarrow> (api_call \<Rightarrow> ('s, api_outcome) op) \<Rightarrow> string \<Rightarrow> 's \<times> visit \<Rightarrow> string option \<times> 's \<times> visit" where
  "forgot_submit encode call email = (\<lambda>(s, v).
     case email_error email of
       Some e \<Rightarrow> (Some e, s, v)
     | None \<Rightarrow>
         (case call (api_forgotPassword (JObj [(''email'', JStr (text_trim email))])) s of
            (Inr (loaded _), t) \<Rightarrow> (None, t, push (''/reset-password?email='' @ encode (text_trim email)) v)
          | (r, t) \<Rightarrow> (Some (shown_error ''Couldn't send a reset code'' r), t, v)))"

definition reset_errors :: "string \<Rightarrow> string \<Rightarrow> string \<Rightarrow> string option list" where
  "reset_errors code password confirmPassword =
     [if length code \<noteq> 6 then Some ''Enter all 6 digits.'' else None,
      password_error ''Create a new password.'' password,
      if confirmPassword \<noteq> password then Some ''Passwords don't match.'' else None]"

definition reset_body :: "string \<Rightarrow> string \<Rightarrow> string \<Rightarrow> json" where
  "reset_body email code password = JObj [(''email'', JStr email), (''code'', JStr code), (''newPassword'', JStr password)]"

definition reset_submit ::
  "(api_call \<Rightarrow> ('s, api_outcome) op) \<Rightarrow> string \<Rightarrow> string \<times> string \<times> string \<Rightarrow> 's \<times> visit \<Rightarrow> string option list \<times> 's \<times> visit" where
  "reset_submit call email = (\<lambda>(code, password, confirmPassword) (s, v).
     if \<not> list_all ((=) None) (reset_errors code password confirmPassword) then (reset_errors code password confirmPassword, s, v)
     else case call (api_resetPassword (reset_body email code password)) s of
       (Inr (loaded _), t) \<Rightarrow> (replicate 3 None, t, push ''/login'' v)
     | (r, t) \<Rightarrow> ((replicate 3 None)[0 := Some (shown_error ''Couldn't reset your password'' r)], t, v))"

section \<open>Verifying\<close>

datatype verify_mode = mode_login | mode_signup

definition isSafeRedirect :: "verify_mode \<Rightarrow> string option \<Rightarrow> bool" where
  "isSafeRedirect mode redirectTo \<longleftrightarrow> mode = mode_login \<and>
     (case redirectTo of None \<Rightarrow> False
      | Some r \<Rightarrow> starts_with ''/'' r \<and> \<not> starts_with ''//'' r \<and> \<not> starts_with ''/login'' r)"

definition page_after :: "verify_mode \<Rightarrow> string option \<Rightarrow> string" where
  "page_after mode redirectTo = (if isSafeRedirect mode redirectTo then the redirectTo else ''/home'')"

definition verify_call :: "verify_mode \<Rightarrow> string \<Rightarrow> string \<Rightarrow> api_call" where
  "verify_call mode email code =
     (let input = JObj [(''email'', JStr email), (''code'', JStr code)] in
      case mode of mode_login \<Rightarrow> api_verifyLoginOtp input | mode_signup \<Rightarrow> api_verifyEmail input)"

text \<open>The call that creates the pot of a draft (\<open>encodePot\<close> is the JSON of the input); \<open>None\<close> where there is nothing to
  create, an error where a date of the draft cannot be read.\<close>

definition draft_call :: "(CreatePotInput \<Rightarrow> json) \<Rightarrow> time \<Rightarrow> wizard_state option \<Rightarrow> (error + api_call) option" where
  "draft_call encodePot now saved =
     (case saved of None \<Rightarrow> None
      | Some f \<Rightarrow> if text_trim (ws_title f) = [] then None
          else map_option (map_sum id (\<lambda>input. api_createPot (encodePot input))) (create_input now f))"

definition pot_id_text :: "json \<Rightarrow> string" where
  "pot_id_text j = (case json_field ''id'' j of Some i \<Rightarrow> json_text i | None \<Rightarrow> ''undefined'')"

text \<open>\<open>refresh\<close> never fails, it only loads the user; the page's answer is the error under the code, and the toast.\<close>

definition verify_submit ::
  "(CreatePotInput \<Rightarrow> json) \<Rightarrow> time \<Rightarrow> (api_call \<Rightarrow> ('s, api_outcome) op) \<Rightarrow> verify_mode \<Rightarrow> string option \<Rightarrow> string \<Rightarrow> 's \<times> visit \<Rightarrow>
     string option \<times> 's \<times> visit" where
  "verify_submit encodePot now call mode redirectTo code = (\<lambda>(s, v).
     if \<not> truthy (vi_pendingEmail v) then (None, s, v)
     else let email = the (vi_pendingEmail v) in
         if length code \<noteq> 6 then (Some ''Enter all 6 digits.'', s, v)
         else case call (verify_call mode email code) s of
           (Inr (loaded _), t) \<Rightarrow>
             let t1 = snd (call api_getMe t); v1 = clearPendingVerifyEmail v in
             (case draft_call encodePot now (vi_draft v1) of
                None \<Rightarrow> (None, t1, push (page_after mode redirectTo) v1)
              | Some (Inl _) \<Rightarrow> (None, t1, push (page_after mode redirectTo) (clearDraftPot v1))
              | Some (Inr creation) \<Rightarrow>
                  (case call creation t1 of
                     (Inr (loaded pot), t2) \<Rightarrow> (None, t2, push (''/pots/'' @ pot_id_text pot @ ''/edit'') (clearDraftPot v1))
                   | (_, t2) \<Rightarrow> (None, t2, push (page_after mode redirectTo) (clearDraftPot v1))))
         | (r, t) \<Rightarrow> (Some (shown_error ''Couldn't verify that code'' r), t, v))"

text \<open>Without an email to verify the page goes back to the start of its flow.\<close>

definition verify_appears :: "verify_mode \<Rightarrow> visit \<Rightarrow> visit" where
  "verify_appears mode v =
     (if truthy (vi_pendingEmail v) then v else push (case mode of mode_login \<Rightarrow> ''/login'' | mode_signup \<Rightarrow> ''/signup'') v)"

definition verify_resend :: "(api_call \<Rightarrow> ('s, api_outcome) op) \<Rightarrow> verify_mode \<Rightarrow> int \<Rightarrow> string option \<Rightarrow> 's \<Rightarrow> int \<times> 's" where
  "verify_resend call mode secondsLeft email s =
     (if 0 < secondsLeft \<or> \<not> truthy email then (secondsLeft, s)
      else case call (api_resendOtp (resend_body (the email)
             (case mode of mode_login \<Rightarrow> ''login'' | mode_signup \<Rightarrow> ''signup_verification''))) s of
        (Inr (loaded _), t) \<Rightarrow> (RESEND_SECONDS, t)
      | (_, t) \<Rightarrow> (secondsLeft, t))"

section \<open>Where a page leads\<close>

text \<open>What a browser makes of a reference that starts with a slash (the URL standard, on an \<open>https\<close> page): tabs and line
  breaks are dropped, a backslash is a slash, and two slashes start the authority of another site, given here as it is written: what the
  standard makes of a host name (its case, its escapes, a user or a port in front of or behind it, its refusal of names
  that are none) is left out.\<close>

datatype place = same_site string | other_site string

definition slash :: "char \<Rightarrow> bool" where
  "slash c \<longleftrightarrow> c = CHR ''/'' \<or> c = CHR 0x5C"

definition url_text :: "string \<Rightarrow> string" where
  "url_text r = filter (\<lambda>c. c \<notin> {CHR 0x09, CHR 0x0A, CHR 0x0D}) r"

definition resolved :: "string \<Rightarrow> place" where
  "resolved r =
     (let t = url_text r in
      if 2 \<le> length t \<and> slash (t ! 0) \<and> slash (t ! 1)
      then other_site (takeWhile (\<lambda>c. \<not> slash c \<and> c \<noteq> CHR ''?'' \<and> c \<noteq> CHR ''#'') (dropWhile slash t))
      else same_site t)"

end
