(* ===== verification/Web_Forms_Laws.thy ===== *)
theory Web_Forms_Laws
  imports Web_Forms
begin

text \<open>
  What holds of the forms: what a code field can hold, which sign-ups the backend takes, where a verified sign-in leads,
  and what becomes of a draft.
\<close>

section \<open>The code field\<close>

lemma first_boxes: "concat (map (\<lambda>i. if i < length v then [v ! i] else []) [0..<n]) = take n v"
  by (induction n) (auto simp: take_Suc_conv_app_nth)

lemma digits_of_value: "length v \<le> 6 \<Longrightarrow> concat (digits_of v) = v"
  by (simp add: digits_of_def first_boxes)

definition code_text :: "string \<Rightarrow> bool" where
  "code_text v \<longleftrightarrow> list_all is_digit v \<and> length v \<le> 6"

definition small :: "string \<Rightarrow> bool" where
  "small d \<longleftrightarrow> list_all is_digit d \<and> length d \<le> 1"

lemma small_last_digit: "small (last_digit raw)"
proof -
  have "list_all is_digit (filter is_digit raw)" by (simp add: list_all_iff)
  then show ?thesis by (auto simp: small_def last_digit_def Let_def list_all_iff dest: in_set_dropD)
qed

lemma concat_small: "list_all small ds \<Longrightarrow> list_all is_digit (concat ds) \<and> length (concat ds) \<le> length ds"
  by (induction ds) (auto simp: small_def)

lemma small_digits: "list_all is_digit v \<Longrightarrow> list_all small (digits_of v)"
  by (auto simp: digits_of_def small_def list_all_iff)

lemma list_all_update: "list_all P xs \<Longrightarrow> P y \<Longrightarrow> list_all P (xs[i := y])"
  using set_update_subset_insert[of xs i y] by (auto simp: list_all_iff)

lemma code_setDigit: "code_text v \<Longrightarrow> small d \<Longrightarrow> code_text (setDigit i d v)"
  using concat_small[OF list_all_update[OF small_digits, of v d i]]
  by (simp add: code_text_def setDigit_def digits_of_def)

lemma otp_value_code: "otp_value v \<Longrightarrow> code_text v"
proof (induction rule: otp_value.induct)
  case otp_empty
  then show ?case by (simp add: code_text_def)
next
  case (otp_change v i raw)
  then show ?case by (simp add: otp_handleChange_def code_setDigit small_last_digit)
next
  case (otp_backspace v i)
  then show ?case by (simp add: otp_handleBackspace_def code_setDigit small_def)
next
  case (otp_paste v pasted_text)
  then show ?case by (auto simp: otp_handlePaste_def Let_def code_text_def list_all_iff dest: in_set_takeD)
qed

text \<open>A digit typed into any empty box goes to the first one; a code typed digit by digit is the code.\<close>

lemma typed_at_end:
  assumes "length v \<le> i" and "i < 6" and "is_digit c"
  shows "otp_handleChange i [c] v = v @ [c]"
proof -
  have "[0..<6] = [0..<i] @ i # [Suc i..<6]"
    using assms(2) upt_add_eq_append[of 0 i "6 - i"] by (simp add: upt_conv_Cons)
  then have "digits_of v = map (\<lambda>i. if i < length v then [v ! i] else []) ([0..<i] @ i # [Suc i..<6])"
    by (simp add: digits_of_def)
  moreover have "concat (map (\<lambda>j. if j < length v then [v ! j] else []) [0..<i]) = v"
    using assms(1) by (simp add: first_boxes)
  ultimately show ?thesis using assms by (simp add: otp_handleChange_def setDigit_def last_digit_def list_update_append)
qed

section \<open>Signing up\<close>

text \<open>The wizard's form and the backend's schema agree but for short usernames (\<open>@\<close> and the format of an address are the
  backend's \<open>rt_email\<close>).\<close>

lemma password_ok: "password_error m p = None \<longleftrightarrow> text_trim p \<noteq> [] \<and> long_enough 8 p"
  by (auto simp: password_error_def MIN_PASSWORD_LENGTH_def long_enough_def)

lemma signup_accepted_iff:
  assumes "list_all ((=) None) (signup_errors f)" and "\<And>t. rt_coerce z (JStr t) = Some t"
    and "rt_email z (text_trim (sf_email f))"
  shows "registerSchema z (signup_body f) \<noteq> None \<longleftrightarrow> 3 \<le> length (text_trim (sf_username f))"
proof -
  have "long_enough 8 (sf_password f)" using assms(1) by (auto simp: signup_errors_def dest: password_ok[THEN iffD1, OF sym])
  moreover have "text_trim (sf_fullName f) \<noteq> []" "text_trim (sf_email f) \<noteq> []"
    using assms(1) by (auto simp: signup_errors_def email_error_def split: if_splits)
  ultimately show ?thesis using assms(2,3)
    by (auto simp: registerSchema_def signup_body_def text_field_def phone_field_def long_enough_def Suc_le_eq
        split: option.splits)
qed

section \<open>Where a sign-in leads\<close>

lemma safe_redirect_shape:
  "isSafeRedirect mode_login (Some r) \<longleftrightarrow> (\<exists>t. r = CHR ''/'' # t \<and> \<not> starts_with ''/'' t \<and> \<not> starts_with ''login'' t)"
  by (cases r) (auto simp: isSafeRedirect_def starts_with_def)

text \<open>A redirect that passes stays on the site exactly when what comes after its slash, once tabs and line breaks are dropped,
  does not start with a slash or a backslash.\<close>

lemma safe_redirect_stays_iff:
  assumes "isSafeRedirect mode_login (Some r)"
  shows "(\<exists>t. resolved r = same_site t) \<longleftrightarrow> \<not> (url_text (tl r) \<noteq> [] \<and> slash (hd (url_text (tl r))))"
proof -
  obtain t where "r = CHR ''/'' # t" using assms safe_redirect_shape by blast
  then have "url_text r = CHR ''/'' # url_text (tl r)" by (simp add: url_text_def)
  then show ?thesis by (cases "url_text (tl r)") (auto simp: resolved_def slash_def Let_def)
qed

definition host_name :: "string \<Rightarrow> bool" where
  "host_name h \<longleftrightarrow> h \<noteq> [] \<and> list_all (\<lambda>c. \<not> slash c \<and> c \<notin> {CHR ''?'', CHR ''#'', CHR 0x09, CHR 0x0A, CHR 0x0D}) h"

lemma takeWhile_host:
  assumes "list_all (\<lambda>c. \<not> slash c \<and> c \<notin> {CHR ''?'', CHR ''#'', CHR 0x09, CHR 0x0A, CHR 0x0D}) h"
  shows "takeWhile (\<lambda>c. \<not> slash c \<and> c \<noteq> CHR ''?'' \<and> c \<noteq> CHR ''#'') (url_text h) = h"
  using assms by (induction h) (auto simp: url_text_def)

lemma backslash_leaves: "host_name h \<Longrightarrow> resolved (CHR ''/'' # CHR 0x5C # h) = other_site h"
proof -
  assume h: "host_name h"
  then have "url_text h = h" by (auto simp: host_name_def url_text_def list_all_iff intro!: filter_id_conv[THEN iffD2])
  moreover have "dropWhile slash h = h" using h by (cases h) (auto simp: host_name_def)
  ultimately show ?thesis using h takeWhile_host[of h]
    by (simp add: resolved_def url_text_def slash_def Let_def host_name_def)
qed

text \<open>C38. A sign-in link can send the user to any site. When a visitor without a draft follows a link to the login page whose
  redirect is a slash, a backslash and a host name, and signs in (the code is accepted), the check for safe redirects
  lets it through and the page asked for is the one the link named, which a browser resolves to that other host.\<close>

theorem sign_in_link_leaves_site:
  assumes "host_name h" and "truthy (vi_pendingEmail v)" and "length code = 6" and "vi_draft v = None"
    and "call (verify_call mode_login (the (vi_pendingEmail v)) code) s = (Inr (loaded answer), t)"
  shows "\<exists>v' s'. verify_submit encodePot now call mode_login (Some (CHR ''/'' # CHR 0x5C # h)) code (s, v) = (None, s', v') \<and>
    resolved (vi_page v') = other_site h"
  using assms backslash_leaves[OF assms(1)]
  by (simp add: verify_submit_def Let_def clearPendingVerifyEmail_def draft_call_def push_def page_after_def isSafeRedirect_def
      starts_with_def)

theorem sign_in_link_leaves_site_witness:
  "\<exists>v' s'. verify_submit (\<lambda>_. JNull) 0 (\<lambda>_ s. (Inr (loaded JNull), s)) mode_login (Some (CHR ''/'' # CHR 0x5C # ''evil.com'')) ''123456''
     ((), \<lparr>vi_pendingEmail = Some ''ada@x.ng'', vi_draft = None, vi_page = ''/login/verify''\<rparr>) = (None, s', v') \<and>
   resolved (vi_page v') = other_site ''evil.com''"
  by (rule sign_in_link_leaves_site) (auto simp: host_name_def slash_def truthy_def)

section \<open>Drafts\<close>

text \<open>A draft whose pot was refused is gone, though the page says to try again.\<close>

lemma refused_draft_is_lost:
  assumes "truthy (vi_pendingEmail v)" and "length code = 6"
    and "call (verify_call mode (the (vi_pendingEmail v)) code) s = (Inr (loaded answer), t)"
    and "draft_call encodePot now (vi_draft v) = Some (Inr creation)" and "fst (call creation (snd (call api_getMe t))) = Inr (api_error m status)"
  shows "\<exists>v' s'. verify_submit encodePot now call mode redirectTo code (s, v) = (None, s', v') \<and> vi_draft v' = None"
  using assms by (cases "call creation (snd (call api_getMe t))")
    (simp add: verify_submit_def Let_def clearPendingVerifyEmail_def clearDraftPot_def push_def)

end
