(* ===== verification/Web_Tables.thy ===== *)
theory Web_Tables
  imports Web_Pages
begin

text \<open>
  Lists and texts of the web client: the CSV export of \<open>components/ui/TableToolbar.tsx\<close> with the rows the pot page exports,
  the dashboard \<open>app/(app)/home/page.tsx\<close>, the activity page \<open>app/(app)/activity/page.tsx\<close>, and the sentence a pot's page
  says about its payout rule (\<open>components/pot/payout-rule-copy.ts\<close>). \<open>toLowerCase\<close>, \<open>formatNaira\<close> and
  \<open>toLocaleDateString\<close> are parameters.
\<close>

section \<open>Export\<close>

definition csv_special :: "char \<Rightarrow> bool" where
  "csv_special c \<longleftrightarrow> c \<in> {CHR 0x22, CHR '','', CHR 0x0A}"

definition doubled_quotes :: "string \<Rightarrow> string" where
  "doubled_quotes = concat \<circ> map (\<lambda>c. if c = CHR 0x22 then [c, c] else [c])"

definition escapeCell :: "string \<Rightarrow> string" where
  "escapeCell cell = (if list_ex csv_special cell then CHR 0x22 # doubled_quotes cell @ [CHR 0x22] else cell)"

definition csv_text :: "string list \<Rightarrow> string list list \<Rightarrow> string" where
  "csv_text headers rows = join_with [CHR 0x0A] (map (\<lambda>row. join_with '','' (map escapeCell row)) (headers # rows))"

fun type_text :: "transaction_type \<Rightarrow> string" where
  "type_text ty_funding = ''funding''"
| "type_text ty_contribution = ''contribution''"
| "type_text ty_payout = ''payout''"
| "type_text ty_refund = ''refund''"
| "type_text ty_fee = ''fee''"
| "type_text ty_transfer = ''transfer''"
| "type_text ty_reversal = ''reversal''"

text \<open>A row of the feed is a transaction with its amount and the name shown for it.\<close>

definition activityExportRows :: "(transaction \<times> string \<times> string option) list \<Rightarrow> string list list" where
  "activityExportRows rows = map (\<lambda>(t, amount, displayName).
     [type_text (tx_type t), (case displayName of Some n \<Rightarrow> n | None \<Rightarrow> ''Anonymous''), toISOString (tx_createdAt t), amount]) rows"

fun role_text :: "role \<Rightarrow> string" where
  "role_text role_admin = ''admin''"
| "role_text role_member = ''member''"

fun member_export_row :: "member_row \<Rightarrow> string list" where
  "member_export_row (member_row _ fullName username role) = [fullName, username, role_text role, ''active'']"
| "member_export_row (pending_row email role) = [email, [], role_text role, ''pending'']"

definition activityHeaders :: "string list" where "activityHeaders = [''Type'', ''Name'', ''Date'', ''Amount'']"
definition membersHeaders :: "string list" where "membersHeaders = [''Name'', ''Username'', ''Role'', ''Status'']"

section \<open>The dashboard\<close>

fun statusOrder :: "pot_status \<Rightarrow> nat" where
  "statusOrder pot_open = 0"
| "statusOrder draft = 1"
| "statusOrder pot_closed = 2"

definition sortedPots :: "pot_view list \<Rightarrow> pot_view list" where
  "sortedPots = sort_key (\<lambda>v. statusOrder (pot_status (pv_pot v)))"

text \<open>\<open>None\<close> is the tab "All".\<close>

definition visiblePots :: "(string \<Rightarrow> string) \<Rightarrow> pot_status option \<Rightarrow> string \<Rightarrow> pot_view list \<Rightarrow> pot_view list" where
  "visiblePots lower tab query vs = filter (\<lambda>v. (tab = None \<or> tab = Some (pot_status (pv_pot v))) \<and>
     text_includes (lower (text_trim query)) (lower (pot_title (pv_pot v)))) (sortedPots vs)"

section \<open>The activity page\<close>

definition typeGroups :: "string \<Rightarrow> transaction_type list option" where
  "typeGroups tab = (if tab = ''payout'' then Some [ty_payout] else if tab = ''refund'' then Some [ty_refund, ty_reversal]
     else if tab = ''contribution'' then Some [ty_contribution, ty_funding] else None)"

definition my_activity :: "string \<Rightarrow> transaction list \<Rightarrow> transaction list" where
  "my_activity tab ts =
     (let sorted_ts = sort_key (\<lambda>t. - tx_createdAt t) (filter (\<lambda>t. tx_status t = tx_completed) ts) in
      if tab = ''all'' then sorted_ts
      else filter (\<lambda>t. case typeGroups tab of None \<Rightarrow> False | Some types \<Rightarrow> tx_type t \<in> set types) sorted_ts)"

datatype money_color = success | error_color | primary

definition moneyColorFor :: "transaction_type \<Rightarrow> money_color" where
  "moneyColorFor t = (if t \<in> {ty_funding, ty_contribution} then success
     else if t \<in> {ty_payout, ty_refund, ty_reversal} then error_color else primary)"

section \<open>The payout rule in a sentence\<close>

definition once_text :: string where "once_text = '' It pays out once, then closes.''"
definition again_text :: string where
  "again_text = '' It can pay out again any time the balance reaches that amount. It doesn't close on its own.''"

definition target_rule :: "(string \<Rightarrow> string) \<Rightarrow> (string \<Rightarrow> string) \<Rightarrow> string option \<Rightarrow> string option \<Rightarrow> string" where
  "target_rule formatDate formatNaira targetDate targetAmount =
     (let conditions = (if truthy targetDate then [''the target date, '' @ formatDate (the targetDate) @ '', arrives''] else [])
        @ (if truthy targetAmount then [''the pot reaches '' @ formatNaira (the targetAmount)] else [])
      in if conditions = [] then ''This pot pays out once its conditions are set.''
         else (''This pot pays out once '' @ join_with '', or '' conditions @ ''.'') @ (if truthy targetDate then once_text else again_text))"

definition count_text :: "nat \<Rightarrow> string" where "count_text n = show_int (int n)"

definition describePayoutRule :: "(string \<Rightarrow> string) \<Rightarrow> (string \<Rightarrow> string) \<Rightarrow> pot_view \<Rightarrow> string" where
  "describePayoutRule formatDate formatNaira v =
     (case pv_payoutConfig v of
        None \<Rightarrow> []
      | Some config \<Rightarrow>
          (case pot_payoutMode (pv_pot v) of
             manual \<Rightarrow>
               if (case config of view_manual account bank _ \<Rightarrow> truthy account \<and> truthy bank | view_target_based account bank _ _ _ _ \<Rightarrow> account \<noteq> [] \<and> bank \<noteq> []
                   | view_recurring account bank _ _ _ _ \<Rightarrow> account \<noteq> [] \<and> bank \<noteq> [] | view_scheduled _ _ \<Rightarrow> False)
               then ''An admin can trigger a payout at any time, always to the same fixed account, as many times as needed.''
               else ''An admin can send the balance to any account whenever they choose. The destination is picked at the time of payout, and stays visible to everyone afterward.''
           | target_based \<Rightarrow>
               (case config of view_target_based _ _ _ targetDate targetAmount _ \<Rightarrow> target_rule formatDate formatNaira targetDate targetAmount
                | _ \<Rightarrow> ''This pot pays out once its conditions are set.'')
           | recurring \<Rightarrow>
               (case config of view_recurring _ _ _ amount days nextRunAt \<Rightarrow>
                  ''This pot pays out '' @ formatNaira amount @ '' every '' @ show_int days @ '' days, starting '' @ formatDate nextRunAt @ ''.''
                | _ \<Rightarrow> ''This pot pays out on a fixed interval, repeating automatically.'')
           | scheduled \<Rightarrow>
               (case config of view_scheduled ordered legs \<Rightarrow>
                  (let remaining = length (filter (\<lambda>l. \<not> lv_fired l) legs) in
                   if ordered then ''This pot pays out to each person in turn. '' @ count_text remaining @ '' of '' @ count_text (length legs) @ '' turns still to go.''
                   else ''This pot pays out on a fixed schedule of legs. '' @ count_text remaining @ '' of '' @ count_text (length legs) @ '' still to go.'')
                | _ \<Rightarrow> ''This pot pays out on a set schedule of legs.'')))"

end
