(* ===== verification/Web_Landing.thy ===== *)
theory Web_Landing
  imports Web_Forms
begin

text \<open>
  Trying the program from its landing page: the use cases of \<open>components/landing/use-cases-data.ts\<close> with the form each
  starts from, and the dialog \<open>TryItModal.tsx\<close>, which edits a part of that form and creates the pot, or keeps it as a
  draft for the sign-up. The day four weeks from now is a parameter. A leg made by \<open>patchDestination\<close> where there was
  none has fields that are \<open>undefined\<close>, which are blank here: every use of them treats the two alike.
\<close>

section \<open>Use cases\<close>

record use_case =
  uc_id :: string
  uc_title :: string
  uc_description :: string
  uc_payoutMode :: payout_mode
  uc_potType :: pot_type
  uc_refundType :: refund_type

definition featuredUseCases :: "use_case list" where
  "featuredUseCases = [
     \<lparr>uc_id = ''rotating-ajo'', uc_title = ''Installment & rotating ajo'',
       uc_description = ''The same trusted circle, run properly. Whether everyone's paid in turn (ajo/esusu) or a big purchase is paid off in stages, it runs on schedule, automatically.'',
       uc_payoutMode = scheduled, uc_potType = private_pot, uc_refundType = refund_contributors\<rparr>,
     \<lparr>uc_id = ''emergency-fundraising'', uc_title = ''Fundraising & emergencies'',
       uc_description = ''Medical bills, disaster relief, a sudden crisis. Anyone can contribute, no membership required, and every payout is logged for every contributor to see.'',
       uc_payoutMode = manual, uc_potType = public_pot, uc_refundType = refund_admin\<rparr>,
     \<lparr>uc_id = ''weddings'', uc_title = ''Events & ceremonies'',
       uc_description = ''Office colleagues, family, or friends pooling for a couple's big day. Locked to a date or amount, paid to the couple, refunded to contributors if the target isn't met.'',
       uc_payoutMode = target_based, uc_potType = private_pot, uc_refundType = refund_contributors\<rparr>,
     \<lparr>uc_id = ''hostel-dues'', uc_title = ''Housing/community & association monthly dues & levies'',
       uc_description = ''Same amount, same date, every month, for generator fuel, cleaning, security. Set it once and it fires on its own. No more chasing people, no more \"oga I sent it\".'',
       uc_payoutMode = recurring, uc_potType = private_pot, uc_refundType = refund_admin\<rparr>]"

definition scheduledUseCases :: "use_case list" where
  "scheduledUseCases = [
     \<lparr>uc_id = ''trader-rotation'', uc_title = ''Trader rotating contribution'',
       uc_description = ''A market or trade group's rotating collection. Same engine, each person's turn comes on schedule.'',
       uc_payoutMode = scheduled, uc_potType = private_pot, uc_refundType = refund_contributors\<rparr>,
     \<lparr>uc_id = ''coop-rotating'', uc_title = ''Cooperative thrift, rotating payout'',
       uc_description = ''Monthly contributions from every member, paid out to one member at a time in turn.'',
       uc_payoutMode = scheduled, uc_potType = private_pot, uc_refundType = refund_contributors\<rparr>,
     \<lparr>uc_id = ''installment-purchase'', uc_title = ''Big purchase, paid in installments'',
       uc_description = ''Friends or family pool toward one big buy (a generator, a fridge, a laptop) and pay the vendor in stages, each installment on its own date, independent of the others.'',
       uc_payoutMode = scheduled, uc_potType = private_pot, uc_refundType = refund_contributors\<rparr>]"

definition manualUseCases :: "use_case list" where
  "manualUseCases = [
     \<lparr>uc_id = ''medical-emergency-fund'', uc_title = ''Medical bill emergency fund'',
       uc_description = ''A sudden diagnosis, an accident, a crisis. Anyone can contribute, no membership required, and a trusted admin releases funds the moment it's needed.'',
       uc_payoutMode = manual, uc_potType = public_pot, uc_refundType = refund_admin\<rparr>,
     \<lparr>uc_id = ''urgent-house-fixes'', uc_title = ''Urgent house fixes'',
       uc_description = ''A burst pipe, a broken generator. One trusted tenant collects and pays the artisan immediately, and every other tenant can see the money move.'',
       uc_payoutMode = manual, uc_potType = private_pot, uc_refundType = refund_admin\<rparr>,
     \<lparr>uc_id = ''community-levy'', uc_title = ''Community development levy'',
       uc_description = ''Estate or street association funding a shared project. Anyone can give.'',
       uc_payoutMode = manual, uc_potType = public_pot, uc_refundType = refund_admin\<rparr>,
     \<lparr>uc_id = ''welfare-fund'', uc_title = ''Staff welfare fund'',
       uc_description = ''HR collects for a colleague in need. Welfare officers approve the payout.'',
       uc_payoutMode = manual, uc_potType = private_pot, uc_refundType = refund_admin\<rparr>,
     \<lparr>uc_id = ''group-gift'', uc_title = ''Office or group gift'',
       uc_description = ''Colleagues pooling for a leaving gift, a birthday, a retirement. Small, quick, single payout.'',
       uc_payoutMode = manual, uc_potType = private_pot, uc_refundType = refund_admin\<rparr>,
     \<lparr>uc_id = ''religious-project'', uc_title = ''Church or mosque project fund'',
       uc_description = ''A unit head pays the vendor once the renovation or equipment fund is ready.'',
       uc_payoutMode = manual, uc_potType = private_pot, uc_refundType = refund_admin\<rparr>,
     \<lparr>uc_id = ''travel-fund'', uc_title = ''Travel group fund'',
       uc_description = ''Everyone pays their share of the trip; refunded to contributors if it falls through.'',
       uc_payoutMode = manual, uc_potType = private_pot, uc_refundType = refund_contributors\<rparr>,
     \<lparr>uc_id = ''dept-levies'', uc_title = ''University department levies'',
       uc_description = ''Class rep or course captain collects departmental dues each session and releases funds for materials, events, or projects as needed.'',
       uc_payoutMode = manual, uc_potType = private_pot, uc_refundType = refund_admin\<rparr>]"

definition targetUseCases :: "use_case list" where
  "targetUseCases = [
     \<lparr>uc_id = ''burial'', uc_title = ''Burial & funeral contributions'',
       uc_description = ''Family scattered across states, all pooling in. Time-sensitive, locked to a date, paid where the creator directs.'',
       uc_payoutMode = target_based, uc_potType = private_pot, uc_refundType = refund_contributors\<rparr>,
     \<lparr>uc_id = ''school-fees'', uc_title = ''School fees emergency pool'',
       uc_description = ''A WhatsApp group covers a member's fees once enough has come in.'',
       uc_payoutMode = target_based, uc_potType = private_pot, uc_refundType = refund_contributors\<rparr>,
     \<lparr>uc_id = ''rent-pooling'', uc_title = ''House rent pooling'',
       uc_description = ''Roommates splitting rent into one pot. No single person ever holds the money.'',
       uc_payoutMode = target_based, uc_potType = private_pot, uc_refundType = refund_contributors\<rparr>,
     \<lparr>uc_id = ''baby-shower'', uc_title = ''Baby shower & naming ceremony'',
       uc_description = ''Friends chipping in for a gift or the event itself. Locked to an amount or a date.'',
       uc_payoutMode = target_based, uc_potType = private_pot, uc_refundType = refund_contributors\<rparr>,
     \<lparr>uc_id = ''startup-capital'', uc_title = ''Startup capital among friends'',
       uc_description = ''Friends co-funding a business idea. Refunded to everyone if the target isn't reached.'',
       uc_payoutMode = target_based, uc_potType = private_pot, uc_refundType = refund_contributors\<rparr>,
     \<lparr>uc_id = ''capital-calls'', uc_title = ''Business partner capital calls'',
       uc_description = ''Partners each commit a fixed amount. Fires only once everyone's contribution is in.'',
       uc_payoutMode = target_based, uc_potType = private_pot, uc_refundType = refund_contributors\<rparr>]"

definition recurringUseCases :: "use_case list" where
  "recurringUseCases = [
     \<lparr>uc_id = ''tenants-levy'', uc_title = ''Landlord & tenants association levy'',
       uc_description = ''Monthly estate costs like security, generator, and borehole, paid automatically.'',
       uc_payoutMode = recurring, uc_potType = private_pot, uc_refundType = refund_admin\<rparr>,
     \<lparr>uc_id = ''fellowship-dues'', uc_title = ''Fellowship & campus ministry dues'',
       uc_description = ''Weekly or monthly dues, paid straight to the ministry account, on schedule.'',
       uc_payoutMode = recurring, uc_potType = private_pot, uc_refundType = refund_admin\<rparr>,
     \<lparr>uc_id = ''market-dues'', uc_title = ''Market & trade association dues'',
       uc_description = ''Traders' recurring dues, paid out without anyone chasing receipts.'',
       uc_payoutMode = recurring, uc_potType = private_pot, uc_refundType = refund_admin\<rparr>,
     \<lparr>uc_id = ''coop-thrift'', uc_title = ''Cooperative thrift (SACCO-style)'',
       uc_description = ''Formal cooperative contributions, paid out on the society's own calendar.'',
       uc_payoutMode = recurring, uc_potType = private_pot, uc_refundType = refund_admin\<rparr>]"

fun useCasesByMode :: "payout_mode \<Rightarrow> use_case list" where
  "useCasesByMode scheduled = scheduledUseCases"
| "useCasesByMode manual = manualUseCases"
| "useCasesByMode target_based = targetUseCases"
| "useCasesByMode recurring = recurringUseCases"

definition allUseCases :: "use_case list" where
  "allUseCases = featuredUseCases @ concat (map useCasesByMode [scheduled, manual, target_based, recurring])"

definition buildTemplateFromUseCase :: "string \<Rightarrow> use_case \<Rightarrow> wizard_state" where
  "buildTemplateFromUseCase fourWeeksIso u =
     (let base = initialWizardState\<lparr>ws_title := uc_title u, ws_description := uc_description u, ws_potType := uc_potType u,
        ws_refundType := uc_refundType u, ws_payoutMode := Some (uc_payoutMode u)\<rparr> in
      case uc_payoutMode u of
        target_based \<Rightarrow> base\<lparr>ws_targetAmountNaira := ''100000.00''\<rparr>
      | recurring \<Rightarrow> base\<lparr>ws_recurringAmountNaira := ''5000.00'', ws_recurringIntervalDays := ''30'', ws_recurringNextRunAt := fourWeeksIso\<rparr>
      | scheduled \<Rightarrow> base\<lparr>ws_scheduledOrdered := True,
          ws_scheduledLegs := [(emptyLeg 0)\<lparr>wl_amount := ''5000.00'', wl_scheduledDate := fourWeeksIso\<rparr>]\<rparr>
      | manual \<Rightarrow> base)"

section \<open>The dialog\<close>

definition first_leg :: "wizard_state \<Rightarrow> wizard_leg" where
  "first_leg f = (case ws_scheduledLegs f of [] \<Rightarrow> emptyLeg 0 | l # _ \<Rightarrow> l)"

definition readDestination :: "wizard_state \<Rightarrow> (string \<times> string) option" where
  "readDestination f =
     (case ws_payoutMode f of
        Some target_based \<Rightarrow> Some (ws_targetDestinationAccount f, ws_targetDestinationBank f)
      | Some recurring \<Rightarrow> Some (ws_recurringDestinationAccount f, ws_recurringDestinationBank f)
      | Some scheduled \<Rightarrow> Some (wl_destinationAccount (first_leg f), wl_destinationBank (first_leg f))
      | _ \<Rightarrow> None)"

text \<open>\<open>next\<close>, a record of optional fields, as an update of the three.\<close>

definition patchDestination ::
  "wizard_state \<Rightarrow> (string \<times> string \<times> string option \<Rightarrow> string \<times> string \<times> string option) \<Rightarrow> wizard_state" where
  "patchDestination f change =
     (case ws_payoutMode f of
        Some target_based \<Rightarrow>
          (let (a, b, n) = change (ws_targetDestinationAccount f, ws_targetDestinationBank f, ws_targetDestinationConfirmedName f) in
           f\<lparr>ws_targetDestinationAccount := a, ws_targetDestinationBank := b, ws_targetDestinationConfirmedName := n\<rparr>)
      | Some recurring \<Rightarrow>
          (let (a, b, n) = change (ws_recurringDestinationAccount f, ws_recurringDestinationBank f, ws_recurringDestinationConfirmedName f) in
           f\<lparr>ws_recurringDestinationAccount := a, ws_recurringDestinationBank := b, ws_recurringDestinationConfirmedName := n\<rparr>)
      | Some scheduled \<Rightarrow>
          (let l = first_leg f; (a, b, n) = change (wl_destinationAccount l, wl_destinationBank l, wl_destinationConfirmedName l) in
           f\<lparr>ws_scheduledLegs := l\<lparr>wl_destinationAccount := a, wl_destinationBank := b, wl_destinationConfirmedName := n\<rparr>
             # tl (ws_scheduledLegs f)\<rparr>)
      | _ \<Rightarrow> f)"

definition set_account :: "string \<Rightarrow> string \<times> string \<times> string option \<Rightarrow> string \<times> string \<times> string option" where
  "set_account account = (\<lambda>(a, b, n). (account, b, n))"

definition set_bank :: "string \<Rightarrow> string \<times> string \<times> string option \<Rightarrow> string \<times> string \<times> string option" where
  "set_bank bank = (\<lambda>(a, b, n). (a, bank, n))"

definition set_confirmed :: "string option \<Rightarrow> string \<times> string \<times> string option \<Rightarrow> string \<times> string \<times> string option" where
  "set_confirmed confirmed = (\<lambda>(a, b, n). (a, b, confirmed))"

text \<open>What the dialog's fields do to the form; the two amounts are there in their modes only.\<close>

inductive try_it :: "string \<Rightarrow> use_case \<Rightarrow> wizard_state \<Rightarrow> bool" for fourWeeksIso u where
  try_template: "try_it fourWeeksIso u (buildTemplateFromUseCase fourWeeksIso u)"
| try_title: "try_it fourWeeksIso u f \<Longrightarrow> try_it fourWeeksIso u (f\<lparr>ws_title := title\<rparr>)"
| try_mode: "try_it fourWeeksIso u f \<Longrightarrow> try_it fourWeeksIso u (f\<lparr>ws_payoutMode := Some mode\<rparr>)"
| try_account: "try_it fourWeeksIso u f \<Longrightarrow> try_it fourWeeksIso u (patchDestination f (set_account account))"
| try_bank: "try_it fourWeeksIso u f \<Longrightarrow> try_it fourWeeksIso u (patchDestination f (set_bank bank))"
| try_confirmed: "try_it fourWeeksIso u f \<Longrightarrow> try_it fourWeeksIso u (patchDestination f (set_confirmed confirmed))"
| try_target: "try_it fourWeeksIso u f \<Longrightarrow> ws_payoutMode f = Some target_based \<Longrightarrow>
    try_it fourWeeksIso u (f\<lparr>ws_targetAmountNaira := sanitizeAmountInput raw\<rparr>)"
| try_recurring: "try_it fourWeeksIso u f \<Longrightarrow> ws_payoutMode f = Some recurring \<Longrightarrow>
    try_it fourWeeksIso u (f\<lparr>ws_recurringAmountNaira := sanitizeAmountInput raw\<rparr>)"
| try_refund: "try_it fourWeeksIso u f \<Longrightarrow> try_it fourWeeksIso u (f\<lparr>ws_refundType := refundType\<rparr>)"

text \<open>The messages it shows after a click that was refused.\<close>

definition try_messages :: "wizard_state \<Rightarrow> string option list" where
  "try_messages f =
     (case readDestination f of None \<Rightarrow> []
      | Some (account, bank) \<Rightarrow>
          [if account = [] then Some ''Enter the payout account number.'' else None, if bank = [] then Some ''Choose the payout bank.'' else None])"

text \<open>\<open>handleCreate\<close>, with whether the messages are shown from now on.\<close>

definition try_create ::
  "(CreatePotInput \<Rightarrow> json) \<Rightarrow> time \<Rightarrow> (api_call \<Rightarrow> ('s, api_outcome) op) \<Rightarrow> wizard_state \<Rightarrow> bool \<times> 's \<times> visit \<Rightarrow> bool \<times> 's \<times> visit" where
  "try_create encodePot now call f = (\<lambda>(showErrors, s, v).
     if text_trim (ws_title f) = [] \<or> ws_payoutMode f = None then (showErrors, s, v)
     else if \<not> isConfigStepValid f then (True, s, v)
     else case call api_getMe s of
       (Inr (loaded _), t) \<Rightarrow>
         (case create_input now f of
            Some (Inr input) \<Rightarrow>
              (case call (api_createPot (encodePot input)) t of
                 (Inr (loaded pot_json), t') \<Rightarrow> (showErrors, t', push (''/pots/'' @ pot_id_text pot_json @ ''/edit'') v)
               | (_, t') \<Rightarrow> (showErrors, t', v))
          | _ \<Rightarrow> (showErrors, t, v))
     | (_, t) \<Rightarrow> (showErrors, t, push ''/signup'' (saveDraftPot f v)))"

end
