(* ===== verification/Web_Landing_Laws.thy ===== *)
theory Web_Landing_Laws
  imports Web_Landing Web_Wizard_Laws
begin

text \<open>
  What holds of the landing page's dialog: every template can be made into a pot, another mode than the template's may have
  no way to be, and who is signed in but cannot be recognised loses the draft.
\<close>

section \<open>Templates\<close>

text \<open>The three shapes of a template with a confirmed destination.\<close>

lemma whole_naira:
  assumes "list_all is_digit w" and "w \<noteq> []" and "BigInt w < 2 ^ 53"
  shows "js_number (w @ ''.00'') = Some (of_int (BigInt w))"
proof -
  have hundred: "BigInt (w @ ''00'') = BigInt w * 100"
    using parse_nat_snoc[of "w @ ''0''" "CHR ''0''"] parse_nat_snoc[of w "CHR ''0''"] by (simp add: BigInt_def digit_val_def)
  have zeros: "list_all is_digit ''00''" by (simp add: is_digit_def)
  have "of_int (BigInt w * 100) / 10 ^ 2 = (of_int (BigInt w) :: rat)" by simp
  moreover have "double_of (of_int (BigInt w)) = of_int (BigInt w)" using assms(3) by (intro double_of_int) (simp_all add: BigInt_def)
  ultimately show ?thesis
    using assms(1,2) take_digits[OF assms(1), of "''00''"] zeros hundred by (simp add: js_number_def Let_def)
qed

lemma template_amounts: "isValidTargetAmount ''100000.00''" "isPositiveAmount ''5000.00''" "isValidIntervalDays ''30''"
proof -
  have "list_all is_digit ''100000''" "list_all is_digit ''5000''" "list_all is_digit ''50''" by (simp_all add: is_digit_def)
  moreover have "BigInt ''100000'' = 100000" "BigInt ''5000'' = 5000" "BigInt ''50'' = 50"
    by (simp_all add: BigInt_def parse_nat_def digit_val_def)
  ultimately have "js_number ''100000.00'' = Some 100000" "js_number ''5000.00'' = Some 5000" "js_number ''50.00'' = Some 50"
    using whole_naira[of "''100000''"] whole_naira[of "''5000''"] whole_naira[of "''50''"] by simp_all
  then show "isValidTargetAmount ''100000.00''" "isPositiveAmount ''5000.00''"
    by (simp_all add: isValidTargetAmount_def isPositiveAmount_def number_above_def web_OUTBOUND_FEE_def)
  show "isValidIntervalDays ''30''" by code_simp
qed

lemma template_is_valid:
  assumes "account \<noteq> []" and "bank \<noteq> []" and "truthy confirmed" and "fourWeeksIso \<noteq> []"
  shows "isConfigStepValid (patchDestination (buildTemplateFromUseCase fourWeeksIso u) (\<lambda>_. (account, bank, confirmed)))"
  using assms template_amounts
  by (cases "uc_payoutMode u") (simp_all add: buildTemplateFromUseCase_def patchDestination_def first_leg_def isConfigStepValid_def valid_leg_def
      emptyLeg_def initialWizardState_def)

lemma use_cases_have_titles: "list_all (\<lambda>u. text_trim (uc_title u) \<noteq> []) allUseCases"
  by code_simp

lemma use_cases_by_mode: "list_all (\<lambda>mode. list_all (\<lambda>u. uc_payoutMode u = mode) (useCasesByMode mode)) [scheduled, manual, target_based, recurring]"
  by code_simp

section \<open>Dead ends\<close>

text \<open>What no field of the dialog can fill in.\<close>

definition unfilled :: "use_case \<Rightarrow> wizard_state \<Rightarrow> bool" where
  "unfilled u f \<longleftrightarrow> (uc_payoutMode u \<noteq> recurring \<longrightarrow> ws_recurringNextRunAt f = []) \<and>
     (uc_payoutMode u \<noteq> scheduled \<longrightarrow> list_all (\<lambda>l. wl_scheduledDate l = []) (ws_scheduledLegs f))"

lemma unfilled_patch: "unfilled u f \<Longrightarrow> unfilled u (patchDestination f change)"
  by (cases "ws_scheduledLegs f")
    (auto simp: unfilled_def patchDestination_def first_leg_def emptyLeg_def Let_def split: option.split payout_mode.split prod.split)

lemma try_unfilled: "try_it fourWeeksIso u f \<Longrightarrow> unfilled u f"
proof (induction rule: try_it.induct)
  case try_template
  then show ?case by (cases "uc_payoutMode u") (simp_all add: unfilled_def buildTemplateFromUseCase_def initialWizardState_def)
qed (simp_all add: unfilled_patch, simp_all add: unfilled_def)

lemma no_message: "readDestination f = Some (account, bank) \<Longrightarrow> account \<noteq> [] \<Longrightarrow> bank \<noteq> [] \<Longrightarrow> try_messages f = [None, None]"
  by (simp add: try_messages_def)

text \<open>Choosing another rule in the dialog can be a dead end. From a template of one payout mode, once the select is set to
  "Repeats automatically" or "Set schedule" and the template was not of that mode, whatever is typed in the dialog, its
  button sends nothing and keeps no draft: the date it asks for has no field there. With an account and a bank filled in
  no message says so.\<close>

lemma other_rule_is_a_dead_end:
  assumes "try_it fourWeeksIso u f" and "ws_payoutMode f = Some mode" and "mode = recurring \<or> mode = scheduled" and "mode \<noteq> uc_payoutMode u"
  shows "(\<exists>shown. try_create encodePot now call f (showErrors, s, v) = (shown, s, v)) \<and>
    (\<forall>account bank. readDestination f = Some (account, bank) \<and> account \<noteq> [] \<and> bank \<noteq> [] \<longrightarrow> try_messages f = [None, None])"
proof -
  have "\<not> isConfigStepValid f"
    using try_unfilled[OF assms(1)] assms(2-4)
    by (cases "ws_scheduledLegs f") (auto simp: unfilled_def isConfigStepValid_def valid_leg_def)
  then show ?thesis by (auto simp: try_create_def no_message)
qed

definition gift :: use_case where "gift = manualUseCases ! 4"

lemma other_rule_is_a_dead_end_witness:
  "let f = patchDestination (patchDestination ((buildTemplateFromUseCase ''2025-06-01'' gift)\<lparr>ws_payoutMode := Some recurring\<rparr>)
       (set_account ''0123456789'')) (set_bank ''058'') in
   (\<exists>shown. try_create (\<lambda>_. JNull) 0 (\<lambda>_ s. (Inr (loaded JNull), Suc s)) f (False, 0, \<lparr>vi_pendingEmail = None, vi_draft = None, vi_page = ''/''\<rparr>) =
      (shown, 0, \<lparr>vi_pendingEmail = None, vi_draft = None, vi_page = ''/''\<rparr>)) \<and> try_messages f = [None, None]"
proof -
  let ?f = "patchDestination (patchDestination ((buildTemplateFromUseCase ''2025-06-01'' gift)\<lparr>ws_payoutMode := Some recurring\<rparr>)
       (set_account ''0123456789'')) (set_bank ''058'')"
  have mode: "uc_payoutMode gift = manual" by code_simp
  have reach: "try_it ''2025-06-01'' gift ?f"
    by (intro try_bank try_account try_mode try_template)
  have now: "ws_payoutMode ?f = Some recurring" "readDestination ?f = Some (''0123456789'', ''058'')"
    by (simp_all add: patchDestination_def readDestination_def set_account_def set_bank_def split: prod.split)
  show ?thesis
    using other_rule_is_a_dead_end[OF reach now(1), of "\<lambda>_. JNull" 0 "\<lambda>_ s. (Inr (loaded JNull), Suc s)" False 0
        "\<lparr>vi_pendingEmail = None, vi_draft = None, vi_page = ''/''\<rparr>"] now(2) mode
    by (simp add: Let_def)
qed

section \<open>Drafts\<close>

text \<open>Any failure to load the user keeps the form as a draft and asks for the sign-up page, which sends a browser with a
  session home: there nothing picks the draft up.\<close>

lemma draft_stranded:
  assumes "text_trim (ws_title f) \<noteq> []" and "isConfigStepValid f" and "\<And>j. fst (call api_getMe s) \<noteq> Inr (loaded j)"
  shows "\<exists>t v'. try_create encodePot now call f (showErrors, s, v) = (showErrors, t, v') \<and> vi_draft v' = Some f \<and>
    proxy True (vi_page v') = redirect_to ''/home'' None"
proof -
  obtain r t where run: "call api_getMe s = (r, t)" by fastforce
  then have "\<And>j. r \<noteq> Inr (loaded j)" using assms(3) by simp
  moreover have "ws_payoutMode f \<noteq> None" using assms(2) by (cases "ws_payoutMode f") (simp_all add: isConfigStepValid_def)
  ultimately have "try_create encodePot now call f (showErrors, s, v) = (showErrors, t, push ''/signup'' (saveDraftPot f v))"
    using assms(1,2) run by (auto simp: try_create_def split: sum.split api_outcome.split)
  moreover have "proxy True ''/signup'' = redirect_to ''/home'' None" by (simp add: proxy_def GUEST_ONLY_ROUTES_def)
  ultimately show ?thesis by (auto simp: push_def saveDraftPot_def)
qed

end
