(* ===== verification/Spec2Isabelle.thy ===== *)
theory Spec2Isabelle
  imports Ledger_Properties Disburse_Laws Worker_Laws Contributions_Laws Web_Money Throttle Action_Otp_Laws
    Pots_Laws Sweeps_Liveness Webhooks_Laws Reconcile_Laws Auth_Laws Pot_Config_Laws Token_Flight Failed_Jobs
    Pots_Routes_Laws Web_Session_Laws Web_Wizard_Laws Web_Pages_Laws Web_Modals_Laws Web_Client
    Web_Forms_Laws Web_Tables_Laws Web_Landing_Laws
begin

text \<open>
  Glasspot lets a group collect money in a pot and pay it out by rules the group has agreed on. Its backend
  (\<open>apps/backend/src\<close>) keeps a double-entry ledger in Postgres, moves money through the bank provider Nomba, and
  runs transfers through a BullMQ queue; a web client (\<open>apps/web\<close>) talks to it through a proxy of its own. This
  development models the backend's routes, services, controllers and provider client, the web server's proxy and
  sessions and the computing parts of the web client, as HOL functions, and proves what keeps the money right.

  How the parts interact. A contribution opens a virtual account at Nomba (\<open>contributions.service.ts\<close>); Nomba's
  webhook about a payment (\<open>nomba-webhooks.service.ts\<close>) credits the pot in the ledger. A payout or a refund
  (asked for in \<open>pots.service.ts\<close> with a mailed code, or due in a sweep of \<open>payout-scheduler.service.ts\<close>,
  \<open>target-based-payout.service.ts\<close>, \<open>expiry.service.ts\<close>) claims the pot's lock and queues jobs; \<open>worker.ts\<close> posts a
  job to the ledger, calls Nomba, and completes or reverses the posting; a transfer whose outcome is unknown is
  settled by a later webhook. \<open>reconciliation.service.ts\<close> compares the books with Nomba's.

  How code becomes HOL.
  \<^item> A table is a list of records, a row a record with the columns of \<open>db/schema/\<close> (theory \<open>Schema\<close>); \<open>db\<close> is the
    record of all tables, with the ledger tables in \<open>led\<close>, the queue, and what left the process (transfers asked
    of Nomba, mails). Kobo amounts are \<open>int\<close>, as the source's bigints, times are milliseconds. Postgres' bound on a
    \<open>bigint\<close> column is left out. An amount sent to Nomba is kept as the text that the code turns into a number, which is
    exact below 2^52 kobo (\<open>Numbers.float_detour_exact\<close>). Characters end at 255: the naira sign is written N.
  \<^item> An async function is an operation \<open>(db, 'a) op\<close> (theory \<open>Prelude\<close>): from a state to an error or a value and the state
    left behind. An error keeps the writes before it; only what the source puts in \<open>db.transaction\<close> is undone.
  \<^item> The world is a record of functions, \<open>env\<close> (theory \<open>World\<close>): clock, random ids, the answers of Nomba and of the
    queue, and \<open>e_gap\<close>, what other requests do to the tables in the gaps the code leaves between a read and the
    write that relies on it. Results that need quiet assume \<open>e_gap w = id\<close>; results about races do not.
    Hash functions, JSON parsing, JWT and scrypt (record \<open>crypto\<close>) are parameters as well.

  The theories, in the order of the code (each \<open>_Laws\<close> theory proves what its component promises):
  \<^item> \<open>Prelude\<close>, \<open>Schema\<close>, \<open>World\<close>: the operations and tables, and the interface \<open>keyed_update\<close> of updates that keep
    a table's key.
  \<^item> \<open>Money\<close>, \<open>Numbers\<close>, \<open>Fees\<close>: \<open>lib/money.ts\<close>, IEEE doubles as far as amounts pass through them, \<open>lib/fees.ts\<close> with the
    interface \<open>fee_split\<close> (legs that balance), interpreted on all four splits.
  \<^item> \<open>Ledger\<close>, \<open>Ledger_Laws\<close>, \<open>Ledger_Properties\<close>: \<open>ledger.service.ts\<close> and \<open>accounts.service.ts\<close>. The books balance after
    any history of calls, a posting is all or nothing, reversing undoes it, a reference is posted once.
  \<^item> \<open>Pot_Lock\<close>, \<open>Split\<close>, \<open>Disburse\<close>, \<open>Disburse_Laws\<close>, \<open>Target\<close>: \<open>pots.service.ts\<close> from the authorization checks to
    \<open>resolvePendingTransfer\<close>. The lock is the interface \<open>leg_lock\<close>, which says it is free exactly after as many
    releases as legs; a disbursement reserves money the pot has; a refund pays out the balance to the kobo.
  \<^item> \<open>Worker\<close>, \<open>Worker_Laws\<close>: \<open>workers/worker.ts\<close>, the four outcomes of a transfer and redelivery.
  \<^item> \<open>Contributions\<close>, \<open>Frames\<close>, \<open>Contributions_Laws\<close>: creation, funding and reversal. \<open>Frames\<close> holds the interface
    \<open>disbursement_frame\<close>, what a disbursement leaves alone, interpreted for each table that stays as it is.
  \<^item> \<open>Throttle\<close> (the sliding window of \<open>transfer-throttle.ts\<close>, in memory and in Redis, interface \<open>sliding_window\<close>),
    \<open>Idempotency\<close>, \<open>Action_Otp\<close>, \<open>Action_Otp_Laws\<close>: what guards a request to pay out. The law about confirmation codes
    is over any history of requests, attempts and what happens elsewhere (\<open>otp_event\<close>).
  \<^item> \<open>Members\<close>, \<open>Members_Laws\<close>, \<open>Pot_Config\<close>, \<open>Pot_Config_Laws\<close>, \<open>Pots\<close>, \<open>Http_Errors\<close>, \<open>Pots_Controller\<close>, \<open>Pot_Frames\<close>,
    \<open>Pots_Laws\<close>: members, payout rules, a pot's life and the HTTP handlers. Reachability by any calls of the account API
    (registering, verifying an email, signing in and so on) and the pots API, one after another, is the step relation
    \<open>pot_call\<close>; invariants over it are proved once per operation. The worker, the sweeps and the webhooks are no part of it.
  \<^item> \<open>Sweeps\<close>, \<open>Sweeps_Laws\<close>, \<open>Sweeps_Liveness\<close>: the cron sweeps, up to: a due recurring payout is paid.
  \<^item> \<open>Webhooks\<close>, \<open>Webhooks_Laws\<close>: signature, deduplication (interfaces \<open>webhook_id_store\<close> and \<open>redis_keys\<close>), the durable
    event record, dispatch and the route.
  \<^item> \<open>Reconcile\<close>, \<open>Reconcile_Laws\<close>: the walk over Nomba's pages and a run's report.
  \<^item> \<open>Auth\<close>, \<open>Auth_Laws\<close>: accounts, codes, token rotation, the authentication hooks and the handlers.
  \<^item> \<open>Nomba_Client\<close>, \<open>Token_Flight\<close>, \<open>Failed_Jobs\<close>: requests and their error normalisation, the token and bank caches,
    callers sharing one token request as a step relation, failed jobs and their retry.
  \<^item> \<open>Auth_Routes\<close>, \<open>Pots_Routes\<close>, \<open>Pots_Routes_Laws\<close>: the routes of accounts, profile and pots with the body, path and query
    schemas as AJV enforces them (a schema is a function from JSON to an input or nothing; coercion, formats and error texts
    are parameters) and the order of schema check, authentication hook and handler. Every request is a \<open>pot_call\<close>
    or changes nothing; without a valid token nothing changes on a guarded route.
  \<^item> \<open>Web_Money\<close>: the client's arithmetic and fee preview, equal to the backend's.
  \<^item> \<open>Web_Session\<close>, \<open>Web_Session_Laws\<close>: the web server between browser and backend (\<open>apps/web/lib/server\<close>, \<open>app/api\<close>,
    \<open>proxy.ts\<close>): cookies, renewal of an expired token, the auth routes, the page gate. Here the model of the backend is
    plugged in behind the proxy: renewal works for one call and ends the session for two, logout reaches nothing.
  \<^item> \<open>Web_Wizard\<close>, \<open>Web_Wizard_Laws\<close>: the form of a pot (\<open>components/pot/wizard\<close>): reading amounts and dates, the check of a
    step, what is submitted, and how it compares with the backend's validation: an amount needs digits on both sides of
    its dot.
  \<^item> \<open>Web_Pages\<close>, \<open>Web_Pages_Laws\<close>: the messages of the steps, the new-pot page as a step relation, saving an edited
    draft, the pot page's buttons and lists.
  \<^item> \<open>Web_Modals\<close>, \<open>Web_Modals_Laws\<close>: the dialogs of payouts and contributions and what the backend does with what they send.
  \<^item> \<open>Web_Forms\<close>, \<open>Web_Forms_Laws\<close>: signing in and up (\<open>components/auth\<close>), the code field as a step relation, the redirect
    after a sign-in and the resolution of a reference by a browser.
  \<^item> \<open>Web_Tables\<close>, \<open>Web_Tables_Laws\<close>: the CSV export with a reader that ends a record at a line feed, a carriage return or
    both (which cells survive it), the dashboard and activity lists, the sentence about a payout rule and the backend's
    side of it (when it is true).
  \<^item> \<open>Web_Landing\<close>, \<open>Web_Landing_Laws\<close>: the landing page's use cases, the templates made of them and the dialog that tries
    one, as a step relation.
  \<^item> \<open>Web_Client\<close>: the calls of \<open>lib/api.ts\<close>, the polling hook as a state machine, the account lookup.
  Bounds and termination. The loop of \<open>narrowToFeeCoveredLegs\<close> ends because a round that changes anything drops a leg;
  the walk over Nomba's pages because of \<open>MAX_RECONCILE_PAGES\<close> (the 10001st page ends it). No definition uses fuel
  of its own; recursion elsewhere is structural.

  Not modelled, and why: the rendering and styling of React pages and components; the routes of banks, failed jobs and health, the
  HEAD routes Fastify adds, plugins and response serialization (declarations; their handlers are modelled); queue and cron
  registration (BullMQ's); configuration and connections; HTML bodies of mails, log calls, migrations. Concurrency inside one
  operation is modelled where the code has a read followed by a write that relies on it (\<open>e_gap\<close>), and for the token
  request; the sharing of one bank-list request is not. The foreign keys of pots, members and
  people added by email are part of their inserts (creator, member, who added them, the pot), that of contributions part
  of a pot's deletion; those of the other tables name rows the same request has read or written.
\<close>

end
